(* ===== verification/FluxPrelude.thy ===== *)
theory FluxPrelude
  imports Main "HOL-Library.Word" "HOL-Library.Signed_Division"
begin

unbundle bit_operations_syntax

section \<open>Shared types, C evaluation results and word lemmas\<close>

text \<open>
  The types of include/flux/kernel.h that every component uses, the result type of C
  evaluation, and the generic lemmas the component theories share.

  \<^item> \<open>flux_status\<close> is \<open>flux_status_t\<close>: one constructor per \<open>FLUX_OK\<close> / \<open>FLUX_ERR_*\<close>.
  \<^item> \<open>'a cres\<close> is the result of evaluating a piece of C: \<open>Val x\<close> when it is defined and
    yields \<open>x\<close>, \<open>UB u\<close> when the evaluation has undefined behaviour of kind \<open>u\<close> (an access
    outside an object, a null dereference, a signed overflow, an over-wide shift).
    A fixed-size C array is a function from \<open>nat\<close>; every access goes through a bounds test
    that yields \<open>UB\<close> where the C indexes outside the array.
\<close>

type_synonym u8 = "8 word"
type_synonym u16 = "16 word"
type_synonym u32 = "32 word"
type_synonym u64 = "64 word"

datatype flux_status =
    FLUX_OK | FLUX_ERR_GENERAL | FLUX_ERR_NOMEM | FLUX_ERR_INVALID | FLUX_ERR_DENIED
  | FLUX_ERR_TIMEOUT | FLUX_ERR_BUSY | FLUX_ERR_NOTFOUND | FLUX_ERR_EXISTS
  | FLUX_ERR_OVERFLOW | FLUX_ERR_DEADLOCK

datatype ub =
    OobRegister | OobStack | OobCallStack | OobRegion | OobRegionTable | OobBytecode | OobTrace | OobBuffer
  | NullPointer | SignedOverflow | BadShift | BadFloatConversion | DivisionByZero

datatype 'a cres = UB ub | Val 'a

named_theorems cres_simps \<open>equations of the C evaluation combinators\<close>
named_theorems inv_rules \<open>preservation of the machine invariant by one operation\<close>
named_theorems frame_rules \<open>what an operation leaves unchanged\<close>

subsection \<open>Sequencing C evaluations\<close>

fun cbind :: "'a cres \<Rightarrow> ('a \<Rightarrow> 'b cres) \<Rightarrow> 'b cres" where
  "cbind (UB u) f = UB u"
| "cbind (Val x) f = f x"

fun cmap :: "('a \<Rightarrow> 'b) \<Rightarrow> 'a cres \<Rightarrow> 'b cres" where
  "cmap f (UB u) = UB u"
| "cmap f (Val x) = Val (f x)"

text \<open>\<open>call P r\<close>: if the evaluation is defined, its value satisfies \<open>P\<close>.\<close>

fun call :: "('a \<Rightarrow> bool) \<Rightarrow> 'a cres \<Rightarrow> bool" where
  "call P (UB u) = True"
| "call P (Val x) = P x"

fun defined :: "'a cres \<Rightarrow> bool" where
  "defined (UB u) = False"
| "defined (Val x) = True"

text \<open>The value of a defined evaluation.\<close>

fun the_val :: "'a cres \<Rightarrow> 'a" where
  "the_val (Val x) = x"

lemma cbind_Val_iff: "cbind m f = Val y \<longleftrightarrow> (\<exists>x. m = Val x \<and> f x = Val y)"
  by (cases m) auto

lemma cmap_Val_iff: "cmap f m = Val y \<longleftrightarrow> (\<exists>x. m = Val x \<and> y = f x)"
  by (cases m) auto

lemma cmap_UB_iff: "cmap f m = UB u \<longleftrightarrow> m = UB u"
  by (cases m) auto

lemma cbind_assoc [cres_simps]: "cbind (cbind m f) g = cbind m (\<lambda>x. cbind (f x) g)"
  by (cases m) auto

lemma call_cbind: "call P (cbind m f) \<longleftrightarrow> call (\<lambda>x. call P (f x)) m"
  by (cases m) auto

lemma call_cmap: "call P (cmap f m) \<longleftrightarrow> call (P \<circ> f) m"
  by (cases m) auto

lemma call_mono: "call P m \<Longrightarrow> (\<And>x. m = Val x \<Longrightarrow> P x \<Longrightarrow> Q x) \<Longrightarrow> call Q m"
  by (cases m) auto

lemma call_iff: "call P m \<longleftrightarrow> (\<forall>x. m = Val x \<longrightarrow> P x)"
  by (cases m) auto

lemma call_True: "(\<And>x. P x) \<Longrightarrow> call P m"
  by (cases m) auto

lemma defined_iff: "defined m \<longleftrightarrow> (\<exists>x. m = Val x)"
  by (cases m) auto

lemma defined_cbind: "defined (cbind m f) \<longleftrightarrow> defined m \<and> call (\<lambda>x. defined (f x)) m"
  by (cases m) auto

lemma defined_cmap [simp]: "defined (cmap f m) \<longleftrightarrow> defined m"
  by (cases m) auto

lemmas call_simps = call_cbind call_cmap

subsection \<open>Signed 64-bit arithmetic, as C has it\<close>

text \<open>
  \<open>int64_t\<close> values are kept as their two's complement words; an operation whose exact result
  does not fit has undefined behaviour.
\<close>

definition in_s64 :: "int \<Rightarrow> bool" where
  "in_s64 r \<longleftrightarrow> - (2 ^ 63) \<le> r \<and> r < 2 ^ 63"

definition s64 :: "int \<Rightarrow> u64 cres" where
  "s64 r = (if in_s64 r then Val (word_of_int r) else UB SignedOverflow)"

text \<open>C division and remainder truncate towards zero: \<open>sdiv\<close> and \<open>smod\<close>.\<close>

lemma s64_Val: "s64 r = Val w \<Longrightarrow> sint w = r"
proof -
  assume "s64 r = Val w"
  then have r: "- (2 ^ 63) \<le> r" "r < 2 ^ 63" and w: "w = word_of_int r"
    by (auto simp: s64_def in_s64_def split: if_splits)
  have "sint (word_of_int r :: u64) = signed_take_bit 63 r"
    by (simp add: sint_uint uint_word_of_int_eq signed_take_bit_take_bit)
  also have "\<dots> = r"
    using r by (simp add: signed_take_bit_int_eq_self)
  finally show ?thesis using w by simp
qed

lemma sint_s64_range: "- (2 ^ 63) \<le> sint (w :: u64)" "sint (w :: u64) < 2 ^ 63"
  using sint_range_size [of w] by (auto simp: word_size)

lemma in_s64_sint [simp]: "in_s64 (sint (w :: u64))"
  using sint_s64_range by (simp add: in_s64_def)

lemma s64_sint [simp]: "s64 (sint (w :: u64)) = Val w"
  by (simp add: s64_def)

subsection \<open>Words\<close>

lemma unat_u8_less: "unat (x :: u8) < 256"
  using unsigned_less [of x, where ?'a = nat] by simp

lemma unat_add_no_wrap:
  "unat (a :: 'a::len word) + unat b < 2 ^ LENGTH('a) \<Longrightarrow> unat (a + b) = unat a + unat b"
  by (simp add: unat_word_ariths)

lemma unat_sub_le: "b \<le> (a :: 'a::len word) \<Longrightarrow> unat (a - b) = unat a - unat b"
  by (rule unat_sub)

text \<open>An addition of a small constant wraps exactly when the sum falls below the constant.\<close>

lemma u64_add_le_iff:
  fixes a s :: u64 and k :: nat
  assumes "k < 2 ^ 64" and "k \<le> unat (a + of_nat k)"
  shows "unat (a + of_nat k) = unat a + k"
proof -
  have k: "unat (of_nat k :: u64) = k" using assms(1) by (simp add: unat_of_nat)
  have s: "unat (a + of_nat k) = (unat a + k) mod 2 ^ 64"
    using k by (simp add: unat_word_ariths)
  have "unat a < 2 ^ 64" using unsigned_less [of a, where ?'a = nat] by simp
  show ?thesis
  proof (cases "unat a + k < 2 ^ 64")
    case True then show ?thesis using s by simp
  next
    case False
    then have "(unat a + k) mod 2 ^ 64 = unat a + k - 2 ^ 64"
      using assms(1) \<open>unat a < 2 ^ 64\<close> by (simp add: mod_if)
    then show ?thesis using s assms(2) \<open>unat a < 2 ^ 64\<close> assms(1) False by linarith
  qed
qed

subsection \<open>Scanning a table\<close>

text \<open>\<open>for (i = i; i < n; i++) if (P(i)) return i;\<close>\<close>

function first_index :: "(nat \<Rightarrow> bool) \<Rightarrow> nat \<Rightarrow> nat \<Rightarrow> nat option" where
  "first_index P i n = (if i < n then (if P i then Some i else first_index P (Suc i) n) else None)"
  by auto
termination by (relation "measure (\<lambda>(P, i, n). n - i)") auto

declare first_index.simps [simp del]

lemma first_index_Some:
  "first_index P i n = Some j \<longleftrightarrow> i \<le> j \<and> j < n \<and> P j \<and> (\<forall>k. i \<le> k \<and> k < j \<longrightarrow> \<not> P k)"
proof (induction P i n rule: first_index.induct)
  case (1 P i n)
  show ?case
  proof (cases "i < n \<and> \<not> P i")
    case True
    then have "first_index P i n = first_index P (Suc i) n" by (subst first_index.simps) simp
    moreover have "(i \<le> j \<and> j < n \<and> P j \<and> (\<forall>k. i \<le> k \<and> k < j \<longrightarrow> \<not> P k)) =
        (Suc i \<le> j \<and> j < n \<and> P j \<and> (\<forall>k. Suc i \<le> k \<and> k < j \<longrightarrow> \<not> P k))"
      using True by (metis Suc_le_eq le_neq_implies_less order_less_imp_le)
    ultimately show ?thesis using 1 True by simp
  next
    case False
    then show ?thesis by (subst first_index.simps) (auto simp: not_less dest: le_neq_implies_less)
  qed
qed

lemma first_index_None: "first_index P i n = None \<longleftrightarrow> (\<forall>k. i \<le> k \<and> k < n \<longrightarrow> \<not> P k)"
proof (induction P i n rule: first_index.induct)
  case (1 P i n)
  show ?case
  proof (cases "i < n \<and> \<not> P i")
    case True
    then have "first_index P i n = first_index P (Suc i) n" by (subst first_index.simps) simp
    moreover have "(\<forall>k. i \<le> k \<and> k < n \<longrightarrow> \<not> P k) = (\<forall>k. Suc i \<le> k \<and> k < n \<longrightarrow> \<not> P k)"
      using True by (metis Suc_le_eq le_neq_implies_less order_less_imp_le)
    ultimately show ?thesis using 1 True by simp
  next
    case False
    then show ?thesis by (subst first_index.simps) auto
  qed
qed

subsection \<open>Decimal numbers, as \<open>%u\<close> prints them\<close>

fun decimal :: "nat \<Rightarrow> string" where
  "decimal n = (if n < 10 then [char_of (48 + n)] else decimal (n div 10) @ [char_of (48 + n mod 10)])"

declare decimal.simps [simp del]

lemma unat_ucast_32_64: "unat (ucast (x :: u32) :: u64) = unat x"
proof -
  have "unat x < 2 ^ 32" using unsigned_less [of x, where ?'a = nat] by simp
  then show ?thesis by (simp add: unsigned_ucast_eq take_bit_nat_eq_self)
qed

subsection \<open>The single-threaded view of locks\<close>

text \<open>
  Every kernel service takes a spinlock on entry and drops it on each exit. The model runs the
  services one at a time, so a lock is always free on entry and carries no state.
\<close>

end
