(* ===== verification/FluxOpcodes.thy ===== *)
theory FluxOpcodes
  imports FluxPrelude
begin

section \<open>Opcodes: numbers, instruction words, and the tables of vm/opcodes.c\<close>

text \<open>
  include/flux/opcodes.h and vm/opcodes.c. The \<open>#define\<close>s of the opcode numbers are
  abbreviations; the encoding helpers work on 32-bit instruction words; the name and category
  tables, the validity test and the format hint are functions of the opcode byte.
  The lemmas show that decoding inverts encoding for the A, B and C formats, that the E format
  does not keep its opcode, and how the tables relate to each other.
\<close>

subsection \<open>The opcode numbers\<close>

abbreviation (input) OP_NOP :: u8 where "OP_NOP \<equiv> 0x00"
abbreviation (input) OP_HALT :: u8 where "OP_HALT \<equiv> 0x01"
abbreviation (input) OP_TRAP :: u8 where "OP_TRAP \<equiv> 0x02"
abbreviation (input) OP_INVALID :: u8 where "OP_INVALID \<equiv> 0x03"
abbreviation (input) OP_IADD :: u8 where "OP_IADD \<equiv> 0x10"
abbreviation (input) OP_ISUB :: u8 where "OP_ISUB \<equiv> 0x11"
abbreviation (input) OP_IMUL :: u8 where "OP_IMUL \<equiv> 0x12"
abbreviation (input) OP_IDIV :: u8 where "OP_IDIV \<equiv> 0x13"
abbreviation (input) OP_IMOD :: u8 where "OP_IMOD \<equiv> 0x14"
abbreviation (input) OP_INEG :: u8 where "OP_INEG \<equiv> 0x15"
abbreviation (input) OP_IABS :: u8 where "OP_IABS \<equiv> 0x16"
abbreviation (input) OP_INC :: u8 where "OP_INC \<equiv> 0x17"
abbreviation (input) OP_DEC :: u8 where "OP_DEC \<equiv> 0x18"
abbreviation (input) OP_FADD :: u8 where "OP_FADD \<equiv> 0x19"
abbreviation (input) OP_FSUB :: u8 where "OP_FSUB \<equiv> 0x1A"
abbreviation (input) OP_FMUL :: u8 where "OP_FMUL \<equiv> 0x1B"
abbreviation (input) OP_FDIV :: u8 where "OP_FDIV \<equiv> 0x1C"
abbreviation (input) OP_FNEG :: u8 where "OP_FNEG \<equiv> 0x1D"
abbreviation (input) OP_I2F :: u8 where "OP_I2F \<equiv> 0x1E"
abbreviation (input) OP_F2I :: u8 where "OP_F2I \<equiv> 0x1F"
abbreviation (input) OP_IAND :: u8 where "OP_IAND \<equiv> 0x20"
abbreviation (input) OP_IOR :: u8 where "OP_IOR \<equiv> 0x21"
abbreviation (input) OP_IXOR :: u8 where "OP_IXOR \<equiv> 0x22"
abbreviation (input) OP_INOT :: u8 where "OP_INOT \<equiv> 0x23"
abbreviation (input) OP_ISHL :: u8 where "OP_ISHL \<equiv> 0x24"
abbreviation (input) OP_ISHR :: u8 where "OP_ISHR \<equiv> 0x25"
abbreviation (input) OP_USHR :: u8 where "OP_USHR \<equiv> 0x26"
abbreviation (input) OP_ROTATE_L :: u8 where "OP_ROTATE_L \<equiv> 0x27"
abbreviation (input) OP_ROTATE_R :: u8 where "OP_ROTATE_R \<equiv> 0x28"
abbreviation (input) OP_POPCOUNT :: u8 where "OP_POPCOUNT \<equiv> 0x29"
abbreviation (input) OP_CLZ :: u8 where "OP_CLZ \<equiv> 0x2A"
abbreviation (input) OP_CTZ :: u8 where "OP_CTZ \<equiv> 0x2B"
abbreviation (input) OP_BSWAP :: u8 where "OP_BSWAP \<equiv> 0x2C"
abbreviation (input) OP_ANDI :: u8 where "OP_ANDI \<equiv> 0x2D"
abbreviation (input) OP_ORI :: u8 where "OP_ORI \<equiv> 0x2E"
abbreviation (input) OP_XORI :: u8 where "OP_XORI \<equiv> 0x2F"
abbreviation (input) OP_CMP :: u8 where "OP_CMP \<equiv> 0x30"
abbreviation (input) OP_CMPI :: u8 where "OP_CMPI \<equiv> 0x31"
abbreviation (input) OP_FCMP :: u8 where "OP_FCMP \<equiv> 0x32"
abbreviation (input) OP_TEST :: u8 where "OP_TEST \<equiv> 0x33"
abbreviation (input) OP_TESTI :: u8 where "OP_TESTI \<equiv> 0x34"
abbreviation (input) OP_JMP :: u8 where "OP_JMP \<equiv> 0x40"
abbreviation (input) OP_JZ :: u8 where "OP_JZ \<equiv> 0x41"
abbreviation (input) OP_JNZ :: u8 where "OP_JNZ \<equiv> 0x42"
abbreviation (input) OP_JE :: u8 where "OP_JE \<equiv> 0x43"
abbreviation (input) OP_JNE :: u8 where "OP_JNE \<equiv> 0x44"
abbreviation (input) OP_JG :: u8 where "OP_JG \<equiv> 0x45"
abbreviation (input) OP_JL :: u8 where "OP_JL \<equiv> 0x46"
abbreviation (input) OP_JGE :: u8 where "OP_JGE \<equiv> 0x47"
abbreviation (input) OP_JLE :: u8 where "OP_JLE \<equiv> 0x48"
abbreviation (input) OP_JA :: u8 where "OP_JA \<equiv> 0x49"
abbreviation (input) OP_JB :: u8 where "OP_JB \<equiv> 0x4A"
abbreviation (input) OP_JAE :: u8 where "OP_JAE \<equiv> 0x4B"
abbreviation (input) OP_JBE :: u8 where "OP_JBE \<equiv> 0x4C"
abbreviation (input) OP_JC :: u8 where "OP_JC \<equiv> 0x4D"
abbreviation (input) OP_JO :: u8 where "OP_JO \<equiv> 0x4E"
abbreviation (input) OP_LOOP :: u8 where "OP_LOOP \<equiv> 0x4F"
abbreviation (input) OP_LOAD :: u8 where "OP_LOAD \<equiv> 0x50"
abbreviation (input) OP_LOAD8 :: u8 where "OP_LOAD8 \<equiv> 0x51"
abbreviation (input) OP_LOAD16 :: u8 where "OP_LOAD16 \<equiv> 0x52"
abbreviation (input) OP_LOAD32 :: u8 where "OP_LOAD32 \<equiv> 0x53"
abbreviation (input) OP_STORE :: u8 where "OP_STORE \<equiv> 0x54"
abbreviation (input) OP_STORE8 :: u8 where "OP_STORE8 \<equiv> 0x55"
abbreviation (input) OP_STORE16 :: u8 where "OP_STORE16 \<equiv> 0x56"
abbreviation (input) OP_STORE32 :: u8 where "OP_STORE32 \<equiv> 0x57"
abbreviation (input) OP_LEA :: u8 where "OP_LEA \<equiv> 0x58"
abbreviation (input) OP_CMPXCHG :: u8 where "OP_CMPXCHG \<equiv> 0x59"
abbreviation (input) OP_ATOMIC_ADD :: u8 where "OP_ATOMIC_ADD \<equiv> 0x5A"
abbreviation (input) OP_ATOMIC_SUB :: u8 where "OP_ATOMIC_SUB \<equiv> 0x5B"
abbreviation (input) OP_FENCE :: u8 where "OP_FENCE \<equiv> 0x5C"
abbreviation (input) OP_LOAD_RM :: u8 where "OP_LOAD_RM \<equiv> 0x5D"
abbreviation (input) OP_STORE_RM :: u8 where "OP_STORE_RM \<equiv> 0x5E"
abbreviation (input) OP_PUSH :: u8 where "OP_PUSH \<equiv> 0x60"
abbreviation (input) OP_POP :: u8 where "OP_POP \<equiv> 0x61"
abbreviation (input) OP_PUSH_IMM :: u8 where "OP_PUSH_IMM \<equiv> 0x62"
abbreviation (input) OP_DUP :: u8 where "OP_DUP \<equiv> 0x63"
abbreviation (input) OP_SWAP :: u8 where "OP_SWAP \<equiv> 0x64"
abbreviation (input) OP_ENTER :: u8 where "OP_ENTER \<equiv> 0x65"
abbreviation (input) OP_LEAVE :: u8 where "OP_LEAVE \<equiv> 0x66"
abbreviation (input) OP_PUSHA :: u8 where "OP_PUSHA \<equiv> 0x67"
abbreviation (input) OP_POPA :: u8 where "OP_POPA \<equiv> 0x68"
abbreviation (input) OP_CALL :: u8 where "OP_CALL \<equiv> 0x70"
abbreviation (input) OP_CALLI :: u8 where "OP_CALLI \<equiv> 0x71"
abbreviation (input) OP_RET :: u8 where "OP_RET \<equiv> 0x72"
abbreviation (input) OP_RETI :: u8 where "OP_RETI \<equiv> 0x73"
abbreviation (input) OP_SYSCALL :: u8 where "OP_SYSCALL \<equiv> 0x74"
abbreviation (input) OP_CALL_REG :: u8 where "OP_CALL_REG \<equiv> 0x75"
abbreviation (input) OP_TAILCALL :: u8 where "OP_TAILCALL \<equiv> 0x76"
abbreviation (input) OP_ICALL :: u8 where "OP_ICALL \<equiv> 0x77"
abbreviation (input) OP_DELEGATE :: u8 where "OP_DELEGATE \<equiv> 0x80"
abbreviation (input) OP_TELL :: u8 where "OP_TELL \<equiv> 0x81"
abbreviation (input) OP_ASK :: u8 where "OP_ASK \<equiv> 0x82"
abbreviation (input) OP_REPLY :: u8 where "OP_REPLY \<equiv> 0x83"
abbreviation (input) OP_BARRIER :: u8 where "OP_BARRIER \<equiv> 0x84"
abbreviation (input) OP_SPAWN :: u8 where "OP_SPAWN \<equiv> 0x85"
abbreviation (input) OP_YIELD_AGENT :: u8 where "OP_YIELD_AGENT \<equiv> 0x86"
abbreviation (input) OP_CAP_GRANT :: u8 where "OP_CAP_GRANT \<equiv> 0x87"
abbreviation (input) OP_CAP_CHECK :: u8 where "OP_CAP_CHECK \<equiv> 0x88"
abbreviation (input) OP_CAP_REVOKE :: u8 where "OP_CAP_REVOKE \<equiv> 0x89"
abbreviation (input) OP_IO_READ :: u8 where "OP_IO_READ \<equiv> 0x90"
abbreviation (input) OP_IO_WRITE :: u8 where "OP_IO_WRITE \<equiv> 0x91"
abbreviation (input) OP_IO_READ8 :: u8 where "OP_IO_READ8 \<equiv> 0x92"
abbreviation (input) OP_IO_WRITE8 :: u8 where "OP_IO_WRITE8 \<equiv> 0x93"
abbreviation (input) OP_IO_READ16 :: u8 where "OP_IO_READ16 \<equiv> 0x94"
abbreviation (input) OP_IO_WRITE16 :: u8 where "OP_IO_WRITE16 \<equiv> 0x95"
abbreviation (input) OP_IO_READ32 :: u8 where "OP_IO_READ32 \<equiv> 0x96"
abbreviation (input) OP_IO_WRITE32 :: u8 where "OP_IO_WRITE32 \<equiv> 0x97"
abbreviation (input) OP_TILE_LOAD :: u8 where "OP_TILE_LOAD \<equiv> 0xA0"
abbreviation (input) OP_TILE_COMPOSE :: u8 where "OP_TILE_COMPOSE \<equiv> 0xA1"
abbreviation (input) OP_TILE_EXEC :: u8 where "OP_TILE_EXEC \<equiv> 0xA2"
abbreviation (input) OP_REGION_CREATE :: u8 where "OP_REGION_CREATE \<equiv> 0xA3"
abbreviation (input) OP_REGION_DESTROY :: u8 where "OP_REGION_DESTROY \<equiv> 0xA4"
abbreviation (input) OP_REGION_MAP :: u8 where "OP_REGION_MAP \<equiv> 0xA5"
abbreviation (input) OP_ADAPT :: u8 where "OP_ADAPT \<equiv> 0xA6"
abbreviation (input) OP_EVOLVE :: u8 where "OP_EVOLVE \<equiv> 0xA7"
abbreviation (input) OP_MODULE_IMPORT :: u8 where "OP_MODULE_IMPORT \<equiv> 0xA8"
abbreviation (input) OP_MODULE_EXPORT :: u8 where "OP_MODULE_EXPORT \<equiv> 0xA9"
abbreviation (input) OP_TRACE_ON :: u8 where "OP_TRACE_ON \<equiv> 0xAA"
abbreviation (input) OP_TRACE_OFF :: u8 where "OP_TRACE_OFF \<equiv> 0xAB"
abbreviation (input) OP_PROF_START :: u8 where "OP_PROF_START \<equiv> 0xAC"
abbreviation (input) OP_PROF_STOP :: u8 where "OP_PROF_STOP \<equiv> 0xAD"
abbreviation (input) OP_GAS_INIT :: u8 where "OP_GAS_INIT \<equiv> 0xAE"
abbreviation (input) OP_GAS_CHECK :: u8 where "OP_GAS_CHECK \<equiv> 0xAF"
abbreviation (input) OP_NATIVE_CALL :: u8 where "OP_NATIVE_CALL \<equiv> 0xB0"
abbreviation (input) OP_NATIVE_LOAD :: u8 where "OP_NATIVE_LOAD \<equiv> 0xB1"
abbreviation (input) OP_VEC_LOAD :: u8 where "OP_VEC_LOAD \<equiv> 0xB2"
abbreviation (input) OP_VEC_STORE :: u8 where "OP_VEC_STORE \<equiv> 0xB3"
abbreviation (input) OP_VEC_ADD :: u8 where "OP_VEC_ADD \<equiv> 0xB4"
abbreviation (input) OP_VEC_MUL :: u8 where "OP_VEC_MUL \<equiv> 0xB5"
abbreviation (input) OP_VEC_DOT :: u8 where "OP_VEC_DOT \<equiv> 0xB6"
abbreviation (input) OP_VEC_SPLAT :: u8 where "OP_VEC_SPLAT \<equiv> 0xB7"
subsection \<open>Encoding and decoding of instruction words\<close>

definition flux_encode_a :: "u8 \<Rightarrow> u8 \<Rightarrow> u8 \<Rightarrow> u8 \<Rightarrow> u32" where
  "flux_encode_a opcode rd rs1 rs2 =
     push_bit 24 (ucast opcode) OR push_bit 16 (ucast rd) OR push_bit 8 (ucast rs1) OR ucast rs2"

definition flux_encode_b :: "u8 \<Rightarrow> u8 \<Rightarrow> u16 \<Rightarrow> u32" where
  "flux_encode_b opcode rd imm =
     push_bit 24 (ucast opcode) OR push_bit 16 (ucast rd) OR ucast imm"

definition flux_encode_c :: "u8 \<Rightarrow> u32 \<Rightarrow> u32" where
  "flux_encode_c opcode target = push_bit 24 (ucast opcode) OR (target AND 0x00FFFFFF)"

definition flux_encode_e :: "u8 \<Rightarrow> u32 \<Rightarrow> u32" where
  "flux_encode_e opcode imm = push_bit 24 (ucast opcode) OR imm"

definition flux_decode_opcode :: "u32 \<Rightarrow> u8" where
  "flux_decode_opcode insn = ucast (drop_bit 24 insn)"

definition flux_decode_rd :: "u32 \<Rightarrow> u8" where
  "flux_decode_rd insn = ucast (drop_bit 16 insn AND 0xFF)"

definition flux_decode_rs1 :: "u32 \<Rightarrow> u8" where
  "flux_decode_rs1 insn = ucast (drop_bit 8 insn AND 0xFF)"

definition flux_decode_rs2 :: "u32 \<Rightarrow> u8" where
  "flux_decode_rs2 insn = ucast (insn AND 0xFF)"

text \<open>The result is the bit pattern of the \<open>int16_t\<close>.\<close>

definition flux_decode_imm16 :: "u32 \<Rightarrow> u16" where
  "flux_decode_imm16 insn = ucast (insn AND 0xFFFF)"

definition flux_decode_target :: "u32 \<Rightarrow> u32" where
  "flux_decode_target insn = insn AND 0x00FFFFFF"

lemmas encode_defs =
  flux_encode_a_def flux_encode_b_def flux_encode_c_def flux_encode_e_def
lemmas decode_defs =
  flux_decode_opcode_def flux_decode_rd_def flux_decode_rs1_def flux_decode_rs2_def
  flux_decode_imm16_def flux_decode_target_def

text \<open>The masks of the decoders are low-bit masks; in that form single bits are arithmetic.\<close>

lemma mask_u32:
  "(0xFF :: u32) = mask 8" "(0xFFFF :: u32) = mask 16" "(0x00FFFFFF :: u32) = mask 24"
  by (simp_all add: mask_eq_exp_minus_1)

lemma bit_word_ge: "LENGTH('a::len) \<le> n \<Longrightarrow> \<not> bit (w :: 'a word) n"
  using bit_imp_le_length by (metis linorder_not_less)

lemma bit_u8_ge: "8 \<le> n \<Longrightarrow> \<not> bit (w :: u8) n"
  by (rule bit_word_ge) simp

lemma bit_u16_ge: "16 \<le> n \<Longrightarrow> \<not> bit (w :: u16) n"
  by (rule bit_word_ge) simp

lemma decode_opcode_encode_a: "flux_decode_opcode (flux_encode_a opc rd rs1 rs2) = opc"
  unfolding encode_defs decode_defs mask_u32
  by (rule bit_word_eqI) (auto simp: bit_simps bit_u8_ge)

lemma decode_rd_encode_a: "flux_decode_rd (flux_encode_a opc rd rs1 rs2) = rd"
  unfolding encode_defs decode_defs mask_u32
  by (rule bit_word_eqI) (auto simp: bit_simps bit_u8_ge)

lemma decode_rs1_encode_a: "flux_decode_rs1 (flux_encode_a opc rd rs1 rs2) = rs1"
  unfolding encode_defs decode_defs mask_u32
  by (rule bit_word_eqI) (auto simp: bit_simps bit_u8_ge)

lemma decode_rs2_encode_a: "flux_decode_rs2 (flux_encode_a opc rd rs1 rs2) = rs2"
  unfolding encode_defs decode_defs mask_u32
  by (rule bit_word_eqI) (auto simp: bit_simps bit_u8_ge)

lemma decode_opcode_encode_b: "flux_decode_opcode (flux_encode_b opc rd imm) = opc"
  unfolding encode_defs decode_defs mask_u32
  by (rule bit_word_eqI) (auto simp: bit_simps bit_u8_ge bit_u16_ge)

lemma decode_rd_encode_b: "flux_decode_rd (flux_encode_b opc rd imm) = rd"
  unfolding encode_defs decode_defs mask_u32
  by (rule bit_word_eqI) (auto simp: bit_simps bit_u8_ge bit_u16_ge)

lemma decode_imm16_encode_b: "flux_decode_imm16 (flux_encode_b opc rd imm) = imm"
  unfolding encode_defs decode_defs mask_u32
  by (rule bit_word_eqI) (auto simp: bit_simps bit_u8_ge bit_u16_ge)

lemma decode_opcode_encode_c: "flux_decode_opcode (flux_encode_c opc t) = opc"
  unfolding encode_defs decode_defs mask_u32
  by (rule bit_word_eqI) (auto simp: bit_simps bit_u8_ge)

lemma decode_target_encode_c: "flux_decode_target (flux_encode_c opc t) = t AND 0x00FFFFFF"
  unfolding encode_defs decode_defs mask_u32
  by (rule bit_word_eqI) (auto simp: bit_simps bit_u8_ge)

lemmas decode_encode =
  decode_opcode_encode_a decode_rd_encode_a decode_rs1_encode_a decode_rs2_encode_a
  decode_opcode_encode_b decode_rd_encode_b decode_imm16_encode_b
  decode_opcode_encode_c decode_target_encode_c

subsection \<open>The name table\<close>

definition opcode_names_lo :: "string list" where
  "opcode_names_lo =
    [''NOP'', ''HALT'', ''TRAP'', ''INVALID'', ''SYS_WAKE'', ''SYS_PANIC'', ''SYS_DEBUG'', ''SYS_INFO'',
     ''SYS_RESET'', ''SYS_SUSPEND'', ''SYS_RESUME'', ''SYS_YIELD'', ''SYS_SLEEP'', ''SYS_TIMED_WAIT'', ''SYS_INTERRUPT'', ''SYS_EXCEPTION'',
     ''IADD'', ''ISUB'', ''IMUL'', ''IDIV'', ''IMOD'', ''INEG'', ''IABS'', ''INC'',
     ''DEC'', ''FADD'', ''FSUB'', ''FMUL'', ''FDIV'', ''FNEG'', ''I2F'', ''F2I'',
     ''IAND'', ''IOR'', ''IXOR'', ''INOT'', ''ISHL'', ''ISHR'', ''USHR'', ''ROTATE_L'',
     ''ROTATE_R'', ''POPCOUNT'', ''CLZ'', ''CTZ'', ''BSWAP'', ''ANDI'', ''ORI'', ''XORI'',
     ''CMP'', ''CMPI'', ''FCMP'', ''TEST'', ''TESTI'', ''CMP_EQ'', ''CMP_NE'', ''CMP_LT'',
     ''CMP_GT'', ''CMP_LE'', ''CMP_GE'', ''FCMP_EQ'', ''FCMP_LT'', ''FCMP_GT'', ''FCMP_LE'', ''FCMP_GE'']"

definition opcode_names_mid :: "string list" where
  "opcode_names_mid =
    [''JMP'', ''JZ'', ''JNZ'', ''JE'', ''JNE'', ''JG'', ''JL'', ''JGE'',
     ''JLE'', ''JA'', ''JB'', ''JAE'', ''JBE'', ''JC'', ''JO'', ''LOOP'',
     ''LOAD'', ''LOAD8'', ''LOAD16'', ''LOAD32'', ''STORE'', ''STORE8'', ''STORE16'', ''STORE32'',
     ''LEA'', ''CMPXCHG'', ''ATOMIC_ADD'', ''ATOMIC_SUB'', ''FENCE'', ''LOAD_RM'', ''STORE_RM'', ''MEMSET'',
     ''PUSH'', ''POP'', ''PUSH_IMM'', ''DUP'', ''SWAP'', ''ENTER'', ''LEAVE'', ''PUSHA'',
     ''POPA'', ''PUSHF'', ''POPF'', ''PUSHR'', ''POPR'', ''STACK_CHK'', ''STACK_ALLOC'', ''STACK_FREE'',
     ''CALL'', ''CALLI'', ''RET'', ''RETI'', ''SYSCALL'', ''CALL_REG'', ''TAILCALL'', ''ICALL'',
     ''CALL_EXT'', ''CALL_NATIVE'', ''CALL_AGENT'', ''THROW'', ''CATCH'', ''FINALLY'', ''EXCEPTION_RET'', ''SET_HANDLER'']"

definition opcode_names_hi :: "string list" where
  "opcode_names_hi =
    [''DELEGATE'', ''TELL'', ''ASK'', ''REPLY'', ''BARRIER'', ''SPAWN'', ''YIELD_AGENT'', ''CAP_GRANT'',
     ''CAP_CHECK'', ''CAP_REVOKE'', ''AGENT_WAIT'', ''AGENT_SIGNAL'', ''AGENT_BROADCAST'', ''AGENT_SUBSCRIBE'', ''AGENT_UNSUBSCRIBE'', ''AGENT_QUERY'',
     ''IO_READ'', ''IO_WRITE'', ''IO_READ8'', ''IO_WRITE8'', ''IO_READ16'', ''IO_WRITE16'', ''IO_READ32'', ''IO_WRITE32'',
     ''IO_READ64'', ''IO_WRITE64'', ''IO_DMA_READ'', ''IO_DMA_WRITE'', ''IO_IOCTL'', ''IO_MMAP'', ''IO_MUNMAP'', ''IO_POLL'',
     ''TILE_LOAD'', ''TILE_COMPOSE'', ''TILE_EXEC'', ''REGION_CREATE'', ''REGION_DESTROY'', ''REGION_MAP'', ''ADAPT'', ''EVOLVE'',
     ''MODULE_IMPORT'', ''MODULE_EXPORT'', ''TRACE_ON'', ''TRACE_OFF'', ''PROF_START'', ''PROF_STOP'', ''GAS_INIT'', ''GAS_CHECK'',
     ''NATIVE_CALL'', ''NATIVE_LOAD'', ''VEC_LOAD'', ''VEC_STORE'', ''VEC_ADD'', ''VEC_MUL'', ''VEC_DOT'', ''VEC_SPLAT'']"

text \<open>\<open>opcode_names\<close>: the entry of the 256-slot table, \<open>None\<close> for a NULL slot.\<close>

definition opcode_names :: "u8 \<Rightarrow> string option" where
  "opcode_names opcode =
     (let n = unat opcode; tbl = opcode_names_lo @ opcode_names_mid @ opcode_names_hi
      in if n < length tbl then Some (tbl ! n) else None)"

definition hex_digit :: "nat \<Rightarrow> char" where
  "hex_digit n = ''0123456789ABCDEF'' ! n"

definition unknown_opcode_name :: "u8 \<Rightarrow> string" where
  "unknown_opcode_name opcode =
     ''???_0x'' @ [hex_digit (unat (drop_bit 4 opcode AND 0xF)), hex_digit (unat (opcode AND 0xF))]"

definition flux_opcode_name :: "u8 \<Rightarrow> string" where
  "flux_opcode_name opcode =
     (case opcode_names opcode of Some s \<Rightarrow> s | None \<Rightarrow> unknown_opcode_name opcode)"

subsection \<open>The category table\<close>

datatype flux_op_cat =
    FLUX_OP_CAT_NONE | FLUX_OP_CAT_ARITH | FLUX_OP_CAT_LOGIC | FLUX_OP_CAT_COMPARE
  | FLUX_OP_CAT_BRANCH | FLUX_OP_CAT_MEMORY | FLUX_OP_CAT_STACK | FLUX_OP_CAT_CALL
  | FLUX_OP_CAT_AGENT | FLUX_OP_CAT_IO | FLUX_OP_CAT_SYSTEM | FLUX_OP_CAT_FLUX | FLUX_OP_CAT_EXT

text \<open>
  The table is constant on each block of sixteen opcodes; the blocks are listed in the table's
  order. Slots after 0xB7 are not initialised by the source, so they hold 0, which is
  \<open>FLUX_OP_CAT_NONE\<close>.
\<close>

definition opcode_categories_lo :: "flux_op_cat list" where
  "opcode_categories_lo =
     replicate 16 FLUX_OP_CAT_SYSTEM @ replicate 16 FLUX_OP_CAT_ARITH @
     replicate 16 FLUX_OP_CAT_LOGIC @ replicate 16 FLUX_OP_CAT_COMPARE @
     replicate 16 FLUX_OP_CAT_BRANCH @ replicate 16 FLUX_OP_CAT_MEMORY"

definition opcode_categories_hi :: "flux_op_cat list" where
  "opcode_categories_hi =
     replicate 16 FLUX_OP_CAT_STACK @ replicate 16 FLUX_OP_CAT_CALL @
     replicate 16 FLUX_OP_CAT_AGENT @ replicate 16 FLUX_OP_CAT_IO @
     replicate 16 FLUX_OP_CAT_FLUX @ replicate 8 FLUX_OP_CAT_EXT"

definition opcode_categories :: "u8 \<Rightarrow> flux_op_cat" where
  "opcode_categories opcode =
     (let n = unat opcode; tbl = opcode_categories_lo @ opcode_categories_hi
      in if n < length tbl then tbl ! n else FLUX_OP_CAT_NONE)"

fun category_names :: "flux_op_cat \<Rightarrow> string" where
  "category_names FLUX_OP_CAT_NONE = ''NONE''"
| "category_names FLUX_OP_CAT_ARITH = ''ARITH''"
| "category_names FLUX_OP_CAT_LOGIC = ''LOGIC''"
| "category_names FLUX_OP_CAT_COMPARE = ''COMPARE''"
| "category_names FLUX_OP_CAT_BRANCH = ''BRANCH''"
| "category_names FLUX_OP_CAT_MEMORY = ''MEMORY''"
| "category_names FLUX_OP_CAT_STACK = ''STACK''"
| "category_names FLUX_OP_CAT_CALL = ''CALL''"
| "category_names FLUX_OP_CAT_AGENT = ''AGENT''"
| "category_names FLUX_OP_CAT_IO = ''IO''"
| "category_names FLUX_OP_CAT_SYSTEM = ''SYSTEM''"
| "category_names FLUX_OP_CAT_FLUX = ''FLUX''"
| "category_names FLUX_OP_CAT_EXT = ''EXT''"

definition flux_opcode_category_name :: "u8 \<Rightarrow> string" where
  "flux_opcode_category_name opcode =
     (if opcode < 0xF0 then category_names (opcode_categories opcode) else ''RESERVED'')"

definition flux_opcode_is_valid :: "u8 \<Rightarrow> bool" where
  "flux_opcode_is_valid opcode =
     (if opcode \<le> 0xB7 then True else if opcode \<le> 0xEF then True else False)"

subsection \<open>Format hint and table walks\<close>

definition flux_opcode_format_hint :: "u8 \<Rightarrow> char" where
  "flux_opcode_format_hint opcode =
     (if opcode \<le> 0x03 then CHR ''E''
      else if opcode \<le> 0x0F then CHR ''E''
      else if opcode \<in> {OP_IADD, OP_ISUB, OP_IMUL, OP_IDIV, OP_IMOD, OP_FADD, OP_FSUB, OP_FMUL,
                        OP_FDIV} then CHR ''A''
      else if opcode \<in> {OP_INEG, OP_IABS, OP_FNEG} then CHR ''A''
      else if opcode \<in> {OP_INC, OP_DEC} then CHR ''A''
      else if opcode \<in> {OP_I2F, OP_F2I} then CHR ''A''
      else if opcode \<in> {OP_IAND, OP_IOR, OP_IXOR, OP_ISHL, OP_ISHR, OP_USHR, OP_ROTATE_L,
                        OP_ROTATE_R} then CHR ''A''
      else if opcode \<in> {OP_INOT, OP_POPCOUNT, OP_CLZ, OP_CTZ, OP_BSWAP} then CHR ''A''
      else if opcode \<in> {OP_ANDI, OP_ORI, OP_XORI} then CHR ''B''
      else if opcode \<in> {OP_CMP, OP_FCMP, OP_TEST} then CHR ''A''
      else if opcode \<in> {OP_CMPI, OP_TESTI} then CHR ''B''
      else if 0x40 \<le> opcode \<and> opcode \<le> 0x4F then CHR ''C''
      else if opcode = OP_LOOP then CHR ''C''
      else if 0x50 \<le> opcode \<and> opcode \<le> 0x5C then CHR ''D''
      else if opcode = OP_LOAD_RM \<or> opcode = OP_STORE_RM then CHR ''D''
      else if opcode \<in> {OP_PUSH, OP_POP, OP_DUP, OP_SWAP, OP_ENTER, OP_LEAVE, OP_PUSHA, OP_POPA}
        then CHR ''A''
      else if opcode = OP_PUSH_IMM then CHR ''B''
      else if opcode \<in> {OP_CALL, OP_CALL_REG, OP_ICALL, OP_TAILCALL} then CHR ''A''
      else if opcode = OP_CALLI then CHR ''C''
      else if opcode \<in> {OP_RET, OP_RETI} then CHR ''A''
      else if opcode = OP_SYSCALL then CHR ''E''
      else if 0x80 \<le> opcode \<and> opcode \<le> 0x89 then CHR ''E''
      else if 0x90 \<le> opcode \<and> opcode \<le> 0x97 then CHR ''D''
      else if 0xA0 \<le> opcode \<and> opcode \<le> 0xAF then CHR ''E''
      else if 0xB0 \<le> opcode \<and> opcode \<le> 0xB7 then CHR ''A''
      else CHR 0x3F)"

definition flux_opcode_count_defined :: nat where
  "flux_opcode_count_defined =
     fold (\<lambda>i count. if opcode_names (word_of_nat i) \<noteq> None then Suc count else count) [0..<256] 0"

text \<open>
  \<open>flux_opcode_iterate_category\<close> returns the count; the callback runs once per element of the
  second component, in its order.
\<close>

definition flux_opcode_iterate_category :: "flux_op_cat \<Rightarrow> nat \<times> (u8 \<times> string) list" where
  "flux_opcode_iterate_category category =
     fold (\<lambda>i (count, called).
             case opcode_names (word_of_nat i) of
               None \<Rightarrow> (count, called)
             | Some s \<Rightarrow>
                 if opcode_categories (word_of_nat i) = category
                 then (Suc count, called @ [(word_of_nat i, s)]) else (count, called))
       [0..<256] (0, [])"

end
