(* ===== verification/FluxBits.thy ===== *)
theory FluxBits
  imports FluxPrelude
begin

section \<open>Bit manipulation, byte order and doubles (vm/vm.c, internal helpers)\<close>

text \<open>
  The static inline helpers at the top of vm/vm.c: leading and trailing zero counts, population
  count, byte swap, rotations, and the big-endian accessors of region memory. A byte buffer is a
  \<open>u8 list\<close>; reading or writing outside it is \<open>UB OobRegion\<close>, whatever the size the accessor was
  told. Left shifts of negative \<open>int64_t\<close> values act on the two's complement word, as GCC and
  Clang define them.

  Doubles are their 64-bit patterns. Comparison and negation are computed here from the IEEE 754
  format; addition, subtraction, multiplication, division and the conversions are the host's
  floating-point unit and stay a parameter, the record \<open>fpu\<close>.
\<close>

subsection \<open>Counting, swapping, rotating\<close>

definition clz64 :: "u64 \<Rightarrow> nat" where
  "clz64 x0 =
     (if x0 = 0 then 64
      else
        let (n1, x1) = (if x0 \<le> 0x00000000FFFFFFFF then (32, push_bit 32 x0) else (0, x0));
            (n2, x2) = (if x1 \<le> 0x0000FFFFFFFFFFFF then (n1 + 16, push_bit 16 x1) else (n1, x1));
            (n3, x3) = (if x2 \<le> 0x00FFFFFFFFFFFFFF then (n2 + 8, push_bit 8 x2) else (n2, x2));
            (n4, x4) = (if x3 \<le> 0x0FFFFFFFFFFFFFFF then (n3 + 4, push_bit 4 x3) else (n3, x3));
            (n5, x5) = (if x4 \<le> 0x3FFFFFFFFFFFFFFF then (n4 + 2, push_bit 2 x4) else (n4, x4))
        in if x5 \<le> 0x7FFFFFFFFFFFFFFF then n5 + 1 else n5)"

definition ctz64 :: "u64 \<Rightarrow> nat" where
  "ctz64 x0 =
     (if x0 = 0 then 64
      else
        let (n1, x1) = (if x0 AND 0x00000000FFFFFFFF = 0 then (32, drop_bit 32 x0) else (0, x0));
            (n2, x2) = (if x1 AND 0x000000000000FFFF = 0 then (n1 + 16, drop_bit 16 x1) else (n1, x1));
            (n3, x3) = (if x2 AND 0x00000000000000FF = 0 then (n2 + 8, drop_bit 8 x2) else (n2, x2));
            (n4, x4) = (if x3 AND 0x000000000000000F = 0 then (n3 + 4, drop_bit 4 x3) else (n3, x3));
            (n5, x5) = (if x4 AND 0x0000000000000003 = 0 then (n4 + 2, drop_bit 2 x4) else (n4, x4))
        in if x5 AND 0x0000000000000001 = 0 then n5 + 1 else n5)"

definition popcount64 :: "u64 \<Rightarrow> u64" where
  "popcount64 x0 =
     (let x1 = x0 - (drop_bit 1 x0 AND 0x5555555555555555);
          x2 = (x1 AND 0x3333333333333333) + (drop_bit 2 x1 AND 0x3333333333333333);
          x3 = (x2 + drop_bit 4 x2) AND 0x0F0F0F0F0F0F0F0F
      in drop_bit 56 (x3 * 0x0101010101010101))"

definition bswap64 :: "u64 \<Rightarrow> u64" where
  "bswap64 x0 =
     (let x1 = push_bit 32 (x0 AND 0x00000000FFFFFFFF) OR drop_bit 32 (x0 AND 0xFFFFFFFF00000000);
          x2 = push_bit 16 (x1 AND 0x0000FFFF0000FFFF) OR drop_bit 16 (x1 AND 0xFFFF0000FFFF0000);
          x3 = push_bit 8 (x2 AND 0x00FF00FF00FF00FF) OR drop_bit 8 (x2 AND 0xFF00FF00FF00FF00)
      in x3)"

text \<open>
  The callers pass \<open>n & 63\<close>. For \<open>n = 0\<close> the second operand is shifted by 64, the width of the
  type, which C leaves undefined.
\<close>

definition rotl64 :: "u64 \<Rightarrow> nat \<Rightarrow> u64 cres" where
  "rotl64 x k =
     (let n = k mod 64
      in if 64 - n < 64 then Val (push_bit n x OR drop_bit (64 - n) x) else UB BadShift)"

definition rotr64 :: "u64 \<Rightarrow> nat \<Rightarrow> u64 cres" where
  "rotr64 x k =
     (let n = k mod 64
      in if 64 - n < 64 then Val (drop_bit n x OR push_bit (64 - n) x) else UB BadShift)"

subsection \<open>Doubles as bit patterns\<close>

record fpu =
  fadd :: "u64 \<Rightarrow> u64 \<Rightarrow> u64"
  fsub :: "u64 \<Rightarrow> u64 \<Rightarrow> u64"
  fmul :: "u64 \<Rightarrow> u64 \<Rightarrow> u64"
  fdiv :: "u64 \<Rightarrow> u64 \<Rightarrow> u64"
  i2f :: "u64 \<Rightarrow> u64"
  f2i :: "u64 \<Rightarrow> u64 option"   \<comment> \<open>\<open>None\<close>: not representable, undefined in C\<close>

definition dbl_nan :: "u64 \<Rightarrow> bool" where
  "dbl_nan a \<longleftrightarrow> 0x7FF0000000000000 < (a AND 0x7FFFFFFFFFFFFFFF)"

text \<open>Order-preserving integer of a non-NaN pattern: sign and magnitude; both zeros are 0.\<close>

definition dbl_key :: "u64 \<Rightarrow> int" where
  "dbl_key a =
     (let m = uint (a AND 0x7FFFFFFFFFFFFFFF) in if bit a 63 then - m else m)"

definition dbl_eq :: "u64 \<Rightarrow> u64 \<Rightarrow> bool" where
  "dbl_eq a b \<longleftrightarrow> \<not> dbl_nan a \<and> \<not> dbl_nan b \<and> dbl_key a = dbl_key b"

definition dbl_lt :: "u64 \<Rightarrow> u64 \<Rightarrow> bool" where
  "dbl_lt a b \<longleftrightarrow> \<not> dbl_nan a \<and> \<not> dbl_nan b \<and> dbl_key a < dbl_key b"

definition dbl_le :: "u64 \<Rightarrow> u64 \<Rightarrow> bool" where
  "dbl_le a b \<longleftrightarrow> \<not> dbl_nan a \<and> \<not> dbl_nan b \<and> dbl_key a \<le> dbl_key b"

definition dbl_neg :: "u64 \<Rightarrow> u64" where
  "dbl_neg a = a XOR 0x8000000000000000"

subsection \<open>Byte buffers\<close>

definition rd_byte :: "u8 list \<Rightarrow> u64 \<Rightarrow> u8 cres" where
  "rd_byte d i = (if unat i < length d then Val (d ! unat i) else UB OobRegion)"

definition wr_byte :: "u8 list \<Rightarrow> u64 \<Rightarrow> u8 \<Rightarrow> u8 list cres" where
  "wr_byte d i b = (if unat i < length d then Val (d[unat i := b]) else UB OobRegion)"

text \<open>The reading loop of \<open>mem_read64\<close>: \<open>n\<close> more bytes, \<open>val\<close> so far.\<close>

fun read_be :: "nat \<Rightarrow> u8 list \<Rightarrow> u64 \<Rightarrow> u64 \<Rightarrow> u64 cres" where
  "read_be 0 d i val = Val val"
| "read_be (Suc n) d i val =
     cbind (rd_byte d i) (\<lambda>b. read_be n d (i + 1) (push_bit 8 val OR ucast b))"

definition mem_read64 :: "u8 list \<Rightarrow> u64 \<Rightarrow> u64 \<Rightarrow> u64 cres" where
  "mem_read64 d offset sz = (if sz < offset + 8 then Val 0 else read_be 8 d offset 0)"

text \<open>The writing loop of \<open>mem_write64\<close>, from the last byte to the first.\<close>

fun write_be :: "nat \<Rightarrow> u8 list \<Rightarrow> u64 \<Rightarrow> u64 \<Rightarrow> u8 list cres" where
  "write_be 0 d offset val = Val d"
| "write_be (Suc n) d offset val =
     cbind (wr_byte d (offset + of_nat n) (ucast (val AND 0xFF)))
       (\<lambda>d'. write_be n d' offset (signed_drop_bit 8 val))"

definition mem_write64 :: "u8 list \<Rightarrow> u64 \<Rightarrow> u64 \<Rightarrow> u64 \<Rightarrow> u8 list cres" where
  "mem_write64 d offset sz val =
     (if sz < offset + 8 then Val d else write_be 8 d offset val)"

definition mem_read32 :: "u8 list \<Rightarrow> u64 \<Rightarrow> u64 \<Rightarrow> u32 cres" where
  "mem_read32 d offset sz =
     (if sz < offset + 4 then Val 0
      else cbind (rd_byte d offset) (\<lambda>b0. cbind (rd_byte d (offset + 1)) (\<lambda>b1.
           cbind (rd_byte d (offset + 2)) (\<lambda>b2. cbind (rd_byte d (offset + 3)) (\<lambda>b3.
             Val (push_bit 24 (ucast b0) OR push_bit 16 (ucast b1) OR push_bit 8 (ucast b2)
                  OR ucast b3))))))"

definition mem_write32 :: "u8 list \<Rightarrow> u64 \<Rightarrow> u64 \<Rightarrow> u32 \<Rightarrow> u8 list cres" where
  "mem_write32 d offset sz val =
     (if sz < offset + 4 then Val d
      else cbind (wr_byte d offset (ucast (signed_drop_bit 24 val AND 0xFF))) (\<lambda>d1.
           cbind (wr_byte d1 (offset + 1) (ucast (signed_drop_bit 16 val AND 0xFF))) (\<lambda>d2.
           cbind (wr_byte d2 (offset + 2) (ucast (signed_drop_bit 8 val AND 0xFF))) (\<lambda>d3.
           wr_byte d3 (offset + 3) (ucast (val AND 0xFF))))))"

definition mem_read16 :: "u8 list \<Rightarrow> u64 \<Rightarrow> u64 \<Rightarrow> u16 cres" where
  "mem_read16 d offset sz =
     (if sz < offset + 2 then Val 0
      else cbind (rd_byte d offset) (\<lambda>b0. cbind (rd_byte d (offset + 1)) (\<lambda>b1.
             Val (push_bit 8 (ucast b0) OR ucast b1))))"

definition mem_write16 :: "u8 list \<Rightarrow> u64 \<Rightarrow> u64 \<Rightarrow> u16 \<Rightarrow> u8 list cres" where
  "mem_write16 d offset sz val =
     (if sz < offset + 2 then Val d
      else cbind (wr_byte d offset (ucast (signed_drop_bit 8 val AND 0xFF)))
             (\<lambda>d1. wr_byte d1 (offset + 1) (ucast (val AND 0xFF))))"

definition mem_read8 :: "u8 list \<Rightarrow> u64 \<Rightarrow> u64 \<Rightarrow> u8 cres" where
  "mem_read8 d offset sz = (if sz \<le> offset then Val 0 else rd_byte d offset)"

definition mem_write8 :: "u8 list \<Rightarrow> u64 \<Rightarrow> u64 \<Rightarrow> u8 \<Rightarrow> u8 list cres" where
  "mem_write8 d offset sz val = (if sz \<le> offset then Val d else wr_byte d offset val)"

subsection \<open>Length and frame of the writers\<close>

lemma wr_byte_length: "wr_byte d i b = Val d' \<Longrightarrow> length d' = length d"
  by (auto simp: wr_byte_def split: if_splits)

lemma write_be_length: "write_be n d off v = Val d' \<Longrightarrow> length d' = length d"
  by (induction n arbitrary: d v) (auto simp: cbind_Val_iff dest: wr_byte_length)

lemma mem_write_length:
  "mem_write64 d off sz v64 = Val d' \<Longrightarrow> length d' = length d"
  "mem_write32 d off sz v32 = Val d' \<Longrightarrow> length d' = length d"
  "mem_write16 d off sz v16 = Val d' \<Longrightarrow> length d' = length d"
  "mem_write8 d off sz v8 = Val d' \<Longrightarrow> length d' = length d"
  by (auto simp: mem_write64_def mem_write32_def mem_write16_def mem_write8_def cbind_Val_iff
           dest!: wr_byte_length write_be_length split: if_splits)

subsection \<open>When the accessors are defined\<close>

text \<open>
  The bounds test of \<open>mem_read64\<close> adds before it compares. It is exact when \<open>offset + 8\<close> does
  not wrap; \<open>in_range\<close> is what it means to establish.
\<close>

definition in_range :: "u64 \<Rightarrow> nat \<Rightarrow> u64 \<Rightarrow> bool" where
  "in_range offset n sz \<longleftrightarrow> unat offset + n \<le> unat sz"

lemma in_range_no_wrap:
  assumes "in_range off n sz" and "k \<le> n"
  shows "unat (off + of_nat k) = unat off + k"
proof -
  have "unat sz < 2 ^ 64" using unsigned_less [of sz, where ?'a = nat] by simp
  then have "unat off + k < 2 ^ 64" "k < 2 ^ 64"
    using assms by (auto simp: in_range_def)
  then show ?thesis by (simp add: unat_word_ariths unat_of_nat)
qed

lemma read_be_defined:
  "\<lbrakk>unat off + n \<le> length d; length d < 2 ^ 64\<rbrakk> \<Longrightarrow> defined (read_be n d off v)"
proof (induction n arbitrary: off v)
  case 0
  then show ?case by simp
next
  case (Suc n)
  then have i: "unat off < length d" by simp
  have "unat (off + 1) = unat off + 1"
    using Suc.prems by (simp add: unat_word_ariths)
  then have "defined (read_be n d (off + 1) w)" for w
    using Suc by simp
  with i show ?case by (simp add: rd_byte_def)
qed

lemma write_be_defined:
  assumes "unat off + n \<le> length d" "length d < 2 ^ 64"
  shows "defined (write_be n d off v)"
  using assms
proof (induction n arbitrary: d v)
  case 0
  then show ?case by simp
next
  case (Suc n)
  then have "unat (off + of_nat n) = unat off + n"
    by (simp add: unat_word_ariths unat_of_nat)
  then have "wr_byte d (off + of_nat n) b = Val (d[unat off + n := b])" for b
    using Suc.prems by (simp add: wr_byte_def)
  then show ?case using Suc by simp
qed

end
