(* ===== verification/FluxVM.thy ===== *)
theory FluxVM
  imports FluxOpcodes FluxBits
begin

section \<open>The VM instance: state, life cycle, registers, stacks (include/flux/vm.h, vm/vm.c)\<close>

text \<open>
  \<open>vm\<close> is \<open>flux_vm_t\<close>, field by field. Fixed-size arrays are functions of the index with the
  bound tested at each access. \<open>vm_stack\<close> is \<open>None\<close> for a NULL pointer. A heap buffer behind
  \<open>regions[i].data\<close> is its address together with its bytes. \<open>calloc\<close> is a parameter: for a
  requested size it gives the address of a fresh zeroed block, or \<open>None\<close> for NULL.
  Every operation takes the instance itself: a NULL \<open>vm\<close> pointer is refused by the C before
  any state is read, and there is no state to model in that case.
\<close>

subsection \<open>Constants\<close>

abbreviation (input) FLUX_VM_NUM_REGS :: nat where "FLUX_VM_NUM_REGS \<equiv> 64"
abbreviation (input) FLUX_REG_ZERO :: u8 where "FLUX_REG_ZERO \<equiv> 0"
abbreviation (input) FLUX_REG_RA :: nat where "FLUX_REG_RA \<equiv> 1"
abbreviation (input) FLUX_REG_SP :: nat where "FLUX_REG_SP \<equiv> 2"
abbreviation (input) FLUX_REG_BP :: nat where "FLUX_REG_BP \<equiv> 3"
abbreviation (input) FLUX_REG_FLAGS :: nat where "FLUX_REG_FLAGS \<equiv> 5"
abbreviation (input) FLUX_REG_FP :: nat where "FLUX_REG_FP \<equiv> 6"
abbreviation (input) FLUX_REG_VMSTATE :: nat where "FLUX_REG_VMSTATE \<equiv> 56"
abbreviation (input) FLUX_REG_CYCLE_COUNT :: nat where "FLUX_REG_CYCLE_COUNT \<equiv> 57"
abbreviation (input) FLUX_REG_REGION_BASE :: nat where "FLUX_REG_REGION_BASE \<equiv> 58"
abbreviation (input) FLUX_REG_REGION_SIZE :: nat where "FLUX_REG_REGION_SIZE \<equiv> 59"
abbreviation (input) FLUX_REG_SYSCALL_NUM :: nat where "FLUX_REG_SYSCALL_NUM \<equiv> 60"
abbreviation (input) FLUX_REG_ERROR_CODE :: nat where "FLUX_REG_ERROR_CODE \<equiv> 61"
abbreviation (input) FLUX_REG_CAPABILITY :: nat where "FLUX_REG_CAPABILITY \<equiv> 62"
abbreviation (input) FLUX_REG_TRAP_HANDLER :: nat where "FLUX_REG_TRAP_HANDLER \<equiv> 63"

abbreviation (input) FLUX_FLAG_ZERO :: u64 where "FLUX_FLAG_ZERO \<equiv> 0x01"
abbreviation (input) FLUX_FLAG_NEGATIVE :: u64 where "FLUX_FLAG_NEGATIVE \<equiv> 0x02"
abbreviation (input) FLUX_FLAG_CARRY :: u64 where "FLUX_FLAG_CARRY \<equiv> 0x04"
abbreviation (input) FLUX_FLAG_OVERFLOW :: u64 where "FLUX_FLAG_OVERFLOW \<equiv> 0x08"
abbreviation (input) FLUX_FLAG_EQUAL :: u64 where "FLUX_FLAG_EQUAL \<equiv> 0x10"
abbreviation (input) FLUX_FLAG_LESS :: u64 where "FLUX_FLAG_LESS \<equiv> 0x20"
abbreviation (input) FLUX_FLAG_GREATER :: u64 where "FLUX_FLAG_GREATER \<equiv> 0x40"
abbreviation (input) FLUX_FLAG_TRAP :: u64 where "FLUX_FLAG_TRAP \<equiv> 0x80"

abbreviation (input) FLUX_REGION_MAX :: nat where "FLUX_REGION_MAX \<equiv> 16"
abbreviation (input) FLUX_VM_MAX_CALL_DEPTH :: nat where "FLUX_VM_MAX_CALL_DEPTH \<equiv> 256"
abbreviation (input) FLUX_VM_MAX_BREAKPOINTS :: nat where "FLUX_VM_MAX_BREAKPOINTS \<equiv> 64"
abbreviation (input) FLUX_VM_TRACE_BUFFER :: nat where "FLUX_VM_TRACE_BUFFER \<equiv> 4096"
abbreviation (input) FLUX_STACK_SIZE :: u64 where "FLUX_STACK_SIZE \<equiv> 65536"
abbreviation (input) NO_HANDLER :: u64 where "NO_HANDLER \<equiv> 0xFFFFFFFFFFFFFFFF"

subsection \<open>Data\<close>

datatype flux_vm_state = VM_IDLE | VM_RUNNING | VM_HALTED | VM_TRAPPED | VM_ERROR | VM_WAITING

record flux_vm_insn =
  in_opcode :: u8
  in_rd :: u8
  in_rs1 :: u8
  in_rs2 :: u8
  in_imm :: u32       \<comment> \<open>\<open>int32_t\<close>, sign-extended from 16 bits\<close>
  in_target :: u32

record vm_buffer =
  buf_addr :: u64
  buf_bytes :: "u8 list"

record flux_vm_region =
  rg_base :: u64
  rg_size :: u64
  rg_data :: "vm_buffer option"
  rg_active :: bool
  rg_readonly :: bool
  rg_owner :: u32
  rg_name :: string

record trace_entry =
  te_pc :: u32
  te_opcode :: u8
  te_regs :: "nat \<Rightarrow> u64"

record flux_vm =
  vm_state :: flux_vm_state
  vm_error_code :: u8
  vm_regs :: "nat \<Rightarrow> u64"
  vm_regions :: "nat \<Rightarrow> flux_vm_region"
  vm_active_region :: int
  vm_stack :: "(nat \<Rightarrow> u64) option"
  vm_stack_size :: u64
  vm_stack_ptr :: u64
  vm_call_stack :: "nat \<Rightarrow> u64"
  vm_call_depth :: int
  vm_bytecode :: "u8 list"
  vm_bytecode_len :: u64
  vm_pc :: u64
  vm_cycle_count :: u64
  vm_insn_count :: u64
  vm_breakpoint_addrs :: "nat \<Rightarrow> u32"
  vm_num_breakpoints :: int
  vm_trace :: "nat \<Rightarrow> trace_entry"
  vm_trace_idx :: int
  vm_tracing :: bool
  vm_op_counts :: "u8 \<Rightarrow> u64"
  vm_last_op_cycles :: u64
  vm_owner_pid :: u32
  vm_sandboxed :: bool

type_synonym calloc = "u64 \<Rightarrow> u64 option"

text \<open>What \<open>memset(p, 0, sizeof *p)\<close> leaves behind.\<close>

definition zero_region :: flux_vm_region where
  "zero_region = \<lparr>rg_base = 0, rg_size = 0, rg_data = None, rg_active = False,
                  rg_readonly = False, rg_owner = 0, rg_name = ''''\<rparr>"

definition zero_trace :: trace_entry where
  "zero_trace = \<lparr>te_pc = 0, te_opcode = 0, te_regs = (\<lambda>_. 0)\<rparr>"

definition zero_vm :: flux_vm where
  "zero_vm =
     \<lparr>vm_state = VM_IDLE, vm_error_code = 0, vm_regs = (\<lambda>_. 0), vm_regions = (\<lambda>_. zero_region),
      vm_active_region = 0, vm_stack = None, vm_stack_size = 0, vm_stack_ptr = 0,
      vm_call_stack = (\<lambda>_. 0), vm_call_depth = 0, vm_bytecode = [], vm_bytecode_len = 0,
      vm_pc = 0, vm_cycle_count = 0, vm_insn_count = 0, vm_breakpoint_addrs = (\<lambda>_. 0),
      vm_num_breakpoints = 0, vm_trace = (\<lambda>_. zero_trace), vm_trace_idx = 0,
      vm_tracing = False, vm_op_counts = (\<lambda>_. 0), vm_last_op_cycles = 0, vm_owner_pid = 0,
      vm_sandboxed = False\<rparr>"

subsection \<open>Life cycle\<close>

text \<open>\<open>stk\<close> is whether \<open>calloc\<close> delivers the stack.\<close>

definition flux_vm_init :: "bool \<Rightarrow> flux_status \<times> flux_vm" where
  "flux_vm_init stk =
     (let vm = zero_vm\<lparr>vm_stack_size := FLUX_STACK_SIZE\<rparr>
      in if \<not> stk then (FLUX_ERR_NOMEM, vm)
         else (FLUX_OK,
               vm\<lparr>vm_stack := Some (\<lambda>_. 0), vm_stack_ptr := 0,
                  vm_regs := (vm_regs vm)(FLUX_REG_SP := FLUX_STACK_SIZE,
                                          FLUX_REG_BP := FLUX_STACK_SIZE,
                                          FLUX_REG_TRAP_HANDLER := NO_HANDLER),
                  vm_active_region := -1, vm_num_breakpoints := 0,
                  vm_tracing := False, vm_trace_idx := 0\<rparr>))"

text \<open>
  The regions are overwritten without being freed. Clearing a NULL stack of non-zero size is
  undefined.
\<close>

definition flux_vm_reset :: "flux_vm \<Rightarrow> (flux_status \<times> flux_vm) cres" where
  "flux_vm_reset vm =
     (case vm_stack vm of
        None \<Rightarrow> UB NullPointer
      | Some _ \<Rightarrow>
          Val (FLUX_OK,
            zero_vm\<lparr>vm_stack := Some (\<lambda>_. 0), vm_stack_size := vm_stack_size vm,
                    vm_stack_ptr := 0, vm_state := VM_IDLE,
                    vm_regs := (vm_regs zero_vm)(FLUX_REG_SP := vm_stack_size vm,
                                                 FLUX_REG_BP := vm_stack_size vm,
                                                 FLUX_REG_TRAP_HANDLER := NO_HANDLER),
                    vm_active_region := -1\<rparr>))"

text \<open>\<open>flux_vm_destroy\<close> frees every region's buffer and the stack; the struct ends up zeroed.\<close>

definition flux_vm_destroy :: "flux_vm \<Rightarrow> flux_status \<times> flux_vm" where
  "flux_vm_destroy vm = (FLUX_OK, zero_vm)"

definition flux_vm_load :: "flux_vm \<Rightarrow> u8 list option \<Rightarrow> u64 \<Rightarrow> flux_status \<times> flux_vm" where
  "flux_vm_load vm bytecode len =
     (case bytecode of
        None \<Rightarrow> (FLUX_ERR_INVALID, vm)
      | Some bs \<Rightarrow>
          if len < 4 then (FLUX_ERR_INVALID, vm)
          else (FLUX_OK, vm\<lparr>vm_bytecode := bs, vm_bytecode_len := len, vm_pc := 0,
                            vm_state := VM_IDLE\<rparr>))"

text \<open>
  \<open>flux_vm_load_from_file\<close>: the file system is the argument \<open>file\<close> (\<open>None\<close>: \<open>fopen\<close> fails) and
  \<open>mem\<close> says whether \<open>malloc\<close> succeeds. The status of \<open>flux_vm_load\<close> is dropped.
\<close>

definition flux_vm_load_from_file ::
    "flux_vm \<Rightarrow> u8 list option \<Rightarrow> bool \<Rightarrow> flux_status \<times> flux_vm" where
  "flux_vm_load_from_file vm file mem =
     (case file of
        None \<Rightarrow> (FLUX_ERR_NOTFOUND, vm)
      | Some bs \<Rightarrow>
          if length bs = 0 then (FLUX_ERR_INVALID, vm)
          else if \<not> mem then (FLUX_ERR_NOMEM, vm)
          else (FLUX_OK, snd (flux_vm_load vm (Some bs) (of_nat (length bs)))))"

definition flux_vm_halt :: "flux_vm \<Rightarrow> flux_status \<times> flux_vm" where
  "flux_vm_halt vm = (FLUX_OK, vm\<lparr>vm_state := VM_HALTED\<rparr>)"

definition flux_vm_trap :: "flux_vm \<Rightarrow> u8 \<Rightarrow> flux_status \<times> flux_vm" where
  "flux_vm_trap vm trap_code =
     (FLUX_ERR_GENERAL,
      vm\<lparr>vm_state := VM_TRAPPED, vm_error_code := trap_code,
         vm_regs := (vm_regs vm)(FLUX_REG_FLAGS := vm_regs vm FLUX_REG_FLAGS OR FLUX_FLAG_TRAP,
                                 FLUX_REG_ERROR_CODE := ucast trap_code)\<rparr>)"

fun vm_state_name :: "flux_vm_state \<Rightarrow> string" where
  "vm_state_name VM_IDLE = ''IDLE''"
| "vm_state_name VM_RUNNING = ''RUNNING''"
| "vm_state_name VM_HALTED = ''HALTED''"
| "vm_state_name VM_TRAPPED = ''TRAPPED''"
| "vm_state_name VM_ERROR = ''ERROR''"
| "vm_state_name VM_WAITING = ''WAITING''"

subsection \<open>Registers and flags\<close>

text \<open>
  A register number comes from an instruction byte, 0 to 255; the register file has 64 entries
  and the source does not test the number.
\<close>

definition flux_vm_get_reg :: "flux_vm \<Rightarrow> u8 \<Rightarrow> u64 cres" where
  "flux_vm_get_reg vm r =
     (if r = FLUX_REG_ZERO then Val 0
      else if unat r < FLUX_VM_NUM_REGS then Val (vm_regs vm (unat r))
      else UB OobRegister)"

definition flux_vm_set_reg :: "flux_vm \<Rightarrow> u8 \<Rightarrow> u64 \<Rightarrow> flux_vm cres" where
  "flux_vm_set_reg vm r val =
     (if r = FLUX_REG_ZERO then Val vm
      else if unat r < FLUX_VM_NUM_REGS then Val (vm\<lparr>vm_regs := (vm_regs vm)(unat r := val)\<rparr>)
      else UB OobRegister)"

text \<open>Assignment to one of the named registers, \<open>vm->regs[FLUX_REG_...] = val\<close>.\<close>

definition set_special :: "flux_vm \<Rightarrow> nat \<Rightarrow> u64 \<Rightarrow> flux_vm" where
  "set_special vm r val = vm\<lparr>vm_regs := (vm_regs vm)(r := val)\<rparr>"

definition flags_of :: "u64 \<Rightarrow> u64 \<Rightarrow> u64" where
  "flags_of a b =
     (if a = b then FLUX_FLAG_EQUAL else 0) OR (if a < b then FLUX_FLAG_LESS else 0) OR
     (if b < a then FLUX_FLAG_GREATER else 0) OR (if a = 0 then FLUX_FLAG_ZERO else 0) OR
     (if sint a < 0 then FLUX_FLAG_NEGATIVE else 0)"

definition flux_vm_set_flags :: "flux_vm \<Rightarrow> u64 \<Rightarrow> u64 \<Rightarrow> flux_vm" where
  "flux_vm_set_flags vm a b = set_special vm FLUX_REG_FLAGS (flags_of a b)"

subsection \<open>The value stack and the call stack\<close>

definition stack_get :: "flux_vm \<Rightarrow> u64 \<Rightarrow> u64 cres" where
  "stack_get vm i =
     (case vm_stack vm of
        None \<Rightarrow> UB NullPointer
      | Some s \<Rightarrow> if i < vm_stack_size vm then Val (s (unat i)) else UB OobStack)"

definition stack_set :: "flux_vm \<Rightarrow> u64 \<Rightarrow> u64 \<Rightarrow> flux_vm cres" where
  "stack_set vm i val =
     (case vm_stack vm of
        None \<Rightarrow> UB NullPointer
      | Some s \<Rightarrow> if i < vm_stack_size vm then Val (vm\<lparr>vm_stack := Some (s(unat i := val))\<rparr>)
                  else UB OobStack)"

definition stack_push :: "flux_vm \<Rightarrow> u64 \<Rightarrow> (flux_status \<times> flux_vm) cres" where
  "stack_push vm val =
     (if vm_stack_size vm \<le> vm_stack_ptr vm
      then Val (FLUX_ERR_OVERFLOW, vm\<lparr>vm_error_code := 1, vm_state := VM_ERROR\<rparr>)
      else cmap (\<lambda>vm'. (FLUX_OK, vm'\<lparr>vm_stack_ptr := vm_stack_ptr vm + 1\<rparr>))
             (stack_set vm (vm_stack_ptr vm) val))"

text \<open>The popped value comes back with the status; on underflow it is the caller's initial 0.\<close>

definition stack_pop :: "flux_vm \<Rightarrow> (flux_status \<times> u64 \<times> flux_vm) cres" where
  "stack_pop vm =
     (if vm_stack_ptr vm = 0
      then Val (FLUX_ERR_GENERAL, 0, vm\<lparr>vm_error_code := 2, vm_state := VM_ERROR\<rparr>)
      else cmap (\<lambda>v. (FLUX_OK, v, vm\<lparr>vm_stack_ptr := vm_stack_ptr vm - 1\<rparr>))
             (stack_get vm (vm_stack_ptr vm - 1)))"

definition call_stack_push :: "flux_vm \<Rightarrow> u64 \<Rightarrow> (flux_status \<times> flux_vm) cres" where
  "call_stack_push vm ret_addr =
     (if int FLUX_VM_MAX_CALL_DEPTH \<le> vm_call_depth vm
      then Val (FLUX_ERR_OVERFLOW, vm\<lparr>vm_error_code := 3, vm_state := VM_ERROR\<rparr>)
      else if vm_call_depth vm < 0 then UB OobCallStack
      else Val (FLUX_OK,
             vm\<lparr>vm_call_stack := (vm_call_stack vm)(nat (vm_call_depth vm) := ret_addr),
                vm_call_depth := vm_call_depth vm + 1\<rparr>))"

definition call_stack_pop :: "flux_vm \<Rightarrow> (flux_status \<times> u64 \<times> flux_vm) cres" where
  "call_stack_pop vm =
     (if vm_call_depth vm = 0
      then Val (FLUX_ERR_GENERAL, 0, vm\<lparr>vm_error_code := 4, vm_state := VM_ERROR\<rparr>)
      else if vm_call_depth vm < 0 \<or> int FLUX_VM_MAX_CALL_DEPTH < vm_call_depth vm
      then UB OobCallStack
      else Val (FLUX_OK, vm_call_stack vm (nat (vm_call_depth vm - 1)),
             vm\<lparr>vm_call_depth := vm_call_depth vm - 1\<rparr>))"

subsection \<open>Trace buffer\<close>

definition trace_snapshot :: "flux_vm \<Rightarrow> u8 \<Rightarrow> flux_vm cres" where
  "trace_snapshot vm opcode =
     (if \<not> vm_tracing vm then Val vm
      else if vm_trace_idx vm < 0 then UB OobTrace
      else if vm_trace_idx vm = 2 ^ 31 - 1 then UB SignedOverflow
      else
        let idx = nat (vm_trace_idx vm mod int FLUX_VM_TRACE_BUFFER);
            old = te_regs (vm_trace vm idx);
            entry = \<lparr>te_pc = ucast (vm_pc vm), te_opcode = opcode,
                     te_regs = (\<lambda>i. if i < 8 then vm_regs vm i else old i)\<rparr>
        in Val (vm\<lparr>vm_trace := (vm_trace vm)(idx := entry),
                   vm_trace_idx := vm_trace_idx vm + 1\<rparr>))"

end
