(* ===== verification/FluxRegion.thy ===== *)
theory FluxRegion
  imports FluxVM
begin

section \<open>Memory regions (vm/region.c)\<close>

text \<open>
  The sixteen memory regions of a VM instance. A region id is an \<open>int\<close>, as in the source; -1 is
  "none". Output parameters are further components of the result. The lemmas show the component
  invariant \<open>regions_ok\<close> (every live region owns a buffer of exactly its size, and the active
  region, if any, is live), that every operation keeps it, what each operation returns, and that
  no operation touches the bytes of another region.
\<close>

subsection \<open>Helpers\<close>

definition find_free_region :: "flux_vm \<Rightarrow> int" where
  "find_free_region vm =
     (case find (\<lambda>i. \<not> rg_active (vm_regions vm i)) [0..<FLUX_REGION_MAX] of
        Some i \<Rightarrow> int i | None \<Rightarrow> -1)"

definition validate_region_id :: "flux_vm \<Rightarrow> int \<Rightarrow> bool" where
  "validate_region_id vm region_id =
     (if region_id < 0 \<or> int FLUX_REGION_MAX \<le> region_id then False
      else rg_active (vm_regions vm (nat region_id)))"

definition get_region :: "flux_vm \<Rightarrow> int \<Rightarrow> flux_vm_region" where
  "get_region vm rid = vm_regions vm (nat rid)"

definition set_region :: "flux_vm \<Rightarrow> int \<Rightarrow> flux_vm_region \<Rightarrow> flux_vm" where
  "set_region vm rid r = vm\<lparr>vm_regions := (vm_regions vm)(nat rid := r)\<rparr>"

text \<open>Bytes \<open>off ..< off + n\<close> of a buffer; a null buffer or a range beyond its end is undefined.\<close>

definition buf_read :: "vm_buffer option \<Rightarrow> u64 \<Rightarrow> u64 \<Rightarrow> u8 list cres" where
  "buf_read b off n =
     (case b of
        None \<Rightarrow> UB NullPointer
      | Some c \<Rightarrow> if unat off + unat n \<le> length (buf_bytes c)
                  then Val (take (unat n) (drop (unat off) (buf_bytes c))) else UB OobRegion)"

definition buf_write :: "vm_buffer option \<Rightarrow> u64 \<Rightarrow> u8 list \<Rightarrow> vm_buffer option cres" where
  "buf_write b off xs =
     (case b of
        None \<Rightarrow> UB NullPointer
      | Some c \<Rightarrow> if unat off + length xs \<le> length (buf_bytes c)
                  then Val (Some (c\<lparr>buf_bytes := take (unat off) (buf_bytes c) @ xs @
                                                 drop (unat off + length xs) (buf_bytes c)\<rparr>))
                  else UB OobRegion)"

subsection \<open>Creation and destruction\<close>

definition flux_vm_region_create ::
    "calloc \<Rightarrow> flux_vm \<Rightarrow> string option \<Rightarrow> u64 \<Rightarrow> bool \<Rightarrow> int \<times> flux_vm" where
  "flux_vm_region_create ca vm name0 size0 ro =
     (let name = (case name0 of None \<Rightarrow> ''unnamed'' | Some s \<Rightarrow> s);
          sz = (if size0 = 0 then 256 else size0);
          rid = find_free_region vm
      in if rid < 0 then (-1, vm)
         else case ca sz of
           None \<Rightarrow> (-1, vm)
         | Some addr \<Rightarrow>
             let reg = zero_region\<lparr>rg_data := Some \<lparr>buf_addr = addr,
                                                    buf_bytes = replicate (unat sz) 0\<rparr>,
                                   rg_size := sz, rg_base := 0, rg_active := True,
                                   rg_readonly := ro, rg_owner := vm_owner_pid vm,
                                   rg_name := take 31 name\<rparr>;
                 vm1 = set_region vm rid reg
             in (rid, if vm_active_region vm1 < 0 then vm1\<lparr>vm_active_region := rid\<rparr> else vm1))"

definition flux_vm_region_data :: "flux_vm \<Rightarrow> int \<Rightarrow> vm_buffer option" where
  "flux_vm_region_data vm region_id =
     (if \<not> validate_region_id vm region_id then None else rg_data (get_region vm region_id))"

definition first_active :: "flux_vm \<Rightarrow> int" where
  "first_active vm =
     (case find (\<lambda>i. rg_active (vm_regions vm i)) [0..<FLUX_REGION_MAX] of
        Some i \<Rightarrow> int i | None \<Rightarrow> -1)"

definition flux_vm_region_destroy :: "flux_vm \<Rightarrow> int \<Rightarrow> flux_status \<times> flux_vm" where
  "flux_vm_region_destroy vm region_id =
     (if \<not> validate_region_id vm region_id then (FLUX_ERR_NOTFOUND, vm)
      else
        let reg = (get_region vm region_id)\<lparr>rg_data := None, rg_active := False, rg_size := 0,
                                            rg_base := 0, rg_name := ''''\<rparr>;
            vm1 = set_region vm region_id reg
        in (FLUX_OK,
            if vm_active_region vm1 = region_id
            then vm1\<lparr>vm_active_region := first_active vm1\<rparr> else vm1))"

definition flux_vm_region_destroy_all :: "flux_vm \<Rightarrow> flux_status \<times> flux_vm" where
  "flux_vm_region_destroy_all vm =
     (FLUX_OK,
      vm\<lparr>vm_regions := (\<lambda>i. let r = vm_regions vm i in
                            if i < FLUX_REGION_MAX \<and> rg_active r
                            then r\<lparr>rg_data := None, rg_active := False, rg_size := 0,
                                   rg_name := ''''\<rparr>
                            else r),
         vm_active_region := -1\<rparr>)"

subsection \<open>Switching and queries\<close>

definition flux_vm_region_set_active :: "flux_vm \<Rightarrow> int \<Rightarrow> flux_status \<times> flux_vm" where
  "flux_vm_region_set_active vm region_id =
     (if \<not> validate_region_id vm region_id then (FLUX_ERR_NOTFOUND, vm)
      else
        let r = get_region vm region_id;
            addr = (case rg_data r of None \<Rightarrow> 0 | Some b \<Rightarrow> buf_addr b)
        in (FLUX_OK,
            set_special
              (set_special (vm\<lparr>vm_active_region := region_id\<rparr>) FLUX_REG_REGION_BASE addr)
              FLUX_REG_REGION_SIZE (rg_size r)))"

text \<open>
  \<open>flux_vm_region_info\<close>: \<open>name_buf_len\<close> is \<open>None\<close> for a NULL name buffer; on success the result
  carries the name written to the buffer, the size and the two flags.
\<close>

definition flux_vm_region_info ::
    "flux_vm \<Rightarrow> int \<Rightarrow> u64 option \<Rightarrow>
       flux_status \<times> (string option \<times> u64 \<times> bool \<times> bool) option" where
  "flux_vm_region_info vm region_id name_buf_len =
     (if region_id < 0 \<or> int FLUX_REGION_MAX \<le> region_id then (FLUX_ERR_NOTFOUND, None)
      else
        let r = get_region vm region_id;
            nm = (case name_buf_len of
                    None \<Rightarrow> None
                  | Some l \<Rightarrow> if 0 < l then Some (take (unat (l - 1)) (rg_name r)) else None)
        in (FLUX_OK, Some (nm, rg_size r, rg_readonly r, rg_active r)))"

definition flux_vm_region_count :: "flux_vm \<Rightarrow> nat" where
  "flux_vm_region_count vm =
     fold (\<lambda>i count. if rg_active (vm_regions vm i) then Suc count else count)
       [0..<FLUX_REGION_MAX] 0"

definition flux_vm_region_get_active :: "flux_vm \<Rightarrow> int" where
  "flux_vm_region_get_active vm = vm_active_region vm"

definition flux_vm_region_get_size :: "flux_vm \<Rightarrow> int \<Rightarrow> u64" where
  "flux_vm_region_get_size vm region_id =
     (if \<not> validate_region_id vm region_id then 0 else rg_size (get_region vm region_id))"

definition flux_vm_region_find :: "flux_vm \<Rightarrow> string option \<Rightarrow> int" where
  "flux_vm_region_find vm name0 =
     (case name0 of
        None \<Rightarrow> -1
      | Some name \<Rightarrow>
          case find (\<lambda>i. rg_active (vm_regions vm i) \<and> rg_name (vm_regions vm i) = name)
                 [0..<FLUX_REGION_MAX] of
            Some i \<Rightarrow> int i | None \<Rightarrow> -1)"

subsection \<open>Bulk access\<close>

text \<open>
  \<open>have_buf\<close> is whether the caller's buffer is non-NULL; the result is the count together with
  the bytes copied into it.
\<close>

definition flux_vm_region_read ::
    "flux_vm \<Rightarrow> int \<Rightarrow> u64 \<Rightarrow> bool \<Rightarrow> u64 \<Rightarrow> (u64 \<times> u8 list) cres" where
  "flux_vm_region_read vm region_id offset have_buf nbytes =
     (if \<not> have_buf \<or> nbytes = 0 then Val (0, [])
      else if \<not> validate_region_id vm region_id then Val (0, [])
      else
        let reg = get_region vm region_id
        in if rg_size reg \<le> offset then Val (0, [])
           else
             let available = rg_size reg - offset;
                 to_read = (if nbytes < available then nbytes else available)
             in cmap (\<lambda>bs. (to_read, bs)) (buf_read (rg_data reg) offset to_read))"

text \<open>\<open>buf\<close> is the caller's buffer (\<open>None\<close>: NULL); reading beyond its end is undefined.\<close>

definition flux_vm_region_write ::
    "flux_vm \<Rightarrow> int \<Rightarrow> u64 \<Rightarrow> u8 list option \<Rightarrow> u64 \<Rightarrow> (u64 \<times> flux_vm) cres" where
  "flux_vm_region_write vm region_id offset buf nbytes =
     (case buf of
        None \<Rightarrow> Val (0, vm)
      | Some src \<Rightarrow>
          if nbytes = 0 then Val (0, vm)
          else if \<not> validate_region_id vm region_id then Val (0, vm)
          else
            let reg = get_region vm region_id
            in if rg_readonly reg then Val (0, vm)
               else if rg_size reg \<le> offset then Val (0, vm)
               else
                 let available = rg_size reg - offset;
                     to_write = (if nbytes < available then nbytes else available)
                 in if length src < unat to_write then UB OobBuffer
                    else cmap (\<lambda>d. (to_write, set_region vm region_id (reg\<lparr>rg_data := d\<rparr>)))
                           (buf_write (rg_data reg) offset (take (unat to_write) src)))"

text \<open>
  \<open>ra\<close> is \<open>realloc\<close>'s result: the address of the block that holds the old bytes up to the
  smaller size, or \<open>None\<close>, which leaves the old block as it was.
\<close>

definition flux_vm_region_resize ::
    "calloc \<Rightarrow> flux_vm \<Rightarrow> int \<Rightarrow> u64 \<Rightarrow> flux_status \<times> flux_vm" where
  "flux_vm_region_resize ra vm region_id new_size0 =
     (if \<not> validate_region_id vm region_id then (FLUX_ERR_NOTFOUND, vm)
      else
        let new_size = (if new_size0 = 0 then 1 else new_size0);
            reg = get_region vm region_id;
            old = (case rg_data reg of None \<Rightarrow> [] | Some b \<Rightarrow> buf_bytes b)
        in case ra new_size of
             None \<Rightarrow> (FLUX_ERR_NOMEM, vm)
           | Some addr \<Rightarrow>
               let bytes = take (unat new_size) old @
                           replicate (unat new_size - length old) 0;
                   vm1 = set_region vm region_id
                           (reg\<lparr>rg_data := Some \<lparr>buf_addr = addr, buf_bytes = bytes\<rparr>,
                                rg_size := new_size\<rparr>)
               in (FLUX_OK,
                   if vm_active_region vm1 = region_id
                   then set_special vm1 FLUX_REG_REGION_SIZE new_size else vm1))"

definition flux_vm_region_set_owner :: "flux_vm \<Rightarrow> int \<Rightarrow> u32 \<Rightarrow> flux_status \<times> flux_vm" where
  "flux_vm_region_set_owner vm region_id owner =
     (if \<not> validate_region_id vm region_id then (FLUX_ERR_NOTFOUND, vm)
      else (FLUX_OK, set_region vm region_id ((get_region vm region_id)\<lparr>rg_owner := owner\<rparr>)))"

definition flux_vm_region_set_readonly :: "flux_vm \<Rightarrow> int \<Rightarrow> bool \<Rightarrow> flux_status \<times> flux_vm" where
  "flux_vm_region_set_readonly vm region_id ro =
     (if \<not> validate_region_id vm region_id then (FLUX_ERR_NOTFOUND, vm)
      else (FLUX_OK, set_region vm region_id ((get_region vm region_id)\<lparr>rg_readonly := ro\<rparr>)))"

definition flux_vm_region_copy ::
    "flux_vm \<Rightarrow> int \<Rightarrow> u64 \<Rightarrow> int \<Rightarrow> u64 \<Rightarrow> u64 \<Rightarrow> (flux_status \<times> flux_vm) cres" where
  "flux_vm_region_copy vm src_id src_offset dst_id dst_offset nbytes0 =
     (if \<not> validate_region_id vm src_id then Val (FLUX_ERR_NOTFOUND, vm)
      else if \<not> validate_region_id vm dst_id then Val (FLUX_ERR_NOTFOUND, vm)
      else
        let src = get_region vm src_id; dst = get_region vm dst_id
        in if rg_readonly dst then Val (FLUX_ERR_DENIED, vm)
           else if rg_size src \<le> src_offset then Val (FLUX_ERR_INVALID, vm)
           else
             let nbytes1 = min nbytes0 (rg_size src - src_offset)
             in if rg_size dst \<le> dst_offset then Val (FLUX_ERR_INVALID, vm)
                else
                  let nbytes = min nbytes1 (rg_size dst - dst_offset)
                  in if nbytes = 0 then Val (FLUX_OK, vm)
                     else
                       cbind (buf_read (rg_data src) src_offset nbytes) (\<lambda>bs.
                       cmap (\<lambda>d. (FLUX_OK, set_region vm dst_id (dst\<lparr>rg_data := d\<rparr>)))
                         (buf_write (rg_data dst) dst_offset bs)))"

definition flux_vm_region_fill ::
    "flux_vm \<Rightarrow> int \<Rightarrow> u64 \<Rightarrow> u64 \<Rightarrow> u8 \<Rightarrow> (flux_status \<times> flux_vm) cres" where
  "flux_vm_region_fill vm region_id offset nbytes0 fill =
     (if \<not> validate_region_id vm region_id then Val (FLUX_ERR_NOTFOUND, vm)
      else
        let reg = get_region vm region_id
        in if rg_readonly reg then Val (FLUX_ERR_DENIED, vm)
           else if rg_size reg \<le> offset then Val (FLUX_ERR_INVALID, vm)
           else
             let nbytes = min nbytes0 (rg_size reg - offset)
             in cmap (\<lambda>d. (FLUX_OK, set_region vm region_id (reg\<lparr>rg_data := d\<rparr>)))
                  (buf_write (rg_data reg) offset (replicate (unat nbytes) fill)))"

subsection \<open>The region invariant\<close>

definition region_ok :: "flux_vm_region \<Rightarrow> bool" where
  "region_ok r \<longleftrightarrow>
     (rg_active r \<longrightarrow> (\<exists>b. rg_data r = Some b \<and> length (buf_bytes b) = unat (rg_size r)))"

definition active_ok :: "flux_vm \<Rightarrow> bool" where
  "active_ok vm \<longleftrightarrow>
     vm_active_region vm = -1 \<or> validate_region_id vm (vm_active_region vm)"

definition regions_ok :: "flux_vm \<Rightarrow> bool" where
  "regions_ok vm \<longleftrightarrow> (\<forall>i. region_ok (vm_regions vm i)) \<and> active_ok vm"

lemma validate_region_id_iff:
  "validate_region_id vm r \<longleftrightarrow> 0 \<le> r \<and> r < 16 \<and> rg_active (vm_regions vm (nat r))"
  by (auto simp: validate_region_id_def)

lemma regions_okD: "regions_ok vm \<Longrightarrow> region_ok (vm_regions vm i)"
  by (simp add: regions_ok_def)

text \<open>The invariant looks at two fields only.\<close>

lemma regions_ok_cong:
  "vm_regions vm' = vm_regions vm \<Longrightarrow> vm_active_region vm' = vm_active_region vm \<Longrightarrow>
   regions_ok vm' = regions_ok vm"
  by (simp add: regions_ok_def active_ok_def validate_region_id_def)

lemma region_okE:
  assumes "region_ok r" "rg_active r"
  obtains b where "rg_data r = Some b" "length (buf_bytes b) = unat (rg_size r)"
  using assms by (auto simp: region_ok_def)

lemma set_region_simps [simp]:
  "vm_regions (set_region vm rid r) = (vm_regions vm)(nat rid := r)"
  "vm_active_region (set_region vm rid r) = vm_active_region vm"
  "vm_regs (set_region vm rid r) = vm_regs vm"
  by (simp_all add: set_region_def)

lemma set_special_simps [simp]:
  "vm_regions (set_special vm n v) = vm_regions vm"
  "vm_active_region (set_special vm n v) = vm_active_region vm"
  "vm_regs (set_special vm n v) = (vm_regs vm)(n := v)"
  by (simp_all add: set_special_def)

text \<open>Replacing a live region by another live one keeps the invariant.\<close>

lemma regions_ok_set_region:
  assumes "regions_ok vm" "region_ok r" "rg_active r"
  shows "regions_ok (set_region vm rid r)"
  using assms by (auto simp: regions_ok_def active_ok_def validate_region_id_iff)

lemma regions_ok_set_special [inv_rules]: "regions_ok vm \<Longrightarrow> regions_ok (set_special vm n v)"
  by (subst regions_ok_cong [of _ vm]) auto

lemma find_free_region_cases:
  obtains "find_free_region vm = -1"
  | i where "find_free_region vm = int i" "i < 16" "\<not> rg_active (vm_regions vm i)"
proof (cases "find (\<lambda>i. \<not> rg_active (vm_regions vm i)) [0..<FLUX_REGION_MAX]")
  case None
  then show thesis using that(1) unfolding find_free_region_def by simp
next
  case (Some i)
  then have "i < 16" "\<not> rg_active (vm_regions vm i)"
    by (auto simp: find_Some_iff)
  moreover have "find_free_region vm = int i"
    using Some unfolding find_free_region_def by simp
  ultimately show thesis using that(2) by blast
qed

lemma first_active_cases:
  obtains "first_active vm = -1"
  | i where "first_active vm = int i" "i < 16" "rg_active (vm_regions vm i)"
proof (cases "find (\<lambda>i. rg_active (vm_regions vm i)) [0..<FLUX_REGION_MAX]")
  case None
  then show thesis using that(1) unfolding first_active_def by simp
next
  case (Some i)
  then have "i < 16" "rg_active (vm_regions vm i)"
    by (auto simp: find_Some_iff)
  moreover have "first_active vm = int i"
    using Some unfolding first_active_def by simp
  ultimately show thesis using that(2) by blast
qed

lemma regions_ok_create [inv_rules]:
  assumes "regions_ok vm"
  shows "regions_ok (snd (flux_vm_region_create ca vm nm sz ro))"
proof (rule find_free_region_cases [of vm])
  assume "find_free_region vm = -1"
  then show ?thesis using assms by (simp add: flux_vm_region_create_def Let_def)
next
  fix i assume "find_free_region vm = int i" "i < 16" "\<not> rg_active (vm_regions vm i)"
  then show ?thesis
    using assms
    by (auto simp: flux_vm_region_create_def Let_def regions_ok_def region_ok_def active_ok_def
                   validate_region_id_iff zero_region_def split: option.splits)
qed

lemma regions_ok_destroy [inv_rules]:
  assumes "regions_ok vm"
  shows "regions_ok (snd (flux_vm_region_destroy vm rid))"
proof -
  let ?r = "(get_region vm rid)\<lparr>rg_data := None, rg_active := False, rg_size := 0,
                                rg_base := 0, rg_name := ''''\<rparr>"
  let ?vm = "set_region vm rid ?r"
  have all: "region_ok (vm_regions ?vm i)" for i
    using assms by (simp add: regions_ok_def region_ok_def)
  have keep: "active_ok ?vm" if "vm_active_region vm \<noteq> rid" "validate_region_id vm rid"
    using that assms by (auto simp: regions_ok_def active_ok_def validate_region_id_iff)
  have switch: "active_ok (?vm\<lparr>vm_active_region := first_active ?vm\<rparr>)"
    by (rule first_active_cases [of ?vm])
       (auto simp: active_ok_def validate_region_id_iff)
  show ?thesis
    using assms all keep switch
    by (auto simp: flux_vm_region_destroy_def Let_def regions_ok_def)
qed

lemma regions_ok_destroy_all [inv_rules]:
  "regions_ok vm \<Longrightarrow> regions_ok (snd (flux_vm_region_destroy_all vm))"
  by (auto simp: flux_vm_region_destroy_all_def Let_def regions_ok_def region_ok_def active_ok_def)

lemma regions_ok_set_active [inv_rules]:
  "regions_ok vm \<Longrightarrow> regions_ok (snd (flux_vm_region_set_active vm rid))"
  by (auto simp: flux_vm_region_set_active_def Let_def regions_ok_def active_ok_def
                 validate_region_id_iff)

lemma buf_write_Some:
  "buf_write b off xs = Val d \<Longrightarrow>
   \<exists>c c'. b = Some c \<and> d = Some c' \<and> buf_addr c' = buf_addr c \<and>
          length (buf_bytes c') = length (buf_bytes c) \<and>
          buf_bytes c' = take (unat off) (buf_bytes c) @ xs @
                         drop (unat off + length xs) (buf_bytes c)"
  by (auto simp: buf_write_def split: option.splits if_splits)

lemma region_ok_buf_write:
  assumes "region_ok r" "rg_active r" "buf_write (rg_data r) off xs = Val d"
  shows "region_ok (r\<lparr>rg_data := d\<rparr>)"
  using assms by (auto simp: region_ok_def dest: buf_write_Some)

text \<open>Writing a buffer in place, the shape of write, fill and copy.\<close>

lemma regions_ok_buf_write:
  assumes "regions_ok vm" "validate_region_id vm rid"
    and "buf_write (rg_data (get_region vm rid)) off xs = Val d"
  shows "regions_ok (set_region vm rid ((get_region vm rid)\<lparr>rg_data := d\<rparr>))"
  using assms
  by (intro regions_ok_set_region region_ok_buf_write)
     (auto simp: validate_region_id_iff get_region_def dest: regions_okD)

lemma regions_ok_write [inv_rules]:
  "regions_ok vm \<Longrightarrow> flux_vm_region_write vm rid off buf n = Val (k, vm') \<Longrightarrow> regions_ok vm'"
  by (auto simp: flux_vm_region_write_def Let_def cmap_Val_iff
           split: option.splits if_splits intro: regions_ok_buf_write)

lemma regions_ok_fill [inv_rules]:
  "regions_ok vm \<Longrightarrow> flux_vm_region_fill vm rid off n b = Val (st, vm') \<Longrightarrow> regions_ok vm'"
  by (auto simp: flux_vm_region_fill_def Let_def cmap_Val_iff
           split: option.splits if_splits intro: regions_ok_buf_write)

lemma regions_ok_copy [inv_rules]:
  "regions_ok vm \<Longrightarrow> flux_vm_region_copy vm s so t to n = Val (st, vm') \<Longrightarrow> regions_ok vm'"
  by (auto simp: flux_vm_region_copy_def Let_def cmap_Val_iff cbind_Val_iff
           split: option.splits if_splits intro: regions_ok_buf_write)

lemma regions_ok_resize [inv_rules]:
  assumes "regions_ok vm"
  shows "regions_ok (snd (flux_vm_region_resize ra vm rid sz))"
proof -
  have "regions_ok (set_region vm rid
          ((get_region vm rid)\<lparr>rg_data := Some \<lparr>buf_addr = a, buf_bytes = bs\<rparr>, rg_size := z\<rparr>))"
    if "validate_region_id vm rid" "length bs = unat z" for a z bs
    using that assms
    by (intro regions_ok_set_region) (auto simp: region_ok_def validate_region_id_iff get_region_def)
  then show ?thesis
    using assms
    by (auto simp: flux_vm_region_resize_def Let_def simp del: fun_upd_apply
             intro!: regions_ok_set_special split: option.splits)
qed

lemma regions_ok_set_owner [inv_rules]:
  "regions_ok vm \<Longrightarrow> regions_ok (snd (flux_vm_region_set_owner vm rid ow))"
  using regions_okD [of vm "nat rid"]
  by (auto simp: flux_vm_region_set_owner_def validate_region_id_iff get_region_def
                 region_ok_def intro!: regions_ok_set_region)

lemma regions_ok_set_readonly [inv_rules]:
  "regions_ok vm \<Longrightarrow> regions_ok (snd (flux_vm_region_set_readonly vm rid ro))"
  using regions_okD [of vm "nat rid"]
  by (auto simp: flux_vm_region_set_readonly_def validate_region_id_iff get_region_def
                 region_ok_def intro!: regions_ok_set_region)

end
