(* ===== verification/FluxExec.thy ===== *)
theory FluxExec
  imports FluxRegion
begin

section \<open>The opcode handlers of the interpreter (vm/vm.c, the switch of flux_vm_step)\<close>

text \<open>
  One definition per block of sixteen opcodes, in the order of the switch. A handler receives the
  decoded instruction \<open>i\<close>, the two source values \<open>v_rs1\<close> and \<open>v_rs2\<close> read before the dispatch,
  and the instance with the program counter already advanced. \<open>Break vm\<close> is the C \<open>break\<close>: the
  step goes on to its common epilogue. \<open>Return st vm\<close> is a \<open>return st\<close> from inside the switch,
  which skips it. \<open>UB\<close> is undefined behaviour.
\<close>

datatype flow = Break flux_vm | Return flux_status flux_vm

text \<open>The status-and-instance result of an operation, returned from the step.\<close>

definition returned :: "flux_status \<times> flux_vm \<Rightarrow> flow cres" where
  "returned r = Val (Return (fst r) (snd r))"

definition vm_fail :: "flux_vm \<Rightarrow> u8 \<Rightarrow> flux_status \<Rightarrow> flow cres" where
  "vm_fail vm code st = Val (Return st (vm\<lparr>vm_state := VM_ERROR, vm_error_code := code\<rparr>))"

text \<open>\<open>flux_vm_set_reg(vm, rd, v); break;\<close>\<close>

definition break_set :: "flux_vm \<Rightarrow> u8 \<Rightarrow> u64 \<Rightarrow> flow cres" where
  "break_set vm rd v = cmap Break (flux_vm_set_reg vm rd v)"

definition imm64 :: "flux_vm_insn \<Rightarrow> u64" where
  "imm64 i = scast (in_imm i)"

definition break_special :: "flux_vm \<Rightarrow> nat \<Rightarrow> u64 \<Rightarrow> flow cres" where
  "break_special vm r v = Val (Break (set_special vm r v))"

definition break_pc :: "flux_vm \<Rightarrow> bool \<Rightarrow> u64 \<Rightarrow> flow cres" where
  "break_pc vm c target = Val (Break (if c then vm\<lparr>vm_pc := target\<rparr> else vm))"

lemmas exec_helpers = returned_def vm_fail_def break_set_def break_special_def break_pc_def

subsection \<open>System, 0x00 - 0x0F\<close>

definition exec_system :: "flux_vm_insn \<Rightarrow> flux_vm \<Rightarrow> flow cres" where
  "exec_system i vm =
     (let op = in_opcode i
      in if op = OP_NOP then Val (Break vm)
         else if op = OP_HALT then Val (Return FLUX_OK (vm\<lparr>vm_state := VM_HALTED\<rparr>))
         else if op = OP_TRAP then
           (let handler = vm_regs vm FLUX_REG_TRAP_HANDLER
            in if handler \<noteq> NO_HANDLER
               then Val (Break ((set_special vm FLUX_REG_RA (vm_pc vm))
                                 \<lparr>vm_pc := handler, vm_error_code := ucast (in_imm i AND 0xFF)\<rparr>))
               else returned (flux_vm_trap vm (ucast (in_imm i AND 0xFF))))
         else if op = OP_INVALID then vm_fail vm 20 FLUX_ERR_INVALID
         else returned (flux_vm_trap vm op))"

subsection \<open>Arithmetic, 0x10 - 0x1F\<close>

definition exec_arith :: "fpu \<Rightarrow> flux_vm_insn \<Rightarrow> u64 \<Rightarrow> u64 \<Rightarrow> flux_vm \<Rightarrow> flow cres" where
  "exec_arith fp i v_rs1 v_rs2 vm =
     (let op = in_opcode i; rd = in_rd i; s_rs1 = sint v_rs1; s_rs2 = sint v_rs2
      in if op = OP_IADD then cbind (s64 (s_rs1 + s_rs2)) (break_set vm rd)
         else if op = OP_ISUB then cbind (s64 (s_rs1 - s_rs2)) (break_set vm rd)
         else if op = OP_IMUL then cbind (s64 (s_rs1 * s_rs2)) (break_set vm rd)
         else if op = OP_IDIV then
           (if s_rs2 = 0 then vm_fail vm 30 FLUX_ERR_GENERAL
            else cbind (s64 (s_rs1 sdiv s_rs2)) (break_set vm rd))
         else if op = OP_IMOD then
           (if s_rs2 = 0 then vm_fail vm 30 FLUX_ERR_GENERAL
            else cbind (s64 (s_rs1 sdiv s_rs2)) (\<lambda>_. cbind (s64 (s_rs1 smod s_rs2)) (break_set vm rd)))
         else if op = OP_INEG then cbind (s64 (- s_rs1)) (break_set vm rd)
         else if op = OP_IABS then
           cbind (s64 (if s_rs1 < 0 then - s_rs1 else s_rs1)) (break_set vm rd)
         else if op = OP_INC then
           cbind (flux_vm_get_reg vm rd) (\<lambda>v. break_set vm rd (v + 1))
         else if op = OP_DEC then
           cbind (flux_vm_get_reg vm rd) (\<lambda>v. break_set vm rd (v - 1))
         else if op = OP_FADD then break_set vm rd (fadd fp v_rs1 v_rs2)
         else if op = OP_FSUB then break_set vm rd (fsub fp v_rs1 v_rs2)
         else if op = OP_FMUL then break_set vm rd (fmul fp v_rs1 v_rs2)
         else if op = OP_FDIV then
           (if dbl_eq v_rs2 0 then vm_fail vm 31 FLUX_ERR_GENERAL
            else break_set vm rd (fdiv fp v_rs1 v_rs2))
         else if op = OP_FNEG then break_set vm rd (dbl_neg v_rs1)
         else if op = OP_I2F then break_set vm rd (i2f fp v_rs1)
         else (case f2i fp v_rs1 of None \<Rightarrow> UB BadFloatConversion | Some v \<Rightarrow> break_set vm rd v))"

subsection \<open>Logic, 0x20 - 0x2F\<close>

definition exec_logic :: "flux_vm_insn \<Rightarrow> u64 \<Rightarrow> u64 \<Rightarrow> flux_vm \<Rightarrow> flow cres" where
  "exec_logic i v_rs1 v_rs2 vm =
     (let op = in_opcode i; rd = in_rd i; shift = unat (v_rs2 AND 63)
      in if op = OP_IAND then break_set vm rd (v_rs1 AND v_rs2)
         else if op = OP_IOR then break_set vm rd (v_rs1 OR v_rs2)
         else if op = OP_IXOR then break_set vm rd (v_rs1 XOR v_rs2)
         else if op = OP_INOT then break_set vm rd (NOT v_rs1)
         else if op = OP_ISHL then break_set vm rd (push_bit shift v_rs1)
         else if op = OP_ISHR then break_set vm rd (signed_drop_bit shift v_rs1)
         else if op = OP_USHR then break_set vm rd (drop_bit shift v_rs1)
         else if op = OP_ROTATE_L then cbind (rotl64 v_rs1 shift) (break_set vm rd)
         else if op = OP_ROTATE_R then cbind (rotr64 v_rs1 shift) (break_set vm rd)
         else if op = OP_POPCOUNT then break_set vm rd (popcount64 v_rs1)
         else if op = OP_CLZ then break_set vm rd (of_nat (clz64 v_rs1))
         else if op = OP_CTZ then break_set vm rd (of_nat (ctz64 v_rs1))
         else if op = OP_BSWAP then break_set vm rd (bswap64 v_rs1)
         else if op = OP_ANDI then break_set vm rd (v_rs1 AND imm64 i)
         else if op = OP_ORI then break_set vm rd (v_rs1 OR imm64 i)
         else break_set vm rd (v_rs1 XOR imm64 i))"

subsection \<open>Comparison, 0x30 - 0x3F\<close>

definition exec_compare :: "flux_vm_insn \<Rightarrow> u64 \<Rightarrow> u64 \<Rightarrow> flux_vm \<Rightarrow> flow cres" where
  "exec_compare i v_rs1 v_rs2 vm =
     (let op = in_opcode i; set_flags = break_special vm FLUX_REG_FLAGS;
          s_rs1 = sint v_rs1; s_rs2 = sint v_rs2
      in if op = OP_CMP then Val (Break (flux_vm_set_flags vm v_rs1 v_rs2))
         else if op = OP_CMPI then Val (Break (flux_vm_set_flags vm v_rs1 (imm64 i)))
         else if op = OP_FCMP then
           set_flags ((if dbl_eq v_rs1 v_rs2 then FLUX_FLAG_EQUAL else 0) OR
                      (if dbl_lt v_rs1 v_rs2 then FLUX_FLAG_LESS else 0) OR
                      (if dbl_lt v_rs2 v_rs1 then FLUX_FLAG_GREATER else 0) OR
                      (if dbl_eq v_rs1 0 then FLUX_FLAG_ZERO else 0) OR
                      (if dbl_lt v_rs1 0 then FLUX_FLAG_NEGATIVE else 0))
         else if op = OP_TEST then
           set_flags (if v_rs1 AND v_rs2 = 0 then FLUX_FLAG_ZERO OR FLUX_FLAG_EQUAL else 0)
         else if op = OP_TESTI then
           set_flags (if v_rs1 AND imm64 i = 0 then FLUX_FLAG_ZERO OR FLUX_FLAG_EQUAL else 0)
         else if op = 0x35 then set_flags (if v_rs1 = v_rs2 then FLUX_FLAG_EQUAL else 0)
         else if op = 0x36 then
           set_flags (let f0 = (if v_rs1 \<noteq> v_rs2 then FLUX_FLAG_EQUAL else 0);
                          f1 = f0 OR FLUX_FLAG_EQUAL
                      in if v_rs1 = v_rs2 then 0 else f1)
         else if op = 0x37 then set_flags (if s_rs1 < s_rs2 then FLUX_FLAG_LESS else 0)
         else if op = 0x38 then set_flags (if s_rs2 < s_rs1 then FLUX_FLAG_GREATER else 0)
         else if op = 0x39 then
           set_flags (if s_rs1 \<le> s_rs2 then FLUX_FLAG_LESS OR FLUX_FLAG_EQUAL else 0)
         else if op = 0x3A then
           set_flags (if s_rs2 \<le> s_rs1 then FLUX_FLAG_GREATER OR FLUX_FLAG_EQUAL else 0)
         else if op = 0x3B then set_flags (if dbl_eq v_rs1 v_rs2 then FLUX_FLAG_EQUAL else 0)
         else if op = 0x3C then set_flags (if dbl_lt v_rs1 v_rs2 then FLUX_FLAG_LESS else 0)
         else if op = 0x3D then set_flags (if dbl_lt v_rs2 v_rs1 then FLUX_FLAG_GREATER else 0)
         else if op = 0x3E then
           set_flags (if dbl_le v_rs1 v_rs2 then FLUX_FLAG_LESS OR FLUX_FLAG_EQUAL else 0)
         else set_flags (if dbl_le v_rs2 v_rs1 then FLUX_FLAG_GREATER OR FLUX_FLAG_EQUAL else 0))"

subsection \<open>Branches, 0x40 - 0x4F\<close>

definition exec_branch :: "flux_vm_insn \<Rightarrow> u64 \<Rightarrow> flux_vm \<Rightarrow> flow cres" where
  "exec_branch i v_rs1 vm =
     (let op = in_opcode i; target = ucast (in_target i) :: u64;
          flags = vm_regs vm FLUX_REG_FLAGS;
          has = (\<lambda>m. flags AND m \<noteq> 0);
          jump_if = (\<lambda>c. break_pc vm c target)
      in if op = OP_JMP then jump_if True
         else if op = OP_JZ then jump_if (v_rs1 = 0)
         else if op = OP_JNZ then jump_if (v_rs1 \<noteq> 0)
         else if op = OP_JE then jump_if (has FLUX_FLAG_EQUAL)
         else if op = OP_JNE then jump_if (\<not> has FLUX_FLAG_EQUAL)
         else if op = OP_JG then jump_if (has FLUX_FLAG_GREATER)
         else if op = OP_JL then jump_if (has FLUX_FLAG_LESS)
         else if op = OP_JGE then jump_if (has (FLUX_FLAG_GREATER OR FLUX_FLAG_EQUAL))
         else if op = OP_JLE then jump_if (has (FLUX_FLAG_LESS OR FLUX_FLAG_EQUAL))
         else if op = OP_JA then jump_if (\<not> has FLUX_FLAG_CARRY \<and> \<not> has FLUX_FLAG_EQUAL)
         else if op = OP_JB then jump_if (has FLUX_FLAG_CARRY)
         else if op = OP_JAE then jump_if (\<not> has FLUX_FLAG_CARRY)
         else if op = OP_JBE then jump_if (has (FLUX_FLAG_CARRY OR FLUX_FLAG_EQUAL))
         else if op = OP_JC then jump_if (has FLUX_FLAG_CARRY)
         else if op = OP_JO then jump_if (has FLUX_FLAG_OVERFLOW)
         else
           (let counter = vm_regs vm FLUX_REG_VMSTATE
            in if 0 < counter
               then break_pc (set_special vm FLUX_REG_VMSTATE (counter - 1)) (counter - 1 \<noteq> 0) target
               else Val (Break vm)))"

subsection \<open>Memory, 0x50 - 0x5F\<close>

text \<open>The one-byte displacement of the memory formats, sign-extended.\<close>

definition eff_addr :: "flux_vm_insn \<Rightarrow> u64 \<Rightarrow> u64" where
  "eff_addr i v_rs1 = v_rs1 + scast (in_rs2 i)"

text \<open>Whether the active region serves an access; otherwise the stack does.\<close>

definition region_live :: "flux_vm \<Rightarrow> bool" where
  "region_live vm \<longleftrightarrow>
     0 \<le> vm_active_region vm \<and> vm_active_region vm < int FLUX_REGION_MAX \<and>
     rg_active (get_region vm (vm_active_region vm))"

text \<open>
  The guard of the atomics and of MEMSET tests only the sign before it indexes the table.
\<close>

definition region_live_unchecked :: "flux_vm \<Rightarrow> bool cres" where
  "region_live_unchecked vm =
     (if vm_active_region vm < 0 then Val False
      else if vm_active_region vm < int FLUX_REGION_MAX
      then Val (rg_active (get_region vm (vm_active_region vm))) else UB OobRegionTable)"

text \<open>
  The bytes behind a region's data pointer. Behind a NULL pointer there are none, so that the
  accessors, which bound-check before they dereference, are undefined exactly when they would
  dereference it.
\<close>

definition region_bytes :: "flux_vm_region \<Rightarrow> u8 list" where
  "region_bytes r = (case rg_data r of None \<Rightarrow> [] | Some b \<Rightarrow> buf_bytes b)"

definition put_bytes :: "flux_vm \<Rightarrow> int \<Rightarrow> u8 list \<Rightarrow> flux_vm" where
  "put_bytes vm rid bs =
     (let r = get_region vm rid
      in set_region vm rid (r\<lparr>rg_data := map_option (\<lambda>b. b\<lparr>buf_bytes := bs\<rparr>) (rg_data r)\<rparr>))"

text \<open>LOAD ... LEA on the active region.\<close>

definition exec_region_access :: "flux_vm_insn \<Rightarrow> u64 \<Rightarrow> flux_vm \<Rightarrow> flow cres" where
  "exec_region_access i ea vm =
     (let op = in_opcode i; rd = in_rd i; rid = vm_active_region vm;
          reg = get_region vm rid; sz = rg_size reg;
          store = (\<lambda>f. cbind (flux_vm_get_reg vm rd) (\<lambda>v.
                     cmap (\<lambda>d'. Break (put_bytes vm rid d')) (f (region_bytes reg) v)))
      in if op = OP_LOAD then
           cbind (mem_read64 (region_bytes reg) ea sz) (break_set vm rd)
         else if op = OP_LOAD8 then
           cbind (mem_read8 (region_bytes reg) ea sz) (\<lambda>v. break_set vm rd (scast v))
         else if op = OP_LOAD16 then
           cbind (mem_read16 (region_bytes reg) ea sz) (\<lambda>v. break_set vm rd (scast v))
         else if op = OP_LOAD32 then
           cbind (mem_read32 (region_bytes reg) ea sz) (\<lambda>v. break_set vm rd (scast v))
         else if op = OP_STORE then store (\<lambda>d v. mem_write64 d ea sz v)
         else if op = OP_STORE8 then store (\<lambda>d v. mem_write8 d ea sz (ucast v))
         else if op = OP_STORE16 then store (\<lambda>d v. mem_write16 d ea sz (ucast v))
         else if op = OP_STORE32 then store (\<lambda>d v. mem_write32 d ea sz (ucast v))
         else break_set vm rd ea)"

text \<open>
  Bytes of a stack cell, as \<open>(uint8_t *)&vm->stack[addr]\<close> sees them on the supported targets,
  all little-endian: byte \<open>k\<close> is bits \<open>8 k ..< 8 k + 8\<close>.
\<close>

definition cell_byte :: "nat \<Rightarrow> u64 \<Rightarrow> u8" where
  "cell_byte k w = ucast (drop_bit (8 * k) w)"

definition set_cell_byte :: "nat \<Rightarrow> u8 \<Rightarrow> u64 \<Rightarrow> u64" where
  "set_cell_byte k b w = (w AND NOT (push_bit (8 * k) 0xFF)) OR push_bit (8 * k) (ucast b)"

text \<open>LOAD ... LEA with no live active region: the value stack serves as memory.\<close>

definition exec_stack_access :: "flux_vm_insn \<Rightarrow> u64 \<Rightarrow> flux_vm \<Rightarrow> flow cres" where
  "exec_stack_access i ea vm =
     (let op = in_opcode i; rd = in_rd i; sp = vm_regs vm FLUX_REG_SP; addr = sp - ea;
          ssz = vm_stack_size vm; keep = Val (Break vm);
          load = (\<lambda>f. cbind (stack_get vm addr) (\<lambda>w. break_set vm rd (f w)));
          store = (\<lambda>f. cbind (flux_vm_get_reg vm rd) (\<lambda>v. cbind (stack_get vm addr) (\<lambda>w.
                     cmap Break (stack_set vm addr (f v w)))))
      in if op = OP_LOAD then if addr + 8 \<le> ssz then load (\<lambda>w. w) else keep
         else if op = OP_LOAD8 then
           if addr < ssz then load (\<lambda>w. scast (cell_byte 0 w)) else keep
         else if op = OP_LOAD16 then
           if addr + 2 \<le> ssz
           then load (\<lambda>w. scast (push_bit 8 (ucast (cell_byte 0 w)) OR ucast (cell_byte 1 w) :: u16))
           else keep
         else if op = OP_LOAD32 then
           if addr + 4 \<le> ssz
           then load (\<lambda>w. scast (push_bit 24 (ucast (cell_byte 0 w)) OR
                                 push_bit 16 (ucast (cell_byte 1 w)) OR
                                 push_bit 8 (ucast (cell_byte 2 w)) OR
                                 ucast (cell_byte 3 w) :: u32))
           else keep
         else if op = OP_STORE then
           if addr + 8 \<le> ssz then store (\<lambda>v w. v) else keep
         else if op = OP_STORE8 then
           if addr < ssz then store (\<lambda>v w. set_cell_byte 0 (ucast v) w) else keep
         else if op = OP_STORE16 then
           if addr + 2 \<le> ssz
           then store (\<lambda>v w. set_cell_byte 1 (ucast v) (set_cell_byte 0 (ucast (drop_bit 8 v)) w))
           else keep
         else if op = OP_STORE32 then
           if addr + 4 \<le> ssz
           then store (\<lambda>v w. set_cell_byte 3 (ucast v)
                               (set_cell_byte 2 (ucast (drop_bit 8 v))
                                 (set_cell_byte 1 (ucast (drop_bit 16 v))
                                   (set_cell_byte 0 (ucast (drop_bit 24 v)) w))))
           else keep
         else break_set vm rd addr)"

text \<open>The MEMSET loop from index \<open>k\<close>; \<open>off < 2 ^ 32\<close>, so \<open>off + k\<close> does not wrap before the test.\<close>

function memset_loop :: "u8 list \<Rightarrow> nat \<Rightarrow> nat \<Rightarrow> nat \<Rightarrow> nat \<Rightarrow> u8 \<Rightarrow> u8 list cres" where
  "memset_loop d off k count sz b =
     (if k < count \<and> off + k < sz
      then cbind (wr_byte d (of_nat (off + k)) b) (\<lambda>d'. memset_loop d' off (Suc k) count sz b)
      else Val d)"
  by pat_completeness auto
termination by (relation "measure (\<lambda>(d, off, k, count, sz, b). count - k)") auto

declare memset_loop.simps [simp del]

text \<open>CMPXCHG, ATOMIC_ADD and ATOMIC_SUB.\<close>

definition exec_cmpxchg :: "flux_vm_insn \<Rightarrow> u64 \<Rightarrow> u64 \<Rightarrow> flux_vm \<Rightarrow> flux_vm cres" where
  "exec_cmpxchg i ea expected vm =
     (let rd = in_rd i; rid = vm_active_region vm; reg = get_region vm rid
      in cbind (mem_read64 (region_bytes reg) ea (rg_size reg)) (\<lambda>actual.
         cbind (flux_vm_get_reg vm rd) (\<lambda>desired.
         if actual = expected
         then cbind (mem_write64 (region_bytes reg) ea (rg_size reg) desired) (\<lambda>d'.
                flux_vm_set_reg (put_bytes vm rid d') rd actual)
         else flux_vm_set_reg vm rd actual)))"

definition exec_atomic :: "flux_vm_insn \<Rightarrow> u64 \<Rightarrow> u64 \<Rightarrow> flux_vm \<Rightarrow> flow cres" where
  "exec_atomic i v_rs1 v_rs2 vm =
     (let op = in_opcode i; rd = in_rd i; ea = eff_addr i v_rs1; rid = vm_active_region vm;
          reg = get_region vm rid; sz = rg_size reg
      in cbind (region_live_unchecked vm) (\<lambda>live.
         if op = OP_CMPXCHG then
           cmap (\<lambda>vm'. Break (set_special vm' FLUX_REG_FLAGS 0))
             (if \<not> live then Val vm else exec_cmpxchg i ea v_rs2 vm)
         else if \<not> live then Val (Break vm)
         else
           cbind (mem_read64 (region_bytes reg) ea sz) (\<lambda>old.
           cbind (flux_vm_get_reg vm rd) (\<lambda>v.
           cbind (s64 (if op = OP_ATOMIC_ADD then sint old + sint v else sint old - sint v)) (\<lambda>new.
           cbind (mem_write64 (region_bytes reg) ea sz new) (\<lambda>d'.
             break_set (put_bytes vm rid d') rd old))))))"

text \<open>LOAD_RM and STORE_RM: the region id is the low byte of rs1, the offset the low half of rd.\<close>

definition exec_region_rm :: "flux_vm_insn \<Rightarrow> u64 \<Rightarrow> u64 \<Rightarrow> flux_vm \<Rightarrow> flow cres" where
  "exec_region_rm i v_rs1 v_rs2 vm =
     (let op = in_opcode i; rd = in_rd i; rid = int (unat (v_rs1 AND 0xFF))
      in if rid < int FLUX_REGION_MAX \<and> rg_active (get_region vm rid) then
           (let reg = get_region vm rid
            in cbind (flux_vm_get_reg vm rd) (\<lambda>v.
               let off = v AND 0xFFFFFFFF
               in if off + 8 \<le> rg_size reg then
                    (if op = OP_LOAD_RM
                     then cbind (mem_read64 (region_bytes reg) off (rg_size reg)) (break_set vm rd)
                     else cmap (\<lambda>d'. Break (put_bytes vm rid d'))
                            (mem_write64 (region_bytes reg) off (rg_size reg) v_rs2))
                  else Val (Break vm)))
         else Val (Break vm))"

definition exec_memset :: "flux_vm_insn \<Rightarrow> u64 \<Rightarrow> u64 \<Rightarrow> flux_vm \<Rightarrow> flow cres" where
  "exec_memset i v_rs1 v_rs2 vm =
     cbind (region_live_unchecked vm) (\<lambda>live.
       if \<not> live then Val (Break vm)
       else
         let rid = vm_active_region vm; reg = get_region vm rid; off = v_rs1 AND 0xFFFFFFFF
         in cbind (flux_vm_get_reg vm (in_rd i)) (\<lambda>count.
            cmap (\<lambda>d'. Break (put_bytes vm rid d'))
              (memset_loop (region_bytes reg) (unat off) 0 (unat count) (unat (rg_size reg))
                 (ucast (v_rs2 AND 0xFF)))))"

definition exec_memory :: "flux_vm_insn \<Rightarrow> u64 \<Rightarrow> u64 \<Rightarrow> flux_vm \<Rightarrow> flow cres" where
  "exec_memory i v_rs1 v_rs2 vm =
     (let op = in_opcode i
      in if op \<le> OP_LEA then
           (let ea = eff_addr i v_rs1
            in if region_live vm then exec_region_access i ea vm else exec_stack_access i ea vm)
         else if op \<le> OP_ATOMIC_SUB then exec_atomic i v_rs1 v_rs2 vm
         else if op = OP_FENCE then Val (Break vm)
         else if op \<le> OP_STORE_RM then exec_region_rm i v_rs1 v_rs2 vm
         else exec_memset i v_rs1 v_rs2 vm)"

subsection \<open>Stack, 0x60 - 0x6F\<close>

text \<open>\<open>vm->regs[FLUX_REG_SP] = vm->stack_size - vm->stack_ptr\<close>\<close>

definition sync_sp :: "flux_vm \<Rightarrow> flux_vm" where
  "sync_sp vm = set_special vm FLUX_REG_SP (vm_stack_size vm - vm_stack_ptr vm)"

text \<open>Push, return the status on failure, otherwise update SP and break.\<close>

definition push_break :: "flux_vm \<Rightarrow> u64 \<Rightarrow> flow cres" where
  "push_break vm v =
     cbind (stack_push vm v) (\<lambda>(rc, vm1).
       if rc \<noteq> FLUX_OK then Val (Return rc vm1) else Val (Break (sync_sp vm1)))"

text \<open>Pop, return the status on failure, otherwise hand the value to \<open>f\<close>, update SP and break.\<close>

definition pop_break :: "flux_vm \<Rightarrow> (flux_vm \<Rightarrow> u64 \<Rightarrow> flux_vm cres) \<Rightarrow> flow cres" where
  "pop_break vm f =
     cbind (stack_pop vm) (\<lambda>(rc, v, vm1).
       if rc \<noteq> FLUX_OK then Val (Return rc vm1) else cmap (Break \<circ> sync_sp) (f vm1 v))"

text \<open>The loops of PUSHA (registers in the order given) and POPA.\<close>

fun pusha_loop :: "nat list \<Rightarrow> flux_vm \<Rightarrow> flow cres" where
  "pusha_loop [] vm = Val (Break (sync_sp vm))"
| "pusha_loop (r # rs) vm =
     cbind (stack_push vm (vm_regs vm r)) (\<lambda>(rc, vm1).
       if rc \<noteq> FLUX_OK then Val (Return rc vm1) else pusha_loop rs vm1)"

fun popa_loop :: "nat list \<Rightarrow> flux_vm \<Rightarrow> flow cres" where
  "popa_loop [] vm = Val (Break (sync_sp vm))"
| "popa_loop (r # rs) vm =
     cbind (stack_pop vm) (\<lambda>(rc, v, vm1).
       if rc \<noteq> FLUX_OK then Val (Return rc vm1) else popa_loop rs (set_special vm1 r v))"

definition exec_swap :: "flux_vm \<Rightarrow> flow cres" where
  "exec_swap vm =
     (if vm_stack_ptr vm < 2 then vm_fail vm 2 FLUX_ERR_GENERAL
      else cbind (stack_get vm (vm_stack_ptr vm - 1)) (\<lambda>a.
           cbind (stack_get vm (vm_stack_ptr vm - 2)) (\<lambda>b.
           cbind (stack_set vm (vm_stack_ptr vm - 1) b) (\<lambda>vm1.
           cmap Break (stack_set vm1 (vm_stack_ptr vm - 2) a)))))"

text \<open>The second half of ENTER: move the frame pointer and reserve \<open>frame_size\<close> bytes.\<close>

definition open_frame :: "flux_vm \<Rightarrow> int \<Rightarrow> flow cres" where
  "open_frame vm frame_size =
     (let vm1 = set_special vm FLUX_REG_FP (vm_regs vm FLUX_REG_SP);
          vm2 = vm1\<lparr>vm_stack_ptr := vm_stack_ptr vm1 + word_of_int (frame_size div 8)\<rparr>
      in if vm_stack_size vm2 < vm_stack_ptr vm2
         then vm_fail (vm2\<lparr>vm_stack_ptr := vm_stack_size vm2\<rparr>) 1 FLUX_ERR_OVERFLOW
         else Val (Break (sync_sp vm2)))"

text \<open>ENTER ignores the statuses of its two pushes.\<close>

definition exec_enter :: "flux_vm_insn \<Rightarrow> flux_vm \<Rightarrow> flow cres" where
  "exec_enter i vm =
     (let frame_size = (if sint (in_imm i) < 0 then 0 else sint (in_imm i))
      in cbind (stack_push vm (vm_regs vm FLUX_REG_BP)) (\<lambda>(_, vm1).
         cbind (stack_push vm1 (vm_regs vm1 FLUX_REG_FP)) (\<lambda>(_, vm2).
           open_frame vm2 frame_size)))"

text \<open>LEAVE ignores the statuses of its two pops, which then yield 0.\<close>

definition exec_leave :: "flux_vm \<Rightarrow> flow cres" where
  "exec_leave vm =
     (let vm0 = vm\<lparr>vm_stack_ptr := vm_stack_size vm - vm_regs vm FLUX_REG_FP\<rparr>
      in cbind (stack_pop vm0) (\<lambda>(_, saved_fp, vm1).
         cbind (stack_pop vm1) (\<lambda>(_, saved_bp, vm2).
           Val (Break (sync_sp (set_special (set_special vm2 FLUX_REG_FP saved_fp)
                                  FLUX_REG_BP saved_bp))))))"

definition exec_stack :: "flux_vm_insn \<Rightarrow> flux_vm \<Rightarrow> flow cres" where
  "exec_stack i vm =
     (let op = in_opcode i; rd = in_rd i
      in if op = OP_PUSH then cbind (flux_vm_get_reg vm rd) (push_break vm)
         else if op = OP_POP then pop_break vm (\<lambda>vm1 v. flux_vm_set_reg vm1 rd v)
         else if op = OP_PUSH_IMM then push_break vm (imm64 i)
         else if op = OP_DUP then
           (if vm_stack_ptr vm = 0 then vm_fail vm 2 FLUX_ERR_GENERAL
            else cbind (stack_get vm (vm_stack_ptr vm - 1)) (push_break vm))
         else if op = OP_SWAP then exec_swap vm
         else if op = OP_ENTER then exec_enter i vm
         else if op = OP_LEAVE then exec_leave vm
         else if op = OP_PUSHA then pusha_loop [1..<16] vm
         else if op = OP_POPA then popa_loop (rev [1..<16]) vm
         else if op = 0x69 then push_break vm (vm_regs vm FLUX_REG_FLAGS)
         else if op = 0x6A then pop_break vm (\<lambda>vm1 v. Val (set_special vm1 FLUX_REG_FLAGS v))
         else if op = 0x6B then cbind (flux_vm_get_reg vm (in_rs1 i)) (push_break vm)
         else if op = 0x6C then pop_break vm (\<lambda>vm1 v. flux_vm_set_reg vm1 rd v)
         else if op = 0x6D then
           Val (Break (if vm_stack_size vm - 256 < vm_stack_ptr vm
                       then set_special vm FLUX_REG_FLAGS
                              (vm_regs vm FLUX_REG_FLAGS OR FLUX_FLAG_CARRY)
                       else vm))
         else if op = 0x6E then
           cbind (flux_vm_get_reg vm rd) (\<lambda>alloc.
             let vm1 = vm\<lparr>vm_stack_ptr := vm_stack_ptr vm + alloc div 8\<rparr>
             in if vm_stack_size vm1 < vm_stack_ptr vm1
                then returned (flux_vm_trap (vm1\<lparr>vm_stack_ptr := vm_stack_size vm1\<rparr>) 1)
                else Val (Break (sync_sp vm1)))
         else
           cbind (flux_vm_get_reg vm rd) (\<lambda>free_bytes.
             Val (Break (sync_sp
               (vm\<lparr>vm_stack_ptr := (if free_bytes div 8 \<le> vm_stack_ptr vm
                                     then vm_stack_ptr vm - free_bytes div 8 else 0)\<rparr>)))))"

subsection \<open>Calls, 0x70 - 0x7F\<close>

text \<open>Push the return address; on overflow return the status, otherwise jump.\<close>

definition call_to :: "flux_vm \<Rightarrow> u64 cres \<Rightarrow> flow cres" where
  "call_to vm target =
     cbind (call_stack_push vm (vm_pc vm)) (\<lambda>(rc, vm1).
       if rc \<noteq> FLUX_OK then Val (Return rc vm1)
       else cmap (\<lambda>t. Break (vm1\<lparr>vm_pc := t\<rparr>)) target)"

definition exec_ret :: "flux_vm \<Rightarrow> flow cres" where
  "exec_ret vm =
     cbind (call_stack_pop vm) (\<lambda>(rc, ret_addr, vm1).
       if rc \<noteq> FLUX_OK then Val (Return FLUX_OK (vm1\<lparr>vm_state := VM_HALTED\<rparr>))
       else Val (Break (vm1\<lparr>vm_pc := ret_addr\<rparr>)))"

text \<open>RETI ignores the status of popping the flags.\<close>

definition exec_reti :: "flux_vm \<Rightarrow> flow cres" where
  "exec_reti vm =
     cbind (call_stack_pop vm) (\<lambda>(rc, ret_addr, vm1).
       if rc \<noteq> FLUX_OK then Val (Return FLUX_OK (vm1\<lparr>vm_state := VM_HALTED\<rparr>))
       else cbind (stack_pop vm1) (\<lambda>(_, saved_flags, vm2).
              Val (Break ((set_special vm2 FLUX_REG_FLAGS saved_flags)\<lparr>vm_pc := ret_addr\<rparr>))))"

definition exec_call :: "flux_vm_insn \<Rightarrow> u64 \<Rightarrow> flux_vm \<Rightarrow> flow cres" where
  "exec_call i v_rs1 vm =
     (let op = in_opcode i; rd = in_rd i
      in if op = OP_CALL then call_to vm (Val v_rs1)
         else if op = OP_CALLI then call_to vm (Val (ucast (in_target i)))
         else if op = OP_RET then exec_ret vm
         else if op = OP_RETI then exec_reti vm
         else if op = OP_SYSCALL then
           Val (Break ((set_special vm FLUX_REG_RA (vm_pc vm))
                        \<lparr>vm_error_code := ucast (vm_regs vm FLUX_REG_SYSCALL_NUM AND 0xFF)\<rparr>))
         else if op = OP_CALL_REG then call_to vm (flux_vm_get_reg vm rd)
         else if op = OP_TAILCALL then Val (Break (vm\<lparr>vm_pc := v_rs1\<rparr>))
         else if op = OP_ICALL then call_to vm (Val v_rs1)
         else if op = 0x78 \<or> op = 0x79 \<or> op = 0x7A then returned (flux_vm_trap vm op)
         else if op = 0x7B then vm_fail vm (ucast (v_rs1 AND 0xFF)) FLUX_ERR_GENERAL
         else if op = 0x7C then break_special vm FLUX_REG_TRAP_HANDLER v_rs1
         else if op = 0x7D then Val (Break vm)
         else if op = 0x7E then vm_fail vm 50 FLUX_ERR_GENERAL
         else break_special vm FLUX_REG_TRAP_HANDLER v_rs1)"

subsection \<open>Agents, 0x80 - 0x8F, and I/O, 0x90 - 0x9F\<close>

definition exec_agent :: "flux_vm_insn \<Rightarrow> u64 \<Rightarrow> flux_vm \<Rightarrow> flow cres" where
  "exec_agent i v_rs1 vm =
     (let op = in_opcode i; rd = in_rd i
      in if op \<in> {OP_DELEGATE, OP_TELL, OP_ASK, OP_REPLY, OP_BARRIER}
         then break_special vm FLUX_REG_ERROR_CODE 0
         else if op = OP_SPAWN then
           cmap (\<lambda>vm1. Break (set_special vm1 FLUX_REG_ERROR_CODE 0)) (flux_vm_set_reg vm rd 42)
         else if op = OP_YIELD_AGENT then Val (Return FLUX_OK (vm\<lparr>vm_state := VM_WAITING\<rparr>))
         else if op = OP_CAP_GRANT then break_special vm FLUX_REG_CAPABILITY v_rs1
         else if op = OP_CAP_CHECK then
           cbind (flux_vm_get_reg vm rd) (\<lambda>required.
             break_special vm FLUX_REG_FLAGS
               (if vm_regs vm FLUX_REG_CAPABILITY AND required = required
                then FLUX_FLAG_EQUAL else 0))
         else if op = OP_CAP_REVOKE then
           break_special vm FLUX_REG_CAPABILITY (vm_regs vm FLUX_REG_CAPABILITY AND NOT v_rs1)
         else returned (flux_vm_trap vm op))"

definition exec_io :: "flux_vm_insn \<Rightarrow> flux_vm \<Rightarrow> flow cres" where
  "exec_io i vm = break_special vm FLUX_REG_ERROR_CODE 0"

subsection \<open>FLUX-specific, 0xA0 - 0xAF\<close>

definition exec_flux :: "calloc \<Rightarrow> flux_vm_insn \<Rightarrow> u64 \<Rightarrow> u64 \<Rightarrow> flux_vm \<Rightarrow> flow cres" where
  "exec_flux ca i v_rs1 v_rs2 vm =
     (let op = in_opcode i; rd = in_rd i
      in if op = OP_TILE_LOAD then break_set vm rd (v_rs1 + 1)
         else if op = OP_TILE_COMPOSE then break_set vm rd (v_rs1 XOR v_rs2)
         else if op = OP_TILE_EXEC then Val (Break vm)
         else if op = OP_REGION_CREATE then
           (let (rid, vm1) = flux_vm_region_create ca vm (Some ''dyn'') v_rs1 False
            in break_set vm1 rd (word_of_int rid))
         else if op = OP_REGION_DESTROY then
           Val (Break (snd (flux_vm_region_destroy vm (int (unat (v_rs1 AND 0xFF))))))
         else if op = OP_REGION_MAP then
           (if v_rs1 < 16 \<and> rg_active (vm_regions vm (unat v_rs1))
            then break_set vm rd
                   (case rg_data (vm_regions vm (unat v_rs1)) of None \<Rightarrow> 0 | Some b \<Rightarrow> buf_addr b)
            else Val (Break vm))
         else if op \<in> {OP_ADAPT, OP_EVOLVE, OP_MODULE_IMPORT, OP_MODULE_EXPORT} then Val (Break vm)
         else if op = OP_TRACE_ON then Val (Break (vm\<lparr>vm_tracing := True, vm_trace_idx := 0\<rparr>))
         else if op = OP_TRACE_OFF then Val (Break (vm\<lparr>vm_tracing := False\<rparr>))
         else if op = OP_PROF_START then
           Val (Break (vm\<lparr>vm_op_counts := (\<lambda>_. 0), vm_cycle_count := 0, vm_insn_count := 0\<rparr>))
         else if op = OP_PROF_STOP then Val (Break vm)
         else if op = OP_GAS_INIT then
           cbind (flux_vm_get_reg vm rd) (break_special vm FLUX_REG_CYCLE_COUNT)
         else
           cbind (flux_vm_get_reg vm rd) (\<lambda>cost.
             let gas = vm_regs vm FLUX_REG_CYCLE_COUNT
             in if gas < cost then returned (flux_vm_trap vm 0xFE)
                else break_special vm FLUX_REG_CYCLE_COUNT (gas - cost)))"

subsection \<open>Native and vector, 0xB0 - 0xB7\<close>

definition exec_native :: "flux_vm_insn \<Rightarrow> u64 \<Rightarrow> u64 \<Rightarrow> flux_vm \<Rightarrow> flow cres" where
  "exec_native i v_rs1 v_rs2 vm =
     (let op = in_opcode i; rd = in_rd i
      in if op = OP_NATIVE_CALL \<or> op = OP_NATIVE_LOAD then returned (flux_vm_trap vm op)
         else if op = OP_VEC_LOAD then break_set vm rd v_rs1
         else if op = OP_VEC_STORE then Val (Break vm)
         else if op = OP_VEC_ADD then break_set vm rd (v_rs1 + v_rs2)
         else if op = OP_VEC_MUL then break_set vm rd (v_rs1 * v_rs2)
         else if op = OP_VEC_DOT then break_set vm rd (v_rs1 * v_rs2)
         else Val (Break vm))"

subsection \<open>The switch\<close>

definition vm_dispatch ::
    "fpu \<Rightarrow> calloc \<Rightarrow> flux_vm_insn \<Rightarrow> u64 \<Rightarrow> u64 \<Rightarrow> flux_vm \<Rightarrow> flow cres" where
  "vm_dispatch fp ca i v_rs1 v_rs2 vm =
     (let op = in_opcode i
      in if op < 0x10 then exec_system i vm
         else if op < 0x20 then exec_arith fp i v_rs1 v_rs2 vm
         else if op < 0x30 then exec_logic i v_rs1 v_rs2 vm
         else if op < 0x40 then exec_compare i v_rs1 v_rs2 vm
         else if op < 0x50 then exec_branch i v_rs1 vm
         else if op < 0x60 then exec_memory i v_rs1 v_rs2 vm
         else if op < 0x70 then exec_stack i vm
         else if op < 0x80 then exec_call i v_rs1 vm
         else if op < 0x90 then exec_agent i v_rs1 vm
         else if op < 0xA0 then exec_io i vm
         else if op < 0xB0 then exec_flux ca i v_rs1 v_rs2 vm
         else if op < 0xB8 then exec_native i v_rs1 v_rs2 vm
         else vm_fail vm 20 FLUX_ERR_INVALID)"

subsection \<open>Fetch, decode, execute\<close>

definition code_byte :: "flux_vm \<Rightarrow> u64 \<Rightarrow> u8 cres" where
  "code_byte vm a =
     (if unat a < length (vm_bytecode vm) then Val (vm_bytecode vm ! unat a) else UB OobBytecode)"

definition fetch_instruction :: "flux_vm \<Rightarrow> u32 cres" where
  "fetch_instruction vm =
     (let pc = vm_pc vm
      in if vm_bytecode_len vm < pc + 4 then Val 0
         else cbind (code_byte vm pc) (\<lambda>b0. cbind (code_byte vm (pc + 1)) (\<lambda>b1.
              cbind (code_byte vm (pc + 2)) (\<lambda>b2. cbind (code_byte vm (pc + 3)) (\<lambda>b3.
                Val (push_bit 24 (ucast b0) OR push_bit 16 (ucast b1) OR push_bit 8 (ucast b2)
                     OR ucast b3))))))"

definition decode_insn :: "u32 \<Rightarrow> flux_vm_insn" where
  "decode_insn w =
     \<lparr>in_opcode = flux_decode_opcode w, in_rd = flux_decode_rd w, in_rs1 = flux_decode_rs1 w,
      in_rs2 = flux_decode_rs2 w, in_imm = scast (flux_decode_imm16 w),
      in_target = flux_decode_target w\<rparr>"

definition at_breakpoint :: "flux_vm \<Rightarrow> bool" where
  "at_breakpoint vm =
     list_ex (\<lambda>k. vm_breakpoint_addrs vm k = ucast (vm_pc vm)) [0..<nat (vm_num_breakpoints vm)]"

text \<open>The counters, before the trace snapshot.\<close>

definition count_insn :: "flux_vm \<Rightarrow> u8 \<Rightarrow> flux_vm" where
  "count_insn vm op =
     vm\<lparr>vm_cycle_count := vm_cycle_count vm + 1, vm_insn_count := vm_insn_count vm + 1,
        vm_op_counts := (vm_op_counts vm)(op := vm_op_counts vm op + 1), vm_last_op_cycles := 1\<rparr>"

text \<open>What follows the switch: the cycle counter goes to its register.\<close>

definition finish_step :: "flow \<Rightarrow> flux_status \<times> flux_vm" where
  "finish_step f =
     (case f of
        Break vm \<Rightarrow> (FLUX_OK, set_special vm FLUX_REG_CYCLE_COUNT (vm_cycle_count vm))
      | Return st vm \<Rightarrow> (st, vm))"

definition execute_insn ::
    "fpu \<Rightarrow> calloc \<Rightarrow> flux_vm \<Rightarrow> u32 \<Rightarrow> (flux_status \<times> flux_vm) cres" where
  "execute_insn fp ca vm w =
     (let i = decode_insn w
      in cbind (flux_vm_get_reg vm (in_rs1 i)) (\<lambda>v_rs1.
         cbind (flux_vm_get_reg vm (in_rs2 i)) (\<lambda>v_rs2.
         cbind (trace_snapshot (count_insn vm (in_opcode i)) (in_opcode i)) (\<lambda>vm1.
         cmap finish_step
           (vm_dispatch fp ca i v_rs1 v_rs2 (vm1\<lparr>vm_pc := vm_pc vm1 + 4\<rparr>))))))"

definition flux_vm_step :: "fpu \<Rightarrow> calloc \<Rightarrow> flux_vm \<Rightarrow> (flux_status \<times> flux_vm) cres" where
  "flux_vm_step fp ca vm =
     (if vm_state vm = VM_HALTED \<or> vm_state vm = VM_ERROR then Val (FLUX_ERR_GENERAL, vm)
      else if at_breakpoint vm
      then Val (FLUX_ERR_GENERAL, vm\<lparr>vm_state := VM_TRAPPED, vm_error_code := 0\<rparr>)
      else if vm_bytecode_len vm < vm_pc vm + 4
      then Val (FLUX_ERR_GENERAL, vm\<lparr>vm_state := VM_ERROR, vm_error_code := 10\<rparr>)
      else
        let vm0 = vm\<lparr>vm_state := VM_RUNNING\<rparr>
        in cbind (fetch_instruction vm0) (execute_insn fp ca vm0))"

text \<open>
  \<open>flux_vm_run\<close>: \<open>env n\<close> is what \<open>calloc\<close> answers during step \<open>n\<close>; \<open>None\<close> means that \<open>fuel\<close>
  steps were not enough.
\<close>

fun run_loop ::
    "fpu \<Rightarrow> (nat \<Rightarrow> calloc) \<Rightarrow> u64 \<Rightarrow> nat \<Rightarrow> nat \<Rightarrow> flux_vm \<Rightarrow> (flux_status \<times> flux_vm) cres option" where
  "run_loop fp env max_cycles 0 n vm = None"
| "run_loop fp env max_cycles (Suc fuel) n vm =
     (if vm_state vm \<noteq> VM_RUNNING then Some (Val (FLUX_OK, vm))
      else if 0 < max_cycles \<and> max_cycles \<le> vm_cycle_count vm
      then Some (Val (FLUX_ERR_TIMEOUT, vm\<lparr>vm_state := VM_WAITING\<rparr>))
      else case flux_vm_step fp (env n) vm of
             UB u \<Rightarrow> Some (UB u)
           | Val (rc, vm1) \<Rightarrow>
               if rc \<noteq> FLUX_OK then Some (Val (rc, vm1))
               else run_loop fp env max_cycles fuel (Suc n) vm1)"

definition flux_vm_run ::
    "fpu \<Rightarrow> (nat \<Rightarrow> calloc) \<Rightarrow> nat \<Rightarrow> flux_vm \<Rightarrow> u64 \<Rightarrow> (flux_status \<times> flux_vm) cres option" where
  "flux_vm_run fp env fuel vm max_cycles =
     run_loop fp env max_cycles fuel 0 (vm\<lparr>vm_state := VM_RUNNING\<rparr>)"

end
