(* ===== verification/FluxInv.thy ===== *)
theory FluxInv
  imports FluxExec
begin

section \<open>The machine invariant of the interpreter\<close>

text \<open>
  \<open>vm_inv\<close> is what \<open>flux_vm_init\<close> and \<open>flux_vm_load\<close> establish and every instruction keeps:
  the region invariant, register 0 is zero, the stack is allocated and its pointer within it, the
  call depth within its array, the breakpoint count within its table, the bytecode length no more
  than the bytecode. Each handler has one preservation lemma; \<open>vm_step_inv\<close> joins them.
\<close>

definition vm_inv :: "flux_vm \<Rightarrow> bool" where
  "vm_inv vm \<longleftrightarrow>
     regions_ok vm \<and> vm_regs vm 0 = 0 \<and> vm_stack vm \<noteq> None \<and>
     vm_stack_size vm = FLUX_STACK_SIZE \<and> vm_stack_ptr vm \<le> FLUX_STACK_SIZE \<and>
     0 \<le> vm_call_depth vm \<and> vm_call_depth vm \<le> 256 \<and>
     0 \<le> vm_num_breakpoints vm \<and> vm_num_breakpoints vm \<le> 64 \<and>
     0 \<le> vm_trace_idx vm \<and> unat (vm_bytecode_len vm) \<le> length (vm_bytecode vm)"

fun flow_vm :: "flow \<Rightarrow> flux_vm" where
  "flow_vm (Break vm) = vm"
| "flow_vm (Return st vm) = vm"

abbreviation (input) keeps_inv :: "flow cres \<Rightarrow> bool" where
  "keeps_inv m \<equiv> call (\<lambda>f. vm_inv (flow_vm f)) m"

text \<open>Fields such as the program counter, the state or the counters do not matter.\<close>

lemma regions_ok_irrelevant [simp]:
  "regions_ok (vm\<lparr>vm_state := st\<rparr>) = regions_ok vm"
  "regions_ok (vm\<lparr>vm_error_code := e\<rparr>) = regions_ok vm"
  "regions_ok (vm\<lparr>vm_regs := rg\<rparr>) = regions_ok vm"
  "regions_ok (vm\<lparr>vm_stack := sk\<rparr>) = regions_ok vm"
  "regions_ok (vm\<lparr>vm_stack_ptr := sp\<rparr>) = regions_ok vm"
  "regions_ok (vm\<lparr>vm_call_stack := cs\<rparr>) = regions_ok vm"
  "regions_ok (vm\<lparr>vm_call_depth := cd\<rparr>) = regions_ok vm"
  "regions_ok (vm\<lparr>vm_pc := pc\<rparr>) = regions_ok vm"
  "regions_ok (vm\<lparr>vm_cycle_count := c\<rparr>) = regions_ok vm"
  "regions_ok (vm\<lparr>vm_insn_count := c\<rparr>) = regions_ok vm"
  "regions_ok (vm\<lparr>vm_op_counts := oc\<rparr>) = regions_ok vm"
  "regions_ok (vm\<lparr>vm_last_op_cycles := lc\<rparr>) = regions_ok vm"
  "regions_ok (vm\<lparr>vm_tracing := tr\<rparr>) = regions_ok vm"
  "regions_ok (vm\<lparr>vm_trace := tb\<rparr>) = regions_ok vm"
  "regions_ok (vm\<lparr>vm_trace_idx := ti\<rparr>) = regions_ok vm"
  "regions_ok (vm\<lparr>vm_bytecode := bc\<rparr>) = regions_ok vm"
  "regions_ok (vm\<lparr>vm_bytecode_len := bl\<rparr>) = regions_ok vm"
  by (rule regions_ok_cong; simp)+

lemma vm_inv_irrelevant [simp]:
  "vm_inv (vm\<lparr>vm_state := st\<rparr>) = vm_inv vm"
  "vm_inv (vm\<lparr>vm_error_code := e\<rparr>) = vm_inv vm"
  "vm_inv (vm\<lparr>vm_pc := pc\<rparr>) = vm_inv vm"
  "vm_inv (vm\<lparr>vm_cycle_count := c\<rparr>) = vm_inv vm"
  "vm_inv (vm\<lparr>vm_insn_count := c\<rparr>) = vm_inv vm"
  "vm_inv (vm\<lparr>vm_op_counts := oc\<rparr>) = vm_inv vm"
  "vm_inv (vm\<lparr>vm_last_op_cycles := lc\<rparr>) = vm_inv vm"
  "vm_inv (vm\<lparr>vm_tracing := tr\<rparr>) = vm_inv vm"
  "vm_inv (vm\<lparr>vm_trace := tb\<rparr>) = vm_inv vm"
  "vm_inv (vm\<lparr>vm_call_stack := cs\<rparr>) = vm_inv vm"
  by (simp_all add: vm_inv_def)

lemma vm_inv_trace_idx: "vm_inv vm \<Longrightarrow> 0 \<le> k \<Longrightarrow> vm_inv (vm\<lparr>vm_trace_idx := k\<rparr>)"
  by (simp add: vm_inv_def)

lemma vm_inv_call_depth: "vm_inv vm \<Longrightarrow> 0 \<le> k \<Longrightarrow> k \<le> 256 \<Longrightarrow> vm_inv (vm\<lparr>vm_call_depth := k\<rparr>)"
  by (simp add: vm_inv_def)

lemma vm_inv_stack_ptr:
  "vm_inv vm \<Longrightarrow> p \<le> FLUX_STACK_SIZE \<Longrightarrow> vm_inv (vm\<lparr>vm_stack_ptr := p\<rparr>)"
  by (simp add: vm_inv_def)

lemma vm_inv_stack: "vm_inv vm \<Longrightarrow> vm_inv (vm\<lparr>vm_stack := Some s\<rparr>)"
  by (simp add: vm_inv_def)

lemma vm_inv_special [inv_rules]: "vm_inv vm \<Longrightarrow> r \<noteq> 0 \<Longrightarrow> vm_inv (set_special vm r v)"
  by (simp add: vm_inv_def set_special_def)

lemma vm_inv_size: "vm_inv vm \<Longrightarrow> vm_stack_size vm = FLUX_STACK_SIZE"
  by (simp add: vm_inv_def)

text \<open>Region operations change the region table and the active region only.\<close>

lemma vm_inv_regions:
  "vm_inv vm \<Longrightarrow> regions_ok vm' \<Longrightarrow>
   \<exists>rs a. vm' = vm\<lparr>vm_regions := rs, vm_active_region := a\<rparr> \<Longrightarrow> vm_inv vm'"
  by (auto simp: vm_inv_def)

lemma vm_inv_trap [inv_rules]: "vm_inv vm \<Longrightarrow> vm_inv (snd (flux_vm_trap vm c))"
  by (simp add: vm_inv_def flux_vm_trap_def)

subsection \<open>Registers, stacks and regions keep the invariant\<close>

lemma set_reg_inv [inv_rules]:
  "vm_inv vm \<Longrightarrow> flux_vm_set_reg vm r v = Val vm' \<Longrightarrow> vm_inv vm'"
  using vm_inv_special [of vm "unat r" v]
  by (auto simp: flux_vm_set_reg_def set_special_def unat_eq_0 split: if_splits)

lemma stack_set_inv [inv_rules]:
  "vm_inv vm \<Longrightarrow> stack_set vm k v = Val vm' \<Longrightarrow> vm_inv vm'"
  by (auto simp: stack_set_def intro: vm_inv_stack split: option.splits if_splits)

lemma stack_set_frame:
  "stack_set vm k v = Val vm' \<Longrightarrow>
   vm_stack_ptr vm' = vm_stack_ptr vm \<and> vm_stack_size vm' = vm_stack_size vm \<and>
   vm_regs vm' = vm_regs vm \<and> vm_state vm' = vm_state vm \<and> vm_regions vm' = vm_regions vm \<and>
   vm_active_region vm' = vm_active_region vm"
  by (auto simp: stack_set_def split: option.splits if_splits)

lemma stack_push_inv [inv_rules]:
  assumes inv: "vm_inv vm" and push: "stack_push vm v = Val (rc, vm')"
  shows "vm_inv vm'"
proof (cases "vm_stack_size vm \<le> vm_stack_ptr vm")
  case True
  then show ?thesis using assms by (auto simp: stack_push_def)
next
  case False
  then obtain vm1 where s: "stack_set vm (vm_stack_ptr vm) v = Val vm1"
    and vm': "vm' = vm1\<lparr>vm_stack_ptr := vm_stack_ptr vm + 1\<rparr>"
    using push by (auto simp: stack_push_def cmap_Val_iff)
  have "vm_stack_ptr vm < FLUX_STACK_SIZE" using False inv by (simp add: vm_inv_def)
  then have "vm_stack_ptr vm + 1 \<le> FLUX_STACK_SIZE" by (rule inc_le)
  then show ?thesis unfolding vm'
    using vm_inv_stack_ptr stack_set_inv [OF inv s] by blast
qed

lemma stack_pop_inv [inv_rules]:
  assumes inv: "vm_inv vm" and pop: "stack_pop vm = Val (rc, v, vm')"
  shows "vm_inv vm'"
proof (cases "vm_stack_ptr vm = 0")
  case True
  then show ?thesis using assms by (auto simp: stack_pop_def)
next
  case False
  then have "vm_stack_ptr vm - 1 \<le> vm_stack_ptr vm"
    by (simp add: word_le_nat_alt unat_minus_one)
  also have "\<dots> \<le> FLUX_STACK_SIZE" using inv by (simp add: vm_inv_def)
  finally have "vm_inv (vm\<lparr>vm_stack_ptr := vm_stack_ptr vm - 1\<rparr>)"
    by (rule vm_inv_stack_ptr [OF inv])
  then show ?thesis using pop False by (auto simp: stack_pop_def cmap_Val_iff)
qed

lemma call_stack_push_inv [inv_rules]:
  "vm_inv vm \<Longrightarrow> call_stack_push vm a = Val (rc, vm') \<Longrightarrow> vm_inv vm'"
  by (auto simp: call_stack_push_def vm_inv_def split: if_splits)

lemma call_stack_pop_inv [inv_rules]:
  "vm_inv vm \<Longrightarrow> call_stack_pop vm = Val (rc, v, vm') \<Longrightarrow> vm_inv vm'"
  by (auto simp: call_stack_pop_def vm_inv_def split: if_splits)

lemma region_create_inv [inv_rules]:
  assumes "vm_inv vm" shows "vm_inv (snd (flux_vm_region_create ca vm nm sz ro))"
proof (rule vm_inv_regions [OF assms])
  show "regions_ok (snd (flux_vm_region_create ca vm nm sz ro))"
    using assms by (intro regions_ok_create) (simp add: vm_inv_def)
  show "\<exists>rs a. snd (flux_vm_region_create ca vm nm sz ro) =
               vm\<lparr>vm_regions := rs, vm_active_region := a\<rparr>"
    by (rule exI [of _ "vm_regions (snd (flux_vm_region_create ca vm nm sz ro))"],
        rule exI [of _ "vm_active_region (snd (flux_vm_region_create ca vm nm sz ro))"])
       (simp add: flux_vm_region_create_def Let_def set_region_def split: option.splits)
qed

lemma region_destroy_inv [inv_rules]:
  assumes "vm_inv vm" shows "vm_inv (snd (flux_vm_region_destroy vm rid))"
proof (rule vm_inv_regions [OF assms])
  show "regions_ok (snd (flux_vm_region_destroy vm rid))"
    using assms by (intro regions_ok_destroy) (simp add: vm_inv_def)
  show "\<exists>rs a. snd (flux_vm_region_destroy vm rid) =
               vm\<lparr>vm_regions := rs, vm_active_region := a\<rparr>"
    by (rule exI [of _ "vm_regions (snd (flux_vm_region_destroy vm rid))"],
        rule exI [of _ "vm_active_region (snd (flux_vm_region_destroy vm rid))"])
       (simp add: flux_vm_region_destroy_def Let_def set_region_def)
qed

lemma put_bytes_inv [inv_rules]:
  assumes "vm_inv vm" "length bs = length (region_bytes (get_region vm rid))"
  shows "vm_inv (put_bytes vm rid bs)"
proof (rule vm_inv_regions [OF assms(1)])
  have ok: "regions_ok vm" using assms(1) by (simp add: vm_inv_def)
  then have "region_ok (get_region vm rid)" by (simp add: get_region_def regions_okD)
  then show "regions_ok (put_bytes vm rid bs)"
    using ok assms(2)
    by (auto simp: regions_ok_def put_bytes_def region_ok_def Let_def region_bytes_def get_region_def
                   active_ok_def validate_region_id_iff split: option.splits)
  show "\<exists>rs a. put_bytes vm rid bs = vm\<lparr>vm_regions := rs, vm_active_region := a\<rparr>"
    by (rule exI [of _ "vm_regions (put_bytes vm rid bs)"],
        rule exI [of _ "vm_active_region (put_bytes vm rid bs)"])
       (simp add: put_bytes_def Let_def set_region_def)
qed

lemma trace_snapshot_inv [inv_rules]:
  "vm_inv vm \<Longrightarrow> trace_snapshot vm opc = Val vm' \<Longrightarrow> vm_inv vm'"
  by (auto simp: trace_snapshot_def Let_def vm_inv_def split: if_splits)

subsection \<open>The handlers keep the invariant\<close>

text \<open>Sequencing under \<open>keeps_inv\<close>: the continuation may assume the first part's value.\<close>

lemma call_cbindI: "(\<And>x. m = Val x \<Longrightarrow> call P (f x)) \<Longrightarrow> call P (cbind m f)"
  by (cases m) auto

lemma call_cmapI: "(\<And>x. m = Val x \<Longrightarrow> P (f x)) \<Longrightarrow> call P (cmap f m)"
  by (cases m) auto

lemma keeps_break [inv_rules]: "vm_inv vm \<Longrightarrow> keeps_inv (Val (Break vm))" by simp

lemma keeps_return [inv_rules]: "vm_inv vm \<Longrightarrow> keeps_inv (Val (Return st vm))" by simp

lemma keeps_fail [inv_rules]: "vm_inv vm \<Longrightarrow> keeps_inv (vm_fail vm c st)"
  by (simp add: vm_fail_def)

lemma keeps_trap [inv_rules]: "vm_inv vm \<Longrightarrow> keeps_inv (returned (flux_vm_trap vm c))"
  by (simp add: returned_def vm_inv_trap)

lemma keeps_set [inv_rules]: "vm_inv vm \<Longrightarrow> keeps_inv (break_set vm rd v)"
  unfolding break_set_def by (rule call_cmapI) (auto dest: set_reg_inv)

lemma keeps_special [inv_rules]: "vm_inv vm \<Longrightarrow> r \<noteq> 0 \<Longrightarrow> keeps_inv (break_special vm r v)"
  by (simp add: break_special_def vm_inv_special)

lemma keeps_pc [inv_rules]: "vm_inv vm \<Longrightarrow> keeps_inv (break_pc vm c t)"
  by (simp add: break_pc_def)

lemma keeps_cbind_set [inv_rules]: "vm_inv vm \<Longrightarrow> keeps_inv (cbind m (break_set vm rd))"
  by (auto intro: call_cbindI keeps_set)

text \<open>
  Rules that follow the shape of a handler. The conditions are forgotten: no handler needs its
  opcode test to keep the invariant.
\<close>

lemma keeps_if [inv_rules]: "call P x \<Longrightarrow> call P y \<Longrightarrow> call P (if c then x else y)"
  by simp

lemma keeps_option [inv_rules]:
  "call P x \<Longrightarrow> (\<And>v. call P (f v)) \<Longrightarrow> call P (case m of None \<Rightarrow> x | Some v \<Rightarrow> f v)"
  by (cases m) auto

lemma keeps_UB [inv_rules]: "call P (UB u)" by simp

lemma keeps_bind_any [inv_rules]: "(\<And>x. call P (f x)) \<Longrightarrow> call P (cbind m f)"
  by (cases m) auto

lemmas keeps_rules = keeps_if keeps_option keeps_UB keeps_bind_any keeps_cbind_set keeps_set
  keeps_fail keeps_trap keeps_special keeps_pc keeps_break keeps_return

lemma exec_system_inv: "vm_inv vm \<Longrightarrow> keeps_inv (exec_system i vm)"
  by (simp add: exec_system_def Let_def keeps_trap keeps_fail vm_inv_special)

lemma exec_arith_inv: "vm_inv vm \<Longrightarrow> keeps_inv (exec_arith fp i a b vm)"
  unfolding exec_arith_def Let_def
  by (intro keeps_if keeps_option keeps_UB keeps_bind_any keeps_cbind_set keeps_set keeps_fail)

lemma exec_logic_inv: "vm_inv vm \<Longrightarrow> keeps_inv (exec_logic i a b vm)"
  by (simp add: exec_logic_def Let_def keeps_set keeps_cbind_set)

lemma exec_compare_inv: "vm_inv vm \<Longrightarrow> keeps_inv (exec_compare i a b vm)"
  by (simp add: exec_compare_def Let_def keeps_special flux_vm_set_flags_def vm_inv_special)

lemma exec_branch_inv: "vm_inv vm \<Longrightarrow> keeps_inv (exec_branch i a vm)"
  by (simp add: exec_branch_def Let_def keeps_pc vm_inv_special)

subsubsection \<open>Memory\<close>

lemma memset_loop_length:
  "memset_loop d off k count sz b = Val d' \<Longrightarrow> length d' = length d"
proof (induction d off k count sz b arbitrary: d' rule: memset_loop.induct)
  case (1 d off k count sz b)
  show ?case
  proof (cases "k < count \<and> off + k < sz")
    case True
    with "1.prems" obtain d1 where w: "wr_byte d (of_nat (off + k)) b = Val d1"
      and r: "memset_loop d1 off (Suc k) count sz b = Val d'"
      by (subst (asm) memset_loop.simps) (auto simp: cbind_Val_iff)
    from "1.IH" [OF True r] wr_byte_length [OF w] show ?thesis by simp
  next
    case False
    with "1.prems" show ?thesis by (subst (asm) memset_loop.simps) auto
  qed
qed

lemma keeps_put [inv_rules]:
  assumes "vm_inv vm"
    and "\<And>d'. m = Val d' \<Longrightarrow> length d' = length (region_bytes (get_region vm rid))"
  shows "keeps_inv (cmap (\<lambda>d'. Break (put_bytes vm rid d')) m)"
  using assms by (intro call_cmapI) (auto intro: put_bytes_inv)

lemma exec_region_access_inv: "vm_inv vm \<Longrightarrow> keeps_inv (exec_region_access i ea vm)"
  unfolding exec_region_access_def Let_def
  by (intro keeps_if keeps_bind_any keeps_set keeps_put) (auto dest: mem_write_length)

lemma exec_stack_access_inv: "vm_inv vm \<Longrightarrow> keeps_inv (exec_stack_access i ea vm)"
  unfolding exec_stack_access_def Let_def
  by (intro keeps_if keeps_bind_any keeps_set keeps_break call_cmapI)
     (auto dest: stack_set_inv)

lemma put_write64_inv:
  "vm_inv vm \<Longrightarrow> mem_write64 (region_bytes (get_region vm rid)) ea sz v = Val d \<Longrightarrow>
   vm_inv (put_bytes vm rid d)"
  by (auto intro: put_bytes_inv dest: mem_write_length)

lemma set_reg_put_inv:
  "vm_inv vm \<Longrightarrow> mem_write64 (region_bytes (get_region vm rid)) ea sz v = Val d \<Longrightarrow>
   flux_vm_set_reg (put_bytes vm rid d) rd w = Val vm' \<Longrightarrow> vm_inv vm'"
  by (blast intro: set_reg_inv put_write64_inv)

lemma exec_cmpxchg_inv:
  assumes inv: "vm_inv vm" and x: "exec_cmpxchg i ea e vm = Val vm'"
  shows "vm_inv vm'"
  using x set_reg_inv [OF inv] set_reg_put_inv [OF inv]
  by (auto simp: exec_cmpxchg_def Let_def cbind_Val_iff split: if_splits)

lemma exec_atomic_inv:
  assumes inv: "vm_inv vm" shows "keeps_inv (exec_atomic i a b vm)"
  unfolding exec_atomic_def Let_def
proof (rule keeps_bind_any, rule keeps_if)
  fix live
  show "keeps_inv (cmap (\<lambda>vm'. Break (set_special vm' FLUX_REG_FLAGS 0))
          (if \<not> live then Val vm else exec_cmpxchg i (eff_addr i a) b vm))"
    by (rule call_cmapI) (auto intro: vm_inv_special inv dest: exec_cmpxchg_inv [OF inv]
                               split: if_splits)
next
  fix live
  let ?rid = "vm_active_region vm" and ?ea = "eff_addr i a"
  let ?d = "region_bytes (get_region vm ?rid)" and ?sz = "rg_size (get_region vm ?rid)"
  have "keeps_inv (cbind (mem_write64 ?d ?ea ?sz new)
          (\<lambda>d'. break_set (put_bytes vm ?rid d') (in_rd i) old))" for new old
    by (rule call_cbindI) (auto intro: keeps_set put_write64_inv [OF inv])
  note w = this
  show "keeps_inv (if \<not> live then Val (Break vm) else
      cbind (mem_read64 ?d ?ea ?sz) (\<lambda>old. cbind (flux_vm_get_reg vm (in_rd i)) (\<lambda>v.
      cbind (s64 (if in_opcode i = OP_ATOMIC_ADD then sint old + sint v else sint old - sint v))
      (\<lambda>new. cbind (mem_write64 ?d ?ea ?sz new)
          (\<lambda>d'. break_set (put_bytes vm ?rid d') (in_rd i) old)))))"
    by (rule keeps_if, rule keeps_break, rule inv, rule keeps_bind_any, rule keeps_bind_any, rule keeps_bind_any, rule w)
qed

lemma exec_region_rm_inv: "vm_inv vm \<Longrightarrow> keeps_inv (exec_region_rm i a b vm)"
  unfolding exec_region_rm_def Let_def
  by (intro keeps_if keeps_bind_any keeps_set keeps_put keeps_break) (auto dest: mem_write_length)

lemma exec_memset_inv: "vm_inv vm \<Longrightarrow> keeps_inv (exec_memset i a b vm)"
  unfolding exec_memset_def Let_def
  by (intro keeps_if keeps_bind_any keeps_put keeps_break) (auto dest: memset_loop_length)

lemma exec_memory_inv: "vm_inv vm \<Longrightarrow> keeps_inv (exec_memory i a b vm)"
  unfolding exec_memory_def Let_def
  by (intro keeps_if keeps_break exec_region_access_inv exec_stack_access_inv exec_atomic_inv
        exec_region_rm_inv exec_memset_inv)

subsubsection \<open>Stack and calls\<close>

lemma vm_inv_sync_sp [inv_rules]: "vm_inv vm \<Longrightarrow> vm_inv (sync_sp vm)"
  by (simp add: sync_sp_def vm_inv_special)

lemma keeps_push [inv_rules]:
  assumes "vm_inv vm" shows "keeps_inv (push_break vm v)"
  unfolding push_break_def
  by (rule call_cbindI) (auto intro!: vm_inv_sync_sp intro: stack_push_inv [OF assms])

lemma keeps_pop [inv_rules]:
  assumes "vm_inv vm" "\<And>vm1 v vm2. vm_inv vm1 \<Longrightarrow> f vm1 v = Val vm2 \<Longrightarrow> vm_inv vm2"
  shows "keeps_inv (pop_break vm f)"
  unfolding pop_break_def
proof (rule call_cbindI, clarsimp, intro conjI impI)
  fix rc v vm1 assume p: "stack_pop vm = Val (rc, v, vm1)"
  from stack_pop_inv [OF assms(1) p] have "vm_inv vm1" .
  then show "vm_inv vm1" and "keeps_inv (cmap (Break \<circ> sync_sp) (f vm1 v))"
    using assms(2) by (auto intro!: call_cmapI vm_inv_sync_sp)
qed

lemma keeps_pusha [inv_rules]: "vm_inv vm \<Longrightarrow> keeps_inv (pusha_loop rs vm)"
proof (induction rs arbitrary: vm)
  case Nil
  then show ?case by (simp add: vm_inv_sync_sp)
next
  case (Cons r rs)
  then show ?case by (auto intro!: call_cbindI dest: stack_push_inv [rotated])
qed

lemma keeps_popa [inv_rules]: "vm_inv vm \<Longrightarrow> 0 \<notin> set rs \<Longrightarrow> keeps_inv (popa_loop rs vm)"
proof (induction rs arbitrary: vm)
  case Nil
  then show ?case by (simp add: vm_inv_sync_sp)
next
  case (Cons r rs)
  have "keeps_inv (popa_loop rs (set_special vm1 r v))" if "vm_inv vm1" for vm1 v
    using that Cons by (intro Cons.IH vm_inv_special) auto
  with Cons.prems(1) show ?case by (auto intro!: call_cbindI dest: stack_pop_inv)
qed

lemma exec_swap_inv: "vm_inv vm \<Longrightarrow> keeps_inv (exec_swap vm)"
  unfolding exec_swap_def
  by (intro keeps_if keeps_fail call_cbindI call_cmapI) (auto dest: stack_set_inv)

text \<open>Moving the stack pointer past the end is caught and clamped.\<close>

lemma vm_inv_clamp:
  "vm_inv vm \<Longrightarrow> vm_inv (vm\<lparr>vm_stack_ptr := vm_stack_size vm\<rparr>)"
  by (simp add: vm_inv_def)

lemma open_frame_inv:
  assumes "vm_inv vm" shows "keeps_inv (open_frame vm n)"
proof -
  let ?vm1 = "set_special vm FLUX_REG_FP (vm_regs vm FLUX_REG_SP)"
  have i1: "vm_inv ?vm1" using assms by (rule vm_inv_special) simp
  have "vm_inv (?vm1\<lparr>vm_stack_ptr := p\<rparr>)" if "\<not> vm_stack_size ?vm1 < p" for p
    using that vm_inv_size [OF i1] by (intro vm_inv_stack_ptr i1) simp
  then show ?thesis
    using vm_inv_clamp [OF i1]
    by (simp add: open_frame_def Let_def keeps_fail vm_inv_sync_sp)
qed

lemma exec_enter_inv: "vm_inv vm \<Longrightarrow> keeps_inv (exec_enter i vm)"
  unfolding exec_enter_def Let_def
  by (rule call_cbindI, clarify, rule call_cbindI, clarify)
     (blast intro: open_frame_inv stack_push_inv)

text \<open>
  LEAVE may set the stack pointer beyond the stack (a frame pointer above the stack size); the
  first pop then reads outside it.
\<close>

lemma stack_pop_outside:
  assumes "vm_inv vm" "\<not> p \<le> FLUX_STACK_SIZE"
  shows "stack_pop (vm\<lparr>vm_stack_ptr := p\<rparr>) = UB OobStack"
proof -
  have p: "p \<noteq> 0" using assms(2) by auto
  moreover have "\<not> p - 1 < FLUX_STACK_SIZE"
    using assms(2) p by (simp add: word_less_nat_alt word_le_nat_alt unat_minus_one)
  moreover obtain s where "vm_stack vm = Some s" using assms(1) by (auto simp: vm_inv_def)
  ultimately show ?thesis
    using vm_inv_size [OF assms(1)] by (simp add: stack_pop_def stack_get_def)
qed

lemma exec_leave_inv:
  assumes inv: "vm_inv vm" shows "keeps_inv (exec_leave vm)"
proof -
  let ?p = "vm_stack_size vm - vm_regs vm FLUX_REG_FP"
  let ?vm0 = "vm\<lparr>vm_stack_ptr := ?p\<rparr>"
  have fin: "vm_inv (sync_sp (set_special (set_special vm2 FLUX_REG_FP a) FLUX_REG_BP b))"
    if "vm_inv vm2" for vm2 a b
    using that by (intro vm_inv_sync_sp vm_inv_special) auto
  show ?thesis
  proof (cases "?p \<le> FLUX_STACK_SIZE")
    case True
    then have "vm_inv ?vm0" by (rule vm_inv_stack_ptr [OF inv])
    then show ?thesis
      unfolding exec_leave_def Let_def
      by (intro call_cbindI) (auto intro!: fin call_cbindI dest!: stack_pop_inv [rotated])
  next
    case False
    then show ?thesis
      by (simp add: exec_leave_def Let_def stack_pop_outside [OF inv])
  qed
qed

lemma exec_stack_inv: "vm_inv vm \<Longrightarrow> keeps_inv (exec_stack i vm)"
proof -
  assume inv: "vm_inv vm"
  have al: "keeps_inv (if vm_stack_size vm1 < vm_stack_ptr vm1
               then returned (flux_vm_trap (vm1\<lparr>vm_stack_ptr := vm_stack_size vm1\<rparr>) 1)
               else Val (Break (sync_sp vm1)))"
    if "vm1 = vm\<lparr>vm_stack_ptr := p\<rparr>" for vm1 p
    using that inv vm_inv_size [OF inv]
    by (auto intro!: keeps_trap vm_inv_sync_sp vm_inv_stack_ptr simp: not_less)
  have fr: "vm_inv (sync_sp (vm\<lparr>vm_stack_ptr := if k \<le> vm_stack_ptr vm then vm_stack_ptr vm - k else 0\<rparr>))"
    for k
  proof (intro vm_inv_sync_sp vm_inv_stack_ptr inv)
    have "vm_stack_ptr vm \<le> FLUX_STACK_SIZE" using inv by (simp add: vm_inv_def)
    then show "(if k \<le> vm_stack_ptr vm then vm_stack_ptr vm - k else 0) \<le> FLUX_STACK_SIZE"
      by (auto simp: word_le_nat_alt unat_sub)
  qed
  have fl: "vm_inv (set_special vm FLUX_REG_FLAGS w)" for w
    using inv by (rule vm_inv_special) simp
  show ?thesis
    unfolding exec_stack_def Let_def
    using inv
    by (intro keeps_if keeps_bind_any keeps_push keeps_pop keeps_fail exec_swap_inv exec_enter_inv
          exec_leave_inv keeps_pusha keeps_popa al keeps_break fr)
       (auto dest: set_reg_inv intro: vm_inv_special fl)
qed

lemma keeps_call_to [inv_rules]:
  assumes "vm_inv vm" shows "keeps_inv (call_to vm t)"
proof -
  have "vm_inv vm1" if "call_stack_push vm (vm_pc vm) = Val (rc, vm1)" for rc vm1
    using assms that by (rule call_stack_push_inv)
  then show ?thesis
    unfolding call_to_def by (cases "call_stack_push vm (vm_pc vm)") (auto intro!: call_cmapI)
qed

lemma exec_ret_inv: "vm_inv vm \<Longrightarrow> keeps_inv (exec_ret vm)"
  unfolding exec_ret_def by (rule call_cbindI) (auto dest: call_stack_pop_inv)

lemma exec_reti_inv:
  assumes "vm_inv vm" shows "keeps_inv (exec_reti vm)"
proof -
  have fl: "vm_inv (set_special vm2 FLUX_REG_FLAGS w)" if "vm_inv vm2" for vm2 w
    using that by (rule vm_inv_special) simp
  show ?thesis
    unfolding exec_reti_def
    by (rule call_cbindI, clarsimp simp: call_stack_pop_inv [OF assms])
       (auto intro!: call_cbindI fl intro: stack_pop_inv [OF call_stack_pop_inv [OF assms]])
qed

lemma exec_call_inv: "vm_inv vm \<Longrightarrow> keeps_inv (exec_call i a vm)"
  unfolding exec_call_def Let_def
  by (intro keeps_if keeps_call_to exec_ret_inv exec_reti_inv keeps_trap keeps_fail keeps_special
        keeps_break) (auto intro: vm_inv_special)

subsubsection \<open>Agents, I/O, FLUX and native operations, and the whole step\<close>

lemma exec_agent_inv: "vm_inv vm \<Longrightarrow> keeps_inv (exec_agent i a vm)"
  unfolding exec_agent_def Let_def
  by (intro keeps_if keeps_bind_any keeps_special keeps_trap keeps_return call_cmapI)
     (auto intro!: vm_inv_special dest: set_reg_inv)

lemma exec_io_inv: "vm_inv vm \<Longrightarrow> keeps_inv (exec_io i vm)"
  unfolding exec_io_def by (intro keeps_special) auto

lemma exec_flux_inv: "vm_inv vm \<Longrightarrow> keeps_inv (exec_flux ca i a b vm)"
proof -
  assume inv: "vm_inv vm"
  have cr: "keeps_inv (let (rid, vm1) = flux_vm_region_create ca vm nm sz ro
                       in break_set vm1 rd (f rid))" for nm sz ro rd and f :: "int \<Rightarrow> u64"
    using region_create_inv [OF inv, of ca nm sz ro]
    by (simp add: split_def Let_def keeps_set)
  have tr: "vm_inv (vm\<lparr>vm_tracing := t, vm_trace_idx := 0\<rparr>)" for t
    using vm_inv_trace_idx [OF inv, of 0] by (simp add: vm_inv_def)
  show ?thesis
    unfolding exec_flux_def Let_def
    using inv
    by (intro keeps_if keeps_bind_any keeps_special keeps_trap keeps_set cr [unfolded Let_def]
          keeps_break region_destroy_inv tr) auto
qed

lemma exec_native_inv: "vm_inv vm \<Longrightarrow> keeps_inv (exec_native i a b vm)"
  unfolding exec_native_def Let_def by (intro keeps_if keeps_set keeps_trap keeps_break)

lemmas handler_inv = exec_system_inv exec_arith_inv exec_logic_inv exec_compare_inv
  exec_branch_inv exec_memory_inv exec_stack_inv exec_call_inv exec_agent_inv exec_io_inv
  exec_flux_inv exec_native_inv

lemma vm_dispatch_inv: "vm_inv vm \<Longrightarrow> keeps_inv (vm_dispatch fp ca i a b vm)"
  unfolding vm_dispatch_def Let_def by (intro keeps_if handler_inv keeps_fail)

lemma finish_step_inv: "vm_inv (flow_vm f) \<Longrightarrow> vm_inv (snd (finish_step f))"
  by (cases f) (auto simp: finish_step_def intro: vm_inv_special)

lemma execute_insn_inv:
  assumes "vm_inv vm" shows "call (\<lambda>r. vm_inv (snd r)) (execute_insn fp ca vm w)"
proof -
  have cnt: "vm_inv (count_insn vm op)" for op
    using assms by (simp add: count_insn_def)
  have disp: "call (\<lambda>r. vm_inv (snd r)) (cmap finish_step
                (vm_dispatch fp ca i a b (vm1\<lparr>vm_pc := p\<rparr>)))"
    if "vm_inv vm1" for i a b vm1 p
    using that vm_dispatch_inv [of "vm1\<lparr>vm_pc := p\<rparr>" fp ca i a b]
    by (auto simp: call_iff cmap_Val_iff intro: finish_step_inv simp del: split_paired_All)
  show ?thesis
    unfolding execute_insn_def Let_def
    by (intro call_cbindI disp) (blast intro: trace_snapshot_inv cnt)
qed

theorem vm_step_inv:
  assumes "vm_inv vm" "flux_vm_step fp ca vm = Val (st, vm')" shows "vm_inv vm'"
proof -
  have ex: "vm_inv vm'" if "execute_insn fp ca (vm\<lparr>vm_state := VM_RUNNING\<rparr>) w = Val (st, vm')" for w
    using execute_insn_inv [of "vm\<lparr>vm_state := VM_RUNNING\<rparr>" fp ca w] assms(1) that by simp
  show ?thesis
    using assms ex by (auto simp: flux_vm_step_def Let_def cbind_Val_iff split: if_splits)
qed

theorem run_loop_inv:
  "vm_inv vm \<Longrightarrow> run_loop fp env mc fuel n vm = Some (Val (st, vm')) \<Longrightarrow> vm_inv vm'"
  by (induction fuel arbitrary: n vm) (auto split: if_splits cres.splits prod.splits dest: vm_step_inv)

end
