(* ===== verification/FluxStack.thy ===== *)
theory FluxStack
  imports FluxInv
begin

section \<open>The value stack and the call stack as bounded LIFO stacks\<close>

text \<open>
  vm/vm.c has two stacks with the same contract: \<open>stack_push\<close>/\<open>stack_pop\<close> on the allocated value
  stack and \<open>call_stack_push\<close>/\<open>call_stack_pop\<close> on the array of return addresses. The contract is
  the locale \<open>bounded_stack\<close>; both are interpreted on the model's operations, and the
  properties below are the locale's lemmas read over them. \<open>data_stack\<close> and \<open>frames\<close> are the
  abstractions, top of the stack first.
\<close>

definition data_stack :: "flux_vm \<Rightarrow> u64 list" where
  "data_stack vm =
     (case vm_stack vm of
        None \<Rightarrow> []
      | Some s \<Rightarrow> rev (map s [0..<unat (vm_stack_ptr vm)]))"

definition frames :: "flux_vm \<Rightarrow> u64 list" where
  "frames vm = rev (map (vm_call_stack vm) [0..<nat (vm_call_depth vm)])"

text \<open>Pushing a list, first element first, and popping \<open>n\<close> values, stopping at the first failure.\<close>

fun push_all :: "('s \<Rightarrow> u64 \<Rightarrow> (flux_status \<times> 's) cres) \<Rightarrow> 's \<Rightarrow> u64 list \<Rightarrow> (flux_status \<times> 's) cres" where
  "push_all push s [] = Val (FLUX_OK, s)"
| "push_all push s (v # vs) =
     cbind (push s v) (\<lambda>(rc, s1). if rc = FLUX_OK then push_all push s1 vs else Val (rc, s1))"

fun pop_all ::
    "('s \<Rightarrow> (flux_status \<times> u64 \<times> 's) cres) \<Rightarrow> 's \<Rightarrow> nat \<Rightarrow> (flux_status \<times> u64 list \<times> 's) cres" where
  "pop_all pop s 0 = Val (FLUX_OK, [], s)"
| "pop_all pop s (Suc n) =
     cbind (pop s) (\<lambda>(rc, v, s1).
       if rc = FLUX_OK then cmap (\<lambda>(rc, vs, s2). (rc, v # vs, s2)) (pop_all pop s1 n)
       else Val (rc, [], s1))"

subsection \<open>The contract\<close>

locale bounded_stack =
  fixes push :: "'s \<Rightarrow> u64 \<Rightarrow> (flux_status \<times> 's) cres"
    and pop :: "'s \<Rightarrow> (flux_status \<times> u64 \<times> 's) cres"
    and ok :: "'s \<Rightarrow> bool"
    and contents :: "'s \<Rightarrow> u64 list"
    and cap :: nat
  assumes bound: "ok s \<Longrightarrow> length (contents s) \<le> cap"
    and push_room: "ok s \<Longrightarrow> length (contents s) < cap \<Longrightarrow>
      \<exists>s'. push s v = Val (FLUX_OK, s') \<and> ok s' \<and> contents s' = v # contents s"
    and push_full: "ok s \<Longrightarrow> length (contents s) = cap \<Longrightarrow>
      \<exists>s'. push s v = Val (FLUX_ERR_OVERFLOW, s') \<and> ok s' \<and> contents s' = contents s"
    and pop_cons: "ok s \<Longrightarrow> contents s = v # vs \<Longrightarrow>
      \<exists>s'. pop s = Val (FLUX_OK, v, s') \<and> ok s' \<and> contents s' = vs"
    and pop_nil: "ok s \<Longrightarrow> contents s = [] \<Longrightarrow>
      \<exists>s'. pop s = Val (FLUX_ERR_GENERAL, 0, s') \<and> ok s' \<and> contents s' = []"
begin

text \<open>A push either makes the value the top or reports the overflow; it is never undefined.\<close>

lemma push_cases:
  assumes "ok s"
  shows "\<exists>s'. push s v = Val (if length (contents s) < cap then FLUX_OK else FLUX_ERR_OVERFLOW, s')
           \<and> ok s' \<and> contents s' = (if length (contents s) < cap then v # contents s else contents s)"
  using push_room [OF assms] push_full [OF assms] bound [OF assms]
  by (cases "length (contents s) < cap") (auto simp: not_less)

lemma pop_cases:
  assumes "ok s"
  shows "\<exists>s'. pop s = Val (if contents s = [] then FLUX_ERR_GENERAL else FLUX_OK,
                         if contents s = [] then 0 else hd (contents s), s')
           \<and> ok s' \<and> contents s' = tl (contents s)"
proof (cases "contents s")
  case Nil
  then show ?thesis using pop_nil [OF assms] by auto
next
  case (Cons v vs)
  then show ?thesis using pop_cons [OF assms Cons] by auto
qed

lemma push_all_room:
  "ok s \<Longrightarrow> length (contents s) + length vs \<le> cap \<Longrightarrow>
   \<exists>s'. push_all push s vs = Val (FLUX_OK, s') \<and> ok s' \<and> contents s' = rev vs @ contents s"
proof (induction vs arbitrary: s)
  case Nil
  then show ?case by simp
next
  case (Cons v vs)
  then obtain s1 where "push s v = Val (FLUX_OK, s1)" "ok s1" "contents s1 = v # contents s"
    using push_room [of s v] by auto
  then show ?case using Cons.IH [of s1] Cons.prems by auto
qed

lemma pop_all_append:
  "ok s \<Longrightarrow> contents s = vs @ rest \<Longrightarrow>
   \<exists>s'. pop_all pop s (length vs) = Val (FLUX_OK, vs, s') \<and> ok s' \<and> contents s' = rest"
proof (induction vs arbitrary: s)
  case Nil
  then show ?case by simp
next
  case (Cons v vs)
  then obtain s1 where "pop s = Val (FLUX_OK, v, s1)" "ok s1" "contents s1 = vs @ rest"
    using pop_cons [of s v "vs @ rest"] by auto
  then show ?case using Cons.IH [of s1] by auto
qed

text \<open>Last in, first out: what was pushed comes back in reverse and uncovers what was there.\<close>

lemma push_all_pop_all:
  assumes "ok s" "length (contents s) + length vs \<le> cap"
  shows "\<exists>s1 s2. push_all push s vs = Val (FLUX_OK, s1) \<and>
           pop_all pop s1 (length vs) = Val (FLUX_OK, rev vs, s2) \<and> ok s2 \<and>
           contents s2 = contents s"
proof -
  obtain s1 where s1: "push_all push s vs = Val (FLUX_OK, s1)" "ok s1"
      "contents s1 = rev vs @ contents s"
    using push_all_room [OF assms] by blast
  then show ?thesis using pop_all_append [OF s1(2,3)] by auto
qed

end

subsection \<open>The value stack\<close>

lemma data_stack_length: "vm_inv vm \<Longrightarrow> length (data_stack vm) = unat (vm_stack_ptr vm)"
  by (auto simp: data_stack_def vm_inv_def)

lemma vm_inv_status [simp]:
  "vm_inv (vm\<lparr>vm_error_code := e, vm_state := st\<rparr>) = vm_inv vm"
  by simp

lemma data_stack_irrelevant [simp]:
  "data_stack (vm\<lparr>vm_state := st\<rparr>) = data_stack vm"
  "data_stack (vm\<lparr>vm_error_code := e\<rparr>) = data_stack vm"
  "data_stack (vm\<lparr>vm_regs := rg\<rparr>) = data_stack vm"
  "data_stack (vm\<lparr>vm_pc := pc\<rparr>) = data_stack vm"
  by (simp_all add: data_stack_def split: option.splits)

lemma stack_push_eq:
  assumes "vm_inv vm" "vm_stack vm = Some s" "vm_stack_ptr vm < FLUX_STACK_SIZE"
  shows "stack_push vm v =
     Val (FLUX_OK, vm\<lparr>vm_stack := Some (s(unat (vm_stack_ptr vm) := v)),
                      vm_stack_ptr := vm_stack_ptr vm + 1\<rparr>)"
  using assms by (auto simp: stack_push_def stack_set_def vm_inv_def not_le)

lemma inc_unat: "p < FLUX_STACK_SIZE \<Longrightarrow> unat (p + 1) = Suc (unat p)"
  by (auto simp: word_less_nat_alt unat_word_ariths)

lemma stack_pop_eq:
  assumes "vm_inv vm" "vm_stack vm = Some s" "vm_stack_ptr vm \<noteq> 0"
  shows "stack_pop vm =
     Val (FLUX_OK, s (unat (vm_stack_ptr vm) - 1), vm\<lparr>vm_stack_ptr := vm_stack_ptr vm - 1\<rparr>)"
proof -
  have "unat (vm_stack_ptr vm - 1) = unat (vm_stack_ptr vm) - 1"
    using assms(3) by (simp add: unat_minus_one)
  moreover have "vm_stack_ptr vm - 1 < vm_stack_size vm"
    using assms calculation by (auto simp: vm_inv_def word_less_nat_alt word_le_nat_alt unat_eq_0)
  ultimately show ?thesis using assms by (simp add: stack_pop_def stack_get_def)
qed

interpretation value_stack: bounded_stack stack_push stack_pop vm_inv data_stack "unat FLUX_STACK_SIZE"
proof
  fix s :: flux_vm and v :: u64 and vs :: "u64 list"
  assume inv: "vm_inv s"
  then obtain st where st: "vm_stack s = Some st" by (auto simp: vm_inv_def)
  let ?p = "vm_stack_ptr s"
  have len: "length (data_stack s) = unat ?p" using inv by (rule data_stack_length)
  show "length (data_stack s) \<le> unat FLUX_STACK_SIZE"
    using inv len by (simp add: vm_inv_def word_le_nat_alt)
  show "\<exists>s'. stack_push s v = Val (FLUX_OK, s') \<and> vm_inv s' \<and> data_stack s' = v # data_stack s"
    if "length (data_stack s) < unat FLUX_STACK_SIZE"
  proof -
    have p: "?p < FLUX_STACK_SIZE" using that len by (simp add: word_less_nat_alt)
    note push = stack_push_eq [OF inv st p, of v]
    show ?thesis
      using push stack_push_inv [OF inv push] st inc_unat [OF p]
      by (auto simp: data_stack_def)
  qed
  show "\<exists>s'. stack_push s v = Val (FLUX_ERR_OVERFLOW, s') \<and> vm_inv s' \<and> data_stack s' = data_stack s"
    if "length (data_stack s) = unat FLUX_STACK_SIZE"
    using that len inv by (auto simp: stack_push_def vm_inv_size word_le_nat_alt)
  show "\<exists>s'. stack_pop s = Val (FLUX_OK, v, s') \<and> vm_inv s' \<and> data_stack s' = vs"
    if "data_stack s = v # vs"
  proof -
    have p: "?p \<noteq> 0" using that len by (auto simp: unat_eq_0)
    then obtain n where n: "unat ?p = Suc n" by (cases "unat ?p") (auto simp: unat_eq_0)
    then have "v = st n" "vs = rev (map st [0..<n])"
      using that st by (auto simp: data_stack_def)
    moreover note pop = stack_pop_eq [OF inv st p]
    ultimately show ?thesis
      using n p stack_pop_inv [OF inv pop] st by (auto simp: data_stack_def unat_minus_one)
  qed
  show "\<exists>s'. stack_pop s = Val (FLUX_ERR_GENERAL, 0, s') \<and> vm_inv s' \<and> data_stack s' = []"
    if "data_stack s = []"
    using that len inv by (auto simp: stack_pop_def unat_eq_0)
qed

subsection \<open>The call stack\<close>

interpretation call_stack: bounded_stack call_stack_push call_stack_pop vm_inv frames 256
proof
  fix s :: flux_vm and v :: u64 and vs :: "u64 list"
  assume inv: "vm_inv s"
  then have d: "0 \<le> vm_call_depth s" "vm_call_depth s \<le> 256" by (auto simp: vm_inv_def)
  have len: "length (frames s) = nat (vm_call_depth s)" by (simp add: frames_def)
  show "length (frames s) \<le> 256" using d len by simp
  show "\<exists>s'. call_stack_push s v = Val (FLUX_OK, s') \<and> vm_inv s' \<and> frames s' = v # frames s"
    if "length (frames s) < 256"
  proof -
    have "vm_call_depth s < 256" using that len d by simp
    then have push: "call_stack_push s v = Val (FLUX_OK,
        s\<lparr>vm_call_stack := (vm_call_stack s)(nat (vm_call_depth s) := v),
          vm_call_depth := vm_call_depth s + 1\<rparr>)"
      using d by (simp add: call_stack_push_def)
    then show ?thesis
      using call_stack_push_inv [OF inv push] d by (auto simp: frames_def nat_add_distrib)
  qed
  show "\<exists>s'. call_stack_push s v = Val (FLUX_ERR_OVERFLOW, s') \<and> vm_inv s' \<and> frames s' = frames s"
    if "length (frames s) = 256"
  proof -
    have "vm_call_depth s = 256" using that len d by simp
    then show ?thesis using inv by (auto simp: call_stack_push_def frames_def)
  qed
  show "\<exists>s'. call_stack_pop s = Val (FLUX_OK, v, s') \<and> vm_inv s' \<and> frames s' = vs"
    if "frames s = v # vs"
  proof -
    have "vm_call_depth s \<noteq> 0" using that len by auto
    then obtain n where n: "vm_call_depth s = 1 + int n" "nat (vm_call_depth s) = Suc n"
      using d(1) by (intro that [of "nat (vm_call_depth s - 1)"]) auto
    then have "v = vm_call_stack s n" "vs = rev (map (vm_call_stack s) [0..<n])"
      using that by (auto simp: frames_def)
    moreover have pop: "call_stack_pop s =
        Val (FLUX_OK, vm_call_stack s n, s\<lparr>vm_call_depth := int n\<rparr>)"
      using n d by (simp add: call_stack_pop_def)
    ultimately show ?thesis
      using call_stack_pop_inv [OF inv pop] by (auto simp: frames_def)
  qed
  show "\<exists>s'. call_stack_pop s = Val (FLUX_ERR_GENERAL, 0, s') \<and> vm_inv s' \<and> frames s' = []"
    if "frames s = []"
    using that d inv by (auto simp: call_stack_pop_def frames_def)
qed

end
