(* ===== verification/FluxReach.thy ===== *)
theory FluxReach
  imports FluxStack
begin

section \<open>Reachable instances (the public interface of include/flux/vm.h)\<close>

text \<open>
  \<open>vm_call\<close> is one call of a public operation on a live instance: loading, stepping, running,
  halting, trapping, resetting and every operation of vm/region.c. \<open>vm_reachable\<close> is what
  successful initialisation followed by any sequence of such calls can produce; \<open>destroy\<close> ends an
  instance's life. The caller's part of the contract is that \<open>bytecode\<close> points to at least \<open>len\<close>
  bytes.
\<close>

inductive vm_call :: "fpu \<Rightarrow> flux_vm \<Rightarrow> flux_vm \<Rightarrow> bool" for fp where
  call_load: "flux_vm_load vm (Some bs) len = (st, vm') \<Longrightarrow> unat len \<le> length bs \<Longrightarrow> vm_call fp vm vm'"
| call_load_file: "flux_vm_load_from_file vm file mem = (st, vm') \<Longrightarrow>
    (\<And>bs. file = Some bs \<Longrightarrow> length bs < 2 ^ 64) \<Longrightarrow> vm_call fp vm vm'"
| call_reset: "flux_vm_reset vm = Val (st, vm') \<Longrightarrow> vm_call fp vm vm'"
| call_step: "flux_vm_step fp ca vm = Val (st, vm') \<Longrightarrow> vm_call fp vm vm'"
| call_run: "flux_vm_run fp env fuel vm mc = Some (Val (st, vm')) \<Longrightarrow> vm_call fp vm vm'"
| call_halt: "flux_vm_halt vm = (st, vm') \<Longrightarrow> vm_call fp vm vm'"
| call_trap: "flux_vm_trap vm c = (st, vm') \<Longrightarrow> vm_call fp vm vm'"
| call_create: "flux_vm_region_create ca vm nm sz ro = (rid, vm') \<Longrightarrow> vm_call fp vm vm'"
| call_destroy: "flux_vm_region_destroy vm rid = (st, vm') \<Longrightarrow> vm_call fp vm vm'"
| call_destroy_all: "flux_vm_region_destroy_all vm = (st, vm') \<Longrightarrow> vm_call fp vm vm'"
| call_set_active: "flux_vm_region_set_active vm rid = (st, vm') \<Longrightarrow> vm_call fp vm vm'"
| call_write: "flux_vm_region_write vm rid off buf k = Val (n, vm') \<Longrightarrow> vm_call fp vm vm'"
| call_resize: "flux_vm_region_resize ca vm rid sz = (st, vm') \<Longrightarrow> vm_call fp vm vm'"
| call_set_owner: "flux_vm_region_set_owner vm rid ow = (st, vm') \<Longrightarrow> vm_call fp vm vm'"
| call_set_readonly: "flux_vm_region_set_readonly vm rid ro = (st, vm') \<Longrightarrow> vm_call fp vm vm'"
| call_copy: "flux_vm_region_copy vm src so dst do k = Val (st, vm') \<Longrightarrow> vm_call fp vm vm'"
| call_fill: "flux_vm_region_fill vm rid off k b = Val (st, vm') \<Longrightarrow> vm_call fp vm vm'"

inductive vm_reachable :: "fpu \<Rightarrow> flux_vm \<Rightarrow> bool" for fp where
  reach_init: "flux_vm_init True = (FLUX_OK, vm) \<Longrightarrow> vm_reachable fp vm"
| reach_call: "vm_reachable fp vm \<Longrightarrow> vm_call fp vm vm' \<Longrightarrow> vm_reachable fp vm'"

inductive_cases vm_callE: "vm_call fp vm vm'"

subsection \<open>Every public operation keeps the invariant\<close>

lemma vm_inv_frame:
  assumes "vm_inv vm" "regions_ok vm'"
    and "\<exists>rs a rg. vm' = vm\<lparr>vm_regions := rs, vm_active_region := a, vm_regs := rg\<rparr> \<and> rg 0 = 0"
  shows "vm_inv vm'"
  using assms by (auto simp: vm_inv_def)

lemma regions_ok_fresh [simp]: "(\<And>i. vm_regions vm i = zero_region) \<Longrightarrow> vm_active_region vm = -1 \<Longrightarrow> regions_ok vm"
  by (simp add: regions_ok_def region_ok_def zero_region_def active_ok_def)

lemma flux_vm_init_inv: "flux_vm_init True = (FLUX_OK, vm) \<Longrightarrow> vm_inv vm"
  by (auto simp: flux_vm_init_def Let_def vm_inv_def zero_vm_def)

lemma flux_vm_reset_inv: "vm_inv vm \<Longrightarrow> flux_vm_reset vm = Val (st, vm') \<Longrightarrow> vm_inv vm'"
  by (auto simp: flux_vm_reset_def vm_inv_def zero_vm_def split: option.splits)

lemma flux_vm_load_inv:
  "vm_inv vm \<Longrightarrow> flux_vm_load vm (Some bs) len = (st, vm') \<Longrightarrow> unat len \<le> length bs \<Longrightarrow> vm_inv vm'"
  by (auto simp: flux_vm_load_def vm_inv_def split: if_splits)

lemma flux_vm_load_from_file_inv:
  assumes "vm_inv vm" "flux_vm_load_from_file vm file mem = (st, vm')"
    and "\<And>bs. file = Some bs \<Longrightarrow> length bs < 2 ^ 64"
  shows "vm_inv vm'"
proof (cases "file")
  case None
  then show ?thesis using assms by (simp add: flux_vm_load_from_file_def)
next
  case (Some bs)
  have "vm_inv (snd (flux_vm_load vm (Some bs) (of_nat (length bs))))"
    using flux_vm_load_inv [OF assms(1)] assms(3) [OF Some]
    by (cases "flux_vm_load vm (Some bs) (of_nat (length bs))") (auto simp: unat_of_nat)
  then show ?thesis
    using assms(1,2) Some by (auto simp: flux_vm_load_from_file_def split: if_splits)
qed

lemma flux_vm_run_inv:
  "vm_inv vm \<Longrightarrow> flux_vm_run fp env fuel vm mc = Some (Val (st, vm')) \<Longrightarrow> vm_inv vm'"
  by (auto simp: flux_vm_run_def dest: run_loop_inv [rotated])

lemma region_only [simp]: "vm_inv vm \<Longrightarrow> vm_inv (set_region vm rid r) = regions_ok (set_region vm rid r)"
  by (auto simp: vm_inv_def set_region_def)

lemma region_misc_inv:
  assumes "vm_inv vm"
  shows "vm_inv (snd (flux_vm_region_destroy_all vm))"
    and "vm_inv (snd (flux_vm_region_set_active vm rid))"
    and "vm_inv (snd (flux_vm_region_resize ca vm rid sz))"
    and "vm_inv (snd (flux_vm_region_set_owner vm rid ow))"
    and "vm_inv (snd (flux_vm_region_set_readonly vm rid ro))"
proof -
  have ok: "regions_ok vm" using assms by (simp add: vm_inv_def)
  show "vm_inv (snd (flux_vm_region_destroy_all vm))"
    using regions_ok_destroy_all [OF ok] assms by (simp add: vm_inv_def flux_vm_region_destroy_all_def)
  show "vm_inv (snd (flux_vm_region_set_active vm rid))"
    using regions_ok_set_active [OF ok, of rid] assms
    by (auto simp: vm_inv_def flux_vm_region_set_active_def Let_def set_special_def)
  show "vm_inv (snd (flux_vm_region_resize ca vm rid sz))"
    using regions_ok_resize [OF ok, of ca rid sz] assms
    by (auto simp: vm_inv_def flux_vm_region_resize_def Let_def set_special_def set_region_def
             split: option.splits)
  show "vm_inv (snd (flux_vm_region_set_owner vm rid ow))"
    using regions_ok_set_owner [OF ok, of rid ow] assms
    by (auto simp: flux_vm_region_set_owner_def)
  show "vm_inv (snd (flux_vm_region_set_readonly vm rid ro))"
    using regions_ok_set_readonly [OF ok, of rid ro] assms
    by (auto simp: flux_vm_region_set_readonly_def)
qed

lemma region_bulk_inv:
  assumes "vm_inv vm"
  shows "flux_vm_region_write vm rid off buf k = Val (n, vm') \<Longrightarrow> vm_inv vm'"
    and "flux_vm_region_copy vm s so t to k = Val (st, vm') \<Longrightarrow> vm_inv vm'"
    and "flux_vm_region_fill vm rid off k b = Val (st, vm') \<Longrightarrow> vm_inv vm'"
proof -
  have ok: "regions_ok vm" using assms by (simp add: vm_inv_def)
  show "flux_vm_region_write vm rid off buf k = Val (n, vm') \<Longrightarrow> vm_inv vm'"
    using regions_ok_write [OF ok, of rid off buf k n vm'] assms
    by (auto simp: flux_vm_region_write_def Let_def cmap_Val_iff split: option.splits if_splits)
  show "flux_vm_region_copy vm s so t to k = Val (st, vm') \<Longrightarrow> vm_inv vm'"
    using regions_ok_copy [OF ok, of s so t to k st vm'] assms
    by (auto simp: flux_vm_region_copy_def Let_def cmap_Val_iff cbind_Val_iff
             split: option.splits if_splits)
  show "flux_vm_region_fill vm rid off k b = Val (st, vm') \<Longrightarrow> vm_inv vm'"
    using regions_ok_fill [OF ok, of rid off k b st vm'] assms
    by (auto simp: flux_vm_region_fill_def Let_def cmap_Val_iff split: option.splits if_splits)
qed

lemmas public_inv = flux_vm_load_inv flux_vm_load_from_file_inv flux_vm_reset_inv vm_step_inv
  flux_vm_run_inv region_bulk_inv

lemma vm_inv_sndD: "f = (x, vm') \<Longrightarrow> vm_inv (snd f) \<Longrightarrow> vm_inv vm'"
  by simp

lemma vm_call_inv:
  assumes "vm_call fp vm vm'" "vm_inv vm" shows "vm_inv vm'"
  using assms
proof induction
  case (call_halt vm st vm')
  then show ?case by (auto simp: flux_vm_halt_def)
qed (blast intro: public_inv vm_inv_sndD vm_inv_trap region_create_inv region_destroy_inv
       region_misc_inv)+

end
