(* ===== verification/FluxVMProps.thy ===== *)
theory FluxVMProps
  imports FluxReach
begin

section \<open>Properties of the interpreter\<close>

text \<open>
  What an instruction does to a machine that is about to execute it, read off the handlers:
  integer arithmetic, comparison and branching, calls and returns, traps and faults, register
  numbers outside the register file; then the run loop: it ends when the cycle limit is set and
  the program never resets the counter, and need not end when it does.

  \<open>fetches vm w\<close> says that the next step executes the word \<open>w\<close>; \<open>entered vm w\<close> is the instance
  its handler sees, \<open>booted bs\<close> an initialised instance with the program \<open>bs\<close> loaded.
\<close>

definition fetches :: "flux_vm \<Rightarrow> u32 \<Rightarrow> bool" where
  "fetches vm w \<longleftrightarrow>
     vm_state vm \<notin> {VM_HALTED, VM_ERROR} \<and> \<not> at_breakpoint vm \<and>
     \<not> vm_bytecode_len vm < vm_pc vm + 4 \<and> \<not> vm_tracing vm \<and> fetch_instruction vm = Val w"

definition entered :: "flux_vm \<Rightarrow> u32 \<Rightarrow> flux_vm" where
  "entered vm w =
     (count_insn (vm\<lparr>vm_state := VM_RUNNING\<rparr>) (flux_decode_opcode w))\<lparr>vm_pc := vm_pc vm + 4\<rparr>"

definition booted :: "u8 list \<Rightarrow> flux_vm" where
  "booted bs = snd (flux_vm_load (snd (flux_vm_init True)) (Some bs) (of_nat (length bs)))"

lemma fetch_irrelevant [simp]: "fetch_instruction (vm\<lparr>vm_state := st\<rparr>) = fetch_instruction vm"
  by (simp add: fetch_instruction_def Let_def code_byte_def)

lemma get_reg_irrelevant [simp]:
  "flux_vm_get_reg (vm\<lparr>vm_state := st\<rparr>) r = flux_vm_get_reg vm r"
  by (simp add: flux_vm_get_reg_def)

lemma entered_simps [simp]:
  "vm_regs (entered vm w) = vm_regs vm"
  "vm_pc (entered vm w) = vm_pc vm + 4"
  "vm_state (entered vm w) = VM_RUNNING"
  "vm_cycle_count (entered vm w) = vm_cycle_count vm + 1"
  "vm_insn_count (entered vm w) = vm_insn_count vm + 1"
  "vm_bytecode (entered vm w) = vm_bytecode vm"
  "vm_bytecode_len (entered vm w) = vm_bytecode_len vm"
  "vm_stack (entered vm w) = vm_stack vm"
  "vm_stack_ptr (entered vm w) = vm_stack_ptr vm"
  "vm_stack_size (entered vm w) = vm_stack_size vm"
  "vm_call_stack (entered vm w) = vm_call_stack vm"
  "vm_call_depth (entered vm w) = vm_call_depth vm"
  "vm_regions (entered vm w) = vm_regions vm"
  "vm_active_region (entered vm w) = vm_active_region vm"
  "vm_tracing (entered vm w) = vm_tracing vm"
  "vm_num_breakpoints (entered vm w) = vm_num_breakpoints vm"
  "vm_breakpoint_addrs (entered vm w) = vm_breakpoint_addrs vm"
  "vm_error_code (entered vm w) = vm_error_code vm"
  by (simp_all add: entered_def count_insn_def)

lemma entered_inv [simp]: "vm_inv (entered vm w) = vm_inv vm"
  by (simp add: entered_def count_insn_def)

lemma get_reg_entered [simp]: "flux_vm_get_reg (entered vm w) r = flux_vm_get_reg vm r"
  by (simp add: flux_vm_get_reg_def)

lemma get_reg_Val: "r < 64 \<Longrightarrow> vm_regs vm 0 = 0 \<Longrightarrow> flux_vm_get_reg vm r = Val (vm_regs vm (unat r))"
  by (simp add: flux_vm_get_reg_def word_less_nat_alt)

text \<open>The step of a fetched word is its handler between the two common parts.\<close>

lemma step_fetches:
  assumes "fetches vm w"
  shows "flux_vm_step fp ca vm =
     (let i = decode_insn w
      in cbind (flux_vm_get_reg vm (in_rs1 i)) (\<lambda>v1. cbind (flux_vm_get_reg vm (in_rs2 i)) (\<lambda>v2.
           cmap finish_step (vm_dispatch fp ca i v1 v2 (entered vm w)))))"
  using assms
  by (simp add: flux_vm_step_def execute_insn_def fetches_def Let_def trace_snapshot_def
                entered_def count_insn_def decode_insn_def)

lemma step_fetches_regs:
  assumes "fetches vm w" "vm_regs vm 0 = 0" "flux_decode_rs1 w < 64" "flux_decode_rs2 w < 64"
  shows "flux_vm_step fp ca vm =
     cmap finish_step (vm_dispatch fp ca (decode_insn w) (vm_regs vm (unat (flux_decode_rs1 w)))
                         (vm_regs vm (unat (flux_decode_rs2 w))) (entered vm w))"
  using assms by (simp add: step_fetches Let_def decode_insn_def get_reg_Val)

lemma decode_insn_a [simp]:
  "in_opcode (decode_insn (flux_encode_a op rd rs1 rs2)) = op"
  "in_rd (decode_insn (flux_encode_a op rd rs1 rs2)) = rd"
  "in_rs1 (decode_insn (flux_encode_a op rd rs1 rs2)) = rs1"
  "in_rs2 (decode_insn (flux_encode_a op rd rs1 rs2)) = rs2"
  by (simp_all add: decode_insn_def decode_encode)

lemma set_reg_simps:
  "r < 64 \<Longrightarrow> flux_vm_set_reg vm r v =
     Val (if r = 0 then vm else vm\<lparr>vm_regs := (vm_regs vm)(unat r := v)\<rparr>)"
  by (simp add: flux_vm_set_reg_def word_less_nat_alt)

text \<open>\<open>break_set\<close> followed by the epilogue.\<close>

lemma finish_break_set:
  assumes "rd < 64"
  shows "cmap finish_step (break_set vm rd v) =
     Val (FLUX_OK, vm\<lparr>vm_regs := (if rd = 0 then vm_regs vm else (vm_regs vm)(unat rd := v))
                                   (FLUX_REG_CYCLE_COUNT := vm_cycle_count vm)\<rparr>)"
  using assms by (simp add: break_set_def set_reg_simps finish_step_def set_special_def)

lemma finish_simps:
  "finish_step (Break vm) = (FLUX_OK, set_special vm FLUX_REG_CYCLE_COUNT (vm_cycle_count vm))"
  "finish_step (Return st vm) = (st, vm)"
  "cmap finish_step (vm_fail vm c st) = Val (st, vm\<lparr>vm_state := VM_ERROR, vm_error_code := c\<rparr>)"
  "cmap finish_step (returned r) = Val r"
  "cmap finish_step (Val (Break vm)) = Val (FLUX_OK, set_special vm FLUX_REG_CYCLE_COUNT (vm_cycle_count vm))"
  "cmap finish_step (Val (Return st vm)) = Val (st, vm)"
  "cmap finish_step (UB u) = UB u"
  by (simp_all add: vm_fail_def returned_def finish_step_def)

lemma booted_simps [simp]:
  "4 \<le> length bs \<Longrightarrow> length bs < 2 ^ 64 \<Longrightarrow> vm_bytecode (booted bs) = bs"
  by (simp add: booted_def flux_vm_load_def word_less_nat_alt unat_of_nat)

lemma booted_reachable:
  assumes "length bs < 2 ^ 64"
  shows "vm_reachable fp (booted bs)"
proof -
  let ?vm = "snd (flux_vm_init True)"
  have "vm_reachable fp ?vm"
    by (rule reach_init) (simp add: flux_vm_init_def Let_def)
  moreover have "vm_call fp ?vm (booted bs)"
    using assms
    by (intro call_load [of ?vm bs "of_nat (length bs)"
                            "fst (flux_vm_load ?vm (Some bs) (of_nat (length bs)))"])
       (simp_all add: booted_def unat_of_nat)
  ultimately show ?thesis by (rule reach_call)
qed

subsection \<open>The invariant\<close>

lemma booted_inv:
  assumes "length bs < 2 ^ 64" shows "vm_inv (booted bs)"
proof -
  let ?vm = "snd (flux_vm_init True)"
  have "vm_inv ?vm" by (rule flux_vm_init_inv) (simp add: flux_vm_init_def Let_def)
  then show ?thesis
    using flux_vm_load_inv [of ?vm bs "of_nat (length bs)"
        "fst (flux_vm_load ?vm (Some bs) (of_nat (length bs)))" "booted bs"] assms
    by (simp add: booted_def unat_of_nat)
qed

text \<open>A concrete value of the floating-point parameter, for the examples.\<close>

definition word_fpu :: fpu where
  "word_fpu = \<lparr>fadd = (+), fsub = (-), fmul = (*), fdiv = (div), i2f = id, f2i = Some\<rparr>"

text \<open>C1. Every instance that a client of include/flux/vm.h can reach - initialised, then loaded,
  stepped, run, trapped, reset or operated on through the region interface in any order - satisfies
  the machine invariant: register 0 is zero, the stack is allocated and its pointer within it, the
  call depth within its array, every live region owns a buffer of exactly its size, the active
  region is live, the bytecode length is within the bytecode.\<close>

theorem reachable_vm_inv: "vm_reachable fp vm \<Longrightarrow> vm_inv vm"
  by (induction rule: vm_reachable.induct) (auto dest: flux_vm_init_inv vm_call_inv)

theorem reachable_vm_inv_witness:
  "vm_inv (booted [0x01, 0, 0, 0]) \<and> vm_inv (booted [0xA9, 0, 0, 0, 0x40, 0, 0, 0])"
  using reachable_vm_inv [OF booted_reachable [of "[0x01, 0, 0, 0]" word_fpu]]
        reachable_vm_inv [OF booted_reachable [of "[0xA9, 0, 0, 0, 0x40, 0, 0, 0]" word_fpu]]
  by simp

subsection \<open>Integer arithmetic\<close>

text \<open>The mathematical result of an integer instruction; \<open>None\<close> for a zero divisor.\<close>

definition alu_int :: "u8 \<Rightarrow> int \<Rightarrow> int \<Rightarrow> int option" where
  "alu_int op a b =
     (if op = OP_IADD then Some (a + b) else if op = OP_ISUB then Some (a - b)
      else if op = OP_IMUL then Some (a * b)
      else if op = OP_IDIV then if b = 0 then None else Some (a sdiv b)
      else if op = OP_IMOD then if b = 0 then None else Some (a smod b)
      else if op = OP_INEG then Some (- a) else Some \<bar>a\<bar>)"

definition alu_fits :: "u8 \<Rightarrow> int \<Rightarrow> int \<Rightarrow> int \<Rightarrow> bool" where
  "alu_fits op a b r \<longleftrightarrow> in_s64 r \<and> (op = OP_IMOD \<longrightarrow> in_s64 (a sdiv b))"

lemma exec_arith_int:
  assumes "in_opcode i \<in> {OP_IADD, OP_ISUB, OP_IMUL, OP_IDIV, OP_IMOD, OP_INEG, OP_IABS}"
  shows "exec_arith fp i v1 v2 vm =
     (case alu_int (in_opcode i) (sint v1) (sint v2) of
        None \<Rightarrow> vm_fail vm 30 FLUX_ERR_GENERAL
      | Some r \<Rightarrow> if alu_fits (in_opcode i) (sint v1) (sint v2) r
                  then break_set vm (in_rd i) (word_of_int r) else UB SignedOverflow)"
  using assms
  by (auto simp: exec_arith_def Let_def alu_int_def alu_fits_def s64_def abs_if)

text \<open>Each range of opcodes goes to its handler.\<close>

lemma dispatch_ranges:
  "0x10 \<le> in_opcode i \<Longrightarrow> in_opcode i < 0x20 \<Longrightarrow> vm_dispatch fp ca i a b vm = exec_arith fp i a b vm"
  "0x20 \<le> in_opcode i \<Longrightarrow> in_opcode i < 0x30 \<Longrightarrow> vm_dispatch fp ca i a b vm = exec_logic i a b vm"
  "0x30 \<le> in_opcode i \<Longrightarrow> in_opcode i < 0x40 \<Longrightarrow> vm_dispatch fp ca i a b vm = exec_compare i a b vm"
  "0x40 \<le> in_opcode i \<Longrightarrow> in_opcode i < 0x50 \<Longrightarrow> vm_dispatch fp ca i a b vm = exec_branch i a vm"
  "0x50 \<le> in_opcode i \<Longrightarrow> in_opcode i < 0x60 \<Longrightarrow> vm_dispatch fp ca i a b vm = exec_memory i a b vm"
  "0x60 \<le> in_opcode i \<Longrightarrow> in_opcode i < 0x70 \<Longrightarrow> vm_dispatch fp ca i a b vm = exec_stack i vm"
  "0x70 \<le> in_opcode i \<Longrightarrow> in_opcode i < 0x80 \<Longrightarrow> vm_dispatch fp ca i a b vm = exec_call i a vm"
  by (auto simp: vm_dispatch_def Let_def word_less_nat_alt word_le_nat_alt)

text \<open>C40. The integer instructions IADD, ISUB, IMUL, IDIV, IMOD, INEG and IABS compute the signed
  mathematical result of their operands, truncating division towards zero, into the destination
  register and change no other register but the cycle counter; a zero divisor stops the machine in
  the error state with code 30 and the registers as they were; a result that does not fit
  \<open>int64_t\<close> is undefined.\<close>

theorem int_arith_step:
  assumes "fetches vm (flux_encode_a op rd rs1 rs2)" "vm_regs vm 0 = 0"
    and "op \<in> {OP_IADD, OP_ISUB, OP_IMUL, OP_IDIV, OP_IMOD, OP_INEG, OP_IABS}"
    and "rd < 64" "rs1 < 64" "rs2 < 64" "rd \<noteq> 0"
    and "a = sint (vm_regs vm (unat rs1))" "b = sint (vm_regs vm (unat rs2))"
    and "vm1 = entered vm (flux_encode_a op rd rs1 rs2)"
  shows "flux_vm_step fp ca vm =
     (case alu_int op a b of
        None \<Rightarrow> Val (FLUX_ERR_GENERAL, vm1\<lparr>vm_state := VM_ERROR, vm_error_code := 30\<rparr>)
      | Some r \<Rightarrow>
          if alu_fits op a b r
          then Val (FLUX_OK, vm1\<lparr>vm_regs := (vm_regs vm)
                 (unat rd := word_of_int r, FLUX_REG_CYCLE_COUNT := vm_cycle_count vm + 1)\<rparr>)
          else UB SignedOverflow)"
proof -
  let ?i = "decode_insn (flux_encode_a op rd rs1 rs2)"
  have r: "0x10 \<le> op" "op < 0x20" using assms(3) by auto
  have "flux_vm_step fp ca vm =
      cmap finish_step (exec_arith fp ?i (vm_regs vm (unat rs1)) (vm_regs vm (unat rs2)) vm1)"
    using assms(1,2,5,6,10) r by (simp add: step_fetches_regs decode_encode dispatch_ranges)
  also have "exec_arith fp ?i (vm_regs vm (unat rs1)) (vm_regs vm (unat rs2)) vm1 =
     (case alu_int op a b of None \<Rightarrow> vm_fail vm1 30 FLUX_ERR_GENERAL
      | Some r \<Rightarrow> if alu_fits op a b r then break_set vm1 rd (word_of_int r) else UB SignedOverflow)"
    using assms(3,8,9) by (subst exec_arith_int) (simp_all split: option.split)
  finally show ?thesis
    using assms(4,7,10)
    by (simp add: finish_break_set finish_simps split: option.split)
qed

theorem int_arith_step_witness:
  "cmap (\<lambda>(st, vm). (st, vm_regs vm 4))
     (flux_vm_step word_fpu (\<lambda>_. None) (booted [0x13, 4, 2, 63])) = Val (FLUX_OK, - 65536)"
proof -
  have w: "fetches (booted [0x13, 4, 2, 63]) (flux_encode_a 0x13 4 2 63)" by code_simp
  have r: "vm_regs (booted [0x13, 4, 2, 63]) 0 = 0" by code_simp
  show ?thesis
    by (subst int_arith_step [OF w r _ _ _ _ _ refl refl refl]) code_simp+
qed

subsection \<open>Comparison and conditional branches\<close>

text \<open>
  Which branches are taken after CMP with operands \<open>a\<close> and \<open>b\<close>. The flags hold the unsigned
  order, which JG, JL, JGE and JLE read; CMP never sets CARRY or OVERFLOW, which JA, JB, JAE, JBE,
  JC and JO read.
\<close>

definition cmp_taken :: "u8 \<Rightarrow> u64 \<Rightarrow> u64 \<Rightarrow> bool" where
  "cmp_taken op a b =
     (if op = OP_JE then a = b else if op = OP_JNE then a \<noteq> b
      else if op = OP_JG then b < a else if op = OP_JL then a < b
      else if op = OP_JGE then b \<le> a else if op = OP_JLE then a \<le> b
      else if op = OP_JA then a \<noteq> b else if op = OP_JB then False
      else if op = OP_JAE then True else if op = OP_JBE then a = b
      else False)"

lemma flags_of_bits:
  "flags_of a b AND FLUX_FLAG_EQUAL \<noteq> 0 \<longleftrightarrow> a = b"
  "flags_of a b AND FLUX_FLAG_LESS \<noteq> 0 \<longleftrightarrow> a < b"
  "flags_of a b AND FLUX_FLAG_GREATER \<noteq> 0 \<longleftrightarrow> b < a"
  "flags_of a b AND FLUX_FLAG_CARRY = 0"
  "flags_of a b AND FLUX_FLAG_OVERFLOW = 0"
  "flags_of a b AND (FLUX_FLAG_GREATER OR FLUX_FLAG_EQUAL) \<noteq> 0 \<longleftrightarrow> b \<le> a"
  "flags_of a b AND (FLUX_FLAG_LESS OR FLUX_FLAG_EQUAL) \<noteq> 0 \<longleftrightarrow> a \<le> b"
  "flags_of a b AND (FLUX_FLAG_CARRY OR FLUX_FLAG_EQUAL) \<noteq> 0 \<longleftrightarrow> a = b"
  by (auto simp: flags_of_def)

definition flag_branches :: "u8 set" where
  "flag_branches = {OP_JE, OP_JNE, OP_JG, OP_JL, OP_JGE, OP_JLE, OP_JA, OP_JB, OP_JAE, OP_JBE, OP_JC, OP_JO}"

lemma flag_branches_range: "op \<in> flag_branches \<Longrightarrow> 0x40 \<le> op \<and> op < 0x50"
  by (auto simp: flag_branches_def)

lemma exec_branch_flags:
  assumes "vm_regs vm FLUX_REG_FLAGS = flags_of a b" "in_opcode i \<in> flag_branches"
  shows "exec_branch i v vm = break_pc vm (cmp_taken (in_opcode i) a b) (ucast (in_target i))"
  using assms(2) unfolding flag_branches_def
  by (elim insertE emptyE)
     (simp_all add: exec_branch_def Let_def assms(1) flags_of_bits [simplified] cmp_taken_def)

lemma compare_step:
  assumes "fetches vm (flux_encode_a OP_CMP rd rs1 rs2)" "vm_regs vm 0 = 0" "rs1 < 64" "rs2 < 64"
    and "flux_vm_step fp ca vm = Val (st, vm1)"
  shows "st = FLUX_OK \<and> vm_pc vm1 = vm_pc vm + 4 \<and>
         vm_regs vm1 = (vm_regs vm)
           (FLUX_REG_FLAGS := flags_of (vm_regs vm (unat rs1)) (vm_regs vm (unat rs2)),
            FLUX_REG_CYCLE_COUNT := vm_cycle_count vm + 1)"
  using assms
  by (auto simp: step_fetches_regs decode_encode dispatch_ranges exec_compare_def Let_def
                 finish_simps flux_vm_set_flags_def set_special_def)

text \<open>A conditional branch that follows CMP a b: JE, JNE, JG, JL, JGE and JLE decide by
  equality and by the UNSIGNED order of the operands; JA is taken whenever they differ, JAE always,
  JBE on equality only, JB, JC and JO never. The target is the absolute 24-bit address of the
  instruction, the alternative the next instruction.\<close>

theorem compare_branch:
  assumes "fetches vm (flux_encode_a OP_CMP rd rs1 rs2)" "vm_regs vm 0 = 0" "rs1 < 64" "rs2 < 64"
    and "flux_vm_step fp ca vm = Val (st, vm1)"
    and "fetches vm1 w" "flux_decode_opcode w \<in> flag_branches"
    and "flux_decode_rs1 w < 64" "flux_decode_rs2 w < 64"
  shows "\<exists>vm2. flux_vm_step fp ca vm1 = Val (FLUX_OK, vm2) \<and>
           vm_pc vm2 = (if cmp_taken (flux_decode_opcode w) (vm_regs vm (unat rs1)) (vm_regs vm (unat rs2))
                        then ucast (flux_decode_target w) else vm_pc vm + 8)"
proof -
  note c = compare_step [OF assms(1-5)]
  let ?i = "decode_insn w" and ?vm = "entered vm1 w"
  have op: "in_opcode ?i \<in> flag_branches" using assms(7) by (simp add: decode_insn_def)
  have fl: "vm_regs ?vm FLUX_REG_FLAGS = flags_of (vm_regs vm (unat rs1)) (vm_regs vm (unat rs2))"
    using c by simp
  have "flux_vm_step fp ca vm1 = cmap finish_step
      (break_pc ?vm (cmp_taken (in_opcode ?i) (vm_regs vm (unat rs1)) (vm_regs vm (unat rs2)))
         (ucast (in_target ?i)))"
    using c assms(2,6,8,9) flag_branches_range [OF op]
    by (simp add: step_fetches_regs dispatch_ranges exec_branch_flags [OF fl op])
  then show ?thesis
    using c by (simp add: break_pc_def finish_simps set_special_def decode_insn_def)
qed

theorem compare_branch_witness:
  "\<exists>vm2. flux_vm_step word_fpu (\<lambda>_. None)
            (snd (the_val (flux_vm_step word_fpu (\<lambda>_. None) (booted [0x30, 0, 0, 2, 0x49, 0, 0, 0x20]))))
          = Val (FLUX_OK, vm2) \<and> vm_pc vm2 = 0x20"
proof -
  let ?vm = "booted [0x30, 0, 0, 2, 0x49, 0, 0, 0x20]"
  let ?vm1 = "snd (the_val (flux_vm_step word_fpu (\<lambda>_. None) ?vm))"
  have f: "fetches ?vm (flux_encode_a 0x30 0 0 2)" "vm_regs ?vm 0 = 0" by code_simp+
  have v: "defined (flux_vm_step word_fpu (\<lambda>_. None) ?vm)" by code_simp
  have s: "flux_vm_step word_fpu (\<lambda>_. None) ?vm =
             Val (fst (the_val (flux_vm_step word_fpu (\<lambda>_. None) ?vm)), ?vm1)"
    using v by (cases "flux_vm_step word_fpu (\<lambda>_. None) ?vm") auto
  have g: "fetches ?vm1 0x49000020" by code_simp
  have t: "cmp_taken (flux_decode_opcode 0x49000020) (vm_regs ?vm (unat (0 :: u8)))
             (vm_regs ?vm (unat (2 :: u8)))" by code_simp
  have d: "flux_decode_opcode 0x49000020 \<in> flag_branches" by code_simp
  have u: "ucast (flux_decode_target 0x49000020) = (0x20 :: u64)" by code_simp
  show ?thesis
    using compare_branch [OF f _ _ s g d] t u by (simp add: flux_decode_rs1_def flux_decode_rs2_def)
qed

end
