(* ===== verification/FluxControl.thy ===== *)
theory FluxControl
  imports FluxVMProps
begin

section \<open>Calls, stack instructions, traps and faults\<close>

text \<open>
  Instruction-level statements over the stacks of FluxStack: PUSH and POP, CALLI and RET, TRAP with
  and without a handler, and the undefined use of a register number outside the register file.
  \<open>stepped vm\<close> is the instance after one step, for the concrete examples.
\<close>

definition stepped :: "flux_vm \<Rightarrow> flux_vm" where
  "stepped vm = snd (the_val (flux_vm_step word_fpu (\<lambda>_. None) vm))"

lemma stepped_eq:
  "defined (flux_vm_step word_fpu (\<lambda>_. None) vm) \<Longrightarrow>
   \<exists>st. flux_vm_step word_fpu (\<lambda>_. None) vm = Val (st, stepped vm)"
  by (cases "flux_vm_step word_fpu (\<lambda>_. None) vm") (auto simp: stepped_def)

lemma stepped_inv:
  assumes "defined (flux_vm_step word_fpu (\<lambda>_. None) vm)" "vm_inv vm"
  shows "vm_inv (stepped vm)"
  using stepped_eq [OF assms(1)] vm_step_inv [OF assms(2)] by blast

subsection \<open>PUSH and POP\<close>

lemma data_stack_entered [simp]: "data_stack (entered vm w) = data_stack vm"
  by (simp add: data_stack_def split: option.split)

lemma frames_entered [simp]: "frames (entered vm w) = frames vm"
  by (simp add: frames_def)

lemma frames_irrelevant [simp]:
  "frames (vm\<lparr>vm_pc := pc\<rparr>) = frames vm"
  "frames (vm\<lparr>vm_regs := rg\<rparr>) = frames vm"
  "frames (vm\<lparr>vm_state := st\<rparr>) = frames vm"
  by (simp_all add: frames_def)

lemma data_stack_special [simp]: "data_stack (set_special vm r v) = data_stack vm"
  by (simp add: set_special_def)

lemma frames_special [simp]: "frames (set_special vm r v) = frames vm"
  by (simp add: set_special_def)

lemma special_fields [simp]:
  "vm_pc (set_special vm r v) = vm_pc vm"
  "vm_state (set_special vm r v) = vm_state vm"
  "vm_stack_ptr (set_special vm r v) = vm_stack_ptr vm"
  "vm_stack_size (set_special vm r v) = vm_stack_size vm"
  "vm_cycle_count (set_special vm r v) = vm_cycle_count vm"
  "vm_error_code (set_special vm r v) = vm_error_code vm"
  by (simp_all add: set_special_def)

lemma stack_push_frame:
  "stack_push vm v = Val (rc, vm') \<Longrightarrow> rc = FLUX_OK \<Longrightarrow>
   vm_pc vm' = vm_pc vm \<and> vm_regs vm' = vm_regs vm \<and> vm_state vm' = vm_state vm \<and>
   vm_cycle_count vm' = vm_cycle_count vm \<and> vm_stack_size vm' = vm_stack_size vm"
  by (auto simp: stack_push_def stack_set_def cmap_Val_iff split: if_splits option.splits)

lemma stack_pop_frame:
  "stack_pop vm = Val (rc, v, vm') \<Longrightarrow> rc = FLUX_OK \<Longrightarrow>
   vm_pc vm' = vm_pc vm \<and> vm_regs vm' = vm_regs vm \<and> vm_state vm' = vm_state vm \<and>
   vm_cycle_count vm' = vm_cycle_count vm \<and> vm_stack_size vm' = vm_stack_size vm"
  by (auto simp: stack_pop_def cmap_Val_iff split: if_splits)

text \<open>The three fields of every word but the opcode are register numbers; these words name valid ones.\<close>

definition regs_ok :: "u32 \<Rightarrow> bool" where
  "regs_ok w \<longleftrightarrow> flux_decode_rd w < 64 \<and> flux_decode_rs1 w < 64 \<and> flux_decode_rs2 w < 64"

lemma step_regs_ok:
  assumes "fetches vm w" "vm_inv vm" "regs_ok w"
  shows "flux_vm_step fp ca vm =
     cmap finish_step (vm_dispatch fp ca (decode_insn w) (vm_regs vm (unat (flux_decode_rs1 w)))
                         (vm_regs vm (unat (flux_decode_rs2 w))) (entered vm w))"
  using assms by (intro step_fetches_regs) (auto simp: regs_ok_def vm_inv_def)

lemma decode_insn_simps [simp]:
  "in_opcode (decode_insn w) = flux_decode_opcode w" "in_rd (decode_insn w) = flux_decode_rd w"
  "in_rs1 (decode_insn w) = flux_decode_rs1 w" "in_rs2 (decode_insn w) = flux_decode_rs2 w"
  "in_target (decode_insn w) = flux_decode_target w"
  by (simp_all add: decode_insn_def)

lemma exec_push:
  assumes "fetches vm w" "vm_inv vm" "regs_ok w" "flux_decode_opcode w = OP_PUSH"
  shows "flux_vm_step fp ca vm =
     cmap finish_step (push_break (entered vm w) (vm_regs vm (unat (flux_decode_rd w))))"
  using assms
  by (simp add: step_regs_ok dispatch_ranges exec_stack_def Let_def get_reg_Val regs_ok_def vm_inv_def)

lemma exec_pop:
  assumes "fetches vm w" "vm_inv vm" "regs_ok w" "flux_decode_opcode w = OP_POP"
  shows "flux_vm_step fp ca vm =
     cmap finish_step (pop_break (entered vm w)
                         (\<lambda>vm1 v. flux_vm_set_reg vm1 (flux_decode_rd w) v))"
  using assms by (simp add: step_regs_ok dispatch_ranges exec_stack_def Let_def)

text \<open>PUSH puts its register on top of the value stack, keeps SP equal to the free space and
  advances; on a full stack of 65536 cells it stops the machine in the error state with code 1
  and leaves the stack as it was. It is never undefined.\<close>

theorem push_step:
  assumes "vm_inv vm" "fetches vm w" "regs_ok w" "flux_decode_opcode w = OP_PUSH"
  shows "if length (data_stack vm) < 65536
         then \<exists>vm'. flux_vm_step fp ca vm = Val (FLUX_OK, vm') \<and> vm_inv vm' \<and>
                data_stack vm' = vm_regs vm (unat (flux_decode_rd w)) # data_stack vm \<and>
                vm_regs vm' FLUX_REG_SP = of_nat (65536 - length (data_stack vm')) \<and>
                vm_pc vm' = vm_pc vm + 4
         else \<exists>vm'. flux_vm_step fp ca vm = Val (FLUX_ERR_OVERFLOW, vm') \<and> vm_state vm' = VM_ERROR \<and>
                vm_error_code vm' = 1 \<and> data_stack vm' = data_stack vm"
proof (cases "length (data_stack vm) < 65536")
  case True
  let ?e = "entered vm w" and ?v = "vm_regs vm (unat (flux_decode_rd w))"
  obtain vm1 where p: "stack_push ?e ?v = Val (FLUX_OK, vm1)" "vm_inv vm1"
      "data_stack vm1 = ?v # data_stack vm"
    using value_stack.push_room [of ?e ?v] assms(1) True by auto
  have sp: "vm_stack_size vm1 - vm_stack_ptr vm1 = of_nat (65536 - length (data_stack vm1))"
    using p(2) by (simp add: data_stack_length vm_inv_def of_nat_diff word_le_nat_alt)
  show ?thesis
    using True p sp stack_push_frame [OF p(1)]
    by (auto simp: exec_push [OF assms(2,1,3,4)] push_break_def finish_simps sync_sp_def
             intro!: vm_inv_special)
next
  case False
  then have "length (data_stack (entered vm w)) = 65536"
    using value_stack.bound [OF assms(1)] by simp
  then have "vm_stack_ptr vm = 65536"
    using data_stack_length [OF assms(1)] by (simp add: word_unat_eq_iff)
  with False show ?thesis
    using assms(1)
    by (simp add: exec_push [OF assms(2,1,3,4)] push_break_def stack_push_def vm_inv_size
                  finish_simps)
qed

theorem push_step_witness:
  "(if length (data_stack (booted [0x60, 3, 0, 0])) < 65536
    then \<exists>vm'. flux_vm_step word_fpu (\<lambda>_. None) (booted [0x60, 3, 0, 0]) = Val (FLUX_OK, vm') \<and>
           vm_inv vm' \<and> data_stack vm' = vm_regs (booted [0x60, 3, 0, 0]) (unat (flux_decode_rd 0x60030000))
                                # data_stack (booted [0x60, 3, 0, 0]) \<and>
           vm_regs vm' FLUX_REG_SP = of_nat (65536 - length (data_stack vm')) \<and>
           vm_pc vm' = vm_pc (booted [0x60, 3, 0, 0]) + 4
    else \<exists>vm'. flux_vm_step word_fpu (\<lambda>_. None) (booted [0x60, 3, 0, 0]) = Val (FLUX_ERR_OVERFLOW, vm') \<and>
           vm_state vm' = VM_ERROR \<and> vm_error_code vm' = 1 \<and>
           data_stack vm' = data_stack (booted [0x60, 3, 0, 0]))"
proof -
  have "fetches (booted [0x60, 3, 0, 0]) 0x60030000" "regs_ok 0x60030000"
    "flux_decode_opcode 0x60030000 = OP_PUSH" by code_simp+
  then show ?thesis
    using booted_inv [of "[0x60, 3, 0, 0]"] by (intro push_step) simp_all
qed

text \<open>POP moves the top of the value stack into its register, keeps SP equal to the free
  space (POP into SP included) and advances; on an empty stack it stops the machine in the error
  state with code 2 and leaves the registers as they were.\<close>

theorem pop_step:
  assumes "vm_inv vm" "fetches vm w" "regs_ok w" "flux_decode_opcode w = OP_POP"
  shows "case data_stack vm of
      v # vs \<Rightarrow> \<exists>vm'. flux_vm_step fp ca vm = Val (FLUX_OK, vm') \<and> data_stack vm' = vs \<and>
          vm_regs vm' = (let r = unat (flux_decode_rd w) in
             (if r = 0 then vm_regs vm else (vm_regs vm)(r := v))
             (FLUX_REG_SP := of_nat (65536 - length vs), FLUX_REG_CYCLE_COUNT := vm_cycle_count vm + 1))
    | [] \<Rightarrow> \<exists>vm'. flux_vm_step fp ca vm = Val (FLUX_ERR_GENERAL, vm') \<and> vm_state vm' = VM_ERROR \<and>
          vm_error_code vm' = 2 \<and> vm_regs vm' = vm_regs vm"
proof (cases "data_stack vm")
  case Nil
  then have "vm_stack_ptr vm = 0"
    using data_stack_length [OF assms(1)] by (simp add: unat_eq_0)
  then show ?thesis
    using Nil by (simp add: exec_pop [OF assms(2,1,3,4)] pop_break_def stack_pop_def finish_simps)
next
  case (Cons v vs)
  let ?e = "entered vm w" and ?rd = "flux_decode_rd w"
  obtain vm1 where p: "stack_pop ?e = Val (FLUX_OK, v, vm1)" "vm_inv vm1" "data_stack vm1 = vs"
    using value_stack.pop_cons [of ?e v vs] assms(1) Cons by auto
  have sp: "vm_stack_size vm1 - vm_stack_ptr vm1 = of_nat (65536 - length vs)"
    using p(2) p(3) [symmetric] by (simp add: data_stack_length vm_inv_def of_nat_diff word_le_nat_alt)
  have rd: "?rd < 64" using assms(3) by (simp add: regs_ok_def)
  show ?thesis
    using Cons p sp stack_pop_frame [OF p(1)]
    by (simp add: exec_pop [OF assms(2,1,3,4)] pop_break_def set_reg_simps [OF rd] finish_simps
                  sync_sp_def Let_def unat_eq_0)
qed

theorem pop_step_witness:
  "\<exists>vm'. flux_vm_step word_fpu (\<lambda>_. None) (stepped (booted [0x62, 0, 0, 9, 0x61, 8, 0, 0])) = Val (FLUX_OK, vm')
         \<and> data_stack vm' = [] \<and> vm_regs vm' 8 = 9"
proof -
  let ?start = "booted [0x62, 0, 0, 9, 0x61, 8, 0, 0]"
  let ?vm = "stepped ?start"
  have "defined (flux_vm_step word_fpu (\<lambda>_. None) ?start)" by code_simp
  then have inv: "vm_inv ?vm"
    using booted_inv [of "[0x62, 0, 0, 9, 0x61, 8, 0, 0]"] by (intro stepped_inv) simp_all
  have w: "fetches ?vm 0x61080000" "regs_ok 0x61080000" "flux_decode_opcode 0x61080000 = OP_POP"
    "unat (flux_decode_rd 0x61080000) = 8" by code_simp+
  have d: "data_stack ?vm = [9]" by code_simp
  show ?thesis
    using pop_step [OF inv w(1-3), of word_fpu "\<lambda>_. None"] by (auto simp: d w(4) Let_def)
qed

subsection \<open>CALLI and RET\<close>

text \<open>CALLI followed, at its target, by RET resumes at the instruction after the call with the
  frames of the caller as they were; a RET without a frame halts the machine with status OK.\<close>

theorem call_ret:
  assumes "vm_inv vm" "fetches vm w" "regs_ok w" "flux_decode_opcode w = OP_CALLI"
    and "length (frames vm) < 256" "flux_vm_step fp ca vm = Val (st, vm1)"
    and "fetches vm1 u" "regs_ok u" "flux_decode_opcode u = OP_RET"
  shows "st = FLUX_OK \<and> vm_pc vm1 = ucast (flux_decode_target w) \<and>
         frames vm1 = (vm_pc vm + 4) # frames vm \<and>
         (\<exists>vm2. flux_vm_step fp ca vm1 = Val (FLUX_OK, vm2) \<and> vm_pc vm2 = vm_pc vm + 4 \<and>
                frames vm2 = frames vm)"
proof -
  let ?e = "entered vm w" and ?e1 = "entered vm1 u"
  obtain s1 where p: "call_stack_push ?e (vm_pc vm + 4) = Val (FLUX_OK, s1)" "vm_inv s1"
      "frames s1 = (vm_pc vm + 4) # frames vm"
    using call_stack.push_room [of ?e "vm_pc vm + 4"] assms(1,5) by auto
  have s: "flux_vm_step fp ca vm = cmap finish_step (call_to ?e (Val (ucast (flux_decode_target w))))"
    using assms(1-4) by (simp add: step_regs_ok dispatch_ranges exec_call_def Let_def)
  then have st: "st = FLUX_OK"
      "vm1 = set_special (s1\<lparr>vm_pc := ucast (flux_decode_target w)\<rparr>) FLUX_REG_CYCLE_COUNT
               (vm_cycle_count s1)"
    using assms(6) p(1) by (simp_all add: call_to_def finish_simps)
  then have inv1: "vm_inv vm1" using p(2) by (simp add: vm_inv_special)
  have fr1: "frames vm1 = (vm_pc vm + 4) # frames vm" using st p(3) by simp
  then obtain s2 where q: "call_stack_pop ?e1 = Val (FLUX_OK, vm_pc vm + 4, s2)" "frames s2 = frames vm"
    using call_stack.pop_cons [of ?e1 "vm_pc vm + 4" "frames vm"] inv1 by auto
  have "flux_vm_step fp ca vm1 = cmap finish_step (exec_ret ?e1)"
    using assms(7-9) inv1 by (simp add: step_regs_ok dispatch_ranges exec_call_def Let_def)
  then show ?thesis
    using st fr1 q by (simp add: exec_ret_def finish_simps)
qed

theorem call_ret_witness:
  "\<exists>vm2. flux_vm_step word_fpu (\<lambda>_. None) (stepped (booted [0x71, 0, 0, 8, 1, 0, 0, 0, 0x72, 0, 0, 0]))
           = Val (FLUX_OK, vm2) \<and> vm_pc vm2 = 4"
proof -
  let ?vm = "booted [0x71, 0, 0, 8, 1, 0, 0, 0, 0x72, 0, 0, 0]"
  have inv: "vm_inv ?vm" using booted_inv [of "[0x71, 0, 0, 8, 1, 0, 0, 0, 0x72, 0, 0, 0]"] by simp
  have w: "fetches ?vm 0x71000008" "regs_ok 0x71000008" "flux_decode_opcode 0x71000008 = OP_CALLI"
    "length (frames ?vm) < 256" by code_simp+
  have "defined (flux_vm_step word_fpu (\<lambda>_. None) ?vm)" by code_simp
  then obtain st where s: "flux_vm_step word_fpu (\<lambda>_. None) ?vm = Val (st, stepped ?vm)"
    by (blast dest: stepped_eq)
  have u: "fetches (stepped ?vm) 0x72000000" "regs_ok 0x72000000"
    "flux_decode_opcode 0x72000000 = OP_RET" by code_simp+
  have "vm_pc ?vm = 0" by code_simp
  then show ?thesis using call_ret [OF inv w s u] by auto
qed

subsection \<open>Traps and faults\<close>

lemma trap_code: "ucast (in_imm (decode_insn w) AND 0xFF) = flux_decode_rs2 w"
  unfolding decode_insn_def flux_decode_imm16_def flux_decode_rs2_def mask_u32
  by (rule bit_word_eqI) (auto simp: bit_simps)

text \<open>TRAP with a handler installed saves the address of the next instruction in RA and goes
  on at the handler with the machine running; without one it stops in the trapped state with the
  trap flag set. Either way the error code is the low byte of the instruction. Both are defined
  for every machine.\<close>

theorem trap_step:
  assumes "vm_inv vm" "fetches vm w" "regs_ok w" "flux_decode_opcode w = OP_TRAP"
  shows "\<exists>st vm'. flux_vm_step fp ca vm = Val (st, vm') \<and> vm_error_code vm' = flux_decode_rs2 w \<and>
     (if vm_regs vm FLUX_REG_TRAP_HANDLER \<noteq> NO_HANDLER
      then st = FLUX_OK \<and> vm_state vm' = VM_RUNNING \<and> vm_pc vm' = vm_regs vm FLUX_REG_TRAP_HANDLER \<and>
           vm_regs vm' = (vm_regs vm)(FLUX_REG_RA := vm_pc vm + 4,
                                      FLUX_REG_CYCLE_COUNT := vm_cycle_count vm + 1)
      else st = FLUX_ERR_GENERAL \<and> vm_state vm' = VM_TRAPPED \<and> vm_pc vm' = vm_pc vm + 4 \<and>
           vm_regs vm' = (vm_regs vm)(FLUX_REG_FLAGS := vm_regs vm FLUX_REG_FLAGS OR FLUX_FLAG_TRAP,
                                      FLUX_REG_ERROR_CODE := ucast (flux_decode_rs2 w)))"
  using assms
  by (simp add: step_regs_ok vm_dispatch_def exec_system_def Let_def trap_code finish_simps
                flux_vm_trap_def set_special_def)

theorem trap_step_witness:
  "\<exists>st vm'. flux_vm_step word_fpu (\<lambda>_. None) (booted [0x02, 0, 0, 7]) = Val (st, vm') \<and>
     vm_error_code vm' = 7"
proof -
  have w: "fetches (booted [0x02, 0, 0, 7]) 0x02000007" "regs_ok 0x02000007"
    "flux_decode_opcode 0x02000007 = OP_TRAP" "flux_decode_rs2 0x02000007 = 7" by code_simp+
  show ?thesis
    using trap_step [OF booted_inv w(1-3), of word_fpu "\<lambda>_. None"] w(4) by auto
qed

text \<open>Register numbers are not checked: executing any instruction whose third or fourth byte
  is 64 or more reads outside the register file, whatever the opcode - also where these bytes are
  not register fields, as in a jump or a call to an address whose low byte is 64 or more.\<close>

theorem register_number_unchecked:
  assumes "fetches vm w" "\<not> (flux_decode_rs1 w < 64 \<and> flux_decode_rs2 w < 64)"
  shows "flux_vm_step fp ca vm = UB OobRegister"
proof -
  have oob: "flux_vm_get_reg vm r = UB OobRegister" if "\<not> r < 64" for r
    using that by (auto simp: flux_vm_get_reg_def word_less_nat_alt)
  show ?thesis
  proof (cases "flux_decode_rs1 w < 64")
    case True
    then have "defined (flux_vm_get_reg vm (flux_decode_rs1 w))"
      by (simp add: flux_vm_get_reg_def word_less_nat_alt)
    then show ?thesis
      using assms True oob [of "flux_decode_rs2 w"]
      by (auto simp: step_fetches Let_def defined_iff)
  next
    case False
    then show ?thesis
      using assms oob [of "flux_decode_rs1 w"] by (simp add: step_fetches Let_def)
  qed
qed

theorem register_number_unchecked_witness:
  "flux_vm_step word_fpu (\<lambda>_. None) (booted [0x40, 0, 0, 0x40]) = UB OobRegister"
proof -
  have "fetches (booted [0x40, 0, 0, 0x40]) (flux_encode_c OP_JMP 0x40)"
    "\<not> (flux_decode_rs1 (flux_encode_c OP_JMP 0x40) < 64 \<and>
        flux_decode_rs2 (flux_encode_c OP_JMP 0x40) < 64)" by code_simp+
  then show ?thesis by (rule register_number_unchecked)
qed

text \<open>A halted or failed instance refuses to step and is left as it is, but \<open>flux_vm_run\<close>
  overwrites the state before its first test: running such an instance behaves as running the
  same instance in the idle state.\<close>

theorem stopped_step_run:
  assumes "vm_state vm \<in> {VM_HALTED, VM_ERROR}"
  shows "flux_vm_step fp ca vm = Val (FLUX_ERR_GENERAL, vm) \<and>
         flux_vm_run fp env fuel vm mc = flux_vm_run fp env fuel (vm\<lparr>vm_state := VM_IDLE\<rparr>) mc"
  using assms by (auto simp: flux_vm_step_def flux_vm_run_def)

theorem stopped_step_run_witness:
  "flux_vm_step word_fpu (\<lambda>_. None) (stepped (booted [0x01, 0, 0, 0])) =
     Val (FLUX_ERR_GENERAL, stepped (booted [0x01, 0, 0, 0]))"
proof -
  have "vm_state (stepped (booted [0x01, 0, 0, 0])) \<in> {VM_HALTED, VM_ERROR}" by code_simp
  then show ?thesis by (rule stopped_step_run [THEN conjunct1])
qed

end
