(* ===== verification/FluxFrame.thy ===== *)
theory FluxFrame
  imports FluxControl
begin

section \<open>Frames: what the handlers leave alone\<close>

text \<open>
  \<open>vm_frame Q\<close> is the interface of a predicate that does not depend on the registers, the stacks,
  the program counter, the state or the trace switch; every handler outside the memory and the
  FLUX-specific group keeps such a predicate. \<open>vm_frame_mem\<close> adds writing the bytes of the active
  region, which is all that the memory group does apart from STORE_RM; \<open>vm_frame_all\<close> adds writing,
  creating and destroying any region.

  Two interpretations carry the properties of FluxRun: the program text and the cycle counter
  (\<open>same_program\<close>), and the regions other than the active one (\<open>others_same\<close>).
\<close>

locale vm_frame =
  fixes Q :: "flux_vm \<Rightarrow> bool"
  assumes regs: "Q vm \<Longrightarrow> Q (vm\<lparr>vm_regs := rg\<rparr>)"
    and stack: "Q vm \<Longrightarrow> Q (vm\<lparr>vm_stack := sk\<rparr>)"
    and stack_ptr: "Q vm \<Longrightarrow> Q (vm\<lparr>vm_stack_ptr := p\<rparr>)"
    and call_stack: "Q vm \<Longrightarrow> Q (vm\<lparr>vm_call_stack := cs\<rparr>)"
    and call_depth: "Q vm \<Longrightarrow> Q (vm\<lparr>vm_call_depth := d\<rparr>)"
    and pc: "Q vm \<Longrightarrow> Q (vm\<lparr>vm_pc := a\<rparr>)"
    and state: "Q vm \<Longrightarrow> Q (vm\<lparr>vm_state := st\<rparr>)"
    and error: "Q vm \<Longrightarrow> Q (vm\<lparr>vm_error_code := e\<rparr>)"
    and tracing: "Q vm \<Longrightarrow> Q (vm\<lparr>vm_tracing := t\<rparr>)"
    and trace_idx: "Q vm \<Longrightarrow> Q (vm\<lparr>vm_trace_idx := ti\<rparr>)"
begin

lemmas fields = regs stack stack_ptr call_stack call_depth pc state error tracing trace_idx

abbreviation (input) keeps :: "flow cres \<Rightarrow> bool" where
  "keeps m \<equiv> call (\<lambda>f. Q (flow_vm f)) m"

lemma special: "Q vm \<Longrightarrow> Q (set_special vm r v)"
  by (simp add: set_special_def regs)

lemma sync: "Q vm \<Longrightarrow> Q (sync_sp vm)"
  by (simp add: sync_sp_def special)

lemma trap: "Q vm \<Longrightarrow> Q (snd (flux_vm_trap vm c))"
  by (simp add: flux_vm_trap_def fields)

lemma set_reg: "Q vm \<Longrightarrow> flux_vm_set_reg vm r v = Val vm' \<Longrightarrow> Q vm'"
  by (auto simp: flux_vm_set_reg_def regs split: if_splits)

lemma set_cell: "Q vm \<Longrightarrow> stack_set vm k v = Val vm' \<Longrightarrow> Q vm'"
  by (auto simp: stack_set_def stack split: option.splits if_splits)

lemma push: "Q vm \<Longrightarrow> stack_push vm v = Val (rc, vm') \<Longrightarrow> Q vm'"
  by (auto simp: stack_push_def cmap_Val_iff fields split: if_splits dest: set_cell)

lemma pop: "Q vm \<Longrightarrow> stack_pop vm = Val (rc, v, vm') \<Longrightarrow> Q vm'"
  by (auto simp: stack_pop_def cmap_Val_iff fields split: if_splits)

lemma call_push: "Q vm \<Longrightarrow> call_stack_push vm a = Val (rc, vm') \<Longrightarrow> Q vm'"
  by (auto simp: call_stack_push_def fields split: if_splits)

lemma call_pop: "Q vm \<Longrightarrow> call_stack_pop vm = Val (rc, a, vm') \<Longrightarrow> Q vm'"
  by (auto simp: call_stack_pop_def fields split: if_splits)

lemma fail: "Q vm \<Longrightarrow> keeps (vm_fail vm c st)"
  by (simp add: vm_fail_def fields)

lemma ret_trap: "Q vm \<Longrightarrow> keeps (returned (flux_vm_trap vm c))"
  by (simp add: returned_def trap)

lemma set_break: "Q vm \<Longrightarrow> keeps (break_set vm rd v)"
  unfolding break_set_def by (rule call_cmapI) (auto dest: set_reg)

lemma set_after: "Q vm \<Longrightarrow> keeps (cbind m (break_set vm rd))"
  by (intro keeps_bind_any set_break)

lemma special_break: "Q vm \<Longrightarrow> keeps (break_special vm r v)"
  by (simp add: break_special_def special)

lemma pc_break: "Q vm \<Longrightarrow> keeps (break_pc vm c t)"
  by (simp add: break_pc_def fields)

lemma plain_break: "Q vm \<Longrightarrow> keeps (Val (Break vm))" by simp

lemma plain_return: "Q vm \<Longrightarrow> keeps (Val (Return st vm))" by simp

lemmas shape = keeps_if keeps_option keeps_UB keeps_bind_any set_after set_break fail ret_trap
  special_break pc_break plain_break plain_return

lemma push_keeps: "Q vm \<Longrightarrow> keeps (push_break vm v)"
  unfolding push_break_def by (rule call_cbindI) (clarsimp, metis push sync)

lemma pop_keeps:
  assumes "Q vm" "\<And>vm1 v vm2. Q vm1 \<Longrightarrow> f vm1 v = Val vm2 \<Longrightarrow> Q vm2"
  shows "keeps (pop_break vm f)"
proof -
  have "keeps (cmap (Break \<circ> sync_sp) (f vm1 v))" if "Q vm1" for vm1 v
    using assms(2) [OF that] by (intro call_cmapI) (simp add: sync)
  then show ?thesis
    unfolding pop_break_def by (intro call_cbindI) (auto dest: pop [OF assms(1)])
qed

lemma pusha_keeps: "Q vm \<Longrightarrow> keeps (pusha_loop rs vm)"
  by (induction rs arbitrary: vm) (auto intro: sync intro!: call_cbindI dest: push)

lemma popa_keeps: "Q vm \<Longrightarrow> keeps (popa_loop rs vm)"
proof (induction rs arbitrary: vm)
  case (Cons r rs)
  then have "keeps (popa_loop rs (set_special vm1 r v))" if "Q vm1" for vm1 v
    using that by (simp add: special)
  with Cons.prems show ?case by (auto intro!: call_cbindI dest: pop)
qed (simp add: sync)

lemma swap_keeps: "Q vm \<Longrightarrow> keeps (exec_swap vm)"
  unfolding exec_swap_def
  by (intro keeps_if fail call_cbindI call_cmapI) (auto dest: set_cell)

lemma frame_keeps: "Q vm \<Longrightarrow> keeps (open_frame vm n)"
  by (simp add: open_frame_def Let_def fail sync special fields)

lemma enter_keeps: "Q vm \<Longrightarrow> keeps (exec_enter i vm)"
  unfolding exec_enter_def Let_def
  by (rule call_cbindI, clarify, rule call_cbindI, clarify) (blast intro: frame_keeps push)

lemma leave_keeps:
  assumes q: "Q vm" shows "keeps (exec_leave vm)"
proof -
  have "Q (sync_sp (set_special (set_special vm2 FLUX_REG_FP a) FLUX_REG_BP b))" if "Q vm2" for vm2 a b
    using that by (simp add: sync special)
  then have "keeps (cbind (stack_pop vm1) (\<lambda>(_, b, vm2).
      Val (Break (sync_sp (set_special (set_special vm2 FLUX_REG_FP a) FLUX_REG_BP b)))))"
    if "Q vm1" for vm1 a
    using that by (intro call_cbindI) (auto dest: pop)
  then show ?thesis
    unfolding exec_leave_def Let_def
    using stack_ptr [OF q] by (intro call_cbindI) (auto dest: pop)
qed

lemma stack_keeps: "Q vm \<Longrightarrow> keeps (exec_stack i vm)"
  unfolding exec_stack_def Let_def
  by (intro keeps_if keeps_bind_any push_keeps pop_keeps fail swap_keeps enter_keeps leave_keeps
        pusha_keeps popa_keeps plain_break ret_trap sync)
     (auto intro: set_reg special fields)

lemma call_keeps: "Q vm \<Longrightarrow> keeps (exec_call i v vm)"
proof -
  assume q: "Q vm"
  have "Q vm1" if "call_stack_push vm a = Val (rc, vm1)" for a rc vm1
    using q that by (rule call_push)
  then have c: "keeps (call_to vm t)" for t
    unfolding call_to_def
    by (cases "call_stack_push vm (vm_pc vm)") (auto intro!: call_cmapI pc)
  have p: "Q vm1" if "call_stack_pop vm = Val (rc, a, vm1)" for rc a vm1
    using q that by (rule call_pop)
  have r: "keeps (exec_ret vm)"
    using p by (cases "call_stack_pop vm") (auto simp: exec_ret_def pc state)
  have "keeps (cbind (stack_pop vm1) (\<lambda>(_, saved_flags, vm2).
            Val (Break ((set_special vm2 FLUX_REG_FLAGS saved_flags)\<lparr>vm_pc := a\<rparr>))))"
    if "Q vm1" for vm1 a
    using pop [OF that] by (cases "stack_pop vm1") (auto simp: pc special)
  then have ri: "keeps (exec_reti vm)"
    using p by (cases "call_stack_pop vm") (auto simp: exec_reti_def state)
  show ?thesis
    unfolding exec_call_def Let_def
    by (intro keeps_if c r ri shape q) (auto intro: fields special q)
qed

lemma system_keeps: "Q vm \<Longrightarrow> keeps (exec_system i vm)"
  by (simp add: exec_system_def Let_def ret_trap fail fields special)

lemma arith_keeps: "Q vm \<Longrightarrow> keeps (exec_arith fp i a b vm)"
  unfolding exec_arith_def Let_def by (intro shape)

lemma logic_keeps: "Q vm \<Longrightarrow> keeps (exec_logic i a b vm)"
  by (simp add: exec_logic_def Let_def set_break set_after)

lemma compare_keeps: "Q vm \<Longrightarrow> keeps (exec_compare i a b vm)"
  by (simp add: exec_compare_def Let_def special_break flux_vm_set_flags_def special)

lemma branch_keeps: "Q vm \<Longrightarrow> keeps (exec_branch i a vm)"
  by (simp add: exec_branch_def Let_def pc_break special)

lemma agent_keeps: "Q vm \<Longrightarrow> keeps (exec_agent i v vm)"
  unfolding exec_agent_def Let_def
  by (intro keeps_if keeps_bind_any shape call_cmapI) (auto intro: special fields dest: set_reg)

lemma io_keeps: "Q vm \<Longrightarrow> keeps (exec_io i vm)"
  by (simp add: exec_io_def special_break)

lemma native_keeps: "Q vm \<Longrightarrow> keeps (exec_native i a b vm)"
  unfolding exec_native_def Let_def by (intro shape)

lemma flux_keeps:
  assumes "Q vm" "in_opcode i \<notin> {OP_REGION_CREATE, OP_REGION_DESTROY, OP_PROF_START}"
  shows "keeps (exec_flux ca i a b vm)"
  using assms
  by (simp add: exec_flux_def Let_def set_break special_break fields)
     (auto intro!: keeps_bind_any keeps_if special_break ret_trap)

lemma finish: "Q (flow_vm f) \<Longrightarrow> Q (snd (finish_step f))"
  by (cases f) (simp_all add: finish_simps special)

end

subsection \<open>Memory\<close>

locale vm_frame_mem = vm_frame +
  assumes put_active: "Q vm \<Longrightarrow> Q (put_bytes vm (vm_active_region vm) bs)"
begin

lemma put_keeps: "Q vm \<Longrightarrow> keeps (cmap (\<lambda>d. Break (put_bytes vm (vm_active_region vm) d)) m)"
  by (intro call_cmapI) (simp add: put_active)

lemma access_keeps: "Q vm \<Longrightarrow> keeps (exec_region_access i ea vm)"
  unfolding exec_region_access_def Let_def
  by (intro keeps_if keeps_bind_any set_break put_keeps)

lemma stack_access_keeps: "Q vm \<Longrightarrow> keeps (exec_stack_access i ea vm)"
  unfolding exec_stack_access_def Let_def
  by (intro keeps_if keeps_bind_any set_break plain_break call_cmapI) (auto dest: set_cell)

lemma cmpxchg: "Q vm \<Longrightarrow> exec_cmpxchg i ea e vm = Val vm' \<Longrightarrow> Q vm'"
  using put_active [of vm]
  by (auto simp: exec_cmpxchg_def Let_def cbind_Val_iff split: if_splits dest: set_reg)

lemma atomic_keeps:
  assumes q: "Q vm" shows "keeps (exec_atomic i a b vm)"
  unfolding exec_atomic_def Let_def
proof (rule keeps_bind_any, rule keeps_if)
  fix live
  have "Q (set_special vm' FLUX_REG_FLAGS 0)"
    if "(if \<not> live then Val vm else exec_cmpxchg i (eff_addr i a) b vm) = Val vm'" for vm'
    using that cmpxchg [OF q] q by (cases live) (auto intro: special)
  then show "keeps (cmap (\<lambda>vm'. Break (set_special vm' FLUX_REG_FLAGS 0))
          (if \<not> live then Val vm else exec_cmpxchg i (eff_addr i a) b vm))"
    by (intro call_cmapI) simp
next
  fix live
  have w: "keeps (cbind m (\<lambda>d. break_set (put_bytes vm (vm_active_region vm) d) rd old))" for m rd old
    by (intro keeps_bind_any set_break put_active q)
  show "keeps (if \<not> live then Val (Break vm) else
      cbind (mem_read64 (region_bytes (get_region vm (vm_active_region vm))) (eff_addr i a)
               (rg_size (get_region vm (vm_active_region vm))))
        (\<lambda>old. cbind (flux_vm_get_reg vm (in_rd i)) (\<lambda>v.
      cbind (s64 (if in_opcode i = OP_ATOMIC_ADD then sint old + sint v else sint old - sint v))
        (\<lambda>new. cbind (mem_write64 (region_bytes (get_region vm (vm_active_region vm))) (eff_addr i a)
                        (rg_size (get_region vm (vm_active_region vm))) new)
          (\<lambda>d'. break_set (put_bytes vm (vm_active_region vm) d') (in_rd i) old)))))"
    by (rule keeps_if, rule plain_break, rule q, rule keeps_bind_any, rule keeps_bind_any,
        rule keeps_bind_any, rule w)
qed

lemma memset_keeps: "Q vm \<Longrightarrow> keeps (exec_memset i a b vm)"
  unfolding exec_memset_def Let_def by (intro keeps_bind_any keeps_if plain_break put_keeps)

lemma load_rm_keeps: "Q vm \<Longrightarrow> in_opcode i = OP_LOAD_RM \<Longrightarrow> keeps (exec_region_rm i a b vm)"
  by (simp add: exec_region_rm_def Let_def cong: if_cong)
     (intro impI conjI keeps_if keeps_bind_any set_break plain_break)

lemma memory_keeps:
  assumes "Q vm" "in_opcode i \<noteq> OP_STORE_RM" shows "keeps (exec_memory i a b vm)"
proof -
  have "in_opcode i = OP_LOAD_RM"
    if "in_opcode i \<le> OP_STORE_RM" "\<not> in_opcode i \<le> OP_ATOMIC_SUB" "in_opcode i \<noteq> OP_FENCE"
  proof -
    have "unat (in_opcode i) \<noteq> 0x5C" "unat (in_opcode i) \<noteq> 0x5E"
      using assms(2) that(3) by (auto simp: word_unat_eq_iff)
    then have "unat (in_opcode i) = 0x5D"
      using that(1,2) by (simp add: word_le_nat_alt)
    then show ?thesis by (simp add: word_unat_eq_iff)
  qed
  then have rm: "keeps (exec_region_rm i a b vm)"
    if "in_opcode i \<le> OP_STORE_RM" "\<not> in_opcode i \<le> OP_ATOMIC_SUB" "in_opcode i \<noteq> OP_FENCE"
    using that assms(1) by (intro load_rm_keeps) simp_all
  show ?thesis
    using access_keeps stack_access_keeps atomic_keeps memset_keeps rm assms(1)
    by (simp add: exec_memory_def Let_def)
qed

text \<open>The whole switch, for the instructions that manage no region and store into the active one.\<close>

lemma dispatch_keeps:
  assumes "Q vm"
    and "in_opcode i \<notin> {OP_STORE_RM, OP_REGION_CREATE, OP_REGION_DESTROY, OP_PROF_START}"
  shows "keeps (vm_dispatch fp ca i a b vm)"
  using assms(2) unfolding vm_dispatch_def Let_def
  by (intro keeps_if system_keeps arith_keeps logic_keeps compare_keeps branch_keeps memory_keeps
        stack_keeps call_keeps agent_keeps io_keeps flux_keeps native_keeps fail assms(1)) auto

end

subsection \<open>Every region\<close>

locale vm_frame_all = vm_frame_mem +
  assumes put: "Q vm \<Longrightarrow> Q (put_bytes vm rid bs)"
    and create: "Q vm \<Longrightarrow> Q (snd (flux_vm_region_create ca vm nm sz ro))"
    and destroy: "Q vm \<Longrightarrow> Q (snd (flux_vm_region_destroy vm rid))"
begin

lemma store_rm_keeps: "Q vm \<Longrightarrow> keeps (exec_region_rm i a b vm)"
  unfolding exec_region_rm_def Let_def
  by (intro keeps_if keeps_bind_any set_break call_cmapI plain_break) (simp_all add: put)

lemma regions_keep:
  assumes "Q vm" "in_opcode i \<in> {OP_REGION_CREATE, OP_REGION_DESTROY}"
  shows "keeps (exec_flux ca i a b vm)"
  using assms create [OF assms(1), of ca "Some ''dyn''" a False]
  by (auto simp: exec_flux_def Let_def split_def intro: set_break destroy)

lemma dispatch_keeps_all:
  assumes q: "Q vm" and op: "in_opcode i \<noteq> OP_PROF_START"
  shows "keeps (vm_dispatch fp ca i a b vm)"
proof (cases "in_opcode i \<in> {OP_STORE_RM, OP_REGION_CREATE, OP_REGION_DESTROY}")
  case True
  have "keeps (exec_memory i a b vm)" if "in_opcode i = OP_STORE_RM"
    using that store_rm_keeps [OF q] by (simp add: exec_memory_def Let_def)
  moreover have "vm_dispatch fp ca i a b vm =
      (if in_opcode i = OP_STORE_RM then exec_memory i a b vm else exec_flux ca i a b vm)"
    using True by (elim insertE emptyE) (simp_all add: vm_dispatch_def Let_def)
  ultimately show ?thesis
    using True regions_keep [OF q, of i ca a b] by (cases "in_opcode i = OP_STORE_RM") simp_all
next
  case False
  then show ?thesis using q op by (intro dispatch_keeps) auto
qed

end

end
