(* ===== verification/FluxRun.thy ===== *)
theory FluxRun
  imports FluxFrame
begin

section \<open>Isolation of regions and termination of the run loop\<close>

text \<open>
  The two interpretations of the frame locales and what they give: an instruction that does not
  manage regions changes bytes of the active region only; the program text never changes and the
  cycle counter advances by one per instruction, so a run with a cycle limit ends - unless the
  program resets the counter with PROF_START, in which case it need not.
\<close>

subsection \<open>The regions other than the active one\<close>




lemma put_bytes_frame [simp]:
  "vm_active_region (put_bytes vm rid bs) = vm_active_region vm"
  "k \<noteq> nat rid \<Longrightarrow> vm_regions (put_bytes vm rid bs) k = vm_regions vm k"
  by (simp_all add: put_bytes_def Let_def)



subsection \<open>The program and the cycle counter\<close>

definition same_program :: "flux_vm \<Rightarrow> flux_vm \<Rightarrow> bool" where
  "same_program vm vm' \<longleftrightarrow>
     vm_bytecode vm' = vm_bytecode vm \<and> vm_bytecode_len vm' = vm_bytecode_len vm \<and>
     vm_cycle_count vm' = vm_cycle_count vm"

lemma put_bytes_program [simp]:
  "vm_bytecode (put_bytes vm rid bs) = vm_bytecode vm"
  "vm_bytecode_len (put_bytes vm rid bs) = vm_bytecode_len vm"
  "vm_cycle_count (put_bytes vm rid bs) = vm_cycle_count vm"
  by (simp_all add: put_bytes_def Let_def set_region_def)

interpretation program: vm_frame_all "same_program vm" for vm
proof unfold_locales
  fix v ca nm sz ro rid
  assume q: "same_program vm v"
  then show "same_program vm (snd (flux_vm_region_create ca v nm sz ro))"
    by (simp add: same_program_def flux_vm_region_create_def Let_def set_region_def split: option.split)
  show "same_program vm (snd (flux_vm_region_destroy v rid))"
    using q by (simp add: same_program_def flux_vm_region_destroy_def Let_def set_region_def)
qed (simp_all add: same_program_def)

lemma dispatch_program:
  "vm_dispatch fp ca i a b vm = Val f \<Longrightarrow> in_opcode i \<noteq> OP_PROF_START \<Longrightarrow> same_program vm (flow_vm f)"
  using program.dispatch_keeps_all [of vm vm i fp ca a b] by (simp add: same_program_def)

text \<open>Only PROF_START touches the counter otherwise, so every successful step counts one cycle.\<close>

lemma trace_snapshot_frame:
  "trace_snapshot vm op = Val vm' \<Longrightarrow>
   vm_bytecode vm' = vm_bytecode vm \<and> vm_bytecode_len vm' = vm_bytecode_len vm \<and>
   vm_cycle_count vm' = vm_cycle_count vm"
  by (auto simp: trace_snapshot_def Let_def split: if_splits)

lemma execute_counts:
  assumes "execute_insn fp ca vm w = Val (st, vm')" "flux_decode_opcode w \<noteq> OP_PROF_START"
  shows "vm_bytecode vm' = vm_bytecode vm \<and> vm_bytecode_len vm' = vm_bytecode_len vm \<and>
         vm_cycle_count vm' = vm_cycle_count vm + 1"
proof -
  let ?i = "decode_insn w"
  obtain a b vm1 f where t: "trace_snapshot (count_insn vm (in_opcode ?i)) (in_opcode ?i) = Val vm1"
    and f: "vm_dispatch fp ca ?i a b (vm1\<lparr>vm_pc := vm_pc vm1 + 4\<rparr>) = Val f"
    and fin: "(st, vm') = finish_step f"
    using assms(1) by (auto simp: execute_insn_def Let_def cbind_Val_iff cmap_Val_iff)
  have "same_program (vm1\<lparr>vm_pc := vm_pc vm1 + 4\<rparr>) (flow_vm f)"
    using assms(2) by (intro dispatch_program [OF f]) simp
  then have "same_program (vm1\<lparr>vm_pc := vm_pc vm1 + 4\<rparr>) vm'"
    using program.finish [of _ f] fin by (metis snd_conv)
  then show ?thesis
    using trace_snapshot_frame [OF t] by (simp add: same_program_def count_insn_def)
qed

lemma fetch_opcode_in_program:
  assumes "fetch_instruction vm = Val w" "\<not> vm_bytecode_len vm < vm_pc vm + 4"
  shows "flux_decode_opcode w \<in> set (vm_bytecode vm)"
proof -
  obtain b0 b1 b2 b3 where b: "code_byte vm (vm_pc vm) = Val b0"
    and w: "w = push_bit 24 (ucast b0) OR push_bit 16 (ucast (b1 :: u8)) OR
                push_bit 8 (ucast (b2 :: u8)) OR ucast (b3 :: u8)"
    using assms by (auto simp: fetch_instruction_def Let_def cbind_Val_iff split: if_splits)
  have "flux_decode_opcode w = b0"
    unfolding w using decode_opcode_encode_a [of b0 b1 b2 b3]
    by (simp add: flux_encode_a_def)
  then show ?thesis using b by (auto simp: code_byte_def in_set_conv_nth split: if_splits)
qed

lemma step_counts:
  assumes "flux_vm_step fp ca vm = Val (FLUX_OK, vm')" "OP_PROF_START \<notin> set (vm_bytecode vm)"
  shows "vm_bytecode vm' = vm_bytecode vm \<and> vm_cycle_count vm' = vm_cycle_count vm + 1"
proof -
  obtain w where w: "fetch_instruction (vm\<lparr>vm_state := VM_RUNNING\<rparr>) = Val w"
      "\<not> vm_bytecode_len vm < vm_pc vm + 4"
      "execute_insn fp ca (vm\<lparr>vm_state := VM_RUNNING\<rparr>) w = Val (FLUX_OK, vm')"
    using assms(1) by (auto simp: flux_vm_step_def Let_def cbind_Val_iff split: if_splits)
  then have "flux_decode_opcode w \<noteq> OP_PROF_START"
    using fetch_opcode_in_program [of "vm\<lparr>vm_state := VM_RUNNING\<rparr>" w] assms(2) by auto
  then show ?thesis using execute_counts [OF w(3)] by simp
qed


subsection \<open>Termination of the run loop\<close>

lemma run_loop_total:
  assumes "OP_PROF_START \<notin> set (vm_bytecode vm)" "0 < mc" "unat mc - unat (vm_cycle_count vm) < fuel"
  shows "run_loop fp env mc fuel n vm \<noteq> None"
  using assms
proof (induction fuel arbitrary: n vm)
  case 0
  then show ?case by simp
next
  case (Suc fuel)
  show ?case
  proof (cases "vm_cycle_count vm < mc \<and> vm_state vm = VM_RUNNING")
    case False
    then show ?thesis using Suc.prems(2) by (auto simp: not_less)
  next
    case True
    have "run_loop fp env mc fuel (Suc n) vm1 \<noteq> None"
      if s: "flux_vm_step fp (env n) vm = Val (FLUX_OK, vm1)" for vm1
    proof -
      have c: "vm_bytecode vm1 = vm_bytecode vm" "vm_cycle_count vm1 = vm_cycle_count vm + 1"
        using step_counts [OF s Suc.prems(1)] by auto
      have lt: "unat (vm_cycle_count vm) < unat mc" using True by (simp add: word_less_nat_alt)
      have "unat (vm_cycle_count vm + 1) = Suc (unat (vm_cycle_count vm))"
        using lt unsigned_less [of mc, where ?'a = nat] by (simp add: unat_word_ariths)
      then show ?thesis using Suc.IH [of vm1 "Suc n"] Suc.prems c lt by simp
    qed
    then show ?thesis
      using True by (auto simp: not_le [symmetric] split: cres.split prod.split)
  qed
qed

text \<open>C35. A run with a cycle limit ends, within one loop iteration more than the limit, for every
  program in which no byte is the opcode PROF_START (any byte can become an opcode, since jump
  targets need not be aligned): the counter then grows by one with every executed instruction.\<close>

theorem run_terminates:
  assumes "OP_PROF_START \<notin> set (vm_bytecode vm)" "0 < mc" "unat mc < fuel"
  shows "\<exists>r. flux_vm_run fp env fuel vm mc = Some r"
  using run_loop_total [of "vm\<lparr>vm_state := VM_RUNNING\<rparr>" mc fuel fp env 0] assms
  by (auto simp: flux_vm_run_def)

theorem run_terminates_witness:
  "\<exists>r. flux_vm_run word_fpu (\<lambda>_ _. None) 101 (booted [0x40, 0, 0, 0]) 100 = Some r"
  by (rule run_terminates) code_simp+







end
