(* ===== verification/FluxCells.thy ===== *)
theory FluxCells
  imports FluxRun
begin

section \<open>Big-endian cells in region memory\<close>

text \<open>
  The four accessor pairs of vm/vm.c, \<open>mem_read64\<close>/\<open>mem_write64\<close> down to 8 bits, share one contract,
  the locale \<open>be_cell\<close>: inside the buffer a write splices the encoding of the value in and a read
  decodes the slice; outside it, without wrap-around, a write does nothing and a read yields zero.
  Round trip and frame follow once, in the locale, and are interpreted at the four widths. When
  \<open>offset + width\<close> wraps, the bounds test passes and the access leaves the buffer.
\<close>

definition slice :: "u8 list \<Rightarrow> nat \<Rightarrow> nat \<Rightarrow> u8 list" where
  "slice d k n = take n (drop k d)"

definition splice :: "u8 list \<Rightarrow> nat \<Rightarrow> u8 list \<Rightarrow> u8 list" where
  "splice d k xs = take k d @ xs @ drop (k + length xs) d"

lemma splice_length [simp]: "k + length xs \<le> length d \<Longrightarrow> length (splice d k xs) = length d"
  by (simp add: splice_def)

lemma slice_splice: "k + length xs \<le> length d \<Longrightarrow> slice (splice d k xs) k (length xs) = xs"
  by (simp add: slice_def splice_def)

lemma nth_splice:
  "k + length xs \<le> length d \<Longrightarrow> i < length d \<Longrightarrow>
   splice d k xs ! i = (if k \<le> i \<and> i < k + length xs then xs ! (i - k) else d ! i)"
  by (auto simp: splice_def nth_append min_def)

lemma splice_snoc:
  "k + length xs < length d \<Longrightarrow>
   splice (d[k + length xs := x]) k xs = splice d k (xs @ [x])"
  by (intro nth_equalityI) (auto simp: nth_splice nth_append nth_list_update)

text \<open>Writing \<open>v\<close> at \<open>off\<close>, inside the buffer: it is read back, and the other bytes stay.\<close>

definition kept_cell ::
    "(u8 list \<Rightarrow> u64 \<Rightarrow> u64 \<Rightarrow> 'l::len word cres) \<Rightarrow>
     (u8 list \<Rightarrow> u64 \<Rightarrow> u64 \<Rightarrow> 'l word \<Rightarrow> u8 list cres) \<Rightarrow>
     nat \<Rightarrow> u8 list \<Rightarrow> u64 \<Rightarrow> u64 \<Rightarrow> 'l word \<Rightarrow> bool" where
  "kept_cell rd wr n d off sz v \<longleftrightarrow>
     (in_range off n sz \<longrightarrow>
        (\<exists>d'. wr d off sz v = Val d' \<and> length d' = length d \<and> rd d' off sz = Val v \<and>
           (\<forall>i < length d. i \<notin> {unat off ..< unat off + n} \<longrightarrow> d' ! i = d ! i)))"

subsection \<open>The contract\<close>

locale be_cell =
  fixes width :: nat
    and enc :: "'l::len word \<Rightarrow> u8 list"
    and dec :: "u8 list \<Rightarrow> 'l word"
    and rd :: "u8 list \<Rightarrow> u64 \<Rightarrow> u64 \<Rightarrow> 'l word cres"
    and wr :: "u8 list \<Rightarrow> u64 \<Rightarrow> u64 \<Rightarrow> 'l word \<Rightarrow> u8 list cres"
  assumes enc_length: "length (enc v) = width"
    and dec_enc: "dec (enc v) = v"
    and read_in: "in_range off width sz \<Longrightarrow> length d = unat sz \<Longrightarrow>
      rd d off sz = Val (dec (slice d (unat off) width))"
    and write_in: "in_range off width sz \<Longrightarrow> length d = unat sz \<Longrightarrow>
      wr d off sz v = Val (splice d (unat off) (enc v))"
    and read_out: "\<not> in_range off width sz \<Longrightarrow> unat off + width < 2 ^ 64 \<Longrightarrow> rd d off sz = Val 0"
    and write_out: "\<not> in_range off width sz \<Longrightarrow> unat off + width < 2 ^ 64 \<Longrightarrow> wr d off sz v = Val d"
begin

text \<open>What was written is read back; every other byte stays.\<close>

lemma write_read:
  assumes "in_range off width sz" "length d = unat sz"
  shows "\<exists>d'. wr d off sz v = Val d' \<and> length d' = length d \<and> rd d' off sz = Val v \<and>
           (\<forall>i < length d. \<not> (unat off \<le> i \<and> i < unat off + width) \<longrightarrow> d' ! i = d ! i)"
proof -
  have k: "unat off + length (enc v) \<le> length d" using assms by (simp add: in_range_def enc_length)
  let ?d = "splice d (unat off) (enc v)"
  have "rd ?d off sz = Val (dec (slice ?d (unat off) width))"
    using assms k by (intro read_in) simp_all
  also have "slice ?d (unat off) width = enc v" using slice_splice [OF k] by (simp add: enc_length)
  finally show ?thesis
    using write_in [OF assms, of v] k by (auto simp: dec_enc nth_splice enc_length)
qed

lemma kept:
  assumes "length d = unat sz" shows "kept_cell rd wr width d off sz v"
  using write_read [OF _ assms, of off v] by (auto simp: kept_cell_def)

text \<open>Reads of disjoint cells do not see the write.\<close>

lemma write_read_disjoint:
  assumes "in_range off width sz" "in_range off2 width sz" "length d = unat sz"
    and "unat off + width \<le> unat off2 \<or> unat off2 + width \<le> unat off"
    and "wr d off sz v = Val d'"
  shows "rd d' off2 sz = rd d off2 sz"
proof -
  have k: "unat off + length (enc v) \<le> length d" using assms by (simp add: in_range_def enc_length)
  have d': "d' = splice d (unat off) (enc v)" using write_in [OF assms(1,3), of v] assms(5) by simp
  have "slice d' (unat off2) width = slice d (unat off2) width"
    using assms(2,3,4) k unfolding d' slice_def
    by (intro nth_equalityI) (auto simp: in_range_def nth_splice enc_length)
  then show ?thesis
    using assms(2,3) k by (simp add: read_in d')
qed

lemma defined_no_wrap:
  assumes "length d = unat sz" "unat off + width < 2 ^ 64"
  shows "defined (rd d off sz)" "defined (wr d off sz v)"
  using read_in [of off sz d] write_in [of off sz d v] read_out [of off sz d]
    write_out [of off sz d v] assms
  by (cases "in_range off width sz"; simp)+

end

subsection \<open>64 bits: the loops\<close>

fun be_bytes :: "nat \<Rightarrow> u64 \<Rightarrow> u8 list" where
  "be_bytes 0 v = []"
| "be_bytes (Suc n) v = be_bytes n (signed_drop_bit 8 v) @ [ucast (v AND 0xFF)]"

definition be_value :: "u64 \<Rightarrow> u8 list \<Rightarrow> u64" where
  "be_value = foldl (\<lambda>val b. push_bit 8 val OR ucast b)"

lemma be_bytes_length [simp]: "length (be_bytes n v) = n"
  by (induction n arbitrary: v) auto

lemma mask_u64: "(0xFF :: u64) = mask 8"
  by (simp add: mask_eq_exp_minus_1)

lemma be_value_bytes:
  "8 * n \<le> 64 \<Longrightarrow> be_value acc (be_bytes n v) = push_bit (8 * n) acc OR (v AND mask (8 * n))"
proof (induction n arbitrary: v)
  case 0
  then show ?case by (simp add: be_value_def)
next
  case (Suc n)
  then have "be_value acc (be_bytes (Suc n) v) =
      push_bit 8 (push_bit (8 * n) acc OR (signed_drop_bit 8 v AND mask (8 * n))) OR
      ucast (ucast (v AND 0xFF) :: u8)"
    by (simp add: be_value_def)
  also have "\<dots> = push_bit (8 * Suc n) acc OR (v AND mask (8 * Suc n))"
    unfolding mask_u64
  proof (rule bit_word_eqI)
    fix i assume "i < LENGTH(64)"
    then show "bit (push_bit 8 (push_bit (8 * n) acc OR (signed_drop_bit 8 v AND mask (8 * n))) OR
                 ucast (ucast (v AND mask 8) :: u8)) i =
               bit (push_bit (8 * Suc n) acc OR (v AND mask (8 * Suc n))) i"
      using Suc.prems by (cases "i < 8") (auto simp: bit_simps)
  qed
  finally show ?case .
qed

lemma read_be_slice:
  "unat off + n \<le> length d \<Longrightarrow> length d < 2 ^ 64 \<Longrightarrow>
   read_be n d off acc = Val (be_value acc (slice d (unat off) n))"
proof (induction n arbitrary: off acc)
  case 0
  then show ?case by (simp add: be_value_def slice_def)
next
  case (Suc n)
  then have "unat (off + 1) = Suc (unat off)" by (simp add: unat_word_ariths)
  then show ?case
    using Suc by (simp add: rd_byte_def be_value_def slice_def Cons_nth_drop_Suc [symmetric])
qed

lemma write_be_splice:
  "unat off + n \<le> length d \<Longrightarrow> length d < 2 ^ 64 \<Longrightarrow>
   write_be n d off v = Val (splice d (unat off) (be_bytes n v))"
proof (induction n arbitrary: d v)
  case 0
  then show ?case by (simp add: splice_def)
next
  case (Suc n)
  then have "unat (off + of_nat n) = unat off + n"
    by (simp add: unat_word_ariths unat_of_nat)
  then show ?case
    using Suc splice_snoc [of "unat off" "be_bytes n (signed_drop_bit 8 v)" d "ucast (v AND 0xFF)"]
    by (simp add: wr_byte_def)
qed

lemma in_range_iff:
  "k < 2 ^ 64 \<Longrightarrow> unat off + k < 2 ^ 64 \<Longrightarrow> in_range off k sz \<longleftrightarrow> \<not> sz < off + of_nat k"
  by (simp add: in_range_def word_less_nat_alt unat_word_ariths unat_of_nat not_less)

lemma in_range_le: "in_range off k sz \<Longrightarrow> k < 2 ^ 64 \<Longrightarrow> \<not> sz < off + of_nat k"
  using in_range_no_wrap [of off k sz k] by (simp add: in_range_def word_less_nat_alt not_less)

interpretation cell64: be_cell 8 "be_bytes 8" "be_value 0" mem_read64 mem_write64
proof
  fix off sz :: u64 and d :: "u8 list" and v :: u64
  have len: "length d < 2 ^ 64" if "length d = unat sz" 
    using that unsigned_less [of sz, where ?'a = nat] by simp
  show "length (be_bytes 8 v) = 8" by simp
  show "be_value 0 (be_bytes 8 v) = v"
    by (simp add: be_value_bytes) (rule bit_word_eqI, simp add: bit_simps)
  show "mem_read64 d off sz = Val (be_value 0 (slice d (unat off) 8))"
    if "in_range off 8 sz" "length d = unat sz"
    using that in_range_le [OF that(1)] len
    by (simp add: mem_read64_def read_be_slice in_range_def)
  show "mem_write64 d off sz v = Val (splice d (unat off) (be_bytes 8 v))"
    if "in_range off 8 sz" "length d = unat sz"
    using that in_range_le [OF that(1)] len
    by (simp add: mem_write64_def write_be_splice in_range_def)
  show "mem_read64 d off sz = Val 0" "mem_write64 d off sz v = Val d"
    if "\<not> in_range off 8 sz" "unat off + 8 < 2 ^ 64"
    using that in_range_iff [of 8 off sz] by (simp_all add: mem_read64_def mem_write64_def)
qed

subsection \<open>32, 16 and 8 bits\<close>

definition enc32 :: "u32 \<Rightarrow> u8 list" where
  "enc32 v = [ucast (signed_drop_bit 24 v AND 0xFF), ucast (signed_drop_bit 16 v AND 0xFF),
              ucast (signed_drop_bit 8 v AND 0xFF), ucast (v AND 0xFF)]"

definition dec32 :: "u8 list \<Rightarrow> u32" where
  "dec32 bs = push_bit 24 (ucast (bs ! 0)) OR push_bit 16 (ucast (bs ! 1)) OR
              push_bit 8 (ucast (bs ! 2)) OR ucast (bs ! 3)"

definition enc16 :: "u16 \<Rightarrow> u8 list" where
  "enc16 v = [ucast (signed_drop_bit 8 v AND 0xFF), ucast (v AND 0xFF)]"

definition dec16 :: "u8 list \<Rightarrow> u16" where
  "dec16 bs = push_bit 8 (ucast (bs ! 0)) OR ucast (bs ! 1)"

lemma mask_u16: "(0xFF :: u16) = mask 8"
  by (simp add: mask_eq_exp_minus_1)

lemma bit_byte32:
  "k + 8 \<le> 32 \<Longrightarrow>
   bit (ucast (signed_drop_bit k (v :: u32) AND mask 8) :: u8) m \<longleftrightarrow> m < 8 \<and> bit v (k + m)"
  by (auto simp: bit_simps)

lemma bit_byte16:
  "k + 8 \<le> 16 \<Longrightarrow>
   bit (ucast (signed_drop_bit k (v :: u16) AND mask 8) :: u8) m \<longleftrightarrow> m < 8 \<and> bit v (k + m)"
  by (auto simp: bit_simps)

lemma dec_enc32: "dec32 (enc32 v) = v"
proof (rule bit_word_eqI)
  fix n assume n: "n < LENGTH(32)"
  have b: "bit (dec32 (enc32 v)) n \<longleftrightarrow>
      (24 \<le> n \<and> n - 24 < 32 \<and> n - 24 < 8 \<and> bit v (24 + (n - 24))) \<or> (16 \<le> n \<and> n - 16 < 32 \<and> n - 16 < 8 \<and> bit v (16 + (n - 16))) \<or>
      (8 \<le> n \<and> n - 8 < 32 \<and> n - 8 < 8 \<and> bit v (8 + (n - 8))) \<or> (n < 8 \<and> bit v n)"
    using n bit_byte32 [of 24 v] bit_byte32 [of 16 v] bit_byte32 [of 8 v] bit_byte32 [of 0 v]
    by (simp add: dec32_def enc32_def mask_u32 bit_or_iff bit_push_bit_iff bit_ucast_iff)
  consider "n < 8" | "8 \<le> n" "n < 16" | "16 \<le> n" "n < 24" | "24 \<le> n" "n < 32"
    using n by (simp add: not_less [symmetric]) blast
  then show "bit (dec32 (enc32 v)) n = bit v n" unfolding b by cases (simp_all add: less_diff_conv2)
qed

lemma dec_enc16: "dec16 (enc16 v) = v"
proof (rule bit_word_eqI)
  fix n assume n: "n < LENGTH(16)"
  have b: "bit (dec16 (enc16 v)) n \<longleftrightarrow>
      (8 \<le> n \<and> n - 8 < 16 \<and> n - 8 < 8 \<and> bit v (8 + (n - 8))) \<or> (n < 8 \<and> bit v n)"
    using n bit_byte16 [of 8 v] bit_byte16 [of 0 v]
    by (simp add: dec16_def enc16_def mask_u16 bit_or_iff bit_push_bit_iff bit_ucast_iff)
  then show "bit (dec16 (enc16 v)) n = bit v n" using n by auto
qed

text \<open>Byte accesses at a constant distance inside the range.\<close>

lemma in_range_rd_byte:
  assumes "in_range off n sz" "length d = unat sz" "k < n"
  shows "rd_byte d (off + of_nat k) = Val (slice d (unat off) n ! k)"
proof -
  have "unat (off + of_nat k) = unat off + k"
    using in_range_no_wrap [OF assms(1), of k] assms(3) by simp
  then show ?thesis
    using assms by (simp add: rd_byte_def slice_def in_range_def)
qed

lemma in_range_wr_byte:
  assumes "in_range off n sz" "length d = unat sz" "k < n"
  shows "wr_byte d (off + of_nat k) b = Val (d[unat off + k := b])"
proof -
  have "unat (off + of_nat k) = unat off + k"
    using in_range_no_wrap [OF assms(1), of k] assms(3) by simp
  then show ?thesis
    using assms by (simp add: wr_byte_def in_range_def)
qed

lemma splice_nil: "splice d k [] = d"
  by (simp add: splice_def)

lemma splice_upd:
  "k + length xs \<le> length d \<Longrightarrow> k + length xs < length d \<Longrightarrow>
   (splice d k xs)[k + length xs := x] = splice d k (xs @ [x])"
  by (intro nth_equalityI) (auto simp: nth_splice nth_append nth_list_update)

lemma splice_updates:
  "k + 2 \<le> length d \<Longrightarrow> d[k := a, Suc k := b] = splice d k [a, b]"
  "k + 4 \<le> length d \<Longrightarrow> d[k := a, Suc k := b, Suc (Suc k) := c, k + 3 := e] = splice d k [a, b, c, e]"
  by (intro nth_equalityI; auto simp: nth_splice nth_list_update nth_Cons' numeral_eq_Suc)+

interpretation cell32: be_cell 4 enc32 dec32 mem_read32 mem_write32
proof
  fix off sz :: u64 and d :: "u8 list" and v :: u32
  show "length (enc32 v) = 4" by (simp add: enc32_def)
  show "dec32 (enc32 v) = v" by (rule dec_enc32)
  show "mem_read32 d off sz = Val (dec32 (slice d (unat off) 4))"
    if r: "in_range off 4 sz" "length d = unat sz"
    using in_range_rd_byte [OF r, of 0] in_range_rd_byte [OF r, of 1] in_range_rd_byte [OF r, of 2]
      in_range_rd_byte [OF r, of 3] in_range_le [OF r(1)]
    by (simp add: mem_read32_def dec32_def)
  show "mem_write32 d off sz v = Val (splice d (unat off) (enc32 v))"
    if r: "in_range off 4 sz" "length d = unat sz"
  proof -
    have n: "unat off + 4 \<le> length d" using r by (simp add: in_range_def)
    show ?thesis
      using in_range_wr_byte [OF r(1), of _ 0] in_range_wr_byte [OF r(1), of _ 1]
        in_range_wr_byte [OF r(1), of _ 2] in_range_wr_byte [OF r(1), of _ 3] in_range_le [OF r(1)] r(2)
      by (simp add: mem_write32_def enc32_def splice_updates(2) [OF n, symmetric])
  qed
  show "mem_read32 d off sz = Val 0" "mem_write32 d off sz v = Val d"
    if "\<not> in_range off 4 sz" "unat off + 4 < 2 ^ 64"
    using that in_range_iff [of 4 off sz] by (simp_all add: mem_read32_def mem_write32_def)
qed

interpretation cell16: be_cell 2 enc16 dec16 mem_read16 mem_write16
proof
  fix off sz :: u64 and d :: "u8 list" and v :: u16
  show "length (enc16 v) = 2" by (simp add: enc16_def)
  show "dec16 (enc16 v) = v" by (rule dec_enc16)
  show "mem_read16 d off sz = Val (dec16 (slice d (unat off) 2))"
    if r: "in_range off 2 sz" "length d = unat sz"
    using in_range_rd_byte [OF r, of 0] in_range_rd_byte [OF r, of 1] in_range_le [OF r(1)]
    by (simp add: mem_read16_def dec16_def)
  show "mem_write16 d off sz v = Val (splice d (unat off) (enc16 v))"
    if r: "in_range off 2 sz" "length d = unat sz"
  proof -
    have n: "unat off + 2 \<le> length d" using r by (simp add: in_range_def)
    show ?thesis
      using in_range_wr_byte [OF r(1), of _ 0] in_range_wr_byte [OF r(1), of _ 1] in_range_le [OF r(1)] r(2)
      by (simp add: mem_write16_def enc16_def splice_updates(1) [OF n, symmetric])
  qed
  show "mem_read16 d off sz = Val 0" "mem_write16 d off sz v = Val d"
    if "\<not> in_range off 2 sz" "unat off + 2 < 2 ^ 64"
    using that in_range_iff [of 2 off sz] by (simp_all add: mem_read16_def mem_write16_def)
qed

interpretation cell8: be_cell 1 "\<lambda>v. [v]" hd mem_read8 mem_write8
proof
  fix off sz :: u64 and d :: "u8 list" and v :: u8
  show "length [v] = 1" "hd [v] = v" by simp_all
  show "mem_read8 d off sz = Val (hd (slice d (unat off) 1))"
    if r: "in_range off 1 sz" "length d = unat sz"
    using in_range_rd_byte [OF r, of 0] r
    by (simp add: mem_read8_def in_range_def word_le_nat_alt slice_def take_Suc hd_drop_conv_nth)
  show "mem_write8 d off sz v = Val (splice d (unat off) [v])"
    if r: "in_range off 1 sz" "length d = unat sz"
    using in_range_wr_byte [OF r, of 0] splice_upd [of "unat off" "[]" d v] r
    by (simp add: mem_write8_def in_range_def word_le_nat_alt splice_nil)
  show "mem_read8 d off sz = Val 0" "mem_write8 d off sz v = Val d"
    if "\<not> in_range off 1 sz" "unat off + 1 < 2 ^ 64"
    using that by (simp_all add: mem_read8_def mem_write8_def in_range_def word_le_nat_alt)
qed

end
