(* ===== verification/FluxMemory.thy ===== *)
theory FluxMemory
  imports FluxCells
begin

section \<open>Properties of the memory instructions and of the region interface\<close>

text \<open>
  The accessors' round trip and frame at every width; LOAD and STORE on the active region, inside
  it, outside it, and where the address wraps; and the bulk operations of vm/region.c: what create,
  write, read, copy and fill return and which bytes they change.
\<close>

text \<open>The big-endian accessors of region memory, at 64, 32, 16 and 8 bits: a write inside the
  region is read back as written and changes no byte outside its own cell.\<close>

theorem mem_write_read:
  assumes "length d = unat sz"
  shows "kept_cell mem_read64 mem_write64 8 d off sz v64 \<and> kept_cell mem_read32 mem_write32 4 d off sz v32 \<and>
         kept_cell mem_read16 mem_write16 2 d off sz v16 \<and> kept_cell mem_read8 mem_write8 1 d off sz v8"
  using cell64.kept [OF assms] cell32.kept [OF assms] cell16.kept [OF assms] cell8.kept [OF assms]
  by blast

theorem mem_write_read_witness:
  "\<exists>d'. mem_write64 (replicate 16 0) 3 16 0xDEADBEEF01020304 = Val d' \<and>
        mem_read64 d' 3 16 = Val 0xDEADBEEF01020304"
proof -
  have "length (replicate 16 0 :: u8 list) = unat (16 :: u64)" "in_range 3 8 16" by code_simp+
  then show ?thesis
    using mem_write_read [of "replicate 16 0" 16 3 "0xDEADBEEF01020304" 0 0 0]
    by (auto simp: kept_cell_def)
qed

subsection \<open>LOAD and STORE on the active region\<close>

definition active_reg :: "flux_vm \<Rightarrow> flux_vm_region" where
  "active_reg vm = get_region vm (vm_active_region vm)"

lemma active_bytes_length:
  assumes "vm_inv vm" "region_live vm"
  shows "length (region_bytes (active_reg vm)) = unat (rg_size (active_reg vm))"
proof -
  have "region_ok (active_reg vm)"
    using assms(1) by (simp add: vm_inv_def active_reg_def get_region_def regions_okD)
  then show ?thesis
    using assms(2) by (auto simp: region_ok_def region_live_def active_reg_def region_bytes_def)
qed

lemma region_live_entered [simp]: "region_live (entered vm w) = region_live vm"
  by (simp add: region_live_def get_region_def)

lemma active_reg_entered [simp]: "active_reg (entered vm w) = active_reg vm"
  by (simp add: active_reg_def get_region_def)

lemma eff_addr_insn [simp]: "eff_addr (decode_insn w) v = v + scast (flux_decode_rs2 w)"
  by (simp add: eff_addr_def)

lemma memory_step:
  assumes "vm_inv vm" "fetches vm w" "regs_ok w" "region_live vm"
    and "OP_LOAD \<le> flux_decode_opcode w" "flux_decode_opcode w \<le> OP_LEA"
  shows "flux_vm_step fp ca vm = cmap finish_step
     (exec_region_access (decode_insn w)
        (vm_regs vm (unat (flux_decode_rs1 w)) + scast (flux_decode_rs2 w)) (entered vm w))"
proof -
  have "flux_decode_opcode w < 0x60" using assms(6) by (simp add: word_le_nat_alt word_less_nat_alt)
  then show ?thesis
    using assms by (simp add: step_regs_ok dispatch_ranges exec_memory_def Let_def)
qed

text \<open>LOAD from the active region: an address inside it (the register plus the signed one-byte
  displacement) yields the big-endian 64-bit value stored there, an address outside it yields zero
  without any fault, as long as the address is at least 8 below the end of the address space.\<close>

theorem load_step:
  assumes "vm_inv vm" "fetches vm w" "regs_ok w" "region_live vm"
    and "flux_decode_opcode w = OP_LOAD" "flux_decode_rd w \<noteq> 0"
    and "ea = vm_regs vm (unat (flux_decode_rs1 w)) + scast (flux_decode_rs2 w)"
    and "unat ea + 8 < 2 ^ 64"
  shows "\<exists>vm'. flux_vm_step fp ca vm = Val (FLUX_OK, vm') \<and> vm_regions vm' = vm_regions vm \<and>
     vm_regs vm' = (vm_regs vm)
       (unat (flux_decode_rd w) :=
          (if in_range ea 8 (rg_size (active_reg vm))
           then be_value 0 (slice (region_bytes (active_reg vm)) (unat ea) 8) else 0),
        FLUX_REG_CYCLE_COUNT := vm_cycle_count vm + 1)"
proof -
  let ?reg = "active_reg vm"
  have len: "length (region_bytes ?reg) = unat (rg_size ?reg)"
    using assms(1,4) by (rule active_bytes_length)
  have rd: "flux_decode_rd w < 64" using assms(3) by (simp add: regs_ok_def)
  have r: "mem_read64 (region_bytes ?reg) ea (rg_size ?reg) =
      Val (if in_range ea 8 (rg_size ?reg) then be_value 0 (slice (region_bytes ?reg) (unat ea) 8) else 0)"
    using cell64.read_in [OF _ len] cell64.read_out [OF _ assms(8)] by simp
  have "flux_vm_step fp ca vm = cmap finish_step (exec_region_access (decode_insn w) ea (entered vm w))"
    using assms by (simp add: memory_step)
  then show ?thesis
    using r assms(5,6) active_reg_entered [of vm w]
    by (simp add: exec_region_access_def Let_def active_reg_def finish_break_set [OF rd])
qed


text \<open>A booted instance with one region, for the examples.\<close>

definition with_region :: "u8 list \<Rightarrow> u64 \<Rightarrow> bool \<Rightarrow> flux_vm" where
  "with_region bs sz ro = snd (flux_vm_region_create (\<lambda>_. Some 4096) (booted bs) (Some ''data'') sz ro)"

lemma with_region_inv: "length bs < 2 ^ 64 \<Longrightarrow> vm_inv (with_region bs sz ro)"
  unfolding with_region_def by (intro region_create_inv booted_inv)

theorem load_step_witness:
  "\<exists>vm'. flux_vm_step word_fpu (\<lambda>_. None) (with_region [0x50, 7, 0, 8] 16 False) = Val (FLUX_OK, vm') \<and>
         vm_regs vm' 7 = 0"
proof -
  let ?vm = "with_region [0x50, 7, 0, 8] 16 False"
  have i: "vm_inv ?vm" by (rule with_region_inv) simp
  have w: "fetches ?vm 0x50070008" "regs_ok 0x50070008" "region_live ?vm"
    "flux_decode_opcode 0x50070008 = OP_LOAD" "flux_decode_rd 0x50070008 \<noteq> 0" by code_simp+
  have e: "8 = vm_regs ?vm (unat (flux_decode_rs1 0x50070008)) + scast (flux_decode_rs2 0x50070008)"
    by code_simp
  have u: "unat (8 :: u64) + 8 < 2 ^ 64" by simp
  have z: "be_value 0 (slice (region_bytes (active_reg ?vm)) 8 8) = 0"
    "unat (flux_decode_rd 0x50070008) = 7" by code_simp+
  show ?thesis
    using load_step [OF i w e u, of word_fpu "\<lambda>_. None"] by (auto simp: z)
qed


text \<open>STORE into the active region replaces exactly the addressed 8 bytes by the register in
  big-endian order when the address is inside it, does nothing when it is outside, and changes no
  register but the cycle counter. It does so for a read-only region too: the flag is not
  consulted.\<close>

theorem store_step:
  assumes "vm_inv vm" "fetches vm w" "regs_ok w" "region_live vm"
    and "flux_decode_opcode w = OP_STORE"
    and "ea = vm_regs vm (unat (flux_decode_rs1 w)) + scast (flux_decode_rs2 w)"
    and "unat ea + 8 < 2 ^ 64"
  shows "\<exists>vm'. flux_vm_step fp ca vm = Val (FLUX_OK, vm') \<and>
     vm_regs vm' = (vm_regs vm)(FLUX_REG_CYCLE_COUNT := vm_cycle_count vm + 1) \<and>
     region_bytes (active_reg vm') =
       (if in_range ea 8 (rg_size (active_reg vm))
        then splice (region_bytes (active_reg vm)) (unat ea)
               (be_bytes 8 (vm_regs vm (unat (flux_decode_rd w))))
        else region_bytes (active_reg vm))"
proof -
  let ?reg = "active_reg vm" and ?v = "vm_regs vm (unat (flux_decode_rd w))"
  have len: "length (region_bytes ?reg) = unat (rg_size ?reg)"
    using assms(1,4) by (rule active_bytes_length)
  have rd: "flux_vm_get_reg vm (flux_decode_rd w) = Val ?v"
    using assms(1,3) by (simp add: get_reg_Val regs_ok_def vm_inv_def)
  let ?d = "if in_range ea 8 (rg_size ?reg) then splice (region_bytes ?reg) (unat ea) (be_bytes 8 ?v)
            else region_bytes ?reg"
  have r: "mem_write64 (region_bytes ?reg) ea (rg_size ?reg) ?v = Val ?d"
    using cell64.write_in [OF _ len] cell64.write_out [OF _ assms(7)] by simp
  have data: "rg_data ?reg \<noteq> None"
    using assms(1,4) regions_okD [of vm "nat (vm_active_region vm)"]
    by (auto simp: vm_inv_def region_ok_def region_live_def active_reg_def get_region_def)
  have put: "region_bytes (active_reg (set_special (put_bytes (entered vm w) (vm_active_region vm) bs) k v)) = bs"
    for bs k v
    using data by (auto simp: active_reg_def get_region_def put_bytes_def Let_def region_bytes_def)
  have "flux_vm_step fp ca vm = cmap finish_step (exec_region_access (decode_insn w) ea (entered vm w))"
    using assms by (simp add: memory_step)
  also have "\<dots> = Val (FLUX_OK, set_special (put_bytes (entered vm w) (vm_active_region vm) ?d)
                                FLUX_REG_CYCLE_COUNT (vm_cycle_count vm + 1))"
    using r rd assms(5) active_reg_entered [of vm w]
    by (simp add: exec_region_access_def Let_def active_reg_def finish_simps)
  finally show ?thesis
    using put by (simp add: put_bytes_def Let_def)
qed

theorem store_step_witness:
  "\<exists>vm'. flux_vm_step word_fpu (\<lambda>_. None) (with_region [0x54, 2, 0, 4] 16 True) = Val (FLUX_OK, vm') \<and>
         rg_readonly (active_reg (with_region [0x54, 2, 0, 4] 16 True)) \<and>
         region_bytes (active_reg vm') = [0, 0, 0, 0, 0, 0, 0, 0, 0, 1, 0, 0, 0, 0, 0, 0]"
proof -
  let ?vm = "with_region [0x54, 2, 0, 4] 16 True"
  have i: "vm_inv ?vm" by (rule with_region_inv) simp
  have w: "fetches ?vm 0x54020004" "regs_ok 0x54020004" "region_live ?vm"
    "flux_decode_opcode 0x54020004 = OP_STORE" by code_simp+
  have e: "4 = vm_regs ?vm (unat (flux_decode_rs1 0x54020004)) + scast (flux_decode_rs2 0x54020004)"
    by code_simp
  have u: "unat (4 :: u64) + 8 < 2 ^ 64" by simp
  have z: "(if in_range 4 8 (rg_size (active_reg ?vm))
        then splice (region_bytes (active_reg ?vm)) (unat (4 :: u64))
               (be_bytes 8 (vm_regs ?vm (unat (flux_decode_rd 0x54020004))))
        else region_bytes (active_reg ?vm)) = [0, 0, 0, 0, 0, 0, 0, 0, 0, 1, 0, 0, 0, 0, 0, 0]"
    "rg_readonly (active_reg ?vm)" by code_simp+
  show ?thesis
    using store_step [OF i w e u, of word_fpu "\<lambda>_. None"] z by auto
qed

subsection \<open>The region interface\<close>

lemma buffer_of:
  assumes "regions_ok vm" "validate_region_id vm rid"
  obtains b where "rg_data (get_region vm rid) = Some b"
    "length (buf_bytes b) = unat (rg_size (get_region vm rid))"
  using assms regions_okD [of vm "nat rid"]
  by (auto simp: region_ok_def validate_region_id_iff get_region_def)

text \<open>A successful region creation yields a valid fresh id (never one in use), a buffer of the
  requested size (256 for a request of 0) filled with zeros, the name cut to 31 characters, and
  leaves every other region as it was; it makes the new region the active one exactly when there
  was none. With all sixteen regions in use, or no memory, it returns -1 and changes nothing.\<close>

theorem region_create_spec:
  assumes "flux_vm_region_create ca vm (Some nm) sz0 ro = (rid, vm')"
    and "sz = (if sz0 = 0 then 256 else sz0)"
  shows "if (\<exists>k < 16. \<not> rg_active (vm_regions vm k)) \<and> ca sz \<noteq> None
         then \<not> validate_region_id vm rid \<and> validate_region_id vm' rid \<and>
              rg_size (get_region vm' rid) = sz \<and> rg_name (get_region vm' rid) = take 31 nm \<and>
              rg_readonly (get_region vm' rid) = ro \<and> rg_owner (get_region vm' rid) = vm_owner_pid vm \<and>
              region_bytes (get_region vm' rid) = replicate (unat sz) 0 \<and>
              (\<forall>k. k \<noteq> nat rid \<longrightarrow> vm_regions vm' k = vm_regions vm k) \<and>
              vm_active_region vm' = (if vm_active_region vm < 0 then rid else vm_active_region vm)
         else rid = -1 \<and> vm' = vm"
proof (cases "find (\<lambda>i. \<not> rg_active (vm_regions vm i)) [0..<FLUX_REGION_MAX]")
  case None
  then have "find_free_region vm = -1" by (simp only: find_free_region_def option.case)
  moreover have "\<not> (\<exists>k < 16. \<not> rg_active (vm_regions vm k))"
    using None by (auto simp: find_None_iff)
  ultimately show ?thesis using assms by (auto simp: flux_vm_region_create_def Let_def)
next
  case (Some i)
  then have i: "i < 16" "\<not> rg_active (vm_regions vm i)" by (auto simp: find_Some_iff)
  have f: "find_free_region vm = int i" using Some by (simp only: find_free_region_def option.case)
  show ?thesis
  proof (cases "ca sz")
    case None
    then show ?thesis using assms f by (auto simp: flux_vm_region_create_def Let_def)
  next
    case (Some addr)
    have ex: "\<exists>k < 16. \<not> rg_active (vm_regions vm k)" using i by blast
    let ?r = "zero_region\<lparr>rg_data := Some \<lparr>buf_addr = addr, buf_bytes = replicate (unat sz) 0\<rparr>,
        rg_size := sz, rg_base := 0, rg_active := True, rg_readonly := ro,
        rg_owner := vm_owner_pid vm, rg_name := take 31 nm\<rparr>"
    have "flux_vm_region_create ca vm (Some nm) sz0 ro =
      (int i, if vm_active_region vm < 0 then (set_region vm (int i) ?r)\<lparr>vm_active_region := int i\<rparr>
              else set_region vm (int i) ?r)"
      unfolding flux_vm_region_create_def Let_def assms(2) [symmetric] f using Some by simp
    then have r: "rid = int i" and v: "vm' = (if vm_active_region vm < 0
        then (set_region vm (int i) ?r)\<lparr>vm_active_region := int i\<rparr> else set_region vm (int i) ?r)"
      using assms(1) by simp_all
    have "rid = int i \<and> vm_regions vm' = (vm_regions vm)(i := ?r) \<and>
        vm_active_region vm' = (if vm_active_region vm < 0 then rid else vm_active_region vm)"
      using r v by simp
    then show ?thesis
      using ex Some i by (simp add: validate_region_id_iff get_region_def region_bytes_def)
  qed
qed

theorem region_create_spec_witness:
  "validate_region_id (with_region [1, 0, 0, 0] 0 True) 0 \<and>
   rg_size (get_region (with_region [1, 0, 0, 0] 0 True) 0) = 256"
proof -
  let ?vm = "booted [1, 0, 0, 0]"
  have r: "flux_vm_region_create (\<lambda>_. Some 4096) ?vm (Some ''data'') 0 True =
        (0, with_region [1, 0, 0, 0] 0 True)"
    unfolding with_region_def by (rule prod_eqI) (code_simp, simp)
  have "\<not> rg_active (vm_regions ?vm 0)" by code_simp
  then have "\<exists>k < 16. \<not> rg_active (vm_regions ?vm k)" by (intro exI [of _ 0]) simp
  then show ?thesis using region_create_spec [OF r refl] by simp
qed

text \<open>The bulk accessors through \<open>slice\<close> and \<open>splice\<close>.\<close>

lemma buf_read_slice:
  "b = Some c \<Longrightarrow> unat off + unat n \<le> length (buf_bytes c) \<Longrightarrow>
   buf_read b off n = Val (slice (buf_bytes c) (unat off) (unat n))"
  by (simp add: buf_read_def slice_def)

lemma buf_write_splice:
  "b = Some c \<Longrightarrow> unat off + length xs \<le> length (buf_bytes c) \<Longrightarrow>
   buf_write b off xs = Val (Some (c\<lparr>buf_bytes := splice (buf_bytes c) (unat off) xs\<rparr>))"
  by (simp add: buf_write_def splice_def)

lemma avail_bound:
  assumes "off < (sz :: u64)"
  shows "unat off + unat (min n (sz - off)) \<le> unat sz"
proof -
  have "unat (min n (sz - off)) \<le> unat (sz - off)" by (simp add: min_def word_le_nat_alt)
  then show ?thesis using assms by (simp add: unat_sub word_less_nat_alt)
qed

lemma min_clamp: "(if n < k then n else k) = min n (k :: u64)"
  by (auto simp: min_def)

text \<open>Writing to a live, writable region through \<open>flux_vm_region_write\<close> stores as many bytes as
  fit (reported as the count), reading them back with \<open>flux_vm_region_read\<close> yields exactly those
  bytes, and neither the rest of the region nor any other region changes.\<close>

theorem region_write_read:
  assumes "vm_inv vm" "validate_region_id vm rid" "\<not> rg_readonly (get_region vm rid)"
    and "off < rg_size (get_region vm rid)" "nbytes \<noteq> 0" "unat nbytes \<le> length src"
    and "n = min nbytes (rg_size (get_region vm rid) - off)"
  shows "\<exists>vm'. flux_vm_region_write vm rid off (Some src) nbytes = Val (n, vm') \<and>
     flux_vm_region_read vm' rid off True n = Val (n, take (unat n) src) \<and>
     region_bytes (get_region vm' rid) =
       splice (region_bytes (get_region vm rid)) (unat off) (take (unat n) src) \<and>
     (\<forall>k. k \<noteq> nat rid \<longrightarrow> vm_regions vm' k = vm_regions vm k)"
proof -
  have ok: "regions_ok vm" using assms(1) by (simp add: vm_inv_def)
  then obtain b where b: "rg_data (get_region vm rid) = Some b"
      "length (buf_bytes b) = unat (rg_size (get_region vm rid))"
    using assms(2) by (rule buffer_of)
  let ?xs = "take (unat n) src" and ?reg = "get_region vm rid"
  have n: "unat n \<le> length src" "n \<noteq> 0" "unat off + unat n \<le> length (buf_bytes b)"
    using assms(4-7) avail_bound [OF assms(4), of nbytes] b(2)
    by (auto simp: min_def word_le_nat_alt word_less_nat_alt)
  have len: "length ?xs = unat n" using n by simp
  have lt: "(rg_size ?reg \<le> off) = False" using assms(4) by simp
  let ?d = "splice (buf_bytes b) (unat off) ?xs"
  let ?vm = "set_region vm rid (?reg\<lparr>rg_data := Some (b\<lparr>buf_bytes := ?d\<rparr>)\<rparr>)"
  have w: "flux_vm_region_write vm rid off (Some src) nbytes = Val (n, ?vm)"
    using assms(2-5) n len buf_write_splice [OF b(1), of off ?xs]
    by (simp add: flux_vm_region_write_def Let_def min_clamp assms(7) [symmetric] lt)
  have v: "validate_region_id ?vm rid" "get_region ?vm rid = ?reg\<lparr>rg_data := Some (b\<lparr>buf_bytes := ?d\<rparr>)\<rparr>"
    using assms(2) by (auto simp: validate_region_id_iff get_region_def)
  have "n \<le> rg_size ?reg - off" using assms(7) by simp
  then have "min n (rg_size ?reg - off) = n" by simp
  then have r: "flux_vm_region_read ?vm rid off True n = Val (n, ?xs)"
    using v n(2,3) assms(4) len slice_splice [of "unat off" ?xs "buf_bytes b"]
    by (simp add: flux_vm_region_read_def Let_def min_clamp lt
                  buf_read_slice [of _ "b\<lparr>buf_bytes := ?d\<rparr>"])
  show ?thesis
    using w r v b(1) by (auto simp: region_bytes_def)
qed

theorem region_write_read_witness:
  "\<exists>vm'. flux_vm_region_write (with_region [1, 0, 0, 0] 4 False) 0 2 (Some [7, 8, 9]) 3 = Val (2, vm') \<and>
         flux_vm_region_read vm' 0 2 True 2 = Val (2, [7, 8])"
proof -
  let ?vm = "with_region [1, 0, 0, 0] 4 False"
  have i: "vm_inv ?vm" by (rule with_region_inv) simp
  have h: "validate_region_id ?vm 0" "\<not> rg_readonly (get_region ?vm 0)" "2 < rg_size (get_region ?vm 0)"
    "(3 :: u64) \<noteq> 0" "unat (3 :: u64) \<le> length [7 :: u8, 8, 9]"
    "2 = min 3 (rg_size (get_region ?vm 0) - 2)" by code_simp+
  show ?thesis using region_write_read [OF i h] by auto
qed

text \<open>Copying between live regions with a writable destination moves the longest prefix of the
  request that both ranges allow, reading the source before it writes, so overlapping ranges of one
  region are copied correctly; everything else stays. A read-only destination is refused and
  nothing changes.\<close>

theorem region_copy_spec:
  assumes "vm_inv vm" "validate_region_id vm s" "validate_region_id vm t"
    and "so < rg_size (get_region vm s)" "to < rg_size (get_region vm t)"
    and "n = min (min nbytes (rg_size (get_region vm s) - so)) (rg_size (get_region vm t) - to)"
  shows "if rg_readonly (get_region vm t)
         then flux_vm_region_copy vm s so t to nbytes = Val (FLUX_ERR_DENIED, vm)
         else \<exists>vm'. flux_vm_region_copy vm s so t to nbytes = Val (FLUX_OK, vm') \<and>
                region_bytes (get_region vm' t) =
                  splice (region_bytes (get_region vm t)) (unat to)
                    (slice (region_bytes (get_region vm s)) (unat so) (unat n)) \<and>
                (\<forall>k. k \<noteq> nat t \<longrightarrow> vm_regions vm' k = vm_regions vm k)"
proof (cases "rg_readonly (get_region vm t)")
  case True
  then show ?thesis using assms by (simp add: flux_vm_region_copy_def Let_def)
next
  case False
  have ok: "regions_ok vm" using assms(1) by (simp add: vm_inv_def)
  obtain a where a: "rg_data (get_region vm s) = Some a"
      "length (buf_bytes a) = unat (rg_size (get_region vm s))"
    using ok assms(2) by (rule buffer_of)
  obtain b where b: "rg_data (get_region vm t) = Some b"
      "length (buf_bytes b) = unat (rg_size (get_region vm t))"
    using ok assms(3) by (rule buffer_of)
  have ns: "unat so + unat n \<le> length (buf_bytes a)"
    using avail_bound [OF assms(4), of "min nbytes (rg_size (get_region vm t) - to)"] a(2)
    by (simp add: assms(6) min.assoc min.commute min.left_commute)
  have nt: "unat to + unat n \<le> length (buf_bytes b)"
    using avail_bound [OF assms(5)] b(2) by (simp add: assms(6))
  let ?xs = "slice (buf_bytes a) (unat so) (unat n)"
  have len: "length ?xs = unat n" using ns by (simp add: slice_def)
  have lt: "(rg_size (get_region vm s) \<le> so) = False" "(rg_size (get_region vm t) \<le> to) = False"
    using assms(4,5) by simp_all
  have "flux_vm_region_copy vm s so t to nbytes =
      (if n = 0 then Val (FLUX_OK, vm)
       else cbind (buf_read (Some a) so n) (\<lambda>bs. cmap (\<lambda>d. (FLUX_OK,
              set_region vm t ((get_region vm t)\<lparr>rg_data := d\<rparr>))) (buf_write (Some b) to bs)))"
    using assms(2-5) False a(1) b(1)
    by (simp add: flux_vm_region_copy_def Let_def assms(6) [symmetric] lt)
  also have "\<dots> = (if n = 0 then Val (FLUX_OK, vm)
      else Val (FLUX_OK, set_region vm t ((get_region vm t)\<lparr>rg_data :=
              Some (b\<lparr>buf_bytes := splice (buf_bytes b) (unat to) ?xs\<rparr>)\<rparr>)))"
    using ns nt len by (simp add: buf_read_slice [OF refl] buf_write_splice [OF refl])
  finally show ?thesis
    using False a(1) b(1) by (auto simp: region_bytes_def get_region_def slice_def splice_def)
qed

theorem region_copy_spec_witness:
  "flux_vm_region_copy (with_region [1, 0, 0, 0] 4 True) 0 1 0 2 2 =
     Val (FLUX_ERR_DENIED, with_region [1, 0, 0, 0] 4 True)"
proof -
  let ?vm = "with_region [1, 0, 0, 0] 4 True"
  have i: "vm_inv ?vm" by (rule with_region_inv) simp
  have h: "validate_region_id ?vm 0" "validate_region_id ?vm 0" "1 < rg_size (get_region ?vm 0)"
    "2 < rg_size (get_region ?vm 0)" by code_simp+
  have r: "rg_readonly (get_region ?vm 0)" by code_simp
  show ?thesis using region_copy_spec [OF i h refl, of 2] r by simp
qed

end
