(* ===== verification/FluxCode.thy ===== *)
theory FluxCode
  imports FluxControl
begin

section \<open>Properties of the encoding, of the opcode tables and of the bit helpers\<close>

text \<open>
  The instruction formats round-trip except format E; the name table and the switch agree on which
  opcodes exist, \<open>flux_opcode_is_valid\<close> does not; \<open>clz64\<close>, \<open>ctz64\<close>, \<open>bswap64\<close> and the rotations
  against their specifications.
\<close>

subsection \<open>Formats\<close>

lemma encode_decode_a:
  "flux_encode_a (flux_decode_opcode w) (flux_decode_rd w) (flux_decode_rs1 w) (flux_decode_rs2 w) = w"
proof (rule bit_word_eqI)
  fix n assume n: "n < LENGTH(32)"
  have b: "bit (flux_encode_a (flux_decode_opcode w) (flux_decode_rd w) (flux_decode_rs1 w) (flux_decode_rs2 w)) n \<longleftrightarrow>
      (24 \<le> n \<and> n - 24 < 8 \<and> bit w (24 + (n - 24))) \<or> (16 \<le> n \<and> n - 16 < 8 \<and> bit w (16 + (n - 16))) \<or>
      (8 \<le> n \<and> n - 8 < 8 \<and> bit w (8 + (n - 8))) \<or> (n < 8 \<and> bit w n)"
    using n unfolding encode_defs decode_defs mask_u32
    by (auto simp: bit_or_iff bit_push_bit_iff bit_ucast_iff bit_and_iff bit_drop_bit_eq bit_mask_iff)
  consider "n < 8" | "8 \<le> n" "n < 16" | "16 \<le> n" "n < 24" | "24 \<le> n" "n < 32"
    using n by (simp add: not_less [symmetric]) blast
  then show "bit (flux_encode_a (flux_decode_opcode w) (flux_decode_rd w) (flux_decode_rs1 w) (flux_decode_rs2 w)) n = bit w n"
    unfolding b by cases (simp_all add: less_diff_conv2)
qed

text \<open>Encoding and decoding: decoding a format A, B or C instruction yields the fields it was
  built from (the target modulo 2^24), and every 32-bit word is the format A encoding of its own
  fields; format E does not round-trip - the upper byte of its immediate is or-ed into the opcode.\<close>

theorem encode_decode_roundtrip:
  "(let w = flux_encode_a op rd rs1 rs2
    in flux_decode_opcode w = op \<and> flux_decode_rd w = rd \<and> flux_decode_rs1 w = rs1 \<and> flux_decode_rs2 w = rs2) \<and>
   (let w = flux_encode_b op rd imm
    in flux_decode_opcode w = op \<and> flux_decode_rd w = rd \<and> flux_decode_imm16 w = imm) \<and>
   (let w = flux_encode_c op target
    in flux_decode_opcode w = op \<and> flux_decode_target w = target AND 0x00FFFFFF) \<and>
   flux_encode_a (flux_decode_opcode u) (flux_decode_rd u) (flux_decode_rs1 u) (flux_decode_rs2 u) = u \<and>
   flux_decode_opcode (flux_encode_e op target) = op OR ucast (drop_bit 24 target)"
proof -
  have e: "flux_decode_opcode (flux_encode_e op target) = op OR ucast (drop_bit 24 target)"
    unfolding flux_decode_opcode_def flux_encode_e_def
    by (rule bit_word_eqI) (auto simp: bit_simps)
  show ?thesis by (simp add: decode_encode encode_decode_a e Let_def)
qed

subsection \<open>Which opcodes exist\<close>

lemma opcode_tables_length:
  "length (opcode_names_lo @ opcode_names_mid @ opcode_names_hi) = 0xB8" by code_simp

lemma opcode_names_defined: "opcode_names op \<noteq> None \<longleftrightarrow> op < 0xB8"
  using opcode_tables_length by (simp add: opcode_names_def Let_def word_less_nat_alt)

text \<open>The opcodes with a name are exactly 0x00 to 0xB7, they are 184;
  every other opcode stops the machine in the error state with code 20 - the 56 opcodes
  0xB8 to 0xEF included, which \<open>flux_opcode_is_valid\<close> calls valid.\<close>

theorem opcodes_exist:
  assumes "vm_inv vm" "fetches vm w" "regs_ok w" "op = flux_decode_opcode w"
  shows "flux_opcode_count_defined = 184 \<and>
    (if opcode_names op = None
     then flux_vm_step fp ca vm =
            Val (FLUX_ERR_INVALID, (entered vm w)\<lparr>vm_state := VM_ERROR, vm_error_code := 20\<rparr>) \<and>
          flux_opcode_is_valid op = (op < 0xF0)
     else op < 0xB8 \<and> flux_opcode_is_valid op)"
proof -
  have t: "flux_opcode_count_defined = 184" by code_simp
  show ?thesis
  proof (cases "opcode_names op = None")
    case True
    then have "\<not> op < 0xB8" using opcode_names_defined [of op] by simp
    then have ge: "0xB8 \<le> unat op" by (simp add: word_less_nat_alt)
    have "flux_vm_step fp ca vm = Val (FLUX_ERR_INVALID,
            (entered vm w)\<lparr>vm_state := VM_ERROR, vm_error_code := 20\<rparr>)"
      using assms ge
      by (simp add: step_regs_ok vm_dispatch_def Let_def word_less_nat_alt finish_simps)
    moreover have "flux_opcode_is_valid op = (op < 0xF0)"
      using ge by (auto simp: flux_opcode_is_valid_def word_less_nat_alt word_le_nat_alt)
    ultimately show ?thesis using True t by simp
  next
    case False
    then have "op < 0xB8" using opcode_names_defined [of op] by simp
    then have "flux_opcode_is_valid op"
      by (simp add: flux_opcode_is_valid_def word_less_nat_alt word_le_nat_alt)
    then show ?thesis using False t \<open>op < 0xB8\<close> by auto
  qed
qed

theorem opcodes_exist_witness:
  "flux_opcode_is_valid 0xC0 \<and> flux_vm_step word_fpu (\<lambda>_. None) (booted [0xC0, 0, 0, 0]) =
     Val (FLUX_ERR_INVALID, (entered (booted [0xC0, 0, 0, 0]) 0xC0000000)\<lparr>vm_state := VM_ERROR, vm_error_code := 20\<rparr>)"
proof -
  have w: "fetches (booted [0xC0, 0, 0, 0]) 0xC0000000" "regs_ok 0xC0000000"
    "0xC0 = flux_decode_opcode 0xC0000000" "opcode_names 0xC0 = None" by code_simp+
  show ?thesis
    using opcodes_exist [OF booted_inv w(1-3), of word_fpu "\<lambda>_. None"] w(4) by simp
qed

subsection \<open>Leading and trailing zeros\<close>

text \<open>One halving step of \<open>clz64\<close>: the value stays \<open>x\<close> times a power of two and its top grows.\<close>

lemma clz_step:
  fixes y :: u64
  assumes "0 < k" "2 * k \<le> 64" "unat y = unat x * 2 ^ n" "2 ^ (64 - 2 * k) \<le> unat y"
    and "(n', y') = (if unat y < 2 ^ (64 - k) then (n + k, push_bit k y) else (n, y))"
  shows "unat y' = unat x * 2 ^ n' \<and> 2 ^ (64 - k) \<le> unat y'"
proof (cases "unat y < 2 ^ (64 - k)")
  case True
  have "(2 :: nat) ^ k * 2 ^ (64 - k) = 2 ^ 64" using assms(2) by (simp add: power_add [symmetric])
  then have "unat y * 2 ^ k < 2 ^ 64"
    using True mult_less_mono2 [of "unat y" "2 ^ (64 - k)" "2 ^ k"] by (simp add: mult.commute)
  moreover have "unat (push_bit k y) = take_bit 64 (unat y * 2 ^ k)"
    by (simp add: unsigned_push_bit_eq push_bit_nat_def)
  ultimately have "unat (push_bit k y) = unat y * 2 ^ k"
    by (simp add: take_bit_nat_eq_self)
  moreover have "(2 :: nat) ^ (64 - k) = 2 ^ (64 - 2 * k) * 2 ^ k"
    using assms(1,2) by (simp add: power_add [symmetric])
  ultimately show ?thesis
    using True assms(3-5) by (simp add: power_add mult.assoc [symmetric])
next
  case False
  then show ?thesis using assms(3,5) by simp
qed

lemma clz_bound:
  assumes "x \<noteq> 0" shows "2 ^ 63 \<le> unat x * 2 ^ clz64 x \<and> unat x * 2 ^ clz64 x < 2 ^ 64"
proof -
  define h where "h = (\<lambda>k (n, y). if unat y < 2 ^ (64 - k) then (n + k, push_bit k y) else (n, y :: u64))"
  have le: "y \<le> 0x00000000FFFFFFFF \<longleftrightarrow> unat y < 2 ^ 32" "y \<le> 0x0000FFFFFFFFFFFF \<longleftrightarrow> unat y < 2 ^ 48"
    "y \<le> 0x00FFFFFFFFFFFFFF \<longleftrightarrow> unat y < 2 ^ 56" "y \<le> 0x0FFFFFFFFFFFFFFF \<longleftrightarrow> unat y < 2 ^ 60"
    "y \<le> 0x3FFFFFFFFFFFFFFF \<longleftrightarrow> unat y < 2 ^ 62" "y \<le> 0x7FFFFFFFFFFFFFFF \<longleftrightarrow> unat y < 2 ^ 63"
    for y :: u64 by (auto simp: word_le_nat_alt)
  have st: "(if x \<le> 0x00000000FFFFFFFF then (32, push_bit 32 x) else (0, x)) = h 32 (0, x)"
    "(if y \<le> 0x0000FFFFFFFFFFFF then (n + 16, push_bit 16 y) else (n, y)) = h 16 (n, y)"
    "(if y \<le> 0x00FFFFFFFFFFFFFF then (n + 8, push_bit 8 y) else (n, y)) = h 8 (n, y)"
    "(if y \<le> 0x0FFFFFFFFFFFFFFF then (n + 4, push_bit 4 y) else (n, y)) = h 4 (n, y)"
    "(if y \<le> 0x3FFFFFFFFFFFFFFF then (n + 2, push_bit 2 y) else (n, y)) = h 2 (n, y)"
    "(if y \<le> 0x7FFFFFFFFFFFFFFF then n + 1 else n) = fst (h 1 (n, y))" for y n
    by (simp_all add: h_def le)
  obtain n1 y1 where h1: "h 32 (0, x) = (n1, y1)" by (cases "h 32 (0, x)")
  obtain n2 y2 where h2: "h 16 (n1, y1) = (n2, y2)" by (cases "h 16 (n1, y1)")
  obtain n3 y3 where h3: "h 8 (n2, y2) = (n3, y3)" by (cases "h 8 (n2, y2)")
  obtain n4 y4 where h4: "h 4 (n3, y3) = (n4, y4)" by (cases "h 4 (n3, y3)")
  obtain n5 y5 where h5: "h 2 (n4, y4) = (n5, y5)" by (cases "h 2 (n4, y4)")
  obtain n6 y6 where h6: "h 1 (n5, y5) = (n6, y6)" by (cases "h 1 (n5, y5)")
  have x: "1 \<le> unat x" using assms unat_eq_0 [of x] by linarith
  have p1: "unat y1 = unat x * 2 ^ n1 \<and> 2 ^ (64 - 32) \<le> unat y1"
    using h1 x by (intro clz_step [of 32 x x 0]) (auto simp: h_def)
  have p2: "unat y2 = unat x * 2 ^ n2 \<and> 2 ^ (64 - 16) \<le> unat y2"
    using h2 p1 by (intro clz_step [of 16 y1 x n1]) (auto simp: h_def)
  have p3: "unat y3 = unat x * 2 ^ n3 \<and> 2 ^ (64 - 8) \<le> unat y3"
    using h3 p2 by (intro clz_step [of 8 y2 x n2]) (auto simp: h_def)
  have p4: "unat y4 = unat x * 2 ^ n4 \<and> 2 ^ (64 - 4) \<le> unat y4"
    using h4 p3 by (intro clz_step [of 4 y3 x n3]) (auto simp: h_def)
  have p5: "unat y5 = unat x * 2 ^ n5 \<and> 2 ^ (64 - 2) \<le> unat y5"
    using h5 p4 by (intro clz_step [of 2 y4 x n4]) (auto simp: h_def)
  have p6: "unat y6 = unat x * 2 ^ n6 \<and> 2 ^ (64 - 1) \<le> unat y6"
    using h6 p5 by (intro clz_step [of 1 y5 x n5]) (auto simp: h_def)
  have "clz64 x = n6"
    using assms by (simp only: clz64_def if_False Let_def prod.case st h1 h2 h3 h4 h5 h6 fst_conv)
  then show ?thesis using p6 unsigned_less [of y6, where ?'a = nat] by simp
qed

text \<open>One step of \<open>ctz64\<close>: the value stays \<open>x\<close> shifted, past zero bits only.\<close>

lemma mask_zero_bits: "(y :: u64) AND mask k = 0 \<longleftrightarrow> (\<forall>j < min k 64. \<not> bit y j)"
  by (auto simp: bit_eq_iff bit_simps)

lemma ctz_step:
  fixes y :: u64
  assumes "y = drop_bit n x" "\<forall>j < n. \<not> bit x j" "y AND mask (2 * k) \<noteq> 0" "0 < k" "2 * k \<le> 64"
    and "(n', y') = (if y AND mask k = 0 then (n + k, drop_bit k y) else (n, y))"
  shows "y' = drop_bit n' x \<and> (\<forall>j < n'. \<not> bit x j) \<and> y' AND mask k \<noteq> 0"
proof (cases "y AND mask k = 0")
  case True
  then have z: "\<forall>j < k. \<not> bit x (n + j)" using assms(1,5) by (auto simp: mask_zero_bits bit_simps)
  obtain j where j: "j < 2 * k" "bit y j" using assms(3) by (auto simp: mask_zero_bits)
  then have "k \<le> j" using True assms(5) by (auto simp: mask_zero_bits not_le [symmetric])
  then have "bit (drop_bit k y) (j - k)" "j - k < k" using j by (auto simp: bit_simps)
  moreover have "\<not> bit x i" if "i < n + k" for i
    using that z [rule_format, of "i - n"] assms(2) by (cases "i < n") (auto simp: not_less)
  ultimately show ?thesis
    using True assms(1,5,6) by (auto simp: mask_zero_bits add.commute)
next
  case False
  then show ?thesis using assms by simp
qed

lemma ctz_bits:
  assumes "x \<noteq> 0" shows "bit x (ctz64 x) \<and> (\<forall>j < ctz64 x. \<not> bit x j)"
proof -
  define h where "h = (\<lambda>k (n, y). if y AND mask k = 0 then (n + k, drop_bit k y) else (n, y :: u64))"
  have m: "(0x00000000FFFFFFFF :: u64) = mask 32" "(0x000000000000FFFF :: u64) = mask 16"
    "(0x00000000000000FF :: u64) = mask 8" "(0x000000000000000F :: u64) = mask 4"
    "(0x0000000000000003 :: u64) = mask 2" "(0x0000000000000001 :: u64) = mask 1"
    by (simp_all add: mask_eq_exp_minus_1)
  have st: "(if x AND mask 32 = 0 then (32, drop_bit 32 x) else (0, x)) = h 32 (0, x)"
    "(if y AND mask 16 = 0 then (n + 16, drop_bit 16 y) else (n, y)) = h 16 (n, y)"
    "(if y AND mask 8 = 0 then (n + 8, drop_bit 8 y) else (n, y)) = h 8 (n, y)"
    "(if y AND mask 4 = 0 then (n + 4, drop_bit 4 y) else (n, y)) = h 4 (n, y)"
    "(if y AND mask 2 = 0 then (n + 2, drop_bit 2 y) else (n, y)) = h 2 (n, y)"
    "(if y AND mask 1 = 0 then n + 1 else n) = fst (h 1 (n, y))" for y n
    by (simp_all add: h_def)
  obtain n1 y1 where h1: "h 32 (0, x) = (n1, y1)" by (cases "h 32 (0, x)")
  obtain n2 y2 where h2: "h 16 (n1, y1) = (n2, y2)" by (cases "h 16 (n1, y1)")
  obtain n3 y3 where h3: "h 8 (n2, y2) = (n3, y3)" by (cases "h 8 (n2, y2)")
  obtain n4 y4 where h4: "h 4 (n3, y3) = (n4, y4)" by (cases "h 4 (n3, y3)")
  obtain n5 y5 where h5: "h 2 (n4, y4) = (n5, y5)" by (cases "h 2 (n4, y4)")
  obtain n6 y6 where h6: "h 1 (n5, y5) = (n6, y6)" by (cases "h 1 (n5, y5)")
  have "(mask (2 * 32) :: u64) = - 1" by (rule bit_word_eqI) (simp add: bit_mask_iff)
  then have x: "x AND mask (2 * 32) \<noteq> 0" using assms by (simp only: and.right_neutral) simp
  have p1: "y1 = drop_bit n1 x \<and> (\<forall>j < n1. \<not> bit x j) \<and> y1 AND mask 32 \<noteq> 0"
    using h1 x by (intro ctz_step [of x 0 x 32]) (auto simp: h_def)
  have p2: "y2 = drop_bit n2 x \<and> (\<forall>j < n2. \<not> bit x j) \<and> y2 AND mask 16 \<noteq> 0"
    using h2 p1 by (intro ctz_step [of y1 n1 x 16]) (auto simp: h_def)
  have p3: "y3 = drop_bit n3 x \<and> (\<forall>j < n3. \<not> bit x j) \<and> y3 AND mask 8 \<noteq> 0"
    using h3 p2 by (intro ctz_step [of y2 n2 x 8]) (auto simp: h_def)
  have p4: "y4 = drop_bit n4 x \<and> (\<forall>j < n4. \<not> bit x j) \<and> y4 AND mask 4 \<noteq> 0"
    using h4 p3 by (intro ctz_step [of y3 n3 x 4]) (auto simp: h_def)
  have p5: "y5 = drop_bit n5 x \<and> (\<forall>j < n5. \<not> bit x j) \<and> y5 AND mask 2 \<noteq> 0"
    using h5 p4 by (intro ctz_step [of y4 n4 x 2]) (auto simp: h_def)
  have p6: "y6 = drop_bit n6 x \<and> (\<forall>j < n6. \<not> bit x j) \<and> y6 AND mask 1 \<noteq> 0"
    using h6 p5 by (intro ctz_step [of y5 n5 x 1]) (auto simp: h_def)
  have "ctz64 x = n6"
    using assms by (simp only: ctz64_def if_False Let_def prod.case m st h1 h2 h3 h4 h5 h6 fst_conv)
  moreover have "bit y6 0"
  proof (rule ccontr)
    assume "\<not> bit y6 0"
    then have "y6 AND mask 1 = 0" by (subst mask_zero_bits) simp
    then show False using p6 by blast
  qed
  then have "bit x n6" using p6 by (simp add: bit_drop_bit_eq)
  ultimately show ?thesis using p6 by simp
qed

text \<open>Leading and trailing zeros: for a non-zero \<open>x\<close>, shifting left by \<open>clz64 x\<close> brings the top
  bit to position 63 without loss, and \<open>ctz64 x\<close> is the position of the lowest bit set; for zero
  both return 64.\<close>

theorem clz_ctz_spec:
  "clz64 0 = 64 \<and> ctz64 0 = 64 \<and>
   (x = 0 \<or> (2 ^ 63 \<le> unat x * 2 ^ clz64 x \<and> unat x * 2 ^ clz64 x < 2 ^ 64 \<and>
             bit x (ctz64 x) \<and> (\<forall>j < ctz64 x. \<not> bit x j)))"
  using clz_bound [of x] ctz_bits [of x] by (cases "x = 0") (auto simp: clz64_def ctz64_def)

theorem clz_ctz_spec_witness:
  "bit (12 :: u64) (ctz64 12) \<and> unat (12 :: u64) * 2 ^ clz64 12 < 2 ^ 64"
  using clz_ctz_spec [of 12] by simp

subsection \<open>Byte swap and rotation\<close>


lemma bswap_bits: "\<forall>i \<in> set [0..<64]. bit (bswap64 x) i = bit x (56 - 8 * (i div 8) + i mod 8)"
  by (simp add: bswap64_def bit_simps upt_conv_Cons) (simp add: numeral_eq_Suc)

text \<open>BSWAP reverses the order of the eight bytes and keeps the bits within each; applying it
  twice gives the value back.\<close>

theorem bswap_spec:
  "(\<forall>i < 64. bit (bswap64 x) i = bit x (8 * (7 - i div 8) + i mod 8)) \<and> bswap64 (bswap64 x) = x"
proof -
  have b: "bit (bswap64 y) i = bit y (8 * (7 - i div 8) + i mod 8)" if "i < 64" for i y
    using that bswap_bits [of y] by (simp add: algebra_simps diff_mult_distrib2)
  have "bit (bswap64 (bswap64 x)) i = bit x i" if i: "i < LENGTH(64)" for i
  proof -
    let ?j = "8 * (7 - i div 8) + i mod 8"
    have j: "?j < 64" "?j div 8 = 7 - i div 8" "?j mod 8 = i mod 8" using i by auto
    have "bit (bswap64 (bswap64 x)) i = bit x (8 * (7 - ?j div 8) + ?j mod 8)"
      using i j(1) b by simp
    also have "8 * (7 - ?j div 8) + ?j mod 8 = i"
      unfolding j(2,3) using i by simp
    finally show ?thesis .
  qed
  then have "bswap64 (bswap64 x) = x" by (rule bit_word_eqI)
  then show ?thesis using b by blast
qed

theorem bswap_spec_witness:
  "bit (bswap64 0x80) 63 = bit (0x80 :: u64) 7"
  using bswap_spec [of "0x80"] by auto

text \<open>The rotations: by an amount that is not a multiple of 64 they are the cyclic shifts, and
  ROTATE_R undoes ROTATE_L; by a multiple of 64 - zero included - both shift by the width of the
  type, which C leaves undefined.\<close>

theorem rotate_spec:
  "if k mod 64 = 0 then rotl64 x k = UB BadShift \<and> rotr64 x k = UB BadShift
   else \<exists>y. rotl64 x k = Val y \<and> rotr64 y k = Val x \<and>
          (\<forall>i < 64. bit y i = bit x ((i + (64 - k mod 64)) mod 64))"
proof (cases "k mod 64 = 0")
  case True
  then show ?thesis by (simp add: rotl64_def rotr64_def)
next
  case False
  define n where "n = k mod 64"
  have n: "0 < n" "n < 64" using False by (simp_all add: n_def)
  let ?y = "push_bit n x OR drop_bit (64 - n) x"
  have b: "bit ?y i = bit x ((i + (64 - n)) mod 64)" if "i < 64" for i
  proof (cases "n \<le> i")
    case True
    then have "(i + (64 - n)) mod 64 = i - n" using that n by (simp add: mod_if)
    then show ?thesis
      using True that n bit_imp_le_length [of x "64 - n + i"]
      by (auto simp: bit_or_iff bit_push_bit_iff bit_drop_bit_eq)
  next
    case False
    then show ?thesis
      using that n by (simp add: bit_or_iff bit_push_bit_iff bit_drop_bit_eq add.commute)
  qed
  have "bit (drop_bit n ?y OR push_bit (64 - n) ?y) i = bit x i" if i: "i < LENGTH(64)" for i
  proof (cases "n + i < 64")
    case True
    have "(n + i + (64 - n)) mod 64 = i" using n i by (simp add: mod_if)
    then show ?thesis
      using True b [OF True] n by (simp only: bit_or_iff [of "drop_bit n ?y"] bit_drop_bit_eq bit_push_bit_iff) auto
  next
    case False
    then have "i - (64 - n) < 64" "64 - n \<le> i" using i n by auto
    moreover have "(i - (64 - n) + (64 - n)) mod 64 = i" using i calculation by simp
    ultimately show ?thesis
      using False b [of "i - (64 - n)"] i bit_imp_le_length [of ?y "n + i"]
      by (simp only: bit_or_iff [of "drop_bit n ?y"] bit_drop_bit_eq bit_push_bit_iff) auto
  qed
  then have "drop_bit n ?y OR push_bit (64 - n) ?y = x" by (rule bit_word_eqI)
  then show ?thesis
    using False n b by (simp add: rotl64_def rotr64_def Let_def n_def [symmetric])
qed

theorem rotate_spec_witness: "\<exists>y. rotl64 5 67 = Val y \<and> rotr64 y 67 = Val 5"
  using rotate_spec [of 67 5] by auto

end
