(* ===== verification/FluxRing.thy ===== *)
theory FluxRing
  imports FluxPrelude "HOL-Library.Multiset"
begin

section \<open>Ring buffers and queues with removal\<close>

text \<open>
  The kernel keeps two queues in fixed arrays: the message queue of each process (kernel/ipc.c)
  and the ready queue (kernel/sched.c). Both put new entries at the tail and close the gap after a
  removed entry by shifting its successors down, index arithmetic modulo the array size.

  \<open>ring_list\<close> is the list such an array stands for and \<open>ring_shift\<close> the shifting loop, with what it
  does to the list: removal of one entry when the number of moves is right, and what happens when
  the loop goes round the array once too often. The contract of a queue with removal is the
  locale \<open>gap_queue\<close>; the components interpret it on their own operations.
\<close>

definition ring_list :: "nat \<Rightarrow> (nat \<Rightarrow> 'e) \<Rightarrow> nat \<Rightarrow> nat \<Rightarrow> 'e list" where
  "ring_list N a h c = map (\<lambda>i. a ((h + i) mod N)) [0..<c]"

text \<open>\<open>for (i = 0; i < n; i++) a[(b + i) % N] = a[(b + i + 1) % N];\<close>\<close>

fun ring_shift :: "nat \<Rightarrow> nat \<Rightarrow> nat \<Rightarrow> (nat \<Rightarrow> 'e) \<Rightarrow> (nat \<Rightarrow> 'e)" where
  "ring_shift N b 0 a = a"
| "ring_shift N b (Suc n) a = ring_shift N (b + 1) n (a(b mod N := a ((b + 1) mod N)))"

lemma ring_list_length [simp]: "length (ring_list N a h c) = c"
  by (simp add: ring_list_def)

lemma ring_list_nth [simp]: "i < c \<Longrightarrow> ring_list N a h c ! i = a ((h + i) mod N)"
  by (simp add: ring_list_def)

lemma ring_list_0 [simp]: "ring_list N a h 0 = []"
  by (simp add: ring_list_def)

lemma ring_list_cong:
  "(\<And>i. i < c \<Longrightarrow> a ((h + i) mod N) = b ((h + i) mod N)) \<Longrightarrow> ring_list N a h c = ring_list N b h c"
  by (simp add: ring_list_def)

lemma ring_list_mod: "ring_list N a (h mod N) c = ring_list N a h c"
  by (simp add: ring_list_def mod_simps)

text \<open>Distinct positions of a window no longer than the array are distinct slots.\<close>

lemma mod_window_eq:
  assumes "i < N" "j < N" shows "(h + i) mod N = (h + j) mod N \<longleftrightarrow> i = (j :: nat)"
proof
  have *: "k = l" if "(h + k) mod N = (h + l) mod N" "k \<le> l" "l < N" for k l
  proof -
    have "N dvd (h + l) - (h + k)" using that mod_eq_dvd_iff_nat [of "h + k" "h + l" N] by simp
    then show ?thesis using that by (auto dest: dvd_imp_le)
  qed
  assume "(h + i) mod N = (h + j) mod N"
  then show "i = j" using * [of i j] * [of j i] assms by (cases "i \<le> j") auto
qed simp

subsection \<open>The shifting loop\<close>

lemma mod_turn [simp]: "(x + (N + y)) mod N = (x + y) mod (N :: nat)"
  by (metis add.left_commute add.commute mod_add_self1)

lemma ring_shift_base: "ring_shift N (b + N) n a = ring_shift N b n a"
proof (induction n arbitrary: b a)
  case (Suc n)
  have e: "b + N + 1 = (b + 1) + N" by simp
  have "(b + N) mod N = b mod N" "((b + 1) + N) mod N = (b + 1) mod N" by (simp_all only: mod_add_self2)
  then show ?case
    using Suc [of "b + 1" "a(b mod N := a ((b + 1) mod N))"] by (simp only: ring_shift.simps e)
qed simp

lemma ring_shift_add: "ring_shift N b (m + n) a = ring_shift N (b + m) n (ring_shift N b m a)"
  by (induction m arbitrary: b a) (simp_all add: add.commute add.left_commute)

lemma ring_shift_slot:
  "n < N \<Longrightarrow> i < N \<Longrightarrow>
   ring_shift N b n a ((b + i) mod N) = (if i < n then a ((b + i + 1) mod N) else a ((b + i) mod N))"
proof (induction n arbitrary: b a i)
  case 0
  then show ?case by simp
next
  case (Suc n)
  let ?a = "a(b mod N := a ((b + 1) mod N))"
  show ?case
  proof (cases i)
    case 0
    have "b mod N = (b + 1 + (N - 1)) mod N" using Suc.prems by simp
    then have "ring_shift N (b + 1) n ?a (b mod N) = ?a (b mod N)"
      using Suc.IH [of "N - 1" "b + 1" ?a] Suc.prems by (simp only: if_False) simp
    then show ?thesis using 0 by simp
  next
    case (Suc k)
    have "ring_shift N (b + 1) n ?a ((b + 1 + k) mod N) =
        (if k < n then ?a ((b + 1 + k + 1) mod N) else ?a ((b + 1 + k) mod N))"
      using Suc Suc.prems by (intro Suc.IH) auto
    moreover have "(b + (k + 1)) mod N \<noteq> b mod N"
      using Suc Suc.prems mod_window_eq [of "k + 1" N 0 b] by simp
    moreover have "(b + (k + 2)) mod N \<noteq> b mod N" if "k < n"
      using that Suc Suc.prems mod_window_eq [of "k + 2" N 0 b] by simp
    ultimately show ?thesis using Suc by simp
  qed
qed

text \<open>The right number of moves removes the entry at position \<open>i\<close>.\<close>

lemma ring_remove:
  assumes "i < c" "c \<le> N"
  shows "ring_list N (ring_shift N (h + i) (c - 1 - i) a) h (c - 1) =
         take i (ring_list N a h c) @ drop (Suc i) (ring_list N a h c)"
proof (rule nth_equalityI)
  show "length (ring_list N (ring_shift N (h + i) (c - 1 - i) a) h (c - 1)) =
      length (take i (ring_list N a h c) @ drop (Suc i) (ring_list N a h c))"
    using assms by simp
next
  fix j assume "j < length (ring_list N (ring_shift N (h + i) (c - 1 - i) a) h (c - 1))"
  then have j: "j < c - 1" by simp
  show "ring_list N (ring_shift N (h + i) (c - 1 - i) a) h (c - 1) ! j =
      (take i (ring_list N a h c) @ drop (Suc i) (ring_list N a h c)) ! j"
  proof (cases "j < i")
    case True
    have e: "(h + i + (N - i + j)) mod N = (h + j) mod N" using True assms by simp
    have "ring_shift N (h + i) (c - 1 - i) a ((h + i + (N - i + j)) mod N) = a ((h + i + (N - i + j)) mod N)"
      using True assms by (subst ring_shift_slot) auto
    then show ?thesis using True j assms by (simp add: nth_append e)
  next
    case False
    have "ring_shift N (h + i) (c - 1 - i) a ((h + i + (j - i)) mod N) = a ((h + i + (j - i) + 1) mod N)"
      using False j assms by (subst ring_shift_slot) auto
    then show ?thesis using False j assms by (simp add: nth_append)
  qed
qed

text \<open>
  One full turn too many: the entry at the head goes as well, and the slot after the last entry
  comes in.
\<close>

lemma ring_shift_turn:
  assumes "2 \<le> N" "i < N"
  shows "ring_shift N b N a ((b + i) mod N) = (if i < N - 1 then a ((b + i + 1) mod N) else a ((b + 1) mod N))"
proof -
  let ?a = "ring_shift N b (N - 1) a"
  have "ring_shift N b (N - 1 + 1) a = ?a((b + (N - 1)) mod N := ?a ((b + N) mod N))"
    using assms by (subst ring_shift_add) (simp add: add.commute)
  then have t: "ring_shift N b N a = ?a((b + (N - 1)) mod N := ?a ((b + N) mod N))"
    using assms by simp
  have z: "?a ((b + N) mod N) = a ((b + 1) mod N)"
    using ring_shift_slot [of "N - 1" N 0 b a] assms by simp
  show ?thesis
  proof (cases "i < N - 1")
    case True
    then have "(b + i) mod N \<noteq> (b + (N - 1)) mod N"
      using mod_window_eq [of i N "N - 1" b] assms by simp
    then show ?thesis using True t assms ring_shift_slot [of "N - 1" N i b a] by simp
  next
    case False
    then have "i = N - 1" using assms by simp
    then show ?thesis using t z by simp
  qed
qed

lemma ring_overrun:
  assumes "0 < i" "i < c" "c \<le> N"
  shows "ring_list N (ring_shift N (h + i) (N + (c - 1 - i)) a) h (c - 1) =
         tl (take i (ring_list N a h c)) @ drop (Suc i) (ring_list N a h c) @ [a ((h + c) mod N)]"
    (is "?l = ?r")
proof (rule nth_equalityI)
  show "length ?l = length ?r" using assms by simp
next
  let ?b = "h + i" and ?n = "c - 1 - i"
  let ?a = "ring_shift N ?b N a"
  fix j assume "j < length ?l"
  then have j: "j < c - 1" by simp
  have "ring_shift N ?b (N + ?n) a = ring_shift N ?b ?n ?a"
    using ring_shift_add [of N ?b N ?n a] by (simp only: ring_shift_base)
  then have slot: "ring_shift N ?b (N + ?n) a ((?b + k) mod N) =
      (if k < ?n then ?a ((?b + k + 1) mod N) else ?a ((?b + k) mod N))" if "k < N" for k
    using ring_shift_slot [of ?n N k ?b ?a] that assms by simp
  have last: "h + c = Suc (Suc (h + j))" if "\<not> Suc j - i < c - Suc i" "\<not> j < i - Suc 0"
    using that j assms by arith
  have nth_r: "?r ! j = (if j < i - 1 then a ((h + (j + 1)) mod N) else a ((h + (j + 2)) mod N))"
    using assms j by (auto simp: nth_append nth_tl nth_Cons' last intro!: arg_cong [where f = a])
  show "?l ! j = ?r ! j"
  proof (cases "j < i")
    case True
    have e: "(?b + (N - i + j)) mod N = (h + j) mod N" using True assms by simp
    have "?l ! j = ring_shift N ?b (N + ?n) a ((?b + (N - i + j)) mod N)" using j e by simp
    also have "\<dots> = ?a ((?b + (N - i + j)) mod N)" using True assms by (subst slot) auto
    also have "\<dots> = (if j < i - 1 then a ((h + (j + 1)) mod N) else a ((h + (j + 2)) mod N))"
    proof -
      have "?b + (N - i + j) + 1 = (h + (j + 1)) + N" using True assms by simp
      then have "(?b + (N - i + j) + 1) mod N = (h + (j + 1)) mod N" by (simp only: mod_add_self2)
      moreover have "?b + 1 = h + (j + 2)" if "\<not> j < i - 1" using that True by simp
      ultimately show ?thesis using True assms by (subst ring_shift_turn) auto
    qed
    finally show ?thesis using nth_r by simp
  next
    case False
    have "?l ! j = ring_shift N ?b (N + ?n) a ((?b + (j - i)) mod N)" using j False by simp
    also have "\<dots> = ?a ((?b + (j - i + 1)) mod N)" using False j assms by (subst slot) auto
    also have "\<dots> = a ((h + (j + 2)) mod N)" using False j assms by (subst ring_shift_turn) auto
    finally show ?thesis using nth_r False by simp
  qed
qed

subsection \<open>The contract of a queue with removal\<close>

locale gap_queue =
  fixes ok :: "'s \<Rightarrow> bool"
    and contents :: "'s \<Rightarrow> 'e list"
    and cap :: nat
    and add :: "'s \<Rightarrow> 'e \<Rightarrow> 's"
    and removable :: "'s \<Rightarrow> nat \<Rightarrow> bool"
    and remove :: "'s \<Rightarrow> nat \<Rightarrow> 's"
  assumes bound: "ok s \<Longrightarrow> length (contents s) \<le> cap"
    and add_end: "ok s \<Longrightarrow> length (contents s) < cap \<Longrightarrow>
      ok (add s e) \<and> contents (add s e) = contents s @ [e]"
    and remove_at: "ok s \<Longrightarrow> i < length (contents s) \<Longrightarrow> removable s i \<Longrightarrow>
      ok (remove s i) \<and> contents (remove s i) = take i (contents s) @ drop (Suc i) (contents s)"
    and head_removable: "ok s \<Longrightarrow> removable s 0"
begin

text \<open>Nothing is lost or made up, and the order of the others is kept.\<close>

lemma remove_mset:
  assumes "ok s" "i < length (contents s)" "removable s i"
  shows "mset (contents (remove s i)) = mset (contents s) - {# contents s ! i #}"
proof -
  have "contents s = take i (contents s) @ contents s ! i # drop (Suc i) (contents s)"
    using assms(2) by (rule id_take_nth_drop)
  then have "mset (contents s) = mset (take i (contents s)) + add_mset (contents s ! i) (mset (drop (Suc i) (contents s)))"
    by (metis mset_append mset.simps(2))
  then show ?thesis using remove_at [OF assms] by simp
qed

lemma remove_distinct:
  assumes "ok s" "i < length (contents s)" "removable s i" "distinct (map f (contents s))"
  shows "distinct (map f (contents (remove s i)))"
proof -
  have "map f (contents s) = map f (take i (contents s)) @ f (contents s ! i) # map f (drop (Suc i) (contents s))"
    using id_take_nth_drop [OF assms(2)] by (metis list.simps(9) map_append)
  then have "distinct (map f (take i (contents s)) @ f (contents s ! i) # map f (drop (Suc i) (contents s)))"
    using assms(4) by (simp only:)
  then show ?thesis
    using remove_at [OF assms(1-3)] by (simp add: distinct_append)
qed

text \<open>Removing the first entry that satisfies \<open>p\<close>.\<close>

lemma remove_first:
  assumes "ok s" "i < length (contents s)" "removable s i" "p (contents s ! i)"
    and "\<And>j. j < i \<Longrightarrow> \<not> p (contents s ! j)"
  shows "contents (remove s i) =
    takeWhile (\<lambda>x. \<not> p x) (contents s) @ tl (dropWhile (\<lambda>x. \<not> p x) (contents s))"
proof -
  have t: "takeWhile (\<lambda>x. \<not> p x) (contents s) = take i (contents s)"
    using assms(2,4,5) by (intro takeWhile_eq_take_P_nth) auto
  have "dropWhile (\<lambda>x. \<not> p x) (contents s) = drop i (contents s)"
    using t assms(2) by (simp add: dropWhile_eq_drop)
  then show ?thesis
    using t remove_at [OF assms(1-3)] by (simp add: drop_Suc tl_drop)
qed

text \<open>First in, first out: entries added behind \<open>contents s\<close> leave after it, in their order.\<close>

lemma add_all:
  "ok s \<Longrightarrow> length (contents s) + length es \<le> cap \<Longrightarrow>
   ok (foldl add s es) \<and> contents (foldl add s es) = contents s @ es"
proof (induction es arbitrary: s)
  case (Cons e es)
  then have "ok (add s e) \<and> contents (add s e) = contents s @ [e]" by (intro add_end) auto
  then show ?case using Cons.IH [of "add s e"] Cons.prems by simp
qed simp

lemma remove_heads:
  "ok s \<Longrightarrow> n \<le> length (contents s) \<Longrightarrow>
   ok (((\<lambda>s. remove s 0) ^^ n) s) \<and> contents (((\<lambda>s. remove s 0) ^^ n) s) = drop n (contents s)"
proof (induction n)
  case (Suc n)
  let ?s = "((\<lambda>s. remove s 0) ^^ n) s"
  have "ok ?s" "contents ?s = drop n (contents s)" using Suc by auto
  then have "ok (remove ?s 0) \<and> contents (remove ?s 0) = drop 1 (contents ?s)"
    using remove_at [of ?s 0] head_removable [of ?s] Suc.prems by simp
  then show ?case using \<open>contents ?s = drop n (contents s)\<close> by simp
qed simp

end

end
