(* ===== verification/FluxKernel.thy ===== *)
theory FluxKernel
  imports FluxRing FluxVM
begin

section \<open>Kernel data: process table, ready queue, message queues\<close>

text \<open>
  The data that kernel/proc.c, kernel/sched.c and kernel/ipc.c keep in static variables, collected
  in one record \<open>kernel\<close>, together with the part of \<open>flux_kernel_state_t\<close> they read and write.
  Fields carry the prefix of the file that owns them: \<open>k_\<close> proc.c and the kernel state, \<open>s_\<close>
  sched.c, \<open>i_\<close> ipc.c. C arrays are functions from \<open>nat\<close>. The indices of the two circular
  buffers, C \<open>int\<close>s that stay between 0 and the array size, are \<open>nat\<close>s.

  Also here: the lookup of a process control block by pid, which all three files use.
\<close>

datatype proc_state =
    PROC_UNUSED | PROC_READY | PROC_RUNNING | PROC_BLOCKED | PROC_ZOMBIE
  | PROC_AGENT_IDLE | PROC_AGENT_THINKING | PROC_COMPILED

abbreviation (input) FLUX_PID_INVALID :: u32 where "FLUX_PID_INVALID \<equiv> 0"
abbreviation (input) FLUX_PID_KERNEL :: u32 where "FLUX_PID_KERNEL \<equiv> 1"
abbreviation (input) FLUX_PID_FIRST_APP :: u32 where "FLUX_PID_FIRST_APP \<equiv> 2"
abbreviation (input) FLUX_MAX_PROCESSES :: nat where "FLUX_MAX_PROCESSES \<equiv> 256"
abbreviation (input) FLUX_SCHED_QUEUE_SIZE :: nat where "FLUX_SCHED_QUEUE_SIZE \<equiv> 256"
abbreviation (input) FLUX_IPC_QUEUE_DEPTH :: nat where "FLUX_IPC_QUEUE_DEPTH \<equiv> 64"
abbreviation (input) FLUX_CAP_SPAWN :: u64 where "FLUX_CAP_SPAWN \<equiv> 1"
abbreviation (input) FLUX_CAP_COMMUNICATE :: u64 where "FLUX_CAP_COMMUNICATE \<equiv> 2"
abbreviation (input) FLUX_CAP_ALL :: u64 where "FLUX_CAP_ALL \<equiv> 0xFFFFFFFFFFFFFFFF"
abbreviation (input) FLUX_PERM_RW :: u8 where "FLUX_PERM_RW \<equiv> 3"
abbreviation (input) FLUX_PERM_RWX :: u8 where "FLUX_PERM_RWX \<equiv> 7"

record pcb =
  p_pid :: u32
  p_parent :: u32
  p_state :: proc_state
  p_name :: string
  p_priority :: u8
  p_cpu_time :: u64
  p_create_time :: u64
  p_caps :: u64
  p_perms :: u8
  p_regs :: "nat \<Rightarrow> u64"
  p_stack_ptr :: u64
  p_instr_ptr :: u64
  p_page_table :: u64
  p_agent_id :: u32
  p_is_agent :: bool
  p_is_compiled :: bool
  p_agent_model :: string
  p_bc_active :: bool
  p_bc_base :: u64
  p_bc_len :: u64
  p_bc_pc :: u64
  p_bc_regs :: "nat \<Rightarrow> u64"
  p_waiting_for :: u32

definition zero_pcb :: pcb where
  "zero_pcb =
     \<lparr>p_pid = 0, p_parent = 0, p_state = PROC_UNUSED, p_name = '''', p_priority = 0,
      p_cpu_time = 0, p_create_time = 0, p_caps = 0, p_perms = 0, p_regs = (\<lambda>_. 0),
      p_stack_ptr = 0, p_instr_ptr = 0, p_page_table = 0, p_agent_id = 0, p_is_agent = False,
      p_is_compiled = False, p_agent_model = '''', p_bc_active = False, p_bc_base = 0,
      p_bc_len = 0, p_bc_pc = 0, p_bc_regs = (\<lambda>_. 0), p_waiting_for = 0\<rparr>"

record sched_entry =
  se_pid :: u32
  se_priority :: u8
  se_wait_start :: u64
  se_time_slice :: u64
  se_thinking :: bool

definition zero_entry :: sched_entry where
  "zero_entry = \<lparr>se_pid = 0, se_priority = 0, se_wait_start = 0, se_time_slice = 0, se_thinking = False\<rparr>"

record sched_stats =
  st_total_switches :: u64
  st_idle_switches :: u64
  st_agent_switches :: u64
  st_preemptions :: u64
  st_voluntary_yields :: u64
  st_current_timeslice :: u32
  st_boost_timer :: u32

definition zero_stats :: sched_stats where
  "zero_stats = \<lparr>st_total_switches = 0, st_idle_switches = 0, st_agent_switches = 0,
     st_preemptions = 0, st_voluntary_yields = 0, st_current_timeslice = 0, st_boost_timer = 0\<rparr>"

text \<open>A message keeps the \<open>payload_len\<close> bytes of its payload; the rest of the 4096 are zero.\<close>

record ipc_message =
  m_id :: u32
  m_sender :: u32
  m_target :: u32
  m_sender_caps :: u64
  m_send_tick :: u64
  m_payload_len :: u32
  m_payload :: "u8 list"

definition zero_message :: ipc_message where
  "zero_message = \<lparr>m_id = 0, m_sender = 0, m_target = 0, m_sender_caps = 0, m_send_tick = 0,
     m_payload_len = 0, m_payload = []\<rparr>"

record ipc_queue =
  q_messages :: "nat \<Rightarrow> ipc_message"
  q_head :: nat
  q_tail :: nat
  q_count :: nat
  q_next_id :: u32
  q_total_sent :: u32
  q_total_recv :: u32
  q_dropped :: u32

definition zero_queue :: ipc_queue where
  "zero_queue = \<lparr>q_messages = (\<lambda>_. zero_message), q_head = 0, q_tail = 0, q_count = 0,
     q_next_id = 0, q_total_sent = 0, q_total_recv = 0, q_dropped = 0\<rparr>"

record broadcast_entry =
  be_msg :: ipc_message
  be_delivered :: u32
  be_active :: bool

definition zero_broadcast :: broadcast_entry where
  "zero_broadcast = \<lparr>be_msg = zero_message, be_delivered = 0, be_active = False\<rparr>"

record ipc_stats =
  is_total_sent :: u64
  is_total_recv :: u64
  is_total_broadcasts :: u64
  is_capability_denied :: u64
  is_queue_full :: u64
  is_timeout_expired :: u64

definition zero_ipc_stats :: ipc_stats where
  "zero_ipc_stats = \<lparr>is_total_sent = 0, is_total_recv = 0, is_total_broadcasts = 0,
     is_capability_denied = 0, is_queue_full = 0, is_timeout_expired = 0\<rparr>"

record kernel =
  k_pcbs :: "nat \<Rightarrow> pcb"
  k_next_pid :: u32
  k_active_count :: u32
  k_agent_count :: u32
  k_current_pid :: u32       \<comment> \<open>\<open>ks->current_pid\<close>\<close>
  k_tick :: u32              \<comment> \<open>\<open>ks->tick_count\<close>\<close>
  k_num_processes :: u32     \<comment> \<open>\<open>ks->num_processes\<close>\<close>
  k_ks_next_pid :: u32       \<comment> \<open>\<open>ks->next_pid\<close>\<close>
  s_queue :: "nat \<Rightarrow> sched_entry"
  s_head :: nat
  s_tail :: nat
  s_count :: nat
  s_current :: u32
  s_running :: bool
  s_stats :: sched_stats
  s_default_timeslice :: u64
  i_queues :: "nat \<Rightarrow> ipc_queue"
  i_msg_id :: u32
  i_broadcasts :: "nat \<Rightarrow> broadcast_entry"
  i_broadcast_count :: nat
  i_stats :: ipc_stats

text \<open>The values the static variables start with.\<close>

definition boot_kernel :: kernel where
  "boot_kernel =
     \<lparr>k_pcbs = (\<lambda>_. zero_pcb), k_next_pid = FLUX_PID_FIRST_APP, k_active_count = 0, k_agent_count = 0,
      k_current_pid = 0, k_tick = 0, k_num_processes = 0, k_ks_next_pid = 0,
      s_queue = (\<lambda>_. zero_entry), s_head = 0, s_tail = 0, s_count = 0, s_current = FLUX_PID_KERNEL,
      s_running = False, s_stats = zero_stats, s_default_timeslice = 10,
      i_queues = (\<lambda>_. zero_queue), i_msg_id = 0, i_broadcasts = (\<lambda>_. zero_broadcast),
      i_broadcast_count = 0, i_stats = zero_ipc_stats\<rparr>"

text \<open>
  \<open>(int)(pid - 1) % 256\<close>: the conversion to \<open>int\<close> keeps the 32 bits and C's remainder takes the
  sign of the dividend, so a pid above 2^31 can give a negative index.
\<close>

definition proc_pid_to_index :: "u32 \<Rightarrow> int" where
  "proc_pid_to_index pid =
     (if pid = FLUX_PID_INVALID \<or> pid = 0 then -1 else sint (pid - 1) smod int FLUX_MAX_PROCESSES)"

text \<open>The slot of a pid's control block, as the pointer \<open>flux_get_pcb\<close> returns it.\<close>

definition flux_get_pcb :: "kernel \<Rightarrow> u32 \<Rightarrow> nat option" where
  "flux_get_pcb k pid =
     (if pid = FLUX_PID_INVALID \<or> pid = 0 then None
      else
        let idx = proc_pid_to_index pid
        in if idx < 0 then None
           else if p_state (k_pcbs k (nat idx)) = PROC_UNUSED then None
           else Some (nat idx))"

definition flux_getpid :: "kernel \<Rightarrow> u32" where
  "flux_getpid k = k_current_pid k"

text \<open>Assignment through a control block pointer.\<close>

definition upd_pcb :: "nat \<Rightarrow> (pcb \<Rightarrow> pcb) \<Rightarrow> kernel \<Rightarrow> kernel" where
  "upd_pcb idx f k = k\<lparr>k_pcbs := (k_pcbs k)(idx := f (k_pcbs k idx))\<rparr>"

subsection \<open>Pids and slots\<close>

lemma smod_256:
  fixes n :: int
  shows "0 \<le> n \<Longrightarrow> n smod 256 = n mod 256" "n < 0 \<Longrightarrow> n smod 256 = - ((- n) mod 256)"
  by (cases "n = 0"; simp add: signed_modulo_int_def)+

lemma pid_index_bound: "proc_pid_to_index pid < 256"
  using smod_256 [of "sint (pid - 1)"]
  by (cases "sint (pid - 1) < 0") (auto simp: proc_pid_to_index_def not_less intro: order.strict_trans1 [of _ 0])

lemma get_pcb_Some:
  "flux_get_pcb k pid = Some i \<Longrightarrow>
   pid \<noteq> 0 \<and> int i = proc_pid_to_index pid \<and> i < 256 \<and> p_state (k_pcbs k i) \<noteq> PROC_UNUSED"
  using pid_index_bound [of pid]
  by (auto simp: flux_get_pcb_def Let_def split: if_splits)

lemma upd_pcb_simps [simp]:
  "k_pcbs (upd_pcb i f k) = (k_pcbs k)(i := f (k_pcbs k i))"
  "k_next_pid (upd_pcb i f k) = k_next_pid k"
  "k_active_count (upd_pcb i f k) = k_active_count k"
  "k_agent_count (upd_pcb i f k) = k_agent_count k"
  "k_current_pid (upd_pcb i f k) = k_current_pid k"
  "k_tick (upd_pcb i f k) = k_tick k"
  "s_queue (upd_pcb i f k) = s_queue k"
  "s_head (upd_pcb i f k) = s_head k"
  "s_tail (upd_pcb i f k) = s_tail k"
  "s_count (upd_pcb i f k) = s_count k"
  "s_current (upd_pcb i f k) = s_current k"
  "s_stats (upd_pcb i f k) = s_stats k"
  "s_default_timeslice (upd_pcb i f k) = s_default_timeslice k"
  "i_queues (upd_pcb i f k) = i_queues k"
  "i_stats (upd_pcb i f k) = i_stats k"
  "i_msg_id (upd_pcb i f k) = i_msg_id k"
  by (simp_all add: upd_pcb_def)

text \<open>Small pids, the ones the kernel hands out first, name their own slot.\<close>

lemma pid_index_small:
  assumes "0 < unat pid" "unat pid \<le> 256"
  shows "proc_pid_to_index pid = int (unat pid) - 1"
proof -
  have p: "pid \<noteq> 0" using assms by auto
  have u: "unat (pid - 1) = unat pid - 1" using p by (simp add: unat_minus_one)
  have i: "uint (pid - 1) = int (unat pid) - 1"
    unfolding uint_nat [of "pid - 1"] u using assms(1) by linarith
  have "sint (pid - 1) = signed_take_bit 31 (uint (pid - 1))"
    by (simp add: sint_uint)
  also have "\<dots> = int (unat pid) - 1"
    unfolding i using assms by (intro signed_take_bit_int_eq_self) (simp_all del: of_nat_unat)
  finally have "sint (pid - 1) = int (unat pid) - 1" .
  moreover have "(int (unat pid) - 1) smod 256 = int (unat pid) - 1"
    using assms smod_256(1) [of "int (unat pid) - 1"] by (simp del: of_nat_unat)
  ultimately show ?thesis using p by (simp add: proc_pid_to_index_def)
qed

end
