(* ===== verification/FluxSched.thy ===== *)
theory FluxSched
  imports FluxKernel
begin

section \<open>The scheduler (kernel/sched.c)\<close>

text \<open>
  The ready queue, priority aging, selection and the loop of \<open>flux_sched_run\<close>, one iteration at a
  time (\<open>sched_iteration\<close>): the loop has no exit but \<open>flux_sched_stop\<close>, which somebody else must
  call. \<open>ready k\<close> is the list of queued entries, oldest first.

  The lemmas interpret the contract \<open>gap_queue\<close> on the queue's insertion and removal. Removal
  meets it only at the head or while the removed entry lies at or above the head index
  (\<open>sched_removable\<close>); past the wrap-around of the array it does not, see FluxSchedProps.
\<close>

abbreviation (input) FLUX_SCHED_DEFAULT_TIMESLICE :: u64 where "FLUX_SCHED_DEFAULT_TIMESLICE \<equiv> 10"
abbreviation (input) FLUX_SCHED_AGENT_THINK_BONUS :: u64 where "FLUX_SCHED_AGENT_THINK_BONUS \<equiv> 20"
abbreviation (input) PRIORITY_BOOST_INTERVAL :: nat where "PRIORITY_BOOST_INTERVAL \<equiv> 1000"
abbreviation (input) PRIORITY_BOOST_AMOUNT :: u8 where "PRIORITY_BOOST_AMOUNT \<equiv> 10"
abbreviation (input) MAX_PRIORITY_BOOST :: u8 where "MAX_PRIORITY_BOOST \<equiv> 200"

subsection \<open>Queries\<close>

definition sched_queue_empty :: "kernel \<Rightarrow> bool" where
  "sched_queue_empty k = (s_count k = 0)"

definition sched_queue_full :: "kernel \<Rightarrow> bool" where
  "sched_queue_full k = (FLUX_SCHED_QUEUE_SIZE \<le> s_count k)"

definition sched_queue_peek :: "kernel \<Rightarrow> sched_entry option" where
  "sched_queue_peek k = (if s_count k = 0 then None else Some (s_queue k (s_head k)))"

definition sched_current_tick :: "kernel \<Rightarrow> u64" where
  "sched_current_tick k = ucast (k_tick k)"

text \<open>The slot of the best candidate, \<open>None\<close> for the source's -1.\<close>

definition sched_find_highest_priority :: "kernel \<Rightarrow> nat option" where
  "sched_find_highest_priority k =
     (if s_count k = 0 then None
      else Some (fst (fold
        (\<lambda>i (best_idx, best_priority).
           let idx = (s_head k + i) mod FLUX_SCHED_QUEUE_SIZE; pri = se_priority (s_queue k idx)
           in if best_priority < pri then (idx, pri) else (best_idx, best_priority))
        [0..<s_count k] (s_head k, se_priority (s_queue k (s_head k))))))"

subsection \<open>Aging\<close>

text \<open>One entry of the aging loop.\<close>

definition age_entry :: "u64 \<Rightarrow> nat \<Rightarrow> kernel \<Rightarrow> kernel" where
  "age_entry now i k =
     (let idx = (s_head k + i) mod FLUX_SCHED_QUEUE_SIZE; e = s_queue k idx;
          wait_time = now - se_wait_start e
      in if PRIORITY_BOOST_INTERVAL < unat wait_time \<and> se_priority e < MAX_PRIORITY_BOOST
         then
           let p1 = se_priority e + PRIORITY_BOOST_AMOUNT;
               p2 = (if MAX_PRIORITY_BOOST < p1 then MAX_PRIORITY_BOOST else p1);
               k1 = k\<lparr>s_queue := (s_queue k)(idx := e\<lparr>se_priority := p2\<rparr>)\<rparr>
           in case flux_get_pcb k1 (se_pid e) of
                None \<Rightarrow> k1
              | Some j \<Rightarrow> upd_pcb j (\<lambda>p. p\<lparr>p_priority := p2\<rparr>) k1
         else k)"

definition sched_age_priorities :: "kernel \<Rightarrow> kernel" where
  "sched_age_priorities k =
     (let t = st_boost_timer (s_stats k) + 1;
          k1 = k\<lparr>s_stats := (s_stats k)\<lparr>st_boost_timer := t\<rparr>\<rparr>
      in if unat t < PRIORITY_BOOST_INTERVAL then k1
         else
           let k2 = k1\<lparr>s_stats := (s_stats k1)\<lparr>st_boost_timer := 0\<rparr>\<rparr>
           in fold (age_entry (sched_current_tick k2)) [0..<s_count k2] k2)"

subsection \<open>Initialisation\<close>

definition flux_sched_init :: "kernel \<Rightarrow> flux_status \<times> kernel" where
  "flux_sched_init k =
     (FLUX_OK,
      k\<lparr>s_queue := (\<lambda>_. zero_entry), s_head := 0, s_tail := 0, s_count := 0,
        s_current := FLUX_PID_KERNEL, s_running := False, s_stats := zero_stats,
        s_default_timeslice := FLUX_SCHED_DEFAULT_TIMESLICE\<rparr>)"

subsection \<open>The ready queue\<close>

text \<open>Writing an entry at the tail and advancing it.\<close>

definition sched_put :: "kernel \<Rightarrow> sched_entry \<Rightarrow> kernel" where
  "sched_put k e =
     k\<lparr>s_queue := (s_queue k)(s_tail k := e),
       s_tail := (s_tail k + 1) mod FLUX_SCHED_QUEUE_SIZE, s_count := s_count k + 1\<rparr>"

definition flux_sched_enqueue :: "kernel \<Rightarrow> u32 \<Rightarrow> flux_status \<times> kernel" where
  "flux_sched_enqueue k pid =
     (if pid = FLUX_PID_INVALID then (FLUX_ERR_INVALID, k)
      else if list_ex (\<lambda>i. se_pid (s_queue k ((s_head k + i) mod FLUX_SCHED_QUEUE_SIZE)) = pid)
                [0..<s_count k]
      then (FLUX_OK, k)
      else if sched_queue_full k then (FLUX_ERR_OVERFLOW, k)
      else case flux_get_pcb k pid of
        None \<Rightarrow> (FLUX_ERR_NOTFOUND, k)
      | Some j \<Rightarrow>
          let p = k_pcbs k j;
              thinking = (p_is_agent p \<and> p_state p = PROC_AGENT_THINKING);
              e = \<lparr>se_pid = pid, se_priority = p_priority p, se_wait_start = sched_current_tick k,
                   se_time_slice = (if thinking
                                    then s_default_timeslice k + FLUX_SCHED_AGENT_THINK_BONUS
                                    else s_default_timeslice k),
                   se_thinking = thinking\<rparr>;
              k1 = sched_put k e
          in (FLUX_OK,
              if p_state p = PROC_BLOCKED \<or> p_state p = PROC_AGENT_IDLE
              then upd_pcb j (\<lambda>p. p\<lparr>p_state := PROC_READY\<rparr>) k1 else k1))"

text \<open>
  Removing the entry in slot \<open>best\<close>: at the head by advancing it, elsewhere by shifting.
  \<open>count_to_move\<close> subtracts the head from \<open>best\<close> without going round the array.
\<close>

definition sched_take :: "kernel \<Rightarrow> nat \<Rightarrow> kernel" where
  "sched_take k best =
     (if best = s_head k
      then k\<lparr>s_head := (s_head k + 1) mod FLUX_SCHED_QUEUE_SIZE, s_count := s_count k - 1\<rparr>
      else
        let count_to_move = int (s_count k) - (int best - int (s_head k) + 1)
        in k\<lparr>s_queue := ring_shift FLUX_SCHED_QUEUE_SIZE best (nat count_to_move) (s_queue k),
             s_tail := (s_tail k + FLUX_SCHED_QUEUE_SIZE - 1) mod FLUX_SCHED_QUEUE_SIZE,
             s_count := s_count k - 1\<rparr>)"

definition flux_sched_dequeue :: "kernel \<Rightarrow> u32 \<times> kernel" where
  "flux_sched_dequeue k =
     (if sched_queue_empty k then (FLUX_PID_INVALID, k)
      else
        let k1 = sched_age_priorities k
        in case sched_find_highest_priority k1 of
             None \<Rightarrow> (FLUX_PID_INVALID, k1)
           | Some best \<Rightarrow>
               let pid = se_pid (s_queue k1 best); time_slice = se_time_slice (s_queue k1 best);
                   k2 = sched_take k1 best
               in (pid,
                   case flux_get_pcb k2 pid of
                     None \<Rightarrow> k2
                   | Some j \<Rightarrow>
                       let k3 = upd_pcb j (\<lambda>p. p\<lparr>p_state := PROC_RUNNING\<rparr>) k2
                       in k3\<lparr>s_stats := (s_stats k3)\<lparr>st_current_timeslice := ucast time_slice\<rparr>\<rparr>))"

definition flux_sched_yield_current :: "kernel \<Rightarrow> kernel" where
  "flux_sched_yield_current k =
     k\<lparr>s_stats := (s_stats k)\<lparr>st_voluntary_yields := st_voluntary_yields (s_stats k) + 1\<rparr>,
       s_current := FLUX_PID_INVALID\<rparr>"

subsection \<open>The scheduler loop\<close>

text \<open>\<open>flux_sched_run\<close> up to its loop, and one iteration of the loop.\<close>

definition sched_start :: "kernel \<Rightarrow> kernel" where
  "sched_start k = k\<lparr>s_running := True\<rparr>"

text \<open>Putting the preempted process back.\<close>

definition requeue_previous :: "u32 \<Rightarrow> kernel \<Rightarrow> kernel" where
  "requeue_previous prev_pid k =
     (if prev_pid \<noteq> FLUX_PID_INVALID \<and> prev_pid \<noteq> FLUX_PID_KERNEL then
        (case flux_get_pcb k prev_pid of
           None \<Rightarrow> k
         | Some j \<Rightarrow>
             if p_state (k_pcbs k j) = PROC_RUNNING then
               (let k1 = (if st_current_timeslice (s_stats k) = 0
                          then k\<lparr>s_stats := (s_stats k)\<lparr>st_preemptions := st_preemptions (s_stats k) + 1\<rparr>\<rparr>
                          else k)
                in snd (flux_sched_enqueue k1 prev_pid))
             else k)
      else k)"

definition switch_next :: "kernel \<Rightarrow> kernel" where
  "switch_next k =
     (let (next_pid, k1) = flux_sched_dequeue k
      in if next_pid = FLUX_PID_INVALID then
           k1\<lparr>s_stats := (s_stats k1)\<lparr>st_idle_switches := st_idle_switches (s_stats k1) + 1,
                                      st_current_timeslice := 1\<rparr>,
              s_current := FLUX_PID_KERNEL, k_current_pid := FLUX_PID_KERNEL\<rparr>
         else
           let k2 = k1\<lparr>s_current := next_pid, k_current_pid := next_pid,
                       s_stats := (s_stats k1)\<lparr>st_total_switches := st_total_switches (s_stats k1) + 1\<rparr>\<rparr>
           in case flux_get_pcb k2 next_pid of
                None \<Rightarrow> k2
              | Some j \<Rightarrow>
                  if p_is_agent (k_pcbs k2 j)
                  then k2\<lparr>s_stats := (s_stats k2)\<lparr>st_agent_switches := st_agent_switches (s_stats k2) + 1\<rparr>\<rparr>
                  else k2)"

definition sched_iteration :: "kernel \<Rightarrow> kernel" where
  "sched_iteration k0 =
     (let k = k0\<lparr>k_tick := k_tick k0 + 1\<rparr>
      in if s_current k \<noteq> FLUX_PID_INVALID \<and> 0 < st_current_timeslice (s_stats k)
         then
           let k1 = k\<lparr>s_stats := (s_stats k)\<lparr>st_current_timeslice := st_current_timeslice (s_stats k) - 1\<rparr>\<rparr>
           in case flux_get_pcb k1 (s_current k1) of
                None \<Rightarrow> k1
              | Some j \<Rightarrow> upd_pcb j (\<lambda>p. p\<lparr>p_cpu_time := p_cpu_time p + 1\<rparr>) k1
         else switch_next (requeue_previous (s_current k) k))"

fun sched_iterations :: "nat \<Rightarrow> kernel \<Rightarrow> kernel" where
  "sched_iterations 0 k = k"
| "sched_iterations (Suc n) k = (if s_running k then sched_iterations n (sched_iteration k) else k)"

definition flux_sched_stop :: "kernel \<Rightarrow> flux_status \<times> kernel" where
  "flux_sched_stop k = (FLUX_OK, k\<lparr>s_running := False\<rparr>)"

definition flux_sched_set_timeslice :: "kernel \<Rightarrow> u64 \<Rightarrow> kernel" where
  "flux_sched_set_timeslice k ticks =
     (if 0 < ticks \<and> ticks < 10000 then k\<lparr>s_default_timeslice := ticks\<rparr> else k)"

definition flux_sched_get_stats :: "kernel \<Rightarrow> sched_stats" where
  "flux_sched_get_stats k = s_stats k"

definition flux_sched_queue_count :: "kernel \<Rightarrow> nat" where
  "flux_sched_queue_count k = s_count k"

subsection \<open>The queue as a list\<close>

definition ready :: "kernel \<Rightarrow> sched_entry list" where
  "ready k = ring_list FLUX_SCHED_QUEUE_SIZE (s_queue k) (s_head k) (s_count k)"

definition sched_ok :: "kernel \<Rightarrow> bool" where
  "sched_ok k \<longleftrightarrow> s_head k < FLUX_SCHED_QUEUE_SIZE \<and> s_count k \<le> FLUX_SCHED_QUEUE_SIZE
     \<and> s_tail k = (s_head k + s_count k) mod FLUX_SCHED_QUEUE_SIZE"

text \<open>The positions \<open>flux_sched_dequeue\<close> removes correctly: the head and those not past the wrap-around.\<close>

definition sched_removable :: "kernel \<Rightarrow> nat \<Rightarrow> bool" where
  "sched_removable k i \<longleftrightarrow> i = 0 \<or> s_head k + i < FLUX_SCHED_QUEUE_SIZE"

definition sched_take_at :: "kernel \<Rightarrow> nat \<Rightarrow> kernel" where
  "sched_take_at k i = sched_take k ((s_head k + i) mod FLUX_SCHED_QUEUE_SIZE)"

lemma ready_length [simp]: "length (ready k) = s_count k"
  by (simp add: ready_def)

lemma ready_nth: "i < s_count k \<Longrightarrow> ready k ! i = s_queue k ((s_head k + i) mod FLUX_SCHED_QUEUE_SIZE)"
  by (simp add: ready_def)

lemma sched_put_ready:
  assumes "sched_ok k" "s_count k < FLUX_SCHED_QUEUE_SIZE"
  shows "sched_ok (sched_put k e) \<and> ready (sched_put k e) = ready k @ [e]"
proof
  show "sched_ok (sched_put k e)"
    using assms by (auto simp: sched_ok_def sched_put_def mod_simps)
  have "(s_head k + i) mod 256 \<noteq> s_tail k" if "i < s_count k" for i
    using that assms mod_window_eq [of i 256 "s_count k" "s_head k"] by (simp add: sched_ok_def)
  then show "ready (sched_put k e) = ready k @ [e]"
    using assms by (intro nth_equalityI) (auto simp: ready_nth nth_append sched_put_def less_Suc_eq sched_ok_def)
qed

lemma tail_back:
  assumes "h < (N :: nat)" "0 < c" "c \<le> N"
  shows "((h + c) mod N + N - 1) mod N = (h + (c - 1)) mod N"
  using assms by (cases "h + c < N") (auto simp: mod_if)

text \<open>Removal at the head, before the wrap-around, and past it.\<close>

lemma head_forward:
  assumes "h < (N :: nat)" "0 < c"
  shows "((h + 1) mod N + (c - 1)) mod N = (h + c) mod N"
proof -
  have "((h + 1) mod N + (c - 1)) mod N = (h + 1 + (c - 1)) mod N" by (rule mod_add_left_eq)
  then show ?thesis using assms(2) by simp
qed

lemma sched_take_head:
  assumes "sched_ok k" "0 < s_count k"
  shows "sched_ok (sched_take_at k 0) \<and> ready (sched_take_at k 0) = tl (ready k)"
proof
  have h: "s_head k < 256" "s_tail k = (s_head k + s_count k) mod 256" "s_count k \<le> 256"
    using assms(1) by (simp_all add: sched_ok_def)
  have t: "sched_take_at k 0 = k\<lparr>s_head := (s_head k + 1) mod 256, s_count := s_count k - 1\<rparr>"
    using h by (simp add: sched_take_at_def sched_take_def)
  show "sched_ok (sched_take_at k 0)"
    using h head_forward [of "s_head k" 256 "s_count k"] assms(2) unfolding t by (simp add: sched_ok_def)
  show "ready (sched_take_at k 0) = tl (ready k)"
    unfolding t by (intro nth_equalityI) (simp_all add: ready_nth nth_tl mod_simps)
qed

lemma sched_take_inner:
  assumes "sched_ok k" "0 < i" "i < s_count k" "s_head k + i < FLUX_SCHED_QUEUE_SIZE"
  shows "sched_take_at k i =
    k\<lparr>s_queue := ring_shift 256 (s_head k + i) (s_count k - 1 - i) (s_queue k),
      s_tail := (s_tail k + 256 - 1) mod 256, s_count := s_count k - 1\<rparr>"
proof -
  have "nat (int (s_count k) - (int (s_head k + i) - int (s_head k) + 1)) = s_count k - 1 - i"
    using assms by simp
  then show ?thesis using assms by (simp only: sched_take_at_def sched_take_def Let_def mod_less) simp
qed

lemma sched_take_wrapped:
  assumes "sched_ok k" "0 < i" "i < s_count k" "FLUX_SCHED_QUEUE_SIZE \<le> s_head k + i"
  shows "sched_take_at k i =
    k\<lparr>s_queue := ring_shift 256 (s_head k + i) (256 + (s_count k - 1 - i)) (s_queue k),
      s_tail := (s_tail k + 256 - 1) mod 256, s_count := s_count k - 1\<rparr>"
proof -
  have h: "s_head k < 256" "s_count k \<le> 256" using assms(1) by (simp_all add: sched_ok_def)
  then have m: "(s_head k + i) mod 256 = s_head k + i - 256" using assms by (auto simp: mod_if)
  then have "(s_head k + i) mod 256 \<noteq> s_head k" using assms h by simp
  moreover have "nat (int (s_count k) - (int (s_head k + i - 256) - int (s_head k) + 1)) =
      256 + (s_count k - 1 - i)"
    using assms h by (simp add: of_nat_diff)
  moreover have "ring_shift 256 (s_head k + i - 256) n a = ring_shift 256 (s_head k + i) n a"
    for n and a :: "nat \<Rightarrow> sched_entry"
    using ring_shift_base [of 256 "s_head k + i - 256" n a] assms(4) by simp
  ultimately show ?thesis
    unfolding sched_take_at_def sched_take_def Let_def by (simp only: m if_False)
qed

lemma sched_take_ok:
  assumes "sched_ok k" "i < s_count k" shows "sched_ok (sched_take_at k i)"
proof -
  have h: "s_head k < 256" "s_count k \<le> 256" "s_tail k = (s_head k + s_count k) mod 256"
    using assms(1) by (simp_all add: sched_ok_def)
  have t: "(s_tail k + 256 - 1) mod 256 = (s_head k + (s_count k - 1)) mod 256"
    using tail_back [of "s_head k" 256 "s_count k"] h assms by simp
  consider "i = 0" | "0 < i" "s_head k + i < 256" | "0 < i" "256 \<le> s_head k + i" by linarith
  then show ?thesis
  proof cases
    case 1 then show ?thesis using sched_take_head [OF assms(1)] assms(2) by simp
  next
    case 2 then show ?thesis
      using sched_take_inner [OF assms(1) 2(1) assms(2)] h t by (simp add: sched_ok_def)
  next
    case 3 then show ?thesis
      using sched_take_wrapped [OF assms(1) 3(1) assms(2)] h t by (simp add: sched_ok_def)
  qed
qed

lemma sched_take_ready:
  assumes "sched_ok k" "i < s_count k"
  shows "ready (sched_take_at k i) =
    (if sched_removable k i then take i (ready k) @ drop (Suc i) (ready k)
     else tl (take i (ready k)) @ drop (Suc i) (ready k) @ [s_queue k (s_tail k)])"
proof -
  have h: "s_count k \<le> 256" "s_tail k = (s_head k + s_count k) mod 256"
    using assms(1) by (simp_all add: sched_ok_def)
  consider "i = 0" | "0 < i" "s_head k + i < 256" | "0 < i" "256 \<le> s_head k + i" by linarith
  then show ?thesis
  proof cases
    case 1 then show ?thesis
      using sched_take_head [OF assms(1)] assms(2) by (simp add: sched_removable_def drop_Suc)
  next
    case 2 then show ?thesis
      using sched_take_inner [OF assms(1) 2(1) assms(2)] ring_remove [of i "s_count k" 256] h assms
      by (simp add: ready_def sched_removable_def)
  next
    case 3 then show ?thesis
      using sched_take_wrapped [OF assms(1) 3(1) assms(2)] ring_overrun [of i "s_count k" 256] h assms
      by (simp add: ready_def sched_removable_def)
  qed
qed

interpretation rq: gap_queue sched_ok ready 256 sched_put sched_removable sched_take_at
proof
  show "length (ready k) \<le> 256" if "sched_ok k" for k
    using that by (simp add: sched_ok_def)
  show "sched_ok (sched_put k e) \<and> ready (sched_put k e) = ready k @ [e]"
    if "sched_ok k" "length (ready k) < 256" for k e
    using that by (intro sched_put_ready) auto
  show "sched_ok (sched_take_at k i) \<and> ready (sched_take_at k i) = take i (ready k) @ drop (Suc i) (ready k)"
    if "sched_ok k" "i < length (ready k)" "sched_removable k i" for k i
    using that by (simp add: sched_take_ok sched_take_ready)
  show "sched_removable k 0" for k by (simp add: sched_removable_def)
qed

end
