(* ===== verification/FluxSchedProps.thy ===== *)
theory FluxSchedProps
  imports FluxSched
begin

section \<open>What the scheduler does to the list of ready processes\<close>

text \<open>
  The effect of aging, selection, enqueue, dequeue and a turn of the scheduler loop on \<open>ready k\<close>,
  against a specification on lists: \<open>top_index\<close> picks the first entry that no entry beats and \<open>aged\<close>
  raises one entry that has waited too long. The queue facts come from the interpretation \<open>rq\<close> of
  \<open>gap_queue\<close>.
\<close>

subsection \<open>Selection\<close>

definition top_index :: "sched_entry list \<Rightarrow> nat" where
  "top_index es = length (takeWhile (\<lambda>e. list_ex (\<lambda>f. se_priority e < se_priority f) es) es)"

text \<open>It is the first position of the greatest priority.\<close>

definition is_top :: "sched_entry list \<Rightarrow> nat \<Rightarrow> bool" where
  "is_top es i \<longleftrightarrow> i < length es \<and> (\<forall>f \<in> set es. se_priority f \<le> se_priority (es ! i))
     \<and> (\<forall>j < i. se_priority (es ! j) < se_priority (es ! i))"

lemma top_indexI: "is_top es i \<Longrightarrow> top_index es = i"
proof -
  assume t: "is_top es i"
  have "takeWhile (\<lambda>e. list_ex (\<lambda>f. se_priority e < se_priority f) es) es = take i es"
    using t by (intro takeWhile_eq_take_P_nth) (auto simp: is_top_def list_ex_iff not_less)
  then show ?thesis using t by (simp add: top_index_def is_top_def)
qed

lemma is_top_snoc:
  assumes "is_top es i"
  shows "is_top (es @ [e]) (if se_priority (es ! i) < se_priority e then length es else i)"
proof (cases "se_priority (es ! i) < se_priority e")
  case True
  have "se_priority f < se_priority e" if "f \<in> set es" for f
    using assms that True by (auto simp: is_top_def intro: le_less_trans)
  then show ?thesis using True by (auto simp: is_top_def nth_append less_imp_le)
next
  case False
  then show ?thesis using assms by (auto simp: is_top_def nth_append not_less)
qed

lemma is_top_ex: "es \<noteq> [] \<Longrightarrow> \<exists>i. is_top es i"
proof (induction es rule: rev_nonempty_induct)
  case (single x)
  then show ?case by (auto simp: is_top_def)
next
  case (snoc x xs)
  then show ?case using is_top_snoc by blast
qed

lemma is_top_index: "es \<noteq> [] \<Longrightarrow> is_top es (top_index es)"
  using is_top_ex top_indexI by metis

lemma top_index_snoc:
  "es \<noteq> [] \<Longrightarrow> top_index (es @ [e]) =
    (if se_priority (es ! top_index es) < se_priority e then length es else top_index es)"
  by (intro top_indexI is_top_snoc is_top_index)

lemma top_index_less: "es \<noteq> [] \<Longrightarrow> top_index es < length es"
  using is_top_index [of es] by (simp add: is_top_def)

text \<open>The scan of \<open>sched_find_highest_priority\<close> keeps the best of the entries seen so far.\<close>

lemma find_highest:
  assumes "sched_ok k" "0 < s_count k"
  shows "sched_find_highest_priority k =
    Some ((s_head k + top_index (ready k)) mod FLUX_SCHED_QUEUE_SIZE)"
proof -
  let ?step = "\<lambda>i (best_idx, best_priority).
     let idx = (s_head k + i) mod 256; pri = se_priority (s_queue k idx)
     in if best_priority < pri then (idx, pri) else (best_idx, best_priority)"
  let ?at = "\<lambda>i. (s_head k + i) mod 256"
  let ?ix = "\<lambda>n. top_index (take n (ready k))"
  have scan: "fold ?step [0..<n] (s_head k, se_priority (s_queue k (s_head k))) =
      (?at (?ix n), se_priority (s_queue k (?at (?ix n))))" if "0 < n" "n \<le> s_count k" for n
    using that
  proof (induction n)
    case (Suc n)
    have h: "s_head k < 256" using assms(1) by (simp add: sched_ok_def)
    show ?case
    proof (cases "n = 0")
      case True
      have "take 1 (ready k) = [ready k ! 0]" using assms(2) by (simp add: take_Suc_conv_app_nth)
      then have "top_index (take 1 (ready k)) = 0" by (simp add: top_index_def)
      then show ?thesis using True h by (simp add: Let_def)
    next
      case False
      have t: "take (Suc n) (ready k) = take n (ready k) @ [s_queue k (?at n)]"
        using Suc.prems by (simp add: take_Suc_conv_app_nth ready_nth)
      have ne: "take n (ready k) \<noteq> []"
        using False Suc.prems ready_length [of k] by (metis Suc_le_lessD length_0_conv not_less0 take_eq_Nil)
      have lt: "?ix n < n" using top_index_less [OF ne] Suc.prems by simp
      have "take n (ready k) ! ?ix n = s_queue k (?at (?ix n))"
        using lt Suc.prems by (simp add: ready_nth)
      then have "?ix (Suc n) = (if se_priority (s_queue k (?at (?ix n))) < se_priority (s_queue k (?at n)) then n else ?ix n)"
        using top_index_snoc [OF ne, of "s_queue k (?at n)"] t Suc.prems by (simp add: min_def)
      then show ?thesis using Suc False by (simp add: Let_def)
    qed
  qed simp
  show ?thesis
    using scan [of "s_count k"] assms(2) by (simp add: sched_find_highest_priority_def)
qed

subsection \<open>Aging\<close>

definition aged :: "u64 \<Rightarrow> sched_entry \<Rightarrow> sched_entry" where
  "aged now e = (if 1000 < unat (now - se_wait_start e) \<and> se_priority e < 200
     then e\<lparr>se_priority := min 200 (se_priority e + 10)\<rparr> else e)"

text \<open>The 8-bit sum does not wrap below the limit, so aging only raises.\<close>

lemma aged_priority:
  "se_priority e \<le> se_priority (aged now e)"
  "se_priority (aged now e) \<le> max 200 (se_priority e)"
  by (auto simp: aged_def word_le_nat_alt word_less_nat_alt unat_word_ariths min_def max_def split: if_splits)

lemma aged_fields [simp]:
  "se_pid (aged now e) = se_pid e" "se_wait_start (aged now e) = se_wait_start e"
  "se_time_slice (aged now e) = se_time_slice e" "se_thinking (aged now e) = se_thinking e"
  by (simp_all add: aged_def)

lemma age_entry_fields [simp]:
  "s_head (age_entry now i k) = s_head k" "s_count (age_entry now i k) = s_count k"
  "s_tail (age_entry now i k) = s_tail k" "s_current (age_entry now i k) = s_current k"
  "s_stats (age_entry now i k) = s_stats k" "k_tick (age_entry now i k) = k_tick k"
  by (auto simp: age_entry_def Let_def split: option.split)

lemma age_entry_queue:
  "s_queue (age_entry now i k) =
    (let idx = (s_head k + i) mod 256 in (s_queue k)(idx := aged now (s_queue k idx)))"
  by (auto simp: age_entry_def Let_def aged_def min_def not_less split: option.split)

lemma age_fold:
  "n \<le> s_count k \<Longrightarrow> s_count k \<le> 256 \<Longrightarrow>
   s_head (fold (age_entry now) [0..<n] k) = s_head k \<and> s_count (fold (age_entry now) [0..<n] k) = s_count k
   \<and> s_tail (fold (age_entry now) [0..<n] k) = s_tail k \<and> s_stats (fold (age_entry now) [0..<n] k) = s_stats k
   \<and> s_current (fold (age_entry now) [0..<n] k) = s_current k
   \<and> ready (fold (age_entry now) [0..<n] k) = map (aged now) (take n (ready k)) @ drop n (ready k)"
proof (induction n)
  case (Suc n)
  let ?k = "fold (age_entry now) [0..<n] k"
  have IH: "s_head ?k = s_head k" "s_count ?k = s_count k" "s_tail ?k = s_tail k" "s_stats ?k = s_stats k"
    "s_current ?k = s_current k" "ready ?k = map (aged now) (take n (ready k)) @ drop n (ready k)"
    using Suc by auto
  have "ready (age_entry now n ?k) = (ready ?k)[n := aged now (ready ?k ! n)]"
  proof (intro nth_equalityI)
    fix i assume "i < length (ready (age_entry now n ?k))"
    then have i: "i < s_count k" using IH by simp
    have "((s_head k + i) mod 256 = (s_head k + n) mod 256) = (i = n)"
      using i Suc.prems by (intro mod_window_eq) auto
    then show "ready (age_entry now n ?k) ! i = (ready ?k)[n := aged now (ready ?k ! n)] ! i"
      using i IH(1-5) Suc.prems by (auto simp: ready_nth age_entry_queue Let_def nth_list_update)
  qed simp
  also have "\<dots> = map (aged now) (take (Suc n) (ready k)) @ drop (Suc n) (ready k)"
    using Suc.prems unfolding IH(6)
    by (simp add: list_update_append take_Suc_conv_app_nth nth_append min_def)
      (metis Cons_nth_drop_Suc Suc_le_lessD list_update_code(2) ready_length)
  finally show ?case using IH by simp
qed simp

text \<open>\<open>sched_age_priorities\<close> acts on every thousandth call.\<close>

definition aging_due :: "kernel \<Rightarrow> bool" where
  "aging_due k \<longleftrightarrow> 1000 \<le> unat (st_boost_timer (s_stats k) + 1)"

lemma age_ready:
  assumes "sched_ok k"
  shows "sched_ok (sched_age_priorities k)"
    "s_current (sched_age_priorities k) = s_current k"
    "s_head (sched_age_priorities k) = s_head k" "s_count (sched_age_priorities k) = s_count k"
    "ready (sched_age_priorities k) =
       (if aging_due k then map (aged (sched_current_tick k)) (ready k) else ready k)"
proof -
  let ?t = "st_boost_timer (s_stats k) + 1"
  let ?k0 = "k\<lparr>s_stats := (s_stats k)\<lparr>st_boost_timer := 0\<rparr>\<rparr>"
  have r: "ready (s_stats_update f k) = ready k" for f by (simp add: ready_def)
  have c: "s_count k \<le> 256" using assms by (simp add: sched_ok_def)
  have e: "sched_age_priorities k = (if aging_due k then
      fold (age_entry (sched_current_tick k)) [0..<s_count k] ?k0
      else k\<lparr>s_stats := (s_stats k)\<lparr>st_boost_timer := ?t\<rparr>\<rparr>)"
    by (simp add: sched_age_priorities_def Let_def aging_due_def sched_current_tick_def not_less)
  show "sched_ok (sched_age_priorities k)" "s_current (sched_age_priorities k) = s_current k"
    "s_head (sched_age_priorities k) = s_head k" "s_count (sched_age_priorities k) = s_count k"
    "ready (sched_age_priorities k) =
       (if aging_due k then map (aged (sched_current_tick k)) (ready k) else ready k)"
    using age_fold [of "s_count k" ?k0 "sched_current_tick k"] assms c unfolding e
    by (simp_all add: r sched_ok_def)
qed

subsection \<open>Enqueue and dequeue\<close>

lemma get_pcb_cong:
  "(\<And>i. p_state (k_pcbs k' i) = p_state (k_pcbs k i)) \<Longrightarrow> flux_get_pcb k' pid = flux_get_pcb k pid"
  by (simp add: flux_get_pcb_def Let_def)

lemma get_pcb_stats [simp]:
  "flux_get_pcb (s_stats_update f k) pid = flux_get_pcb k pid"
  "flux_get_pcb (s_queue_update g k) pid = flux_get_pcb k pid"
  "flux_get_pcb (s_current_update h k) pid = flux_get_pcb k pid"
  "flux_get_pcb (k_current_pid_update h k) pid = flux_get_pcb k pid"
  "flux_get_pcb (k_tick_update h' k) pid = flux_get_pcb k pid"
  by (simp_all add: flux_get_pcb_def Let_def)

lemma age_entry_state: "p_state (k_pcbs (age_entry now i k) j) = p_state (k_pcbs k j)"
  by (auto simp: age_entry_def Let_def split: option.split)

lemma age_fold_state: "p_state (k_pcbs (fold (age_entry now) xs k) j) = p_state (k_pcbs k j)"
  by (induction xs arbitrary: k) (auto simp: age_entry_state)

lemma age_state: "p_state (k_pcbs (sched_age_priorities k) j) = p_state (k_pcbs k j)"
  by (simp add: sched_age_priorities_def Let_def age_fold_state)

lemma take_pcbs [simp]: "k_pcbs (sched_take k b) = k_pcbs k" "s_stats (sched_take k b) = s_stats k"
  "s_current (sched_take k b) = s_current k"
  by (simp_all add: sched_take_def Let_def)

lemma put_pcbs [simp]: "k_pcbs (sched_put k e) = k_pcbs k" "s_current (sched_put k e) = s_current k"
  "s_stats (sched_put k e) = s_stats k"
  by (simp_all add: sched_put_def)

lemma ready_upd [simp]:
  "ready (upd_pcb j f k) = ready k" "ready (s_stats_update g k) = ready k"
  "ready (s_current_update h k) = ready k" "ready (k_current_pid_update h k) = ready k"
  "ready (k_tick_update h' k) = ready k"
  by (simp_all add: ready_def)

lemma sched_ok_upd [simp]:
  "sched_ok (upd_pcb j f k) = sched_ok k" "sched_ok (s_stats_update g k) = sched_ok k"
  "sched_ok (s_current_update h k) = sched_ok k" "sched_ok (k_current_pid_update h k) = sched_ok k"
  "sched_ok (k_tick_update h' k) = sched_ok k"
  by (simp_all add: sched_ok_def)

text \<open>The entry that \<open>flux_sched_enqueue\<close> makes for a process.\<close>

definition new_entry :: "kernel \<Rightarrow> u32 \<Rightarrow> pcb \<Rightarrow> sched_entry" where
  "new_entry k pid p =
     \<lparr>se_pid = pid, se_priority = p_priority p, se_wait_start = ucast (k_tick k),
      se_time_slice = s_default_timeslice k + (if p_is_agent p \<and> p_state p = PROC_AGENT_THINKING then 20 else 0),
      se_thinking = (p_is_agent p \<and> p_state p = PROC_AGENT_THINKING)\<rparr>"

lemma queued_iff:
  "list_ex (\<lambda>i. se_pid (s_queue k ((s_head k + i) mod 256)) = pid) [0..<s_count k]
     \<longleftrightarrow> pid \<in> se_pid ` set (ready k)"
  by (auto simp: list_ex_iff ready_def ring_list_def)

text \<open>The queued processes are exactly those of the list before and the new one.\<close>

lemma enqueue_cases:
  assumes "sched_ok k"
  shows "case flux_sched_enqueue k pid of (st, k') \<Rightarrow> sched_ok k' \<and>
    (if pid = 0 then st = FLUX_ERR_INVALID \<and> k' = k
     else if pid \<in> se_pid ` set (ready k) then st = FLUX_OK \<and> k' = k
     else if s_count k = 256 then st = FLUX_ERR_OVERFLOW \<and> k' = k
     else case flux_get_pcb k pid of
       None \<Rightarrow> st = FLUX_ERR_NOTFOUND \<and> k' = k
     | Some j \<Rightarrow> st = FLUX_OK \<and> ready k' = ready k @ [new_entry k pid (k_pcbs k j)]
         \<and> k_pcbs k' = (k_pcbs k)(j := (k_pcbs k j)\<lparr>p_state :=
             (if p_state (k_pcbs k j) \<in> {PROC_BLOCKED, PROC_AGENT_IDLE} then PROC_READY
              else p_state (k_pcbs k j))\<rparr>)
         \<and> s_current k' = s_current k \<and> s_stats k' = s_stats k)"
proof -
  have full: "sched_queue_full k = (s_count k = 256)"
    using assms by (auto simp: sched_queue_full_def sched_ok_def)
  have id: "(k_pcbs k)(j := k_pcbs k j\<lparr>p_state := p_state (k_pcbs k j)\<rparr>) = k_pcbs k" for j by simp
  have put: "s_count k \<noteq> 256 \<Longrightarrow> sched_ok (sched_put k e) \<and> ready (sched_put k e) = ready k @ [e]" for e
    using assms by (intro sched_put_ready) (auto simp: sched_ok_def)
  show ?thesis
    using assms put
    by (simp add: flux_sched_enqueue_def queued_iff full Let_def new_entry_def sched_current_tick_def id
        split: option.split)
qed

lemma dequeue_cases:
  assumes "sched_ok k" "0 < s_count k"
  defines "es \<equiv> ready (sched_age_priorities k)"
  defines "t \<equiv> top_index es"
  shows "case flux_sched_dequeue k of (pid, k') \<Rightarrow> sched_ok k' \<and> pid = se_pid (es ! t)
    \<and> s_current k' = s_current k
    \<and> ready k' = (if sched_removable k t then take t es @ drop (Suc t) es
        else tl (take t es) @ drop (Suc t) es @ [s_queue (sched_age_priorities k) (s_tail k)])
    \<and> (case flux_get_pcb k pid of None \<Rightarrow> True
       | Some j \<Rightarrow> p_state (k_pcbs k' j) = PROC_RUNNING
           \<and> st_current_timeslice (s_stats k') = ucast (se_time_slice (es ! t)))"
proof -
  let ?k = "sched_age_priorities k" and ?b = "(s_head k + t) mod 256"
  have a: "sched_ok ?k" "s_head ?k = s_head k" "s_count ?k = s_count k" "s_current ?k = s_current k"
    using age_ready [OF assms(1)] by simp_all
  have tail: "s_tail ?k = s_tail k" using a assms(1) by (simp add: sched_ok_def)
  have len: "length es = s_count k" using a by (simp add: es_def)
  then have t: "t < s_count k" using top_index_less [of es] assms(2) by (cases es) (auto simp: t_def)
  have find: "sched_find_highest_priority ?k = Some ?b"
    using find_highest [of ?k] a assms(2) by (simp add: t_def es_def)
  have at: "s_queue ?k ?b = es ! t" using t a by (simp add: es_def ready_nth)
  have take: "sched_take ?k ?b = sched_take_at ?k t" using a by (simp add: sched_take_at_def)
  have ok: "sched_ok (sched_take_at ?k t)"
    and r: "ready (sched_take_at ?k t) = (if sched_removable k t then take t es @ drop (Suc t) es
        else tl (take t es) @ drop (Suc t) es @ [s_queue ?k (s_tail k)])"
    using sched_take_ok [of ?k t] sched_take_ready [of ?k t] a t tail
    by (simp_all add: es_def sched_removable_def)
  have g: "flux_get_pcb (sched_take_at ?k t) pid = flux_get_pcb k pid" for pid
    by (rule get_pcb_cong) (simp add: sched_take_at_def age_state)
  have e: "flux_sched_dequeue k = (se_pid (es ! t), case flux_get_pcb k (se_pid (es ! t)) of
      None \<Rightarrow> sched_take_at ?k t
    | Some j \<Rightarrow> (let k3 = upd_pcb j (\<lambda>p. p\<lparr>p_state := PROC_RUNNING\<rparr>) (sched_take_at ?k t)
        in k3\<lparr>s_stats := (s_stats k3)\<lparr>st_current_timeslice := ucast (se_time_slice (es ! t))\<rparr>\<rparr>))"
    using assms(2) by (simp add: flux_sched_dequeue_def sched_queue_empty_def find at take g Let_def)
  show ?thesis
    unfolding e using ok r a(4) by (simp add: Let_def sched_take_at_def split: option.split)
qed

subsection \<open>The loop\<close>

text \<open>The processes the scheduler knows: the queued ones and the current one.\<close>

definition known :: "kernel \<Rightarrow> u32 multiset" where
  "known k = add_mset (s_current k) (mset (map se_pid (ready k)))"

lemma switch_next_cases:
  assumes "sched_ok k"
  shows "sched_ok (switch_next k)"
    "s_count k = 0 \<Longrightarrow> s_current (switch_next k) = FLUX_PID_KERNEL \<and> ready (switch_next k) = []"
    "0 < s_count k \<Longrightarrow> fst (flux_sched_dequeue k) \<noteq> 0 \<Longrightarrow>
      s_current (switch_next k) = fst (flux_sched_dequeue k) \<and> ready (switch_next k) = ready (snd (flux_sched_dequeue k))"
proof -
  have c: "sched_ok (snd (flux_sched_dequeue k))" 
    using dequeue_cases [OF assms] assms
    by (cases "s_count k = 0") (auto simp: flux_sched_dequeue_def sched_queue_empty_def split: prod.splits)
  then show "sched_ok (switch_next k)"
    by (auto simp: switch_next_def Let_def split: prod.split option.split)
  show "s_count k = 0 \<Longrightarrow> s_current (switch_next k) = FLUX_PID_KERNEL \<and> ready (switch_next k) = []"
    by (simp add: switch_next_def flux_sched_dequeue_def sched_queue_empty_def Let_def ready_def)
  show "0 < s_count k \<Longrightarrow> fst (flux_sched_dequeue k) \<noteq> 0 \<Longrightarrow>
      s_current (switch_next k) = fst (flux_sched_dequeue k) \<and> ready (switch_next k) = ready (snd (flux_sched_dequeue k))"
    by (auto simp: switch_next_def Let_def split: prod.split option.split)
qed

lemma sched_iteration_ok:
  assumes "sched_ok k" shows "sched_ok (sched_iteration k)"
proof -
  have r: "sched_ok (requeue_previous p k')" if "sched_ok k'" for p k'
  proof -
    have "sched_ok (snd (flux_sched_enqueue (s_stats_update f k') p))" for f
      using enqueue_cases [of "s_stats_update f k'" p] that by (auto split: prod.splits)
    moreover have "sched_ok (snd (flux_sched_enqueue k' p))"
      using enqueue_cases [of k' p] that by (auto split: prod.splits)
    ultimately show ?thesis using that by (auto simp: requeue_previous_def Let_def split: option.split)
  qed
  show ?thesis
    using assms switch_next_cases(1) [OF r, of "k\<lparr>k_tick := k_tick k + 1\<rparr>" "s_current k"]
    by (auto simp: sched_iteration_def Let_def split: option.split)
qed

text \<open>The previous process goes to the end of the queue.\<close>

lemma requeue_running:
  assumes "sched_ok k" "s_count k < 256" "p \<notin> {0, 1}" "p \<notin> se_pid ` set (ready k)"
    and "flux_get_pcb k p = Some j" "p_state (k_pcbs k j) = PROC_RUNNING"
  shows "sched_ok (requeue_previous p k)" "map se_pid (ready (requeue_previous p k)) = map se_pid (ready k) @ [p]"
proof -
  let ?k = "if st_current_timeslice (s_stats k) = 0
    then k\<lparr>s_stats := (s_stats k)\<lparr>st_preemptions := st_preemptions (s_stats k) + 1\<rparr>\<rparr> else k"
  have e: "requeue_previous p k = snd (flux_sched_enqueue ?k p)"
    using assms by (simp add: requeue_previous_def)
  have "sched_ok ?k" "ready ?k = ready k" "flux_get_pcb ?k p = Some j" "s_count ?k \<noteq> 256"
    using assms by simp_all
  then show "sched_ok (requeue_previous p k)"
    "map se_pid (ready (requeue_previous p k)) = map se_pid (ready k) @ [p]"
    using enqueue_cases [of ?k p] assms(3,4)
    by (auto simp: e new_entry_def split: prod.splits)
qed

lemma take_drop_mset:
  "i < length xs \<Longrightarrow> add_mset (xs ! i) (mset (take i xs @ drop (Suc i) xs)) = mset xs"
  by (metis id_take_nth_drop mset.simps(2) mset_append union_mset_add_mset_right)

lemma switch_keeps:
  assumes "sched_ok k" "0 < s_count k" "s_head k + s_count k \<le> 256" "0 \<notin> se_pid ` set (ready k)"
  shows "known (switch_next k) = mset (map se_pid (ready k))"
proof -
  let ?es = "ready (sched_age_priorities k)" and ?t = "top_index (ready (sched_age_priorities k))"
  have pids: "map se_pid ?es = map se_pid (ready k)" using age_ready(5) [OF assms(1)] by simp
  have "length ?es = s_count k" using age_ready(4) [OF assms(1)] by simp
  then have t: "?t < length ?es"
    using top_index_less [of ?es] assms(2) by (cases "?es = []") simp_all
  have len: "length ?es = s_count k" using pids by (metis length_map ready_length)
  obtain pid k' where d: "flux_sched_dequeue k = (pid, k')" by fastforce
  have p: "pid = se_pid (?es ! ?t)" and r: "ready k' = take ?t ?es @ drop (Suc ?t) ?es"
    using dequeue_cases [OF assms(1,2)] d t len assms(3) by (auto simp: sched_removable_def)
  have "pid \<in> set (map se_pid ?es)" using p t by simp
  then have "pid \<noteq> 0" using assms(4) unfolding pids by auto
  then have "known (switch_next k) = mset (map se_pid (?es ! ?t # take ?t ?es @ drop (Suc ?t) ?es))"
    using switch_next_cases(3) [OF assms(1,2)] d p r by (simp add: known_def)
  also have "\<dots> = image_mset se_pid (add_mset (?es ! ?t) (mset (take ?t ?es @ drop (Suc ?t) ?es)))" by simp
  also have "\<dots> = mset (map se_pid ?es)" using take_drop_mset [OF t] by simp
  finally show ?thesis using pids by simp
qed

subsection \<open>Properties\<close>

text \<open>Enqueueing a pid. An invalid pid, a pid already queued, a full queue and a pid without a live
  control block leave the kernel as it was, with the status the function documents. Otherwise the
  process is appended behind all others, with the priority of its control block, the current tick
  and the default time slice, longer by 20 ticks for an agent that is thinking; a blocked process or
  idle agent becomes ready. No pid is ever queued twice.
\<close>

theorem enqueue_spec:
  assumes "sched_ok k"
  shows "case flux_sched_enqueue k pid of (st, k') \<Rightarrow>
    (if pid = 0 then st = FLUX_ERR_INVALID \<and> k' = k
     else if pid \<in> se_pid ` set (ready k) then st = FLUX_OK \<and> k' = k
     else if s_count k = 256 then st = FLUX_ERR_OVERFLOW \<and> k' = k
     else case flux_get_pcb k pid of
       None \<Rightarrow> st = FLUX_ERR_NOTFOUND \<and> k' = k
     | Some j \<Rightarrow> st = FLUX_OK \<and> ready k' = ready k @ [new_entry k pid (k_pcbs k j)]
         \<and> k_pcbs k' = (k_pcbs k)(j := (k_pcbs k j)\<lparr>p_state :=
             (if p_state (k_pcbs k j) \<in> {PROC_BLOCKED, PROC_AGENT_IDLE} then PROC_READY
              else p_state (k_pcbs k j))\<rparr>))
    \<and> (distinct (map se_pid (ready k')) \<longleftrightarrow> distinct (map se_pid (ready k)))"
  using enqueue_cases [OF assms, of pid]
  by (auto simp: new_entry_def split: prod.splits if_splits option.splits)


text \<open>A process lost. When the highest-priority entry lies past the wrap-around of the array, the
  process at the head of the queue is neither returned nor queued afterwards, unless the stale slot
  behind the queue happens to hold it.
\<close>

theorem dequeue_loses_head:
  assumes "sched_ok k" "0 < s_count k" "distinct (map se_pid (ready k))"
    and "\<not> sched_removable k (top_index (ready (sched_age_priorities k)))"
    and "se_pid (s_queue (sched_age_priorities k) (s_tail k)) \<noteq> se_pid (s_queue k (s_head k))"
  shows "let (pid, k') = flux_sched_dequeue k
    in se_pid (s_queue k (s_head k)) \<notin> insert pid (se_pid ` set (ready k'))"
proof -
  let ?es = "ready (sched_age_priorities k)"
  let ?t = "top_index ?es" and ?h = "se_pid (s_queue k (s_head k))"
  have pids: "map se_pid ?es = map se_pid (ready k)" using age_ready(5) [OF assms(1)] by simp
  have len: "length ?es = s_count k" using pids by (metis length_map ready_length)
  have t: "?t < length ?es" "0 < ?t"
    using top_index_less [of ?es] len assms(2,4) by (cases "?es = []"; force simp: sched_removable_def)+
  have "take ?t ?es \<noteq> []"
    using t by (metis less_nat_zero_code list.size(3) take_eq_Nil)
  then obtain e xs where es: "take ?t ?es = e # xs" by (cases "take ?t ?es") auto
  have all: "?es = e # xs @ ?es ! ?t # drop (Suc ?t) ?es"
    using id_take_nth_drop [OF t(1)] es by simp
  have "se_pid e = map se_pid ?es ! 0" using t es by (metis all length_greater_0_conv list.map_disc_iff list.simps(3) nth_Cons_0 nth_map)
  also have "\<dots> = ?h" using assms(1,2) unfolding pids by (simp add: ready_nth sched_ok_def)
  finally have e: "se_pid e = ?h" .
  have "distinct (map se_pid (e # xs @ ?es ! ?t # drop (Suc ?t) ?es))"
    using assms(3) pids all by metis
  then have d: "?h \<notin> se_pid ` set xs" "?h \<noteq> se_pid (?es ! ?t)" "?h \<notin> se_pid ` set (drop (Suc ?t) ?es)"
    using e by auto
  show ?thesis
    using dequeue_cases [OF assms(1,2)] assms(4,5) es d by (auto split: prod.splits)
qed

text \<open>No process is lost by a turn of the loop. When the running process's slice is over, it is put
  back and the next one picked: the processes known to the scheduler, queued or current, are the
  same before and after, as long as the queue does not go round the end of its array.
\<close>

theorem turn_keeps_processes:
  assumes "sched_ok k" "s_head k + s_count k < 256" "0 \<notin> se_pid ` set (ready k)"
    and "st_current_timeslice (s_stats k) = 0"
    and "s_current k \<notin> {0, 1}" "s_current k \<notin> se_pid ` set (ready k)"
    and "flux_get_pcb k (s_current k) = Some j" "p_state (k_pcbs k j) = PROC_RUNNING"
  shows "known (sched_iteration k) = known k"
proof -
  let ?k = "k\<lparr>k_tick := k_tick k + 1\<rparr>"
  let ?r = "requeue_previous (s_current k) ?k"
  have r: "sched_ok ?r" "map se_pid (ready ?r) = map se_pid (ready k) @ [s_current k]"
    using requeue_running [of ?k "s_current k" j] assms by simp_all
  have c: "s_count ?r = Suc (s_count k)" using r(2) by (metis length_append_singleton length_map ready_length)
  have h: "s_head ?r = s_head k"
    by (auto simp: requeue_previous_def flux_sched_enqueue_def sched_put_def Let_def split: option.split)
  have "se_pid ` set (ready ?r) = insert (s_current k) (se_pid ` set (ready k))"
    using arg_cong [OF r(2), of set] by simp
  then have "known (switch_next ?r) = mset (map se_pid (ready ?r))"
    using assms(2,3,5) r(1) c h by (intro switch_keeps) auto
  moreover have "sched_iteration k = switch_next ?r"
    using assms(4) by (simp add: sched_iteration_def)
  ultimately show ?thesis unfolding r(2) by (simp add: known_def)
qed

text \<open>A time slice. While the current process has \<open>n\<close> ticks left, \<open>n\<close> iterations of the loop only
  pass time: the clock and the process's CPU time advance by \<open>n\<close> and the slice shrinks by \<open>n\<close>;
  neither the queue nor any other process is touched.
\<close>

theorem slice_runs:
  assumes "s_running k" "s_current k \<noteq> 0" "n \<le> unat (st_current_timeslice (s_stats k))"
    and "flux_get_pcb k (s_current k) = Some j"
  shows "sched_iterations n k =
    k\<lparr>k_tick := k_tick k + of_nat n,
      s_stats := (s_stats k)\<lparr>st_current_timeslice := st_current_timeslice (s_stats k) - of_nat n\<rparr>,
      k_pcbs := (k_pcbs k)(j := (k_pcbs k j)\<lparr>p_cpu_time := p_cpu_time (k_pcbs k j) + of_nat n\<rparr>)\<rparr>"
  using assms
proof (induction n arbitrary: k)
  case (Suc n)
  let ?k = "sched_iteration k" and ?t = "st_current_timeslice (s_stats k)"
  have "0 < ?t" using Suc.prems(3) by (metis Suc_le_lessD gr_implies_not0 unat_0 word_neq_0_conv)
  have k: "?k = k\<lparr>k_tick := k_tick k + 1, s_stats := (s_stats k)\<lparr>st_current_timeslice := ?t - 1\<rparr>,
      k_pcbs := (k_pcbs k)(j := (k_pcbs k j)\<lparr>p_cpu_time := p_cpu_time (k_pcbs k j) + 1\<rparr>)\<rparr>"
    using Suc.prems \<open>0 < ?t\<close> by (simp add: sched_iteration_def Let_def upd_pcb_def)
  have "flux_get_pcb ?k (s_current ?k) = Some j"
    using Suc.prems(4) get_pcb_cong [of ?k k] unfolding k by simp
  moreover have "n \<le> unat (?t - 1)"
    using Suc.prems(3) \<open>0 < ?t\<close> by (simp add: unat_minus_one)
  ultimately have "sched_iterations n ?k =
    ?k\<lparr>k_tick := k_tick ?k + of_nat n,
      s_stats := (s_stats ?k)\<lparr>st_current_timeslice := st_current_timeslice (s_stats ?k) - of_nat n\<rparr>,
      k_pcbs := (k_pcbs ?k)(j := (k_pcbs ?k j)\<lparr>p_cpu_time := p_cpu_time (k_pcbs ?k j) + of_nat n\<rparr>)\<rparr>"
    using Suc.prems by (intro Suc.IH) (simp_all add: k)
  moreover have "sched_iterations (Suc n) k = sched_iterations n ?k" using Suc.prems(1) by simp
  ultimately show ?case by (intro kernel.equality) (simp_all add: k algebra_simps fun_eq_iff)
qed simp

text \<open>Priority aging raises the priority of entries that have waited more than 1000 ticks by ten,
  to 200 at most, and changes neither which processes are queued nor their order. It acts on every
  thousandth call, whatever time has passed.
\<close>

theorem aging_spec:
  assumes "sched_ok k"
  shows "let k' = sched_age_priorities k in
    ready k' = (if aging_due k then map (aged (sched_current_tick k)) (ready k) else ready k)
    \<and> map se_pid (ready k') = map se_pid (ready k)
    \<and> list_all2 (\<lambda>e e'. se_priority e \<le> se_priority e' \<and> se_priority e' \<le> max 200 (se_priority e))
        (ready k) (ready k')"
  using age_ready(4,5) [OF assms] aged_priority by (simp add: list_all2_conv_all_nth)

subsection \<open>Witnesses\<close>

text \<open>Three entries, of priorities 1, 5 and 5; and the same at the end of the array, going round it.\<close>

abbreviation entry_at :: "u32 \<Rightarrow> u8 \<Rightarrow> sched_entry" where
  "entry_at pid pri \<equiv> \<lparr>se_pid = pid, se_priority = pri, se_wait_start = 0, se_time_slice = 10, se_thinking = False\<rparr>"

definition queue_demo :: kernel where
  "queue_demo = boot_kernel\<lparr>
     k_pcbs := (\<lambda>_. zero_pcb)(1 := zero_pcb\<lparr>p_pid := 2, p_state := PROC_RUNNING, p_priority := 9\<rparr>),
     k_tick := 5000, s_queue := (\<lambda>_. zero_entry)(0 := entry_at 3 1, 1 := entry_at 4 5, 2 := entry_at 5 5),
     s_head := 0, s_tail := 3, s_count := 3, s_running := True, s_current := 2,
     s_stats := zero_stats\<lparr>st_boost_timer := 999\<rparr>\<rparr>"

definition wrap_demo :: kernel where
  "wrap_demo = queue_demo\<lparr>
     s_queue := (\<lambda>_. zero_entry)(255 := entry_at 3 1, 0 := entry_at 4 5, 1 := entry_at 5 5),
     s_head := 255, s_tail := 2\<rparr>"

lemma demo_ok: "sched_ok queue_demo" "sched_ok wrap_demo"
  by code_simp+

theorem enqueue_spec_witness:
  "map se_pid (ready (snd (flux_sched_enqueue queue_demo 2))) = [3, 4, 5, 2]"
proof -
  have "2 \<notin> se_pid ` set (ready queue_demo)" "s_count queue_demo = 3" "flux_get_pcb queue_demo 2 = Some 1"
    "map se_pid (ready queue_demo) = [3, 4, 5]"
    by code_simp+
  then show ?thesis
    using enqueue_spec [OF demo_ok(1), of 2] by (auto simp: new_entry_def split: prod.splits)
qed

lemma demo_facts:
  "0 < s_count queue_demo" "top_index (ready (sched_age_priorities queue_demo)) = 1"
  "map se_pid (ready (sched_age_priorities queue_demo)) = [3, 4, 5]" "sched_removable queue_demo 1"
  "0 < s_count wrap_demo" "top_index (ready (sched_age_priorities wrap_demo)) = 1"
  "map se_pid (ready (sched_age_priorities wrap_demo)) = [3, 4, 5]" "\<not> sched_removable wrap_demo 1"
  "se_pid (s_queue (sched_age_priorities wrap_demo) (s_tail wrap_demo)) = 0"
  "se_pid (s_queue wrap_demo (s_head wrap_demo)) = 3" "distinct (map se_pid (ready wrap_demo))"
  by code_simp+


theorem dequeue_loses_head_witness:
  "let (pid, k') = flux_sched_dequeue wrap_demo in 3 \<notin> insert pid (se_pid ` set (ready k'))"
  using dequeue_loses_head [OF demo_ok(2)] demo_facts by simp

theorem turn_keeps_processes_witness:
  "known (sched_iteration queue_demo) = {#2, 3, 4, 5#} \<and> s_current (sched_iteration queue_demo) = 4"
proof -
  have "s_head queue_demo + s_count queue_demo < 256" "0 \<notin> se_pid ` set (ready queue_demo)"
    "st_current_timeslice (s_stats queue_demo) = 0" "s_current queue_demo \<notin> {0, 1}"
    "s_current queue_demo \<notin> se_pid ` set (ready queue_demo)"
    "flux_get_pcb queue_demo (s_current queue_demo) = Some 1" "p_state (k_pcbs queue_demo 1) = PROC_RUNNING"
    by code_simp+
  then have "known (sched_iteration queue_demo) = known queue_demo"
    by (intro turn_keeps_processes [OF demo_ok(1)])
  also have "\<dots> = add_mset (s_current queue_demo) (mset (map se_pid (ready queue_demo)))"
    by (simp add: known_def)
  also have "s_current queue_demo = 2" by code_simp
  also have "map se_pid (ready queue_demo) = [3, 4, 5]" by code_simp
  finally have "known (sched_iteration queue_demo) = {#2, 3, 4, 5#}" by simp
  moreover have "s_current (sched_iteration queue_demo) = 4" by code_simp
  ultimately show ?thesis ..
qed

theorem slice_runs_witness:
  "p_cpu_time (k_pcbs (sched_iterations 2 (queue_demo\<lparr>s_stats := zero_stats\<lparr>st_current_timeslice := 3\<rparr>\<rparr>)) 1) = 2"
proof -
  let ?k = "queue_demo\<lparr>s_stats := zero_stats\<lparr>st_current_timeslice := 3\<rparr>\<rparr>"
  have "s_running ?k" "s_current ?k \<noteq> 0" "flux_get_pcb ?k (s_current ?k) = Some 1" by code_simp+
  moreover have "2 \<le> unat (st_current_timeslice (s_stats ?k))" by simp
  moreover have "p_cpu_time (k_pcbs ?k 1) = 0" by code_simp
  ultimately show ?thesis using slice_runs [of ?k 2 1] by simp
qed

theorem aging_spec_witness:
  "map se_priority (ready (sched_age_priorities queue_demo)) = [11, 15, 15]"
proof -
  have "aging_due queue_demo"
    "map se_priority (map (aged (sched_current_tick queue_demo)) (ready queue_demo)) = [11, 15, 15]"
    by code_simp+
  then show ?thesis using aging_spec [OF demo_ok(1)] by (simp add: Let_def)
qed

end
