(* ===== verification/FluxIpc.thy ===== *)
theory FluxIpc
  imports FluxSched
begin

section \<open>Message passing between processes (kernel/ipc.c)\<close>

text \<open>
  Each of the first 256 pids has a queue of 64 messages. Sending and broadcasting run to completion.
  Receiving may wait: \<open>recv_begin\<close> is \<open>flux_a2a_recv\<close> up to its waiting loop, \<open>recv_poll\<close> one round
  of the loop, and \<open>recv_wait\<close> the loop for a number of rounds, with \<open>env n\<close> for what the rest of the
  system does to the kernel after round \<open>n\<close> (time passes, others send). \<open>None\<close> stands for still waiting.

  A buffer of the caller is the list of its bytes, \<open>None\<close> the null pointer; copying past its end is
  undefined behaviour. \<open>messages q\<close> is the list of pending messages, oldest first, and the queue
  operations meet the contract \<open>gap_queue\<close> at every position.
\<close>

abbreviation (input) FLUX_IPC_MAX_PAYLOAD :: nat where "FLUX_IPC_MAX_PAYLOAD \<equiv> 4096"
abbreviation (input) FLUX_IPC_MAX_BROADCAST_QUEUE :: nat where "FLUX_IPC_MAX_BROADCAST_QUEUE \<equiv> 256"
abbreviation (input) FLUX_IPC_TIMEOUT_INFINITE :: u64 where "FLUX_IPC_TIMEOUT_INFINITE \<equiv> 0xFFFFFFFF"

subsection \<open>Queues\<close>

text \<open>The index of a pid's queue in \<open>s_queues\<close>.\<close>

definition ipc_get_queue :: "u32 \<Rightarrow> nat option" where
  "ipc_get_queue pid = (if pid = 0 \<or> 256 < unat pid then None else Some (unat (pid - 1)))"

definition upd_queue :: "nat \<Rightarrow> (ipc_queue \<Rightarrow> ipc_queue) \<Rightarrow> kernel \<Rightarrow> kernel" where
  "upd_queue i f k = k\<lparr>i_queues := (i_queues k)(i := f (i_queues k i))\<rparr>"

definition upd_stats :: "(ipc_stats \<Rightarrow> ipc_stats) \<Rightarrow> kernel \<Rightarrow> kernel" where
  "upd_stats f k = k\<lparr>i_stats := f (i_stats k)\<rparr>"

definition ipc_queue_is_full :: "ipc_queue \<Rightarrow> bool" where
  "ipc_queue_is_full q \<longleftrightarrow> FLUX_IPC_QUEUE_DEPTH \<le> q_count q"

definition ipc_queue_is_empty :: "ipc_queue \<Rightarrow> bool" where
  "ipc_queue_is_empty q \<longleftrightarrow> q_count q = 0"

definition ipc_alloc_msg_id :: "kernel \<Rightarrow> u32 \<times> kernel" where
  "ipc_alloc_msg_id k = (i_msg_id k, k\<lparr>i_msg_id := i_msg_id k + 1\<rparr>)"

definition ipc_current_tick :: "kernel \<Rightarrow> u64" where
  "ipc_current_tick k = ucast (k_tick k)"

definition ipc_check_capability :: "kernel \<Rightarrow> u32 \<Rightarrow> bool" where
  "ipc_check_capability k sender = (case flux_get_pcb k sender of
     None \<Rightarrow> False
   | Some j \<Rightarrow> p_caps (k_pcbs k j) AND FLUX_CAP_COMMUNICATE \<noteq> 0)"

definition ipc_enqueue_message :: "ipc_queue \<Rightarrow> ipc_message \<Rightarrow> flux_status \<times> ipc_queue" where
  "ipc_enqueue_message q m =
     (if ipc_queue_is_full q then (FLUX_ERR_OVERFLOW, q\<lparr>q_dropped := q_dropped q + 1\<rparr>)
      else (FLUX_OK, q\<lparr>q_messages := (q_messages q)(q_tail q := m),
             q_tail := (q_tail q + 1) mod FLUX_IPC_QUEUE_DEPTH, q_count := q_count q + 1,
             q_total_recv := q_total_recv q + 1\<rparr>))"

definition ipc_dequeue_message :: "ipc_queue \<Rightarrow> flux_status \<times> ipc_message option \<times> ipc_queue" where
  "ipc_dequeue_message q =
     (if ipc_queue_is_empty q then (FLUX_ERR_NOTFOUND, None, q)
      else (FLUX_OK, Some (q_messages q (q_head q)),
            q\<lparr>q_head := (q_head q + 1) mod FLUX_IPC_QUEUE_DEPTH, q_count := q_count q - 1\<rparr>))"

text \<open>The first pending position from \<open>sender\<close>, any sender if it is zero.\<close>

definition find_message :: "ipc_queue \<Rightarrow> u32 \<Rightarrow> nat option" where
  "find_message q sender =
     (if sender = FLUX_PID_INVALID then (if 0 < q_count q then Some 0 else None)
      else List.find (\<lambda>i. m_sender (q_messages q ((q_head q + i) mod FLUX_IPC_QUEUE_DEPTH)) = sender)
             [0..<q_count q])"

text \<open>The slot of the message, as the pointer \<open>ipc_peek_message\<close> returns it.\<close>

definition ipc_peek_message :: "ipc_queue \<Rightarrow> u32 \<Rightarrow> nat option" where
  "ipc_peek_message q sender =
     (if ipc_queue_is_empty q then None
      else if sender = FLUX_PID_INVALID then Some (q_head q)
      else map_option (\<lambda>i. (q_head q + i) mod FLUX_IPC_QUEUE_DEPTH)
        (List.find (\<lambda>i. m_sender (q_messages q ((q_head q + i) mod FLUX_IPC_QUEUE_DEPTH)) = sender)
          [0..<q_count q]))"

definition ipc_remove_message :: "ipc_queue \<Rightarrow> int \<Rightarrow> flux_status \<times> ipc_queue" where
  "ipc_remove_message q msg_index =
     (if msg_index < 0 \<or> int (q_count q) \<le> msg_index then (FLUX_ERR_INVALID, q)
      else (FLUX_OK,
        q\<lparr>q_messages := ring_shift FLUX_IPC_QUEUE_DEPTH (q_head q + nat msg_index)
             (q_count q - 1 - nat msg_index) (q_messages q),
          q_count := q_count q - 1,
          q_tail := (q_tail q + FLUX_IPC_QUEUE_DEPTH - 1) mod FLUX_IPC_QUEUE_DEPTH\<rparr>))"

definition flux_ipc_init :: "kernel \<Rightarrow> flux_status \<times> kernel" where
  "flux_ipc_init k =
     (FLUX_OK,
      k\<lparr>i_queues := (\<lambda>_. zero_queue), i_broadcasts := (\<lambda>_. zero_broadcast), i_msg_id := 0,
        i_broadcast_count := 0, i_stats := zero_ipc_stats\<rparr>)"

subsection \<open>Sending\<close>

text \<open>The internal message, with the sender's capabilities and the first \<open>len\<close> bytes of the buffer.\<close>

definition build_message :: "kernel \<Rightarrow> u32 \<Rightarrow> u32 \<Rightarrow> u32 \<Rightarrow> u8 list \<Rightarrow> u64 \<Rightarrow> ipc_message" where
  "build_message k mid sender target bytes len =
     \<lparr>m_id = mid, m_sender = sender, m_target = target,
      m_sender_caps = (case flux_get_pcb k sender of None \<Rightarrow> 0 | Some j \<Rightarrow> p_caps (k_pcbs k j)),
      m_send_tick = ipc_current_tick k, m_payload_len = ucast len,
      m_payload = take (unat len) bytes\<rparr>"

text \<open>A blocked or idle receiver becomes ready and is queued for scheduling.\<close>

definition wake_target :: "u32 \<Rightarrow> nat \<Rightarrow> kernel \<Rightarrow> kernel" where
  "wake_target target tj k =
     (if p_state (k_pcbs k tj) = PROC_BLOCKED \<or> p_state (k_pcbs k tj) = PROC_AGENT_IDLE
      then snd (flux_sched_enqueue
             (upd_pcb tj (\<lambda>p. p\<lparr>p_state := PROC_READY, p_waiting_for := FLUX_PID_INVALID\<rparr>) k) target)
      else k)"

definition flux_a2a_send ::
  "kernel \<Rightarrow> u32 \<Rightarrow> u8 list option \<Rightarrow> u64 \<Rightarrow> (flux_status \<times> kernel) cres" where
  "flux_a2a_send k target msg len =
     (case msg of None \<Rightarrow> Val (FLUX_ERR_INVALID, k) | Some bytes \<Rightarrow>
      if len = 0 \<or> FLUX_IPC_MAX_PAYLOAD < unat len then Val (FLUX_ERR_INVALID, k)
      else if target = FLUX_PID_INVALID then Val (FLUX_ERR_INVALID, k)
      else let sender = flux_getpid k in
      if sender = FLUX_PID_INVALID then Val (FLUX_ERR_INVALID, k)
      else if \<not> ipc_check_capability k sender then
        Val (FLUX_ERR_DENIED, upd_stats (\<lambda>s. s\<lparr>is_capability_denied := is_capability_denied s + 1\<rparr>) k)
      else case flux_get_pcb k target of None \<Rightarrow> Val (FLUX_ERR_NOTFOUND, k) | Some tj \<Rightarrow>
      case ipc_get_queue target of None \<Rightarrow> Val (FLUX_ERR_NOTFOUND, k) | Some ti \<Rightarrow>
      if ipc_queue_is_full (i_queues k ti) then
        Val (FLUX_ERR_OVERFLOW, upd_stats (\<lambda>s. s\<lparr>is_queue_full := is_queue_full s + 1\<rparr>) k)
      else if length bytes < unat len then UB OobBuffer
      else
        let (mid, k1) = ipc_alloc_msg_id k; m = build_message k1 mid sender target bytes len;
            (status, q) = ipc_enqueue_message (i_queues k1 ti) m; k2 = upd_queue ti (\<lambda>_. q) k1
        in Val (status,
             if status = FLUX_OK then
               (let k3 = upd_stats (\<lambda>s. s\<lparr>is_total_sent := is_total_sent s + 1\<rparr>) k2;
                    k4 = (case ipc_get_queue sender of None \<Rightarrow> k3
                          | Some si \<Rightarrow> upd_queue si (\<lambda>q. q\<lparr>q_total_sent := q_total_sent q + 1\<rparr>) k3)
                in wake_target target tj k4)
             else k2))"

subsection \<open>Receiving\<close>

text \<open>
  What a call gives its caller: the values stored through \<open>sender\<close>, \<open>buf\<close> and \<open>len\<close>, or a status
  with the three untouched.
\<close>

datatype recv_outcome = Received (sent_by: "u32 option") (out_buf: "u8 list") (out_len: u64) | Failed flux_status

definition recv_filter :: "u32 option \<Rightarrow> u32" where
  "recv_filter sender = (case sender of None \<Rightarrow> FLUX_PID_INVALID | Some s \<Rightarrow> s)"

text \<open>Copying out the message at position \<open>i\<close> and taking it off the queue.\<close>

definition recv_message ::
  "kernel \<Rightarrow> nat \<Rightarrow> nat \<Rightarrow> u32 option \<Rightarrow> u8 list \<Rightarrow> u64 \<Rightarrow> (recv_outcome \<times> kernel) cres" where
  "recv_message k qi i sender buf len =
     (let q = i_queues k qi; m = q_messages q ((q_head q + i) mod FLUX_IPC_QUEUE_DEPTH);
          copy_len = (if len < ucast (m_payload_len m) then unat len else unat (m_payload_len m))
      in if length buf < copy_len then UB OobBuffer
         else Val
          (Received (map_option (\<lambda>_. m_sender m) sender)
             (take copy_len (m_payload m) @ drop copy_len buf) (ucast (m_payload_len m)),
           upd_stats (\<lambda>s. s\<lparr>is_total_recv := is_total_recv s + 1\<rparr>)
             (upd_queue qi (\<lambda>q. snd (ipc_remove_message q (int i))) k)))"

text \<open>
  \<open>flux_a2a_recv\<close> up to the waiting loop: the outcome, or \<open>None\<close> when the caller is now blocked.
\<close>

definition recv_begin ::
  "kernel \<Rightarrow> u32 option \<Rightarrow> u8 list option \<Rightarrow> u64 option \<Rightarrow> u64 \<Rightarrow> (recv_outcome option \<times> kernel) cres" where
  "recv_begin k sender buf len timeout =
     (case (buf, len) of
        (Some b, Some n) \<Rightarrow>
          let my_pid = flux_getpid k in
          if my_pid = FLUX_PID_INVALID then Val (Some (Failed FLUX_ERR_INVALID), k)
          else (case ipc_get_queue my_pid of
            None \<Rightarrow> Val (Some (Failed FLUX_ERR_INVALID), k)
          | Some qi \<Rightarrow>
              (case find_message (i_queues k qi) (recv_filter sender) of
                 Some i \<Rightarrow> cmap (map_prod Some id) (recv_message k qi i sender b n)
               | None \<Rightarrow>
                   if timeout = 0 then Val (Some (Failed FLUX_ERR_TIMEOUT), k)
                   else Val (None, case flux_get_pcb k my_pid of None \<Rightarrow> k
                     | Some j \<Rightarrow> upd_pcb j
                         (\<lambda>p. p\<lparr>p_state := PROC_BLOCKED, p_waiting_for := recv_filter sender\<rparr>) k)))
      | _ \<Rightarrow> Val (Some (Failed FLUX_ERR_INVALID), k))"

text \<open>
  One round of the loop. \<open>my\<close> is the caller's pid, \<open>mj\<close> the control block it looked up before it
  blocked, \<open>start\<close> the tick at which it began to wait.
\<close>

definition recv_poll ::
  "u32 \<Rightarrow> nat option \<Rightarrow> nat \<Rightarrow> u64 \<Rightarrow> u32 option \<Rightarrow> u8 list \<Rightarrow> u64 \<Rightarrow> u64 \<Rightarrow> kernel \<Rightarrow>
   (recv_outcome option \<times> kernel) cres" where
  "recv_poll my mj qi start sender buf len timeout k =
     (if timeout \<noteq> FLUX_IPC_TIMEOUT_INFINITE \<and> timeout \<le> ipc_current_tick k - start then
        let k1 = upd_stats (\<lambda>s. s\<lparr>is_timeout_expired := is_timeout_expired s + 1\<rparr>) k
        in Val (Some (Failed FLUX_ERR_TIMEOUT),
             case mj of None \<Rightarrow> k1
             | Some j \<Rightarrow>
                 if p_state (k_pcbs k1 j) = PROC_BLOCKED
                 then snd (flux_sched_enqueue
                   (upd_pcb j (\<lambda>p. p\<lparr>p_state := PROC_READY, p_waiting_for := FLUX_PID_INVALID\<rparr>) k1) my)
                 else k1)
      else
        let q = i_queues k qi in
        case ipc_peek_message q (recv_filter sender) of None \<Rightarrow> Val (None, k)
        | Some slot \<Rightarrow>
            (case List.find (\<lambda>i. (q_head q + i) mod FLUX_IPC_QUEUE_DEPTH = slot) [0..<q_count q] of
               None \<Rightarrow> Val (None, k)
             | Some i \<Rightarrow>
                 cmap (\<lambda>(r, k1). (Some r,
                     case mj of None \<Rightarrow> k1
                     | Some j \<Rightarrow> upd_pcb j
                         (\<lambda>p. p\<lparr>p_state := PROC_RUNNING, p_waiting_for := FLUX_PID_INVALID\<rparr>) k1))
                   (recv_message k qi i sender buf len)))"

fun recv_wait ::
  "nat \<Rightarrow> (nat \<Rightarrow> kernel \<Rightarrow> kernel) \<Rightarrow> (kernel \<Rightarrow> (recv_outcome option \<times> kernel) cres) \<Rightarrow> kernel \<Rightarrow>
   (recv_outcome option \<times> kernel) cres" where
  "recv_wait 0 env poll k = Val (None, k)"
| "recv_wait (Suc n) env poll k =
     cbind (poll k) (\<lambda>(r, k1). case r of
       Some x \<Rightarrow> Val (Some x, k1)
     | None \<Rightarrow> recv_wait n (env \<circ> Suc) poll (env 0 k1))"

definition flux_a2a_recv ::
  "nat \<Rightarrow> (nat \<Rightarrow> kernel \<Rightarrow> kernel) \<Rightarrow> kernel \<Rightarrow> u32 option \<Rightarrow> u8 list option \<Rightarrow> u64 option \<Rightarrow> u64 \<Rightarrow>
   (recv_outcome option \<times> kernel) cres" where
  "flux_a2a_recv n env k sender buf len timeout =
     cbind (recv_begin k sender buf len timeout) (\<lambda>(r, k1). case r of
       Some x \<Rightarrow> Val (Some x, k1)
     | None \<Rightarrow>
         (case (buf, len, ipc_get_queue (flux_getpid k)) of
            (Some b, Some l, Some qi) \<Rightarrow>
              recv_wait n env
                (recv_poll (flux_getpid k) (flux_get_pcb k (flux_getpid k)) qi (ipc_current_tick k1) sender b l timeout)
                k1
          | _ \<Rightarrow> Val (None, k1)))"

subsection \<open>Broadcast\<close>

text \<open>Delivery to one pid; the counts are \<open>delivered\<close> and \<open>failed\<close>.\<close>

definition deliver_to :: "u32 \<Rightarrow> ipc_message \<Rightarrow> u32 \<Rightarrow> kernel \<times> nat \<times> nat \<Rightarrow> kernel \<times> nat \<times> nat" where
  "deliver_to sender m pid = (\<lambda>(k, delivered, failed).
     case flux_get_pcb k pid of None \<Rightarrow> (k, delivered, failed) | Some j \<Rightarrow>
     if \<not> p_is_agent (k_pcbs k j) then (k, delivered, failed)
     else if pid = sender then (k, delivered, failed)
     else case ipc_get_queue pid of None \<Rightarrow> (k, delivered, failed) | Some i \<Rightarrow>
     if ipc_queue_is_full (i_queues k i)
     then (upd_queue i (\<lambda>q. q\<lparr>q_dropped := q_dropped q + 1\<rparr>) k, delivered, failed + 1)
     else
       let k1 = upd_queue i (\<lambda>q. snd (ipc_enqueue_message q m)) k
       in (if p_state (k_pcbs k1 j) = PROC_AGENT_IDLE
           then snd (flux_sched_enqueue (upd_pcb j (\<lambda>p. p\<lparr>p_state := PROC_READY\<rparr>) k1) pid)
           else k1, delivered + 1, failed))"

text \<open>The pids the broadcast loop goes through.\<close>

definition broadcast_pids :: "u32 list" where
  "broadcast_pids = map of_nat [2..<257]"

definition flux_a2a_broadcast :: "kernel \<Rightarrow> u8 list option \<Rightarrow> u64 \<Rightarrow> (flux_status \<times> kernel) cres" where
  "flux_a2a_broadcast k msg len =
     (case msg of None \<Rightarrow> Val (FLUX_ERR_INVALID, k) | Some bytes \<Rightarrow>
      if len = 0 \<or> FLUX_IPC_MAX_PAYLOAD < unat len then Val (FLUX_ERR_INVALID, k)
      else let sender = flux_getpid k in
      if sender = FLUX_PID_INVALID then Val (FLUX_ERR_INVALID, k)
      else if \<not> ipc_check_capability k sender then
        Val (FLUX_ERR_DENIED, upd_stats (\<lambda>s. s\<lparr>is_capability_denied := is_capability_denied s + 1\<rparr>) k)
      else if length bytes < unat len then UB OobBuffer
      else
        let (mid, k1) = ipc_alloc_msg_id k; m = build_message k1 mid sender 0 bytes len;
            (k2, delivered, failed) =
              fold (deliver_to sender m) broadcast_pids (k1, 0, 0);
            k3 = upd_stats (\<lambda>s. s\<lparr>is_total_broadcasts := is_total_broadcasts s + 1\<rparr>) k2
        in Val (FLUX_OK,
             if i_broadcast_count k3 < FLUX_IPC_MAX_BROADCAST_QUEUE
             then k3\<lparr>i_broadcasts := (i_broadcasts k3)(i_broadcast_count k3 :=
                       \<lparr>be_msg = m, be_delivered = of_nat delivered, be_active = True\<rparr>),
                     i_broadcast_count := i_broadcast_count k3 + 1\<rparr>
             else k3))"

text \<open>Pending, sent, received and dropped counts.\<close>

definition flux_ipc_queue_status :: "kernel \<Rightarrow> u32 \<Rightarrow> flux_status \<times> (u32 \<times> u32 \<times> u32 \<times> u32) option" where
  "flux_ipc_queue_status k pid = (case ipc_get_queue pid of
     None \<Rightarrow> (FLUX_ERR_NOTFOUND, None)
   | Some i \<Rightarrow> (let q = i_queues k i in
       (FLUX_OK, Some (of_nat (q_count q), q_total_sent q, q_total_recv q, q_dropped q))))"

subsection \<open>The queue as a list\<close>

definition messages :: "ipc_queue \<Rightarrow> ipc_message list" where
  "messages q = ring_list FLUX_IPC_QUEUE_DEPTH (q_messages q) (q_head q) (q_count q)"

definition queue_ok :: "ipc_queue \<Rightarrow> bool" where
  "queue_ok q \<longleftrightarrow> q_head q < FLUX_IPC_QUEUE_DEPTH \<and> q_count q \<le> FLUX_IPC_QUEUE_DEPTH
     \<and> q_tail q = (q_head q + q_count q) mod FLUX_IPC_QUEUE_DEPTH"

definition queue_put :: "ipc_queue \<Rightarrow> ipc_message \<Rightarrow> ipc_queue" where
  "queue_put q m = snd (ipc_enqueue_message q m)"

definition queue_remove :: "ipc_queue \<Rightarrow> nat \<Rightarrow> ipc_queue" where
  "queue_remove q i = snd (ipc_remove_message q (int i))"

lemma messages_length [simp]: "length (messages q) = q_count q"
  by (simp add: messages_def)

lemma messages_nth: "i < q_count q \<Longrightarrow> messages q ! i = q_messages q ((q_head q + i) mod FLUX_IPC_QUEUE_DEPTH)"
  by (simp add: messages_def)

lemma queue_put_messages:
  assumes "queue_ok q" "q_count q < FLUX_IPC_QUEUE_DEPTH"
  shows "queue_ok (queue_put q m) \<and> messages (queue_put q m) = messages q @ [m]"
proof -
  have e: "queue_put q m = q\<lparr>q_messages := (q_messages q)(q_tail q := m),
      q_tail := (q_tail q + 1) mod 64, q_count := q_count q + 1, q_total_recv := q_total_recv q + 1\<rparr>"
    using assms(2) by (simp add: queue_put_def ipc_enqueue_message_def ipc_queue_is_full_def)
  have "(q_head q + i) mod 64 \<noteq> q_tail q" if "i < q_count q" for i
    using that assms mod_window_eq [of i 64 "q_count q" "q_head q"] by (simp add: queue_ok_def)
  then have "messages (queue_put q m) = messages q @ [m]"
    using assms unfolding e
    by (intro nth_equalityI) (auto simp: messages_nth nth_append less_Suc_eq queue_ok_def)
  moreover have "queue_ok (queue_put q m)" using assms unfolding e by (simp add: queue_ok_def mod_simps)
  ultimately show ?thesis by simp
qed

lemma queue_remove_messages:
  assumes "queue_ok q" "i < q_count q"
  shows "queue_ok (queue_remove q i) \<and> messages (queue_remove q i) = take i (messages q) @ drop (Suc i) (messages q)"
proof -
  have e: "queue_remove q i = q\<lparr>q_messages := ring_shift 64 (q_head q + i) (q_count q - 1 - i) (q_messages q),
      q_count := q_count q - 1, q_tail := (q_tail q + 64 - 1) mod 64\<rparr>"
    using assms(2) by (simp add: queue_remove_def ipc_remove_message_def)
  have h: "q_head q < 64" "q_count q \<le> 64" "q_tail q = (q_head q + q_count q) mod 64"
    using assms(1) by (simp_all add: queue_ok_def)
  then show ?thesis
    using ring_remove [of i "q_count q" 64 "q_head q" "q_messages q"] assms(2)
      tail_back [of "q_head q" 64 "q_count q"]
    unfolding e by (simp add: messages_def queue_ok_def)
qed

interpretation mq: gap_queue queue_ok messages 64 queue_put "\<lambda>_ _. True" queue_remove
  by unfold_locales (auto simp: queue_put_messages queue_remove_messages, auto simp: queue_ok_def)

text \<open>The message a receiver gets: the first from the wanted sender.\<close>

definition wanted :: "u32 \<Rightarrow> ipc_message \<Rightarrow> bool" where
  "wanted sender m \<longleftrightarrow> sender = FLUX_PID_INVALID \<or> m_sender m = sender"

lemma find_upt:
  "List.find P [0..<n] = Some i \<longleftrightarrow> i < n \<and> P i \<and> (\<forall>j < i. \<not> P j)"
  "List.find P [0..<n] = None \<longleftrightarrow> (\<forall>i < n. \<not> P i)"
  by (auto simp: find_Some_iff find_None_iff)

lemma find_message_Some:
  "find_message q s = Some i \<longleftrightarrow>
   i < length (messages q) \<and> wanted s (messages q ! i) \<and> (\<forall>j < i. \<not> wanted s (messages q ! j))"
  by (auto simp: find_message_def find_upt wanted_def messages_nth)

lemma find_message_None: "find_message q s = None \<longleftrightarrow> (\<forall>m \<in> set (messages q). \<not> wanted s m)"
  by (auto simp: find_message_def find_upt wanted_def messages_def ring_list_def)

lemma peek_find:
  "ipc_peek_message q s = map_option (\<lambda>i. (q_head q + i) mod FLUX_IPC_QUEUE_DEPTH) (find_message q s)"
  if "queue_ok q"
  using that by (auto simp: ipc_peek_message_def find_message_def ipc_queue_is_empty_def queue_ok_def split: option.split)

text \<open>Looking the peeked slot up gives the position back.\<close>

lemma slot_position:
  assumes "queue_ok q" "i < q_count q"
  shows "List.find (\<lambda>j. (q_head q + j) mod FLUX_IPC_QUEUE_DEPTH = (q_head q + i) mod FLUX_IPC_QUEUE_DEPTH) [0..<q_count q]
    = Some i"
  using assms by (auto simp: find_upt mod_window_eq queue_ok_def)

lemma recv_message_cases:
  assumes "queue_ok (i_queues k qi)" "find_message (i_queues k qi) s = Some i" "unat len \<le> length buf"
  defines "ms \<equiv> messages (i_queues k qi)"
  shows "\<exists>k'. recv_message k qi i sender buf len =
      Val (Received (map_option (\<lambda>_. m_sender (ms ! i)) sender)
        (take (min (unat len) (unat (m_payload_len (ms ! i)))) (m_payload (ms ! i))
         @ drop (min (unat len) (unat (m_payload_len (ms ! i)))) buf)
        (ucast (m_payload_len (ms ! i))), k')
    \<and> i_queues k' = (i_queues k)(qi := queue_remove (i_queues k qi) i)
    \<and> k_pcbs k' = k_pcbs k \<and> k_tick k' = k_tick k \<and> s_queue k' = s_queue k"
proof -
  have i: "i < q_count (i_queues k qi)" using assms(2) by (simp add: find_message_Some)
  have m: "(if len < ucast (m_payload_len x) then unat len else unat (m_payload_len x))
      = min (unat len) (unat (m_payload_len x))" for x
    by (auto simp: word_less_nat_alt unat_ucast_32_64 min_def)
  have e: "q_messages (i_queues k qi) ((q_head (i_queues k qi) + i) mod 64) = ms ! i"
    using i by (simp add: ms_def messages_nth)
  have "\<not> length buf < min (unat len) (unat (m_payload_len (ms ! i)))" using assms(3) by simp
  then show ?thesis
    by (simp add: recv_message_def Let_def e m upd_stats_def upd_queue_def queue_remove_def)
qed

end
