(* ===== verification/FluxIpcProps.thy ===== *)
theory FluxIpcProps
  imports FluxIpc FluxSchedProps
begin

section \<open>What message passing guarantees\<close>

text \<open>
  Sending, receiving and broadcasting on the lists of pending messages. \<open>ipc_ok\<close> is the invariant of
  the 256 queues; the queue facts come from the interpretation \<open>mq\<close> of \<open>gap_queue\<close>. The frame lemmas
  say what putting a process on the ready queue leaves alone.
\<close>

definition ipc_ok :: "kernel \<Rightarrow> bool" where
  "ipc_ok k \<longleftrightarrow> (\<forall>i < 256. queue_ok (i_queues k i))"

lemma get_queue_bound: "ipc_get_queue pid = Some i \<Longrightarrow> i < 256"
  by (auto simp: ipc_get_queue_def unat_minus_one split: if_splits)

lemma get_queue_ok: "ipc_ok k \<Longrightarrow> ipc_get_queue pid = Some i \<Longrightarrow> queue_ok (i_queues k i)"
  using get_queue_bound by (auto simp: ipc_ok_def)

subsection \<open>Frames\<close>

text \<open>Enqueueing changes the ready queue and process states only, and no slot becomes free.\<close>

lemma enqueue_frame [simp]:
  "i_queues (snd (flux_sched_enqueue k pid)) = i_queues k"
  "i_stats (snd (flux_sched_enqueue k pid)) = i_stats k"
  "i_msg_id (snd (flux_sched_enqueue k pid)) = i_msg_id k"
  "k_current_pid (snd (flux_sched_enqueue k pid)) = k_current_pid k"
  "k_tick (snd (flux_sched_enqueue k pid)) = k_tick k"
  "p_is_agent (k_pcbs (snd (flux_sched_enqueue k pid)) j) = p_is_agent (k_pcbs k j)"
  "p_caps (k_pcbs (snd (flux_sched_enqueue k pid)) j) = p_caps (k_pcbs k j)"
  "(p_state (k_pcbs (snd (flux_sched_enqueue k pid)) j) = PROC_UNUSED) = (p_state (k_pcbs k j) = PROC_UNUSED)"
  by (auto simp: flux_sched_enqueue_def sched_put_def Let_def split: option.split)

lemma get_pcb_unused_cong:
  "(\<And>i. (p_state (k_pcbs k' i) = PROC_UNUSED) = (p_state (k_pcbs k i) = PROC_UNUSED)) \<Longrightarrow>
   flux_get_pcb k' pid = flux_get_pcb k pid"
  by (simp add: flux_get_pcb_def Let_def)

lemma get_pcb_enqueue [simp]: "flux_get_pcb (snd (flux_sched_enqueue k p)) pid = flux_get_pcb k pid"
  by (rule get_pcb_unused_cong) simp

lemma get_pcb_ipc [simp]:
  "flux_get_pcb (upd_queue i f k) pid = flux_get_pcb k pid"
  "flux_get_pcb (upd_stats g k) pid = flux_get_pcb k pid"
  "flux_get_pcb (i_msg_id_update h k) pid = flux_get_pcb k pid"
  by (simp_all add: flux_get_pcb_def Let_def upd_queue_def upd_stats_def)

lemma ipc_upd_simps [simp]:
  "k_pcbs (upd_queue i f k) = k_pcbs k" "k_pcbs (upd_stats g k) = k_pcbs k"
  "i_queues (upd_queue i f k) = (i_queues k)(i := f (i_queues k i))" "i_queues (upd_stats g k) = i_queues k"
  "k_tick (upd_queue i f k) = k_tick k" "k_tick (upd_stats g k) = k_tick k"
  "k_current_pid (upd_queue i f k) = k_current_pid k" "k_current_pid (upd_stats g k) = k_current_pid k"
  "i_stats (upd_stats g k) = g (i_stats k)" "i_stats (upd_queue i f k) = i_stats k"
  by (simp_all add: upd_queue_def upd_stats_def)

lemma queue_counters [simp]:
  "messages (q\<lparr>q_total_sent := n\<rparr>) = messages q" "messages (q\<lparr>q_dropped := n\<rparr>) = messages q"
  "queue_ok (q\<lparr>q_total_sent := n\<rparr>) = queue_ok q" "queue_ok (q\<lparr>q_dropped := n\<rparr>) = queue_ok q"
  by (simp_all add: messages_def queue_ok_def)

lemma woken_state:
  assumes "flux_get_pcb k pid = Some j"
  shows "p_state (k_pcbs (wake_target pid j k) j) \<notin> {PROC_BLOCKED, PROC_AGENT_IDLE}"
proof -
  have "p_state (k_pcbs (snd (flux_sched_enqueue (upd_pcb j (\<lambda>p. p\<lparr>p_state := PROC_READY, p_waiting_for := FLUX_PID_INVALID\<rparr>) k) pid)) j)
      = PROC_READY"
    by (auto simp: flux_sched_enqueue_def Let_def split: option.split)
  then show ?thesis by (auto simp: wake_target_def)
qed

lemma wake_frame [simp]:
  "i_queues (wake_target pid j k) = i_queues k" "i_stats (wake_target pid j k) = i_stats k"
  "k_current_pid (wake_target pid j k) = k_current_pid k" "i_msg_id (wake_target pid j k) = i_msg_id k"
  by (simp_all add: wake_target_def)

subsection \<open>Sending\<close>

text \<open>The branch that delivers.\<close>

lemma send_delivers:
  assumes "0 < len" "unat len \<le> 4096" "unat len \<le> length bytes" "target \<noteq> 0" "flux_getpid k \<noteq> 0"
    and "ipc_check_capability k (flux_getpid k)"
    and "flux_get_pcb k target = Some tj" "ipc_get_queue target = Some ti" "q_count (i_queues k ti) < 64"
    and "queue_ok (i_queues k ti)"
  defines "m \<equiv> build_message k (i_msg_id k) (flux_getpid k) target bytes len"
  shows "\<exists>k'. flux_a2a_send k target (Some bytes) len = Val (FLUX_OK, k')
    \<and> messages (i_queues k' ti) = messages (i_queues k ti) @ [m]
    \<and> (\<forall>i. i \<noteq> ti \<longrightarrow> messages (i_queues k' i) = messages (i_queues k i))
    \<and> (\<forall>i. queue_ok (i_queues k i) \<longrightarrow> queue_ok (i_queues k' i))
    \<and> i_msg_id k' = i_msg_id k + 1
    \<and> p_state (k_pcbs k' tj) \<notin> {PROC_BLOCKED, PROC_AGENT_IDLE}"
proof -
  let ?k1 = "k\<lparr>i_msg_id := i_msg_id k + 1\<rparr>"
  have m: "build_message ?k1 (i_msg_id k) (flux_getpid k) target bytes len = m"
    by (simp add: m_def build_message_def ipc_current_tick_def split: option.split)
  have q: "queue_ok (queue_put (i_queues k ti) m)" "messages (queue_put (i_queues k ti) m) = messages (i_queues k ti) @ [m]"
    using queue_put_messages [OF assms(10,9)] by auto
  have e: "ipc_enqueue_message (i_queues k ti) m = (FLUX_OK, queue_put (i_queues k ti) m)"
    using assms(9) by (simp add: queue_put_def ipc_enqueue_message_def ipc_queue_is_full_def)
  let ?k2 = "upd_queue ti (\<lambda>_. queue_put (i_queues k ti) m) ?k1"
  let ?k3 = "upd_stats (\<lambda>s. s\<lparr>is_total_sent := is_total_sent s + 1\<rparr>) ?k2"
  let ?k4 = "case ipc_get_queue (flux_getpid k) of None \<Rightarrow> ?k3
    | Some si \<Rightarrow> upd_queue si (\<lambda>q. q\<lparr>q_total_sent := q_total_sent q + 1\<rparr>) ?k3"
  have s: "flux_a2a_send k target (Some bytes) len = Val (FLUX_OK, wake_target target tj ?k4)"
    using assms(1-9)
    by (simp add: flux_a2a_send_def Let_def ipc_alloc_msg_id_def ipc_queue_is_full_def m e not_less word_gt_0)
  have "i_msg_id ?k4 = i_msg_id k + 1"
    by (simp add: upd_queue_def upd_stats_def split: option.split)
  moreover have "flux_get_pcb ?k4 target = Some tj"
    using assms(7) by (simp split: option.split)
  ultimately show ?thesis
    unfolding s using q woken_state [of ?k4 target tj] by (auto split: option.split)
qed

text \<open>C32. Sending a message. Bad arguments, a sender without the COMMUNICATE capability, a target
  without a live control block or without a queue (pids above 256), and a full queue are refused
  with the status the function documents, and no message is delivered anywhere. Otherwise the
  message, with the sender's pid and the first \<open>len\<close> bytes of the buffer, becomes the last of the target's
  queue, no other queue changes, and a target that was blocked or idle is not any more.
\<close>

theorem send_spec:
  assumes "ipc_ok k" "unat len \<le> length bytes"
  shows "\<exists>st k'. flux_a2a_send k target (Some bytes) len = Val (st, k') \<and> ipc_ok k'
    \<and> (if len = 0 \<or> 4096 < unat len \<or> target = 0 \<or> flux_getpid k = 0 then st = FLUX_ERR_INVALID \<and> k' = k
       else if \<not> ipc_check_capability k (flux_getpid k)
       then st = FLUX_ERR_DENIED \<and> i_queues k' = i_queues k \<and> k_pcbs k' = k_pcbs k
       else case (flux_get_pcb k target, ipc_get_queue target) of
         (Some tj, Some ti) \<Rightarrow>
           if q_count (i_queues k ti) = 64
           then st = FLUX_ERR_OVERFLOW \<and> i_queues k' = i_queues k \<and> k_pcbs k' = k_pcbs k
           else st = FLUX_OK
             \<and> messages (i_queues k' ti) =
                 messages (i_queues k ti) @ [build_message k (i_msg_id k) (flux_getpid k) target bytes len]
             \<and> (\<forall>i. i \<noteq> ti \<longrightarrow> messages (i_queues k' i) = messages (i_queues k i))
             \<and> p_state (k_pcbs k' tj) \<notin> {PROC_BLOCKED, PROC_AGENT_IDLE}
       | _ \<Rightarrow> st = FLUX_ERR_NOTFOUND \<and> k' = k)"
proof -
  have st: "ipc_ok (upd_stats f k) = ipc_ok k" for f by (simp add: ipc_ok_def)
  consider (bad) "len = 0 \<or> 4096 < unat len \<or> target = 0 \<or> flux_getpid k = 0"
    | (denied) "len \<noteq> 0" "\<not> 4096 < unat len" "target \<noteq> 0" "flux_getpid k \<noteq> 0" "\<not> ipc_check_capability k (flux_getpid k)"
    | (notfound) "len \<noteq> 0" "\<not> 4096 < unat len" "target \<noteq> 0" "flux_getpid k \<noteq> 0" "ipc_check_capability k (flux_getpid k)"
        "flux_get_pcb k target = None \<or> ipc_get_queue target = None"
    | (found) tj ti where "len \<noteq> 0" "\<not> 4096 < unat len" "target \<noteq> 0" "flux_getpid k \<noteq> 0"
        "ipc_check_capability k (flux_getpid k)" "flux_get_pcb k target = Some tj" "ipc_get_queue target = Some ti"
    by fastforce
  then show ?thesis
  proof cases
    case bad
    then show ?thesis using assms by (auto simp: flux_a2a_send_def Let_def)
  next
    case denied
    then show ?thesis using assms by (simp add: flux_a2a_send_def Let_def st)
  next
    case notfound
    then show ?thesis using assms by (auto simp: flux_a2a_send_def Let_def split: option.split)
  next
    case found
    have ok: "queue_ok (i_queues k ti)" using get_queue_ok [OF assms(1) found(7)] .
    show ?thesis
    proof (cases "q_count (i_queues k ti) = 64")
      case True
      then show ?thesis using found assms by (simp add: flux_a2a_send_def Let_def st ipc_queue_is_full_def)
    next
      case False
      then have "q_count (i_queues k ti) < 64" using ok by (simp add: queue_ok_def)
      then show ?thesis
        using send_delivers [of len bytes target k tj ti] found assms ok False
        by (fastforce simp: word_gt_0 ipc_ok_def)
    qed
  qed
qed

subsection \<open>Receiving\<close>

text \<open>The values a receiver gets for a message.\<close>

definition delivery :: "u32 option \<Rightarrow> u8 list \<Rightarrow> u64 \<Rightarrow> ipc_message \<Rightarrow> recv_outcome" where
  "delivery sender buf len m =
     (let n = min (unat len) (unat (m_payload_len m))
      in Received (map_option (\<lambda>_. m_sender m) sender) (take n (m_payload m) @ drop n buf) (ucast (m_payload_len m)))"

lemma remove_wanted:
  assumes "queue_ok q" "find_message q s = Some i"
  shows "messages (queue_remove q i) =
    takeWhile (\<lambda>m. \<not> wanted s m) (messages q) @ tl (dropWhile (\<lambda>m. \<not> wanted s m) (messages q))"
    "messages q ! i = hd (dropWhile (\<lambda>m. \<not> wanted s m) (messages q))" "queue_ok (queue_remove q i)"
proof -
  have f: "i < length (messages q)" "wanted s (messages q ! i)" "\<And>j. j < i \<Longrightarrow> \<not> wanted s (messages q ! j)"
    using assms(2) by (auto simp: find_message_Some)
  show "messages (queue_remove q i) =
    takeWhile (\<lambda>m. \<not> wanted s m) (messages q) @ tl (dropWhile (\<lambda>m. \<not> wanted s m) (messages q))"
    using mq.remove_first [OF assms(1) f(1), of "wanted s"] f by simp
  have "takeWhile (\<lambda>m. \<not> wanted s m) (messages q) = take i (messages q)"
    using f by (intro takeWhile_eq_take_P_nth) auto
  then have "dropWhile (\<lambda>m. \<not> wanted s m) (messages q) = drop i (messages q)"
    using f(1) by (simp add: dropWhile_eq_drop)
  then show "messages q ! i = hd (dropWhile (\<lambda>m. \<not> wanted s m) (messages q))"
    using f(1) by (simp add: hd_drop_conv_nth)
  show "queue_ok (queue_remove q i)" using mq.remove_at [OF assms(1) f(1)] by simp
qed

lemma recv_begin_cases:
  assumes "ipc_ok k" "flux_getpid k \<noteq> 0" "ipc_get_queue (flux_getpid k) = Some qi" "unat len \<le> length buf"
  shows "\<exists>r k'. recv_begin k sender (Some buf) (Some len) timeout = Val (r, k') \<and> ipc_ok k'
    \<and> (let ms = messages (i_queues k qi); w = (\<lambda>m. \<not> wanted (recv_filter sender) m) in
        if list_ex (wanted (recv_filter sender)) ms
        then r = Some (delivery sender buf len (hd (dropWhile w ms)))
          \<and> messages (i_queues k' qi) = takeWhile w ms @ tl (dropWhile w ms)
        else messages (i_queues k' qi) = ms
          \<and> (if timeout = 0 then r = Some (Failed FLUX_ERR_TIMEOUT) \<and> k' = k
             else r = None \<and> (case flux_get_pcb k (flux_getpid k) of None \<Rightarrow> k' = k
               | Some j \<Rightarrow> p_state (k_pcbs k' j) = PROC_BLOCKED
                   \<and> p_waiting_for (k_pcbs k' j) = recv_filter sender)))"
proof -
  have ok: "queue_ok (i_queues k qi)" using get_queue_ok [OF assms(1,3)] .
  show ?thesis
  proof (cases "find_message (i_queues k qi) (recv_filter sender)")
    case None
    then have "\<not> list_ex (wanted (recv_filter sender)) (messages (i_queues k qi))"
      by (simp add: find_message_None list_ex_iff)
    then show ?thesis
      using None assms by (auto simp: recv_begin_def Let_def ipc_ok_def split: option.split)
  next
    case (Some i)
    obtain k' where r: "recv_message k qi i sender buf len =
        Val (delivery sender buf len (messages (i_queues k qi) ! i), k')"
      and k': "i_queues k' = (i_queues k)(qi := queue_remove (i_queues k qi) i)"
      using recv_message_cases [OF ok Some assms(4)] unfolding delivery_def Let_def by blast
    have "list_ex (wanted (recv_filter sender)) (messages (i_queues k qi))"
      using Some by (auto simp: find_message_Some list_ex_length)
    then show ?thesis
      using r k' remove_wanted [OF ok Some] assms Some
      by (simp add: recv_begin_def Let_def ipc_ok_def)
  qed
qed

text \<open>C33. Receiving without waiting. If the caller's queue holds a message from the wanted sender (any
  sender, if none is named), the oldest such message is handed over and it alone leaves the queue,
  the others keeping their order; the buffer gets as much of the payload as \<open>len\<close> allows, but the length
  reported is that of the whole payload, so a cut is visible only by comparing the two. If there is no
  such message, a zero timeout returns at once with nothing changed; otherwise the caller is marked
  blocked on that sender and no outcome is produced yet.
\<close>

theorem recv_spec:
  assumes "ipc_ok k" "flux_getpid k \<noteq> 0" "ipc_get_queue (flux_getpid k) = Some qi" "unat len \<le> length buf"
  shows "\<exists>r k'. recv_begin k sender (Some buf) (Some len) timeout = Val (r, k') \<and> ipc_ok k'
    \<and> (let ms = messages (i_queues k qi); w = (\<lambda>m. \<not> wanted (recv_filter sender) m) in
        if list_ex (wanted (recv_filter sender)) ms
        then r = Some (delivery sender buf len (hd (dropWhile w ms)))
          \<and> messages (i_queues k' qi) = takeWhile w ms @ tl (dropWhile w ms)
        else messages (i_queues k' qi) = ms
          \<and> (if timeout = 0 then r = Some (Failed FLUX_ERR_TIMEOUT) \<and> k' = k
             else r = None \<and> (case flux_get_pcb k (flux_getpid k) of None \<Rightarrow> k' = k
               | Some j \<Rightarrow> p_state (k_pcbs k' j) = PROC_BLOCKED
                   \<and> p_waiting_for (k_pcbs k' j) = recv_filter sender)))"
  using assms by (rule recv_begin_cases)

text \<open>What is sent is received. A message sent to a process that has no other message from that
  sender waiting is what the process then receives from it: the payload's first \<open>len\<close> bytes, the
  sender's pid and the length.
\<close>

theorem send_recv_roundtrip:
  assumes "ipc_ok k" "0 < len" "unat len \<le> 4096" "unat len \<le> length bytes" "target \<noteq> 0" "flux_getpid k \<noteq> 0"
    and "ipc_check_capability k (flux_getpid k)"
    and "flux_get_pcb k target = Some tj" "ipc_get_queue target = Some ti" "q_count (i_queues k ti) < 64"
    and "\<not> list_ex (wanted (flux_getpid k)) (messages (i_queues k ti))"
    and "unat len \<le> length buf"
  shows "\<exists>k1 k2. flux_a2a_send k target (Some bytes) len = Val (FLUX_OK, k1)
    \<and> recv_begin (k1\<lparr>k_current_pid := target\<rparr>) (Some (flux_getpid k)) (Some buf) (Some len) timeout
      = Val (Some (Received (Some (flux_getpid k)) (take (unat len) bytes @ drop (unat len) buf) len), k2)
    \<and> messages (i_queues k2 ti) = messages (i_queues k ti)"
proof -
  let ?m = "build_message k (i_msg_id k) (flux_getpid k) target bytes len"
  let ?ms = "messages (i_queues k ti)" and ?w = "\<lambda>m. \<not> wanted (flux_getpid k) m"
  obtain k1 where s: "flux_a2a_send k target (Some bytes) len = Val (FLUX_OK, k1)"
    and q: "messages (i_queues k1 ti) = ?ms @ [?m]" and ok: "\<forall>i. queue_ok (i_queues k i) \<longrightarrow> queue_ok (i_queues k1 i)"
    using send_delivers [OF assms(2-10) get_queue_ok [OF assms(1,9)]] by blast
  let ?k = "k1\<lparr>k_current_pid := target\<rparr>"
  have k: "ipc_ok ?k" "flux_getpid ?k = target" "messages (i_queues ?k ti) = ?ms @ [?m]"
    using ok assms(1) q by (simp_all add: ipc_ok_def flux_getpid_def)
  have w: "wanted (flux_getpid k) ?m" "\<And>m. m \<in> set ?ms \<Longrightarrow> ?w m"
    using assms(11) by (auto simp: wanted_def build_message_def list_ex_iff)
  then have d: "dropWhile ?w (?ms @ [?m]) = [?m]" "takeWhile ?w (?ms @ [?m]) = ?ms"
    "list_ex (wanted (flux_getpid k)) (?ms @ [?m])"
    by (simp_all add: list_ex_iff)
  have len: "unat (ucast len :: u32) = unat len" "ucast (ucast len :: u32) = len"
  proof -
    have "unat len < 2 ^ 32" using assms(3) by simp
    then show "unat (ucast len :: u32) = unat len" by (simp add: unsigned_ucast_eq take_bit_nat_eq_self)
    then show "ucast (ucast len :: u32) = len" by (metis unat_ucast_32_64 word_unat_eq_iff)
  qed
  have "delivery (Some (flux_getpid k)) buf len ?m =
      Received (Some (flux_getpid k)) (take (unat len) bytes @ drop (unat len) buf) len"
    by (simp add: delivery_def build_message_def len Let_def)
  then show ?thesis
    using recv_begin_cases [of ?k ti len buf "Some (flux_getpid k)" timeout] k s d assms(5,9,12)
    by (auto simp: Let_def recv_filter_def)
qed

subsection \<open>Waiting\<close>

lemma poll_cases:
  assumes "unat len \<le> length buf"
  shows "(recv_poll my mj qi start sender buf len timeout k = Val (None, k)
      \<and> (timeout = 0xFFFFFFFF \<or> ipc_current_tick k - start < timeout))
    \<or> (\<exists>r k'. recv_poll my mj qi start sender buf len timeout k = Val (Some r, k'))"
proof (cases "timeout \<noteq> 0xFFFFFFFF \<and> timeout \<le> ipc_current_tick k - start")
  case True
  then show ?thesis by (auto simp: recv_poll_def Let_def)
next
  case False
  have "\<exists>r k'. recv_message k qi i sender buf len = Val (r, k')" for i
    using assms by (auto simp: recv_message_def Let_def word_less_nat_alt unat_ucast_32_64)
  then have "\<exists>r k'. recv_message k qi i sender buf len = Val (r, k')" for i .
  then obtain r k' where r: "\<And>i. recv_message k qi i sender buf len = Val (r i, k' i)" by metis
  show ?thesis
    using False by (auto simp: recv_poll_def Let_def r not_le split: option.split)
qed

lemma recv_wait_step:
  "poll k = Val (None, k') \<Longrightarrow> recv_wait (n + 1) env poll k = recv_wait n (env \<circ> Suc) poll (env 0 k')"
  "poll k = Val (Some r, k') \<Longrightarrow> recv_wait (n + 1) env poll k = Val (Some r, k')"
  "poll k = Val (None, k') \<Longrightarrow> recv_wait (Suc n) env poll k = recv_wait n (env \<circ> Suc) poll (env 0 k')"
  "poll k = Val (Some r, k') \<Longrightarrow> recv_wait (Suc n) env poll k = Val (Some r, k')"
  by simp_all

lemma tick_difference:
  assumes "unat a + d < 2 ^ 32" "b = a + of_nat d"
  shows "unat (ucast (b :: u32) - ucast a :: u64) = d"
proof -
  have "unat b = unat a + d"
    using assms by (simp add: unat_word_ariths unat_of_nat mod_simps)
  moreover have "unat (ucast b - ucast a :: u64) = unat (ucast b :: u64) - unat (ucast a :: u64)"
    using \<open>unat b = unat a + d\<close> by (intro unat_sub) (simp add: word_le_nat_alt unat_ucast_32_64)
  ultimately show ?thesis by (simp add: unat_ucast_32_64)
qed

text \<open>C38. A receive with a finite timeout returns. When the clock advances by one tick in every round of
  the loop and does not overflow, \<open>timeout + 1\<close> rounds are enough, whatever else the rest of the system
  does between them and whether or not a message arrives.
\<close>

theorem recv_wait_returns:
  assumes "\<And>n k. k_tick (env n k) = k_tick k + 1" "timeout \<noteq> 0xFFFFFFFF"
    and "unat (k_tick k) + unat timeout < 2 ^ 32" "unat len \<le> length buf"
  shows "\<exists>r k'. recv_wait (unat timeout + 1) env
    (recv_poll my mj qi (ipc_current_tick k) sender buf len timeout) k = Val (Some r, k')"
proof -
  let ?poll = "recv_poll my mj qi (ipc_current_tick k) sender buf len timeout"
  have "\<exists>r k2. recv_wait (unat timeout - d + 1) e ?poll k1 = Val (Some r, k2)"
    if "k_tick k1 = k_tick k + of_nat d" "d \<le> unat timeout" "\<And>n k. k_tick (e n k) = k_tick k + 1" for d k1 e
    using that
  proof (induction "unat timeout - d" arbitrary: d k1 e)
    case 0
    have "unat (ipc_current_tick k1 - ipc_current_tick k) = d"
      using tick_difference [of "k_tick k" d "k_tick k1"] 0 assms(3) by (simp add: ipc_current_tick_def)
    then have "\<not> ipc_current_tick k1 - ipc_current_tick k < timeout"
      using 0 by (simp add: word_less_nat_alt)
    then have "\<exists>r k'. ?poll k1 = Val (Some r, k')"
      using poll_cases [OF assms(4), of my mj qi "ipc_current_tick k" sender timeout k1] assms(2) by auto
    then show ?case using 0 by auto
  next
    case (Suc n)
    have n: "unat timeout - d = Suc n" "unat timeout - (d + 1) = n" using Suc.hyps(2) by simp_all
    have "\<exists>r k2. recv_wait (unat timeout - (d + 1) + 1) (e \<circ> Suc) ?poll (e 0 k1) = Val (Some r, k2)"
      using Suc.prems n by (intro Suc.hyps(1)) (simp_all add: algebra_simps)
    then have later: "\<exists>r k2. recv_wait (unat timeout - d) (e \<circ> Suc) ?poll (e 0 k1) = Val (Some r, k2)"
      using n by (simp only: Suc_eq_plus1)
    consider "?poll k1 = Val (None, k1)" | r k' where "?poll k1 = Val (Some r, k')"
      using poll_cases [OF assms(4), of my mj qi "ipc_current_tick k" sender timeout k1] by blast
    then show ?case
      by cases (simp_all only: recv_wait_step later, blast)
  qed
  from this [of k 0 env] assms(1) show ?thesis by simp
qed

text \<open>A receive with the infinite timeout waits for ever when no wanted message comes: no number of
  rounds produces an outcome.
\<close>

theorem recv_waits_forever:
  assumes "\<And>n k. i_queues (env n k) qi = i_queues k qi" "queue_ok (i_queues k qi)"
    and "\<not> list_ex (wanted (recv_filter sender)) (messages (i_queues k qi))"
  shows "\<exists>k'. recv_wait n env (recv_poll my mj qi start sender buf len 0xFFFFFFFF) k = Val (None, k')"
  using assms
proof (induction n arbitrary: k env)
  case (Suc n)
  have "find_message (i_queues k qi) (recv_filter sender) = None"
    using Suc.prems(3) by (simp add: find_message_None list_ex_iff)
  then have "recv_poll my mj qi start sender buf len 0xFFFFFFFF k = Val (None, k)"
    using peek_find [OF Suc.prems(2)] by (simp add: recv_poll_def Let_def)
  moreover have "\<exists>k'. recv_wait n (env \<circ> Suc) (recv_poll my mj qi start sender buf len 0xFFFFFFFF) (env 0 k) = Val (None, k')"
    using Suc.prems by (intro Suc.IH) simp_all
  ultimately show ?case by simp
qed simp

subsection \<open>Broadcast\<close>

text \<open>The processes a broadcast is for: live agents other than the sender.\<close>

definition hears :: "kernel \<Rightarrow> u32 \<Rightarrow> u32 \<Rightarrow> bool" where
  "hears k sender pid = (case flux_get_pcb k pid of
     None \<Rightarrow> False | Some j \<Rightarrow> p_is_agent (k_pcbs k j) \<and> pid \<noteq> sender)"

definition heard_by :: "kernel \<Rightarrow> u32 \<Rightarrow> u32 \<Rightarrow> nat \<Rightarrow> bool" where
  "heard_by k sender pid i \<longleftrightarrow> ipc_get_queue pid = Some i \<and> hears k sender pid \<and> q_count (i_queues k i) < 64"

lemma get_queue_inj: "ipc_get_queue p = Some i \<Longrightarrow> ipc_get_queue p' = Some i \<Longrightarrow> p = p'"
proof -
  assume "ipc_get_queue p = Some i" "ipc_get_queue p' = Some i"
  then have "unat (p - 1) = unat (p' - 1)" by (auto simp: ipc_get_queue_def split: if_splits)
  then have "p - 1 = p' - 1" by (simp only: word_unat_eq_iff)
  then show ?thesis by simp
qed

lemma deliver_step:
  fixes sender pid :: u32
  assumes "\<And>i. i < 256 \<Longrightarrow> queue_ok (i_queues k i)"
    and k'_def: "k' = fst (deliver_to sender m pid (k, d, f))"
  shows "flux_get_pcb k' p = flux_get_pcb k p" "p_is_agent (k_pcbs k' j) = p_is_agent (k_pcbs k j)"
    "i < 256 \<Longrightarrow> queue_ok (i_queues k' i)"
    "messages (i_queues k' i) = messages (i_queues k i) @ (if heard_by k sender pid i then [m] else [])"
proof -
  have full: "ipc_queue_is_full q = (\<not> q_count q < 64)" for q by (auto simp: ipc_queue_is_full_def)
  have put: "q_count (i_queues k i) < 64 \<Longrightarrow> ipc_get_queue pid = Some i \<Longrightarrow>
      queue_ok (queue_put (i_queues k i) m) \<and> messages (queue_put (i_queues k i) m) = messages (i_queues k i) @ [m]" for i
    using assms(1) get_queue_bound by (intro queue_put_messages) auto
  have g: "flux_get_pcb (upd_pcb j (p_state_update (\<lambda>_. PROC_READY)) (upd_queue i h k)) p = flux_get_pcb k p"
    if "flux_get_pcb k pid = Some j" for i j h
    using get_pcb_Some [OF that] by (intro get_pcb_unused_cong) auto
  show "flux_get_pcb k' p = flux_get_pcb k p" "p_is_agent (k_pcbs k' j) = p_is_agent (k_pcbs k j)"
    by (auto simp: k'_def deliver_to_def Let_def g split: option.split)
  show "i < 256 \<Longrightarrow> queue_ok (i_queues k' i)"
    using assms(1) put by (auto simp: k'_def deliver_to_def Let_def full queue_put_def [symmetric] split: option.split)
  show "messages (i_queues k' i) = messages (i_queues k i) @ (if heard_by k sender pid i then [m] else [])"
    using put by (auto simp: k'_def deliver_to_def Let_def full heard_by_def hears_def queue_put_def [symmetric]
        split: option.split)
qed

lemma deliver_fold:
  assumes "\<And>i. i < 256 \<Longrightarrow> queue_ok (i_queues k i)" "distinct ps"
    and k'_def: "k' = fst (fold (deliver_to sender m) ps (k, d, f))"
  shows "(\<forall>i < 256. queue_ok (i_queues k' i))
    \<and> (\<forall>i. messages (i_queues k' i) =
        messages (i_queues k i) @ (if list_ex (\<lambda>pid. heard_by k sender pid i) ps then [m] else []))"
  using assms(1,2) unfolding k'_def
proof (induction ps arbitrary: k d f)
  case (Cons p ps)
  obtain k1 d1 f1 where s: "deliver_to sender m p (k, d, f) = (k1, d1, f1)" using prod_cases3 by blast
  note step = deliver_step [OF Cons.prems(1), of "fst (k1, d1, f1)" sender m p d f, unfolded s fst_conv, OF _ refl]
  have len: "q_count (i_queues k1 i) = q_count (i_queues k i)" if "\<not> heard_by k sender p i" for i
    using arg_cong [OF step(4), of length i] that by simp
  have hears: "hears k1 sender pid = hears k sender pid" for pid
    by (simp add: hears_def step(1,2) split: option.split)
  have same: "heard_by k1 sender pid i \<longleftrightarrow> heard_by k sender pid i" if "pid \<noteq> p" for pid i
  proof (cases "ipc_get_queue pid = Some i")
    case True
    then have "\<not> heard_by k sender p i" using that get_queue_inj by (auto simp: heard_by_def)
    then show ?thesis using len hears by (simp add: heard_by_def)
  qed (simp add: heard_by_def)
  have "heard_by k1 sender pid i = heard_by k sender pid i" if "pid \<in> set ps" for pid i
    using same that Cons.prems(2) by (metis distinct.simps(2))
  then have ex: "list_ex (\<lambda>pid. heard_by k1 sender pid i) ps = list_ex (\<lambda>pid. heard_by k sender pid i) ps" for i
    by (simp add: list_ex_iff)
  have one: "\<not> (heard_by k sender p i \<and> list_ex (\<lambda>pid. heard_by k sender pid i) ps)" for i
    using Cons.prems(2) get_queue_inj by (auto simp: list_ex_iff heard_by_def)
  have "distinct ps" using Cons.prems(2) by simp
  from Cons.IH [OF step(3) this, of d1 f1] show ?case
    using step(4) one by (auto simp: s ex)
qed simp

lemma broadcast_pids: "distinct broadcast_pids" "pid \<in> set broadcast_pids \<longleftrightarrow> 2 \<le> unat pid \<and> unat pid \<le> 256"
proof -
  have u: "unat (of_nat n :: u32) = n" if "n < 257" for n using that by (simp add: unat_of_nat)
  then have "inj_on (of_nat :: nat \<Rightarrow> u32) {2..<257}" by (intro inj_onI) (metis atLeastLessThan_iff)
  then show "distinct broadcast_pids"
    by (simp only: broadcast_pids_def distinct_map distinct_upt set_upt simp_thms)
  have s: "set broadcast_pids = of_nat ` {2..<257}" by (simp only: broadcast_pids_def set_map set_upt)
  show "pid \<in> set broadcast_pids \<longleftrightarrow> 2 \<le> unat pid \<and> unat pid \<le> 256"
  proof
    assume "pid \<in> set broadcast_pids"
    then obtain n where "pid = of_nat n" "n \<in> {2..<257}" unfolding s by (rule imageE)
    then show "2 \<le> unat pid \<and> unat pid \<le> 256" using u [of n] by simp
  next
    assume "2 \<le> unat pid \<and> unat pid \<le> 256"
    then have "pid = of_nat (unat pid)" "unat pid \<in> {2..<257}" by auto
    then show "pid \<in> set broadcast_pids" unfolding s by (rule image_eqI)
  qed
qed

text \<open>A broadcast reaches exactly the agents. From a sender with the COMMUNICATE capability, the message
  is appended to the queue of every pid from 2 to 256 that belongs to a live agent other than the
  sender and has room; every other queue is unchanged, and the result is success however many
  deliveries failed.
\<close>

theorem broadcast_spec:
  assumes "ipc_ok k" "0 < len" "unat len \<le> 4096" "unat len \<le> length bytes" "flux_getpid k \<noteq> 0"
    and "ipc_check_capability k (flux_getpid k)"
  shows "\<exists>k'. flux_a2a_broadcast k (Some bytes) len = Val (FLUX_OK, k') \<and> ipc_ok k'
    \<and> (\<forall>pid. case ipc_get_queue pid of None \<Rightarrow> True
        | Some i \<Rightarrow> messages (i_queues k' i) = messages (i_queues k i) @
            (if 2 \<le> unat pid \<and> hears k (flux_getpid k) pid \<and> q_count (i_queues k i) < 64
             then [build_message k (i_msg_id k) (flux_getpid k) 0 bytes len] else []))"
proof -
  let ?k1 = "k\<lparr>i_msg_id := i_msg_id k + 1\<rparr>" and ?s = "flux_getpid k"
  let ?m = "build_message k (i_msg_id k) ?s 0 bytes len" and ?ps = broadcast_pids
  have m: "build_message ?k1 (i_msg_id k) ?s 0 bytes len = ?m"
    by (simp add: build_message_def ipc_current_tick_def split: option.split)
  obtain k2 d f where fold: "fold (deliver_to ?s ?m) ?ps (?k1, 0, 0) = (k2, d, f)" using prod_cases3 by blast
  have h: "heard_by ?k1 ?s pid i = heard_by k ?s pid i" for pid i
    by (simp add: heard_by_def hears_def split: option.split)
  have all: "\<forall>i < 256. queue_ok (i_queues k2 i)" "\<And>i. messages (i_queues k2 i) = messages (i_queues k i) @
      (if list_ex (\<lambda>pid. heard_by k ?s pid i) ?ps then [?m] else [])"
    using deliver_fold [of ?k1 ?ps k2 ?s ?m 0 0] assms(1) broadcast_pids(1) unfolding fold
    by (simp_all add: h ipc_ok_def)
  have ex: "list_ex (\<lambda>pid. heard_by k ?s pid i) ?ps \<longleftrightarrow> 2 \<le> unat pid \<and> hears k ?s pid \<and> q_count (i_queues k i) < 64"
    if "ipc_get_queue pid = Some i" for pid i
  proof -
    have le: "unat pid \<le> 256" using that by (auto simp: ipc_get_queue_def split: if_splits)
    have "pid' = pid" if "heard_by k ?s pid' i" for pid'
      using that \<open>ipc_get_queue pid = Some i\<close> get_queue_inj by (simp add: heard_by_def)
    then have "list_ex (\<lambda>pid. heard_by k ?s pid i) ?ps \<longleftrightarrow> pid \<in> set ?ps \<and> heard_by k ?s pid i"
      unfolding list_ex_iff by metis
    then show ?thesis
      using le that by (simp add: broadcast_pids(2) heard_by_def)
  qed
  obtain k' where "flux_a2a_broadcast k (Some bytes) len = Val (FLUX_OK, k')" "i_queues k' = i_queues k2"
    using assms(2-) by (simp add: flux_a2a_broadcast_def Let_def ipc_alloc_msg_id_def m fold not_less word_gt_0)
  then show ?thesis using all ex by (auto simp: ipc_ok_def split: option.split)
qed

subsection \<open>Witnesses\<close>

text \<open>Pid 2 is running; pid 3 is an idle agent with nothing to read; pid 4 is not alive.\<close>

definition ipc_demo :: kernel where
  "ipc_demo = boot_kernel\<lparr>
     k_pcbs := (\<lambda>_. zero_pcb)(
       1 := zero_pcb\<lparr>p_pid := 2, p_state := PROC_RUNNING, p_caps := FLUX_CAP_ALL\<rparr>,
       2 := zero_pcb\<lparr>p_pid := 3, p_state := PROC_AGENT_IDLE, p_is_agent := True\<rparr>),
     k_current_pid := 2, k_tick := 70\<rparr>"

lemma ipc_demo_facts:
  "ipc_ok ipc_demo" "flux_getpid ipc_demo = 2" "flux_getpid ipc_demo \<noteq> 0" "ipc_check_capability ipc_demo 2"
  "flux_get_pcb ipc_demo 3 = Some 2" "flux_get_pcb ipc_demo 2 = Some 1" "ipc_get_queue 3 = Some 2" "ipc_get_queue 2 = Some 1"
  "q_count (i_queues ipc_demo 2) = 0" "messages (i_queues ipc_demo 2) = []" "messages (i_queues ipc_demo 1) = []"
  "q_count (i_queues ipc_demo 1) = 0"
proof -
  have "i_queues ipc_demo = (\<lambda>_. zero_queue)" by (simp add: ipc_demo_def boot_kernel_def)
  moreover have "queue_ok zero_queue" by code_simp
  ultimately show "ipc_ok ipc_demo" by (simp add: ipc_ok_def)
qed code_simp+

theorem send_spec_witness:
  "\<exists>k'. flux_a2a_send ipc_demo 3 (Some [7, 8, 9]) 2 = Val (FLUX_OK, k')
     \<and> map m_payload (messages (i_queues k' 2)) = [[7, 8]] \<and> p_state (k_pcbs k' 2) \<notin> {PROC_BLOCKED, PROC_AGENT_IDLE}"
  using send_spec [OF ipc_demo_facts(1), of 2 "[7, 8, 9]" 3] ipc_demo_facts by (auto simp: build_message_def)

theorem recv_spec_witness:
  "\<exists>k'. recv_begin ipc_demo None (Some [0, 0]) (Some 2) 5 = Val (None, k') \<and> p_state (k_pcbs k' 1) = PROC_BLOCKED"
  using recv_spec [OF ipc_demo_facts(1,3), of 1 2 "[0, 0]" None 5] ipc_demo_facts by (auto simp: Let_def)

theorem send_recv_roundtrip_witness:
  "\<exists>k1 k2. flux_a2a_send ipc_demo 3 (Some [7, 8, 9]) 2 = Val (FLUX_OK, k1)
     \<and> recv_begin (k1\<lparr>k_current_pid := 3\<rparr>) (Some 2) (Some [0, 0, 0]) (Some 2) 0
       = Val (Some (Received (Some 2) [7, 8, 0] 2), k2)"
  using send_recv_roundtrip [OF ipc_demo_facts(1), of 2 "[7, 8, 9]" 3 2 2 "[0, 0, 0]" 0] ipc_demo_facts
  by auto

theorem recv_wait_returns_witness:
  "\<exists>r k'. recv_wait (unat (4 :: u64) + 1) (\<lambda>_ k. k\<lparr>k_tick := k_tick k + 1\<rparr>)
     (recv_poll 2 (Some 1) 1 (ipc_current_tick ipc_demo) None [0, 0] 2 4) ipc_demo = Val (Some r, k')"
proof (rule recv_wait_returns)
  have "k_tick ipc_demo = 70" by code_simp
  then show "unat (k_tick ipc_demo) + unat (4 :: u64) < 2 ^ 32" by simp
qed simp_all

theorem recv_waits_forever_witness:
  "\<exists>k'. recv_wait 1000 (\<lambda>_ k. k) (recv_poll 2 (Some 1) 1 0 None [0, 0] 2 0xFFFFFFFF) ipc_demo = Val (None, k')"
proof (rule recv_waits_forever)
  show "queue_ok (i_queues ipc_demo 1)" by code_simp
  show "\<not> list_ex (wanted (recv_filter None)) (messages (i_queues ipc_demo 1))"
    using ipc_demo_facts by simp
qed simp

theorem broadcast_spec_witness:
  "\<exists>k'. flux_a2a_broadcast ipc_demo (Some [7, 8]) 2 = Val (FLUX_OK, k') \<and> map m_payload (messages (i_queues k' 2)) = [[7, 8]]
     \<and> messages (i_queues k' 1) = []"
proof -
  have "\<exists>k'. flux_a2a_broadcast ipc_demo (Some [7, 8]) 2 = Val (FLUX_OK, k') \<and> ipc_ok k'
    \<and> (\<forall>pid. case ipc_get_queue pid of None \<Rightarrow> True
        | Some i \<Rightarrow> messages (i_queues k' i) = messages (i_queues ipc_demo i) @
            (if 2 \<le> unat pid \<and> hears ipc_demo (flux_getpid ipc_demo) pid \<and> q_count (i_queues ipc_demo i) < 64
             then [build_message ipc_demo (i_msg_id ipc_demo) (flux_getpid ipc_demo) 0 [7, 8] 2] else []))"
    by (rule broadcast_spec) (use ipc_demo_facts in simp_all)
  then obtain k' where k': "flux_a2a_broadcast ipc_demo (Some [7, 8]) 2 = Val (FLUX_OK, k')"
    "case ipc_get_queue pid of None \<Rightarrow> True
        | Some i \<Rightarrow> messages (i_queues k' i) = messages (i_queues ipc_demo i) @
            (if 2 \<le> unat pid \<and> hears ipc_demo (flux_getpid ipc_demo) pid \<and> q_count (i_queues ipc_demo i) < 64
             then [build_message ipc_demo (i_msg_id ipc_demo) (flux_getpid ipc_demo) 0 [7, 8] 2] else [])" for pid
    by blast
  have "hears ipc_demo 2 3" "\<not> hears ipc_demo 2 2" by code_simp+
  then show ?thesis using k'(1) k'(2) [of 3] k'(2) [of 2] ipc_demo_facts by (simp add: build_message_def)
qed

end
