(* ===== verification/FluxHeap.thy ===== *)
theory FluxHeap
  imports FluxPrelude "HOL-Library.Monad_Syntax"
begin

section \<open>The kernel memory allocator (kernel/mem.c)\<close>

text \<open>
  The free-list allocator, its memory map and its permission table. Addresses inside \<open>s_heap\<close> are
  byte offsets, \<open>int\<close>s that are not negative; \<open>h_base\<close> is the address of \<open>s_heap\<close>, a multiple of 16. A block is its 40-byte
  header at offset \<open>a\<close> followed by its data at \<open>a + 40\<close>.

  Headers and data are kept apart: \<open>h_blocks a\<close> is the header stored at \<open>a\<close>, \<open>None\<close> where none has
  been written since the bytes were last cleared, and \<open>h_data\<close> the data bytes. The operations return
  \<open>None\<close> when the code would read a header where none was written, or follow a list that does not end;
  \<open>FluxHeapProps\<close> shows that neither happens in a reachable heap.
\<close>

abbreviation (input) FLUX_HEAP_SIZE :: int where "FLUX_HEAP_SIZE \<equiv> 16777216"
abbreviation (input) FLUX_MEM_ALIGN :: u64 where "FLUX_MEM_ALIGN \<equiv> 16"
abbreviation (input) MEM_HEADER :: int where "MEM_HEADER \<equiv> 40"
abbreviation (input) MEM_BLOCK_MAGIC :: u32 where "MEM_BLOCK_MAGIC \<equiv> 0x464C5558"
abbreviation (input) MEM_BLOCK_USED :: u32 where "MEM_BLOCK_USED \<equiv> 1"
abbreviation (input) MEM_BLOCK_FREE :: u32 where "MEM_BLOCK_FREE \<equiv> 2"
abbreviation (input) FLUX_MEM_MAX_MAP_ENTRIES :: nat where "FLUX_MEM_MAX_MAP_ENTRIES \<equiv> 2048"
abbreviation (input) FLUX_MEM_MAX_PERMISSIONS :: nat where "FLUX_MEM_MAX_PERMISSIONS \<equiv> 256"
abbreviation (input) FLUX_MEM_ANY :: u32 where "FLUX_MEM_ANY \<equiv> 0"
abbreviation (input) FLUX_MEM_KERNEL :: u32 where "FLUX_MEM_KERNEL \<equiv> 1"
abbreviation (input) FLUX_MEM_AGENT :: u32 where "FLUX_MEM_AGENT \<equiv> 5"

record mem_block =
  b_magic :: u32
  b_flags :: u32
  b_size :: u64
  b_type :: u32
  b_owner :: u32
  b_next :: "int option"
  b_prev :: "int option"

record mem_map_entry =
  me_base :: u64
  me_size :: u64
  me_type :: u32
  me_perms :: u32
  me_owner :: u32
  me_active :: bool
  me_tag :: string

record mem_perm_entry =
  pe_base :: u64
  pe_size :: u64
  pe_perms :: u32
  pe_active :: bool

definition zero_map_entry :: mem_map_entry where
  "zero_map_entry = \<lparr>me_base = 0, me_size = 0, me_type = 0, me_perms = 0, me_owner = 0,
     me_active = False, me_tag = ''''\<rparr>"

definition zero_perm_entry :: mem_perm_entry where
  "zero_perm_entry = \<lparr>pe_base = 0, pe_size = 0, pe_perms = 0, pe_active = False\<rparr>"

record heap =
  h_base :: u64
  h_blocks :: "int \<Rightarrow> mem_block option"
  h_data :: "int \<Rightarrow> u8"
  h_free_list :: "int option"
  h_used :: u64
  h_free :: u64
  h_alloc_count :: u32
  h_free_count :: u32
  h_alloc_failures :: u32
  h_map :: "nat \<Rightarrow> mem_map_entry"
  h_map_count :: nat
  h_perms :: "nat \<Rightarrow> mem_perm_entry"
  h_perm_count :: nat
  h_alloc_seq :: u32

subsection \<open>Sizes and pointers\<close>

definition mem_align_up :: "u64 \<Rightarrow> u64 \<Rightarrow> u64" where
  "mem_align_up val align = (val + align - 1) AND NOT (align - 1)"

definition mem_block_total_size :: "u64 \<Rightarrow> u64" where
  "mem_block_total_size data_size = mem_align_up (data_size + 40) FLUX_MEM_ALIGN"

text \<open>The address a data offset stands for.\<close>

definition addr_of :: "heap \<Rightarrow> int \<Rightarrow> u64" where
  "addr_of h off = h_base h + of_int off"

definition mem_ptr_from_block :: "int \<Rightarrow> int" where
  "mem_ptr_from_block a = a + MEM_HEADER"

definition mem_block_from_ptr :: "int \<Rightarrow> int option" where
  "mem_block_from_ptr p = (if p < MEM_HEADER then None else Some (p - MEM_HEADER))"

definition upd_block :: "int \<Rightarrow> (mem_block \<Rightarrow> mem_block) \<Rightarrow> heap \<Rightarrow> heap" where
  "upd_block a f h = h\<lparr>h_blocks := (h_blocks h)(a := map_option f (h_blocks h a))\<rparr>"

subsection \<open>The free list\<close>

text \<open>The scan of \<open>mem_find_free_block\<close>: the smallest block that is large enough, the first of them.\<close>

partial_function (option) find_free ::
  "(int \<Rightarrow> mem_block option) \<Rightarrow> u64 \<Rightarrow> int option \<Rightarrow> int option \<Rightarrow> int option option" where
  "find_free bs needed cur best =
     (case cur of None \<Rightarrow> Some best
      | Some a \<Rightarrow>
          Option.bind (bs a) (\<lambda>b.
            Option.bind (case best of None \<Rightarrow> Some None | Some c \<Rightarrow> map_option Some (bs c)) (\<lambda>bb.
              find_free bs needed (b_next b)
                (if b_flags b AND MEM_BLOCK_FREE \<noteq> 0 \<and> needed \<le> b_size b
                    \<and> (case bb of None \<Rightarrow> True | Some x \<Rightarrow> b_size b < b_size x)
                 then Some a else best))))"

definition mem_find_free_block :: "heap \<Rightarrow> u64 \<Rightarrow> int option option" where
  "mem_find_free_block h len = find_free (h_blocks h) len (h_free_list h) None"

definition mem_remove_from_free_list :: "int \<Rightarrow> heap \<Rightarrow> heap option" where
  "mem_remove_from_free_list a h =
     Option.bind (h_blocks h a) (\<lambda>b.
       let h1 = (case b_prev b of None \<Rightarrow> h\<lparr>h_free_list := b_next b\<rparr>
                 | Some p \<Rightarrow> upd_block p (\<lambda>x. x\<lparr>b_next := b_next b\<rparr>) h);
           h2 = (case b_next b of None \<Rightarrow> h1
                 | Some n \<Rightarrow> upd_block n (\<lambda>x. x\<lparr>b_prev := b_prev b\<rparr>) h1)
       in Some (upd_block a (\<lambda>x. x\<lparr>b_next := None, b_prev := None\<rparr>) h2))"

text \<open>The walk to the insertion point: the last block below \<open>a\<close> and the first one not below it.\<close>

partial_function (option) insert_point ::
  "(int \<Rightarrow> mem_block option) \<Rightarrow> int \<Rightarrow> int option \<Rightarrow> int option \<Rightarrow> (int option \<times> int option) option" where
  "insert_point bs a prev cur =
     (case cur of None \<Rightarrow> Some (prev, cur)
      | Some c \<Rightarrow> if c < a then Option.bind (bs c) (\<lambda>b. insert_point bs a (Some c) (b_next b))
                  else Some (prev, cur))"

definition mem_add_to_free_list :: "int \<Rightarrow> heap \<Rightarrow> heap option" where
  "mem_add_to_free_list a h0 =
     (let h = upd_block a (\<lambda>x. x\<lparr>b_flags := MEM_BLOCK_FREE, b_next := None, b_prev := None\<rparr>) h0
      in if h_free_list h = None then Some (h\<lparr>h_free_list := Some a\<rparr>)
         else Option.bind (insert_point (h_blocks h) a None (h_free_list h)) (\<lambda>(prev, cur).
           let h1 = (case prev of
                 Some p \<Rightarrow> upd_block a (\<lambda>x. x\<lparr>b_prev := Some p\<rparr>) (upd_block p (\<lambda>x. x\<lparr>b_next := Some a\<rparr>) h)
               | None \<Rightarrow> h\<lparr>h_free_list := Some a\<rparr>);
               h2 = upd_block a (\<lambda>x. x\<lparr>b_next := cur\<rparr>) h1
           in Some (case cur of Some c \<Rightarrow> upd_block c (\<lambda>x. x\<lparr>b_prev := Some a\<rparr>) h2 | None \<Rightarrow> h2)))"

text \<open>
  The scan of \<open>mem_coalesce\<close> for the first free block whose successor in the list is free and
  adjacent; \<open>Some None\<close> when there is none.
\<close>

partial_function (option) coalesce_scan ::
  "(int \<Rightarrow> mem_block option) \<Rightarrow> int option \<Rightarrow> int option option" where
  "coalesce_scan bs cur =
     (case cur of None \<Rightarrow> Some None
      | Some a \<Rightarrow>
          Option.bind (bs a) (\<lambda>b.
            if b_flags b AND MEM_BLOCK_FREE = 0 then coalesce_scan bs (b_next b)
            else case b_next b of None \<Rightarrow> coalesce_scan bs None
            | Some n \<Rightarrow>
                if n = a + MEM_HEADER + uint (b_size b) then
                  Option.bind (bs n) (\<lambda>nb.
                    if b_flags nb AND MEM_BLOCK_FREE \<noteq> 0 then Some (Some a)
                    else coalesce_scan bs (b_next b))
                else coalesce_scan bs (b_next b)))"

text \<open>Merging the successor into block \<open>a\<close>.\<close>

definition merge_next :: "int \<Rightarrow> heap \<Rightarrow> heap option" where
  "merge_next a h =
     Option.bind (h_blocks h a) (\<lambda>b.
     Option.bind (b_next b) (\<lambda>n.
     Option.bind (h_blocks h n) (\<lambda>nb.
       let h1 = upd_block a (\<lambda>x. x\<lparr>b_size := b_size b + (40 + b_size nb)\<rparr>) h;
           h2 = upd_block n (\<lambda>x. x\<lparr>b_magic := 0\<rparr>) h1;
           h3 = upd_block a (\<lambda>x. x\<lparr>b_next := b_next nb\<rparr>) h2
       in Some (case b_next nb of None \<Rightarrow> h3
                | Some m \<Rightarrow> upd_block m (\<lambda>x. x\<lparr>b_prev := Some a\<rparr>) h3))))"

partial_function (option) mem_coalesce :: "heap \<Rightarrow> heap option" where
  "mem_coalesce h =
     Option.bind (coalesce_scan (h_blocks h) (h_free_list h)) (\<lambda>r.
       case r of None \<Rightarrow> Some h
       | Some a \<Rightarrow> Option.bind (merge_next a h) mem_coalesce)"

definition mem_split_block :: "int \<Rightarrow> u64 \<Rightarrow> heap \<Rightarrow> heap option" where
  "mem_split_block a needed h =
     Option.bind (h_blocks h a) (\<lambda>b.
       let remainder = b_size b - needed; min_block = 40 + FLUX_MEM_ALIGN
       in if min_block \<le> remainder then
            let n = a + MEM_HEADER + uint needed;
                nb = \<lparr>b_magic = MEM_BLOCK_MAGIC, b_flags = MEM_BLOCK_FREE,
                      b_size = remainder - 40, b_type = FLUX_MEM_ANY, b_owner = 0,
                      b_next = None, b_prev = None\<rparr>;
                h1 = h\<lparr>h_blocks := (h_blocks h)(n := Some nb)\<rparr>
            in mem_add_to_free_list n (upd_block a (\<lambda>x. x\<lparr>b_size := needed\<rparr>) h1)
          else Some h)"

subsection \<open>The memory map and the permission table\<close>

definition mem_map_add :: "u64 \<Rightarrow> u64 \<Rightarrow> u32 \<Rightarrow> u32 \<Rightarrow> string option \<Rightarrow> heap \<Rightarrow> flux_status \<times> heap" where
  "mem_map_add base len type owner tag h =
     (case first_index (\<lambda>i. \<not> me_active (h_map h i)) 0 FLUX_MEM_MAX_MAP_ENTRIES of
        None \<Rightarrow> (FLUX_ERR_OVERFLOW, h)
      | Some i \<Rightarrow>
          (FLUX_OK,
           h\<lparr>h_map := (h_map h)(i := \<lparr>me_base = base, me_size = len, me_type = type, me_perms = 7,
                me_owner = owner, me_active = True,
                me_tag = (case tag of None \<Rightarrow> '''' | Some t \<Rightarrow> take 31 t)\<rparr>),
             h_map_count := (if h_map_count h \<le> i then i + 1 else h_map_count h)\<rparr>))"

definition mem_map_remove :: "u64 \<Rightarrow> heap \<Rightarrow> flux_status \<times> heap" where
  "mem_map_remove base h =
     (case first_index (\<lambda>i. me_active (h_map h i) \<and> me_base (h_map h i) = base) 0 (h_map_count h) of
        None \<Rightarrow> (FLUX_ERR_NOTFOUND, h)
      | Some i \<Rightarrow> (FLUX_OK, h\<lparr>h_map := (h_map h)(i := (h_map h i)\<lparr>me_active := False\<rparr>)\<rparr>))"

definition mem_find_perm :: "u64 \<Rightarrow> u64 \<Rightarrow> heap \<Rightarrow> nat option" where
  "mem_find_perm addr len h =
     first_index (\<lambda>i. let pe = h_perms h i in
       pe_active pe \<and> addr < pe_base pe + pe_size pe \<and> pe_base pe < addr + len) 0 (h_perm_count h)"

text \<open>The call of \<open>hal->vm_protect\<close> leaves this state alone and its result is ignored.\<close>

definition flux_mem_protect :: "u64 \<Rightarrow> u64 \<Rightarrow> u32 \<Rightarrow> heap \<Rightarrow> flux_status \<times> heap" where
  "flux_mem_protect addr len perm h =
     (if len = 0 \<or> addr = 0 then (FLUX_ERR_INVALID, h)
      else
        let found = first_index (\<lambda>i. pe_active (h_perms h i) \<and> pe_base (h_perms h i) = addr
                      \<and> pe_size (h_perms h i) = len) 0 (h_perm_count h);
            result = (case found of
                Some i \<Rightarrow> Some (h\<lparr>h_perms := (h_perms h)(i := (h_perms h i)\<lparr>pe_perms := perm\<rparr>)\<rparr>)
              | None \<Rightarrow>
                  if h_perm_count h < FLUX_MEM_MAX_PERMISSIONS
                  then Some (h\<lparr>h_perms := (h_perms h)(h_perm_count h :=
                          \<lparr>pe_base = addr, pe_size = len, pe_perms = perm, pe_active = True\<rparr>),
                        h_perm_count := h_perm_count h + 1\<rparr>)
                  else None)
        in case result of None \<Rightarrow> (FLUX_ERR_OVERFLOW, h)
           | Some h1 \<Rightarrow>
               (FLUX_OK,
                case first_index (\<lambda>i. me_active (h_map h1 i) \<and> me_base (h_map h1 i) = addr) 0 (h_map_count h1) of
                  None \<Rightarrow> h1
                | Some i \<Rightarrow> h1\<lparr>h_map := (h_map h1)(i := (h_map h1 i)\<lparr>me_perms := perm\<rparr>)\<rparr>))"

subsection \<open>Initialisation, allocation, release\<close>

definition flux_mem_init :: "heap \<Rightarrow> flux_status \<times> heap" where
  "flux_mem_init h =
     (let initial = \<lparr>b_magic = MEM_BLOCK_MAGIC, b_flags = MEM_BLOCK_FREE,
            b_size = 16777216 - 40, b_type = FLUX_MEM_ANY, b_owner = 0,
            b_next = None, b_prev = None\<rparr>;
          h1 = h\<lparr>h_data := (\<lambda>_. 0), h_used := 0, h_free := 16777216, h_alloc_count := 0,
            h_free_count := 0, h_alloc_failures := 0, h_alloc_seq := 0, h_map_count := 0,
            h_perm_count := 0, h_blocks := [0 \<mapsto> initial], h_free_list := Some 0\<rparr>
      in (FLUX_OK,
          snd (mem_map_add (h_base h1) (16777216) FLUX_MEM_KERNEL 1 (Some ''kernel-heap'') h1)))"

definition type_names :: "string list" where
  "type_names = [''any'', ''kernel'', ''user'', ''device'', ''bytecode'', ''agent'', ''compiled'']"

definition alloc_tag :: "u32 \<Rightarrow> u32 \<Rightarrow> string" where
  "alloc_tag type seq = ''alloc-'' @ (if type < 7 then type_names ! unat type else ''unknown'')
     @ ''-'' @ decimal (unat seq)"

text \<open>\<open>memset(ptr, 0, n)\<close>: the data is cleared, and with it any stale header inside it.\<close>

definition clear_data :: "int \<Rightarrow> int \<Rightarrow> heap \<Rightarrow> heap" where
  "clear_data p n h =
     h\<lparr>h_data := (\<lambda>i. if p \<le> i \<and> i < p + n then 0 else h_data h i),
       h_blocks := (\<lambda>a. if p < a + MEM_HEADER \<and> a < p + n then None else h_blocks h a)\<rparr>"

text \<open>\<open>cur\<close> is the pid of the running process. The result is the data offset, \<open>None\<close> for NULL.\<close>

definition flux_alloc :: "u32 \<Rightarrow> u64 \<Rightarrow> u32 \<Rightarrow> heap \<Rightarrow> (int option \<times> heap) option" where
  "flux_alloc cur len type h =
     (if len = 0 then Some (None, h)
      else
        let aligned_size = mem_align_up len FLUX_MEM_ALIGN
        in Option.bind (mem_find_free_block h aligned_size) (\<lambda>r. case r of
             None \<Rightarrow> Some (None, h\<lparr>h_alloc_failures := h_alloc_failures h + 1\<rparr>)
           | Some a \<Rightarrow>
               Option.bind (mem_remove_from_free_list a h) (\<lambda>h1.
               Option.bind (mem_split_block a aligned_size h1) (\<lambda>h2.
                 let h3 = upd_block a (\<lambda>x. x\<lparr>b_magic := MEM_BLOCK_MAGIC, b_flags := MEM_BLOCK_USED,
                            b_type := type, b_owner := cur\<rparr>) h2;
                     total = 40 + aligned_size;
                     h4 = h3\<lparr>h_used := h_used h3 + total, h_free := h_free h3 - total,
                            h_alloc_count := h_alloc_count h3 + 1, h_alloc_seq := h_alloc_seq h3 + 1\<rparr>;
                     p = mem_ptr_from_block a;
                     h5 = snd (mem_map_add (addr_of h4 p) aligned_size type cur
                            (Some (alloc_tag type (h_alloc_seq h4))) h4)
                 in Some (Some p, clear_data p (uint aligned_size) h5)))))"

definition flux_free :: "int option \<Rightarrow> heap \<Rightarrow> heap option" where
  "flux_free ptr h =
     (case ptr of None \<Rightarrow> Some h
      | Some p \<Rightarrow>
          Option.bind (mem_block_from_ptr p) (\<lambda>a.
          Option.bind (h_blocks h a) (\<lambda>b.
            if b_magic b \<noteq> MEM_BLOCK_MAGIC then Some h
            else if b_flags b AND MEM_BLOCK_USED = 0 then Some h
            else
              let total = 40 + b_size b;
                  h1 = snd (mem_map_remove (addr_of h p) h);
                  h2 = h1\<lparr>h_used := h_used h1 - total, h_free := h_free h1 + total,
                          h_free_count := h_free_count h1 + 1\<rparr>;
                  h3 = upd_block a (\<lambda>x. x\<lparr>b_owner := 0\<rparr>) h2
              in Option.bind (mem_add_to_free_list a h3) mem_coalesce)))"

text \<open>\<open>ptr\<close> is an address here. Reading a header where none is, is outside the model.\<close>

definition flux_mem_check :: "u64 \<Rightarrow> u64 \<Rightarrow> heap \<Rightarrow> bool option" where
  "flux_mem_check ptr len h =
     (if ptr = 0 then Some False
      else
        let heap_start = h_base h; heap_end = h_base h + 16777216
        in if ptr < heap_start \<or> heap_end \<le> ptr then Some False
           else if heap_end < ptr + len then Some False
           else Option.bind (mem_block_from_ptr (uint (ptr - heap_start))) (\<lambda>a.
             map_option (\<lambda>b. b_magic b = MEM_BLOCK_MAGIC \<and> b_flags b AND MEM_BLOCK_USED \<noteq> 0
               \<and> len \<le> b_size b) (h_blocks h a)))"

text \<open>\<open>memcpy\<close> of data bytes between two blocks.\<close>

definition copy_data :: "int \<Rightarrow> int \<Rightarrow> int \<Rightarrow> heap \<Rightarrow> heap" where
  "copy_data dst src n h =
     h\<lparr>h_data := (\<lambda>i. if dst \<le> i \<and> i < dst + n then h_data h (src + (i - dst)) else h_data h i)\<rparr>"

definition flux_realloc :: "u32 \<Rightarrow> int option \<Rightarrow> u64 \<Rightarrow> u32 \<Rightarrow> heap \<Rightarrow> (int option \<times> heap) option" where
  "flux_realloc cur ptr new_size type h =
     (case ptr of None \<Rightarrow> flux_alloc cur new_size type h
      | Some p \<Rightarrow>
          if new_size = 0 then map_option (Pair None) (flux_free (Some p) h)
          else
            Option.bind (mem_block_from_ptr p) (\<lambda>a.
            Option.bind (h_blocks h a) (\<lambda>b.
              if b_magic b \<noteq> MEM_BLOCK_MAGIC \<or> b_flags b AND MEM_BLOCK_USED = 0 then Some (None, h)
              else
                let aligned_new = mem_align_up new_size FLUX_MEM_ALIGN
                in if aligned_new \<le> b_size b
                   then Some (Some p, upd_block a (\<lambda>x. x\<lparr>b_type := type\<rparr>) h)
                   else Option.bind (flux_alloc cur new_size type h) (\<lambda>(r, h1). case r of
                       None \<Rightarrow> Some (None, h1)
                     | Some np \<Rightarrow>
                         Option.bind (mem_block_from_ptr np) (\<lambda>na.
                         Option.bind (h_blocks h1 a) (\<lambda>b1.
                         Option.bind (h_blocks h1 na) (\<lambda>nb.
                           let copy_size = (if b_size b1 < b_size nb then b_size b1 else b_size nb)
                           in map_option (Pair (Some np))
                                (flux_free (Some p) (copy_data np p (uint copy_size) h1)))))))))"

definition boot_heap :: "u64 \<Rightarrow> heap" where
  "boot_heap base = \<lparr>h_base = base, h_blocks = Map.empty, h_data = (\<lambda>_. 0), h_free_list = None,
     h_used = 0, h_free = 16777216, h_alloc_count = 0, h_free_count = 0, h_alloc_failures = 0,
     h_map = (\<lambda>_. zero_map_entry), h_map_count = 0, h_perms = (\<lambda>_. zero_perm_entry),
     h_perm_count = 0, h_alloc_seq = 0\<rparr>"

declare find_free.simps [code] insert_point.simps [code] coalesce_scan.simps [code] mem_coalesce.simps [code]

end
