(* ===== verification/FluxProc.thy ===== *)
theory FluxProc
  imports FluxIpc FluxHeap
begin

section \<open>The process table (kernel/proc.c)\<close>

text \<open>
  Creating, ending and looking up processes. \<open>flux_spawn\<close> takes its stack from the allocator of
  FluxHeap, so it acts on the kernel and the heap. \<open>flux_exit\<close> returns \<open>None\<close> where the code panics
  and does not come back.
\<close>

subsection \<open>Pids and slots\<close>

text \<open>The scan for a pid from the watermark on: the pid (0 for none) and the new watermark.\<close>

fun allocate_pid_loop :: "nat \<Rightarrow> (nat \<Rightarrow> pcb) \<Rightarrow> u32 \<Rightarrow> u32 \<times> u32" where
  "allocate_pid_loop 0 pcbs next_pid = (FLUX_PID_INVALID, next_pid)"
| "allocate_pid_loop (Suc n) pcbs next_pid =
     (if next_pid \<le> FLUX_PID_KERNEL then allocate_pid_loop n pcbs FLUX_PID_FIRST_APP
      else
        let idx = proc_pid_to_index next_pid;
            succ_pid = (if next_pid + 1 \<le> FLUX_PID_KERNEL then FLUX_PID_FIRST_APP else next_pid + 1)
        in if 0 \<le> idx \<and> p_state (pcbs (nat idx)) = PROC_UNUSED then (next_pid, succ_pid)
           else allocate_pid_loop n pcbs succ_pid)"

definition proc_allocate_pid :: "kernel \<Rightarrow> u32 \<times> kernel" where
  "proc_allocate_pid k =
     (let (pid, next_pid) = allocate_pid_loop FLUX_MAX_PROCESSES (k_pcbs k) (k_next_pid k)
      in (pid, k\<lparr>k_next_pid := next_pid\<rparr>))"

definition proc_find_unused_slot :: "kernel \<Rightarrow> nat option" where
  "proc_find_unused_slot k = first_index (\<lambda>i. p_state (k_pcbs k i) = PROC_UNUSED) 0 FLUX_MAX_PROCESSES"

definition proc_state_name :: "proc_state \<Rightarrow> string" where
  "proc_state_name s = (case s of
     PROC_UNUSED \<Rightarrow> ''UNUSED'' | PROC_READY \<Rightarrow> ''READY'' | PROC_RUNNING \<Rightarrow> ''RUNNING''
   | PROC_BLOCKED \<Rightarrow> ''BLOCKED'' | PROC_ZOMBIE \<Rightarrow> ''ZOMBIE'' | PROC_AGENT_IDLE \<Rightarrow> ''AGENT_IDLE''
   | PROC_AGENT_THINKING \<Rightarrow> ''AGENT_THINKING'' | PROC_COMPILED \<Rightarrow> ''COMPILED'')"

definition proc_cleanup :: "nat \<Rightarrow> kernel \<Rightarrow> kernel" where
  "proc_cleanup i k =
     (let p0 = k_pcbs k i;
          p1 = (if p_stack_ptr p0 \<noteq> 0 then p0\<lparr>p_stack_ptr := 0\<rparr> else p0);
          p2 = (if p_bc_active p1
                then p1\<lparr>p_bc_active := False, p_bc_base := 0, p_bc_len := 0, p_bc_pc := 0,
                        p_bc_regs := (\<lambda>_. 0)\<rparr>
                else p1);
          agents = (if p_is_agent p2 then k_agent_count k - 1 else k_agent_count k);
          p3 = p2\<lparr>p_is_agent := False, p_state := PROC_UNUSED, p_pid := FLUX_PID_INVALID,
                  p_name := '''', p_waiting_for := FLUX_PID_INVALID\<rparr>
      in k\<lparr>k_pcbs := (k_pcbs k)(i := p3), k_agent_count := agents,
           k_active_count := k_active_count k - 1\<rparr>)"

subsection \<open>Initialisation\<close>

definition flux_proc_init :: "kernel \<Rightarrow> flux_status \<times> kernel" where
  "flux_proc_init k =
     (FLUX_OK,
      k\<lparr>k_pcbs := (\<lambda>_. zero_pcb)(0 := zero_pcb\<lparr>p_pid := FLUX_PID_KERNEL, p_state := PROC_RUNNING,
            p_priority := 255, p_caps := FLUX_CAP_ALL, p_perms := FLUX_PERM_RWX, p_name := ''kernel''\<rparr>),
        k_active_count := 1, k_agent_count := 0, k_next_pid := FLUX_PID_FIRST_APP,
        k_num_processes := 1, k_current_pid := FLUX_PID_KERNEL, k_ks_next_pid := FLUX_PID_FIRST_APP\<rparr>)"

subsection \<open>Spawn\<close>

definition spawn_stack_size :: "u64 \<Rightarrow> u64" where
  "spawn_stack_size n = (let m = (if n = 0 then 65536 else n) in if m < 4096 then 4096 else m)"

text \<open>The pid of a new process: from the watermark, or the first unused slot's own.\<close>

definition choose_pid :: "kernel \<Rightarrow> u32 \<times> kernel" where
  "choose_pid k =
     (let (pid, k1) = proc_allocate_pid k
      in if pid = FLUX_PID_INVALID
         then (case proc_find_unused_slot k1 of None \<Rightarrow> (FLUX_PID_INVALID, k1)
               | Some slot \<Rightarrow> (of_nat (slot + 1), k1))
         else (pid, k1))"

definition new_pcb :: "kernel \<Rightarrow> u32 \<Rightarrow> string option \<Rightarrow> u64 \<Rightarrow> u64 \<Rightarrow> bool \<Rightarrow> pcb" where
  "new_pcb k pid name entry stack_top is_agent =
     zero_pcb\<lparr>p_pid := pid, p_parent := k_current_pid k, p_state := PROC_READY, p_priority := 128,
       p_create_time := ucast (k_tick k), p_caps := FLUX_CAP_SPAWN OR FLUX_CAP_COMMUNICATE,
       p_perms := (if is_agent then FLUX_PERM_RW else FLUX_PERM_RWX),
       p_stack_ptr := stack_top, p_instr_ptr := entry,
       p_regs := (\<lambda>_. 0)(2 := stack_top, 4 := entry),
       p_name := (case name of Some s \<Rightarrow> take 63 s | None \<Rightarrow> ''proc-'' @ decimal (unat pid)),
       p_is_agent := is_agent, p_agent_id := (if is_agent then pid else 0),
       p_agent_model := (if is_agent then ''flux:bytecode'' else '''')\<rparr>"

definition flux_spawn ::
  "kernel \<Rightarrow> heap \<Rightarrow> string option \<Rightarrow> u64 \<Rightarrow> u64 \<Rightarrow> bool \<Rightarrow> (u32 \<times> kernel \<times> heap) option" where
  "flux_spawn k h name entry stack_size is_agent =
     (if of_nat FLUX_MAX_PROCESSES \<le> k_active_count k then Some (FLUX_PID_INVALID, k, h)
      else
        let (pid, k1) = choose_pid k; idx = proc_pid_to_index pid; n = spawn_stack_size stack_size
        in if pid = FLUX_PID_INVALID \<or> idx < 0 then Some (FLUX_PID_INVALID, k1, h)
           else Option.bind (flux_alloc (k_current_pid k1) n (if is_agent then FLUX_MEM_AGENT else FLUX_MEM_KERNEL) h)
             (\<lambda>(r, h1). case r of
               None \<Rightarrow> Some (FLUX_PID_INVALID, k1, h1)
             | Some stack \<Rightarrow>
                 let k2 = k1\<lparr>k_pcbs := (k_pcbs k1)(nat idx :=
                              new_pcb k1 pid name entry (addr_of h1 stack + n) is_agent),
                            k_agent_count := (if is_agent then k_agent_count k1 + 1 else k_agent_count k1),
                            k_active_count := k_active_count k1 + 1,
                            k_num_processes := k_active_count k1 + 1, k_ks_next_pid := k_next_pid k1\<rparr>
                 in Some (pid, snd (flux_sched_enqueue k2 pid), h1)))"

subsection \<open>Exit, kill, yield\<close>

text \<open>A parent that waits for the process is made ready.\<close>

definition wake_parent :: "u32 \<Rightarrow> u32 \<Rightarrow> kernel \<Rightarrow> kernel" where
  "wake_parent pid parent k =
     (if parent \<noteq> FLUX_PID_INVALID then
        let pidx = proc_pid_to_index parent; q = k_pcbs k (nat pidx)
        in if 0 \<le> pidx \<and> (p_state q = PROC_BLOCKED \<or> p_state q = PROC_AGENT_IDLE)
              \<and> p_waiting_for q = pid
           then upd_pcb (nat pidx) (\<lambda>p. p\<lparr>p_state := PROC_READY, p_waiting_for := FLUX_PID_INVALID\<rparr>) k
           else k
      else k)"

definition flux_exit :: "kernel \<Rightarrow> (flux_status \<times> kernel) option" where
  "flux_exit k =
     (let pid = k_current_pid k; idx = proc_pid_to_index pid
      in if pid = FLUX_PID_INVALID then Some (FLUX_ERR_INVALID, k)
         else if pid = FLUX_PID_KERNEL then None
         else if idx < 0 \<or> p_state (k_pcbs k (nat idx)) = PROC_UNUSED then Some (FLUX_ERR_INVALID, k)
         else
           let k1 = upd_pcb (nat idx) (\<lambda>p. p\<lparr>p_state := PROC_ZOMBIE\<rparr>) k;
               k2 = wake_parent pid (p_parent (k_pcbs k1 (nat idx))) k1;
               k3 = proc_cleanup (nat idx) k2;
               k4 = k3\<lparr>k_num_processes := k_active_count k3\<rparr>
           in Some (FLUX_OK, flux_sched_yield_current k4))"

definition flux_kill :: "kernel \<Rightarrow> u32 \<Rightarrow> flux_status \<times> kernel" where
  "flux_kill k pid =
     (if pid = FLUX_PID_INVALID \<or> pid = FLUX_PID_KERNEL then (FLUX_ERR_DENIED, k)
      else
        let idx = proc_pid_to_index pid
        in if idx < 0 \<or> p_state (k_pcbs k (nat idx)) = PROC_UNUSED then (FLUX_ERR_NOTFOUND, k)
           else
             let k1 = proc_cleanup (nat idx) k
             in (FLUX_OK, k1\<lparr>k_num_processes := k_active_count k1\<rparr>))"

definition flux_yield :: "kernel \<Rightarrow> flux_status \<times> kernel" where
  "flux_yield k =
     (let pid = k_current_pid k; idx = proc_pid_to_index pid
      in if pid = FLUX_PID_INVALID \<or> idx < 0 then (FLUX_ERR_INVALID, k)
         else
           let k1 = (if p_state (k_pcbs k (nat idx)) = PROC_RUNNING
                     then upd_pcb (nat idx) (\<lambda>p. p\<lparr>p_state := PROC_READY\<rparr>) k else k);
               k2 = snd (flux_sched_enqueue k1 (k_current_pid k1))
           in (FLUX_OK, flux_sched_yield_current k2))"

subsection \<open>Queries and updates\<close>

definition flux_proc_count :: "kernel \<Rightarrow> u32" where
  "flux_proc_count k = k_active_count k"

text \<open>A C \<open>int\<close>.\<close>

definition flux_agent_count :: "kernel \<Rightarrow> int" where
  "flux_agent_count k = sint (k_agent_count k)"

definition flux_proc_set_state :: "kernel \<Rightarrow> u32 \<Rightarrow> proc_state \<Rightarrow> flux_status \<times> kernel" where
  "flux_proc_set_state k pid new_state =
     (let idx = proc_pid_to_index pid
      in if pid = FLUX_PID_INVALID then (FLUX_ERR_INVALID, k)
         else if idx < 0 \<or> p_state (k_pcbs k (nat idx)) = PROC_UNUSED then (FLUX_ERR_NOTFOUND, k)
         else (FLUX_OK, upd_pcb (nat idx) (\<lambda>p. p\<lparr>p_state := new_state\<rparr>) k))"

definition flux_proc_set_priority :: "kernel \<Rightarrow> u32 \<Rightarrow> u8 \<Rightarrow> flux_status \<times> kernel" where
  "flux_proc_set_priority k pid priority =
     (let idx = proc_pid_to_index pid
      in if pid = FLUX_PID_INVALID then (FLUX_ERR_INVALID, k)
         else if idx < 0 \<or> p_state (k_pcbs k (nat idx)) = PROC_UNUSED then (FLUX_ERR_NOTFOUND, k)
         else (FLUX_OK, upd_pcb (nat idx) (\<lambda>p. p\<lparr>p_priority := priority\<rparr>) k))"

definition flux_proc_init_registers :: "pcb \<Rightarrow> u64 \<Rightarrow> u64 \<Rightarrow> pcb" where
  "flux_proc_init_registers p entry stack_top =
     p\<lparr>p_regs := (\<lambda>_. 0)(2 := stack_top, 3 := stack_top, 4 := entry, 1 := 0),
       p_stack_ptr := stack_top, p_instr_ptr := entry\<rparr>"

end
