(* ===== verification/FluxProcProps.thy ===== *)
theory FluxProcProps
  imports FluxProc FluxIpcProps
begin

section \<open>The process table's invariant and operations\<close>

text \<open>
  \<open>live k\<close> is the set of slots in use. \<open>proc_ok\<close> says that the counters count them and that every live
  control block is in the slot of its pid. \<open>same_table\<close> relates kernels that differ in nothing the
  invariant looks at: what the scheduler and message passing do to control blocks.
\<close>

definition live :: "kernel \<Rightarrow> nat set" where
  "live k = {i \<in> {..<256}. p_state (k_pcbs k i) \<noteq> PROC_UNUSED}"

definition live_agents :: "kernel \<Rightarrow> nat set" where
  "live_agents k = {i \<in> live k. p_is_agent (k_pcbs k i)}"

definition proc_ok :: "kernel \<Rightarrow> bool" where
  "proc_ok k \<longleftrightarrow> k_active_count k = of_nat (card (live k)) \<and> k_agent_count k = of_nat (card (live_agents k))
     \<and> (\<forall>i \<in> live k. p_pid (k_pcbs k i) \<noteq> 0 \<and> proc_pid_to_index (p_pid (k_pcbs k i)) = int i)"

lemma live_finite [simp]: "finite (live k)" "finite (live_agents k)"
  by (simp_all add: live_def live_agents_def)

lemma live_card: "card (live k) \<le> 256" "card (live_agents k) \<le> 256"
proof -
  have "live k \<subseteq> {..<256}" "live_agents k \<subseteq> {..<256}" by (auto simp: live_def live_agents_def)
  then show "card (live k) \<le> 256" "card (live_agents k) \<le> 256"
    using card_mono [of "{..<256 :: nat}"] by simp_all
qed

lemma active_unat: "proc_ok k \<Longrightarrow> unat (k_active_count k) = card (live k)"
  using live_card [of k] by (simp add: proc_ok_def unat_of_nat)

lemma get_pcb_live: "flux_get_pcb k pid = Some i \<Longrightarrow> i \<in> live k"
  using get_pcb_Some by (auto simp: live_def)

lemma live_iff: "i < 256 \<Longrightarrow> i \<in> live k \<longleftrightarrow> p_state (k_pcbs k i) \<noteq> PROC_UNUSED"
  by (simp add: live_def)

subsection \<open>What leaves the table alone\<close>

definition same_table :: "kernel \<Rightarrow> kernel \<Rightarrow> bool" where
  "same_table k k' \<longleftrightarrow> k_active_count k' = k_active_count k \<and> k_agent_count k' = k_agent_count k
     \<and> (\<forall>i. (p_state (k_pcbs k' i) = PROC_UNUSED) = (p_state (k_pcbs k i) = PROC_UNUSED)
          \<and> p_is_agent (k_pcbs k' i) = p_is_agent (k_pcbs k i) \<and> p_pid (k_pcbs k' i) = p_pid (k_pcbs k i))"

lemma same_table_refl [simp]: "same_table k k"
  by (simp add: same_table_def)

lemma same_table_trans: "same_table k k1 \<Longrightarrow> same_table k1 k2 \<Longrightarrow> same_table k k2"
  by (simp add: same_table_def)

lemma same_table_live: "same_table k k' \<Longrightarrow> live k' = live k"
  by (auto simp: live_def same_table_def)

lemma same_table_ok: "same_table k k' \<Longrightarrow> proc_ok k' = proc_ok k"
proof -
  assume s: "same_table k k'"
  then have "live k' = live k" by (rule same_table_live)
  moreover from this s have "live_agents k' = live_agents k" by (auto simp: live_agents_def same_table_def)
  ultimately show ?thesis using s by (simp add: proc_ok_def same_table_def)
qed

lemma enqueue_table: "same_table k (snd (flux_sched_enqueue k pid))"
  by (auto simp: same_table_def flux_sched_enqueue_def sched_put_def upd_pcb_def Let_def split: option.split)

lemma enqueue_same: "same_table k0 k \<Longrightarrow> same_table k0 (snd (flux_sched_enqueue k pid))"
  using enqueue_table same_table_trans by blast

lemma upd_pcb_same:
  assumes "\<And>p. (p_state (f p) = PROC_UNUSED) = (p_state p = PROC_UNUSED)"
    "\<And>p. p_is_agent (f p) = p_is_agent p" "\<And>p. p_pid (f p) = p_pid p"
  shows "same_table k (upd_pcb i f k)"
  using assms by (simp add: same_table_def upd_pcb_def)

text \<open>A live control block stays live.\<close>

lemma upd_live_same:
  assumes "i \<in> live k" "\<And>p. p_state (f p) \<noteq> PROC_UNUSED"
    "\<And>p. p_is_agent (f p) = p_is_agent p" "\<And>p. p_pid (f p) = p_pid p"
  shows "same_table k (upd_pcb i f k)"
  using assms by (simp add: same_table_def live_def upd_pcb_def)

lemma proc_ok_fields [simp]:
  "proc_ok (s_stats_update f1 k) = proc_ok k" "proc_ok (s_current_update f2 k) = proc_ok k"
  "proc_ok (k_tick_update f3 k) = proc_ok k" "proc_ok (k_current_pid_update f2 k) = proc_ok k"
  "proc_ok (k_num_processes_update f2 k) = proc_ok k" "proc_ok (s_running_update f4 k) = proc_ok k"
  "proc_ok (upd_queue i g k) = proc_ok k" "proc_ok (upd_stats h k) = proc_ok k"
  "proc_ok (i_msg_id_update f2 k) = proc_ok k" "proc_ok (k_next_pid_update f2 k) = proc_ok k"
  by (rule same_table_ok, simp add: same_table_def upd_queue_def upd_stats_def)+

lemma age_entry_table: "same_table k (age_entry now i k)"
  by (auto simp: same_table_def age_entry_def upd_pcb_def Let_def split: option.split)

lemma age_table: "same_table k (sched_age_priorities k)"
proof -
  have "same_table k (fold (age_entry now) xs k)" for now xs k
    by (induction xs arbitrary: k) (auto intro: age_entry_table same_table_trans)
  from same_table_trans [OF _ this] show ?thesis
    by (simp add: sched_age_priorities_def Let_def same_table_def)
qed

lemma dequeue_table: "same_table k (snd (flux_sched_dequeue k))"
proof -
  have t: "same_table k1 (sched_take k1 b)" for k1 b by (simp add: same_table_def sched_take_def Let_def)
  have u: "same_table k1 (upd_pcb j (\<lambda>p. p\<lparr>p_state := PROC_RUNNING\<rparr>) k1)" if "flux_get_pcb k1 pid = Some j" for k1 j pid
    using get_pcb_live [OF that] by (intro upd_live_same) simp_all
  have "same_table k1 (case flux_get_pcb k1 pid of None \<Rightarrow> k1
      | Some j \<Rightarrow> let k3 = upd_pcb j (\<lambda>p. p\<lparr>p_state := PROC_RUNNING\<rparr>) k1
                  in k3\<lparr>s_stats := (s_stats k3)\<lparr>st_current_timeslice := n\<rparr>\<rparr>)" for k1 pid n
    using u by (auto simp: Let_def same_table_def split: option.split)
  from same_table_trans [OF age_table same_table_trans [OF t this]] show ?thesis
    by (auto simp: flux_sched_dequeue_def Let_def age_table split: option.split)
qed

subsection \<open>Choosing a pid\<close>

lemma allocate_pid:
  "allocate_pid_loop n pcbs np = (pid, np') \<Longrightarrow> pid \<noteq> 0 \<Longrightarrow>
   pid \<noteq> 1 \<and> 0 \<le> proc_pid_to_index pid \<and> p_state (pcbs (nat (proc_pid_to_index pid))) = PROC_UNUSED"
proof (induction n pcbs np rule: allocate_pid_loop.induct)
  case (2 n pcbs np)
  show ?case
  proof (cases "np \<le> 1")
    case True
    then show ?thesis using 2 by simp
  next
    case False
    then show ?thesis using 2 by (simp add: Let_def split: if_splits)
  qed
qed simp

text \<open>A pid is found exactly when some slot is unused, and its slot is one.\<close>

lemma choose_pid_cases:
  assumes "choose_pid k = (pid, k1)"
  shows "k1 = k\<lparr>k_next_pid := k_next_pid k1\<rparr>"
    "pid = 0 \<longleftrightarrow> live k = {..<256}"
    "pid \<noteq> 0 \<Longrightarrow> \<exists>i. proc_pid_to_index pid = int i \<and> i < 256 \<and> i \<notin> live k"
proof -
  obtain p np where a: "allocate_pid_loop 256 (k_pcbs k) (k_next_pid k) = (p, np)" by fastforce
  have found: "\<exists>i. proc_pid_to_index p = int i \<and> i < 256 \<and> i \<notin> live k" if "p \<noteq> 0"
  proof -
    have "0 \<le> proc_pid_to_index p" "p_state (k_pcbs k (nat (proc_pid_to_index p))) = PROC_UNUSED"
      using allocate_pid [OF a that] by simp_all
    moreover have "nat (proc_pid_to_index p) < 256" using pid_index_bound [of p] by simp
    ultimately show ?thesis by (intro exI [of _ "nat (proc_pid_to_index p)"]) (simp add: live_iff)
  qed
  have slot: "unat (of_nat (i + 1) :: u32) = i + 1" "proc_pid_to_index (of_nat (i + 1)) = int i"
    if "i < 256" for i
  proof -
    show u: "unat (of_nat (i + 1) :: u32) = i + 1" using that by (simp only: unat_of_nat) simp
    have "0 < unat (of_nat (i + 1) :: u32)" "unat (of_nat (i + 1) :: u32) \<le> 256"
      unfolding u using that by simp_all
    then have "proc_pid_to_index (of_nat (i + 1)) = int (unat (of_nat (i + 1) :: u32)) - 1"
      by (rule pid_index_small)
    then show "proc_pid_to_index (of_nat (i + 1)) = int i" unfolding u by simp
  qed
  have all: "live k = {..<256} \<longleftrightarrow> (\<forall>i < 256. p_state (k_pcbs k i) \<noteq> PROC_UNUSED)"
    by (auto simp: live_def)
  have "k1 = k\<lparr>k_next_pid := k_next_pid k1\<rparr> \<and> (pid = 0 \<longleftrightarrow> live k = {..<256})
    \<and> (pid \<noteq> 0 \<longrightarrow> (\<exists>i. proc_pid_to_index pid = int i \<and> i < 256 \<and> i \<notin> live k))"
  proof (cases "p = 0")
    case False
    then have "pid = p" "k1 = k\<lparr>k_next_pid := np\<rparr>"
      using assms a by (simp_all add: choose_pid_def proc_allocate_pid_def)
    then show ?thesis using found False by auto
  next
    case True
    show ?thesis
    proof (cases "first_index (\<lambda>i. p_state (k_pcbs k i) = PROC_UNUSED) 0 256")
      case None
      then have "pid = 0" "k1 = k\<lparr>k_next_pid := np\<rparr>"
        using assms a True by (simp_all add: choose_pid_def proc_allocate_pid_def proc_find_unused_slot_def)
      then show ?thesis using None all by (simp add: first_index_None)
    next
      case (Some i)
      then have p: "pid = of_nat (i + 1)" "k1 = k\<lparr>k_next_pid := np\<rparr>"
        using assms a True by (simp_all add: choose_pid_def proc_allocate_pid_def proc_find_unused_slot_def)
      have i: "i < 256" "i \<notin> live k" using Some by (simp_all add: first_index_Some live_iff)
      have "pid \<noteq> 0" using slot(1) [OF i(1)] unfolding p(1) by auto
      then show ?thesis using p i slot(2) [OF i(1)] by auto
    qed
  qed
  then show "k1 = k\<lparr>k_next_pid := k_next_pid k1\<rparr>" "pid = 0 \<longleftrightarrow> live k = {..<256}"
    "pid \<noteq> 0 \<Longrightarrow> \<exists>i. proc_pid_to_index pid = int i \<and> i < 256 \<and> i \<notin> live k" by blast+
qed

subsection \<open>Filling and emptying a slot\<close>

lemma fill_slot_ok:
  assumes "proc_ok k" "i < 256" "i \<notin> live k" "p_pid p \<noteq> 0" "proc_pid_to_index (p_pid p) = int i"
    and "p_state p \<noteq> PROC_UNUSED"
  defines "k' \<equiv> k\<lparr>k_pcbs := (k_pcbs k)(i := p),
      k_agent_count := (if p_is_agent p then k_agent_count k + 1 else k_agent_count k),
      k_active_count := k_active_count k + 1\<rparr>"
  shows "proc_ok k'" "live k' = insert i (live k)"
proof -
  show l: "live k' = insert i (live k)" using assms(2,6) by (auto simp: k'_def live_def)
  have a: "live_agents k' = (if p_is_agent p then insert i (live_agents k) else live_agents k)"
    using assms(3) l by (auto simp: live_agents_def k'_def)
  have "i \<notin> live_agents k" using assms(3) by (simp add: live_agents_def)
  then show "proc_ok k'"
    using assms(1-5) unfolding proc_ok_def l a by (auto simp: k'_def)
qed

lemma cleanup_ok:
  assumes "proc_ok k" "i \<in> live k"
  shows "proc_ok (proc_cleanup i k)" "live (proc_cleanup i k) = live k - {i}"
    "j \<noteq> i \<Longrightarrow> k_pcbs (proc_cleanup i k) j = k_pcbs k j"
proof -
  let ?k = "proc_cleanup i k"
  have i: "i < 256" using assms(2) by (simp add: live_def)
  show l: "live ?k = live k - {i}" by (auto simp: proc_cleanup_def live_def Let_def)
  have a: "live_agents ?k = live_agents k - {i}"
    by (auto simp: live_agents_def l) (auto simp: proc_cleanup_def Let_def)
  have c: "k_active_count ?k = k_active_count k - 1"
    "k_agent_count ?k = (if i \<in> live_agents k then k_agent_count k - 1 else k_agent_count k)"
    using assms(2) by (auto simp: proc_cleanup_def Let_def live_agents_def)
  have s: "j \<noteq> i \<Longrightarrow> k_pcbs ?k j = k_pcbs k j" for j by (simp add: proc_cleanup_def Let_def)
  then show "j \<noteq> i \<Longrightarrow> k_pcbs ?k j = k_pcbs k j" .
  have n: "of_nat (card A - 1) = (of_nat (card A) - 1 :: u32)" if "x \<in> A" "finite A" for A :: "nat set" and x
    using that by (metis card_gt_0_iff empty_iff of_nat_1 of_nat_diff Suc_leI One_nat_def)
  show "proc_ok ?k"
    using assms s n [OF assms(2)] n [of i "live_agents k"]
    unfolding proc_ok_def l a c by (auto simp: card_Diff_singleton_if)
qed

subsection \<open>Spawn\<close>

lemma enqueue_ready_pcbs:
  "flux_get_pcb k pid = Some j \<Longrightarrow> p_state (k_pcbs k j) \<notin> {PROC_BLOCKED, PROC_AGENT_IDLE} \<Longrightarrow>
   k_pcbs (snd (flux_sched_enqueue k pid)) = k_pcbs k"
  by (auto simp: flux_sched_enqueue_def Let_def)

lemma get_pcb_at:
  "pid \<noteq> 0 \<Longrightarrow> proc_pid_to_index pid = int i \<Longrightarrow> flux_get_pcb k pid = (if p_state (k_pcbs k i) = PROC_UNUSED then None else Some i)"
  by (simp add: flux_get_pcb_def)

lemma new_pcb_fields [simp]:
  "p_pid (new_pcb k pid name entry t a) = pid" "p_state (new_pcb k pid name entry t a) = PROC_READY"
  "p_is_agent (new_pcb k pid name entry t a) = a" "p_parent (new_pcb k pid name entry t a) = k_current_pid k"
  by (simp_all add: new_pcb_def)

lemma spawn_ok:
  assumes "proc_ok k" "flux_spawn k h name entry n a = Some (pid, k', h')" "pid \<noteq> 0"
  obtains i k1 stack where "proc_pid_to_index pid = int i" "i < 256" "i \<notin> live k"
    "k_pcbs k' = (k_pcbs k)(i := new_pcb k pid name entry (addr_of h' stack + spawn_stack_size n) a)"
    "flux_alloc (k_current_pid k) (spawn_stack_size n) (if a then 5 else 1) h = Some (Some stack, h')"
    "k' = snd (flux_sched_enqueue k1 pid)" "flux_get_pcb k1 pid = Some i" "ready k1 = ready k"
    "sched_ok k1 = sched_ok k" "i_queues k1 = i_queues k" "proc_ok k'" "live k' = insert i (live k)"
proof -
  have full: "\<not> 256 \<le> k_active_count k"
    using assms(2,3) by (auto simp: flux_spawn_def)
  obtain p k1 where c: "choose_pid k = (p, k1)" by fastforce
  note cp = choose_pid_cases [OF c]
  have p: "p = pid" "0 \<le> proc_pid_to_index pid"
    using assms(2,3) full
    by (auto simp: flux_spawn_def c Let_def bind_eq_Some_conv split: if_splits option.splits)
  obtain i where i: "proc_pid_to_index pid = int i" "i < 256" "i \<notin> live k"
    using cp(3) assms(3) p(1) by auto
  have k1: "k_pcbs k1 = k_pcbs k" "k_current_pid k1 = k_current_pid k" "k_tick k1 = k_tick k"
    "k_active_count k1 = k_active_count k" "k_agent_count k1 = k_agent_count k"
    "ready k1 = ready k" "sched_ok k1 = sched_ok k" "i_queues k1 = i_queues k" "proc_ok k1 = proc_ok k" "live k1 = live k"
    by (subst cp(1), simp add: ready_def sched_ok_def live_def)+
  obtain stack where al: "flux_alloc (k_current_pid k) (spawn_stack_size n) (if a then 5 else 1) h = Some (Some stack, h')"
    and k': "k' = snd (flux_sched_enqueue (k1\<lparr>k_pcbs := (k_pcbs k)(i := new_pcb k1 pid name entry
        (addr_of h' stack + spawn_stack_size n) a),
        k_agent_count := (if a then k_agent_count k1 + 1 else k_agent_count k1),
        k_active_count := k_active_count k1 + 1,
        k_num_processes := k_active_count k1 + 1, k_ks_next_pid := k_next_pid k1\<rparr>) pid)"
    using assms(2,3) full i p(1)
    by (auto simp: flux_spawn_def c Let_def k1 bind_eq_Some_conv split: if_splits option.splits)
  let ?p = "new_pcb k pid name entry (addr_of h' stack + spawn_stack_size n) a"
  have np: "new_pcb k1 pid name entry t a = new_pcb k pid name entry t a" for t
    by (simp add: new_pcb_def k1)
  define k2 where "k2 = k1\<lparr>k_pcbs := (k_pcbs k1)(i := ?p),
        k_agent_count := (if a then k_agent_count k1 + 1 else k_agent_count k1),
        k_active_count := k_active_count k1 + 1,
        k_num_processes := k_active_count k1 + 1, k_ks_next_pid := k_next_pid k1\<rparr>"
  have k2: "k' = snd (flux_sched_enqueue k2 pid)" by (simp add: k' k2_def np k1)
  have pc: "k_pcbs k2 = (k_pcbs k)(i := ?p)" by (simp add: k2_def k1)
  have g: "flux_get_pcb k2 pid = Some i" using i assms(3) by (simp add: get_pcb_at pc)
  let ?k3 = "k1\<lparr>k_pcbs := (k_pcbs k1)(i := ?p),
      k_agent_count := (if p_is_agent ?p then k_agent_count k1 + 1 else k_agent_count k1),
      k_active_count := k_active_count k1 + 1\<rparr>"
  have "proc_ok ?k3" "live ?k3 = insert i (live k)"
    using fill_slot_ok [of k1 i ?p] assms(1,3) i k1(9,10) by simp_all
  moreover have "same_table ?k3 k2" by (simp add: same_table_def k2_def)
  ultimately have fill: "proc_ok k2" "live k2 = insert i (live k)"
    using same_table_ok same_table_live by blast+
  have "same_table k2 k'" unfolding k2 by (rule enqueue_table)
  then have "proc_ok k'" "live k' = live k2"
    using fill(1) same_table_ok same_table_live by blast+
  moreover have "k_pcbs k' = k_pcbs k2"
    using enqueue_ready_pcbs [OF g] k2 pc by simp
  ultimately show ?thesis
    using that [of i stack k2] i al g k2 pc fill k1 by (simp add: k2_def ready_def sched_ok_def)
qed

text \<open>Spawning a process. It fails only if all 256 slots are in use or the allocator has no block for
  the stack. Otherwise the new process gets a slot that was unused and a pid that no live process has;
  it is ready, a child of the caller, with the capabilities to spawn and to communicate, its stack
  pointer at the end of the block the allocator returned; no other control block changes, and it is
  last in the ready queue unless that is full or already names the pid.
\<close>

theorem spawn_spec:
  assumes "proc_ok k" "sched_ok k" "flux_spawn k h name entry n a = Some (pid, k', h')"
  shows "if pid = 0
    then k_pcbs k' = k_pcbs k \<and> (live k = {..<256}
       \<or> flux_alloc (k_current_pid k) (spawn_stack_size n) (if a then 5 else 1) h = Some (None, h'))
    else (\<exists>i stack. proc_pid_to_index pid = int i \<and> i < 256 \<and> i \<notin> live k \<and> live k' = insert i (live k)
       \<and> (\<forall>j \<in> live k. p_pid (k_pcbs k j) \<noteq> pid)
       \<and> flux_alloc (k_current_pid k) (spawn_stack_size n) (if a then 5 else 1) h = Some (Some stack, h')
       \<and> k_pcbs k' = (k_pcbs k)(i := new_pcb k pid name entry (addr_of h' stack + spawn_stack_size n) a))
       \<and> (if pid \<in> se_pid ` set (ready k) \<or> s_count k = 256 then ready k' = ready k
          else map se_pid (ready k') = map se_pid (ready k) @ [pid])"
proof (cases "pid = 0")
  case True
  obtain p k1 where c: "choose_pid k = (p, k1)" by fastforce
  note cp = choose_pid_cases [OF c]
  have k1: "k_pcbs k1 = k_pcbs k" "k_current_pid k1 = k_current_pid k" by (subst cp(1), simp)+
  have "256 \<le> k_active_count k \<Longrightarrow> live k = {..<256}"
  proof -
    assume "256 \<le> k_active_count k"
    then have "256 \<le> card (live k)" using active_unat [OF assms(1)] by (simp add: word_le_nat_alt)
    moreover have "live k \<subseteq> {..<256}" by (auto simp: live_def)
    ultimately show ?thesis by (intro card_subset_eq) (auto dest: card_mono [rotated])
  qed
  moreover have "\<not> proc_pid_to_index p < 0" if "p \<noteq> 0" using cp(3) [OF that] by auto
  moreover have "p = 0 \<Longrightarrow> live k = {..<256}" using cp(2) by simp
  ultimately show ?thesis
    using True assms(3) k1
    by (cases "256 \<le> k_active_count k"; cases "p = 0")
      (simp_all add: flux_spawn_def c Let_def bind_eq_Some_conv split: option.splits if_split_asm)
next
  case False
  obtain i k1 stack where s: "proc_pid_to_index pid = int i" "i < 256" "i \<notin> live k"
    "k_pcbs k' = (k_pcbs k)(i := new_pcb k pid name entry (addr_of h' stack + spawn_stack_size n) a)"
    "flux_alloc (k_current_pid k) (spawn_stack_size n) (if a then 5 else 1) h = Some (Some stack, h')"
    "k' = snd (flux_sched_enqueue k1 pid)" "flux_get_pcb k1 pid = Some i" "ready k1 = ready k"
    "sched_ok k1 = sched_ok k" "live k' = insert i (live k)"
    using spawn_ok [OF assms(1,3) False] by metis
  have fresh: "\<forall>j \<in> live k. p_pid (k_pcbs k j) \<noteq> pid"
    using assms(1) s(1,3) by (auto simp: proc_ok_def)
  have len: "s_count k1 = s_count k" using arg_cong [OF s(8), of length] by simp
  have q: "if pid \<in> se_pid ` set (ready k) \<or> s_count k = 256 then ready k' = ready k
          else map se_pid (ready k') = map se_pid (ready k) @ [pid]"
    using enqueue_cases [of k1 pid] assms(2) s(6-9) False len
    by (simp add: new_entry_def split: prod.splits if_split_asm)
  show ?thesis using s fresh q False by auto
qed

subsection \<open>Kill, exit and yield\<close>

lemma get_pcb_index:
  "pid \<noteq> 0 \<Longrightarrow> (proc_pid_to_index pid < 0 \<or> p_state (k_pcbs k (nat (proc_pid_to_index pid))) = PROC_UNUSED)
     \<longleftrightarrow> flux_get_pcb k pid = None"
  by (auto simp: flux_get_pcb_def Let_def)

lemma get_pcb_Some_nat: "flux_get_pcb k pid = Some i \<Longrightarrow> nat (proc_pid_to_index pid) = i"
  using get_pcb_Some [of k pid i] by (metis nat_int)


text \<open>The kernel process can be killed. \<open>flux_kill\<close> refuses pid 1 but looks its target up by slot, which
  every pid of the form 256 n + 1 shares with the kernel, and does not compare pids: such a
  call succeeds and frees the kernel's control block.
\<close>

theorem kill_kernel_by_alias:
  assumes "proc_ok k" "0 \<in> live k" "pid \<noteq> 0" "pid \<noteq> 1" "proc_pid_to_index pid = 0"
  shows "case flux_kill k pid of (st, k') \<Rightarrow> st = FLUX_OK \<and> 0 \<notin> live k' \<and> flux_get_pcb k' 1 = None"
proof -
  have one: "proc_pid_to_index 1 = int 0" by (simp add: proc_pid_to_index_def)
  have g: "nat (proc_pid_to_index pid) = 0" "p_state (k_pcbs k 0) \<noteq> PROC_UNUSED"
    using assms(2,5) by (simp_all add: live_def)
  have "flux_kill k pid = (FLUX_OK, (proc_cleanup 0 k)\<lparr>k_num_processes := k_active_count (proc_cleanup 0 k)\<rparr>)"
    using assms(3,4,5) g by (simp add: flux_kill_def Let_def)
  then show ?thesis
    using get_pcb_at [OF _ one] by (simp add: live_def proc_cleanup_def Let_def)
qed

lemma yield_frame [simp]:
  "proc_ok (flux_sched_yield_current k) = proc_ok k" "live (flux_sched_yield_current k) = live k"
  "k_pcbs (flux_sched_yield_current k) = k_pcbs k" "ready (flux_sched_yield_current k) = ready k"
  "sched_ok (flux_sched_yield_current k) = sched_ok k" "i_queues (flux_sched_yield_current k) = i_queues k"
  "s_current (flux_sched_yield_current k) = 0"
  by (simp_all add: flux_sched_yield_current_def live_def)

lemma wake_parent_table: "i \<in> live k \<Longrightarrow> same_table k (wake_parent pid parent k)"
proof -
  have "same_table k (upd_pcb j (\<lambda>p. p\<lparr>p_state := PROC_READY, p_waiting_for := 0\<rparr>) k)"
    if "p_state (k_pcbs k j) = PROC_BLOCKED \<or> p_state (k_pcbs k j) = PROC_AGENT_IDLE" for j
    using that by (auto simp: same_table_def upd_pcb_def)
  then show ?thesis by (auto simp: wake_parent_def Let_def)
qed

text \<open>Exiting. The kernel process panics. A process without a live control block gets an error.
  Otherwise its slot is released, a parent that was blocked or idle waiting for exactly this process
  becomes ready, the scheduler is told to pick another process, and nobody else's state changes.
\<close>

theorem exit_spec:
  assumes "proc_ok k"
  shows "if k_current_pid k = 1 then flux_exit k = None
    else case flux_get_pcb k (k_current_pid k) of None \<Rightarrow> flux_exit k = Some (FLUX_ERR_INVALID, k)
    | Some i \<Rightarrow> \<exists>k'. flux_exit k = Some (FLUX_OK, k') \<and> proc_ok k' \<and> live k' = live k - {i} \<and> s_current k' = 0
        \<and> (\<forall>j. j \<noteq> i \<longrightarrow> p_state (k_pcbs k' j) =
            (if p_parent (k_pcbs k i) \<noteq> 0 \<and> proc_pid_to_index (p_parent (k_pcbs k i)) = int j
                \<and> p_state (k_pcbs k j) \<in> {PROC_BLOCKED, PROC_AGENT_IDLE}
                \<and> p_waiting_for (k_pcbs k j) = k_current_pid k
             then PROC_READY else p_state (k_pcbs k j)))"
proof (cases "flux_get_pcb k (k_current_pid k)")
  case None
  then show ?thesis
    using get_pcb_index [of "k_current_pid k" k] by (auto simp: flux_exit_def Let_def)
next
  case (Some i)
  let ?pid = "k_current_pid k"
  let ?k1 = "upd_pcb i (\<lambda>p. p\<lparr>p_state := PROC_ZOMBIE\<rparr>) k"
  let ?k2 = "wake_parent ?pid (p_parent (k_pcbs k i)) ?k1"
  have pid: "?pid \<noteq> 0" "nat (proc_pid_to_index ?pid) = i" "i \<in> live k"
    using get_pcb_Some [OF Some] get_pcb_Some_nat [OF Some] get_pcb_live [OF Some] by simp_all
  have idx: "\<not> (proc_pid_to_index ?pid < 0 \<or> p_state (k_pcbs k i) = PROC_UNUSED)"
    using get_pcb_index [OF pid(1), of k] Some pid(2) by simp
  have s1: "same_table k ?k1" using pid(3) by (intro upd_live_same) simp_all
  then have "i \<in> live ?k1" using same_table_live pid(3) by blast
  then have s2: "same_table k ?k2" using wake_parent_table same_table_trans [OF s1] by blast
  then have ok: "proc_ok ?k2" "live ?k2 = live k" using same_table_ok same_table_live assms by blast+
  have "p_state (k_pcbs ?k2 j) = (if p_parent (k_pcbs k i) \<noteq> 0 \<and> proc_pid_to_index (p_parent (k_pcbs k i)) = int j
                \<and> p_state (k_pcbs k j) \<in> {PROC_BLOCKED, PROC_AGENT_IDLE} \<and> p_waiting_for (k_pcbs k j) = ?pid
             then PROC_READY else p_state (k_pcbs k j))" if "j \<noteq> i" for j
    using that by (auto simp: wake_parent_def Let_def)
  moreover have "flux_exit k = (if ?pid = 1 then None
      else let c = proc_cleanup i ?k2 in Some (FLUX_OK, flux_sched_yield_current (c\<lparr>k_num_processes := k_active_count c\<rparr>)))"
    using pid idx by (simp add: flux_exit_def Let_def)
  moreover have "live (c\<lparr>k_num_processes := n\<rparr>) = live c" for c n by (simp add: live_def)
  ultimately show ?thesis
    using Some cleanup_ok [OF ok(1), of i] ok(2) pid(3) by (simp add: Let_def)
qed

text \<open>Yielding. The running process goes to the end of the ready queue, marked ready, and gives up the
  processor; nothing else in the process table changes.
\<close>

theorem yield_spec:
  assumes "sched_ok k" "s_count k < 256" "flux_get_pcb k (k_current_pid k) = Some j"
    and "p_state (k_pcbs k j) = PROC_RUNNING" "k_current_pid k \<notin> se_pid ` set (ready k)"
  shows "case flux_yield k of (st, k') \<Rightarrow> st = FLUX_OK \<and> s_current k' = 0
    \<and> map se_pid (ready k') = map se_pid (ready k) @ [k_current_pid k]
    \<and> k_pcbs k' = (k_pcbs k)(j := (k_pcbs k j)\<lparr>p_state := PROC_READY\<rparr>)"
proof -
  let ?pid = "k_current_pid k" and ?k1 = "upd_pcb j (\<lambda>p. p\<lparr>p_state := PROC_READY\<rparr>) k"
  have pid: "?pid \<noteq> 0" "nat (proc_pid_to_index ?pid) = j" "j \<in> live k"
    using get_pcb_Some [OF assms(3)] get_pcb_Some_nat [OF assms(3)] get_pcb_live [OF assms(3)] by simp_all
  have idx: "\<not> proc_pid_to_index ?pid < 0"
    using get_pcb_index [OF pid(1), of k] assms(3) by auto
  have g: "flux_get_pcb ?k1 ?pid = Some j"
    using assms(3,4) get_pcb_unused_cong [of ?k1 k ?pid] by simp
  have "flux_yield k = (FLUX_OK, flux_sched_yield_current (snd (flux_sched_enqueue ?k1 ?pid)))"
    using pid idx assms(4) by (simp add: flux_yield_def Let_def)
  moreover have "k_pcbs (snd (flux_sched_enqueue ?k1 ?pid)) = k_pcbs ?k1"
    using enqueue_ready_pcbs [OF g] by simp
  moreover have "map se_pid (ready (snd (flux_sched_enqueue ?k1 ?pid))) = map se_pid (ready k) @ [?pid]"
    using enqueue_cases [of ?k1 ?pid] assms pid(1) g by (auto simp: new_entry_def split: prod.splits)
  ultimately show ?thesis by simp
qed

subsection \<open>Witnesses\<close>

lemma proc_init_ok: "proc_ok (snd (flux_proc_init k))" "live (snd (flux_proc_init k)) = {0}"
proof -
  have p: "k_pcbs (snd (flux_proc_init k)) = (\<lambda>_. zero_pcb)(0 := zero_pcb\<lparr>p_pid := 1, p_state := PROC_RUNNING,
      p_priority := 255, p_caps := FLUX_CAP_ALL, p_perms := 7, p_name := ''kernel''\<rparr>)"
    and c: "k_active_count (snd (flux_proc_init k)) = 1" "k_agent_count (snd (flux_proc_init k)) = 0"
    by (simp_all add: flux_proc_init_def)
  have z: "p_state zero_pcb = PROC_UNUSED" "\<not> p_is_agent zero_pcb" by (simp_all add: zero_pcb_def)
  show l: "live (snd (flux_proc_init k)) = {0}"
    unfolding live_def p using z by auto
  then have "live_agents (snd (flux_proc_init k)) = {}"
    unfolding live_agents_def p using z by auto
  moreover have "proc_pid_to_index 1 = 0" by code_simp
  ultimately show "proc_ok (snd (flux_proc_init k))"
    unfolding proc_ok_def l c p by simp
qed

text \<open>The kernel after booting, and with two processes of its own: pid 2, which is running and waits
  for nobody, and its child, pid 3.\<close>

definition booted_kernel :: kernel where
  "booted_kernel = snd (flux_sched_init (snd (flux_proc_init boot_kernel)))"

definition family :: kernel where
  "family = booted_kernel\<lparr>
     k_pcbs := (k_pcbs booted_kernel)(
       1 := zero_pcb\<lparr>p_pid := 2, p_parent := 1, p_state := PROC_BLOCKED, p_waiting_for := 3\<rparr>,
       2 := zero_pcb\<lparr>p_pid := 3, p_parent := 2, p_state := PROC_RUNNING\<rparr>),
     k_active_count := 3, k_current_pid := 3, s_current := 3\<rparr>"

lemma booted_kernel_ok: "proc_ok booted_kernel" "live booted_kernel = {0}" "sched_ok booted_kernel"
proof -
  have "same_table (snd (flux_proc_init boot_kernel)) booted_kernel"
    by (simp add: same_table_def booted_kernel_def flux_sched_init_def)
  then show "proc_ok booted_kernel" "live booted_kernel = {0}"
    using proc_init_ok [of boot_kernel] same_table_ok same_table_live by metis+
  show "sched_ok booted_kernel" by code_simp
qed

lemma family_ok: "proc_ok family" "live family = {0, 1, 2}" "sched_ok family"
proof -
  have z: "p_state zero_pcb = PROC_UNUSED" "\<not> p_is_agent zero_pcb" by (simp_all add: zero_pcb_def)
  have p: "p_state (k_pcbs booted_kernel 0) = PROC_RUNNING" "p_pid (k_pcbs booted_kernel 0) = 1" "k_agent_count booted_kernel = 0"
      "\<not> p_is_agent (k_pcbs booted_kernel 0)"
    by code_simp+
  have "k_pcbs booted_kernel i = zero_pcb" if "i \<noteq> 0" for i
    using that by (simp add: booted_kernel_def flux_proc_init_def flux_sched_init_def)
  then have l: "p_state (k_pcbs family i) \<noteq> PROC_UNUSED \<longleftrightarrow> i \<in> {0, 1, 2}" and a: "\<not> p_is_agent (k_pcbs family i)" for i
    using z p by (cases "i = 0"; simp add: family_def)+
  show "live family = {0, 1, 2}" unfolding live_def l by auto
  moreover have "live_agents family = {}" unfolding live_agents_def using a by auto
  moreover have "proc_pid_to_index 1 = 0" "proc_pid_to_index 2 = 1" "proc_pid_to_index 3 = 2" by code_simp+
  ultimately show "proc_ok family" using p by (simp add: proc_ok_def family_def)
  show "sched_ok family" by code_simp
qed

theorem spawn_spec_witness:
  "case flux_spawn booted_kernel (snd (flux_mem_init (boot_heap 0x10000))) (Some ''init'') 64 100 False of
     None \<Rightarrow> False | Some (pid, k', h') \<Rightarrow> pid = 2 \<and> live k' = {0, 1} \<and> map se_pid (ready k') = [2]"
proof -
  let ?h = "snd (flux_mem_init (boot_heap 0x10000))"
  have "map_option fst (flux_spawn booted_kernel ?h (Some ''init'') 64 100 False) = Some 2" by code_simp
  then obtain k' h' where s: "flux_spawn booted_kernel ?h (Some ''init'') 64 100 False = Some (2, k', h')" by auto
  have "proc_pid_to_index 2 = 1" by code_simp
  moreover have "ready booted_kernel = []" "s_count booted_kernel = 0" by code_simp+
  moreover have "0 \<in> live k' \<and> live k' = insert 1 {0} \<and> map se_pid (ready k') = [2]"
    using spawn_spec [OF booted_kernel_ok(1,3) s] calculation unfolding booted_kernel_ok(2) by simp
  ultimately show ?thesis unfolding s by (simp add: insert_commute)
qed


theorem kill_kernel_by_alias_witness:
  "case flux_kill booted_kernel 257 of (st, k') \<Rightarrow> st = FLUX_OK \<and> 0 \<notin> live k' \<and> flux_get_pcb k' 1 = None"
proof -
  have "proc_pid_to_index 257 = 0" by code_simp
  then show ?thesis using kill_kernel_by_alias [OF booted_kernel_ok(1), of 257] booted_kernel_ok(2) by simp
qed

theorem exit_spec_witness:
  "\<exists>k'. flux_exit family = Some (FLUX_OK, k') \<and> live k' = {0, 1} \<and> p_state (k_pcbs k' 1) = PROC_READY"
proof -
  have "k_current_pid family = 3" "flux_get_pcb family 3 = Some 2" "p_parent (k_pcbs family 2) = 2"
    "proc_pid_to_index 2 = 1" "p_state (k_pcbs family 1) = PROC_BLOCKED" "p_waiting_for (k_pcbs family 1) = 3"
    by code_simp+
  then show ?thesis using exit_spec [OF family_ok(1)] family_ok(2) by auto
qed

theorem yield_spec_witness:
  "map se_pid (ready (snd (flux_yield family))) = [3] \<and> s_current (snd (flux_yield family)) = 0"
proof -
  have "k_current_pid family = 3" "flux_get_pcb family 3 = Some 2" "p_state (k_pcbs family 2) = PROC_RUNNING"
    "ready family = []" "s_count family = 0"
    by code_simp+
  then show ?thesis using yield_spec [OF family_ok(3), of 2] by (auto split: prod.splits)
qed

end
