(* ===== verification/FluxHeapList.thy ===== *)
theory FluxHeapList
  imports FluxHeap
begin

section \<open>The allocator's free list and block layout as lists\<close>

text \<open>
  The pointer structure behind the allocator. \<open>dseg\<close> says that the blocks of a list are doubly linked
  from one pointer to another; \<open>link\<close> is the pair of assignments that joins two segments, by which both
  the removal and the insertion of a block are explained. \<open>tiled\<close> says that the blocks of a list lie
  end to end and fill the heap. Both look only at the parts of the headers they speak of, so an update
  of the others leaves them alone.
\<close>

subsection \<open>Doubly linked segments\<close>

fun dseg :: "(int \<Rightarrow> mem_block option) \<Rightarrow> int option \<Rightarrow> int option \<Rightarrow> int list \<Rightarrow> int option \<Rightarrow> int option \<Rightarrow> bool" where
  "dseg bs pv p [] lp q \<longleftrightarrow> p = q \<and> lp = pv"
| "dseg bs pv p (a # as) lp q \<longleftrightarrow>
     p = Some a \<and> (\<exists>b. bs a = Some b \<and> b_prev b = pv \<and> dseg bs (Some a) (b_next b) as lp q)"

definition dll :: "(int \<Rightarrow> mem_block option) \<Rightarrow> int option \<Rightarrow> int list \<Rightarrow> bool" where
  "dll bs p as \<longleftrightarrow> (\<exists>lp. dseg bs None p as lp None)"

definition set_next :: "int option \<Rightarrow> int option \<Rightarrow> (int \<Rightarrow> mem_block option) \<Rightarrow> (int \<Rightarrow> mem_block option)" where
  "set_next m r bs = (case m of None \<Rightarrow> bs | Some x \<Rightarrow> bs(x := map_option (\<lambda>b. b\<lparr>b_next := r\<rparr>) (bs x)))"

definition set_prev :: "int option \<Rightarrow> int option \<Rightarrow> (int \<Rightarrow> mem_block option) \<Rightarrow> (int \<Rightarrow> mem_block option)" where
  "set_prev r m bs = (case r of None \<Rightarrow> bs | Some y \<Rightarrow> bs(y := map_option (\<lambda>b. b\<lparr>b_prev := m\<rparr>) (bs y)))"

definition link :: "int option \<Rightarrow> int option \<Rightarrow> (int \<Rightarrow> mem_block option) \<Rightarrow> (int \<Rightarrow> mem_block option)" where
  "link m r bs = set_prev r m (set_next m r bs)"

lemma set_link_simps [simp]:
  "set_next None r bs = bs" "set_prev None m bs = bs"
  "set_next (Some x) r bs = bs(x := map_option (\<lambda>b. b\<lparr>b_next := r\<rparr>) (bs x))"
  "set_prev (Some y) m bs = bs(y := map_option (\<lambda>b. b\<lparr>b_prev := m\<rparr>) (bs y))"
  by (simp_all add: set_next_def set_prev_def)

lemma dseg_append:
  "dseg bs pv p (xs @ ys) lp q \<longleftrightarrow> (\<exists>m r. dseg bs pv p xs m r \<and> dseg bs m r ys lp q)"
  by (induction xs arbitrary: pv p) auto

lemma dseg_frame:
  "(\<And>x. x \<in> set as \<Longrightarrow> bs' x = bs x) \<Longrightarrow> dseg bs' pv p as lp q = dseg bs pv p as lp q"
  by (induction as arbitrary: pv p) auto

lemma dseg_links:
  "(\<And>x. x \<in> set as \<Longrightarrow> map_option (\<lambda>b. (b_next b, b_prev b)) (bs' x) = map_option (\<lambda>b. (b_next b, b_prev b)) (bs x)) \<Longrightarrow>
   dseg bs pv p as lp q \<Longrightarrow> dseg bs' pv p as lp q"
proof (induction as arbitrary: pv p)
  case (Cons a as)
  then obtain b where b: "p = Some a" "bs a = Some b" "b_prev b = pv" "dseg bs (Some a) (b_next b) as lp q" by auto
  then obtain b' where "bs' a = Some b'" "b_next b' = b_next b" "b_prev b' = b_prev b"
    using Cons.prems(1) [of a] by auto
  then show ?case using b Cons by simp
qed simp

lemma dseg_ends:
  "dseg bs pv p as lp q \<Longrightarrow> p = (if as = [] then q else Some (hd as)) \<and> lp = (if as = [] then pv else Some (last as))"
  by (induction as arbitrary: pv p) auto

lemma dseg_Some: "dseg bs pv p as lp q \<Longrightarrow> x \<in> set as \<Longrightarrow> bs x \<noteq> None"
  by (induction as arbitrary: pv p) auto

lemma dseg_next:
  "dseg bs pv p as lp q \<Longrightarrow> distinct as \<Longrightarrow> as \<noteq> [] \<Longrightarrow>
   dseg (bs(last as := map_option (\<lambda>b. b\<lparr>b_next := r\<rparr>) (bs (last as)))) pv p as lp r"
proof (induction as arbitrary: pv p)
  case (Cons a as)
  show ?case
  proof (cases "as = []")
    case False
    then have "last as \<noteq> a" using Cons.prems(2) by (auto dest: last_in_set)
    then show ?thesis using Cons False by auto
  qed (use Cons in auto)
qed simp

lemma dseg_prev:
  "dseg bs pv p (a # as) lp q \<Longrightarrow> a \<notin> set as \<Longrightarrow>
   dseg (bs(a := map_option (\<lambda>b. b\<lparr>b_prev := m\<rparr>) (bs a))) m p (a # as) lp q"
proof -
  assume s: "dseg bs pv p (a # as) lp q" and a: "a \<notin> set as"
  let ?bs = "bs(a := map_option (\<lambda>b. b\<lparr>b_prev := m\<rparr>) (bs a))"
  obtain b where b: "p = Some a" "bs a = Some b" "dseg bs (Some a) (b_next b) as lp q" using s by auto
  have "dseg ?bs (Some a) (b_next b) as lp q"
    using b(3) a by (subst dseg_frame [of as ?bs bs]) auto
  then show ?thesis using b by simp
qed

text \<open>Joining two segments.\<close>

lemma link_segments:
  assumes "dseg bs None p xs m r0" "dseg bs m0 q ys lp None" "distinct (xs @ ys)"
  shows "dll (link m q bs) (if xs = [] then q else p) (xs @ ys)"
proof -
  let ?b1 = "set_next m q bs"
  have m: "m = (if xs = [] then None else Some (last xs))" and q: "q = (if ys = [] then None else Some (hd ys))"
    using dseg_ends [OF assms(1)] dseg_ends [OF assms(2)] by simp_all
  have xs: "dseg ?b1 None (if xs = [] then q else p) xs m q"
    using assms(1,3) dseg_next [OF assms(1), of q] by (auto simp: m)
  have "last xs \<notin> set ys" if "xs \<noteq> []" using that assms(3) by (auto dest: last_in_set)
  then have ys: "dseg ?b1 m0 q ys lp None"
    using assms(2) by (subst dseg_frame [of ys ?b1 bs]) (auto simp: m)
  show ?thesis
  proof (cases ys)
    case Nil
    then have "q = None" using q by simp
    then have "link m q bs = ?b1" by (simp add: link_def)
    then show ?thesis using xs Nil q by (auto simp: dll_def)
  next
    case (Cons y zs)
    then have "q = Some y" using q by simp
    then have l: "link m q bs = ?b1(y := map_option (\<lambda>b. b\<lparr>b_prev := m\<rparr>) (?b1 y))"
      by (simp add: link_def)
    have "dseg (link m q bs) m q ys lp None"
      unfolding l Cons by (rule dseg_prev [of _ m0]) (use ys assms(3) Cons in \<open>simp_all only:\<close>, simp)
    moreover have "dseg (link m q bs) None (if xs = [] then q else p) xs m q"
      using xs assms(3) Cons unfolding l by (subst dseg_frame [of xs _ ?b1]) auto
    ultimately show ?thesis unfolding dll_def dseg_append by blast
  qed
qed

lemma link_frame: "m \<noteq> Some x \<Longrightarrow> r \<noteq> Some x \<Longrightarrow> link m r bs x = bs x"
  by (cases m; cases r) (auto simp: link_def)

text \<open>Everything but the two links.\<close>

definition core :: "mem_block \<Rightarrow> u32 \<times> u32 \<times> u64 \<times> u32 \<times> u32" where
  "core b = (b_magic b, b_flags b, b_size b, b_type b, b_owner b)"

definition same_core :: "(int \<Rightarrow> mem_block option) \<Rightarrow> (int \<Rightarrow> mem_block option) \<Rightarrow> bool" where
  "same_core bs bs' \<longleftrightarrow> (\<forall>a. map_option core (bs' a) = map_option core (bs a))"

lemma core_links [simp]: "core (b\<lparr>b_next := n\<rparr>) = core b" "core (b\<lparr>b_prev := n\<rparr>) = core b"
  by (simp_all add: core_def)

lemma same_core_refl [simp]: "same_core bs bs"
  by (simp add: same_core_def)

lemma same_core_trans: "same_core bs bs1 \<Longrightarrow> same_core bs1 bs2 \<Longrightarrow> same_core bs bs2"
  by (simp add: same_core_def)

lemma same_core_upd: "(\<And>b. core (f b) = core b) \<Longrightarrow> same_core bs (bs(x := map_option f (bs x)))"
  by (cases "bs x") (simp_all add: same_core_def)

lemma link_core: "same_core bs (link m r bs)"
proof -
  have "same_core bs (set_next m r bs)" for bs by (cases m) (simp_all add: same_core_upd)
  moreover have "same_core bs (set_prev r m bs)" for bs by (cases r) (simp_all add: same_core_upd)
  ultimately show ?thesis unfolding link_def using same_core_trans by blast
qed

lemma same_core_Some:
  assumes "same_core bs bs'" "bs a = Some b"
  obtains b' where "bs' a = Some b'" "core b' = core b"
proof -
  have "map_option core (bs' a) = Some (core b)" using assms by (simp add: same_core_def)
  then show ?thesis using that by auto
qed

subsection \<open>Blocks end to end\<close>

definition well_formed :: "mem_block \<Rightarrow> bool" where
  "well_formed b \<longleftrightarrow> b_magic b = MEM_BLOCK_MAGIC \<and> (b_flags b = MEM_BLOCK_USED \<or> b_flags b = MEM_BLOCK_FREE)"

fun tiled :: "(int \<Rightarrow> mem_block option) \<Rightarrow> int \<Rightarrow> int list \<Rightarrow> int \<Rightarrow> bool" where
  "tiled bs s [] e \<longleftrightarrow> s = e"
| "tiled bs s (a # as) e \<longleftrightarrow> a = s
     \<and> (\<exists>b. bs a = Some b \<and> well_formed b \<and> tiled bs (a + MEM_HEADER + uint (b_size b)) as e)"

lemma tiled_append: "tiled bs s (as @ cs) e \<longleftrightarrow> (\<exists>m. tiled bs s as m \<and> tiled bs m cs e)"
  by (induction as arbitrary: s) auto

lemma tiled_core: "same_core bs bs' \<Longrightarrow> tiled bs s as e \<Longrightarrow> tiled bs' s as e"
proof (induction as arbitrary: s)
  case (Cons a as)
  then obtain b where b: "bs a = Some b" "well_formed b" "tiled bs (a + 40 + uint (b_size b)) as e" "a = s" by auto
  obtain b' where "bs' a = Some b'" "core b' = core b" using same_core_Some [OF Cons.prems(1) b(1)] .
  then show ?case using b Cons.IH [OF Cons.prems(1) b(3)] by (auto simp: core_def well_formed_def)
qed simp

lemma tiled_frame: "(\<And>x. x \<in> set as \<Longrightarrow> bs' x = bs x) \<Longrightarrow> tiled bs' s as e = tiled bs s as e"
  by (induction as arbitrary: s) auto

lemma tiled_upd:
  "tiled bs s as e \<Longrightarrow> bs a = Some b \<Longrightarrow> b_size b' = b_size b \<Longrightarrow> well_formed b' \<Longrightarrow>
   tiled (bs(a := Some b')) s as e"
  by (induction as arbitrary: s) auto

lemma tiled_bounds: "tiled bs s as e \<Longrightarrow> s \<le> e \<and> (\<forall>a \<in> set as. s \<le> a \<and> a + MEM_HEADER \<le> e)"
proof (induction as arbitrary: s)
  case (Cons a as)
  then obtain b where "bs a = Some b" and b: "tiled bs (a + 40 + uint (b_size b)) as e" "a = s" by auto
  define n where "n = uint (b_size b)"
  then have "0 \<le> n" by simp
  then show ?case using Cons.IH [OF b(1)] b(2) unfolding n_def [symmetric] by auto
qed simp

lemma tiled_sorted: "tiled bs s as e \<Longrightarrow> sorted_wrt (<) as"
proof (induction as arbitrary: s)
  case (Cons a as)
  then obtain b where "bs a = Some b" and b: "tiled bs (a + 40 + uint (b_size b)) as e" by auto
  define n where "n = uint (b_size b)"
  then have "0 \<le> n" by simp
  then show ?case using Cons.IH [OF b] tiled_bounds [OF b] unfolding n_def [symmetric] by auto
qed simp

lemma tiled_block:
  "tiled bs s as e \<Longrightarrow> a \<in> set as \<Longrightarrow> bs a = Some b \<Longrightarrow> well_formed b \<and> a + MEM_HEADER + uint (b_size b) \<le> e"
proof (induction as arbitrary: s)
  case (Cons c as)
  then obtain b' where b': "bs c = Some b'" "well_formed b'" "tiled bs (c + 40 + uint (b_size b')) as e" by auto
  show ?case using Cons b' tiled_bounds [OF b'(3)] by auto
qed simp

lemma tiled_Some: "tiled bs s as e \<Longrightarrow> x \<in> set as \<Longrightarrow> \<exists>c. bs x = Some c"
  by (induction as arbitrary: s) auto

text \<open>Distinct blocks do not overlap, headers included.\<close>

lemma tiled_disjoint:
  assumes "tiled bs s as e" "a \<in> set as" "c \<in> set as" "a < c" "bs a = Some b"
  shows "a + MEM_HEADER + uint (b_size b) \<le> c"
  using assms
proof (induction as arbitrary: s)
  case (Cons x as)
  then obtain bx where x: "bs x = Some bx" "tiled bs (x + 40 + uint (b_size bx)) as e" by auto
  show ?case
  proof (cases "a = x")
    case True
    then have "c \<in> set as" using Cons.prems(3,4) by auto
    then show ?thesis using tiled_bounds [OF x(2)] x(1) Cons.prems(5) True by auto
  next
    case False
    then have "a \<in> set as" using Cons.prems(2) by simp
    moreover have "c \<in> set as"
    proof -
      define n where "n = uint (b_size bx)"
      then have "0 \<le> n" by simp
      then have "x < a" using tiled_bounds [OF x(2)] \<open>a \<in> set as\<close> unfolding n_def [symmetric] by auto
      then show ?thesis using Cons.prems(3,4) by auto
    qed
    ultimately show ?thesis using Cons.IH [OF x(2)] Cons.prems(4,5) by blast
  qed
qed simp

end
