(* ===== verification/FluxHeapProps.thy ===== *)
theory FluxHeapProps
  imports FluxHeapList
begin

section \<open>Correctness of the allocator\<close>

text \<open>
  \<open>heap_rep h bl\<close> is the invariant of the heap: the blocks \<open>bl\<close> fill it end to end, the free ones are
  linked in address order from \<open>h_free_list\<close>, and no other header carries the magic number. Each
  step of the allocator is shown to return and to act on the two lists; allocation and release are
  put together from the steps.
\<close>

definition is_free :: "(int \<Rightarrow> mem_block option) \<Rightarrow> int \<Rightarrow> bool" where
  "is_free bs a = (case bs a of None \<Rightarrow> False | Some b \<Rightarrow> b_flags b = MEM_BLOCK_FREE)"

definition lists_ok :: "heap \<Rightarrow> int list \<Rightarrow> int list \<Rightarrow> bool" where
  "lists_ok h bl fl \<longleftrightarrow> tiled (h_blocks h) 0 bl FLUX_HEAP_SIZE \<and> dll (h_blocks h) (h_free_list h) fl
     \<and> (\<forall>a b. a \<notin> set bl \<and> h_blocks h a = Some b \<longrightarrow> b_magic b = 0)"

definition heap_rep :: "heap \<Rightarrow> int list \<Rightarrow> bool" where
  "heap_rep h bl \<longleftrightarrow> lists_ok h bl (filter (is_free (h_blocks h)) bl)"

text \<open>Operations on the lists change nothing but the blocks and the list head.\<close>

definition list_frame :: "heap \<Rightarrow> heap \<Rightarrow> bool" where
  "list_frame h h' \<longleftrightarrow> h' = h\<lparr>h_blocks := h_blocks h', h_free_list := h_free_list h'\<rparr>"

lemma list_frame_refl [simp]: "list_frame h h"
  by (simp add: list_frame_def)

lemma list_frame_trans: "list_frame h h1 \<Longrightarrow> list_frame h1 h2 \<Longrightarrow> list_frame h h2"
  unfolding list_frame_def by (cases h; cases h1; cases h2) simp

lemma list_frame_fields:
  assumes "list_frame h h'"
  shows "h_data h' = h_data h" "h_used h' = h_used h" "h_free h' = h_free h" "h_base h' = h_base h"
    "h_map h' = h_map h" "h_map_count h' = h_map_count h" "h_alloc_seq h' = h_alloc_seq h"
    "h_alloc_failures h' = h_alloc_failures h"
proof -
  have e: "h' = h\<lparr>h_blocks := h_blocks h', h_free_list := h_free_list h'\<rparr>" using assms by (simp add: list_frame_def)
  show "h_data h' = h_data h" "h_used h' = h_used h" "h_free h' = h_free h" "h_base h' = h_base h"
    "h_map h' = h_map h" "h_map_count h' = h_map_count h" "h_alloc_seq h' = h_alloc_seq h"
    "h_alloc_failures h' = h_alloc_failures h"
    by (subst e, simp)+
qed

lemma upd_block_blocks [simp]: "h_blocks (upd_block a f h) = (h_blocks h)(a := map_option f (h_blocks h a))"
  "h_free_list (upd_block a f h) = h_free_list h"
  by (simp_all add: upd_block_def)

lemma upd_block_frame: "list_frame h h1 \<Longrightarrow> list_frame h (upd_block a f h1)"
  unfolding list_frame_def upd_block_def by (cases h; cases h1) simp

lemma is_free_core: "same_core bs bs' \<Longrightarrow> is_free bs' a = is_free bs a"
proof -
  assume "same_core bs bs'"
  then have "map_option core (bs' a) = map_option core (bs a)" by (simp add: same_core_def)
  then show ?thesis by (cases "bs a"; cases "bs' a") (auto simp: is_free_def core_def)
qed

subsection \<open>Removing a block from the free list\<close>

lemma remove_block:
  assumes "dll (h_blocks h) (h_free_list h) (xs @ a # ys)" "distinct (xs @ a # ys)"
  shows "\<exists>h'. mem_remove_from_free_list a h = Some h' \<and> dll (h_blocks h') (h_free_list h') (xs @ ys)
    \<and> same_core (h_blocks h) (h_blocks h') \<and> list_frame h h'"
proof -
  let ?bs = "h_blocks h"
  obtain m r lp where xs: "dseg ?bs None (h_free_list h) xs m r" and r: "dseg ?bs m r (a # ys) lp None"
    using assms(1) by (auto simp: dll_def dseg_append)
  obtain b where b: "?bs a = Some b" "b_prev b = m" "r = Some a" and ys: "dseg ?bs (Some a) (b_next b) ys lp None"
    using r by auto
  let ?l = "link m (b_next b) ?bs" and ?p = "if xs = [] then b_next b else h_free_list h"
  have m: "m = (if xs = [] then None else Some (last xs))" and n: "b_next b = (if ys = [] then None else Some (hd ys))"
    using dseg_ends [OF xs] dseg_ends [OF ys] by simp_all
  have d: "dll ?l ?p (xs @ ys)" using link_segments [OF xs ys] assms(2) by simp
  have na: "m \<noteq> Some a" "b_next b \<noteq> Some a"
    using assms(2) by (auto simp: m n split: if_splits)
  let ?h = "h\<lparr>h_blocks := ?l(a := map_option (\<lambda>x. x\<lparr>b_next := None, b_prev := None\<rparr>) (?l a)), h_free_list := ?p\<rparr>"
  have "mem_remove_from_free_list a h = Some ?h"
    using b(1,2) m na
    by (cases "b_prev b"; cases "b_next b")
      (simp_all add: mem_remove_from_free_list_def upd_block_def link_def split: if_splits)
  moreover have "dll (h_blocks ?h) (h_free_list ?h) (xs @ ys)"
    using d assms(2) unfolding dll_def by (subst dseg_frame [of _ _ ?l]) auto
  moreover have "same_core ?bs (h_blocks ?h)"
    using same_core_trans [OF link_core [of ?bs m "b_next b"] same_core_upd [of "\<lambda>x. x\<lparr>b_next := None, b_prev := None\<rparr>" ?l a]]
    by simp
  ultimately show ?thesis by (intro exI [of _ ?h]) (simp add: list_frame_def)
qed

subsection \<open>Adding a block to the free list\<close>

lemma find_insert_point:
  "dseg bs pv cur (xs @ ys) lp None \<Longrightarrow> \<forall>x \<in> set xs. x < a \<Longrightarrow> \<forall>y \<in> set ys. a < y \<Longrightarrow>
   insert_point bs a prev cur =
     Some (if xs = [] then prev else Some (last xs), if ys = [] then None else Some (hd ys))"
proof (induction xs arbitrary: pv cur prev)
  case Nil
  then show ?case by (cases ys) (auto simp: insert_point.simps)
next
  case (Cons x xs)
  then obtain b where b: "cur = Some x" "bs x = Some b" "dseg bs (Some x) (b_next b) (xs @ ys) lp None" by auto
  have "insert_point bs a (Some x) (b_next b) =
      Some (if xs = [] then Some x else Some (last xs), if ys = [] then None else Some (hd ys))"
    using Cons.prems(2,3) by (intro Cons.IH [OF b(3)]) auto
  then show ?case using b Cons.prems(2) by (subst insert_point.simps) simp
qed

lemma add_block:
  assumes "dll (h_blocks h) (h_free_list h) (xs @ ys)" "\<forall>x \<in> set xs. x < a" "\<forall>y \<in> set ys. a < y"
    and "distinct (xs @ ys)" "h_blocks h a = Some b"
  shows "\<exists>h'. mem_add_to_free_list a h = Some h' \<and> dll (h_blocks h') (h_free_list h') (xs @ a # ys)
    \<and> same_core ((h_blocks h)(a := Some (b\<lparr>b_flags := MEM_BLOCK_FREE\<rparr>))) (h_blocks h') \<and> list_frame h h'"
proof -
  let ?b = "b\<lparr>b_flags := MEM_BLOCK_FREE, b_next := None, b_prev := None\<rparr>"
  let ?bs = "(h_blocks h)(a := Some ?b)"
  have na: "a \<notin> set xs" "a \<notin> set ys" using assms(2,3) by auto
  obtain lp where "dseg (h_blocks h) None (h_free_list h) (xs @ ys) lp None" using assms(1) by (auto simp: dll_def)
  then have all: "dseg ?bs None (h_free_list h) (xs @ ys) lp None"
    using na by (subst dseg_frame [of _ _ "h_blocks h"]) auto
  then obtain m r where xs: "dseg ?bs None (h_free_list h) xs m r" and ys: "dseg ?bs m r ys lp None"
    by (auto simp: dseg_append)
  have m: "m = (if xs = [] then None else Some (last xs))" and r: "r = (if ys = [] then None else Some (hd ys))"
    using dseg_ends [OF xs] dseg_ends [OF ys] by simp_all
  let ?b1 = "link m (Some a) ?bs" and ?p = "if xs = [] then Some a else h_free_list h"
  have "dseg ?bs None (Some a) [a] (Some a) None" by simp
  then have d1: "dll ?b1 ?p (xs @ [a])"
    using link_segments [OF xs, of None "Some a" "[a]"] na(1) assms(4) by simp
  then obtain lp1 where "dseg ?b1 None ?p (xs @ [a]) lp1 None" by (auto simp: dll_def)
  moreover have "m \<noteq> Some x" if "x \<in> set ys" for x
    using that assms(4) by (auto simp: m split: if_splits dest: last_in_set)
  then have ys1: "dseg ?b1 m r ys lp None"
    using ys na by (subst dseg_frame [of ys _ ?bs]) (auto simp: link_frame)
  moreover have "lp1 = Some a" using dseg_ends [OF calculation(1)] by simp
  ultimately have d2: "dll (link (Some a) r ?b1) ?p (xs @ a # ys)"
    using link_segments [of ?b1 ?p "xs @ [a]" lp1 None m r ys lp] na assms(4) by simp
  have pt: "insert_point ?bs a None (h_free_list h) = Some (m, r)"
    using find_insert_point [OF all assms(2,3), of None] m r by simp
  let ?h = "h\<lparr>h_blocks := link (Some a) r ?b1, h_free_list := ?p\<rparr>"
  have "mem_add_to_free_list a h = Some ?h"
  proof (cases "h_free_list h")
    case None
    then have "xs = []" using dseg_ends [OF xs] dseg_ends [OF all] by (cases xs) auto
    moreover from this have "ys = []" using None dseg_ends [OF all] by (cases ys) auto
    ultimately have "xs = []" "ys = []" .
    then show ?thesis using None assms(5) m r
      by (cases b) (simp add: mem_add_to_free_list_def upd_block_def link_def)
  next
    case (Some f)
    have "m \<noteq> Some a" "r \<noteq> Some a" using na by (auto simp: m r split: if_splits)
    then show ?thesis using Some assms(5) pt m r
      by (cases b; cases "xs = []"; cases "ys = []")
        (simp_all add: mem_add_to_free_list_def upd_block_def link_def fun_upd_twist)
  qed
  moreover have "same_core ((h_blocks h)(a := Some (b\<lparr>b_flags := MEM_BLOCK_FREE\<rparr>))) ?bs"
    by (simp add: same_core_def core_def)
  then have "same_core ((h_blocks h)(a := Some (b\<lparr>b_flags := MEM_BLOCK_FREE\<rparr>))) (link (Some a) r ?b1)"
    using link_core same_core_trans by blast
  ultimately show ?thesis using d2 by (intro exI [of _ ?h]) (simp add: list_frame_def)
qed

subsection \<open>Finding a block\<close>

text \<open>The best fit: the smallest free block that is large enough, the first of equals.\<close>

fun best_fit :: "(int \<Rightarrow> mem_block option) \<Rightarrow> u64 \<Rightarrow> int list \<Rightarrow> int option \<Rightarrow> int option" where
  "best_fit bs n [] best = best"
| "best_fit bs n (a # as) best =
     best_fit bs n as
       (if n \<le> b_size (the (bs a)) \<and> (case best of None \<Rightarrow> True | Some c \<Rightarrow> b_size (the (bs a)) < b_size (the (bs c)))
        then Some a else best)"

lemma find_best_fit:
  "dseg bs pv cur as lp None \<Longrightarrow> \<forall>a \<in> set as. is_free bs a \<Longrightarrow> (\<And>c. best = Some c \<Longrightarrow> bs c \<noteq> None) \<Longrightarrow>
   find_free bs n cur best = Some (best_fit bs n as best)"
proof (induction as arbitrary: pv cur best)
  case Nil
  then show ?case by (simp add: find_free.simps)
next
  case (Cons a as)
  then obtain b where b: "cur = Some a" "bs a = Some b" "dseg bs (Some a) (b_next b) as lp None" by auto
  let ?best = "if n \<le> b_size b \<and> (case best of None \<Rightarrow> True | Some c \<Rightarrow> b_size b < b_size (the (bs c)))
    then Some a else best"
  have f: "b_flags b = 2" using Cons.prems(2) b(2) by (auto simp: is_free_def)
  have c: "best = Some c \<Longrightarrow> \<exists>x. bs c = Some x" for c using Cons.prems(3) by blast
  have "find_free bs n cur best = find_free bs n (b_next b) ?best"
    using f c by (subst find_free.simps) (auto simp: b split: option.split)
  also have "\<dots> = Some (best_fit bs n as ?best)"
    using Cons.prems(2,3) b(2) by (intro Cons.IH [OF b(3)]) (auto split: if_splits)
  finally show ?case by (cases best) (simp_all add: b)
qed

lemma best_fit_Some:
  "best_fit bs n as best = Some a \<Longrightarrow> best = Some a \<or> (a \<in> set as \<and> n \<le> b_size (the (bs a)))"
  by (induction as arbitrary: best) (auto split: if_splits)

lemma best_fit_least:
  "best_fit bs n as best = Some a \<Longrightarrow> (\<forall>c. best = Some c \<longrightarrow> b_size (the (bs a)) \<le> b_size (the (bs c)))
    \<and> (\<forall>c \<in> set as. n \<le> b_size (the (bs c)) \<longrightarrow> b_size (the (bs a)) \<le> b_size (the (bs c)))"
proof (induction as arbitrary: best)
  case (Cons x as)
  let ?best = "if n \<le> b_size (the (bs x)) \<and> (case best of None \<Rightarrow> True | Some c \<Rightarrow> b_size (the (bs x)) < b_size (the (bs c)))
    then Some x else best"
  have "best_fit bs n as ?best = Some a" using Cons.prems by simp
  from Cons.IH [OF this] show ?case
    by (cases best) (force split: if_splits)+
qed simp

lemma best_fit_None: "best_fit bs n as best = None \<longleftrightarrow> best = None \<and> (\<forall>c \<in> set as. \<not> n \<le> b_size (the (bs c)))"
  by (induction as arbitrary: best) (auto split: option.split)

subsection \<open>Merging neighbours\<close>

definition adjacent :: "(int \<Rightarrow> mem_block option) \<Rightarrow> int \<Rightarrow> int \<Rightarrow> bool" where
  "adjacent bs a n = (case bs a of None \<Rightarrow> False | Some b \<Rightarrow> n = a + MEM_HEADER + uint (b_size b))"

lemma scan_spec:
  "dseg bs pv cur as lp None \<Longrightarrow> \<forall>a \<in> set as. is_free bs a \<Longrightarrow>
   coalesce_scan bs cur = Some None \<and> successively (\<lambda>a n. \<not> adjacent bs a n) as
   \<or> (\<exists>xs a n ys. coalesce_scan bs cur = Some (Some a) \<and> as = xs @ a # n # ys \<and> adjacent bs a n)"
proof (induction as arbitrary: pv cur)
  case Nil
  then show ?case by (simp add: coalesce_scan.simps)
next
  case (Cons a as)
  then obtain b where b: "cur = Some a" "bs a = Some b" "dseg bs (Some a) (b_next b) as lp None" by auto
  have f: "b_flags b = 2" using Cons.prems(2) b(2) by (auto simp: is_free_def)
  have later: "coalesce_scan bs (b_next b) = Some None \<and> successively (\<lambda>a n. \<not> adjacent bs a n) as
    \<or> (\<exists>xs a n ys. coalesce_scan bs (b_next b) = Some (Some a) \<and> as = xs @ a # n # ys \<and> adjacent bs a n)"
    using Cons.prems(2) by (intro Cons.IH [OF b(3)]) auto
  show ?case
  proof (cases as)
    case Nil
    then have "b_next b = None" using b(3) by simp
    then have "coalesce_scan bs cur = Some None"
      by (subst coalesce_scan.simps) (simp add: b f coalesce_scan.simps [of bs None])
    then show ?thesis using Nil by simp
  next
    case (Cons n ns)
    then obtain nb where n: "b_next b = Some n" "bs n = Some nb" "b_flags nb = 2"
      using b(3) \<open>\<forall>a \<in> set (a # as). is_free bs a\<close> by (auto simp: is_free_def)
    show ?thesis
    proof (cases "adjacent bs a n")
      case True
      then have e: "a + 40 + uint (b_size b) = n" by (simp add: adjacent_def b)
      have "coalesce_scan bs cur = Some (Some a)"
        by (subst coalesce_scan.simps) (simp add: b f n e)
      then show ?thesis using True Cons by (metis append_Nil)
    next
      case False
      then have "coalesce_scan bs cur = coalesce_scan bs (b_next b)"
        by (subst coalesce_scan.simps) (simp add: b f n adjacent_def)
      then show ?thesis using later False Cons by (metis append_Cons successively.simps(3))
    qed
  qed
qed

lemma merge_block:
  assumes "dll (h_blocks h) (h_free_list h) (xs @ a # n # ys)" "distinct (xs @ a # n # ys)"
    and "h_blocks h a = Some b" "h_blocks h n = Some nb"
  shows "\<exists>h'. merge_next a h = Some h' \<and> dll (h_blocks h') (h_free_list h') (xs @ a # ys)
    \<and> same_core ((h_blocks h)(a := Some (b\<lparr>b_size := b_size b + (40 + b_size nb)\<rparr>),
        n := Some (nb\<lparr>b_magic := 0\<rparr>))) (h_blocks h') \<and> list_frame h h'"
proof -
  let ?bs = "h_blocks h"
  let ?upd = "?bs(a := Some (b\<lparr>b_size := b_size b + (40 + b_size nb)\<rparr>), n := Some (nb\<lparr>b_magic := 0\<rparr>))"
  have ne: "a \<noteq> n" "a \<notin> set ys" "n \<notin> set ys" "n \<notin> set xs" using assms(2) by auto
  obtain lp where "dseg ?bs None (h_free_list h) ((xs @ [a]) @ n # ys) lp None"
    using assms(1) by (auto simp: dll_def)
  then obtain m where xs: "dseg ?bs None (h_free_list h) (xs @ [a]) m (Some n)"
    and r: "dseg ?bs m (Some n) (n # ys) lp None"
    unfolding dseg_append [of _ _ _ "xs @ [a]"] by auto
  have m: "m = Some a" using dseg_ends [OF xs] by simp
  have bn: "b_next b = Some n" using xs assms(3) by (auto simp: dseg_append)
  have ys: "dseg ?bs (Some n) (b_next nb) ys lp None" using r assms(4) by auto
  have xs0: "dseg ?upd None (h_free_list h) (xs @ [a]) (Some a) (Some n)"
    by (rule dseg_links [OF _ xs [unfolded m]]) (use ne assms(3) in auto)
  have ys0: "dseg ?upd (Some n) (b_next nb) ys lp None"
    by (rule dseg_links [OF _ ys]) (use ne in auto)
  have d: "dll (link (Some a) (b_next nb) ?upd) (h_free_list h) (xs @ a # ys)"
    using link_segments [OF xs0 ys0] assms(2) by simp
  let ?h = "h\<lparr>h_blocks := link (Some a) (b_next nb) ?upd\<rparr>"
  have "b_next nb = (if ys = [] then None else Some (hd ys))" using dseg_ends [OF ys] by simp
  then have nn: "b_next nb \<noteq> Some a" "b_next nb \<noteq> Some n" using ne by auto
  then have "merge_next a h = Some ?h"
    using assms(3,4) bn ne
    by (cases b; cases "b_next nb") (simp_all add: merge_next_def upd_block_def link_def fun_upd_twist)
  moreover have "list_frame h ?h" by (cases h) (simp add: list_frame_def)
  ultimately show ?thesis using d link_core by (intro exI [of _ ?h]) simp
qed

subsection \<open>Coalescing\<close>

text \<open>The blocks in use, with their headers up to the links.\<close>

definition used :: "heap \<Rightarrow> int list \<Rightarrow> (int \<times> (u32 \<times> u32 \<times> u64 \<times> u32 \<times> u32)) set" where
  "used h bl = {(a, core b) | a b. a \<in> set bl \<and> h_blocks h a = Some b \<and> b_flags b = MEM_BLOCK_USED}"

lemma used_cong:
  assumes "\<And>a b. a \<in> set bl \<Longrightarrow> h_blocks h a = Some b \<Longrightarrow> b_flags b = MEM_BLOCK_USED \<Longrightarrow>
      a \<in> set bl' \<and> (\<exists>b'. h_blocks h' a = Some b' \<and> core b' = core b)"
    and "\<And>a b. a \<in> set bl' \<Longrightarrow> h_blocks h' a = Some b \<Longrightarrow> b_flags b = MEM_BLOCK_USED \<Longrightarrow>
      a \<in> set bl \<and> (\<exists>b'. h_blocks h a = Some b' \<and> core b' = core b)"
  shows "used h' bl' = used h bl"
proof -
  have f: "core b = core b' \<Longrightarrow> b_flags b = b_flags b'" for b b' by (simp add: core_def)
  show ?thesis
  proof (intro equalityI subsetI)
    fix z assume "z \<in> used h' bl'"
    then obtain a b where z: "z = (a, core b)" "a \<in> set bl'" "h_blocks h' a = Some b" "b_flags b = 1"
      by (auto simp: used_def)
    from assms(2) [OF z(2-4)] obtain b' where "a \<in> set bl" "h_blocks h a = Some b'" "core b' = core b" by blast
    then show "z \<in> used h bl" unfolding used_def using z(1,4) f [of b' b] by force
  next
    fix z assume "z \<in> used h bl"
    then obtain a b where z: "z = (a, core b)" "a \<in> set bl" "h_blocks h a = Some b" "b_flags b = 1"
      by (auto simp: used_def)
    from assms(1) [OF z(2-4)] obtain b' where "a \<in> set bl'" "h_blocks h' a = Some b'" "core b' = core b" by blast
    then show "z \<in> used h' bl'" unfolding used_def using z(1,4) f [of b' b] by force
  qed
qed

lemma rep_tiled: "heap_rep h bl \<Longrightarrow> tiled (h_blocks h) 0 bl FLUX_HEAP_SIZE"
  by (simp add: heap_rep_def lists_ok_def)

lemma rep_block:
  assumes "heap_rep h bl" "a \<in> set bl" "h_blocks h a = Some b"
  shows "well_formed b \<and> 0 \<le> a \<and> a + MEM_HEADER + uint (b_size b) \<le> FLUX_HEAP_SIZE"
  using tiled_block [of "h_blocks h" 0 bl _ a b] tiled_bounds [of "h_blocks h" 0 bl] rep_tiled assms by blast

lemma rep_sorted: "heap_rep h bl \<Longrightarrow> sorted_wrt (<) bl \<and> distinct bl"
proof -
  assume "heap_rep h bl"
  then have s: "sorted_wrt (<) bl" using tiled_sorted by (auto simp: heap_rep_def lists_ok_def)
  then show ?thesis by (simp add: strict_sorted_iff)
qed

lemma sum_sizes:
  assumes "0 \<le> a" "a + 40 + uint (s :: u64) + 40 + uint (t :: u64) \<le> 16777216"
  shows "uint (s + (40 + t)) = uint s + 40 + uint t"
proof -
  have "0 \<le> uint s" "0 \<le> uint t" by simp_all
  then have "uint s + (40 + uint t) < 18446744073709551616" using assms by linarith
  then show ?thesis using \<open>0 \<le> uint s\<close> \<open>0 \<le> uint t\<close> by (simp add: uint_word_ariths mod_simps mod_pos_pos_trivial)
qed

lemma split_at:
  assumes "distinct (as @ x # bs)" "as @ x # bs = cs @ x # ds" shows "as = cs \<and> bs = ds"
proof -
  have "x \<notin> set as" "x \<notin> set bs" using assms(1) by auto
  from append_Cons_eq_iff [OF this] show ?thesis using assms(2) by blast
qed

lemma merge_rep:
  assumes "heap_rep h bl" "filter (is_free (h_blocks h)) bl = xs @ a # n # ys" "adjacent (h_blocks h) a n"
  shows "\<exists>h' bl'. merge_next a h = Some h' \<and> heap_rep h' bl' \<and> used h' bl' = used h bl \<and> list_frame h h'
    \<and> length (filter (is_free (h_blocks h')) bl') = Suc (length (xs @ ys))"
proof -
  let ?bs = "h_blocks h"
  have t: "tiled ?bs 0 bl 16777216" and d: "dll ?bs (h_free_list h) (xs @ a # n # ys)"
    and st: "\<And>x b. x \<notin> set bl \<Longrightarrow> ?bs x = Some b \<Longrightarrow> b_magic b = 0"
    using assms(1,2) by (auto simp: heap_rep_def lists_ok_def)
  have sb: "sorted_wrt (<) bl" "distinct bl" using rep_sorted [OF assms(1)] by simp_all
  have dist: "distinct (xs @ a # n # ys)" using sb(2) by (metis assms(2) distinct_filter)
  have "set (filter (is_free ?bs) bl) = set (xs @ a # n # ys)" by (simp only: assms(2))
  then have mem: "a \<in> set bl" "n \<in> set bl" "is_free ?bs a" "is_free ?bs n" by auto
  obtain b nb where b: "?bs a = Some b" "b_flags b = 2" and nb: "?bs n = Some nb" "b_flags nb = 2"
    using mem(3,4) by (auto simp: is_free_def split: option.splits)
  have n: "n = a + 40 + uint (b_size b)" using assms(3) b by (simp add: adjacent_def)
  obtain as cs where as: "bl = as @ a # cs" using mem(1) by (auto simp: in_set_conv_decomp)
  have tc: "tiled ?bs n cs 16777216" and wa: "well_formed b" "tiled ?bs 0 as a"
    using t b n unfolding as by (auto simp: tiled_append)
  have "n \<noteq> a" using dist by auto
  moreover have "a < n" using \<open>n \<noteq> a\<close> n uint_ge_0 [of "b_size b"] by linarith
  then have "n \<notin> set as" using sb(1) unfolding as by (auto simp: sorted_wrt_append)
  ultimately have "n \<in> set cs" using mem(2) as by simp
  then obtain cs' where cs: "cs = n # cs'" using tc by (cases cs) auto
  have wn: "tiled ?bs (n + 40 + uint (b_size nb)) cs' 16777216" using tc nb(1) unfolding cs by auto
  have "filter (is_free ?bs) as @ a # n # filter (is_free ?bs) cs' = xs @ a # n # ys"
    using assms(2) mem(3,4) unfolding as cs by simp
  then have fl: "filter (is_free ?bs) as = xs" "filter (is_free ?bs) cs' = ys"
    using split_at [of "filter (is_free ?bs) as" a "n # filter (is_free ?bs) cs'" xs "n # ys"] dist by auto
  let ?upd = "?bs(a := Some (b\<lparr>b_size := b_size b + (40 + b_size nb)\<rparr>), n := Some (nb\<lparr>b_magic := 0\<rparr>))"
  obtain h' where h': "merge_next a h = Some h'" "dll (h_blocks h') (h_free_list h') (xs @ a # ys)"
    "same_core ?upd (h_blocks h')" "list_frame h h'"
    using merge_block [OF d dist b(1) nb(1)] by blast
  let ?bl = "as @ a # cs'"
  have nin: "n \<notin> set ?bl" "a \<notin> set as" "a \<notin> set cs'" using sb(2) unfolding as cs by auto
  have "0 \<le> a" using tiled_bounds [OF t] mem(1) by auto
  then have sz: "uint (b_size b + (40 + b_size nb)) = uint (b_size b) + 40 + uint (b_size nb)"
    using sum_sizes tiled_bounds [OF wn] n by simp
  have "tiled ?upd 0 as a" using wa(2) nin by (subst tiled_frame [of as _ ?bs]) auto
  moreover have "tiled ?upd (n + 40 + uint (b_size nb)) cs' 16777216"
    using wn nin by (subst tiled_frame [of cs' _ ?bs]) auto
  ultimately have "tiled ?upd 0 ?bl 16777216"
    using wa(1) \<open>n \<noteq> a\<close> sz n unfolding tiled_append
    by (intro exI [of _ a]) (simp add: well_formed_def algebra_simps)
  then have t': "tiled (h_blocks h') 0 ?bl 16777216" using tiled_core [OF h'(3)] by blast
  have fr: "is_free (h_blocks h') x = is_free ?bs x" for x
    using is_free_core [OF h'(3), of x] b nb by (auto simp: is_free_def)
  then have fre: "is_free (h_blocks h') = is_free ?bs" by (rule ext)
  have fl': "filter (is_free (h_blocks h')) ?bl = xs @ a # ys"
    using fl mem(3) by (simp add: fre)
  have "b_magic c = 0" if x: "x \<notin> set ?bl" "h_blocks h' x = Some c" for x c
  proof -
    have "map_option core (?upd x) = Some (core c)" using h'(3) x(2) unfolding same_core_def by (metis option.simps(9))
    then obtain c' where c': "?upd x = Some c'" "core c' = core c" unfolding map_option_eq_Some by blast
    show ?thesis
    proof (cases "x = n")
      case True
      then show ?thesis using c' by (auto simp: core_def)
    next
      case False
      then have "x \<notin> set bl" "?bs x = Some c'" using x(1) c'(1) as cs by auto
      then show ?thesis using st c'(2) by (auto simp: core_def)
    qed
  qed
  then have rep: "heap_rep h' ?bl"
    using t' h'(2) unfolding heap_rep_def lists_ok_def fl' by blast
  have same: "x \<noteq> a \<Longrightarrow> x \<noteq> n \<Longrightarrow> map_option core (h_blocks h' x) = map_option core (?bs x)" for x
    using h'(3) by (simp add: same_core_def)
  have freea: "is_free (h_blocks h') a" using fr mem(3) by simp
  have "used h' ?bl = used h bl"
  proof (rule used_cong)
    fix x c assume x: "x \<in> set bl" "?bs x = Some c" "b_flags c = 1"
    then have "x \<noteq> a" "x \<noteq> n" using b nb by auto
    then show "x \<in> set ?bl \<and> (\<exists>b'. h_blocks h' x = Some b' \<and> core b' = core c)"
      using x same [of x] as cs by (auto simp: map_option_eq_Some)
  next
    fix x c assume x: "x \<in> set ?bl" "h_blocks h' x = Some c" "b_flags c = 1"
    then have "x \<noteq> a" "x \<noteq> n" using freea nin by (auto simp: is_free_def)
    then show "x \<in> set bl \<and> (\<exists>b'. ?bs x = Some b' \<and> core b' = core c)"
      using x same [of x] as cs by (cases "?bs x") auto
  qed
  then show ?thesis using h'(1,4) rep fl' by (intro exI [of _ h'] exI [of _ ?bl]) simp
qed

lemma coalesce_rep:
  "heap_rep h bl \<Longrightarrow> \<exists>h' bl'. mem_coalesce h = Some h' \<and> heap_rep h' bl' \<and> used h' bl' = used h bl \<and> list_frame h h'
    \<and> successively (\<lambda>a n. \<not> adjacent (h_blocks h') a n) (filter (is_free (h_blocks h')) bl')"
proof (induction "length (filter (is_free (h_blocks h)) bl)" arbitrary: h bl rule: less_induct)
  case less
  let ?fl = "filter (is_free (h_blocks h)) bl"
  obtain lp where "dseg (h_blocks h) None (h_free_list h) ?fl lp None"
    using less.prems by (auto simp: heap_rep_def lists_ok_def dll_def)
  moreover have "\<forall>a \<in> set ?fl. is_free (h_blocks h) a" by simp
  ultimately consider (none) "coalesce_scan (h_blocks h) (h_free_list h) = Some None"
      "successively (\<lambda>a n. \<not> adjacent (h_blocks h) a n) ?fl"
    | (more) xs a n ys where "coalesce_scan (h_blocks h) (h_free_list h) = Some (Some a)"
      "?fl = xs @ a # n # ys" "adjacent (h_blocks h) a n"
    using scan_spec by blast
  then show ?case
  proof cases
    case none
    then have "mem_coalesce h = Some h" by (subst mem_coalesce.simps) simp
    then show ?thesis using none less.prems by (intro exI [of _ h] exI [of _ bl]) simp
  next
    case more
    obtain h1 bl1 where m: "merge_next a h = Some h1" "heap_rep h1 bl1" "used h1 bl1 = used h bl" "list_frame h h1"
      "length (filter (is_free (h_blocks h1)) bl1) = Suc (length (xs @ ys))"
      using merge_rep [OF less.prems more(2,3)] by blast
    have "length (filter (is_free (h_blocks h1)) bl1) < length ?fl" using m(5) more(2) by simp
    from less.hyps [OF this m(2)] obtain h2 bl2 where r: "mem_coalesce h1 = Some h2" "heap_rep h2 bl2"
      "used h2 bl2 = used h1 bl1" "list_frame h1 h2"
      "successively (\<lambda>a n. \<not> adjacent (h_blocks h2) a n) (filter (is_free (h_blocks h2)) bl2)" by blast
    have "mem_coalesce h = Some h2" using more(1) m(1) r(1) by (subst mem_coalesce.simps) simp
    then show ?thesis using r m list_frame_trans [OF m(4) r(4)] by (intro exI [of _ h2] exI [of _ bl2]) simp
  qed
qed

subsection \<open>Releasing a block\<close>

lemma stale_core:
  assumes "\<And>x c. x \<notin> S \<Longrightarrow> bs x = Some c \<Longrightarrow> b_magic c = 0" "same_core bs bs'" "x \<notin> S" "bs' x = Some c"
  shows "b_magic c = 0"
proof -
  have "map_option core (bs x) = Some (core c)" using assms(2,4) unfolding same_core_def by (metis option.simps(9))
  then obtain c' where "bs x = Some c'" "core c' = core c" unfolding map_option_eq_Some by blast
  then show ?thesis using assms(1,3) by (auto simp: core_def)
qed

lemma rep_cong:
  "h_blocks h' = h_blocks h \<Longrightarrow> h_free_list h' = h_free_list h \<Longrightarrow> heap_rep h' bl = heap_rep h bl"
  "h_blocks h' = h_blocks h \<Longrightarrow> used h' bl = used h bl"
  by (simp_all add: heap_rep_def lists_ok_def used_def)

lemma split_free_list:
  assumes "heap_rep h bl" "a \<in> set bl"
  obtains as cs where "bl = as @ a # cs" "\<forall>x \<in> set as. x < a" "\<forall>x \<in> set cs. a < x" "a \<notin> set as" "a \<notin> set cs"
proof -
  obtain as cs where bl: "bl = as @ a # cs" using assms(2) by (auto simp: in_set_conv_decomp)
  then show ?thesis using that [of as cs] rep_sorted [OF assms(1)] by (auto simp: sorted_wrt_append)
qed

lemma release_rep:
  assumes "heap_rep h bl" "a \<in> set bl" "h_blocks h a = Some b" "b_flags b = MEM_BLOCK_USED"
  shows "\<exists>h'. mem_add_to_free_list a h = Some h' \<and> heap_rep h' bl \<and> used h' bl = used h bl - {(a, core b)} \<and> list_frame h h'"
proof -
  let ?bs = "h_blocks h" and ?F = "is_free (h_blocks h)"
  obtain as cs where bl: "bl = as @ a # cs" "\<forall>x \<in> set as. x < a" "\<forall>x \<in> set cs. a < x" "a \<notin> set as" "a \<notin> set cs"
    using split_free_list [OF assms(1,2)] .
  have "\<not> ?F a" using assms(3,4) by (simp add: is_free_def)
  then have fl: "filter ?F bl = filter ?F as @ filter ?F cs" using bl(1) by simp
  have rep: "tiled ?bs 0 bl 16777216" "dll ?bs (h_free_list h) (filter ?F as @ filter ?F cs)"
    "\<And>x c. x \<notin> set bl \<Longrightarrow> ?bs x = Some c \<Longrightarrow> b_magic c = 0"
    using assms(1) unfolding heap_rep_def lists_ok_def fl by auto
  have dist: "distinct (filter ?F as @ filter ?F cs)"
    using rep_sorted [OF assms(1)] by (metis fl distinct_filter)
  obtain h' where h': "mem_add_to_free_list a h = Some h'" "dll (h_blocks h') (h_free_list h') (filter ?F as @ a # filter ?F cs)"
    "same_core (?bs(a := Some (b\<lparr>b_flags := 2\<rparr>))) (h_blocks h')" "list_frame h h'"
    using add_block [OF rep(2) _ _ dist assms(3)] bl(2,3) by auto
  let ?upd = "?bs(a := Some (b\<lparr>b_flags := 2\<rparr>))"
  have "well_formed b" using tiled_block [OF rep(1) assms(2,3)] by simp
  then have "tiled ?upd 0 bl 16777216"
    using rep(1) assms(3) by (intro tiled_upd) (auto simp: well_formed_def)
  then have t: "tiled (h_blocks h') 0 bl 16777216" using tiled_core [OF h'(3)] by blast
  have fr: "is_free (h_blocks h') x = (x = a \<or> ?F x)" for x
    using is_free_core [OF h'(3), of x] by (auto simp: is_free_def)
  have "filter (is_free (h_blocks h')) as = filter ?F as" "filter (is_free (h_blocks h')) cs = filter ?F cs"
    using bl(4,5) fr by (auto intro!: filter_cong)
  then have fl': "filter (is_free (h_blocks h')) bl = filter ?F as @ a # filter ?F cs"
    using fr [of a] bl(1) by simp
  have up: "b_magic c = 0" if "x \<notin> set bl" "?upd x = Some c" for x c
    using that rep(3) assms(2) by (cases "x = a") auto
  have "b_magic c = 0" if "x \<notin> set bl" "h_blocks h' x = Some c" for x c
    using up stale_core [of "set bl" ?upd "h_blocks h'" x c] h'(3) that by blast
  then have r: "heap_rep h' bl" using t h'(2) unfolding heap_rep_def lists_ok_def fl' by blast
  have same: "map_option core (h_blocks h' x) = map_option core (?bs x)" if "x \<noteq> a" for x
    using h'(3) that by (simp add: same_core_def)
  have na: "\<not> (h_blocks h' a = Some c \<and> b_flags c = 1)" for c
    using fr [of a] by (auto simp: is_free_def)
  have "used h' bl = used h bl - {(a, core b)}"
  proof (intro equalityI subsetI)
    fix z assume "z \<in> used h' bl"
    then obtain x c where z: "z = (x, core c)" "x \<in> set bl" "h_blocks h' x = Some c" "b_flags c = 1" by (auto simp: used_def)
    then have "x \<noteq> a" using na by auto
    then obtain c' where "?bs x = Some c'" "core c' = core c" using same [of x] z(3) by (cases "?bs x") auto
    then show "z \<in> used h bl - {(a, core b)}" using z \<open>x \<noteq> a\<close> by (auto simp: used_def core_def)
  next
    fix z assume "z \<in> used h bl - {(a, core b)}"
    then obtain x c where z: "z = (x, core c)" "x \<in> set bl" "?bs x = Some c" "b_flags c = 1" "z \<noteq> (a, core b)"
      by (auto simp: used_def)
    then have "x \<noteq> a" using assms(3) by auto
    then obtain c' where "h_blocks h' x = Some c'" "core c' = core c" using same [of x] z(3) by (cases "h_blocks h' x") auto
    then show "z \<in> used h' bl" using z by (auto simp: used_def core_def)
  qed
  then show ?thesis using h' r by blast
qed

text \<open>Fields that are neither links nor sizes are free to change.\<close>

lemma rep_upd:
  assumes "heap_rep h bl" "a \<in> set bl" "h_blocks h a = Some b"
    and "b_magic (f b) = b_magic b" "b_flags (f b) = b_flags b" "b_size (f b) = b_size b"
    and "b_next (f b) = b_next b" "b_prev (f b) = b_prev b"
  shows "heap_rep (upd_block a f h) bl"
proof -
  have t: "tiled (h_blocks h) 0 bl 16777216" and w: "well_formed b"
    using rep_tiled rep_block assms(1-3) by blast+
  then have "tiled (h_blocks (upd_block a f h)) 0 bl 16777216"
    using assms(3-6) by (auto intro!: tiled_upd simp: well_formed_def)
  moreover have fe: "is_free (h_blocks (upd_block a f h)) = is_free (h_blocks h)"
    by (rule ext) (use assms(3,5) in \<open>simp add: is_free_def\<close>)
  moreover obtain lp where "dseg (h_blocks h) None (h_free_list h) (filter (is_free (h_blocks h)) bl) lp None"
    using assms(1) by (auto simp: heap_rep_def lists_ok_def dll_def)
  then have "dseg (h_blocks (upd_block a f h)) None (h_free_list h) (filter (is_free (h_blocks h)) bl) lp None"
    by (rule dseg_links [rotated]) (use assms(3,7,8) in simp)
  ultimately show ?thesis
    using assms(1,2) unfolding heap_rep_def lists_ok_def fe dll_def by (auto split: if_splits)
qed

lemma fst_remove: "(\<And>x. (a, x) \<in> U \<Longrightarrow> x = c) \<Longrightarrow> fst ` (U - {(a, c)}) = fst ` U - {a}"
  by (force simp: image_iff)

text \<open>A release gives the block back and leaves no two neighbouring blocks both free.\<close>

lemma free_rep:
  assumes "heap_rep h bl" "a \<in> set bl" "h_blocks h a = Some b" "b_flags b = MEM_BLOCK_USED"
  shows "\<exists>h' bl'. flux_free (Some (a + 40)) h = Some h' \<and> heap_rep h' bl' \<and> fst ` used h' bl' = fst ` used h bl - {a}
    \<and> used h' bl' \<subseteq> used h bl \<and> h_data h' = h_data h
    \<and> h_used h' = h_used h - (40 + b_size b) \<and> h_free h' = h_free h + (40 + b_size b)
    \<and> successively (\<lambda>a n. \<not> adjacent (h_blocks h') a n) (filter (is_free (h_blocks h')) bl')"
proof -
  let ?h1 = "snd (mem_map_remove (addr_of h (a + 40)) h)"
  have fr: "h_blocks ?h1 = h_blocks h" "h_free_list ?h1 = h_free_list h" "h_data ?h1 = h_data h"
    "h_used ?h1 = h_used h" "h_free ?h1 = h_free h"
    by (auto simp: mem_map_remove_def split: option.split)
  let ?h2 = "?h1\<lparr>h_used := h_used ?h1 - (40 + b_size b), h_free := h_free ?h1 + (40 + b_size b),
      h_free_count := h_free_count ?h1 + 1\<rparr>"
  let ?h3 = "upd_block a (\<lambda>x. x\<lparr>b_owner := 0\<rparr>) ?h2"
  have b3: "h_blocks ?h3 = (h_blocks h)(a := Some (b\<lparr>b_owner := 0\<rparr>))" "h_free_list ?h3 = h_free_list h"
    using assms(3) by (simp_all add: fr)
  have t: "tiled (h_blocks h) 0 bl 16777216" using assms(1) by (simp add: heap_rep_def lists_ok_def)
  have w: "well_formed b" and "0 \<le> a"
    using tiled_block [OF t assms(2,3)] tiled_bounds [OF t] assms(2) by simp_all
  have "heap_rep ?h2 bl" using assms(1) rep_cong [of ?h2 h] fr by simp
  then have r3: "heap_rep ?h3 bl" by (rule rep_upd) (use assms(2,3) fr in simp_all)
  have u3: "used ?h3 bl = used h bl - {(a, core b)} \<union> {(a, core (b\<lparr>b_owner := 0\<rparr>))}"
    using assms(2-4) by (auto simp: used_def fr split: if_splits)
  have a3: "h_blocks ?h3 a = Some (b\<lparr>b_owner := 0\<rparr>)" "b_flags (b\<lparr>b_owner := 0\<rparr>) = 1"
    using assms(3,4) by (simp_all add: fr)
  obtain h4 where h4: "mem_add_to_free_list a ?h3 = Some h4" "heap_rep h4 bl"
    "used h4 bl = used ?h3 bl - {(a, core (b\<lparr>b_owner := 0\<rparr>))}" "list_frame ?h3 h4"
    using release_rep [OF r3 assms(2) a3] by blast
  obtain h' bl' where h': "mem_coalesce h4 = Some h'" "heap_rep h' bl'" "used h' bl' = used h4 bl" "list_frame h4 h'"
    "successively (\<lambda>a n. \<not> adjacent (h_blocks h') a n) (filter (is_free (h_blocks h')) bl')"
    using coalesce_rep [OF h4(2)] by blast
  have one: "x = core b" if "(a, x) \<in> used h bl" for x using that assms(3) by (auto simp: used_def)
  have "used h' bl' = used h bl - {(a, core b)}"
    using u3 h4(3) h'(3) one by auto
  then have u: "fst ` used h' bl' = fst ` used h bl - {a}" "used h' bl' \<subseteq> used h bl"
    using fst_remove [of a "used h bl" "core b"] one by auto
  have lf: "list_frame ?h3 h'" using h4(4) h'(4) list_frame_trans by blast
  have fr': "h_data h' = h_data h" "h_used h' = h_used h - (40 + b_size b)" "h_free h' = h_free h + (40 + b_size b)"
    using list_frame_fields [OF lf] by (simp_all add: upd_block_def fr)
  have "flux_free (Some (a + 40)) h = Some h'"
    using assms(3,4) w \<open>0 \<le> a\<close> h4(1) h'(1)
    by (simp add: flux_free_def mem_block_from_ptr_def well_formed_def)
  then show ?thesis using h' u fr' by blast
qed

subsection \<open>Allocating a block\<close>

text \<open>Between removal and marking, block \<open>a\<close> is in no list though its flags still say free.\<close>

definition taken :: "heap \<Rightarrow> int list \<Rightarrow> int \<Rightarrow> bool" where
  "taken h bl a \<longleftrightarrow> lists_ok h bl (filter (\<lambda>x. is_free (h_blocks h) x \<and> x \<noteq> a) bl) \<and> a \<in> set bl \<and> is_free (h_blocks h) a"

lemma filter_neq: "a \<notin> set xs \<Longrightarrow> filter (\<lambda>x. P x \<and> x \<noteq> a) xs = filter P xs"
  by (induction xs) auto

lemma remove_taken:
  assumes "heap_rep h bl" "a \<in> set bl" "is_free (h_blocks h) a"
  shows "\<exists>h'. mem_remove_from_free_list a h = Some h' \<and> taken h' bl a \<and> same_core (h_blocks h) (h_blocks h')
    \<and> list_frame h h'"
proof -
  let ?F = "is_free (h_blocks h)"
  obtain as cs where bl: "bl = as @ a # cs" "a \<notin> set as" "a \<notin> set cs" using split_free_list [OF assms(1,2)] by metis
  have fl: "filter ?F bl = filter ?F as @ a # filter ?F cs" using bl(1) assms(3) by simp
  have fl': "filter (\<lambda>x. ?F x \<and> x \<noteq> a) bl = filter ?F as @ filter ?F cs"
    using bl by (simp add: filter_neq)
  have rep: "tiled (h_blocks h) 0 bl 16777216" "dll (h_blocks h) (h_free_list h) (filter ?F as @ a # filter ?F cs)"
    "\<And>x c. x \<notin> set bl \<Longrightarrow> h_blocks h x = Some c \<Longrightarrow> b_magic c = 0"
    using assms(1) unfolding heap_rep_def lists_ok_def fl by auto
  have dist: "distinct (filter ?F as @ a # filter ?F cs)"
    using rep_sorted [OF assms(1)] by (metis fl distinct_filter)
  obtain h' where h': "mem_remove_from_free_list a h = Some h'" "dll (h_blocks h') (h_free_list h') (filter ?F as @ filter ?F cs)"
    "same_core (h_blocks h) (h_blocks h')" "list_frame h h'"
    using remove_block [OF rep(2) dist] by blast
  have fe: "is_free (h_blocks h') = ?F" by (rule ext) (rule is_free_core [OF h'(3)])
  have "b_magic c = 0" if "x \<notin> set bl" "h_blocks h' x = Some c" for x c
    using rep(3) stale_core [of "set bl" "h_blocks h" "h_blocks h'" x c] h'(3) that by blast
  then have "taken h' bl a"
    using h'(2) tiled_core [OF h'(3) rep(1)] assms(2,3) unfolding taken_def lists_ok_def fe fl' by blast
  then show ?thesis using h' by blast
qed

lemma split_taken:
  assumes "taken h bl a" "h_blocks h a = Some b" "needed \<le> b_size b"
  shows "\<exists>h' bl' b'. mem_split_block a needed h = Some h' \<and> taken h' bl' a \<and> used h' bl' = used h bl \<and> list_frame h h'
    \<and> h_blocks h' a = Some b' \<and> needed \<le> b_size b'
    \<and> b_size b' = (if b_size b - needed < 56 then b_size b else needed)"
proof (cases "56 \<le> b_size b - needed")
  case False
  then have "mem_split_block a needed h = Some h" using assms(2) by (simp add: mem_split_block_def)
  then show ?thesis using assms False by (intro exI [of _ h] exI [of _ bl] exI [of _ b]) (simp add: not_le)
next
  case True
  let ?bs = "h_blocks h" and ?G = "\<lambda>x. is_free (h_blocks h) x \<and> x \<noteq> a"
  define n where "n = a + 40 + uint needed"
  define nb where "nb = \<lparr>b_magic = 0x464C5558, b_flags = 2, b_size = b_size b - needed - 40, b_type = 0, b_owner = 0,
      b_next = None, b_prev = None\<rparr>"
  have rep: "tiled ?bs 0 bl 16777216" "dll ?bs (h_free_list h) (filter ?G bl)"
    "\<And>x c. x \<notin> set bl \<Longrightarrow> ?bs x = Some c \<Longrightarrow> b_magic c = 0" "a \<in> set bl" "is_free ?bs a"
    using assms(1) unfolding taken_def lists_ok_def by auto
  obtain as cs where bl: "bl = as @ a # cs" using rep(4) by (auto simp: in_set_conv_decomp)
  have sb: "sorted_wrt (<) bl" using tiled_sorted [OF rep(1)] .
  then have ac: "\<forall>x \<in> set as. x < a" "\<forall>x \<in> set cs. a < x" "distinct bl"
    by (auto simp: bl sorted_wrt_append strict_sorted_iff)
  have t: "tiled ?bs 0 as a" "tiled ?bs (a + 40 + uint (b_size b)) cs 16777216" "well_formed b"
    using rep(1) assms(2) unfolding bl tiled_append by auto
  have sz: "uint (b_size b - needed) = uint (b_size b) - uint needed"
    using assms(3) by (simp add: uint_minus_simple_alt word_le_def)
  then have rem: "56 \<le> uint (b_size b) - uint needed" using True by (simp add: word_le_def)
  then have nsz: "uint (b_size nb) = uint (b_size b) - uint needed - 40"
  proof -
    have "40 \<le> b_size b - needed" using True by (rule order_trans [rotated]) simp
    then have "uint (b_size b - needed - 40) = uint (b_size b - needed) - uint (40 :: u64)"
      by (simp only: uint_minus_simple_alt)
    then show ?thesis using sz by (simp add: nb_def)
  qed
  have n: "a < n" "n + 40 + uint (b_size nb) = a + 40 + uint (b_size b)" "n < a + 40 + uint (b_size b)"
    using rem nsz by (simp_all add: n_def) (smt (verit) uint_ge_0)
  have nbl: "n \<notin> set bl"
  proof -
    have "\<forall>x \<in> set cs. n < x" using tiled_bounds [OF t(2)] n(3) by auto
    then show ?thesis using ac(1) n(1) bl by auto
  qed
  have ncs: "\<forall>x \<in> set cs. n < x" using tiled_bounds [OF t(2)] n(3) by auto
  let ?h1 = "upd_block a (\<lambda>x. x\<lparr>b_size := needed\<rparr>) (h\<lparr>h_blocks := ?bs(n := Some nb)\<rparr>)"
  have b1: "h_blocks ?h1 = ?bs(n := Some nb, a := Some (b\<lparr>b_size := needed\<rparr>))" "h_free_list ?h1 = h_free_list h"
    using assms(2) n(1) by simp_all
  have "a \<notin> set as" "a \<notin> set cs" using ac(1,2) by auto
  then have fl: "filter ?G bl = filter (is_free ?bs) as @ filter (is_free ?bs) cs"
    using bl by (simp add: filter_neq)
  obtain lp where "dseg ?bs None (h_free_list h) (filter ?G bl) lp None" using rep(2) by (auto simp: dll_def)
  then have "dseg (h_blocks ?h1) None (h_free_list h) (filter ?G bl) lp None"
    using nbl unfolding b1 by (subst dseg_frame [of _ _ ?bs]) auto
  then have d1: "dll (h_blocks ?h1) (h_free_list ?h1) ((filter (is_free ?bs) as) @ filter (is_free ?bs) cs)"
    unfolding dll_def fl b1(2) by blast
  have dist: "distinct (filter (is_free ?bs) as @ filter (is_free ?bs) cs)"
    using ac(3) by (metis fl distinct_filter)
  have nb1: "h_blocks ?h1 n = Some nb" using b1 n(1) by simp
  have "\<forall>x \<in> set (filter (is_free ?bs) as). x < n" using ac(1) n(1) by auto
  moreover have "\<forall>x \<in> set (filter (is_free ?bs) cs). n < x" using ncs by auto
  ultimately obtain h' where h': "mem_add_to_free_list n ?h1 = Some h'"
    "dll (h_blocks h') (h_free_list h') (filter (is_free ?bs) as @ n # filter (is_free ?bs) cs)"
    "same_core ((h_blocks ?h1)(n := Some (nb\<lparr>b_flags := 2\<rparr>))) (h_blocks h')" "list_frame ?h1 h'"
    using add_block [OF d1 _ _ dist nb1] by blast
  let ?bl = "as @ a # n # cs"
  have nbf: "nb\<lparr>b_flags := 2\<rparr> = nb" by (simp add: nb_def)
  have sc: "same_core (?bs(n := Some nb, a := Some (b\<lparr>b_size := needed\<rparr>))) (h_blocks h')"
    using h'(3) n(1) unfolding b1 nbf by (simp add: fun_upd_twist)
  let ?upd = "?bs(n := Some nb, a := Some (b\<lparr>b_size := needed\<rparr>))"
  have "tiled ?upd 0 as a" using t(1) ac nbl bl by (subst tiled_frame [of as _ ?bs]) auto
  moreover have "tiled ?upd (n + 40 + uint (b_size nb)) cs 16777216"
    unfolding n(2) using t(2) ac nbl bl by (subst tiled_frame [of cs _ ?bs]) auto
  moreover have "well_formed nb" by (simp add: nb_def well_formed_def)
  moreover have "well_formed (b\<lparr>b_size := needed\<rparr>)" using t(3) by (simp add: well_formed_def)
  ultimately have "tiled ?upd 0 ?bl 16777216"
    using n(1) unfolding tiled_append by (intro exI [of _ a]) (simp add: n_def [symmetric])
  then have t': "tiled (h_blocks h') 0 ?bl 16777216" using tiled_core [OF sc] by blast
  have fr: "is_free (h_blocks h') x = (x = n \<or> is_free ?bs x)" for x
    using is_free_core [OF sc, of x] n(1) rep(5) assms(2) by (auto simp: is_free_def nb_def)
  have "filter (\<lambda>x. is_free (h_blocks h') x \<and> x \<noteq> a) as = filter (is_free ?bs) as"
    "filter (\<lambda>x. is_free (h_blocks h') x \<and> x \<noteq> a) cs = filter (is_free ?bs) cs"
    using ac nbl bl fr by (auto intro!: filter_cong)
  then have fl': "filter (\<lambda>x. is_free (h_blocks h') x \<and> x \<noteq> a) ?bl = filter (is_free ?bs) as @ n # filter (is_free ?bs) cs"
    using fr [of n] n(1) by simp
  have up: "b_magic c = 0" if "x \<notin> set ?bl" "?upd x = Some c" for x c
    using that rep(3) bl by (cases "x = a"; cases "x = n") auto
  have "b_magic c = 0" if "x \<notin> set ?bl" "h_blocks h' x = Some c" for x c
    using up stale_core [of "set ?bl" ?upd "h_blocks h'" x c] sc that by blast
  then have tk: "taken h' ?bl a"
    using t' h'(2) fr rep(5) unfolding taken_def lists_ok_def fl' by auto
  have same: "map_option core (h_blocks h' x) = map_option core (?bs x)" if "x \<noteq> a" "x \<noteq> n" for x
    using sc that by (simp add: same_core_def)
  have na: "\<not> (h_blocks h' x = Some c \<and> b_flags c = 1)" if "x = a \<or> x = n" for x c
    using fr [of x] rep(5) that by (auto simp: is_free_def split: option.splits)
  have u: "used h' ?bl = used h bl"
  proof (rule used_cong)
    fix x c assume x: "x \<in> set bl" "?bs x = Some c" "b_flags c = 1"
    then have "x \<noteq> a" "x \<noteq> n" using rep(5) assms(2) nbl by (auto simp: is_free_def)
    then show "x \<in> set ?bl \<and> (\<exists>b'. h_blocks h' x = Some b' \<and> core b' = core c)"
      using x same [of x] bl by (cases "h_blocks h' x") auto
  next
    fix x c assume x: "x \<in> set ?bl" "h_blocks h' x = Some c" "b_flags c = 1"
    then have "x \<noteq> a" "x \<noteq> n" using na by auto
    then show "x \<in> set bl \<and> (\<exists>b'. ?bs x = Some b' \<and> core b' = core c)"
      using x same [of x] bl by (cases "?bs x") auto
  qed
  have "map_option core (h_blocks h' a) = Some (core (b\<lparr>b_size := needed\<rparr>))"
    using sc unfolding same_core_def by simp
  then obtain b' where b': "h_blocks h' a = Some b'" "b_size b' = needed" by (auto simp: core_def)
  have "mem_split_block a needed h = Some h'"
    using assms(2) True h'(1) unfolding mem_split_block_def by (simp add: n_def nb_def)
  moreover have "list_frame h h'"
    using upd_block_frame [of h "h\<lparr>h_blocks := ?bs(n := Some nb)\<rparr>"] list_frame_trans [OF _ h'(4)]
    by (simp add: list_frame_def)
  moreover have "\<not> b_size b - needed < 56" using True by (simp add: not_less)
  ultimately show ?thesis
    using tk u b' by (intro exI [of _ h'] exI [of _ ?bl] exI [of _ b']) simp
qed

lemma mark_used:
  assumes "taken h bl a" "h_blocks h a = Some b"
    and "core (f b) = (MEM_BLOCK_MAGIC, MEM_BLOCK_USED, b_size b, ty, pid)" "b_next (f b) = b_next b" "b_prev (f b) = b_prev b"
  shows "heap_rep (upd_block a f h) bl"
    "used (upd_block a f h) bl = insert (a, (MEM_BLOCK_MAGIC, MEM_BLOCK_USED, b_size b, ty, pid)) (used h bl)"
    "a \<notin> fst ` used h bl"
proof -
  let ?bs = "h_blocks h" and ?upd = "(h_blocks h)(a := Some (f b))"
  have rep: "tiled ?bs 0 bl 16777216" "dll ?bs (h_free_list h) (filter (\<lambda>x. is_free ?bs x \<and> x \<noteq> a) bl)"
    "\<And>x c. x \<notin> set bl \<Longrightarrow> ?bs x = Some c \<Longrightarrow> b_magic c = 0" "a \<in> set bl" "is_free ?bs a"
    using assms(1) unfolding taken_def lists_ok_def by auto
  have u: "h_blocks (upd_block a f h) = ?upd" using assms(2) by simp
  have fb: "b_size (f b) = b_size b" "b_flags (f b) = 1" "well_formed (f b)"
    using assms(3) by (simp_all add: core_def well_formed_def)
  have t: "tiled ?upd 0 bl 16777216" using rep(1) assms(2) fb by (intro tiled_upd)
  have fe: "is_free ?upd = (\<lambda>x. is_free ?bs x \<and> x \<noteq> a)" using fb(2) by (auto simp: is_free_def fun_eq_iff)
  obtain lp where "dseg ?bs None (h_free_list h) (filter (\<lambda>x. is_free ?bs x \<and> x \<noteq> a) bl) lp None"
    using rep(2) by (auto simp: dll_def)
  then have "dseg ?upd None (h_free_list h) (filter (\<lambda>x. is_free ?bs x \<and> x \<noteq> a) bl) lp None"
    by (subst dseg_frame [of _ _ ?bs]) auto
  moreover have "b_magic c = 0" if "x \<notin> set bl" "?upd x = Some c" for x c
    using that rep(3,4) by (cases "x = a") auto
  ultimately show "heap_rep (upd_block a f h) bl"
    using t unfolding heap_rep_def lists_ok_def dll_def u fe by auto
  show "a \<notin> fst ` used h bl"
    using rep(5) by (auto simp: used_def is_free_def)
  show "used (upd_block a f h) bl = insert (a, (MEM_BLOCK_MAGIC, MEM_BLOCK_USED, b_size b, ty, pid)) (used h bl)"
  proof -
    have "used (upd_block a f h) bl = insert (a, core (f b)) (used h bl)"
      using rep(4,5) assms(2) fb(2) unfolding used_def u by (auto simp: is_free_def split: if_splits)
    then show ?thesis using assms(3) by simp
  qed
qed

text \<open>Clearing the data of a block in use removes no header of the layout.\<close>

lemma clear_rep:
  assumes "heap_rep h bl" "a \<in> set bl" "h_blocks h a = Some b" "n \<le> uint (b_size b)"
  shows "heap_rep (clear_data (a + 40) n h) bl" "used (clear_data (a + 40) n h) bl = used h bl"
proof -
  let ?h = "clear_data (a + 40) n h"
  have t: "tiled (h_blocks h) 0 bl 16777216" using assms(1) by (simp add: heap_rep_def lists_ok_def)
  have same: "h_blocks ?h x = h_blocks h x" if "x \<in> set bl" for x
  proof -
    consider "x < a" | "x = a" | "a < x" by linarith
    then show ?thesis
    proof cases
      case 1
      from tiled_Some [OF t that] obtain c where "h_blocks h x = Some c" by blast
      define m where "m = uint (b_size c)"
      have "x + 40 + m \<le> a" "0 \<le> m"
        using tiled_disjoint [OF t that assms(2) 1] \<open>h_blocks h x = Some c\<close> by (auto simp: m_def)
      then have "x + 40 \<le> a" by linarith
      then show ?thesis by (simp add: clear_data_def)
    next
      case 2
      then show ?thesis by (simp add: clear_data_def)
    next
      case 3
      then have "a + 40 + uint (b_size b) \<le> x" using tiled_disjoint [OF t assms(2) that _ assms(3)] by blast
      then show ?thesis using assms(4) by (simp add: clear_data_def)
    qed
  qed
  have fe: "filter (is_free (h_blocks ?h)) bl = filter (is_free (h_blocks h)) bl"
    using same by (auto intro!: filter_cong simp: is_free_def)
  have l: "h_free_list ?h = h_free_list h" by (simp add: clear_data_def)
  obtain lp where "dseg (h_blocks h) None (h_free_list h) (filter (is_free (h_blocks h)) bl) lp None"
    using assms(1) by (auto simp: heap_rep_def lists_ok_def dll_def)
  then have "dseg (h_blocks ?h) None (h_free_list h) (filter (is_free (h_blocks h)) bl) lp None"
    using same by (subst dseg_frame [of _ _ "h_blocks h"]) auto
  moreover have "tiled (h_blocks ?h) 0 bl 16777216" using t same by (subst tiled_frame [of bl _ "h_blocks h"]) auto
  moreover have "b_magic c = 0" if "x \<notin> set bl" "h_blocks ?h x = Some c" for x c
    using that assms(1) by (auto simp: clear_data_def heap_rep_def lists_ok_def split: if_splits)
  ultimately show "heap_rep ?h bl" unfolding heap_rep_def lists_ok_def dll_def fe l by blast
  show "used ?h bl = used h bl" using same by (auto simp: used_def)
qed

lemma alloc_rep:
  assumes "heap_rep h bl" "s \<noteq> 0"
  defines "n \<equiv> mem_align_up s 16"
  shows "(\<exists>h'. flux_alloc pid s ty h = Some (None, h') \<and> heap_rep h' bl \<and> used h' bl = used h bl \<and> h_data h' = h_data h
        \<and> h_used h' = h_used h \<and> h_free h' = h_free h
        \<and> (\<forall>a \<in> set bl. \<forall>b. h_blocks h a = Some b \<and> b_flags b = MEM_BLOCK_FREE \<longrightarrow> b_size b < n))
    \<or> (\<exists>a b h' bl' sz. flux_alloc pid s ty h = Some (Some (a + 40), h') \<and> heap_rep h' bl'
        \<and> a \<in> set bl \<and> h_blocks h a = Some b \<and> b_flags b = MEM_BLOCK_FREE \<and> n \<le> b_size b
        \<and> (\<forall>c \<in> set bl. \<forall>x. h_blocks h c = Some x \<and> b_flags x = MEM_BLOCK_FREE \<and> n \<le> b_size x \<longrightarrow> b_size b \<le> b_size x)
        \<and> sz = (if b_size b - n < 56 then b_size b else n)
        \<and> used h' bl' = insert (a, (MEM_BLOCK_MAGIC, MEM_BLOCK_USED, sz, ty, pid)) (used h bl)
        \<and> a \<notin> fst ` used h bl \<and> n \<le> sz
        \<and> h_data h' = (\<lambda>i. if a + 40 \<le> i \<and> i < a + 40 + uint n then 0 else h_data h i)
        \<and> h_used h' = h_used h + (40 + n) \<and> h_free h' = h_free h - (40 + n))"
proof -
  let ?F = "is_free (h_blocks h)"
  obtain lp where dl: "dseg (h_blocks h) None (h_free_list h) (filter ?F bl) lp None"
    using assms(1) by (auto simp: heap_rep_def lists_ok_def dll_def)
  have find: "mem_find_free_block h n = Some (best_fit (h_blocks h) n (filter ?F bl) None)"
    unfolding mem_find_free_block_def by (rule find_best_fit [OF dl]) auto
  show ?thesis
  proof (cases "best_fit (h_blocks h) n (filter ?F bl) None")
    case None
    have "flux_alloc pid s ty h = Some (None, h\<lparr>h_alloc_failures := h_alloc_failures h + 1\<rparr>)"
      using assms(2) find None by (simp add: flux_alloc_def Let_def n_def)
    moreover have "b_size b < n" if "a \<in> set bl" "h_blocks h a = Some b" "b_flags b = 2" for a b
    proof -
      have "a \<in> set (filter ?F bl)" using that by (simp add: is_free_def)
      then show ?thesis using None that(2) unfolding best_fit_None by (metis option.sel not_le)
    qed
    ultimately show ?thesis
      using assms(1) by (intro disjI1 exI [of _ "h\<lparr>h_alloc_failures := h_alloc_failures h + 1\<rparr>"])
        (simp add: heap_rep_def lists_ok_def used_def)
  next
    case (Some a)
    have a: "a \<in> set bl" "?F a" and sz: "n \<le> b_size (the (h_blocks h a))" using best_fit_Some [OF Some] by auto
    obtain b where b: "h_blocks h a = Some b" "b_flags b = 2" "n \<le> b_size b"
      using a sz by (auto simp: is_free_def split: option.splits)
    have best: "b_size b \<le> b_size x" if "c \<in> set bl" "h_blocks h c = Some x" "b_flags x = 2" "n \<le> b_size x" for c x
    proof -
      have "c \<in> set (filter ?F bl)" using that by (simp add: is_free_def)
      moreover have "n \<le> b_size (the (h_blocks h c))" using that(2,4) by simp
      ultimately have "b_size (the (h_blocks h a)) \<le> b_size (the (h_blocks h c))"
        using best_fit_least [OF Some] by blast
      then show ?thesis using b(1) that(2) by simp
    qed
    obtain h1 where h1: "mem_remove_from_free_list a h = Some h1" "taken h1 bl a" "same_core (h_blocks h) (h_blocks h1)" "list_frame h h1"
      using remove_taken [OF assms(1) a] by blast
    obtain b1 where b1: "h_blocks h1 a = Some b1" "core b1 = core b" using same_core_Some [OF h1(3) b(1)] .
    then have s1: "b_size b1 = b_size b" by (simp add: core_def)
    have u1: "used h1 bl = used h bl"
    proof -
      have "map_option core (h_blocks h1 x) = map_option core (h_blocks h x)" for x
        using h1(3) by (simp add: same_core_def)
      then have "h_blocks h1 x = Some c \<Longrightarrow> \<exists>c'. h_blocks h x = Some c' \<and> core c' = core c"
        "h_blocks h x = Some c \<Longrightarrow> \<exists>c'. h_blocks h1 x = Some c' \<and> core c' = core c" for x c
        by (metis map_option_eq_Some)+
      then show ?thesis by (intro used_cong) auto
    qed
    obtain h2 bl2 b2 where h2: "mem_split_block a n h1 = Some h2" "taken h2 bl2 a" "used h2 bl2 = used h1 bl" "list_frame h1 h2"
      "h_blocks h2 a = Some b2" "n \<le> b_size b2" "b_size b2 = (if b_size b1 - n < 56 then b_size b1 else n)"
      using split_taken [OF h1(2) b1(1)] b(3) s1 by metis
    let ?f = "\<lambda>x. x\<lparr>b_magic := MEM_BLOCK_MAGIC, b_flags := MEM_BLOCK_USED, b_type := ty, b_owner := pid\<rparr>"
    define h3 where "h3 = upd_block a ?f h2"
    define h4 where "h4 = h3\<lparr>h_used := h_used h3 + (40 + n), h_free := h_free h3 - (40 + n),
        h_alloc_count := h_alloc_count h3 + 1, h_alloc_seq := h_alloc_seq h3 + 1\<rparr>"
    define h5 where "h5 = snd (mem_map_add (addr_of h4 (a + 40)) n ty pid (Some (alloc_tag ty (h_alloc_seq h4))) h4)"
    define h6 where "h6 = clear_data (a + 40) (uint n) h5"
    have r3: "heap_rep h3 bl2" "used h3 bl2 = insert (a, (0x464C5558, 1, b_size b2, ty, pid)) (used h2 bl2)" "a \<notin> fst ` used h2 bl2"
      using mark_used [OF h2(2,5), of ?f ty pid] unfolding h3_def by (simp_all add: core_def)
    have f5: "h_blocks h5 = h_blocks h3" "h_free_list h5 = h_free_list h3" "h_data h5 = h_data h3"
      "h_used h5 = h_used h3 + (40 + n)" "h_free h5 = h_free h3 - (40 + n)"
      by (auto simp: h5_def h4_def mem_map_add_def split: option.split)
    have r5: "heap_rep h5 bl2" "used h5 bl2 = used h3 bl2"
      using r3(1) rep_cong [of h5 h3 bl2] f5 by simp_all
    have "a \<in> set bl2" using h2(2) by (simp add: taken_def)
    moreover have "h_blocks h5 a = Some (?f b2)" using h2(5) unfolding f5 h3_def by simp
    moreover have "uint n \<le> uint (b_size (?f b2))" using h2(6) by (simp add: word_le_def)
    ultimately have r6: "heap_rep h6 bl2" "used h6 bl2 = used h5 bl2"
      using clear_rep [OF r5(1)] unfolding h6_def by blast+
    have lf: "list_frame h h2" using list_frame_trans [OF h1(4) h2(4)] .
    have f6: "h_data h6 = (\<lambda>i. if a + 40 \<le> i \<and> i < a + 40 + uint n then 0 else h_data h i)"
      "h_used h6 = h_used h + (40 + n)" "h_free h6 = h_free h - (40 + n)"
      using f5 list_frame_fields [OF lf] by (simp_all add: h6_def h3_def clear_data_def upd_block_def cong: if_cong)
    have "flux_alloc pid s ty h = Some (Some (a + 40), h6)"
      using assms(2) find Some h1(1) h2(1)
      by (simp add: flux_alloc_def Let_def n_def [symmetric] mem_ptr_from_block_def h6_def h5_def h4_def h3_def)
    then show ?thesis
      using a(1) b best r6 r5 r3 u1 h2(3,6,7) s1 f6
      by (intro disjI2 exI [of _ a] exI [of _ b] exI [of _ h6] exI [of _ bl2] exI [of _ "b_size b2"]) auto
  qed
qed

end
