(* ===== verification/FluxHeapSpec.thy ===== *)
theory FluxHeapSpec
  imports FluxHeapProps
begin

section \<open>What the allocator promises\<close>

text \<open>
  The allocator's contract. \<open>allocated h\<close> is its abstract state, a partial map from the pointers in use
  to their size, type and owner; \<open>heap_reach h\<close> says that \<open>h\<close> is a state of the allocator after
  \<open>flux_mem_init\<close> and any sequence of calls. The properties say how each call changes that map and the
  data, and what holds of the map in every reachable heap.
\<close>

definition allocated :: "heap \<Rightarrow> int \<Rightarrow> (u64 \<times> u32 \<times> u32) option" where
  "allocated h p = (case h_blocks h (p - MEM_HEADER) of
     None \<Rightarrow> None
   | Some b \<Rightarrow> if b_magic b = MEM_BLOCK_MAGIC \<and> b_flags b = MEM_BLOCK_USED
              then Some (b_size b, b_type b, b_owner b) else None)"

inductive heap_reach :: "heap \<Rightarrow> bool" where
  reach_init: "heap_reach (snd (flux_mem_init h))"
| reach_alloc: "heap_reach h \<Longrightarrow> flux_alloc cur len ty h = Some (r, h') \<Longrightarrow> heap_reach h'"
| reach_free: "heap_reach h \<Longrightarrow> flux_free ptr h = Some h' \<Longrightarrow> heap_reach h'"
| reach_realloc: "heap_reach h \<Longrightarrow> flux_realloc cur ptr len ty h = Some (r, h') \<Longrightarrow> heap_reach h'"
| reach_protect: "heap_reach h \<Longrightarrow> heap_reach (snd (flux_mem_protect addr len perm h))"

subsection \<open>From the block layout to the abstract map\<close>

lemma rep_magic:
  assumes "heap_rep h bl" "h_blocks h a = Some b" "b_magic b = MEM_BLOCK_MAGIC"
  shows "a \<in> set bl"
  using assms unfolding heap_rep_def lists_ok_def by force

lemma allocated_Some:
  assumes "heap_rep h bl"
  shows "allocated h p = Some (s, t, o') \<longleftrightarrow> (\<exists>b. p - 40 \<in> set bl \<and> h_blocks h (p - 40) = Some b
    \<and> b_flags b = MEM_BLOCK_USED \<and> s = b_size b \<and> t = b_type b \<and> o' = b_owner b)"
proof -
  have "b_magic b = MEM_BLOCK_MAGIC" if "a \<in> set bl" "h_blocks h a = Some b" for a b
    using rep_block [OF assms that] by (simp add: well_formed_def)
  then show ?thesis
    using rep_magic [OF assms, of "p - 40"] by (auto simp: allocated_def split: option.splits if_splits)
qed

lemma used_allocated:
  assumes "heap_rep h bl"
  shows "(a, c) \<in> used h bl \<longleftrightarrow>
    (\<exists>s t o'. allocated h (a + 40) = Some (s, t, o') \<and> c = (MEM_BLOCK_MAGIC, MEM_BLOCK_USED, s, t, o'))"
proof -
  have m: "b_magic b = MEM_BLOCK_MAGIC" if "a \<in> set bl" "h_blocks h a = Some b" for b
    using rep_block [OF assms that] by (simp add: well_formed_def)
  show ?thesis
    unfolding allocated_Some [OF assms] used_def by (auto simp: core_def m)
qed

lemma used_pointer:
  "heap_rep h bl \<Longrightarrow>
   (p - 40, (MEM_BLOCK_MAGIC, MEM_BLOCK_USED, s, t, o')) \<in> used h bl \<longleftrightarrow> allocated h p = Some (s, t, o')"
  using used_allocated [of h bl "p - 40"] by simp

lemma allocated_eqI:
  assumes "heap_rep h bl" "heap_rep h' bl'" "used h' bl' = used h bl"
  shows "allocated h' = allocated h"
proof
  fix p
  have "allocated h' p = Some (s, t, o') \<longleftrightarrow> allocated h p = Some (s, t, o')" for s t o'
    using used_pointer [OF assms(1)] used_pointer [OF assms(2)] assms(3) by simp
  then show "allocated h' p = allocated h p"
    by (cases "allocated h p"; cases "allocated h' p") (metis option.distinct(1) prod_cases3)+
qed

text \<open>The free blocks, by their sizes.\<close>

definition free_size :: "heap \<Rightarrow> u64 \<Rightarrow> bool" where
  "free_size h s \<longleftrightarrow> (\<exists>a b. h_blocks h a = Some b \<and> b_magic b = MEM_BLOCK_MAGIC
     \<and> b_flags b = MEM_BLOCK_FREE \<and> b_size b = s)"

lemma free_size_rep:
  assumes "heap_rep h bl"
  shows "free_size h s \<longleftrightarrow> (\<exists>a \<in> set bl. \<exists>b. h_blocks h a = Some b \<and> b_flags b = MEM_BLOCK_FREE \<and> b_size b = s)"
  using rep_magic [OF assms] rep_block [OF assms, unfolded well_formed_def] unfolding free_size_def by blast

subsection \<open>The operations on the abstract map\<close>

lemma allocated_insert:
  assumes "heap_rep h bl" "heap_rep h' bl'"
    and "used h' bl' = insert (a, (MEM_BLOCK_MAGIC, MEM_BLOCK_USED, s, t, o')) (used h bl)" "a \<notin> fst ` used h bl"
  shows "allocated h' = (allocated h)(a + 40 \<mapsto> (s, t, o'))" "allocated h (a + 40) = None"
proof -
  have u: "allocated h' p = Some (s1, t1, o1) \<longleftrightarrow>
      (p = a + 40 \<and> (s1, t1, o1) = (s, t, o')) \<or> allocated h p = Some (s1, t1, o1)" for p s1 t1 o1
    using used_pointer [OF assms(1), of p s1 t1 o1] used_pointer [OF assms(2), of p s1 t1 o1] assms(3) by auto
  show n: "allocated h (a + 40) = None"
  proof (rule ccontr)
    assume "allocated h (a + 40) \<noteq> None"
    then obtain c where "(a, c) \<in> used h bl" using used_allocated [OF assms(1)] by fastforce
    then show False using assms(4) by force
  qed
  show "allocated h' = (allocated h)(a + 40 \<mapsto> (s, t, o'))"
  proof
    fix p
    show "allocated h' p = ((allocated h)(a + 40 \<mapsto> (s, t, o'))) p"
      using u [of p] n by (cases "allocated h' p"; cases "allocated h p"; cases "p = a + 40") auto
  qed
qed

lemma alloc_abs:
  assumes "heap_rep h bl" "s \<noteq> 0"
  defines "n \<equiv> mem_align_up s 16"
  shows "(\<exists>h'. flux_alloc pid s ty h = Some (None, h') \<and> heap_rep h' bl \<and> allocated h' = allocated h
        \<and> h_data h' = h_data h \<and> h_used h' = h_used h \<and> h_free h' = h_free h
        \<and> (\<forall>x. free_size h x \<longrightarrow> x < n))
    \<or> (\<exists>p sz x h' bl'. flux_alloc pid s ty h = Some (Some p, h') \<and> heap_rep h' bl'
        \<and> allocated h p = None \<and> allocated h' = (allocated h)(p \<mapsto> (sz, ty, pid))
        \<and> free_size h x \<and> n \<le> x \<and> (\<forall>y. free_size h y \<and> n \<le> y \<longrightarrow> x \<le> y)
        \<and> n \<le> sz \<and> sz = (if x - n < 56 then x else n)
        \<and> h_data h' = (\<lambda>i. if p \<le> i \<and> i < p + uint n then 0 else h_data h i)
        \<and> h_used h' = h_used h + (40 + n) \<and> h_free h' = h_free h - (40 + n))"
  using alloc_rep [OF assms(1,2), of pid ty, folded n_def]
proof (elim disjE exE conjE)
  fix h' assume f: "flux_alloc pid s ty h = Some (None, h')" "heap_rep h' bl" "used h' bl = used h bl"
    "h_data h' = h_data h" "h_used h' = h_used h" "h_free h' = h_free h"
    and small: "\<forall>a \<in> set bl. \<forall>b. h_blocks h a = Some b \<and> b_flags b = 2 \<longrightarrow> b_size b < n"
  have "\<forall>x. free_size h x \<longrightarrow> x < n" using small unfolding free_size_rep [OF assms(1)] by blast
  then show ?thesis using f allocated_eqI [OF assms(1) f(2,3)] by blast
next
  fix a b h' bl' sz
  assume f: "flux_alloc pid s ty h = Some (Some (a + 40), h')" "heap_rep h' bl'"
    and b: "a \<in> set bl" "h_blocks h a = Some b" "b_flags b = 2" "n \<le> b_size b"
    and best: "\<forall>c \<in> set bl. \<forall>x. h_blocks h c = Some x \<and> b_flags x = 2 \<and> n \<le> b_size x \<longrightarrow> b_size b \<le> b_size x"
    and sz: "sz = (if b_size b - n < 56 then b_size b else n)"
    and u: "used h' bl' = insert (a, (0x464C5558, 1, sz, ty, pid)) (used h bl)" "a \<notin> fst ` used h bl"
    and d: "n \<le> sz" "h_data h' = (\<lambda>i. if a + 40 \<le> i \<and> i < a + 40 + uint n then 0 else h_data h i)"
      "h_used h' = h_used h + (40 + n)" "h_free h' = h_free h - (40 + n)"
  have "free_size h (b_size b)" "\<forall>y. free_size h y \<and> n \<le> y \<longrightarrow> b_size b \<le> y"
    using b best unfolding free_size_rep [OF assms(1)] by blast+
  then show ?thesis
    using allocated_insert [OF assms(1) f(2) u] f b(4) sz d
    by (intro disjI2 exI [of _ "a + 40"] exI [of _ sz] exI [of _ "b_size b"] exI [of _ h'] exI [of _ bl']) simp
qed

lemma free_abs:
  assumes "heap_rep h bl" "allocated h p = Some (s, t, o')"
  shows "\<exists>h' bl'. flux_free (Some p) h = Some h' \<and> heap_rep h' bl' \<and> allocated h' = (allocated h)(p := None)
    \<and> h_data h' = h_data h \<and> h_used h' = h_used h - (40 + s) \<and> h_free h' = h_free h + (40 + s)
    \<and> successively (\<lambda>a n. \<not> adjacent (h_blocks h') a n) (filter (is_free (h_blocks h')) bl')"
proof -
  obtain b where b: "p - 40 \<in> set bl" "h_blocks h (p - 40) = Some b" "b_flags b = 1" "s = b_size b"
    using assms(2) unfolding allocated_Some [OF assms(1)] by blast
  obtain h' bl' where f: "flux_free (Some p) h = Some h'" "heap_rep h' bl'"
      "fst ` used h' bl' = fst ` used h bl - {p - 40}" "used h' bl' \<subseteq> used h bl"
      "h_data h' = h_data h" "h_used h' = h_used h - (40 + s)" "h_free h' = h_free h + (40 + s)"
      "successively (\<lambda>a n. \<not> adjacent (h_blocks h') a n) (filter (is_free (h_blocks h')) bl')"
    using free_rep [OF assms(1) b(1-3)] b(4) by auto
  have u: "(q - 40, c) \<in> used h' bl' \<longleftrightarrow> q \<noteq> p \<and> (q - 40, c) \<in> used h bl" for q c
  proof -
    have "\<exists>d. (q - 40, d) \<in> used h' bl'" if "q \<noteq> p" "(q - 40, c) \<in> used h bl"
    proof -
      have "q - 40 \<in> fst ` used h' bl'" using that unfolding f(3) by force
      then show ?thesis by force
    qed
    moreover have "d = c" if "(q - 40, d) \<in> used h bl" "(q - 40, c) \<in> used h bl" for d
      using that by (auto simp: used_def)
    moreover have "q \<noteq> p" if "(q - 40, c) \<in> used h' bl'"
    proof -
      have "q - 40 \<in> fst ` used h' bl'" using that by force
      then show ?thesis unfolding f(3) by auto
    qed
    ultimately show ?thesis using f(4) by blast
  qed
  have "allocated h' q = ((allocated h)(p := None)) q" for q
  proof -
    have "allocated h' q = Some x \<longleftrightarrow> q \<noteq> p \<and> allocated h q = Some x" for x
    proof -
      obtain s1 t1 o1 where x: "x = (s1, t1, o1)" by (cases x)
      show ?thesis
        using u [of q "(0x464C5558, 1, s1, t1, o1)"] used_pointer [OF assms(1), of q s1 t1 o1]
          used_pointer [OF f(2), of q s1 t1 o1] unfolding x by blast
    qed
    then have "allocated h' q = (if q = p then None else allocated h q)"
      by (cases "allocated h' q") (metis not_None_eq, metis)
    then show ?thesis by simp
  qed
  then have "allocated h' = (allocated h)(p := None)" by (rule ext)
  then show ?thesis using f by blast
qed

text \<open>Changing the type of a block in use, as \<open>flux_realloc\<close> does when the block is large enough.\<close>

lemma retype_abs:
  assumes "heap_rep h bl" "allocated h p = Some (s, t, o')"
  shows "heap_rep (upd_block (p - 40) (\<lambda>x. x\<lparr>b_type := ty\<rparr>) h) bl"
    and "allocated (upd_block (p - 40) (\<lambda>x. x\<lparr>b_type := ty\<rparr>) h) = (allocated h)(p \<mapsto> (s, ty, o'))"
proof -
  obtain b where b: "p - 40 \<in> set bl" "h_blocks h (p - 40) = Some b" "b_flags b = 1"
      "s = b_size b" "o' = b_owner b"
    using assms(2) unfolding allocated_Some [OF assms(1)] by blast
  show "heap_rep (upd_block (p - 40) (\<lambda>x. x\<lparr>b_type := ty\<rparr>) h) bl"
    by (rule rep_upd [OF assms(1) b(1,2)]) simp_all
  have m: "b_magic b = MEM_BLOCK_MAGIC" using rep_block [OF assms(1) b(1,2)] by (simp add: well_formed_def)
  have "allocated (upd_block (p - 40) (\<lambda>x. x\<lparr>b_type := ty\<rparr>) h) q = ((allocated h)(p \<mapsto> (s, ty, o'))) q" for q
    using b m by (cases "q = p") (simp_all add: allocated_def)
  then show "allocated (upd_block (p - 40) (\<lambda>x. x\<lparr>b_type := ty\<rparr>) h) = (allocated h)(p \<mapsto> (s, ty, o'))" by (rule ext)
qed

text \<open>Two blocks in use lie in the heap and apart, with room for a header between them.\<close>

lemma allocated_bounds:
  "heap_rep h bl \<Longrightarrow> allocated h p = Some (s, t, o') \<Longrightarrow> MEM_HEADER \<le> p \<and> p + uint s \<le> FLUX_HEAP_SIZE"
  using rep_block [of h bl "p - 40"] by (auto simp: allocated_Some)

lemma allocated_apart:
  assumes "heap_rep h bl" "allocated h p = Some (s, t, o1)" "allocated h q = Some (s', t', o2)" "p < q"
  shows "p + uint s + MEM_HEADER \<le> q"
  using tiled_disjoint [OF rep_tiled [OF assms(1)], of "p - 40" "q - 40"] assms by (auto simp: allocated_Some)

lemma copy_abs:
  "heap_rep (copy_data q p n h) bl = heap_rep h bl" "allocated (copy_data q p n h) = allocated h"
  "h_used (copy_data q p n h) = h_used h" "h_free (copy_data q p n h) = h_free h"
  by (simp_all add: copy_data_def heap_rep_def lists_ok_def allocated_def fun_eq_iff)

lemma word_and_flags: "(1 :: u32) AND 1 = 1" "(2 :: u32) AND 1 = 0"
  by code_simp+

lemma realloc_abs:
  assumes "heap_rep h bl" "allocated h p = Some (s, t, o')" "len \<noteq> 0"
  defines "n \<equiv> mem_align_up len 16"
  shows "if n \<le> s then flux_realloc pid (Some p) len ty h
        = Some (Some p, upd_block (p - 40) (\<lambda>x. x\<lparr>b_type := ty\<rparr>) h)
    else (\<exists>h'. flux_realloc pid (Some p) len ty h = Some (None, h') \<and> heap_rep h' bl
        \<and> allocated h' = allocated h \<and> h_data h' = h_data h \<and> h_used h' = h_used h \<and> h_free h' = h_free h)
      \<or> (\<exists>q sz h' bl'. flux_realloc pid (Some p) len ty h = Some (Some q, h') \<and> heap_rep h' bl'
        \<and> allocated h q = None \<and> n \<le> sz
        \<and> allocated h' = (allocated h)(p := None, q \<mapsto> (sz, ty, pid))
        \<and> h_data h' = (\<lambda>i. if q \<le> i \<and> i < q + uint s then h_data h (p + (i - q))
             else if q \<le> i \<and> i < q + uint n then 0 else h_data h i)
        \<and> h_used h' = h_used h + (40 + n) - (40 + s) \<and> h_free h' = h_free h - (40 + n) + (40 + s))"
proof -
  obtain b where b: "p - 40 \<in> set bl" "h_blocks h (p - 40) = Some b" "b_flags b = 1" "s = b_size b"
    using assms(2) unfolding allocated_Some [OF assms(1)] by blast
  have bb: "b_magic b = MEM_BLOCK_MAGIC" "0 \<le> p - 40" "p - 40 + 40 + uint s \<le> 16777216"
    using rep_block [OF assms(1) b(1,2)] b(4) by (simp_all add: well_formed_def)
  have ptr: "mem_block_from_ptr p = Some (p - 40)" using bb(2) by (simp add: mem_block_from_ptr_def)
  show ?thesis
  proof (cases "n \<le> s")
    case True
    then show ?thesis
      using b bb ptr assms(3) by (simp add: flux_realloc_def n_def word_and_flags)
  next
    case False
    show ?thesis
      using alloc_abs [OF assms(1,3), of pid ty, folded n_def]
    proof (elim disjE exE conjE)
      fix h' assume "flux_alloc pid len ty h = Some (None, h')" "heap_rep h' bl"
        "allocated h' = allocated h" "h_data h' = h_data h" "h_used h' = h_used h" "h_free h' = h_free h"
      then show ?thesis
        using False b bb ptr assms(3) by (auto simp: flux_realloc_def n_def word_and_flags)
    next
      fix q sz x h1 bl1
      assume f: "flux_alloc pid len ty h = Some (Some q, h1)" "heap_rep h1 bl1"
        and q: "allocated h q = None" "allocated h1 = (allocated h)(q \<mapsto> (sz, ty, pid))" and sz: "n \<le> sz"
        and d: "h_data h1 = (\<lambda>i. if q \<le> i \<and> i < q + uint n then 0 else h_data h i)"
        and c: "h_used h1 = h_used h + (40 + n)" "h_free h1 = h_free h - (40 + n)"
      have pq: "p \<noteq> q" using assms(2) q(1) by auto
      have p1: "allocated h1 p = Some (s, t, o')" using assms(2) q(2) pq by simp
      obtain b1 where b1: "p - 40 \<in> set bl1" "h_blocks h1 (p - 40) = Some b1" "b_size b1 = s"
        using p1 unfolding allocated_Some [OF f(2)] by blast
      have q1: "allocated h1 q = Some (sz, ty, pid)" using q(2) by simp
      then obtain nb where nb: "q - 40 \<in> set bl1" "h_blocks h1 (q - 40) = Some nb" "b_size nb = sz"
        unfolding allocated_Some [OF f(2)] by blast
      have q0: "mem_block_from_ptr q = Some (q - 40)"
        using rep_block [OF f(2) nb(1,2)] by (simp add: mem_block_from_ptr_def)
      define h2 where "h2 = copy_data q p (uint s) h1"
      have "s < sz" using False sz by simp
      have "heap_rep h2 bl1" "allocated h2 p = Some (s, t, o')" using f(2) p1 by (simp_all add: h2_def copy_abs)
      from free_abs [OF this] obtain h' bl' where h': "flux_free (Some p) h2 = Some h'" "heap_rep h' bl'"
        "allocated h' = (allocated h2)(p := None)" "h_data h' = h_data h2"
        "h_used h' = h_used h2 - (40 + s)" "h_free h' = h_free h2 + (40 + s)" by blast
      have "flux_realloc pid (Some p) len ty h = Some (Some q, h')"
        using False b bb ptr assms(3) f(1) q0 b1 nb h'(1) \<open>s < sz\<close>
        by (simp add: flux_realloc_def n_def word_and_flags Let_def h2_def)
      moreover have "allocated h' = (allocated h)(p := None, q \<mapsto> (sz, ty, pid))"
        using h'(3) q(2) pq by (simp add: h2_def copy_abs fun_upd_twist)
      moreover have "h_data h' = (\<lambda>i. if q \<le> i \<and> i < q + uint s then h_data h (p + (i - q))
             else if q \<le> i \<and> i < q + uint n then 0 else h_data h i)"
      proof
        fix i
        have "h_data h1 (p + (i - q)) = h_data h (p + (i - q))" if "q \<le> i" "i < q + uint s"
        proof (cases "p < q")
          case True
          then show ?thesis using allocated_apart [OF f(2) p1 q1] that
            by (simp add: d)
        next
          case False
          then have "q + uint sz + 40 \<le> p"
            using pq allocated_apart [OF f(2) q1 p1] by simp
          moreover have "uint n \<le> uint sz" using sz by (simp add: word_le_def)
          ultimately show ?thesis using that by (simp add: d)
        qed
        then show "h_data h' i = (if q \<le> i \<and> i < q + uint s then h_data h (p + (i - q))
             else if q \<le> i \<and> i < q + uint n then 0 else h_data h i)"
          unfolding h'(4) h2_def by (simp add: copy_data_def) (simp add: d)
      qed
      moreover have "h_used h' = h_used h + (40 + n) - (40 + s)" "h_free h' = h_free h - (40 + n) + (40 + s)"
        using h'(5,6) c by (simp_all add: h2_def copy_abs)
      ultimately show ?thesis using False h'(2) q(1) sz by auto
    qed
  qed
qed

subsection \<open>Reachable heaps\<close>

lemma word_flags_cases: "b_flags b = MEM_BLOCK_USED \<or> b_flags b = MEM_BLOCK_FREE \<Longrightarrow>
    b_flags b AND 1 = 0 \<longleftrightarrow> b_flags b = MEM_BLOCK_FREE"
  by (auto simp: word_and_flags)

lemma free_cases:
  assumes "heap_rep h bl" "flux_free ptr h = Some h'"
  obtains "h' = h" | p s t o' where "ptr = Some p" "allocated h p = Some (s, t, o')"
proof (cases "h' = h")
  case False
  then obtain p b where b: "ptr = Some p" "h_blocks h (p - 40) = Some b" "b_magic b = MEM_BLOCK_MAGIC"
      "b_flags b AND 1 \<noteq> 0"
    using assms(2) by (auto simp: flux_free_def mem_block_from_ptr_def bind_eq_Some_conv
        split: option.splits if_splits)
  have "b_flags b = 1"
    using rep_block [OF assms(1) rep_magic [OF assms(1) b(2,3)] b(2)] b(4)
    by (auto simp: well_formed_def word_and_flags)
  then have "allocated h p = Some (b_size b, b_type b, b_owner b)" using b by (simp add: allocated_def)
  then show ?thesis using that(2) b(1) by blast
qed (rule that(1))

lemma realloc_cases:
  assumes "heap_rep h bl" "flux_realloc cur ptr len ty h = Some (r, h')"
  obtains "h' = h" | "ptr = None" "flux_alloc cur len ty h = Some (r, h')"
  | "len = 0" "flux_free ptr h = Some h'"
  | p s t o' where "ptr = Some p" "allocated h p = Some (s, t, o')" "len \<noteq> 0"
proof (cases ptr)
  case (Some p)
  show ?thesis
  proof (cases "len = 0 \<or> h' = h")
    case False
    then obtain b where b: "h_blocks h (p - 40) = Some b" "b_magic b = MEM_BLOCK_MAGIC" "b_flags b AND 1 \<noteq> 0"
      using assms(2) Some by (auto simp: flux_realloc_def mem_block_from_ptr_def bind_eq_Some_conv
          split: option.splits if_splits)
    have "b_flags b = 1"
      using rep_block [OF assms(1) rep_magic [OF assms(1) b(1,2)] b(1)] b(3)
      by (auto simp: well_formed_def word_and_flags)
    then have "allocated h p = Some (b_size b, b_type b, b_owner b)" using b by (simp add: allocated_def)
    then show ?thesis using that(4) Some False by blast
  qed (use that assms(2) Some in \<open>auto simp: flux_realloc_def\<close>)
qed (use that assms(2) in \<open>simp add: flux_realloc_def\<close>)

definition heap_ok :: "heap \<Rightarrow> bool" where
  "heap_ok h \<longleftrightarrow> (\<exists>bl. heap_rep h bl) \<and> h_used h + h_free h = 16777216"

lemma alloc_ok:
  assumes "heap_ok h" "flux_alloc cur len ty h = Some (r, h')"
  shows "heap_ok h'"
proof (cases "len = 0")
  case True
  then show ?thesis using assms by (simp add: flux_alloc_def)
next
  case False
  obtain bl where "heap_rep h bl" using assms(1) by (auto simp: heap_ok_def)
  from alloc_abs [OF this False, of cur ty] show ?thesis
    using assms by (auto simp: heap_ok_def)
qed

lemma free_ok:
  assumes "heap_ok h" "flux_free ptr h = Some h'"
  shows "heap_ok h'"
proof -
  obtain bl where r: "heap_rep h bl" using assms(1) by (auto simp: heap_ok_def)
  from r assms(2) show ?thesis
  proof (cases rule: free_cases)
    case (2 p s t o')
    from free_abs [OF r 2(2)] show ?thesis using assms 2(1) by (auto simp: heap_ok_def)
  qed (use assms in simp)
qed

lemma realloc_ok:
  assumes "heap_ok h" "flux_realloc cur ptr len ty h = Some (r, h')"
  shows "heap_ok h'"
proof -
  obtain bl where r: "heap_rep h bl" using assms(1) by (auto simp: heap_ok_def)
  from r assms(2) show ?thesis
  proof (cases rule: realloc_cases)
    case 2
    then show ?thesis using alloc_ok assms(1) by blast
  next
    case 3
    then show ?thesis using free_ok assms(1) by blast
  next
    case (4 p s t o')
    show ?thesis
    proof (cases "mem_align_up len 16 \<le> s")
      case True
      then have "h' = upd_block (p - 40) (\<lambda>x. x\<lparr>b_type := ty\<rparr>) h"
        using realloc_abs [OF r 4(2,3), of cur ty] assms(2) 4(1) by simp
      moreover have "h_used h' = h_used h" "h_free h' = h_free h"
        using calculation by (simp_all add: upd_block_def)
      ultimately show ?thesis using retype_abs(1) [OF r 4(2), of ty] assms(1) by (auto simp: heap_ok_def)
    next
      case False
      then have "\<exists>bl'. heap_rep h' bl'"
        using realloc_abs [OF r 4(2,3), of cur ty] assms(2) 4(1) by auto
      moreover have "h_used h' + h_free h' = 16777216"
        using realloc_abs [OF r 4(2,3), of cur ty] False assms 4(1) by (auto simp: heap_ok_def)
      ultimately show ?thesis by (simp add: heap_ok_def)
    qed
  qed (use assms in simp)
qed

lemma protect_frame:
  "h_blocks (snd (flux_mem_protect a n p h)) = h_blocks h" "h_free_list (snd (flux_mem_protect a n p h)) = h_free_list h"
  "h_used (snd (flux_mem_protect a n p h)) = h_used h" "h_free (snd (flux_mem_protect a n p h)) = h_free h"
  by (auto simp: flux_mem_protect_def Let_def split: option.splits)

lemma init_rep: "heap_rep (snd (flux_mem_init h)) [0]" "h_used (snd (flux_mem_init h)) = 0"
  "h_free (snd (flux_mem_init h)) = 16777216" "allocated (snd (flux_mem_init h)) = Map.empty"
  by (auto simp: flux_mem_init_def mem_map_add_def Let_def heap_rep_def lists_ok_def dll_def is_free_def
      well_formed_def allocated_def fun_eq_iff split: option.splits)

lemma heap_reach_ok: "heap_reach h \<Longrightarrow> heap_ok h"
proof (induction rule: heap_reach.induct)
  case (reach_init h)
  then show ?case using init_rep [of h] by (auto simp: heap_ok_def)
next
  case (reach_protect h addr len perm)
  then show ?case using rep_cong(1) [OF protect_frame(1,2)] by (auto simp: heap_ok_def protect_frame)
qed (blast intro: alloc_ok free_ok realloc_ok)+

end
