(* ===== verification/FluxHeapClaims.thy ===== *)
theory FluxHeapClaims
  imports FluxHeapSpec
begin

section \<open>Properties of the kernel memory allocator\<close>

text \<open>
  The properties of the allocator on every reachable heap, each with a run from a booted heap.
  \<open>heap0\<close> is the heap after \<open>flux_mem_init\<close>, \<open>heap1\<close> and \<open>heap2\<close> the ones after a first and a second
  allocation.
\<close>

definition heap0 :: heap where
  "heap0 = snd (flux_mem_init (boot_heap 0x10000))"

definition heap1 :: heap where
  "heap1 = snd (the (flux_alloc 1 10 5 heap0))"

definition heap2 :: heap where
  "heap2 = snd (the (flux_alloc 2 100 3 heap1))"

lemma heap_demo:
  "heap_reach heap0" "heap_reach heap1" "heap_reach heap2"
  "flux_alloc 1 10 5 heap0 = Some (Some 40, heap1)"
  "allocated heap1 40 = Some (16, 5, 1)" "allocated heap2 40 = Some (16, 5, 1)"
  "allocated heap2 96 = Some (112, 3, 2)" "free_size heap1 16777120"
proof -
  show r0: "heap_reach heap0" unfolding heap0_def by (rule reach_init)
  have "map_option fst (flux_alloc 1 10 5 heap0) = Some (Some 40)" by code_simp
  then show a: "flux_alloc 1 10 5 heap0 = Some (Some 40, heap1)"
    unfolding heap1_def by (auto simp: prod_eq_iff)
  then show r1: "heap_reach heap1" using reach_alloc [OF r0] by blast
  have "map_option fst (flux_alloc 2 100 3 heap1) = Some (Some 96)" by code_simp
  then have "flux_alloc 2 100 3 heap1 = Some (Some 96, heap2)"
    unfolding heap2_def by (auto simp: prod_eq_iff)
  then show "heap_reach heap2" using reach_alloc [OF r1] by blast
  show "allocated heap1 40 = Some (16, 5, 1)" by code_simp
  show "allocated heap2 40 = Some (16, 5, 1)" by code_simp
  show "allocated heap2 96 = Some (112, 3, 2)" by code_simp
  have "map_option (\<lambda>b. (b_magic b, b_flags b, b_size b)) (h_blocks heap1 56) = Some (0x464C5558, 2, 16777120)" by code_simp
  then show "free_size heap1 16777120" unfolding free_size_def by (auto simp: map_option_eq_Some)
qed

lemma reach_rep:
  assumes "heap_reach h"
  obtains bl where "heap_rep h bl" "h_used h + h_free h = 16777216"
  using heap_reach_ok [OF assms] by (auto simp: heap_ok_def)

subsection \<open>The invariant\<close>

text \<open>C3. In every reachable heap the blocks lie end to end and fill the 16 MiB, the free ones are doubly
  linked in address order from the list head, every block in use is one of them, and the used and the
  free counter add up to the size of the heap.\<close>

theorem heap_sound:
  assumes "heap_reach h"
  shows "(\<exists>bl. tiled (h_blocks h) 0 bl FLUX_HEAP_SIZE \<and> sorted_wrt (<) bl
      \<and> dll (h_blocks h) (h_free_list h) (filter (is_free (h_blocks h)) bl)
      \<and> (\<forall>p. allocated h p \<noteq> None \<longrightarrow> p - MEM_HEADER \<in> set bl))
    \<and> h_used h + h_free h = 16777216"
proof -
  obtain bl where r: "heap_rep h bl" "h_used h + h_free h = 16777216" using reach_rep [OF assms] .
  have "p - 40 \<in> set bl" if "allocated h p \<noteq> None" for p
    using that allocated_Some [OF r(1), of p] by auto
  then show ?thesis
    using r rep_sorted [OF r(1)] unfolding heap_rep_def lists_ok_def by blast
qed

theorem heap_sound_witness:
  "\<exists>bl. tiled (h_blocks heap2) 0 bl FLUX_HEAP_SIZE \<and> sorted_wrt (<) bl
      \<and> dll (h_blocks heap2) (h_free_list heap2) (filter (is_free (h_blocks heap2)) bl)"
  using heap_sound [OF heap_demo(3)] by blast

text \<open>C2. Two pointers in use are headers and data apart: the regions handed out lie inside the heap
  and never overlap.\<close>

theorem allocations_apart:
  assumes "heap_reach h" "allocated h p = Some (s, t, w)" "allocated h q = Some (s', t', w')" "p \<noteq> q"
  shows "MEM_HEADER \<le> p \<and> p + uint s \<le> FLUX_HEAP_SIZE
    \<and> (p + uint s + MEM_HEADER \<le> q \<or> q + uint s' + MEM_HEADER \<le> p)"
proof -
  obtain bl where r: "heap_rep h bl" using reach_rep [OF assms(1)] .
  show ?thesis
    using allocated_bounds [OF r assms(2)] allocated_apart [OF r assms(2,3)]
      allocated_apart [OF r assms(3,2)] assms(4) by linarith
qed

theorem allocations_apart_witness: "40 + uint (16 :: u64) + MEM_HEADER \<le> 96"
  using allocations_apart [OF heap_demo(3) heap_demo(6) heap_demo(7)] by simp

subsection \<open>Allocation\<close>



lemma align_up_div: "mem_align_up len 16 = (len + 15) div 16 * 16"
proof -
  have "(w :: u64) AND NOT (mask 4) = push_bit 4 (drop_bit 4 w)" for w
    by (rule bit_word_eqI) (auto simp: bit_and_iff bit_not_iff bit_mask_iff bit_push_bit_iff bit_drop_bit_eq)
  moreover have "mem_align_up len 16 = (len + 15) AND NOT (mask 4)"
    by (simp add: mem_align_up_def mask_eq_exp_minus_1 add.commute)
  ultimately show ?thesis by (simp add: push_bit_eq_mult drop_bit_eq_div mult.commute)
qed

text \<open>Rounding up to 16 is exact but for the last 15 sizes, which wrap to 0.\<close>

lemma align_up_uint:
  "uint (mem_align_up len 16) = (if uint len \<le> 2 ^ 64 - 16 then (uint len + 15) div 16 * 16 else 0)"
proof -
  have r: "0 \<le> uint len" "uint len < 2 ^ 64" using uint_lt2p [of len] by simp_all
  have w: "uint (len + 15) = (uint len + 15) mod 2 ^ 64"
    by (simp add: uint_word_ariths)
  have "uint (mem_align_up len 16) = uint (len + 15) div 16 * 16 mod 2 ^ 64"
    by (simp add: align_up_div uint_word_ariths uint_div)
  also have "\<dots> = (if uint len \<le> 2 ^ 64 - 16 then (uint len + 15) div 16 * 16 else 0)"
  proof (cases "uint len \<le> 2 ^ 64 - 16")
    case True
    then have m: "(uint len + 15) mod 2 ^ 64 = uint len + 15" using r by simp
    have "(uint len + 15) div 16 * 16 < 2 ^ 64" using True r by linarith
    moreover have "0 \<le> (uint len + 15) div 16 * 16" using r by linarith
    ultimately have "(uint len + 15) div 16 * 16 mod 2 ^ 64 = (uint len + 15) div 16 * 16"
      by (rule mod_pos_pos_trivial [rotated])
    then show ?thesis using True unfolding w m by (simp only: if_True)
  next
    case False
    then have "(uint len + 15) mod 2 ^ 64 = uint len + 15 - 2 ^ 64" using r by (intro int_mod_pos_eq) auto
    moreover have "(uint len + 15 - 2 ^ 64) div 16 = 0" using False r by (intro div_pos_pos_trivial) auto
    ultimately show ?thesis using False unfolding w by simp
  qed
  finally show ?thesis .
qed

text \<open>A request for one of the last 15 sizes, almost the whole address space, wraps to 0 when it is
  rounded up: it is granted a block far smaller than asked for whenever any block is free.\<close>

theorem huge_request_granted:
  assumes "heap_reach h" "free_size h x" "2 ^ 64 - 16 < uint len"
  shows "\<exists>p s h'. flux_alloc cur len ty h = Some (Some p, h') \<and> allocated h' p = Some (s, ty, cur) \<and> s < 56"
proof -
  obtain bl where r: "heap_rep h bl" using reach_rep [OF assms(1)] .
  have n: "mem_align_up len 16 = 0" using align_up_uint [of len] assms(3) by (simp add: uint_0_iff)
  have "len \<noteq> 0" using assms(3) by auto
  from alloc_abs [OF r this, of cur ty, unfolded n] obtain p sz x h' where
    "flux_alloc cur len ty h = Some (Some p, h')" "allocated h' = (allocated h)(p \<mapsto> (sz, ty, cur))"
    "sz = (if x - 0 < 56 then x else 0)"
    using assms(2) by (auto simp: not_less)
  then show ?thesis by (auto split: if_splits)
qed

theorem huge_request_granted_witness:
  "\<exists>p s h'. flux_alloc 1 (- 1) 5 heap1 = Some (Some p, h') \<and> allocated h' p = Some (s, 5, 1) \<and> s < 56"
  by (rule huge_request_granted [OF heap_demo(2,8)]) code_simp

text \<open>The first pointer of a fresh heap.\<close>

text \<open>The comment promises alignment to \<open>FLUX_MEM_ALIGN\<close>, but the header is 40 bytes: with \<open>s_heap\<close>
  aligned to 16, the first pointer a fresh heap hands out is 8 off.\<close>

theorem first_pointer_misaligned:
  assumes "base AND 15 = 0" "0 < uint len" "uint len \<le> 16777168"
  shows "map_option fst (flux_alloc cur len ty (snd (flux_mem_init (boot_heap base)))) = Some (Some 40)
    \<and> addr_of (snd (flux_mem_init (boot_heap base))) 40 AND (FLUX_MEM_ALIGN - 1) = 8"
proof -
  let ?h = "snd (flux_mem_init (boot_heap base))"
  let ?n = "mem_align_up len 16"
  have b0: "h_blocks ?h = [0 \<mapsto> \<lparr>b_magic = MEM_BLOCK_MAGIC, b_flags = MEM_BLOCK_FREE, b_size = 16777216 - 40,
      b_type = FLUX_MEM_ANY, b_owner = 0, b_next = None, b_prev = None\<rparr>]"
    by (auto simp: flux_mem_init_def mem_map_add_def Let_def split: option.splits)
  have "uint ?n \<le> 16777168" using align_up_uint [of len] assms(3) by simp
  then have fits: "\<not> 16777176 < ?n" by (simp add: word_less_def)
  have "len \<noteq> 0" using assms(2) by auto
  then have "map_option fst (flux_alloc cur len ty ?h) = Some (Some 40)"
    using alloc_rep [OF init_rep(1) [of "boot_heap base"], of len cur ty] fits b0 by (auto simp: not_less)
  moreover have "(base + 40) AND mask 4 = 8"
  proof -
    have low: "(w :: u64) AND mask 4 = w mod 16" for w
      using take_bit_eq_mod [of 4 w] by (simp add: take_bit_eq_mask)
    have "base mod 16 = 0" using assms(1) low [of base] by (simp add: mask_eq_exp_minus_1)
    then have b: "uint base mod 16 = 0" using uint_mod [of base 16] by simp
    have "uint ((base + 40) mod 16) = (uint base + 40) mod 2 ^ 64 mod 16"
      by (simp add: uint_mod uint_word_ariths)
    also have "\<dots> = (uint base + 40) mod 16" by (rule mod_mod_cancel) simp
    also have "\<dots> = 8" using b by presburger
    finally show ?thesis unfolding low by (simp add: word_uint_eq_iff)
  qed
  moreover have "h_base ?h = base"
    by (auto simp: flux_mem_init_def mem_map_add_def Let_def boot_heap_def split: option.splits)
  ultimately show ?thesis by (simp add: addr_of_def mask_eq_exp_minus_1)
qed

theorem first_pointer_misaligned_witness:
  "map_option fst (flux_alloc 1 10 5 (snd (flux_mem_init (boot_heap 0x10000)))) = Some (Some 40)
    \<and> addr_of (snd (flux_mem_init (boot_heap 0x10000))) 40 AND (FLUX_MEM_ALIGN - 1) = 8"
  by (rule first_pointer_misaligned) code_simp+

subsection \<open>Release\<close>

text \<open>Two free blocks side by side.\<close>

definition free_neighbours :: "heap \<Rightarrow> bool" where
  "free_neighbours h \<longleftrightarrow> (\<exists>a b n nb. h_blocks h a = Some b \<and> b_magic b = MEM_BLOCK_MAGIC \<and> b_flags b = MEM_BLOCK_FREE
     \<and> n = a + MEM_HEADER + uint (b_size b)
     \<and> h_blocks h n = Some nb \<and> b_magic nb = MEM_BLOCK_MAGIC \<and> b_flags nb = MEM_BLOCK_FREE)"

lemma no_free_neighbours:
  assumes "heap_rep h bl" "successively (\<lambda>a n. \<not> adjacent (h_blocks h) a n) (filter (is_free (h_blocks h)) bl)"
  shows "\<not> free_neighbours h"
proof
  let ?F = "is_free (h_blocks h)"
  assume "free_neighbours h"
  then obtain a b nb where b: "h_blocks h a = Some b" "b_magic b = MEM_BLOCK_MAGIC" "b_flags b = MEM_BLOCK_FREE"
    and nb: "h_blocks h (a + 40 + uint (b_size b)) = Some nb" "b_magic nb = MEM_BLOCK_MAGIC" "b_flags nb = MEM_BLOCK_FREE"
    unfolding free_neighbours_def by blast
  define n where "n = a + 40 + uint (b_size b)"
  have in_bl: "a \<in> set bl" "n \<in> set bl" using rep_magic [OF assms(1)] b nb n_def by auto
  have "a < n" by (simp add: n_def add_pos_nonneg)
  obtain as cs where bl: "bl = as @ a # cs" "\<forall>x \<in> set as. x < a"
    using split_free_list [OF assms(1) in_bl(1)] by metis
  then have "n \<in> set cs" using in_bl(2) \<open>a < n\<close> by fastforce
  moreover have "tiled (h_blocks h) n cs 16777216"
    using rep_tiled [OF assms(1)] b(1) unfolding bl(1) tiled_append n_def by auto
  ultimately obtain ds where "cs = n # ds" by (cases cs) auto
  moreover have "?F a" "?F n" using b nb by (simp_all add: is_free_def n_def)
  ultimately have "filter ?F bl = filter ?F as @ a # n # filter ?F ds" using bl(1) by simp
  moreover have "adjacent (h_blocks h) a n" using b by (simp add: adjacent_def n_def)
  ultimately show False using assms(2) by (simp add: successively_append_iff)
qed

text \<open>C30. \<open>flux_free\<close> of a pointer in use gives back exactly that block: it leaves every other block and
  all data alone, takes the block's size and header off the used counter, and joins free neighbours
  until there are none.\<close>

theorem free_spec:
  assumes "heap_reach h" "allocated h p = Some (s, t, w)"
  shows "\<exists>h'. flux_free (Some p) h = Some h' \<and> allocated h' = (allocated h)(p := None) \<and> h_data h' = h_data h
    \<and> h_used h' = h_used h - (40 + s) \<and> \<not> free_neighbours h'"
proof -
  obtain bl where r: "heap_rep h bl" using reach_rep [OF assms(1)] .
  from free_abs [OF this assms(2)] show ?thesis using no_free_neighbours by blast
qed

theorem free_spec_witness:
  "\<exists>h'. flux_free (Some 40) heap2 = Some h' \<and> allocated h' = (allocated heap2)(40 := None) \<and> \<not> free_neighbours h'"
  using free_spec [OF heap_demo(3,6)] by blast

text \<open>Allocating and releasing brings back the blocks in use but not the counters: a block that was
  not split is counted with its rounded size when it is handed out and with its own size when it is
  given back, so the used counter falls by the difference, below 0 and around when nothing is in use.\<close>

theorem alloc_free_drift:
  assumes "heap_reach h" "len \<noteq> 0" "flux_alloc cur len ty h = Some (Some p, h1)"
  shows "\<exists>s h2. allocated h1 p = Some (s, ty, cur) \<and> flux_free (Some p) h1 = Some h2
    \<and> allocated h2 = allocated h
    \<and> h_used h2 = h_used h - (s - mem_align_up len FLUX_MEM_ALIGN) \<and> s - mem_align_up len FLUX_MEM_ALIGN < 56"
proof -
  obtain bl where r: "heap_rep h bl" using reach_rep [OF assms(1)] .
  obtain s x bl' where a: "allocated h p = None" "allocated h1 = (allocated h)(p \<mapsto> (s, ty, cur))"
      "s = (if x - mem_align_up len 16 < 56 then x else mem_align_up len 16)"
      "h_used h1 = h_used h + (40 + mem_align_up len 16)" "heap_rep h1 bl'"
    using alloc_abs [OF r assms(2), of cur ty] assms(3) by auto
  from a(2) have "allocated h1 p = Some (s, ty, cur)" by simp
  moreover obtain h2 where "flux_free (Some p) h1 = Some h2" "allocated h2 = (allocated h1)(p := None)"
      "h_used h2 = h_used h1 - (40 + s)"
    using free_abs [OF a(5) calculation] by blast
  moreover have "(allocated h)(p := None) = allocated h" using a(1) by (simp add: fun_upd_idem)
  ultimately show ?thesis using a(2-4) by auto
qed

theorem alloc_free_drift_witness:
  "\<exists>s h1 h2. flux_alloc 1 16777168 5 heap0 = Some (Some 40, h1) \<and> allocated h1 40 = Some (s, 5, 1)
     \<and> flux_free (Some 40) h1 = Some h2 \<and> allocated h2 = Map.empty \<and> h_used h2 = - 8"
proof -
  define h1 where "h1 = snd (the (flux_alloc 1 16777168 5 heap0))"
  have "map_option fst (flux_alloc 1 16777168 5 heap0) = Some (Some 40)" by code_simp
  then have a: "flux_alloc 1 16777168 5 heap0 = Some (Some 40, h1)"
    unfolding h1_def by (auto simp: prod_eq_iff)
  have s: "allocated h1 40 = Some (16777176, 5, 1)" unfolding h1_def by code_simp
  have n: "mem_align_up 16777168 16 = 16777168" by code_simp
  have u: "h_used heap0 = 0" "allocated heap0 = Map.empty" using init_rep by (simp_all add: heap0_def)
  show ?thesis
    using alloc_free_drift [OF heap_demo(1) _ a] a s unfolding n u by auto
qed

text \<open>Releasing forgets no header, so a second release of the same pointer is seen for what it is.\<close>

lemma add_dom: "mem_add_to_free_list a h = Some h' \<Longrightarrow> dom (h_blocks h) \<subseteq> dom (h_blocks h')"
  by (auto simp: mem_add_to_free_list_def Let_def bind_eq_Some_conv split: option.splits if_splits)

lemma merge_dom: "merge_next a h = Some h' \<Longrightarrow> dom (h_blocks h) \<subseteq> dom (h_blocks h')"
  by (auto simp: merge_next_def Let_def bind_eq_Some_conv split: option.splits if_splits)

lemma coalesce_dom: "mem_coalesce h = Some h' \<Longrightarrow> dom (h_blocks h) \<subseteq> dom (h_blocks h')"
proof (induction rule: mem_coalesce.raw_induct [rotated, consumes 1])
  case (1 f h h')
  from 1(2) consider "h' = h" | a h1 where "coalesce_scan (h_blocks h) (h_free_list h) = Some (Some a)"
      "merge_next a h = Some h1" "f h1 = Some h'"
    by (auto simp: bind_eq_Some_conv split: option.splits)
  then show ?case
  proof cases
    case 2
    then have "dom (h_blocks h1) \<subseteq> dom (h_blocks h')" using 1(1) by blast
    then show ?thesis using merge_dom [OF 2(2)] by blast
  qed simp
qed

lemma free_dom:
  assumes "flux_free (Some p) h = Some h'"
  shows "dom (h_blocks h) \<subseteq> dom (h_blocks h')"
proof (cases "h' = h")
  case False
  have fr: "h_blocks (snd (mem_map_remove x h)) = h_blocks h" for x
    by (auto simp: mem_map_remove_def split: option.split)
  obtain a b where a: "h_blocks h a = Some b"
      "Option.bind (mem_add_to_free_list a (upd_block a (\<lambda>x. x\<lparr>b_owner := 0\<rparr>)
        ((snd (mem_map_remove (addr_of h p) h))\<lparr>
          h_used := h_used (snd (mem_map_remove (addr_of h p) h)) - (40 + b_size b),
          h_free := h_free (snd (mem_map_remove (addr_of h p) h)) + (40 + b_size b),
          h_free_count := h_free_count (snd (mem_map_remove (addr_of h p) h)) + 1\<rparr>))) mem_coalesce = Some h'"
    (is "Option.bind (mem_add_to_free_list a ?h3) _ = _")
    using assms False by (auto simp: flux_free_def bind_eq_Some_conv Let_def split: if_splits)
  have d: "dom (h_blocks ?h3) = dom (h_blocks h)" using a(1) by (auto simp: fr)
  obtain h4 where h4: "mem_add_to_free_list a ?h3 = Some h4" "mem_coalesce h4 = Some h'"
    using a(2) unfolding bind_eq_Some_conv by blast
  show ?thesis using add_dom [OF h4(1)] coalesce_dom [OF h4(2)] unfolding d by (rule order_trans)
qed simp

lemma free_not_allocated:
  assumes "heap_rep h bl" "MEM_HEADER \<le> p" "p - MEM_HEADER \<in> dom (h_blocks h)" "allocated h p = None"
  shows "flux_free (Some p) h = Some h"
proof -
  obtain c where c: "h_blocks h (p - 40) = Some c" using assms(3) by blast
  show ?thesis
  proof (cases "b_magic c = MEM_BLOCK_MAGIC")
    case True
    then have "b_flags c = MEM_BLOCK_FREE"
      using rep_block [OF assms(1) rep_magic [OF assms(1) c True] c] assms(4) c
      by (auto simp: well_formed_def allocated_def)
    then show ?thesis using assms(2) c by (simp add: flux_free_def mem_block_from_ptr_def word_and_flags)
  qed (use assms(2) c in \<open>simp add: flux_free_def mem_block_from_ptr_def\<close>)
qed

text \<open>A second release of the same pointer is ignored: it changes nothing.\<close>

theorem double_free_ignored:
  assumes "heap_reach h" "allocated h p = Some b" "flux_free (Some p) h = Some h'"
  shows "flux_free (Some p) h' = Some h'"
proof -
  obtain bl where r: "heap_rep h bl" using reach_rep [OF assms(1)] .
  obtain s t w where b: "allocated h p = Some (s, t, w)" using assms(2) by (cases b) simp
  obtain bl' where r': "heap_rep h' bl'" "allocated h' p = None"
    using free_abs [OF r b] assms(3) by auto
  have "p - 40 \<in> dom (h_blocks h)" using b by (auto simp: allocated_def split: option.splits)
  then have "p - 40 \<in> dom (h_blocks h')" using free_dom [OF assms(3)] by blast
  then show ?thesis using free_not_allocated [OF r'(1) _ _ r'(2)] allocated_bounds [OF r b] by blast
qed

theorem double_free_ignored_witness:
  "\<exists>h'. flux_free (Some 40) heap2 = Some h' \<and> flux_free (Some 40) h' = Some h'"
proof -
  have "flux_free (Some 40) heap2 \<noteq> None" by code_simp
  then obtain h' where f: "flux_free (Some 40) heap2 = Some h'" by blast
  then show ?thesis using double_free_ignored [OF heap_demo(3,6) f] by blast
qed

subsection \<open>Reallocation\<close>

text \<open>\<open>flux_realloc\<close> of a pointer in use keeps a block that is large enough and retypes it;
  otherwise it moves: all bytes of the old block are in front of the new one, the rest of the rounded
  size is 0, the old pointer is released and no other data changes. When nothing is large enough
  the old block stays.\<close>

theorem realloc_spec:
  assumes "heap_reach h" "allocated h p = Some (s, t, w)" "len \<noteq> 0"
  shows "case flux_realloc cur (Some p) len ty h of
      None \<Rightarrow> False
    | Some (None, h') \<Rightarrow> s < mem_align_up len FLUX_MEM_ALIGN \<and> allocated h' = allocated h \<and> h_data h' = h_data h
    | Some (Some q, h') \<Rightarrow>
        if mem_align_up len FLUX_MEM_ALIGN \<le> s
        then q = p \<and> allocated h' = (allocated h)(p \<mapsto> (s, ty, w)) \<and> h_data h' = h_data h
        else allocated h q = None
          \<and> (\<exists>s'. mem_align_up len FLUX_MEM_ALIGN \<le> s' \<and> allocated h' = (allocated h)(p := None, q \<mapsto> (s', ty, cur)))
          \<and> h_data h' = (\<lambda>i. if q \<le> i \<and> i < q + uint s then h_data h (p + (i - q))
               else if q \<le> i \<and> i < q + uint (mem_align_up len FLUX_MEM_ALIGN) then 0 else h_data h i)"
proof -
  obtain bl where r: "heap_rep h bl" using reach_rep [OF assms(1)] .
  show ?thesis
  proof (cases "mem_align_up len 16 \<le> s")
    case True
    then show ?thesis
      using realloc_abs [OF r assms(2,3), of cur ty] retype_abs(2) [OF r assms(2), of ty]
      by (simp add: upd_block_def)
  next
    case False
    then show ?thesis using realloc_abs [OF r assms(2,3), of cur ty] by auto
  qed
qed

theorem realloc_spec_witness:
  "\<exists>h' s'. flux_realloc 1 (Some 40) 200 5 heap2 = Some (Some 248, h')
     \<and> allocated h' = (allocated heap2)(40 := None, 248 \<mapsto> (s', 5, 1))"
proof -
  have "map_option fst (flux_realloc 1 (Some 40) 200 5 heap2) = Some (Some 248)" by code_simp
  then obtain h' where f: "flux_realloc 1 (Some 40) 200 5 heap2 = Some (Some 248, h')" by auto
  have "\<not> mem_align_up 200 16 \<le> 16" by code_simp
  then show ?thesis
    using realloc_spec [where cur = 1 and ty = 5, OF heap_demo(3,6), of 200] f by auto
qed

end
