(* ===== verification/FluxSyscall.thy ===== *)
theory FluxSyscall
  imports FluxProc
begin

section \<open>The system call dispatcher (kernel/syscall.c) and the bytecode stubs (kernel/main.c)\<close>

text \<open>
  \<open>flux_syscall_dispatch\<close> on the kernel, the heap and the two counters of \<open>flux_kernel_state_t\<close> it
  touches. Arguments are the 64 bits of a \<open>void *\<close>. The caller's memory is read through \<open>mem\<close>; what a
  call stores through its argument pointers is part of the outcome, as a list of addresses and bytes.

  The outcome \<open>Waits\<close> is a receive that is still in its loop, \<open>Panics\<close> one that does not return because
  the kernel stopped, \<open>Undefined\<close> one that follows a pointer outside the heap of the model. Log lines
  are left out.
\<close>

record sys =
  y_kernel :: kernel
  y_heap :: heap
  y_syscall_count :: u32
  y_compile_count :: u32

datatype outcome =
    Returns (code: int) (after: sys) (stores: "(u64 \<times> u8 list) list")
  | Panics | Waits sys | Undefined

text \<open>What the handlers use of the HAL, of the kernel information string and of the rest of the system.\<close>

record platform =
  hal_getc :: "(nat \<Rightarrow> u8) option"
  hal_puts :: bool
  hal_hw_info :: "(u64 \<Rightarrow> int \<times> u8 list) option"
  hal_hw_config :: "(u64 \<Rightarrow> int \<times> u8 list) option"
  hal_basic_info :: "u64 \<Rightarrow> u8 list"
  info_string :: u64
  rounds :: nat
  meanwhile :: "nat \<Rightarrow> kernel \<Rightarrow> kernel"

definition status_code :: "flux_status \<Rightarrow> int" where
  "status_code st = (case st of
     FLUX_OK \<Rightarrow> 0 | FLUX_ERR_GENERAL \<Rightarrow> -1 | FLUX_ERR_NOMEM \<Rightarrow> -2 | FLUX_ERR_INVALID \<Rightarrow> -3
   | FLUX_ERR_DENIED \<Rightarrow> -4 | FLUX_ERR_TIMEOUT \<Rightarrow> -5 | FLUX_ERR_BUSY \<Rightarrow> -6 | FLUX_ERR_NOTFOUND \<Rightarrow> -7
   | FLUX_ERR_EXISTS \<Rightarrow> -8 | FLUX_ERR_OVERFLOW \<Rightarrow> -9 | FLUX_ERR_DEADLOCK \<Rightarrow> -10)"

abbreviation (input) FLUX_CAP_COMPILE :: u64 where "FLUX_CAP_COMPILE \<equiv> 4"
abbreviation (input) FLUX_CAP_IO_READ :: u64 where "FLUX_CAP_IO_READ \<equiv> 8"
abbreviation (input) FLUX_CAP_IO_WRITE :: u64 where "FLUX_CAP_IO_WRITE \<equiv> 0x10"
abbreviation (input) FLUX_CAP_HARDWARE :: u64 where "FLUX_CAP_HARDWARE \<equiv> 0x40"
abbreviation (input) FLUX_CAP_SUPERVISOR :: u64 where "FLUX_CAP_SUPERVISOR \<equiv> 0x400"

subsection \<open>The caller's memory\<close>

definition mem_bytes :: "(u64 \<Rightarrow> u8) \<Rightarrow> u64 \<Rightarrow> nat \<Rightarrow> u8 list" where
  "mem_bytes mem a n = map (\<lambda>i. mem (a + of_nat i)) [0..<n]"

text \<open>Little-endian values, as x86 stores them.\<close>

fun le_value :: "u8 list \<Rightarrow> int" where
  "le_value [] = 0"
| "le_value (b # bs) = uint b + 256 * le_value bs"

definition le_bytes :: "nat \<Rightarrow> u64 \<Rightarrow> u8 list" where
  "le_bytes n w = map (\<lambda>i. ucast (drop_bit (8 * i) w)) [0..<n]"

definition peek32 :: "(u64 \<Rightarrow> u8) \<Rightarrow> u64 \<Rightarrow> u32" where
  "peek32 mem a = word_of_int (le_value (mem_bytes mem a 4))"

definition peek64 :: "(u64 \<Rightarrow> u8) \<Rightarrow> u64 \<Rightarrow> u64" where
  "peek64 mem a = word_of_int (le_value (mem_bytes mem a 8))"

text \<open>A C string, of which no more than \<open>n\<close> characters are looked at.\<close>

definition c_string :: "(u64 \<Rightarrow> u8) \<Rightarrow> nat \<Rightarrow> u64 \<Rightarrow> string" where
  "c_string mem n a = map (\<lambda>b. char_of (unat b)) (takeWhile (\<lambda>b. b \<noteq> 0) (mem_bytes mem a n))"

definition nullable :: "u64 \<Rightarrow> 'a \<Rightarrow> 'a option" where
  "nullable p x = (if p = 0 then None else Some x)"

subsection \<open>Tables and checks\<close>

definition syscall_table :: "(int \<times> string \<times> string) list" where
  "syscall_table =
     [(100, ''SPAWN'', ''process''), (101, ''YIELD'', ''process''), (102, ''EXIT'', ''process''),
      (103, ''KILL'', ''process''), (104, ''WAIT'', ''process''), (105, ''GETPID'', ''process''),
      (200, ''ALLOC'', ''memory''), (201, ''FREE'', ''memory''), (202, ''MMAP'', ''memory''),
      (203, ''MUNMAP'', ''memory''), (204, ''MPROTECT'', ''memory''),
      (300, ''A2A_SEND'', ''ipc''), (301, ''A2A_RECV'', ''ipc''), (302, ''A2A_BROADCAST'', ''ipc''),
      (303, ''A2A_SUBSCRIBE'', ''ipc''),
      (400, ''BC_LOAD'', ''bytecode''), (401, ''BC_EXEC'', ''bytecode''), (402, ''BC_STATUS'', ''bytecode''),
      (403, ''BC_DUMP'', ''bytecode''),
      (500, ''COMPILE'', ''compiler''), (501, ''EMIT'', ''compiler''), (502, ''DEVCODE'', ''compiler''),
      (600, ''READ'', ''io''), (601, ''WRITE'', ''io''), (602, ''IOCTL'', ''io''), (603, ''OPEN'', ''io''),
      (604, ''CLOSE'', ''io''),
      (700, ''HW_INFO'', ''hardware''), (701, ''HW_CONFIG'', ''hardware''),
      (800, ''INFO'', ''info''), (801, ''LOG'', ''info'')]"

definition syscall_lookup_name :: "int \<Rightarrow> string" where
  "syscall_lookup_name num = (case map_of syscall_table num of None \<Rightarrow> ''UNKNOWN'' | Some (n, c) \<Rightarrow> n)"

definition syscall_lookup_category :: "int \<Rightarrow> string" where
  "syscall_lookup_category num = (case map_of syscall_table num of None \<Rightarrow> ''unknown'' | Some (n, c) \<Rightarrow> c)"

definition syscall_validate_pid :: "kernel \<Rightarrow> u32 \<Rightarrow> bool" where
  "syscall_validate_pid k pid = (if pid = FLUX_PID_INVALID \<or> pid = 0 then False else flux_get_pcb k pid \<noteq> None)"

definition syscall_validate_ptr :: "u64 \<Rightarrow> bool" where
  "syscall_validate_ptr p = (p \<noteq> 0)"

definition syscall_check_cap :: "kernel \<Rightarrow> u64 \<Rightarrow> bool" where
  "syscall_check_cap k required =
     (if flux_getpid k = FLUX_PID_KERNEL then True
      else case flux_get_pcb k (flux_getpid k) of None \<Rightarrow> False
           | Some j \<Rightarrow> p_caps (k_pcbs k j) AND required \<noteq> 0)"

subsection \<open>The stubs of kernel/main.c\<close>

definition stub_text :: "string \<Rightarrow> u64 \<Rightarrow> u8 list" where
  "stub_text placeholder out_size =
     (let text = map of_char (placeholder @ [CHR 0x0A]) :: u8 list;
          plen = (if out_size \<le> of_nat (length text) then unat (out_size - 1) else length text)
      in take plen text @ [0])"

definition flux_compile_source :: "u64 \<Rightarrow> u64 \<Rightarrow> sys \<Rightarrow> outcome" where
  "flux_compile_source output out_size s =
     (if output = 0 \<or> out_size = 0 then Returns (status_code FLUX_ERR_INVALID) s []
      else Returns (status_code FLUX_OK) (s\<lparr>y_compile_count := y_compile_count s + 1\<rparr>)
             [(output, stub_text ''// FLUX compiled output (stub)'' out_size)])"

definition flux_devcode :: "u64 \<Rightarrow> u64 \<Rightarrow> sys \<Rightarrow> outcome" where
  "flux_devcode output out_size s =
     (if output = 0 \<or> out_size = 0 then Returns (status_code FLUX_ERR_INVALID) s []
      else Returns (status_code FLUX_OK) (s\<lparr>y_compile_count := y_compile_count s + 1\<rparr>)
             [(output, stub_text ''// FLUX devcode output (stub)'' out_size)])"

text \<open>\<open>memcpy\<close> of bytes of the caller into a block.\<close>

definition write_data :: "int \<Rightarrow> u8 list \<Rightarrow> heap \<Rightarrow> heap" where
  "write_data p bs h =
     h\<lparr>h_data := (\<lambda>i. if p \<le> i \<and> i < p + int (length bs) then bs ! nat (i - p) else h_data h i)\<rparr>"

definition flux_bc_load :: "(u64 \<Rightarrow> u8) \<Rightarrow> u32 \<Rightarrow> u64 \<Rightarrow> u64 \<Rightarrow> sys \<Rightarrow> outcome" where
  "flux_bc_load mem pid bytecode len s =
     (if pid = FLUX_PID_INVALID \<or> bytecode = 0 \<or> len = 0 then Returns (status_code FLUX_ERR_INVALID) s []
      else case flux_get_pcb (y_kernel s) pid of None \<Rightarrow> Returns (status_code FLUX_ERR_NOTFOUND) s []
      | Some j \<Rightarrow>
          (case flux_alloc (k_current_pid (y_kernel s)) len 4 (y_heap s) of
             None \<Rightarrow> Undefined
           | Some (None, h) \<Rightarrow> Returns (status_code FLUX_ERR_NOMEM) (s\<lparr>y_heap := h\<rparr>) []
           | Some (Some p, h) \<Rightarrow>
               if 16777216 < p + uint len then Undefined
               else Returns (status_code FLUX_OK)
                 (s\<lparr>y_heap := write_data p (mem_bytes mem bytecode (unat len)) h,
                    y_kernel := upd_pcb j (\<lambda>b. b\<lparr>p_bc_active := True, p_bc_base := addr_of h p,
                       p_bc_len := len, p_bc_pc := 0, p_bc_regs := (\<lambda>_. 0)\<rparr>) (y_kernel s)\<rparr>) []))"

definition flux_bc_exec :: "u32 \<Rightarrow> sys \<Rightarrow> outcome" where
  "flux_bc_exec pid s =
     (if pid = FLUX_PID_INVALID then Returns (status_code FLUX_ERR_INVALID) s []
      else case flux_get_pcb (y_kernel s) pid of None \<Rightarrow> Returns (status_code FLUX_ERR_INVALID) s []
      | Some j \<Rightarrow>
          if \<not> p_bc_active (k_pcbs (y_kernel s) j) then Returns (status_code FLUX_ERR_INVALID) s []
          else Returns (status_code FLUX_OK)
            (s\<lparr>y_kernel := upd_pcb j (\<lambda>b. b\<lparr>p_is_compiled := True, p_state := PROC_COMPILED\<rparr>) (y_kernel s)\<rparr>) [])"

definition flux_bc_dump :: "(u64 \<Rightarrow> u8) \<Rightarrow> u32 \<Rightarrow> u64 \<Rightarrow> u64 \<Rightarrow> sys \<Rightarrow> outcome" where
  "flux_bc_dump mem pid buf len s =
     (if pid = FLUX_PID_INVALID \<or> buf = 0 \<or> len = 0 then Returns (status_code FLUX_ERR_INVALID) s []
      else case flux_get_pcb (y_kernel s) pid of None \<Rightarrow> Returns (status_code FLUX_ERR_NOTFOUND) s []
      | Some j \<Rightarrow>
          let b = k_pcbs (y_kernel s) j; room = peek64 mem len;
              copy_len = (if room < p_bc_len b then room else p_bc_len b);
              off = uint (p_bc_base b) - uint (h_base (y_heap s))
          in if \<not> p_bc_active b then Returns (status_code FLUX_ERR_NOTFOUND) s []
             else Returns (status_code FLUX_OK) s
               [(buf, map (\<lambda>i. h_data (y_heap s) (off + int i)) [0..<unat copy_len]),
                (len, le_bytes 8 (p_bc_len b))])"

subsection \<open>The handlers\<close>

definition done_with :: "sys \<Rightarrow> flux_status \<Rightarrow> outcome" where
  "done_with s st = Returns (status_code st) s []"

definition in_kernel :: "sys \<Rightarrow> flux_status \<times> kernel \<Rightarrow> outcome" where
  "in_kernel s r = Returns (status_code (fst r)) (s\<lparr>y_kernel := snd r\<rparr>) []"

definition in_heap :: "sys \<Rightarrow> heap option \<Rightarrow> outcome" where
  "in_heap s r = (case r of None \<Rightarrow> Undefined | Some h \<Rightarrow> Returns (status_code FLUX_OK) (s\<lparr>y_heap := h\<rparr>) [])"

text \<open>The heap offset of an address, negative below the heap.\<close>

definition heap_offset :: "heap \<Rightarrow> u64 \<Rightarrow> int" where
  "heap_offset h a = uint a - uint (h_base h)"

definition handle_process_syscall ::
  "(u64 \<Rightarrow> u8) \<Rightarrow> int \<Rightarrow> u64 \<Rightarrow> u64 \<Rightarrow> u64 \<Rightarrow> u64 \<Rightarrow> sys \<Rightarrow> outcome" where
  "handle_process_syscall mem num arg0 arg1 arg2 arg3 s =
     (let k = y_kernel s in
      if num = 100 then
        (if \<not> syscall_check_cap k FLUX_CAP_SPAWN then done_with s FLUX_ERR_DENIED
         else case flux_spawn k (y_heap s) (nullable arg0 (c_string mem 63 arg0)) arg1 arg2 (arg3 \<noteq> 0) of
           None \<Rightarrow> Undefined
         | Some (pid, k1, h1) \<Rightarrow>
             Returns (if pid \<noteq> FLUX_PID_INVALID then sint pid else status_code FLUX_ERR_GENERAL)
               (s\<lparr>y_kernel := k1, y_heap := h1\<rparr>) [])
      else if num = 101 then in_kernel s (flux_yield k)
      else if num = 102 then (case flux_exit k of None \<Rightarrow> Panics | Some r \<Rightarrow> in_kernel s r)
      else if num = 103 then
        (let target = ucast arg0 in
         if \<not> syscall_validate_pid k target then done_with s FLUX_ERR_NOTFOUND
         else in_kernel s (flux_kill k target))
      else if num = 104 then
        (let target = ucast arg0 in
         if \<not> syscall_validate_pid k target then done_with s FLUX_ERR_NOTFOUND
         else in_kernel s (FLUX_OK,
           case flux_get_pcb k (flux_getpid k) of None \<Rightarrow> k
           | Some j \<Rightarrow> upd_pcb j (\<lambda>p. p\<lparr>p_state := PROC_BLOCKED, p_waiting_for := target\<rparr>) k))
      else if num = 105 then
        Returns (status_code FLUX_OK) s (if arg0 \<noteq> 0 then [(arg0, le_bytes 4 (ucast (flux_getpid k)))] else [])
      else done_with s FLUX_ERR_INVALID)"

text \<open>The block is handed out through \<open>arg0\<close>, which is also the size.\<close>

definition alloc_syscall :: "u64 \<Rightarrow> u64 \<Rightarrow> sys \<Rightarrow> outcome" where
  "alloc_syscall arg0 arg1 s =
     (if arg0 = 0 then done_with s FLUX_ERR_INVALID
      else case flux_alloc (k_current_pid (y_kernel s)) arg0 (ucast arg1) (y_heap s) of
        None \<Rightarrow> Undefined
      | Some (None, h) \<Rightarrow> Returns (status_code FLUX_ERR_NOMEM) (s\<lparr>y_heap := h\<rparr>) []
      | Some (Some p, h) \<Rightarrow>
          Returns (status_code FLUX_OK) (s\<lparr>y_heap := h\<rparr>) [(arg0, le_bytes 8 (addr_of h p))])"

definition free_syscall :: "u64 \<Rightarrow> sys \<Rightarrow> outcome" where
  "free_syscall arg0 s =
     (if \<not> syscall_validate_ptr arg0 then done_with s FLUX_ERR_INVALID
      else in_heap s (flux_free (Some (heap_offset (y_heap s) arg0)) (y_heap s)))"

definition handle_memory_syscall :: "int \<Rightarrow> u64 \<Rightarrow> u64 \<Rightarrow> u64 \<Rightarrow> sys \<Rightarrow> outcome" where
  "handle_memory_syscall num arg0 arg1 arg2 s =
     (if num = 200 then alloc_syscall arg0 arg1 s
      else if num = 201 then free_syscall arg0 s
      else if num = 202 then alloc_syscall arg0 arg1 s
      else if num = 203 then free_syscall arg0 s
      else if num = 204 then
        (case flux_mem_protect arg0 arg1 (ucast arg2) (y_heap s) of
           (st, h) \<Rightarrow> Returns (status_code st) (s\<lparr>y_heap := h\<rparr>) [])
      else done_with s FLUX_ERR_INVALID)"

definition handle_ipc_syscall ::
  "platform \<Rightarrow> (u64 \<Rightarrow> u8) \<Rightarrow> int \<Rightarrow> u64 \<Rightarrow> u64 \<Rightarrow> u64 \<Rightarrow> u64 \<Rightarrow> sys \<Rightarrow> outcome" where
  "handle_ipc_syscall pf mem num arg0 arg1 arg2 arg3 s =
     (let k = y_kernel s in
      if num = 300 then
        (case flux_a2a_send k (ucast arg0) (nullable arg1 (mem_bytes mem arg1 (unat arg2))) arg2 of
           UB _ \<Rightarrow> Undefined | Val r \<Rightarrow> in_kernel s r)
      else if num = 301 then
        (let room = peek64 mem arg2 in
         case flux_a2a_recv (rounds pf) (meanwhile pf) k (nullable arg0 (peek32 mem arg0))
             (nullable arg1 (mem_bytes mem arg1 (unat room))) (nullable arg2 room) arg3 of
           UB _ \<Rightarrow> Undefined
         | Val (None, k1) \<Rightarrow> Waits (s\<lparr>y_kernel := k1\<rparr>)
         | Val (Some (Failed st), k1) \<Rightarrow> in_kernel s (st, k1)
         | Val (Some (Received from_pid bs n), k1) \<Rightarrow>
             Returns (status_code FLUX_OK) (s\<lparr>y_kernel := k1\<rparr>)
               ([(arg1, bs), (arg2, le_bytes 8 n)]
                @ (case from_pid of None \<Rightarrow> [] | Some p \<Rightarrow> [(arg0, le_bytes 4 (ucast p))])))
      else if num = 302 then
        (case flux_a2a_broadcast k (nullable arg0 (mem_bytes mem arg0 (unat arg1))) arg1 of
           UB _ \<Rightarrow> Undefined | Val r \<Rightarrow> in_kernel s r)
      else if num = 303 then done_with s FLUX_OK
      else done_with s FLUX_ERR_INVALID)"

definition handle_bytecode_syscall :: "(u64 \<Rightarrow> u8) \<Rightarrow> int \<Rightarrow> u64 \<Rightarrow> u64 \<Rightarrow> u64 \<Rightarrow> sys \<Rightarrow> outcome" where
  "handle_bytecode_syscall mem num arg0 arg1 arg2 s =
     (let k = y_kernel s; pid = ucast arg0 in
      if num = 400 then flux_bc_load mem pid arg1 arg2 s
      else if num = 401 then flux_bc_exec pid s
      else if num = 402 then
        (if \<not> syscall_validate_pid k pid then done_with s FLUX_ERR_NOTFOUND
         else case flux_get_pcb k pid of None \<Rightarrow> done_with s FLUX_ERR_INVALID
           | Some j \<Rightarrow>
               if \<not> p_bc_active (k_pcbs k j) then done_with s FLUX_ERR_INVALID
               else Returns (sint (ucast (p_bc_pc (k_pcbs k j)) :: u32)) s [])
      else if num = 403 then flux_bc_dump mem pid arg1 arg2 s
      else done_with s FLUX_ERR_INVALID)"

definition handle_compiler_syscall ::
  "(u64 \<Rightarrow> u8) \<Rightarrow> int \<Rightarrow> u64 \<Rightarrow> u64 \<Rightarrow> u64 \<Rightarrow> u64 \<Rightarrow> sys \<Rightarrow> outcome" where
  "handle_compiler_syscall mem num arg0 arg1 arg2 arg3 s =
     (let k = y_kernel s in
      if num = 500 then
        (if \<not> syscall_check_cap k FLUX_CAP_COMPILE then done_with s FLUX_ERR_DENIED
         else flux_compile_source arg2 arg3 s)
      else if num = 501 then
        (if \<not> syscall_check_cap k FLUX_CAP_COMPILE then done_with s FLUX_ERR_DENIED
         else if arg0 = 0 \<or> arg1 = 0 \<or> arg2 = 0 then done_with s FLUX_ERR_INVALID
         else Returns (status_code FLUX_OK) s [(arg1, mem_bytes mem arg0 (unat arg2))])
      else if num = 502 then
        (if \<not> syscall_check_cap k (FLUX_CAP_COMPILE OR FLUX_CAP_SUPERVISOR) then done_with s FLUX_ERR_DENIED
         else flux_devcode arg1 arg2 s)
      else done_with s FLUX_ERR_INVALID)"

text \<open>The characters read, up to a carriage return or newline or the length as a C \<open>int\<close>.\<close>

fun read_line :: "(nat \<Rightarrow> u8) \<Rightarrow> nat \<Rightarrow> nat \<Rightarrow> u8 list" where
  "read_line getc i 0 = []"
| "read_line getc i (Suc n) =
     (if getc i = 0x0D \<or> getc i = 0x0A then [getc i] else getc i # read_line getc (Suc i) n)"

definition handle_io_syscall :: "platform \<Rightarrow> (u64 \<Rightarrow> u8) \<Rightarrow> int \<Rightarrow> u64 \<Rightarrow> u64 \<Rightarrow> sys \<Rightarrow> outcome" where
  "handle_io_syscall pf mem num arg0 arg1 s =
     (let k = y_kernel s in
      if num = 600 then
        (if \<not> syscall_check_cap k FLUX_CAP_IO_READ then done_with s FLUX_ERR_DENIED
         else if arg0 = 0 \<or> arg1 = 0 \<or> peek64 mem arg1 = 0 then done_with s FLUX_ERR_INVALID
         else case hal_getc pf of None \<Rightarrow> done_with s FLUX_ERR_GENERAL
           | Some getc \<Rightarrow>
               let line = read_line getc 0 (nat (sint (ucast (peek64 mem arg1) :: u32)))
               in Returns (status_code FLUX_OK) s
                    [(arg0, line), (arg1, le_bytes 8 (of_nat (length line)))])
      else if num = 601 then
        (if \<not> syscall_check_cap k FLUX_CAP_IO_WRITE then done_with s FLUX_ERR_DENIED
         else if arg0 = 0 \<or> arg1 = 0 then done_with s FLUX_ERR_INVALID
         else done_with s (if hal_puts pf then FLUX_OK else FLUX_ERR_GENERAL))
      else if num = 602 then done_with s FLUX_OK
      else if num = 603 \<or> num = 604 then done_with s FLUX_ERR_GENERAL
      else done_with s FLUX_ERR_INVALID)"

definition handle_hw_syscall :: "platform \<Rightarrow> int \<Rightarrow> u64 \<Rightarrow> u64 \<Rightarrow> sys \<Rightarrow> outcome" where
  "handle_hw_syscall pf num arg0 arg1 s =
     (if num = 700 then
        (if arg0 = 0 \<or> arg1 = 0 then done_with s FLUX_ERR_INVALID
         else case hal_hw_info pf of
           Some f \<Rightarrow> Returns (fst (f arg1)) s [(arg0, snd (f arg1))]
         | None \<Rightarrow> Returns (status_code FLUX_OK) s [(arg0, hal_basic_info pf arg1)])
      else if num = 701 then
        (if \<not> syscall_check_cap (y_kernel s) FLUX_CAP_HARDWARE then done_with s FLUX_ERR_DENIED
         else case hal_hw_config pf of
           Some f \<Rightarrow> Returns (fst (f arg1)) s [(arg0, snd (f arg1))]
         | None \<Rightarrow> done_with s FLUX_ERR_GENERAL)
      else done_with s FLUX_ERR_INVALID)"

definition handle_info_syscall :: "platform \<Rightarrow> int \<Rightarrow> u64 \<Rightarrow> sys \<Rightarrow> outcome" where
  "handle_info_syscall pf num arg0 s =
     (if num = 800 then
        Returns (status_code FLUX_OK) s (if arg0 \<noteq> 0 then [(arg0, le_bytes 8 (info_string pf))] else [])
      else if num = 801 then done_with s FLUX_OK
      else done_with s FLUX_ERR_INVALID)"

subsection \<open>Dispatch\<close>

definition flux_syscall_dispatch ::
  "platform \<Rightarrow> (u64 \<Rightarrow> u8) \<Rightarrow> int \<Rightarrow> u64 \<Rightarrow> u64 \<Rightarrow> u64 \<Rightarrow> u64 \<Rightarrow> sys \<Rightarrow> outcome" where
  "flux_syscall_dispatch pf mem num arg0 arg1 arg2 arg3 s0 =
     (let s = s0\<lparr>y_syscall_count := y_syscall_count s0 + 1\<rparr>; category = num div 100 in
      if num < 100 \<or> 899 < num then done_with s FLUX_ERR_INVALID
      else if category = 1 then handle_process_syscall mem num arg0 arg1 arg2 arg3 s
      else if category = 2 then handle_memory_syscall num arg0 arg1 arg2 s
      else if category = 3 then handle_ipc_syscall pf mem num arg0 arg1 arg2 arg3 s
      else if category = 4 then handle_bytecode_syscall mem num arg0 arg1 arg2 s
      else if category = 5 then handle_compiler_syscall mem num arg0 arg1 arg2 arg3 s
      else if category = 6 then handle_io_syscall pf mem num arg0 arg1 s
      else if category = 7 then handle_hw_syscall pf num arg0 arg1 s
      else if category = 8 then handle_info_syscall pf num arg0 s
      else done_with s FLUX_ERR_INVALID)"

definition flux_syscall_name :: "int \<Rightarrow> string" where
  "flux_syscall_name num = syscall_lookup_name num"

definition flux_syscall_count :: "sys \<Rightarrow> u32" where
  "flux_syscall_count s = y_syscall_count s"

text \<open>The kernel as \<open>init_subsystems\<close> leaves it.\<close>

definition boot_sys :: "u64 \<Rightarrow> sys" where
  "boot_sys base =
     \<lparr>y_kernel = snd (flux_sched_init (snd (flux_ipc_init (snd (flux_proc_init boot_kernel))))),
      y_heap = snd (flux_mem_init (boot_heap base)), y_syscall_count = 0, y_compile_count = 0\<rparr>"

end
