(* ===== verification/FluxSystem.thy ===== *)
theory FluxSystem
  imports FluxProcProps FluxHeapClaims FluxSyscall
begin

section \<open>The kernel as a whole\<close>

text \<open>
  The invariants of the scheduler, of message passing, of the process table and of the heap, kept
  together by every system call and every turn of the scheduler. \<open>sys_step\<close> is one of either, and
  \<open>sys_reach\<close> the states after booting and any number of them, in any order and with any arguments.
\<close>

definition kernel_ok :: "kernel \<Rightarrow> bool" where
  "kernel_ok k \<longleftrightarrow> sched_ok k \<and> ipc_ok k \<and> proc_ok k"

definition sys_ok :: "sys \<Rightarrow> bool" where
  "sys_ok s \<longleftrightarrow> kernel_ok (y_kernel s) \<and> heap_ok (y_heap s)"

subsection \<open>Elementary updates\<close>

lemma ipc_ok_fields [simp]:
  "ipc_ok (upd_pcb j f k) = ipc_ok k" "ipc_ok (upd_stats g k) = ipc_ok k" "ipc_ok (s_stats_update f1 k) = ipc_ok k"
  "ipc_ok (s_current_update f2 k) = ipc_ok k" "ipc_ok (k_tick_update f3 k) = ipc_ok k"
  "ipc_ok (k_current_pid_update f2 k) = ipc_ok k" "ipc_ok (i_msg_id_update f2 k) = ipc_ok k"
  by (simp_all add: ipc_ok_def upd_stats_def)

lemma kernel_ok_fields [simp]:
  "kernel_ok (upd_stats g k) = kernel_ok k" "kernel_ok (s_stats_update f1 k) = kernel_ok k"
  "kernel_ok (s_current_update f2 k) = kernel_ok k" "kernel_ok (k_tick_update f3 k) = kernel_ok k"
  "kernel_ok (k_current_pid_update f2 k) = kernel_ok k" "kernel_ok (i_msg_id_update f2 k) = kernel_ok k"
  by (simp_all add: kernel_ok_def sched_ok_def upd_stats_def ipc_ok_def proc_ok_fields [unfolded upd_stats_def])

lemma ok_enqueue [inv_rules]:
  assumes "kernel_ok k"
  shows "kernel_ok (snd (flux_sched_enqueue k pid))"
proof -
  have "sched_ok (snd (flux_sched_enqueue k pid))"
    using enqueue_cases [of k pid] assms by (auto simp: kernel_ok_def split: prod.splits)
  then show ?thesis
    using assms same_table_ok [OF enqueue_table, of k pid] by (simp add: kernel_ok_def ipc_ok_def)
qed

lemma ok_upd_pcb:
  assumes "kernel_ok k" "flux_get_pcb k pid = Some j" "\<And>p. p_state p \<noteq> PROC_UNUSED \<Longrightarrow> p_state (f p) \<noteq> PROC_UNUSED"
    and "\<And>p. p_is_agent (f p) = p_is_agent p" "\<And>p. p_pid (f p) = p_pid p"
  shows "kernel_ok (upd_pcb j f k)"
proof -
  have "p_state (k_pcbs k j) \<noteq> PROC_UNUSED" using get_pcb_Some [OF assms(2)] by simp
  then have "same_table k (upd_pcb j f k)" using assms(3-5) by (simp add: same_table_def)
  then show ?thesis using assms(1) same_table_ok by (simp add: kernel_ok_def)
qed

lemma ok_upd_queue:
  assumes "kernel_ok k" "queue_ok (i_queues k i) \<Longrightarrow> queue_ok (f (i_queues k i))"
  shows "kernel_ok (upd_queue i f k)"
  using assms by (auto simp: kernel_ok_def ipc_ok_def sched_ok_def upd_queue_def
      proc_ok_fields(7) [unfolded upd_queue_def])

subsection \<open>Scheduling\<close>

lemma dequeue_queues [simp]: "i_queues (snd (flux_sched_dequeue k)) = i_queues k"
proof -
  have e: "i_queues (age_entry n i k) = i_queues k" for n i k
    by (auto simp: age_entry_def upd_pcb_def Let_def split: option.split)
  have "i_queues (fold (age_entry n) xs k) = i_queues k" for n xs k
    by (induction xs arbitrary: k) (simp_all add: e)
  then have "i_queues (sched_age_priorities k) = i_queues k" for k
    by (simp add: sched_age_priorities_def Let_def)
  then show ?thesis
    by (auto simp: flux_sched_dequeue_def sched_take_def Let_def split: option.split)
qed

lemma ok_dequeue [inv_rules]:
  assumes "kernel_ok k"
  shows "kernel_ok (snd (flux_sched_dequeue k))"
proof -
  have "sched_ok (snd (flux_sched_dequeue k))"
    using dequeue_cases [of k] assms
    by (cases "s_count k = 0")
      (auto simp: kernel_ok_def flux_sched_dequeue_def sched_queue_empty_def split: prod.splits)
  then show ?thesis
    using assms same_table_ok [OF dequeue_table, of k] by (simp add: kernel_ok_def ipc_ok_def)
qed

lemma ok_switch_next [inv_rules]:
  assumes "kernel_ok k"
  shows "kernel_ok (switch_next k)"
proof -
  obtain p k1 where d: "flux_sched_dequeue k = (p, k1)" by (cases "flux_sched_dequeue k")
  then have "kernel_ok k1" using ok_dequeue [OF assms] by simp
  then show ?thesis by (simp add: switch_next_def d Let_def split: option.split)
qed

lemma ok_requeue [inv_rules]:
  assumes "kernel_ok k"
  shows "kernel_ok (requeue_previous p k)"
  using assms by (auto simp: requeue_previous_def Let_def intro!: ok_enqueue split: option.split)

lemma ok_iteration [inv_rules]:
  assumes "kernel_ok k"
  shows "kernel_ok (sched_iteration k)"
  using assms
  by (auto simp: sched_iteration_def Let_def intro!: ok_switch_next ok_requeue ok_upd_pcb split: option.split)

lemma ok_yield_current [inv_rules]: "kernel_ok k \<Longrightarrow> kernel_ok (flux_sched_yield_current k)"
  by (simp add: flux_sched_yield_current_def)

subsection \<open>Processes\<close>

lemma kernel_ok_counters [simp]:
  "kernel_ok (k_num_processes_update f k) = kernel_ok k" "kernel_ok (k_next_pid_update f k) = kernel_ok k"
  by (simp_all add: kernel_ok_def sched_ok_def ipc_ok_def)

lemma ok_cleanup:
  assumes "kernel_ok k" "i \<in> live k"
  shows "kernel_ok (proc_cleanup i k)"
proof -
  have "sched_ok (proc_cleanup i k) = sched_ok k" "ipc_ok (proc_cleanup i k) = ipc_ok k"
    by (simp_all add: proc_cleanup_def Let_def sched_ok_def ipc_ok_def)
  then show ?thesis using assms cleanup_ok(1) by (simp add: kernel_ok_def)
qed

lemma live_slot:
  assumes "pid \<noteq> 0" "\<not> (proc_pid_to_index pid < 0 \<or> p_state (k_pcbs k (nat (proc_pid_to_index pid))) = PROC_UNUSED)"
  shows "flux_get_pcb k pid = Some (nat (proc_pid_to_index pid))" "nat (proc_pid_to_index pid) \<in> live k"
proof -
  show g: "flux_get_pcb k pid = Some (nat (proc_pid_to_index pid))"
    using assms by (simp add: flux_get_pcb_def Let_def)
  show "nat (proc_pid_to_index pid) \<in> live k" using get_pcb_live [OF g] .
qed

lemma ok_kill [inv_rules]: "kernel_ok k \<Longrightarrow> kernel_ok (snd (flux_kill k pid))"
  using live_slot(2) [of pid k] by (auto simp: flux_kill_def Let_def intro: ok_cleanup)

lemma ok_wake_parent:
  assumes "kernel_ok k" "i \<in> live k"
  shows "kernel_ok (wake_parent pid parent k)"
proof -
  have "sched_ok (wake_parent pid parent k) = sched_ok k" "ipc_ok (wake_parent pid parent k) = ipc_ok k"
    by (simp_all add: wake_parent_def Let_def)
  then show ?thesis
    using assms(1) same_table_ok [OF wake_parent_table [OF assms(2)]] by (simp add: kernel_ok_def)
qed

lemma ok_exit [inv_rules]:
  assumes "kernel_ok k" "flux_exit k = Some (st, k')"
  shows "kernel_ok k'"
proof -
  let ?pid = "k_current_pid k" and ?i = "nat (proc_pid_to_index (k_current_pid k))"
  show ?thesis
  proof (cases "k' = k")
    case False
    then have c: "?pid \<noteq> 0" "\<not> (proc_pid_to_index ?pid < 0 \<or> p_state (k_pcbs k ?i) = PROC_UNUSED)"
      using assms(2) by (auto simp: flux_exit_def Let_def split: if_splits)
    let ?k1 = "upd_pcb ?i (\<lambda>p. p\<lparr>p_state := PROC_ZOMBIE\<rparr>) k"
    let ?k2 = "wake_parent ?pid (p_parent (k_pcbs ?k1 ?i)) ?k1"
    have k1: "kernel_ok ?k1" using ok_upd_pcb [OF assms(1) live_slot(1) [OF c]] by simp
    have l1: "?i \<in> live ?k1" using live_slot(2) [OF c] by (auto simp: live_def)
    then have "live ?k2 = live ?k1" by (rule same_table_live [OF wake_parent_table])
    then have "kernel_ok (proc_cleanup ?i ?k2)" using ok_cleanup [OF ok_wake_parent [OF k1 l1]] l1 by simp
    moreover have "k' = flux_sched_yield_current ((proc_cleanup ?i ?k2)
        \<lparr>k_num_processes := k_active_count (proc_cleanup ?i ?k2)\<rparr>)"
      using assms(2) False c by (auto simp: flux_exit_def Let_def split: if_splits)
    ultimately show ?thesis by (simp add: ok_yield_current)
  qed (use assms(1) in simp)
qed

lemma ok_yield [inv_rules]:
  assumes "kernel_ok k"
  shows "kernel_ok (snd (flux_yield k))"
proof -
  let ?i = "nat (proc_pid_to_index (k_current_pid k))"
  have "kernel_ok (upd_pcb ?i (\<lambda>p. p\<lparr>p_state := PROC_READY\<rparr>) k)"
    if "k_current_pid k \<noteq> 0" "\<not> proc_pid_to_index (k_current_pid k) < 0" "p_state (k_pcbs k ?i) = PROC_RUNNING"
    using ok_upd_pcb [OF assms live_slot(1)] that by simp
  then show ?thesis
    using assms by (auto simp: flux_yield_def Let_def intro: ok_enqueue ok_yield_current)
qed

lemma ok_spawn [inv_rules]:
  assumes "kernel_ok k" "heap_ok h" "flux_spawn k h name entry n a = Some (pid, k', h')"
  shows "kernel_ok k' \<and> heap_ok h'"
proof (cases "pid = 0")
  case False
  obtain i k1 stack where s: "flux_alloc (k_current_pid k) (spawn_stack_size n) (if a then 5 else 1) h = Some (Some stack, h')"
    "k' = snd (flux_sched_enqueue k1 pid)" "sched_ok k1 = sched_ok k" "i_queues k1 = i_queues k" "proc_ok k'"
    using spawn_ok [OF _ assms(3) False] assms(1) unfolding kernel_ok_def by metis
  have "sched_ok k'" unfolding s(2)
    using enqueue_cases [of k1 pid] assms(1) s(3) by (auto simp: kernel_ok_def split: prod.splits)
  moreover have "ipc_ok k'" using assms(1) s(4) by (simp add: kernel_ok_def ipc_ok_def s(2))
  ultimately show ?thesis using s(5) alloc_ok [OF assms(2) s(1)] by (simp add: kernel_ok_def)
next
  case True
  obtain p k1 where c: "choose_pid k = (p, k1)" by (cases "choose_pid k")
  have "kernel_ok k1"
    using assms(1) choose_pid_cases(1) [OF c] kernel_ok_counters(2) by metis
  moreover have "p \<noteq> 0 \<or> k' = k1 \<or> k' = k"
    using assms(3) by (auto simp: flux_spawn_def c Let_def split: if_splits)
  ultimately show ?thesis
    using assms True alloc_ok [OF assms(2)]
    by (auto simp: flux_spawn_def c Let_def bind_eq_Some_conv split: if_splits option.splits)
qed

subsection \<open>Message passing\<close>

lemma ok_wake_target:
  assumes "kernel_ok k" "flux_get_pcb k target = Some j"
  shows "kernel_ok (wake_target target j k)"
  using ok_upd_pcb [OF assms, of "\<lambda>p. p\<lparr>p_state := PROC_READY, p_waiting_for := FLUX_PID_INVALID\<rparr>"] assms(1)
  by (auto simp: wake_target_def intro: ok_enqueue)

lemma queue_ok_put:
  assumes "queue_ok q"
  shows "queue_ok (snd (ipc_enqueue_message q m))"
proof (cases "q_count q < 64")
  case True
  then show ?thesis using queue_put_messages [OF assms True] by (simp add: queue_put_def)
qed (use assms in \<open>simp add: ipc_enqueue_message_def ipc_queue_is_full_def not_less\<close>)

lemma queue_ok_remove:
  assumes "queue_ok q"
  shows "queue_ok (snd (ipc_remove_message q (int i)))"
proof (cases "i < q_count q")
  case True
  then show ?thesis using queue_remove_messages [OF assms True] by (simp add: queue_remove_def)
qed (use assms in \<open>simp add: ipc_remove_message_def\<close>)

lemma ok_send [inv_rules]:
  assumes "kernel_ok k" "flux_a2a_send k target msg len = Val (st, k')"
  shows "kernel_ok k'"
proof (cases "k' = k \<or> k' = upd_stats (\<lambda>s. s\<lparr>is_capability_denied := is_capability_denied s + 1\<rparr>) k
    \<or> k' = upd_stats (\<lambda>s. s\<lparr>is_queue_full := is_queue_full s + 1\<rparr>) k")
  case False
  obtain bytes where "msg = Some bytes" using assms(2) False by (cases msg) (auto simp: flux_a2a_send_def)
  with assms(2) False obtain tj ti where t: "flux_get_pcb k target = Some tj" "ipc_get_queue target = Some ti"
    by (auto simp: flux_a2a_send_def Let_def split: option.splits if_splits)
  let ?k1 = "k\<lparr>i_msg_id := i_msg_id k + 1\<rparr>"
  let ?m = "build_message ?k1 (i_msg_id k) (flux_getpid k) target bytes len"
  obtain st1 q where e: "ipc_enqueue_message (i_queues k ti) ?m = (st1, q)"
    by (cases "ipc_enqueue_message (i_queues k ti) ?m")
  let ?k2 = "upd_queue ti (\<lambda>_. q) ?k1"
  let ?k3 = "upd_stats (\<lambda>s. s\<lparr>is_total_sent := is_total_sent s + 1\<rparr>) ?k2"
  let ?k4 = "case ipc_get_queue (flux_getpid k) of None \<Rightarrow> ?k3
    | Some si \<Rightarrow> upd_queue si (\<lambda>q. q\<lparr>q_total_sent := q_total_sent q + 1\<rparr>) ?k3"
  have k2: "kernel_ok ?k2"
    using assms(1) queue_ok_put [of "i_queues k ti" ?m] by (intro ok_upd_queue) (simp_all add: e)
  then have "kernel_ok ?k4" by (auto intro: ok_upd_queue split: option.split)
  moreover have "flux_get_pcb ?k4 target = Some tj" using t(1) by (simp split: option.split)
  ultimately have "kernel_ok (wake_target target tj ?k4)" by (rule ok_wake_target)
  moreover have "k' = ?k2 \<or> k' = wake_target target tj ?k4"
    using assms(2) False t e \<open>msg = Some bytes\<close>
    by (auto simp: flux_a2a_send_def Let_def ipc_alloc_msg_id_def split: if_splits)
  ultimately show ?thesis using k2 by blast
qed (use assms(1) in auto)

lemma ok_recv_message:
  assumes "kernel_ok k" "recv_message k qi i sender buf len = Val (r, k')"
  shows "kernel_ok k' \<and> (\<forall>pid. flux_get_pcb k' pid = flux_get_pcb k pid)"
proof -
  have "k' = upd_stats (\<lambda>s. s\<lparr>is_total_recv := is_total_recv s + 1\<rparr>)
      (upd_queue qi (\<lambda>q. snd (ipc_remove_message q (int i))) k)"
    using assms(2) by (simp add: recv_message_def Let_def split: if_splits)
  moreover have "kernel_ok (upd_queue qi (\<lambda>q. snd (ipc_remove_message q (int i))) k)"
    using assms(1) queue_ok_remove by (intro ok_upd_queue)
  ultimately show ?thesis by simp
qed

lemma cmap_Val: "cmap f x = Val y \<longleftrightarrow> (\<exists>z. x = Val z \<and> y = f z)"
  by (cases x) auto

lemma cbind_Val: "cbind x f = Val y \<longleftrightarrow> (\<exists>z. x = Val z \<and> f z = Val y)"
  by (cases x) auto

lemma ok_recv_begin:
  assumes "kernel_ok k" "recv_begin k sender buf len timeout = Val (r, k')"
  shows "kernel_ok k'"
proof -
  have "kernel_ok (upd_pcb j (\<lambda>p. p\<lparr>p_state := PROC_BLOCKED, p_waiting_for := w\<rparr>) k)"
    if "flux_get_pcb k pid = Some j" for j pid w
    using ok_upd_pcb [OF assms(1) that] by simp
  then show ?thesis
    using assms ok_recv_message [OF assms(1)]
    by (auto simp: recv_begin_def Let_def cmap_Val split: option.splits if_splits)
qed

lemma ok_recv_poll:
  assumes "kernel_ok k" "\<And>j. mj = Some j \<Longrightarrow> p_state (k_pcbs k j) \<noteq> PROC_UNUSED"
    and "recv_poll my mj qi start sender buf len timeout k = Val (r, k')"
  shows "kernel_ok k'"
proof -
  have upd: "kernel_ok (upd_pcb j f k1)"
    if "kernel_ok k1" "p_state (k_pcbs k1 j) \<noteq> PROC_UNUSED" "\<And>p. p_state (f p) \<noteq> PROC_UNUSED"
      "\<And>p. p_is_agent (f p) = p_is_agent p" "\<And>p. p_pid (f p) = p_pid p" for j f k1
  proof -
    have "same_table k1 (upd_pcb j f k1)" using that(2-5) by (simp add: same_table_def)
    then show ?thesis using that(1) same_table_ok by (simp add: kernel_ok_def)
  qed
  show ?thesis
  proof (cases "timeout \<noteq> FLUX_IPC_TIMEOUT_INFINITE \<and> timeout \<le> ipc_current_tick k - start")
    case True
    then show ?thesis
      using assms upd by (auto simp: recv_poll_def Let_def intro!: ok_enqueue upd split: option.splits if_splits)
  next
    case False
    then consider "k' = k" | i r' k1 where "recv_message k qi i sender buf len = Val (r', k1)"
      "k' = (case mj of None \<Rightarrow> k1
         | Some j \<Rightarrow> upd_pcb j (\<lambda>p. p\<lparr>p_state := PROC_RUNNING, p_waiting_for := FLUX_PID_INVALID\<rparr>) k1)"
      using assms(3) by (auto simp: recv_poll_def Let_def cmap_Val split: option.splits)
    then show ?thesis
    proof cases
      case 2
      have "kernel_ok k1" "k_pcbs k1 = k_pcbs k"
        using ok_recv_message [OF assms(1) 2(1)] 2(1) by (auto simp: recv_message_def Let_def split: if_splits)
      then show ?thesis using 2(2) assms(2) by (auto intro!: upd split: option.split)
    qed (use assms(1) in simp)
  qed
qed

text \<open>What happens between two rounds must leave the kernel well and the caller alive.\<close>

definition calm :: "(nat \<Rightarrow> kernel \<Rightarrow> kernel) \<Rightarrow> bool" where
  "calm env \<longleftrightarrow> (\<forall>n k. kernel_ok k \<longrightarrow> kernel_ok (env n k) \<and> live k \<subseteq> live (env n k))"

lemma recv_poll_same: "recv_poll my mj qi start sender buf len timeout k = Val (None, k') \<Longrightarrow> k' = k"
  by (auto simp: recv_poll_def Let_def cmap_Val split: option.splits if_splits)

lemma ok_recv_wait:
  "calm env \<Longrightarrow> kernel_ok k \<Longrightarrow> (\<And>j. mj = Some j \<Longrightarrow> j \<in> live k) \<Longrightarrow>
   recv_wait n env (recv_poll my mj qi start sender buf len timeout) k = Val (r, k') \<Longrightarrow> kernel_ok k'"
proof (induction n arbitrary: env k)
  case (Suc n)
  obtain r1 k1 where p: "recv_poll my mj qi start sender buf len timeout k = Val (r1, k1)"
    using Suc.prems(4) by (auto simp: cbind_Val)
  have l: "mj = Some j \<Longrightarrow> p_state (k_pcbs k j) \<noteq> PROC_UNUSED" for j using Suc.prems(3) by (auto simp: live_def)
  have k1: "kernel_ok k1" using ok_recv_poll [OF Suc.prems(2) l p] .
  show ?case
  proof (cases r1)
    case None
    have same: "k1 = k" using recv_poll_same p None by blast
    have "calm (env \<circ> Suc)" using Suc.prems(1) by (simp add: calm_def)
    moreover have "kernel_ok (env 0 k)" "live k \<subseteq> live (env 0 k)" using Suc.prems(1,2) by (auto simp: calm_def)
    moreover have "recv_wait n (env \<circ> Suc) (recv_poll my mj qi start sender buf len timeout) (env 0 k) = Val (r, k')"
      using Suc.prems(4) p None same by simp
    ultimately show ?thesis using Suc.IH Suc.prems(3) by (meson subsetD)
  qed (use Suc.prems(4) p k1 in simp)
qed simp

lemma recv_begin_waits:
  assumes "recv_begin k sender buf len timeout = Val (None, k')" "flux_get_pcb k (flux_getpid k) = Some j"
  shows "j \<in> live k'"
  using assms get_pcb_Some [OF assms(2)]
  by (auto simp: recv_begin_def Let_def cmap_Val live_def split: option.splits if_splits)

lemma ok_recv [inv_rules]:
  assumes "kernel_ok k" "calm env" "flux_a2a_recv n env k sender buf len timeout = Val (r, k')"
  shows "kernel_ok k'"
proof -
  obtain r1 k1 where b: "recv_begin k sender buf len timeout = Val (r1, k1)"
    using assms(3) by (auto simp: flux_a2a_recv_def cbind_Val)
  have k1: "kernel_ok k1" using ok_recv_begin [OF assms(1) b] .
  show ?thesis
  proof (cases r1)
    case None
    then have "k' = k1 \<or> (\<exists>qi b' l. recv_wait n env (recv_poll (flux_getpid k) (flux_get_pcb k (flux_getpid k)) qi
        (ipc_current_tick k1) sender b' l timeout) k1 = Val (r, k'))"
      using assms(3) b by (auto simp: flux_a2a_recv_def cbind_Val split: option.splits)
    then show ?thesis
      using k1 ok_recv_wait [OF assms(2) k1] recv_begin_waits [OF b [unfolded None]] by blast
  qed (use assms(3) b k1 in \<open>auto simp: flux_a2a_recv_def cbind_Val\<close>)
qed

lemma ok_deliver:
  assumes "kernel_ok (fst x)"
  shows "kernel_ok (fst (deliver_to sender m pid x))"
proof -
  obtain k d f where x: "x = (k, d, f)" by (cases x)
  have k: "kernel_ok k" using assms x by simp
  have drop: "kernel_ok (upd_queue i (\<lambda>q. q\<lparr>q_dropped := q_dropped q + 1\<rparr>) k)" for i
    using k by (intro ok_upd_queue) simp_all
  have put: "kernel_ok (upd_queue i (\<lambda>q. snd (ipc_enqueue_message q m)) k)" for i
    using k queue_ok_put by (intro ok_upd_queue)
  have wake: "kernel_ok (snd (flux_sched_enqueue (upd_pcb j (\<lambda>p. p\<lparr>p_state := PROC_READY\<rparr>)
      (upd_queue i (\<lambda>q. snd (ipc_enqueue_message q m)) k)) p))" if "flux_get_pcb k pid = Some j" for i j p
    using that by (intro ok_enqueue ok_upd_pcb [OF put, of _ pid]) simp_all
  show ?thesis
    using k drop put wake by (auto simp: x deliver_to_def Let_def split: option.split)
qed

lemma ok_broadcast [inv_rules]:
  assumes "kernel_ok k" "flux_a2a_broadcast k msg len = Val (st, k')"
  shows "kernel_ok k'"
proof -
  have f: "kernel_ok (fst x) \<Longrightarrow> kernel_ok (fst (fold (deliver_to sender m) ps x))" for sender m ps x
    by (induction ps arbitrary: x) (simp_all add: ok_deliver)
  have b: "kernel_ok (k\<lparr>i_broadcasts := g, i_broadcast_count := c\<rparr>) = kernel_ok k" for k g c
    by (simp add: kernel_ok_def sched_ok_def ipc_ok_def same_table_ok [of k "k\<lparr>i_broadcasts := g, i_broadcast_count := c\<rparr>"] same_table_def)
  show ?thesis
  proof (cases "k' = k \<or> k' = upd_stats (\<lambda>s. s\<lparr>is_capability_denied := is_capability_denied s + 1\<rparr>) k")
    case False
    then obtain bytes where bytes: "msg = Some bytes" using assms(2) by (cases msg) (auto simp: flux_a2a_broadcast_def)
    let ?k1 = "k\<lparr>i_msg_id := i_msg_id k + 1\<rparr>"
    let ?m = "build_message ?k1 (i_msg_id k) (flux_getpid k) 0 bytes len"
    obtain k2 d e where x: "fold (deliver_to (flux_getpid k) ?m) broadcast_pids (?k1, 0, 0) = (k2, d, e)"
      using prod_cases3 by blast
    have "kernel_ok k2" using f [of "(?k1, 0, 0)" "flux_getpid k" ?m broadcast_pids] assms(1) unfolding x by simp
    let ?k3 = "upd_stats (\<lambda>s. s\<lparr>is_total_broadcasts := is_total_broadcasts s + 1\<rparr>) k2"
    have "kernel_ok ?k3" using \<open>kernel_ok k2\<close> by simp
    then have "kernel_ok (if i_broadcast_count ?k3 < FLUX_IPC_MAX_BROADCAST_QUEUE
        then ?k3\<lparr>i_broadcasts := (i_broadcasts ?k3)(i_broadcast_count ?k3 :=
            \<lparr>be_msg = ?m, be_delivered = of_nat d, be_active = True\<rparr>),
          i_broadcast_count := i_broadcast_count ?k3 + 1\<rparr> else ?k3)" (is "kernel_ok ?end")
      by (simp only: b split: if_split) simp
    moreover have "k' = ?end"
    proof -
      have "len = 0 \<or> 4096 < unat len \<Longrightarrow> k' = k" "flux_getpid k = 0 \<Longrightarrow> k' = k"
        using assms(2) unfolding bytes by (auto simp: flux_a2a_broadcast_def Let_def split: if_splits)
      then have c: "\<not> (len = 0 \<or> 4096 < unat len)" "flux_getpid k \<noteq> 0" using False by blast+
      have d: "ipc_check_capability k (flux_getpid k)" "\<not> length bytes < unat len"
        using assms(2) False c unfolding bytes by (auto simp: flux_a2a_broadcast_def Let_def split: if_splits)
      show ?thesis
        using assms(2) c d unfolding bytes flux_a2a_broadcast_def Let_def ipc_alloc_msg_id_def prod.case option.case x
        by (simp only: if_False simp_thms cres.inject prod.inject)
    qed
    ultimately show ?thesis by (simp only:)
  qed (use assms(1) in auto)
qed

subsection \<open>System calls\<close>

definition outcome_ok :: "outcome \<Rightarrow> bool" where
  "outcome_ok r = (case r of Returns c s w \<Rightarrow> sys_ok s | Waits s \<Rightarrow> sys_ok s | _ \<Rightarrow> True)"

lemma outcome_ok_simps [simp]:
  "outcome_ok (Returns c s w) = sys_ok s" "outcome_ok (Waits s) = sys_ok s" "outcome_ok Panics" "outcome_ok Undefined"
  "outcome_ok (done_with s st) = sys_ok s"
  by (simp_all add: outcome_ok_def done_with_def)

lemma sys_ok_simps [simp]:
  "sys_ok (s\<lparr>y_kernel := k\<rparr>) \<longleftrightarrow> kernel_ok k \<and> heap_ok (y_heap s)"
  "sys_ok (s\<lparr>y_heap := h\<rparr>) \<longleftrightarrow> kernel_ok (y_kernel s) \<and> heap_ok h"
  "sys_ok (s\<lparr>y_kernel := k, y_heap := h\<rparr>) \<longleftrightarrow> kernel_ok k \<and> heap_ok h"
  "sys_ok (s\<lparr>y_heap := h, y_kernel := k\<rparr>) \<longleftrightarrow> kernel_ok k \<and> heap_ok h"
  "sys_ok (y_syscall_count_update f s) = sys_ok s" "sys_ok (y_compile_count_update f s) = sys_ok s"
  by (simp_all add: sys_ok_def)

lemma outcome_in_kernel [simp]: "outcome_ok (in_kernel s r) \<longleftrightarrow> kernel_ok (snd r) \<and> heap_ok (y_heap s)"
  by (simp add: in_kernel_def)

lemma ok_block:
  assumes "kernel_ok k" "flux_get_pcb k pid = Some j"
  shows "kernel_ok (upd_pcb j (\<lambda>p. p\<lparr>p_state := PROC_BLOCKED, p_waiting_for := w\<rparr>) k)"
  using ok_upd_pcb [OF assms] by simp

lemma process_syscall_ok:
  assumes "sys_ok s"
  shows "outcome_ok (handle_process_syscall mem num a0 a1 a2 a3 s)"
proof -
  have k: "kernel_ok (y_kernel s)" "heap_ok (y_heap s)" using assms by (simp_all add: sys_ok_def)
  show ?thesis
    using assms k ok_spawn [OF k] ok_exit [OF k(1)] ok_yield [OF k(1)] ok_kill [OF k(1)] ok_block [OF k(1)]
    by (auto simp: handle_process_syscall_def Let_def split: option.split prod.split)
qed

lemma memory_syscall_ok:
  assumes "sys_ok s"
  shows "outcome_ok (handle_memory_syscall num a0 a1 a2 s)"
proof -
  have k: "kernel_ok (y_kernel s)" "heap_ok (y_heap s)" using assms by (simp_all add: sys_ok_def)
  have a: "outcome_ok (alloc_syscall a0 a1 s)"
    using assms k alloc_ok [OF k(2)] by (auto simp: alloc_syscall_def split: option.split)
  have f: "outcome_ok (free_syscall a0 s)"
    using assms k free_ok [OF k(2)] by (auto simp: free_syscall_def in_heap_def split: option.split)
  have "heap_ok (snd (flux_mem_protect a0 a1 (ucast a2) (y_heap s)))"
    using k(2) rep_cong(1) [OF protect_frame(1,2)] by (auto simp: heap_ok_def protect_frame)
  then show ?thesis
    using assms k a f by (auto simp: handle_memory_syscall_def split: prod.split)
qed

lemma ipc_syscall_ok:
  assumes "sys_ok s" "calm (meanwhile pf)"
  shows "outcome_ok (handle_ipc_syscall pf mem num a0 a1 a2 a3 s)"
proof -
  have k: "kernel_ok (y_kernel s)" "heap_ok (y_heap s)" using assms(1) by (simp_all add: sys_ok_def)
  show ?thesis
    using assms k ok_send [OF k(1)] ok_recv [OF k(1) assms(2)] ok_broadcast [OF k(1)]
    by (auto simp: handle_ipc_syscall_def Let_def split: cres.split option.split recv_outcome.split)
qed

lemma write_data_ok [simp]: "heap_ok (write_data p bs h) = heap_ok h"
  using rep_cong(1) [of "write_data p bs h" h] by (simp add: heap_ok_def write_data_def)

lemma bytecode_syscall_ok:
  assumes "sys_ok s"
  shows "outcome_ok (handle_bytecode_syscall mem num a0 a1 a2 s)"
proof -
  have k: "kernel_ok (y_kernel s)" "heap_ok (y_heap s)" using assms by (simp_all add: sys_ok_def)
  have "outcome_ok (flux_bc_load mem pid a l s)" for pid a l
    using assms k alloc_ok [OF k(2)]
    by (auto simp: flux_bc_load_def intro!: ok_upd_pcb [OF k(1)] split: option.split)
  moreover have "outcome_ok (flux_bc_exec pid s)" for pid
    using assms k by (auto simp: flux_bc_exec_def intro!: ok_upd_pcb [OF k(1)] split: option.split)
  moreover have "outcome_ok (flux_bc_dump mem pid a l s)" for pid a l
    using assms by (auto simp: flux_bc_dump_def Let_def split: option.split)
  ultimately show ?thesis
    using assms by (auto simp: handle_bytecode_syscall_def Let_def split: option.split)
qed

lemma other_syscalls_ok:
  assumes "sys_ok s"
  shows "outcome_ok (handle_compiler_syscall mem num a0 a1 a2 a3 s)" "outcome_ok (handle_io_syscall pf mem num a0 a1 s)"
    "outcome_ok (handle_hw_syscall pf num a0 a1 s)" "outcome_ok (handle_info_syscall pf num a0 s)"
  using assms
  by (auto simp: handle_compiler_syscall_def handle_io_syscall_def handle_hw_syscall_def handle_info_syscall_def
      flux_compile_source_def flux_devcode_def Let_def split: option.split)

lemma dispatch_ok:
  assumes "sys_ok s" "calm (meanwhile pf)"
  shows "outcome_ok (flux_syscall_dispatch pf mem num a0 a1 a2 a3 s)"
proof -
  let ?s = "s\<lparr>y_syscall_count := y_syscall_count s + 1\<rparr>"
  have s: "sys_ok ?s" using assms(1) by simp
  show ?thesis
    unfolding flux_syscall_dispatch_def Let_def
    using s process_syscall_ok [OF s] memory_syscall_ok [OF s] ipc_syscall_ok [OF s assms(2)]
      bytecode_syscall_ok [OF s] other_syscalls_ok [OF s]
    by simp
qed

subsection \<open>Reachable states\<close>

inductive sys_step :: "sys \<Rightarrow> sys \<Rightarrow> bool" where
  step_call: "calm (meanwhile pf) \<Longrightarrow> flux_syscall_dispatch pf mem num a0 a1 a2 a3 s = Returns c s' w \<Longrightarrow> sys_step s s'"
| step_wait: "calm (meanwhile pf) \<Longrightarrow> flux_syscall_dispatch pf mem num a0 a1 a2 a3 s = Waits s' \<Longrightarrow> sys_step s s'"
| step_turn: "sys_step s (s\<lparr>y_kernel := sched_iteration (y_kernel s)\<rparr>)"

inductive sys_reach :: "sys \<Rightarrow> bool" where
  reach_boot: "sys_reach (boot_sys base)"
| reach_step: "sys_reach s \<Longrightarrow> sys_step s s' \<Longrightarrow> sys_reach s'"

lemma sys_step_ok: "sys_step s s' \<Longrightarrow> sys_ok s \<Longrightarrow> sys_ok s'"
proof (induction rule: sys_step.induct)
  case (step_turn s)
  then show ?case by (simp add: sys_ok_def ok_iteration)
next
  case (step_call pf mem num a0 a1 a2 a3 s c s' w)
  from dispatch_ok [OF step_call(3,1), of mem num a0 a1 a2 a3] show ?case unfolding step_call(2) by simp
next
  case (step_wait pf mem num a0 a1 a2 a3 s s')
  from dispatch_ok [OF step_wait(3,1), of mem num a0 a1 a2 a3] show ?case unfolding step_wait(2) by simp
qed

lemma boot_sys_ok: "sys_ok (boot_sys base)"
proof -
  let ?k = "snd (flux_proc_init boot_kernel)"
  have z: "queue_ok zero_queue" by code_simp
  have "same_table ?k (y_kernel (boot_sys base))"
    by (simp add: boot_sys_def flux_sched_init_def flux_ipc_init_def same_table_def)
  then have "proc_ok (y_kernel (boot_sys base))" using proc_init_ok(1) same_table_ok by blast
  moreover have "sched_ok (y_kernel (boot_sys base))"
    by (simp add: boot_sys_def flux_sched_init_def sched_ok_def)
  moreover have "ipc_ok (y_kernel (boot_sys base))"
    using z by (simp add: boot_sys_def flux_sched_init_def flux_ipc_init_def ipc_ok_def)
  moreover have "heap_ok (y_heap (boot_sys base))"
    using init_rep [of "boot_heap base"] by (auto simp: heap_ok_def boot_sys_def)
  ultimately show ?thesis by (simp add: sys_ok_def kernel_ok_def)
qed

lemma sys_reach_ok: "sys_reach s \<Longrightarrow> sys_ok s"
  by (induction rule: sys_reach.induct) (auto intro: boot_sys_ok sys_step_ok)

end
