(* ===== verification/FluxSystemProps.thy ===== *)
theory FluxSystemProps
  imports FluxSystem
begin

section \<open>What the kernel guarantees across its services\<close>

text \<open>
  Properties of the system call interface and of the services together: the invariants in every
  reachable state, the refusals, and the places where two services do not fit together. \<open>no_hal\<close> is a
  machine without console or hardware functions; \<open>sys1\<close> and \<open>sys2\<close> are the states after one and two
  spawns, \<open>sys3\<close> the one in which the scheduler has put the first process on the processor.
\<close>

definition no_hal :: platform where
  "no_hal = \<lparr>hal_getc = None, hal_puts = False, hal_hw_info = None, hal_hw_config = None,
     hal_basic_info = (\<lambda>_. [0]), info_string = 0x1000, rounds = 3, meanwhile = (\<lambda>_ k. k\<lparr>k_tick := k_tick k + 1\<rparr>)\<rparr>"

abbreviation no_memory :: "u64 \<Rightarrow> u8" where
  "no_memory \<equiv> \<lambda>_. 0"

definition sys1 :: sys where
  "sys1 = after (flux_syscall_dispatch no_hal no_memory 100 0 64 0 0 (boot_sys 0x2000000))"

definition sys2 :: sys where
  "sys2 = after (flux_syscall_dispatch no_hal no_memory 100 0 64 0 1 sys1)"

definition sys3 :: sys where
  "sys3 = sys2\<lparr>y_kernel := sched_iteration (y_kernel sys2)\<rparr>"

lemma calm_no_hal: "calm (meanwhile no_hal)"
  by (simp add: calm_def no_hal_def live_def)

lemma demo_reach: "sys_reach sys1" "sys_reach sys2" "sys_reach sys3"
proof -
  have returns: "(case r of Returns c s w \<Rightarrow> True | _ \<Rightarrow> False) \<Longrightarrow> \<exists>c w. r = Returns c (after r) w" for r
    by (cases r) auto
  have "case flux_syscall_dispatch no_hal no_memory 100 0 64 0 0 (boot_sys 0x2000000) of Returns c s w \<Rightarrow> True | _ \<Rightarrow> False"
    by code_simp
  then obtain c w where r: "flux_syscall_dispatch no_hal no_memory 100 0 64 0 0 (boot_sys 0x2000000) = Returns c sys1 w"
    using returns unfolding sys1_def by blast
  show r1: "sys_reach sys1" by (rule reach_step [OF reach_boot step_call [OF calm_no_hal r]])
  have "case flux_syscall_dispatch no_hal no_memory 100 0 64 0 1 sys1 of Returns c s w \<Rightarrow> True | _ \<Rightarrow> False"
    by code_simp
  then obtain c w where r: "flux_syscall_dispatch no_hal no_memory 100 0 64 0 1 sys1 = Returns c sys2 w"
    using returns unfolding sys2_def by blast
  show r2: "sys_reach sys2" by (rule reach_step [OF r1 step_call [OF calm_no_hal r]])
  show "sys_reach sys3" unfolding sys3_def by (rule reach_step [OF r2 step_turn])
qed

subsection \<open>The invariant\<close>



subsection \<open>Refusals\<close>

text \<open>A number that is not in the table of system calls is refused as invalid, whatever its
  arguments; only the counter of calls changes.\<close>

theorem unknown_syscall:
  assumes "map_of syscall_table num = None"
  shows "flux_syscall_dispatch pf mem num a0 a1 a2 a3 s =
    Returns (status_code FLUX_ERR_INVALID) (s\<lparr>y_syscall_count := y_syscall_count s + 1\<rparr>) []"
proof -
  have n: "num \<notin> {100, 101, 102, 103, 104, 105, 200, 201, 202, 203, 204, 300, 301, 302, 303, 400, 401, 402, 403,
      500, 501, 502, 600, 601, 602, 603, 604, 700, 701, 800, 801}"
    using assms by (auto simp: syscall_table_def split: if_splits)
  then show ?thesis
    by (simp add: flux_syscall_dispatch_def handle_process_syscall_def handle_memory_syscall_def
        handle_ipc_syscall_def handle_bytecode_syscall_def handle_compiler_syscall_def handle_io_syscall_def
        handle_hw_syscall_def handle_info_syscall_def done_with_def Let_def)
qed

theorem unknown_syscall_witness:
  "flux_syscall_dispatch no_hal no_memory 106 1 2 3 4 sys1 =
    Returns (- 3) (sys1\<lparr>y_syscall_count := y_syscall_count sys1 + 1\<rparr>) []"
proof -
  have "map_of syscall_table 106 = None" by code_simp
  then show ?thesis using unknown_syscall by (simp add: status_code_def)
qed

text \<open>The capability each guarded call asks for.\<close>

definition required_cap :: "int \<Rightarrow> u64 option" where
  "required_cap = map_of [(100, FLUX_CAP_SPAWN), (500, FLUX_CAP_COMPILE), (501, FLUX_CAP_COMPILE),
     (502, FLUX_CAP_COMPILE OR FLUX_CAP_SUPERVISOR), (600, FLUX_CAP_IO_READ), (601, FLUX_CAP_IO_WRITE),
     (701, FLUX_CAP_HARDWARE)]"

text \<open>C5. A guarded call by a process other than the kernel that holds none of the bits asked for, or
  has no control block, is denied without effect. Any one of the bits is enough: DEVCODE, which
  names COMPILE and SUPERVISOR, lets a process with COMPILE alone through.\<close>

theorem guarded_syscall:
  assumes "required_cap num = Some cap" "flux_getpid (y_kernel s) \<noteq> 1"
    and "case flux_get_pcb (y_kernel s) (flux_getpid (y_kernel s)) of None \<Rightarrow> True
       | Some j \<Rightarrow> p_caps (k_pcbs (y_kernel s) j) AND cap = 0"
  shows "flux_syscall_dispatch pf mem num a0 a1 a2 a3 s =
        Returns (status_code FLUX_ERR_DENIED) (s\<lparr>y_syscall_count := y_syscall_count s + 1\<rparr>) []"
proof -
  have c: "\<not> syscall_check_cap (y_kernel s) cap"
    using assms(2,3) by (auto simp: syscall_check_cap_def split: option.splits)
  have d: "flux_syscall_dispatch pf mem num a0 a1 a2 a3 s = done_with (s\<lparr>y_syscall_count := y_syscall_count s + 1\<rparr>) FLUX_ERR_DENIED"
    if "num = 100 \<and> cap = 1 \<or> num = 500 \<and> cap = 4 \<or> num = 501 \<and> cap = 4 \<or> num = 502 \<and> cap = 4 OR 0x400
      \<or> num = 600 \<and> cap = 8 \<or> num = 601 \<and> cap = 0x10 \<or> num = 701 \<and> cap = 0x40"
    using that
  proof (elim disjE conjE)
    assume "num = 100" "cap = 1"
    then show ?thesis using c by (simp add: flux_syscall_dispatch_def handle_process_syscall_def Let_def)
  next
    assume "num = 701" "cap = 0x40"
    then show ?thesis using c by (simp add: flux_syscall_dispatch_def handle_hw_syscall_def Let_def)
  qed (use c in \<open>simp add: flux_syscall_dispatch_def handle_compiler_syscall_def handle_io_syscall_def Let_def\<close>)+
  have "num = 100 \<and> cap = 1 \<or> num = 500 \<and> cap = 4 \<or> num = 501 \<and> cap = 4 \<or> num = 502 \<and> cap = 4 OR 0x400
      \<or> num = 600 \<and> cap = 8 \<or> num = 601 \<and> cap = 0x10 \<or> num = 701 \<and> cap = 0x40"
    using assms(1) unfolding required_cap_def by (simp split: if_splits)
  from d [OF this] show ?thesis by (simp add: done_with_def)
qed

theorem guarded_syscall_witness:
  "flux_getpid (y_kernel sys3) = 2 \<and> flux_syscall_dispatch no_hal no_memory 701 1 2 3 4 sys3 =
    Returns (- 4) (sys3\<lparr>y_syscall_count := y_syscall_count sys3 + 1\<rparr>) []"
proof -
  have p: "flux_getpid (y_kernel sys3) = 2" by code_simp
  have r: "required_cap 701 = Some 0x40" and c: "status_code FLUX_ERR_DENIED = - 4" by code_simp+
  have n: "flux_getpid (y_kernel sys3) \<noteq> 1" unfolding p by simp
  have g: "flux_get_pcb (y_kernel sys3) 2 = Some 1" by code_simp
  have q: "p_caps (k_pcbs (y_kernel sys3) 1) = 3" by code_simp
  have h: "case flux_get_pcb (y_kernel sys3) (flux_getpid (y_kernel sys3)) of None \<Rightarrow> True
      | Some j \<Rightarrow> p_caps (k_pcbs (y_kernel sys3) j) AND 0x40 = 0"
    unfolding p g option.case q by simp
  show ?thesis by (rule conjI [OF p guarded_syscall [OF r n h, unfolded c]])
qed

text \<open>\<open>DEVCODE\<close> is documented as asking for COMPILE and SUPERVISOR, but the test is for either bit.\<close>

lemma devcode_without_supervisor:
  assumes "flux_get_pcb (y_kernel s) (flux_getpid (y_kernel s)) = Some j"
    and "p_caps (k_pcbs (y_kernel s) j) AND FLUX_CAP_COMPILE \<noteq> 0" "a1 \<noteq> 0" "a2 \<noteq> 0"
  shows "flux_syscall_dispatch pf mem 502 a0 a1 a2 a3 s =
    flux_devcode a1 a2 (s\<lparr>y_syscall_count := y_syscall_count s + 1\<rparr>)"
proof -
  have "x AND (4 OR 0x400) \<noteq> 0" if "x AND 4 \<noteq> 0" for x :: u64
  proof -
    have "x AND 4 = (x AND (4 OR 0x400)) AND 4" by (simp add: and.assoc)
    then show ?thesis using that by auto
  qed
  then have "syscall_check_cap (y_kernel s) (FLUX_CAP_COMPILE OR FLUX_CAP_SUPERVISOR)"
    using assms(1,2) by (simp add: syscall_check_cap_def)
  then show ?thesis
    by (simp add: flux_syscall_dispatch_def handle_compiler_syscall_def Let_def)
qed

subsection \<open>Where two services do not fit together\<close>

text \<open>C6. ALLOC and MMAP use their first argument as the size and as the place to put the pointer. A
  successful call gives the caller a fresh block of the heap and writes its address over the eight
  bytes at the address equal to the requested size, which is below 16 MiB or in the last 15
  addresses; a failed call changes no allocation.\<close>

theorem alloc_stores_at_size:
  assumes "sys_reach s" "num = 200 \<or> num = 202" "a0 \<noteq> 0"
  shows "\<exists>s' w. flux_syscall_dispatch pf mem num a0 a1 a2 a3 s =
      Returns (status_code (if w = [] then FLUX_ERR_NOMEM else FLUX_OK)) s' w
    \<and> (if w = [] then allocated (y_heap s') = allocated (y_heap s)
       else \<exists>p. w = [(a0, le_bytes 8 (addr_of (y_heap s') p))] \<and> p \<notin> dom (allocated (y_heap s))
         \<and> p \<in> dom (allocated (y_heap s')) \<and> (uint a0 \<le> 16777216 \<or> 2 ^ 64 - 16 < uint a0))"
proof -
  let ?s = "s\<lparr>y_syscall_count := y_syscall_count s + 1\<rparr>"
  have d: "flux_syscall_dispatch pf mem num a0 a1 a2 a3 s = alloc_syscall a0 a1 ?s"
    using assms(2) by (auto simp: flux_syscall_dispatch_def handle_memory_syscall_def Let_def)
  obtain bl where r: "heap_rep (y_heap s) bl" using sys_reach_ok [OF assms(1)] by (auto simp: sys_ok_def heap_ok_def)
  show ?thesis
    using alloc_abs [OF r assms(3), of "k_current_pid (y_kernel s)" "ucast a1"]
  proof (elim disjE exE conjE)
    fix h' assume "flux_alloc (k_current_pid (y_kernel s)) a0 (ucast a1) (y_heap s) = Some (None, h')"
      "allocated h' = allocated (y_heap s)"
    then show ?thesis using assms(3) by (simp add: d alloc_syscall_def)
  next
    fix p sz x h' bl'
    assume f: "flux_alloc (k_current_pid (y_kernel s)) a0 (ucast a1) (y_heap s) = Some (Some p, h')" "heap_rep h' bl'"
      "allocated (y_heap s) p = None" "allocated h' = (allocated (y_heap s))(p \<mapsto> (sz, ucast a1, k_current_pid (y_kernel s)))"
      "mem_align_up a0 16 \<le> sz"
    have "p + uint sz \<le> 16777216" "40 \<le> p" using allocated_bounds [OF f(2), of p] f(4) by auto
    moreover have "uint (mem_align_up a0 16) \<le> uint sz" using f(5) by (simp add: word_le_def)
    ultimately have "uint a0 \<le> 16777216 \<or> 2 ^ 64 - 16 < uint a0"
      using align_up_uint [of a0] by (auto split: if_splits)
    then show ?thesis using f(1,3,4) assms(3) by (auto simp: d alloc_syscall_def)
  qed
qed

theorem alloc_stores_at_size_witness:
  "\<exists>s' w. flux_syscall_dispatch no_hal no_memory 200 5000 1 0 0 sys3 =
     Returns (status_code (if w = [] then FLUX_ERR_NOMEM else FLUX_OK)) s' w"
proof -
  have "(5000 :: u64) \<noteq> 0" by simp
  from alloc_stores_at_size [OF demo_reach(3) disjI1 [OF refl] this] show ?thesis by blast
qed





end
