(* ===== verification/FluxAgent.thy ===== *)
theory FluxAgent
  imports FluxReach FluxRing
begin

section \<open>The agent runtime: state, message pool, life cycle (agent/agent_internal.h, agent/agent.c)\<close>

text \<open>
  \<open>rt\<close> is \<open>flux_agent_runtime_t\<close>, the one global of the agent modules. A message is an object with
  an identity: an inbox holds pointers, \<open>Pooled i\<close> into the array of the pool and \<open>Heaped a\<close> to a
  block of the C heap. The C heap is a parameter: \<open>ca used\<close> is the block \<open>calloc\<close> returns when the
  blocks in \<open>used\<close> are taken, \<open>None\<close> for NULL. Fields of C type \<open>int\<close> that start at 0 and are only counted up and down
  above it are natural numbers.
\<close>

abbreviation (input) FLUX_AGENT_MAX :: nat where "FLUX_AGENT_MAX \<equiv> 64"
abbreviation (input) FLUX_MSG_POOL_SIZE :: nat where "FLUX_MSG_POOL_SIZE \<equiv> 512"
abbreviation (input) FLUX_INBOX_SIZE :: nat where "FLUX_INBOX_SIZE \<equiv> 64"
abbreviation (input) FLUX_TOPIC_MAX :: nat where "FLUX_TOPIC_MAX \<equiv> 32"
abbreviation (input) FLUX_TOPIC_SUBS_MAX :: nat where "FLUX_TOPIC_SUBS_MAX \<equiv> 64"
abbreviation (input) FLUX_PUB_CAPS_MAX :: nat where "FLUX_PUB_CAPS_MAX \<equiv> 256"
abbreviation (input) FLUX_AUDIT_LOG_SIZE :: nat where "FLUX_AUDIT_LOG_SIZE \<equiv> 512"
abbreviation (input) FLUX_AGENT_MAX_CAPS :: nat where "FLUX_AGENT_MAX_CAPS \<equiv> 16"
abbreviation (input) FLUX_A2A_MAX_PAYLOAD :: u32 where "FLUX_A2A_MAX_PAYLOAD \<equiv> 4096"
abbreviation (input) FLUX_AGENT_ID_INVALID :: u32 where "FLUX_AGENT_ID_INVALID \<equiv> 0"
abbreviation (input) FLUX_AGENT_ID_COMPILER :: u32 where "FLUX_AGENT_ID_COMPILER \<equiv> 3"

subsection \<open>Data\<close>

datatype agent_state =
    AGENT_CREATED | AGENT_INITIALIZING | AGENT_IDLE | AGENT_THINKING | AGENT_WAITING
  | AGENT_DELEGATING | AGENT_TERMINATED | AGENT_FAILED

datatype a2a_type =
    A2A_TELL | A2A_ASK | A2A_REPLY | A2A_DELEGATE | A2A_RESULT | A2A_BARRIER | A2A_SUBSCRIBE
  | A2A_EVENT | A2A_ERROR | A2A_CAPABILITY | A2A_HEARTBEAT

record a2a_msg =
  m_id :: u32
  m_reply_to :: u32
  m_type :: a2a_type
  m_sender :: u32
  m_target :: u32
  m_required_cap :: u64
  m_timestamp :: u64
  m_deadline :: u64
  m_priority :: u32
  m_topic :: string
  m_payload :: "nat \<Rightarrow> u8"
  m_payload_len :: u32

datatype msg_ref = Pooled nat | Heaped nat

record agent_desc =
  d_agent_id :: u32
  d_name :: string
  d_model :: string
  d_state :: agent_state
  d_capabilities :: u64
  d_pid :: u32
  d_caps :: "nat \<Rightarrow> string \<times> string"
  d_num_caps :: nat
  d_max_cpu_ticks :: u64
  d_used_cpu_ticks :: u64
  d_max_memory :: u64
  d_used_memory :: u64
  d_max_io_per_sec :: u32
  d_used_io_per_sec :: u32
  d_msg_count_sent :: u32
  d_msg_count_recv :: u32
  d_delegate_count :: u32
  d_create_time :: u64
  d_last_active :: u64

record delegation =
  dg_msg_id :: u32
  dg_target :: u32
  dg_active :: bool

record audit_entry =
  au_timestamp :: u64
  au_agent_id :: u32
  au_target_id :: u32
  au_cap :: u64
  au_action :: u8

record agent_slot =
  ag_desc :: agent_desc
  ag_vm :: flux_vm
  ag_vm_initialized :: bool
  ag_bytecode :: "u8 list option"
  ag_bytecode_len :: u64
  ag_active :: bool
  ag_paused :: bool
  ag_inbox :: "nat \<Rightarrow> msg_ref option"
  ag_inbox_head :: nat
  ag_inbox_tail :: nat
  ag_inbox_count :: nat
  ag_inbox_total :: nat
  ag_delegations :: "nat \<Rightarrow> delegation"
  ag_num_delegations :: nat
  ag_audit_log :: "nat \<Rightarrow> audit_entry"
  ag_audit_count :: nat
  ag_last_tick_update :: u64

record agent_config =
  c_max_agents :: u32
  c_max_messages_queue :: u32
  c_default_cpu_ticks :: u32
  c_default_memory :: u64
  c_heartbeat_interval_ms :: u32
  c_auto_heartbeat :: bool
  c_auto_terminate_idle :: bool
  c_idle_timeout_ticks :: u32

record topic =
  tp_name :: string
  tp_subscribers :: "nat \<Rightarrow> u32"
  tp_num_subscribers :: nat

record published_cap =
  pc_name :: string
  pc_agent_id :: u32
  pc_description :: string
  pc_active :: bool

record rt =
  r_initialized :: bool
  r_config :: agent_config
  r_agents :: "nat \<Rightarrow> agent_slot"
  r_agent_bitmap :: "nat \<Rightarrow> u64"
  r_pool_messages :: "nat \<Rightarrow> a2a_msg"
  r_pool_allocated :: "nat \<Rightarrow> u64"
  r_pool_freed :: u64
  r_heap_messages :: "nat \<rightharpoonup> a2a_msg"
  r_next_msg_id :: u32
  r_topics :: "nat \<Rightarrow> topic"
  r_num_topics :: nat
  r_pub_caps :: "nat \<Rightarrow> published_cap"
  r_num_pub_caps :: nat
  r_total_messages_sent :: u64
  r_total_messages_recv :: u64
  r_total_broadcasts :: u64
  r_total_delegations :: u64
  r_peak_agents :: u32
  r_schedule_cursor :: nat
  r_tick_counter :: u64

text \<open>What \<open>memset\<close> to 0 leaves.\<close>

definition zero_msg :: a2a_msg where
  "zero_msg = \<lparr>m_id = 0, m_reply_to = 0, m_type = A2A_TELL, m_sender = 0, m_target = 0, m_required_cap = 0,
     m_timestamp = 0, m_deadline = 0, m_priority = 0, m_topic = '''', m_payload = (\<lambda>_. 0), m_payload_len = 0\<rparr>"

definition zero_desc :: agent_desc where
  "zero_desc = \<lparr>d_agent_id = 0, d_name = '''', d_model = '''', d_state = AGENT_CREATED, d_capabilities = 0, d_pid = 0,
     d_caps = (\<lambda>_. ('''', '''')), d_num_caps = 0, d_max_cpu_ticks = 0, d_used_cpu_ticks = 0, d_max_memory = 0,
     d_used_memory = 0, d_max_io_per_sec = 0, d_used_io_per_sec = 0, d_msg_count_sent = 0, d_msg_count_recv = 0,
     d_delegate_count = 0, d_create_time = 0, d_last_active = 0\<rparr>"

definition zero_delegation :: delegation where
  "zero_delegation = \<lparr>dg_msg_id = 0, dg_target = 0, dg_active = False\<rparr>"

definition zero_audit :: audit_entry where
  "zero_audit = \<lparr>au_timestamp = 0, au_agent_id = 0, au_target_id = 0, au_cap = 0, au_action = 0\<rparr>"

definition zero_slot :: agent_slot where
  "zero_slot = \<lparr>ag_desc = zero_desc, ag_vm = zero_vm, ag_vm_initialized = False, ag_bytecode = None,
     ag_bytecode_len = 0, ag_active = False, ag_paused = False, ag_inbox = (\<lambda>_. None), ag_inbox_head = 0,
     ag_inbox_tail = 0, ag_inbox_count = 0, ag_inbox_total = 0, ag_delegations = (\<lambda>_. zero_delegation),
     ag_num_delegations = 0, ag_audit_log = (\<lambda>_. zero_audit), ag_audit_count = 0, ag_last_tick_update = 0\<rparr>"

definition zero_topic :: topic where
  "zero_topic = \<lparr>tp_name = '''', tp_subscribers = (\<lambda>_. 0), tp_num_subscribers = 0\<rparr>"

definition zero_pub_cap :: published_cap where
  "zero_pub_cap = \<lparr>pc_name = '''', pc_agent_id = 0, pc_description = '''', pc_active = False\<rparr>"

definition zero_config :: agent_config where
  "zero_config = \<lparr>c_max_agents = 0, c_max_messages_queue = 0, c_default_cpu_ticks = 0, c_default_memory = 0,
     c_heartbeat_interval_ms = 0, c_auto_heartbeat = False, c_auto_terminate_idle = False, c_idle_timeout_ticks = 0\<rparr>"

text \<open>The static \<open>g_agent_rt\<close> before any call.\<close>

definition boot_rt :: rt where
  "boot_rt = \<lparr>r_initialized = False, r_config = zero_config, r_agents = (\<lambda>_. zero_slot), r_agent_bitmap = (\<lambda>_. 0),
     r_pool_messages = (\<lambda>_. zero_msg), r_pool_allocated = (\<lambda>_. 0), r_pool_freed = 0, r_heap_messages = Map.empty,
     r_next_msg_id = 0, r_topics = (\<lambda>_. zero_topic), r_num_topics = 0, r_pub_caps = (\<lambda>_. zero_pub_cap),
     r_num_pub_caps = 0, r_total_messages_sent = 0, r_total_messages_recv = 0, r_total_broadcasts = 0,
     r_total_delegations = 0, r_peak_agents = 0, r_schedule_cursor = 0, r_tick_counter = 0\<rparr>"

text \<open>Assignments through a slot pointer and through its descriptor.\<close>

definition upd_slot :: "nat \<Rightarrow> (agent_slot \<Rightarrow> agent_slot) \<Rightarrow> rt \<Rightarrow> rt" where
  "upd_slot i f r = r\<lparr>r_agents := (r_agents r)(i := f (r_agents r i))\<rparr>"

definition upd_desc :: "nat \<Rightarrow> (agent_desc \<Rightarrow> agent_desc) \<Rightarrow> rt \<Rightarrow> rt" where
  "upd_desc i f = upd_slot i (\<lambda>s. s\<lparr>ag_desc := f (ag_desc s)\<rparr>)"

definition desc_at :: "rt \<Rightarrow> nat \<Rightarrow> agent_desc" where
  "desc_at r i = ag_desc (r_agents r i)"

definition agent_now :: "rt \<Rightarrow> u64" where
  "agent_now r = r_tick_counter r"

subsection \<open>Bitmaps\<close>

definition bitmap_set :: "(nat \<Rightarrow> u64) \<Rightarrow> nat \<Rightarrow> (nat \<Rightarrow> u64)" where
  "bitmap_set bm i = bm(i div 64 := bm (i div 64) OR push_bit (i mod 64) 1)"

definition bitmap_clear :: "(nat \<Rightarrow> u64) \<Rightarrow> nat \<Rightarrow> (nat \<Rightarrow> u64)" where
  "bitmap_clear bm i = bm(i div 64 := bm (i div 64) AND NOT (push_bit (i mod 64) 1))"

definition bitmap_test :: "(nat \<Rightarrow> u64) \<Rightarrow> nat \<Rightarrow> bool" where
  "bitmap_test bm i \<longleftrightarrow> bm (i div 64) AND push_bit (i mod 64) 1 \<noteq> 0"

definition bitmap_find_zero :: "(nat \<Rightarrow> u64) \<Rightarrow> nat \<Rightarrow> nat option" where
  "bitmap_find_zero bm n = first_index (\<lambda>i. \<not> bitmap_test bm i) 0 n"

lemma bitmap_test_bit: "bitmap_test bm i \<longleftrightarrow> bit (bm (i div 64)) (i mod 64)"
proof -
  have "w AND push_bit k 1 = push_bit k (of_bool (bit w k))" for w :: u64 and k
    by (rule bit_word_eqI) (auto simp: bit_simps)
  then show ?thesis by (auto simp: bitmap_test_def push_bit_eq_0_iff bit_push_bit_iff bit_1_iff)
qed


lemma bitmap_test_set [simp]: "bitmap_test (bitmap_set bm i) j \<longleftrightarrow> j = i \<or> bitmap_test bm j"
proof -
  have d: "j = i \<longleftrightarrow> j div 64 = i div 64 \<and> j mod 64 = i mod 64" by (metis div_mult_mod_eq)
  show ?thesis unfolding d bitmap_test_bit bitmap_set_def
    by (auto simp: bit_or_iff bit_push_bit_iff bit_1_iff bit_exp_iff possible_bit_def)
qed

lemma bitmap_test_clear [simp]: "bitmap_test (bitmap_clear bm i) j \<longleftrightarrow> j \<noteq> i \<and> bitmap_test bm j"
proof -
  have d: "j = i \<longleftrightarrow> j div 64 = i div 64 \<and> j mod 64 = i mod 64" by (metis div_mult_mod_eq)
  show ?thesis unfolding d bitmap_test_bit bitmap_clear_def
    by (auto simp: bit_and_iff bit_not_iff bit_push_bit_iff bit_1_iff bit_exp_iff possible_bit_def)
qed

lemma bitmap_test_zero [simp]: "\<not> bitmap_test (\<lambda>_. 0) i"
  by (simp add: bitmap_test_def)

subsection \<open>The message pool (agent/a2a.c)\<close>

definition msg_at :: "rt \<Rightarrow> msg_ref \<Rightarrow> a2a_msg" where
  "msg_at r p = (case p of Pooled i \<Rightarrow> r_pool_messages r i
     | Heaped a \<Rightarrow> (case r_heap_messages r a of None \<Rightarrow> zero_msg | Some m \<Rightarrow> m))"

definition set_msg :: "msg_ref \<Rightarrow> a2a_msg \<Rightarrow> rt \<Rightarrow> rt" where
  "set_msg p m r = (case p of Pooled i \<Rightarrow> r\<lparr>r_pool_messages := (r_pool_messages r)(i := m)\<rparr>
     | Heaped a \<Rightarrow> r\<lparr>r_heap_messages := (r_heap_messages r)(a \<mapsto> m)\<rparr>)"

text \<open>The C heap, asked for a block: its argument says which addresses are in use.\<close>

type_synonym msg_calloc = "(nat \<Rightarrow> bool) \<Rightarrow> nat option"

definition msg_pool_alloc :: "msg_calloc \<Rightarrow> rt \<Rightarrow> msg_ref option \<times> rt" where
  "msg_pool_alloc ca r =
     (case first_index (\<lambda>i. r_pool_allocated r (i div 64) AND push_bit (i mod 64) 1 = 0) 0 FLUX_MSG_POOL_SIZE of
        Some i \<Rightarrow> (Some (Pooled i),
          set_msg (Pooled i) zero_msg (r\<lparr>r_pool_allocated := (r_pool_allocated r)
            (i div 64 := r_pool_allocated r (i div 64) OR push_bit (i mod 64) 1)\<rparr>))
      | None \<Rightarrow>
          (case ca (\<lambda>a. r_heap_messages r a \<noteq> None) of
             None \<Rightarrow> (None, r)
           | Some a \<Rightarrow> (Some (Heaped a), set_msg (Heaped a) zero_msg r)))"

definition msg_pool_free :: "msg_ref option \<Rightarrow> rt \<Rightarrow> rt" where
  "msg_pool_free p r =
     (case p of None \<Rightarrow> r
      | Some (Pooled i) \<Rightarrow>
          if i < FLUX_MSG_POOL_SIZE then
            set_msg (Pooled i) zero_msg
              (r\<lparr>r_pool_allocated := (r_pool_allocated r)
                   (i div 64 := r_pool_allocated r (i div 64) AND NOT (push_bit (i mod 64) 1)),
                 r_pool_freed := r_pool_freed r + 1\<rparr>)
          else r
      | Some (Heaped a) \<Rightarrow> r\<lparr>r_heap_messages := (r_heap_messages r)(a := None)\<rparr>)"

definition msg_generate_id :: "rt \<Rightarrow> u32 \<times> rt" where
  "msg_generate_id r =
     (let i = r_next_msg_id r; r1 = r\<lparr>r_next_msg_id := i + 1\<rparr>
      in if i = 0 then (r_next_msg_id r1, r1\<lparr>r_next_msg_id := r_next_msg_id r1 + 1\<rparr>) else (i, r1))"

subsection \<open>Lookup and identifiers (agent/agent.c)\<close>

definition agent_index_from_id :: "u32 \<Rightarrow> int" where
  "agent_index_from_id i = (if i < 4 \<or> of_nat FLUX_AGENT_MAX + 4 \<le> i then -1 else uint (i - 4))"

definition agent_slot_by_id :: "rt \<Rightarrow> u32 \<Rightarrow> nat option" where
  "agent_slot_by_id r i =
     (let idx = agent_index_from_id i
      in if idx < 0 then None else if \<not> ag_active (r_agents r (nat idx)) then None else Some (nat idx))"

definition agent_count_active :: "rt \<Rightarrow> nat" where
  "agent_count_active r = length (filter (\<lambda>i. ag_active (r_agents r i)) [0..<FLUX_AGENT_MAX])"

definition agent_update_peak :: "rt \<Rightarrow> rt" where
  "agent_update_peak r =
     (let current = of_nat (agent_count_active r)
      in if r_peak_agents r < current then r\<lparr>r_peak_agents := current\<rparr> else r)"

definition agent_alloc_id :: "rt \<Rightarrow> u32 \<times> rt" where
  "agent_alloc_id r =
     (case bitmap_find_zero (r_agent_bitmap r) FLUX_AGENT_MAX of
        None \<Rightarrow> (FLUX_AGENT_ID_INVALID, r)
      | Some b \<Rightarrow> (of_nat (b + 4), r\<lparr>r_agent_bitmap := bitmap_set (r_agent_bitmap r) b\<rparr>))"

definition agent_free_id :: "u32 \<Rightarrow> rt \<Rightarrow> rt" where
  "agent_free_id i r =
     (let idx = agent_index_from_id i
      in if 0 \<le> idx then r\<lparr>r_agent_bitmap := bitmap_clear (r_agent_bitmap r) (nat idx)\<rparr> else r)"

text \<open>One round of the loop that drains the inbox, and the whole clean-up of slot \<open>i\<close>.\<close>

definition drain_entry :: "nat \<Rightarrow> nat \<Rightarrow> rt \<Rightarrow> rt" where
  "drain_entry i n r =
     (let idx = (ag_inbox_head (r_agents r i) + n) mod FLUX_INBOX_SIZE
      in case ag_inbox (r_agents r i) idx of None \<Rightarrow> r
         | Some p \<Rightarrow> upd_slot i (\<lambda>s. s\<lparr>ag_inbox := (ag_inbox s)(idx := None)\<rparr>) (msg_pool_free (Some p) r))"

definition clear_slot :: "agent_slot \<Rightarrow> agent_slot" where
  "clear_slot s =
     s\<lparr>ag_inbox_head := 0, ag_inbox_tail := 0, ag_inbox_count := 0,
       ag_num_delegations := 0, ag_delegations := (\<lambda>_. zero_delegation),
       ag_audit_count := 0, ag_audit_log := (\<lambda>_. zero_audit),
       ag_active := False, ag_paused := False, ag_desc := zero_desc\<lparr>d_agent_id := FLUX_AGENT_ID_INVALID\<rparr>\<rparr>"

definition release_vm :: "agent_slot \<Rightarrow> agent_slot" where
  "release_vm s =
     (let s1 = (if ag_bytecode s \<noteq> None then s\<lparr>ag_bytecode := None, ag_bytecode_len := 0\<rparr> else s)
      in if ag_vm_initialized s1
         then s1\<lparr>ag_vm := snd (flux_vm_destroy (ag_vm s1)), ag_vm_initialized := False\<rparr> else s1)"

definition agent_slot_cleanup :: "nat \<Rightarrow> rt \<Rightarrow> rt" where
  "agent_slot_cleanup i r =
     (let r1 = upd_slot i release_vm r;
          r2 = fold (drain_entry i) [0..<ag_inbox_count (r_agents r1 i)] r1
      in upd_slot i clear_slot r2)"

subsection \<open>Initialisation and shutdown\<close>

definition s_default_config :: agent_config where
  "s_default_config = \<lparr>c_max_agents = 64, c_max_messages_queue = 64, c_default_cpu_ticks = 1000000,
     c_default_memory = 256 * 1024, c_heartbeat_interval_ms = 5000, c_auto_heartbeat = True,
     c_auto_terminate_idle = False, c_idle_timeout_ticks = 0\<rparr>"

definition flux_agent_shutdown :: "rt \<Rightarrow> rt" where
  "flux_agent_shutdown r =
     (if \<not> r_initialized r then r
      else
        let r1 = fold (\<lambda>i r. if ag_active (r_agents r i) then agent_slot_cleanup i r else r) [0..<FLUX_AGENT_MAX] r
        in r1\<lparr>r_agent_bitmap := (\<lambda>_. 0),
              r_topics := (\<lambda>i. if i < r_num_topics r1 then (r_topics r1 i)\<lparr>tp_num_subscribers := 0\<rparr> else r_topics r1 i),
              r_num_topics := 0, r_num_pub_caps := 0, r_total_messages_sent := 0, r_total_messages_recv := 0,
              r_total_broadcasts := 0, r_total_delegations := 0, r_peak_agents := 0, r_schedule_cursor := 0,
              r_initialized := False\<rparr>)"

definition flux_agent_init :: "agent_config option \<Rightarrow> rt \<Rightarrow> flux_status \<times> rt" where
  "flux_agent_init config r =
     (let r0 = (if r_initialized r then flux_agent_shutdown r else r);
          cf = (case config of None \<Rightarrow> s_default_config | Some c \<Rightarrow> c);
          cf1 = (if 64 < c_max_agents cf then cf\<lparr>c_max_agents := 64\<rparr> else cf)
      in (FLUX_OK,
          r0\<lparr>r_config := cf1, r_agents := (\<lambda>_. zero_slot\<lparr>ag_active := False\<rparr>),
             r_agent_bitmap := bitmap_set (\<lambda>_. 0) 0,
             r_pool_messages := (\<lambda>_. zero_msg), r_pool_allocated := (\<lambda>_. 0), r_pool_freed := 0,
             r_next_msg_id := 1, r_topics := (\<lambda>_. zero_topic), r_num_topics := 0,
             r_pub_caps := (\<lambda>_. zero_pub_cap), r_num_pub_caps := 0,
             r_total_messages_sent := 0, r_total_messages_recv := 0, r_total_broadcasts := 0,
             r_total_delegations := 0, r_peak_agents := 0, r_schedule_cursor := 0, r_tick_counter := 0,
             r_initialized := True\<rparr>))"


subsection \<open>Spawn, terminate, pause, resume\<close>

text \<open>The slot as \<open>flux_agent_spawn\<close> leaves it; \<open>stk\<close> and \<open>ca\<close> answer the allocations of the VM.\<close>

definition fresh_vm :: "bool \<Rightarrow> calloc \<Rightarrow> u32 \<Rightarrow> u8 list option \<Rightarrow> u64 \<Rightarrow> u64 \<Rightarrow> flux_vm" where
  "fresh_vm stk ca i bytecode len workspace =
     (let vm0 = (snd (flux_vm_init stk))\<lparr>vm_sandboxed := True, vm_owner_pid := i\<rparr>;
          vm1 = (if bytecode \<noteq> None \<and> 0 < len then snd (flux_vm_load vm0 bytecode len) else vm0)
      in snd (flux_vm_region_create ca vm1 (Some ''agent_workspace'') workspace False))"

definition flux_agent_spawn ::
  "bool \<Rightarrow> bool \<Rightarrow> calloc \<Rightarrow> string option \<Rightarrow> string option \<Rightarrow> u64 \<Rightarrow> u8 list option \<Rightarrow> u64 \<Rightarrow> rt \<Rightarrow> u32 \<times> rt" where
  "flux_agent_spawn mem stk ca name model caps bytecode len r =
     (if \<not> r_initialized r then (FLUX_AGENT_ID_INVALID, r)
      else if sint (c_max_agents (r_config r)) \<le> int (agent_count_active r) then (FLUX_AGENT_ID_INVALID, r)
      else
        let (i, r1) = agent_alloc_id r in
        if i = FLUX_AGENT_ID_INVALID then (FLUX_AGENT_ID_INVALID, r1)
        else
          let idx = nat (agent_index_from_id i);
              wants_copy = (bytecode \<noteq> None \<and> 0 < len);
              r2 = upd_slot idx (\<lambda>_. zero_slot) r1
          in if wants_copy \<and> \<not> mem then (FLUX_AGENT_ID_INVALID, agent_free_id i r2)
             else
               let copy = (if wants_copy then map_option (take (unat len)) bytecode else None);
                   copy_len = (if wants_copy then len else 0);
                   desc = zero_desc\<lparr>d_agent_id := i, d_state := AGENT_CREATED, d_capabilities := caps,
                     d_name := (case name of Some n \<Rightarrow> take 63 n | None \<Rightarrow> ''agent-'' @ decimal (unat i)),
                     d_model := (case model of Some m \<Rightarrow> take 31 m | None \<Rightarrow> ''bytecode''),
                     d_pid := i, d_max_cpu_ticks := ucast (c_default_cpu_ticks (r_config r)),
                     d_max_memory := c_default_memory (r_config r), d_max_io_per_sec := 1024,
                     d_create_time := agent_now r, d_last_active := agent_now r\<rparr>;
                   r3 = upd_slot idx (\<lambda>s. s\<lparr>ag_bytecode := copy, ag_bytecode_len := copy_len,
                     ag_vm := fresh_vm stk ca i copy copy_len (c_default_memory (r_config r)),
                     ag_vm_initialized := True, ag_desc := desc, ag_active := True, ag_paused := False\<rparr>) r2
               in (i, agent_update_peak r3))"

definition flux_agent_terminate :: "u32 \<Rightarrow> rt \<Rightarrow> flux_status \<times> rt" where
  "flux_agent_terminate i r =
     (if \<not> r_initialized r then (FLUX_ERR_INVALID, r)
      else case agent_slot_by_id r i of None \<Rightarrow> (FLUX_ERR_NOTFOUND, r)
      | Some j \<Rightarrow>
          if i \<le> FLUX_AGENT_ID_COMPILER then (FLUX_ERR_DENIED, r)
          else (FLUX_OK, agent_free_id i (agent_slot_cleanup j (upd_desc j (\<lambda>d. d\<lparr>d_state := AGENT_TERMINATED\<rparr>) r))))"

definition flux_agent_pause :: "u32 \<Rightarrow> rt \<Rightarrow> flux_status \<times> rt" where
  "flux_agent_pause i r =
     (if \<not> r_initialized r then (FLUX_ERR_INVALID, r)
      else case agent_slot_by_id r i of None \<Rightarrow> (FLUX_ERR_NOTFOUND, r)
      | Some j \<Rightarrow>
          let s = r_agents r j in
          if d_state (ag_desc s) = AGENT_TERMINATED \<or> d_state (ag_desc s) = AGENT_FAILED then (FLUX_ERR_INVALID, r)
          else if ag_paused s then (FLUX_OK, r)
          else
            let vm = (if ag_vm_initialized s \<and> vm_state (ag_vm s) = VM_RUNNING
                      then snd (flux_vm_halt (ag_vm s)) else ag_vm s)
            in (FLUX_OK, upd_slot j (\<lambda>s. s\<lparr>ag_paused := True, ag_vm := vm,
                  ag_desc := (ag_desc s)\<lparr>d_last_active := agent_now r\<rparr>\<rparr>) r))"

definition flux_agent_resume :: "u32 \<Rightarrow> rt \<Rightarrow> flux_status \<times> rt" where
  "flux_agent_resume i r =
     (if \<not> r_initialized r then (FLUX_ERR_INVALID, r)
      else case agent_slot_by_id r i of None \<Rightarrow> (FLUX_ERR_NOTFOUND, r)
      | Some j \<Rightarrow>
          let s = r_agents r j in
          if \<not> ag_paused s then (FLUX_OK, r)
          else
            let vm = (if d_state (ag_desc s) = AGENT_THINKING \<and> ag_vm_initialized s
                      then (ag_vm s)\<lparr>vm_state := VM_IDLE\<rparr> else ag_vm s)
            in (FLUX_OK, upd_slot j (\<lambda>s. s\<lparr>ag_paused := False, ag_vm := vm,
                  ag_desc := (ag_desc s)\<lparr>d_last_active := agent_now r\<rparr>\<rparr>) r))"

subsection \<open>Queries\<close>

definition flux_agent_get :: "rt \<Rightarrow> u32 \<Rightarrow> agent_desc option" where
  "flux_agent_get r i =
     (if \<not> r_initialized r then None else map_option (desc_at r) (agent_slot_by_id r i))"

text \<open>\<open>buf\<close> says whether a buffer is given; the result is the count and what was copied.\<close>

definition flux_agent_list :: "rt \<Rightarrow> bool \<Rightarrow> int \<Rightarrow> int \<times> agent_desc list" where
  "flux_agent_list r buf n =
     (if \<not> r_initialized r then (0, [])
      else fold (\<lambda>i (count, out). if \<not> ag_active (r_agents r i) then (count, out)
               else (count + 1, if buf \<and> count < n then out @ [desc_at r i] else out))
             [0..<FLUX_AGENT_MAX] (0, []))"

definition flux_runtime_agent_count :: "rt \<Rightarrow> int" where
  "flux_runtime_agent_count r = (if \<not> r_initialized r then 0 else int (agent_count_active r))"

fun flux_agent_state_name :: "agent_state \<Rightarrow> string" where
  "flux_agent_state_name AGENT_CREATED = ''CREATED''"
| "flux_agent_state_name AGENT_INITIALIZING = ''INITIALIZING''"
| "flux_agent_state_name AGENT_IDLE = ''IDLE''"
| "flux_agent_state_name AGENT_THINKING = ''THINKING''"
| "flux_agent_state_name AGENT_WAITING = ''WAITING''"
| "flux_agent_state_name AGENT_DELEGATING = ''DELEGATING''"
| "flux_agent_state_name AGENT_TERMINATED = ''TERMINATED''"
| "flux_agent_state_name AGENT_FAILED = ''FAILED''"

end
