(* ===== verification/FluxA2A.thy ===== *)
theory FluxA2A
  imports FluxAgent
begin

section \<open>The agent-to-agent protocol (agent/a2a.c)\<close>

text \<open>
  Send, receive, broadcast, reply, delegate and result on the inboxes of the agents. The names carry
  the prefix \<open>agent_\<close>, because kernel/ipc.c has functions called \<open>flux_a2a_send\<close>, \<open>flux_a2a_recv\<close> and
  \<open>flux_a2a_broadcast\<close> as well. A payload is \<open>None\<close> for a NULL pointer, otherwise the bytes behind it; a
  topic is the string without its terminator.
\<close>

abbreviation (input) CAP_COMMUNICATE :: u64 where "CAP_COMMUNICATE \<equiv> 2"

subsection \<open>Inbox\<close>

definition inbox_enqueue :: "msg_ref \<Rightarrow> agent_slot \<Rightarrow> flux_status \<times> agent_slot" where
  "inbox_enqueue p s =
     (if FLUX_INBOX_SIZE \<le> ag_inbox_count s then (FLUX_ERR_OVERFLOW, s)
      else (FLUX_OK, s\<lparr>ag_inbox := (ag_inbox s)(ag_inbox_tail s := Some p),
              ag_inbox_tail := (ag_inbox_tail s + 1) mod FLUX_INBOX_SIZE,
              ag_inbox_count := ag_inbox_count s + 1, ag_inbox_total := ag_inbox_total s + 1\<rparr>))"

definition inbox_dequeue :: "agent_slot \<Rightarrow> flux_status \<times> msg_ref option \<times> agent_slot" where
  "inbox_dequeue s =
     (if ag_inbox_count s \<le> 0 then (FLUX_ERR_TIMEOUT, None, s)
      else (FLUX_OK, ag_inbox s (ag_inbox_head s),
            s\<lparr>ag_inbox := (ag_inbox s)(ag_inbox_head s := None),
              ag_inbox_head := (ag_inbox_head s + 1) mod FLUX_INBOX_SIZE,
              ag_inbox_count := ag_inbox_count s - 1\<rparr>))"

definition inbox_peek :: "agent_slot \<Rightarrow> bool" where
  "inbox_peek s = (0 < ag_inbox_count s)"

subsection \<open>Common steps\<close>

text \<open>\<open>memcpy\<close> of \<open>len\<close> bytes into a zeroed payload.\<close>

definition payload_of :: "u8 list option \<Rightarrow> u32 \<Rightarrow> nat \<Rightarrow> u8" where
  "payload_of payload len =
     (case payload of None \<Rightarrow> (\<lambda>_. 0)
      | Some bs \<Rightarrow> if 0 < len then (\<lambda>i. if i < unat len then bs ! i else 0) else (\<lambda>_. 0))"

definition wake_from :: "agent_state set \<Rightarrow> agent_desc \<Rightarrow> agent_desc" where
  "wake_from sts d = (if d_state d \<in> sts then d\<lparr>d_state := AGENT_IDLE\<rparr> else d)"

text \<open>
  The tail the five senders share: put the message in the inbox of \<open>j\<close>, or return it to the pool
  when the inbox is full.
\<close>

definition post :: "nat \<Rightarrow> msg_ref \<Rightarrow> rt \<Rightarrow> flux_status \<times> rt" where
  "post j p r =
     (let (st, s) = inbox_enqueue p (r_agents r j)
      in if st \<noteq> FLUX_OK then (st, msg_pool_free (Some p) r) else (FLUX_OK, upd_slot j (\<lambda>_. s) r))"

definition count_delivery :: "nat \<Rightarrow> nat \<Rightarrow> agent_state set \<Rightarrow> rt \<Rightarrow> rt" where
  "count_delivery i j wake r =
     (let r1 = upd_desc i (\<lambda>d. d\<lparr>d_msg_count_sent := d_msg_count_sent d + 1\<rparr>) r;
          r2 = upd_desc j (\<lambda>d. d\<lparr>d_msg_count_recv := d_msg_count_recv d + 1, d_last_active := agent_now r\<rparr>) r1;
          r3 = upd_desc i (\<lambda>d. d\<lparr>d_last_active := agent_now r\<rparr>) r2;
          r4 = r3\<lparr>r_total_messages_sent := r_total_messages_sent r3 + 1,
                  r_total_messages_recv := r_total_messages_recv r3 + 1\<rparr>
      in upd_desc j (wake_from wake) r4)"

subsection \<open>Send\<close>

definition agent_a2a_send ::
  "msg_calloc \<Rightarrow> u32 \<Rightarrow> u32 \<Rightarrow> a2a_type \<Rightarrow> u8 list option \<Rightarrow> u32 \<Rightarrow> rt \<Rightarrow> flux_status \<times> u32 option \<times> rt" where
  "agent_a2a_send ca sender target ty payload len r =
     (if \<not> r_initialized r then (FLUX_ERR_INVALID, None, r)
      else if FLUX_A2A_MAX_PAYLOAD < len then (FLUX_ERR_OVERFLOW, None, r)
      else case agent_slot_by_id r sender of None \<Rightarrow> (FLUX_ERR_NOTFOUND, None, r)
      | Some i \<Rightarrow> (case agent_slot_by_id r target of None \<Rightarrow> (FLUX_ERR_NOTFOUND, None, r)
      | Some j \<Rightarrow>
          if d_capabilities (desc_at r i) AND CAP_COMMUNICATE = 0 then (FLUX_ERR_DENIED, None, r)
          else if sender = target then (FLUX_ERR_INVALID, None, r)
          else case msg_pool_alloc ca r of
            (None, r1) \<Rightarrow> (FLUX_ERR_NOMEM, None, r1)
          | (Some p, r1) \<Rightarrow>
              let (mid, r2) = msg_generate_id r1;
                  m = (msg_at r2 p)\<lparr>m_id := mid, m_reply_to := 0, m_type := ty, m_sender := sender,
                        m_target := target, m_required_cap := 0, m_timestamp := agent_now r2, m_deadline := 0,
                        m_priority := 0, m_topic := '''', m_payload_len := len,
                        m_payload := payload_of payload len\<rparr>;
                  (st, r3) = post j p (set_msg p m r2)
              in if st \<noteq> FLUX_OK then (st, None, r3)
                 else (FLUX_OK, Some mid, count_delivery i j {AGENT_WAITING} r3)))"

subsection \<open>Receive\<close>

text \<open>The attempt that starts the call and every round of the waiting loop.\<close>

definition take_message :: "nat \<Rightarrow> rt \<Rightarrow> (a2a_msg option \<times> rt)" where
  "take_message j r =
     (case inbox_dequeue (r_agents r j) of
        (FLUX_OK, Some p, s) \<Rightarrow>
          (Some (msg_at r p),
           upd_desc j (\<lambda>d. d\<lparr>d_last_active := agent_now r\<rparr>) (msg_pool_free (Some p) (upd_slot j (\<lambda>_. s) r)))
      | (_, _, s) \<Rightarrow> (None, upd_slot j (\<lambda>_. s) r))"

datatype recv_result = Got a2a_msg | Refused flux_status

definition mark_waiting :: "u32 \<Rightarrow> rt \<Rightarrow> rt" where
  "mark_waiting i r =
     (case agent_slot_by_id r i of None \<Rightarrow> r
      | Some j \<Rightarrow> if d_state (desc_at r j) \<noteq> AGENT_TERMINATED \<and> d_state (desc_at r j) \<noteq> AGENT_FAILED
                  then upd_desc j (\<lambda>d. d\<lparr>d_state := AGENT_WAITING\<rparr>) r else r)"

text \<open>\<open>others n\<close> is what the rest of the system does before the n-th round.\<close>

fun recv_rounds ::
  "(nat \<Rightarrow> rt \<Rightarrow> rt) \<Rightarrow> u32 \<Rightarrow> u64 \<Rightarrow> u64 \<Rightarrow> nat \<Rightarrow> nat \<Rightarrow> rt \<Rightarrow> (recv_result option \<times> rt)" where
  "recv_rounds others i start deadline_ticks 0 n r = (None, r)"
| "recv_rounds others i start deadline_ticks (Suc fuel) n r0 =
     (let r = others n r0 in
      case agent_slot_by_id r i of None \<Rightarrow> (Some (Refused FLUX_ERR_NOTFOUND), r)
      | Some j \<Rightarrow>
          (case take_message j r of
             (Some m, r1) \<Rightarrow> (Some (Got m), r1)
           | (None, r1) \<Rightarrow>
               if deadline_ticks \<le> agent_now r1 - start then (Some (Refused FLUX_ERR_TIMEOUT), r1)
               else recv_rounds others i start deadline_ticks fuel (Suc n) (mark_waiting i r1)))"

definition agent_a2a_recv :: "(nat \<Rightarrow> rt \<Rightarrow> rt) \<Rightarrow> nat \<Rightarrow> u32 \<Rightarrow> bool \<Rightarrow> u32 \<Rightarrow> rt \<Rightarrow> recv_result option \<times> rt" where
  "agent_a2a_recv others fuel i buf timeout_ms r =
     (if \<not> r_initialized r \<or> \<not> buf then (Some (Refused FLUX_ERR_INVALID), r)
      else case agent_slot_by_id r i of None \<Rightarrow> (Some (Refused FLUX_ERR_NOTFOUND), r)
      | Some j \<Rightarrow>
          (case take_message j r of
             (Some m, r1) \<Rightarrow> (Some (Got m), r1)
           | (None, r1) \<Rightarrow>
               if timeout_ms = 0 then (Some (Refused FLUX_ERR_TIMEOUT), r1)
               else recv_rounds others i (agent_now r1) (ucast timeout_ms) fuel 0 r1))"

subsection \<open>Broadcast\<close>

definition find_topic :: "string \<Rightarrow> rt \<Rightarrow> nat option" where
  "find_topic name r = first_index (\<lambda>i. tp_name (r_topics r i) = name) 0 (r_num_topics r)"

text \<open>The turn of the loop for one subscriber; \<open>sent\<close> is the number of deliveries so far.\<close>

definition broadcast_to ::
  "msg_calloc \<Rightarrow> u32 \<Rightarrow> string \<Rightarrow> u8 list option \<Rightarrow> u32 \<Rightarrow> u32 \<Rightarrow> nat \<times> rt \<Rightarrow> nat \<times> rt" where
  "broadcast_to ca sender topic payload len sub_id st =
     (case st of (sent, r) \<Rightarrow>
        if sub_id = sender then (sent, r)
        else case agent_slot_by_id r sub_id of None \<Rightarrow> (sent, r)
        | Some j \<Rightarrow>
            (case msg_pool_alloc ca r of
               (None, r1) \<Rightarrow> (sent, r1)
             | (Some p, r1) \<Rightarrow>
                 let (mid, r2) = msg_generate_id r1;
                     m = (msg_at r2 p)\<lparr>m_id := mid, m_reply_to := 0, m_type := A2A_EVENT, m_sender := sender,
                           m_target := sub_id, m_required_cap := 0, m_timestamp := agent_now r2, m_deadline := 0,
                           m_priority := 1, m_payload_len := len, m_topic := take 63 topic,
                           m_payload := payload_of payload len\<rparr>;
                     (res, r3) = post j p (set_msg p m r2)
                 in if res \<noteq> FLUX_OK then (sent, r3)
                    else
                      let r4 = upd_desc j (\<lambda>d. d\<lparr>d_msg_count_recv := d_msg_count_recv d + 1,
                                 d_last_active := agent_now r3\<rparr>) r3;
                          r5 = r4\<lparr>r_total_messages_recv := r_total_messages_recv r4 + 1\<rparr>
                      in (sent + 1, upd_desc j (wake_from {AGENT_WAITING}) r5)))"

definition agent_a2a_broadcast ::
  "msg_calloc \<Rightarrow> u32 \<Rightarrow> string option \<Rightarrow> u8 list option \<Rightarrow> u32 \<Rightarrow> rt \<Rightarrow> flux_status \<times> rt" where
  "agent_a2a_broadcast ca sender topic payload len r =
     (if \<not> r_initialized r then (FLUX_ERR_INVALID, r)
      else case topic of None \<Rightarrow> (FLUX_ERR_INVALID, r)
      | Some tn \<Rightarrow>
          if tn = [] then (FLUX_ERR_INVALID, r)
          else if FLUX_A2A_MAX_PAYLOAD < len then (FLUX_ERR_OVERFLOW, r)
          else case agent_slot_by_id r sender of None \<Rightarrow> (FLUX_ERR_NOTFOUND, r)
          | Some i \<Rightarrow>
              if d_capabilities (desc_at r i) AND CAP_COMMUNICATE = 0 then (FLUX_ERR_DENIED, r)
              else case find_topic tn r of None \<Rightarrow> (FLUX_OK, r)
              | Some t \<Rightarrow>
                  let tp = r_topics r t in
                  if tp_num_subscribers tp = 0 then (FLUX_OK, r)
                  else
                    let (sent, r1) = fold (broadcast_to ca sender tn payload len)
                          (map (tp_subscribers tp) [0..<tp_num_subscribers tp]) (0, r);
                        r2 = upd_desc i (\<lambda>d. d\<lparr>d_msg_count_sent := d_msg_count_sent d + of_nat sent,
                               d_last_active := agent_now r1\<rparr>) r1
                    in (FLUX_OK, r2\<lparr>r_total_messages_sent := r_total_messages_sent r2 + of_nat sent,
                          r_total_broadcasts := r_total_broadcasts r2 + 1\<rparr>))"

subsection \<open>Reply\<close>

definition agent_a2a_reply ::
  "msg_calloc \<Rightarrow> a2a_msg option \<Rightarrow> u8 list option \<Rightarrow> u32 \<Rightarrow> rt \<Rightarrow> flux_status \<times> rt" where
  "agent_a2a_reply ca original payload len r =
     (case original of None \<Rightarrow> (FLUX_ERR_INVALID, r)
      | Some orig \<Rightarrow>
          let sender = m_target orig; target = m_sender orig in
          if \<not> r_initialized r then (FLUX_ERR_INVALID, r)
          else if FLUX_A2A_MAX_PAYLOAD < len then (FLUX_ERR_OVERFLOW, r)
          else case agent_slot_by_id r sender of None \<Rightarrow> (FLUX_ERR_NOTFOUND, r)
          | Some i \<Rightarrow>
              if d_capabilities (desc_at r i) AND CAP_COMMUNICATE = 0 then (FLUX_ERR_DENIED, r)
              else case agent_slot_by_id r target of None \<Rightarrow> (FLUX_ERR_NOTFOUND, r)
              | Some j \<Rightarrow>
                  (case msg_pool_alloc ca r of
                     (None, r1) \<Rightarrow> (FLUX_ERR_NOMEM, r1)
                   | (Some p, r1) \<Rightarrow>
                       let (mid, r2) = msg_generate_id r1;
                           m = (msg_at r2 p)\<lparr>m_id := mid, m_reply_to := m_id orig, m_type := A2A_REPLY,
                                 m_sender := sender, m_target := target, m_required_cap := 0,
                                 m_timestamp := agent_now r2, m_deadline := m_deadline orig,
                                 m_priority := m_priority orig, m_payload_len := len,
                                 m_topic := m_topic orig, m_payload := payload_of payload len\<rparr>;
                           (st, r3) = post j p (set_msg p m r2)
                       in if st \<noteq> FLUX_OK then (st, r3)
                          else (FLUX_OK, count_delivery i j {AGENT_WAITING} r3)))"

subsection \<open>Delegation\<close>

definition agent_a2a_delegate ::
  "msg_calloc \<Rightarrow> u32 \<Rightarrow> u32 \<Rightarrow> u8 list option \<Rightarrow> u32 \<Rightarrow> rt \<Rightarrow> flux_status \<times> u32 option \<times> rt" where
  "agent_a2a_delegate ca src dst task len r =
     (if \<not> r_initialized r then (FLUX_ERR_INVALID, None, r)
      else if FLUX_A2A_MAX_PAYLOAD < len then (FLUX_ERR_OVERFLOW, None, r)
      else case agent_slot_by_id r src of None \<Rightarrow> (FLUX_ERR_NOTFOUND, None, r)
      | Some i \<Rightarrow>
          if d_capabilities (desc_at r i) AND CAP_COMMUNICATE = 0 then (FLUX_ERR_DENIED, None, r)
          else case agent_slot_by_id r dst of None \<Rightarrow> (FLUX_ERR_NOTFOUND, None, r)
          | Some j \<Rightarrow>
              if src = dst then (FLUX_ERR_INVALID, None, r)
              else if 16 \<le> ag_num_delegations (r_agents r i) then (FLUX_ERR_OVERFLOW, None, r)
              else case msg_pool_alloc ca r of
                (None, r1) \<Rightarrow> (FLUX_ERR_NOMEM, None, r1)
              | (Some p, r1) \<Rightarrow>
                  let (mid, r2) = msg_generate_id r1;
                      m = (msg_at r2 p)\<lparr>m_id := mid, m_reply_to := 0, m_type := A2A_DELEGATE, m_sender := src,
                            m_target := dst, m_required_cap := 0, m_timestamp := agent_now r2, m_deadline := 0,
                            m_priority := 2, m_payload_len := len, m_payload := payload_of task len\<rparr>;
                      (st, r3) = post j p (set_msg p m r2)
                  in if st \<noteq> FLUX_OK then (st, None, r3)
                     else
                       let r4 = upd_slot i (\<lambda>s. s\<lparr>ag_delegations := (ag_delegations s)
                                  (ag_num_delegations s := \<lparr>dg_msg_id = mid, dg_target = dst, dg_active = True\<rparr>),
                                ag_num_delegations := ag_num_delegations s + 1\<rparr>) r3;
                           r5 = upd_desc i (\<lambda>d. d\<lparr>d_delegate_count := d_delegate_count d + 1,
                                  d_state := AGENT_DELEGATING\<rparr>) (count_delivery i j {AGENT_WAITING} r4)
                       in (FLUX_OK, Some mid, r5\<lparr>r_total_delegations := r_total_delegations r5 + 1\<rparr>))"

text \<open>
  The search for the delegator: the first delegation under that id in each active slot is marked as
  complete, and the search ends with the id of that agent if it is not 0.
\<close>

fun find_delegator :: "u32 \<Rightarrow> nat list \<Rightarrow> rt \<Rightarrow> u32 \<times> rt" where
  "find_delegator mid [] r = (FLUX_AGENT_ID_INVALID, r)"
| "find_delegator mid (i # is) r =
     (if \<not> ag_active (r_agents r i) then find_delegator mid is r
      else case first_index (\<lambda>n. dg_msg_id (ag_delegations (r_agents r i) n) = mid) 0
                  (ag_num_delegations (r_agents r i)) of
        None \<Rightarrow> find_delegator mid is r
      | Some n \<Rightarrow>
          let r1 = upd_slot i (\<lambda>s. s\<lparr>ag_delegations := (ag_delegations s)
                     (n := (ag_delegations s n)\<lparr>dg_active := False\<rparr>)\<rparr>) r
          in if d_agent_id (desc_at r i) \<noteq> FLUX_AGENT_ID_INVALID then (d_agent_id (desc_at r i), r1)
             else find_delegator mid is r1)"

definition agent_a2a_delegate_result ::
  "msg_calloc \<Rightarrow> u32 \<Rightarrow> u32 \<Rightarrow> u8 list option \<Rightarrow> u32 \<Rightarrow> rt \<Rightarrow> flux_status \<times> rt" where
  "agent_a2a_delegate_result ca worker delegate_msg_id res len r =
     (if \<not> r_initialized r then (FLUX_ERR_INVALID, r)
      else if FLUX_A2A_MAX_PAYLOAD < len then (FLUX_ERR_OVERFLOW, r)
      else case agent_slot_by_id r worker of None \<Rightarrow> (FLUX_ERR_NOTFOUND, r)
      | Some i \<Rightarrow>
          if d_capabilities (desc_at r i) AND CAP_COMMUNICATE = 0 then (FLUX_ERR_DENIED, r)
          else
            let (delegator, r0) = find_delegator delegate_msg_id [0..<FLUX_AGENT_MAX] r
            in if delegator = FLUX_AGENT_ID_INVALID then (FLUX_ERR_NOTFOUND, r0)
              else case agent_slot_by_id r0 delegator of None \<Rightarrow> (FLUX_ERR_NOTFOUND, r0)
              | Some j \<Rightarrow>
                  (case msg_pool_alloc ca r0 of
                     (None, r1) \<Rightarrow> (FLUX_ERR_NOMEM, r1)
                   | (Some p, r1) \<Rightarrow>
                       let (mid, r2) = msg_generate_id r1;
                           m = (msg_at r2 p)\<lparr>m_id := mid, m_reply_to := delegate_msg_id, m_type := A2A_RESULT,
                                 m_sender := worker, m_target := delegator, m_required_cap := 0,
                                 m_timestamp := agent_now r2, m_deadline := 0, m_priority := 2,
                                 m_payload_len := len, m_payload := payload_of res len\<rparr>;
                           (st, r3) = post j p (set_msg p m r2)
                       in if st \<noteq> FLUX_OK then (st, r3)
                          else (FLUX_OK, count_delivery i j {AGENT_WAITING, AGENT_DELEGATING} r3)))"


subsection \<open>Names (agent/agent_internal.h)\<close>

fun a2a_type_name :: "a2a_type \<Rightarrow> string" where
  "a2a_type_name A2A_TELL = ''TELL''"
| "a2a_type_name A2A_ASK = ''ASK''"
| "a2a_type_name A2A_REPLY = ''REPLY''"
| "a2a_type_name A2A_DELEGATE = ''DELEGATE''"
| "a2a_type_name A2A_RESULT = ''RESULT''"
| "a2a_type_name A2A_BARRIER = ''BARRIER''"
| "a2a_type_name A2A_SUBSCRIBE = ''SUBSCRIBE''"
| "a2a_type_name A2A_EVENT = ''EVENT''"
| "a2a_type_name A2A_ERROR = ''ERROR''"
| "a2a_type_name A2A_CAPABILITY = ''CAPABILITY''"
| "a2a_type_name A2A_HEARTBEAT = ''HEARTBEAT''"

end
