(* ===== verification/FluxMail.thy ===== *)
theory FluxMail
  imports FluxA2A
begin

section \<open>Who owns which message\<close>

text \<open>
  Messages are shared objects: the pool and the C heap hold them, the inboxes point to them.
  \<open>held r\<close> is the multiset of pointers in the inboxes, \<open>live_refs r\<close> the set of allocated messages.
  \<open>owes r M\<close> says that the allocated messages are, each exactly once, those in an inbox and those in
  \<open>M\<close>: the ones the running operation has in its hands. Between operations \<open>M\<close> is empty, so no
  message is in two inboxes, none is lost and none in an inbox has been freed. \<open>mail r i\<close> is what
  the inbox of slot \<open>i\<close> stands for, a list of messages.
\<close>

definition inbox_list :: "agent_slot \<Rightarrow> msg_ref option list" where
  "inbox_list s = ring_list 64 (ag_inbox s) (ag_inbox_head s) (ag_inbox_count s)"

definition inbox_refs :: "agent_slot \<Rightarrow> msg_ref list" where
  "inbox_refs s = map the (inbox_list s)"

definition inbox_ok :: "agent_slot \<Rightarrow> bool" where
  "inbox_ok s \<longleftrightarrow> ag_inbox_head s < 64 \<and> ag_inbox_count s \<le> 64
     \<and> ag_inbox_tail s = (ag_inbox_head s + ag_inbox_count s) mod 64 \<and> None \<notin> set (inbox_list s)"

definition live_refs :: "rt \<Rightarrow> msg_ref set" where
  "live_refs r = Pooled ` {i. i < 512 \<and> bitmap_test (r_pool_allocated r) i} \<union> Heaped ` dom (r_heap_messages r)"

definition held :: "rt \<Rightarrow> msg_ref multiset" where
  "held r = (\<Sum>i < 64. mset (inbox_refs (r_agents r i)))"

definition owes :: "rt \<Rightarrow> msg_ref multiset \<Rightarrow> bool" where
  "owes r M \<longleftrightarrow> finite (dom (r_heap_messages r)) \<and> held r + M = mset_set (live_refs r)"

definition mail :: "rt \<Rightarrow> nat \<Rightarrow> a2a_msg list" where
  "mail r i = map (msg_at r) (inbox_refs (r_agents r i))"

text \<open>\<open>calloc\<close> never returns a block that is in use.\<close>

definition fresh_calloc :: "msg_calloc \<Rightarrow> bool" where
  "fresh_calloc ca \<longleftrightarrow> (\<forall>used a. finite {x. used x} \<and> ca used = Some a \<longrightarrow> \<not> used a)"

subsection \<open>Frames\<close>

lemma upd_slot_simps [simp]:
  "r_agents (upd_slot i f r) = (r_agents r)(i := f (r_agents r i))"
  "r_initialized (upd_slot i f r) = r_initialized r" "r_config (upd_slot i f r) = r_config r"
  "r_agent_bitmap (upd_slot i f r) = r_agent_bitmap r" "r_pool_messages (upd_slot i f r) = r_pool_messages r"
  "r_pool_allocated (upd_slot i f r) = r_pool_allocated r" "r_heap_messages (upd_slot i f r) = r_heap_messages r"
  "r_next_msg_id (upd_slot i f r) = r_next_msg_id r" "r_topics (upd_slot i f r) = r_topics r"
  "r_num_topics (upd_slot i f r) = r_num_topics r" "r_pub_caps (upd_slot i f r) = r_pub_caps r"
  "r_num_pub_caps (upd_slot i f r) = r_num_pub_caps r" "r_tick_counter (upd_slot i f r) = r_tick_counter r"
  "r_schedule_cursor (upd_slot i f r) = r_schedule_cursor r"
  by (simp_all add: upd_slot_def)

lemma upd_desc_simps [simp]:
  "r_agents (upd_desc i f r) = (r_agents r)(i := (r_agents r i)\<lparr>ag_desc := f (ag_desc (r_agents r i))\<rparr>)"
  "r_initialized (upd_desc i f r) = r_initialized r" "r_config (upd_desc i f r) = r_config r"
  "r_agent_bitmap (upd_desc i f r) = r_agent_bitmap r" "r_pool_messages (upd_desc i f r) = r_pool_messages r"
  "r_pool_allocated (upd_desc i f r) = r_pool_allocated r" "r_heap_messages (upd_desc i f r) = r_heap_messages r"
  "r_next_msg_id (upd_desc i f r) = r_next_msg_id r" "r_topics (upd_desc i f r) = r_topics r"
  "r_num_topics (upd_desc i f r) = r_num_topics r" "r_pub_caps (upd_desc i f r) = r_pub_caps r"
  "r_num_pub_caps (upd_desc i f r) = r_num_pub_caps r" "r_tick_counter (upd_desc i f r) = r_tick_counter r"
  "r_schedule_cursor (upd_desc i f r) = r_schedule_cursor r"
  by (simp_all add: upd_desc_def)

lemma inbox_fields [simp]:
  "inbox_list (s\<lparr>ag_desc := d\<rparr>) = inbox_list s" "inbox_refs (s\<lparr>ag_desc := d\<rparr>) = inbox_refs s"
  "inbox_ok (s\<lparr>ag_desc := d\<rparr>) = inbox_ok s" "inbox_refs (s\<lparr>ag_vm := v\<rparr>) = inbox_refs s"
  "inbox_ok (s\<lparr>ag_vm := v\<rparr>) = inbox_ok s"
  by (simp_all add: inbox_list_def inbox_refs_def inbox_ok_def)

text \<open>What the mail depends on: the pool, the heap and the four fields of each inbox.\<close>

definition same_mail :: "rt \<Rightarrow> rt \<Rightarrow> bool" where
  "same_mail r r' \<longleftrightarrow> r_pool_allocated r' = r_pool_allocated r \<and> r_heap_messages r' = r_heap_messages r
     \<and> r_pool_messages r' = r_pool_messages r
     \<and> (\<forall>i. ag_inbox (r_agents r' i) = ag_inbox (r_agents r i) \<and> ag_inbox_head (r_agents r' i) = ag_inbox_head (r_agents r i)
          \<and> ag_inbox_tail (r_agents r' i) = ag_inbox_tail (r_agents r i)
          \<and> ag_inbox_count (r_agents r' i) = ag_inbox_count (r_agents r i))"

lemma same_mail_refl [simp]: "same_mail r r"
  by (simp add: same_mail_def)

lemma same_mail_trans: "same_mail r r' \<Longrightarrow> same_mail r' r'' \<Longrightarrow> same_mail r r''"
  by (simp add: same_mail_def)

lemma same_mailD:
  assumes "same_mail r r'"
  shows "held r' = held r" "live_refs r' = live_refs r" "owes r' M = owes r M" "mail r' i = mail r i"
    "inbox_ok (r_agents r' i) = inbox_ok (r_agents r i)" "inbox_refs (r_agents r' i) = inbox_refs (r_agents r i)"
proof -
  have refs: "inbox_refs (r_agents r' i) = inbox_refs (r_agents r i)" for i
    using assms by (simp add: same_mail_def inbox_refs_def inbox_list_def)
  then show "inbox_refs (r_agents r' i) = inbox_refs (r_agents r i)" .
  show h: "held r' = held r" by (simp add: held_def refs)
  show l: "live_refs r' = live_refs r" using assms by (simp add: same_mail_def live_refs_def)
  show "owes r' M = owes r M" using assms h l by (simp add: same_mail_def owes_def)
  have "msg_at r' = msg_at r" using assms by (auto simp: same_mail_def msg_at_def split: msg_ref.split)
  then show "mail r' i = mail r i" by (simp add: mail_def refs)
  show "inbox_ok (r_agents r' i) = inbox_ok (r_agents r i)"
    using assms by (simp add: same_mail_def inbox_ok_def inbox_list_def)
qed

lemma same_mail_desc [simp]: "same_mail r (upd_desc i f r)"
  by (simp add: same_mail_def)

lemma same_mail_slot:
  "(\<And>s. ag_inbox (f s) = ag_inbox s \<and> ag_inbox_head (f s) = ag_inbox_head s \<and> ag_inbox_tail (f s) = ag_inbox_tail s
     \<and> ag_inbox_count (f s) = ag_inbox_count s) \<Longrightarrow> same_mail r (upd_slot i f r)"
  by (simp add: same_mail_def)

lemma held_upd_slot:
  assumes "i < 64"
  shows "held (upd_slot i f r) + mset (inbox_refs (r_agents r i)) = held r + mset (inbox_refs (f (r_agents r i)))"
proof -
  have "(\<Sum>k < 64. mset (inbox_refs (g k))) = mset (inbox_refs (g i)) + (\<Sum>k \<in> {..<64} - {i}. mset (inbox_refs (g k)))"
    for g :: "nat \<Rightarrow> agent_slot"
    using assms by (intro sum.remove) auto
  note split = this
  have "(\<Sum>k \<in> {..<64} - {i}. mset (inbox_refs (r_agents (upd_slot i f r) k))) =
      (\<Sum>k \<in> {..<64} - {i}. mset (inbox_refs (r_agents r k)))"
    by (rule sum.cong) auto
  then show ?thesis
    using split [of "r_agents (upd_slot i f r)"] split [of "r_agents r"]
    by (simp add: held_def del: upd_slot_simps(1)) (simp add: union_ac)
qed


subsection \<open>Allocating and freeing\<close>

lemma msg_at_set_msg [simp]: "msg_at (set_msg p m r) q = (if q = p then m else msg_at r q)"
  by (auto simp: msg_at_def set_msg_def split: msg_ref.split)

lemma set_msg_frame [simp]:
  "r_agents (set_msg p m r) = r_agents r" "r_pool_allocated (set_msg p m r) = r_pool_allocated r"
  "r_initialized (set_msg p m r) = r_initialized r" "r_config (set_msg p m r) = r_config r"
  "r_agent_bitmap (set_msg p m r) = r_agent_bitmap r" "r_topics (set_msg p m r) = r_topics r"
  "r_num_topics (set_msg p m r) = r_num_topics r" "r_pub_caps (set_msg p m r) = r_pub_caps r"
  "r_num_pub_caps (set_msg p m r) = r_num_pub_caps r" "r_tick_counter (set_msg p m r) = r_tick_counter r"
  by (simp_all add: set_msg_def split: msg_ref.split)

lemma live_refs_set_msg: "p \<in> live_refs r \<Longrightarrow> live_refs (set_msg p m r) = live_refs r"
  by (auto simp: live_refs_def set_msg_def split: msg_ref.splits)

lemma finite_live_refs [simp]: "finite (dom (r_heap_messages r)) \<Longrightarrow> finite (live_refs r)"
  by (simp add: live_refs_def)

lemma owes_set_msg:
  assumes "owes r M" "p \<in> live_refs r" shows "owes (set_msg p m r) M"
proof -
  have "finite (dom (r_heap_messages (set_msg p m r)))"
    using assms(1) by (simp add: owes_def set_msg_def split: msg_ref.split)
  then show ?thesis using assms by (simp add: owes_def live_refs_set_msg held_def)
qed

lemma alloc_scan:
  "first_index (\<lambda>i. r_pool_allocated r (i div 64) AND push_bit (i mod 64) 1 = 0) 0 512 =
   first_index (\<lambda>i. \<not> bitmap_test (r_pool_allocated r) i) 0 512"
  by (simp add: bitmap_test_def)

lemma pool_alloc_cases:
  assumes "msg_pool_alloc ca r = (q, r')" "owes r M" "fresh_calloc ca"
  shows "case q of None \<Rightarrow> r' = r
    | Some p \<Rightarrow> p \<notin> live_refs r \<and> live_refs r' = insert p (live_refs r) \<and> owes r' (add_mset p M)
        \<and> msg_at r' = (msg_at r)(p := zero_msg)
        \<and> (\<exists>pm pa hm. r' = r\<lparr>r_pool_messages := pm, r_pool_allocated := pa, r_heap_messages := hm\<rparr>)"
proof (cases "first_index (\<lambda>i. \<not> bitmap_test (r_pool_allocated r) i) 0 512")
  case (Some i)
  let ?bm = "bitmap_set (r_pool_allocated r) i"
  let ?r = "set_msg (Pooled i) zero_msg (r\<lparr>r_pool_allocated := ?bm\<rparr>)"
  have i: "i < 512" "\<not> bitmap_test (r_pool_allocated r) i" using Some by (auto simp: first_index_Some)
  have q: "q = Some (Pooled i)" "r' = ?r"
    using assms(1) Some unfolding msg_pool_alloc_def alloc_scan by (simp_all add: bitmap_set_def)
  have new: "Pooled i \<notin> live_refs r" using i by (auto simp: live_refs_def)
  have live: "live_refs ?r = insert (Pooled i) (live_refs r)"
    using i by (auto simp: live_refs_def set_msg_def)
  have fin: "finite (dom (r_heap_messages r))" using assms(2) by (simp add: owes_def)
  have "owes ?r (add_mset (Pooled i) M)"
    using assms(2) new live fin by (simp add: owes_def held_def set_msg_def)
  moreover have "msg_at ?r = (msg_at r)(Pooled i := zero_msg)"
    by (rule ext) (simp, auto simp: msg_at_def split: msg_ref.split)
  moreover have "\<exists>pm pa hm. ?r = r\<lparr>r_pool_messages := pm, r_pool_allocated := pa, r_heap_messages := hm\<rparr>"
    by (rule exI [of _ "(r_pool_messages r)(i := zero_msg)"], rule exI [of _ ?bm], rule exI [of _ "r_heap_messages r"])
      (simp add: set_msg_def)
  ultimately show ?thesis using q new live by simp
next
  case None
  show ?thesis
  proof (cases "ca (\<lambda>a. r_heap_messages r a \<noteq> None)")
    case no: None
    then show ?thesis using assms(1) None unfolding msg_pool_alloc_def alloc_scan by simp
  next
    case (Some a)
    let ?r = "set_msg (Heaped a) zero_msg r"
    have q: "q = Some (Heaped a)" "r' = ?r"
      using assms(1) None Some unfolding msg_pool_alloc_def alloc_scan by simp_all
    have fin: "finite (dom (r_heap_messages r))" using assms(2) by (simp add: owes_def)
    have new: "a \<notin> dom (r_heap_messages r)" using assms(3) fin Some unfolding fresh_calloc_def dom_def mem_Collect_eq by blast
    then have new': "Heaped a \<notin> live_refs r" by (auto simp: live_refs_def)
    have live: "live_refs ?r = insert (Heaped a) (live_refs r)"
      by (auto simp: live_refs_def set_msg_def)
    have "owes ?r (add_mset (Heaped a) M)"
      using assms(2) new' live fin by (simp add: owes_def held_def set_msg_def)
    moreover have "msg_at ?r = (msg_at r)(Heaped a := zero_msg)" by (rule ext) simp
    moreover have "\<exists>pm pa hm. ?r = r\<lparr>r_pool_messages := pm, r_pool_allocated := pa, r_heap_messages := hm\<rparr>"
      by (rule exI [of _ "r_pool_messages r"], rule exI [of _ "r_pool_allocated r"],
          rule exI [of _ "(r_heap_messages r)(a \<mapsto> zero_msg)"]) (simp add: set_msg_def)
    ultimately show ?thesis using q new' live by simp
  qed
qed

lemma owes_live: "owes r (add_mset p M) \<Longrightarrow> p \<in> live_refs r"
proof -
  assume "owes r (add_mset p M)"
  then have f: "finite (live_refs r)" and e: "held r + add_mset p M = mset_set (live_refs r)" by (simp_all add: owes_def)
  have "p \<in># held r + add_mset p M" by simp
  then have "p \<in># mset_set (live_refs r)" by (simp only: e)
  then show ?thesis using f by simp
qed

lemma pool_free_simps:
  "msg_pool_free (Some (Pooled i)) r =
     (if i < 512 then set_msg (Pooled i) zero_msg (r\<lparr>r_pool_allocated := bitmap_clear (r_pool_allocated r) i,
        r_pool_freed := r_pool_freed r + 1\<rparr>) else r)"
  "msg_pool_free (Some (Heaped a)) r = r\<lparr>r_heap_messages := (r_heap_messages r)(a := None)\<rparr>"
  by (simp_all only: msg_pool_free_def option.case msg_ref.case bitmap_clear_def)

lemma pool_free_owes:
  assumes "owes r (add_mset p M)"
  shows "owes (msg_pool_free (Some p) r) M" "live_refs (msg_pool_free (Some p) r) = live_refs r - {p}"
    "q \<noteq> p \<Longrightarrow> msg_at (msg_pool_free (Some p) r) q = msg_at r q"
    "r_agents (msg_pool_free (Some p) r) = r_agents r"
proof -
  have p: "p \<in> live_refs r" by (rule owes_live [OF assms])
  have fin: "finite (dom (r_heap_messages r))" using assms by (simp add: owes_def)
  show live: "live_refs (msg_pool_free (Some p) r) = live_refs r - {p}"
    using p by (cases p) (auto simp: live_refs_def pool_free_simps set_msg_def image_iff split: if_splits)
  show ag: "r_agents (msg_pool_free (Some p) r) = r_agents r"
    by (cases p) (simp_all add: pool_free_simps)
  have "held r + add_mset p M = mset_set (live_refs r)" using assms by (simp add: owes_def)
  then have "held r + M = mset_set (live_refs r) - {#p#}" by (metis add_mset_remove_trivial union_mset_add_mset_right)
  then have "held r + M = mset_set (live_refs r - {p})" using p fin by (simp add: mset_set_Diff)
  moreover have "finite (dom (r_heap_messages (msg_pool_free (Some p) r)))"
    using fin by (cases p) (simp_all add: pool_free_simps set_msg_def)
  ultimately show "owes (msg_pool_free (Some p) r) M" by (simp add: owes_def live ag held_def)
  show "q \<noteq> p \<Longrightarrow> msg_at (msg_pool_free (Some p) r) q = msg_at r q"
    by (cases p) (auto simp: pool_free_simps msg_at_def set_msg_def split: msg_ref.split)
qed


subsection \<open>The inbox as a queue\<close>

lemma inbox_refs_length [simp]: "length (inbox_refs s) = ag_inbox_count s"
  by (simp add: inbox_refs_def inbox_list_def)

lemma enqueue_room:
  assumes "inbox_ok s" "ag_inbox_count s < 64"
  shows "\<exists>s'. inbox_enqueue p s = (FLUX_OK, s') \<and> inbox_ok s' \<and> inbox_refs s' = inbox_refs s @ [p]
    \<and> (\<exists>a t c n. s' = s\<lparr>ag_inbox := a, ag_inbox_tail := t, ag_inbox_count := c, ag_inbox_total := n\<rparr>)"
proof -
  let ?h = "ag_inbox_head s" and ?c = "ag_inbox_count s"
  let ?s = "snd (inbox_enqueue p s)"
  have t: "ag_inbox_tail s = (?h + ?c) mod 64" using assms(1) by (simp add: inbox_ok_def)
  have e: "inbox_enqueue p s = (FLUX_OK, ?s)" using assms(2) by (simp add: inbox_enqueue_def)
  have l: "inbox_list ?s = inbox_list s @ [Some p]"
  proof -
    have "(?h + i) mod 64 \<noteq> (?h + ?c) mod 64" if "i < ?c" for i
      using mod_window_eq [of i 64 ?c ?h] that assms(2) by simp
    then show ?thesis using assms(2) t by (simp add: inbox_enqueue_def inbox_list_def ring_list_def)
  qed
  have "inbox_ok ?s"
    using assms t l by (simp add: inbox_ok_def inbox_enqueue_def mod_simps add.assoc)
  moreover have "inbox_refs ?s = inbox_refs s @ [p]" by (simp add: inbox_refs_def l)
  moreover have "\<exists>a t c n. ?s = s\<lparr>ag_inbox := a, ag_inbox_tail := t, ag_inbox_count := c, ag_inbox_total := n\<rparr>"
    using assms(2) by (auto simp: inbox_enqueue_def)
  ultimately show ?thesis using e by blast
qed

lemma enqueue_full: "\<not> ag_inbox_count s < 64 \<Longrightarrow> inbox_enqueue p s = (FLUX_ERR_OVERFLOW, s)"
  by (simp add: inbox_enqueue_def)

lemma dequeue_empty: "ag_inbox_count s = 0 \<Longrightarrow> inbox_dequeue s = (FLUX_ERR_TIMEOUT, None, s)"
  by (simp add: inbox_dequeue_def)

lemma dequeue_head:
  assumes "inbox_ok s" "inbox_refs s = p # ps"
  shows "\<exists>s'. inbox_dequeue s = (FLUX_OK, Some p, s') \<and> inbox_ok s' \<and> inbox_refs s' = ps
    \<and> (\<exists>a h c. s' = s\<lparr>ag_inbox := a, ag_inbox_head := h, ag_inbox_count := c\<rparr>)"
proof -
  let ?h = "ag_inbox_head s" and ?c = "ag_inbox_count s"
  let ?s = "s\<lparr>ag_inbox := (ag_inbox s)(?h := None), ag_inbox_head := (?h + 1) mod 64, ag_inbox_count := ?c - 1\<rparr>"
  have b: "?h < 64" "?c \<le> 64" "None \<notin> set (inbox_list s)" "ag_inbox_tail s = (?h + ?c) mod 64"
    using assms(1) by (auto simp: inbox_ok_def)
  have c: "0 < ?c" using assms(2) inbox_refs_length [of s] by simp
  have "(?h + 1 + i) mod 64 \<noteq> ?h" if "i < ?c - 1" for i
    using mod_window_eq [of "i + 1" 64 0 ?h] that b(1,2) by simp
  then have "inbox_list s ! Suc i = inbox_list ?s ! i" if "i < ?c - 1" for i
    using that by (simp add: inbox_list_def mod_simps)
  then have l: "inbox_list s = ag_inbox s ?h # inbox_list ?s"
    using b(1) c by (intro nth_equalityI) (auto simp: inbox_list_def nth_Cons split: nat.split)
  obtain q where q: "ag_inbox s ?h = Some q" using b(3) by (cases "ag_inbox s ?h") (auto simp: l)
  have p: "q = p" "inbox_refs ?s = ps" using assms(2) unfolding inbox_refs_def l q by simp_all
  have "(?h + 1 + (?c - 1)) mod 64 = (?h + ?c) mod 64" using c by simp
  then have "inbox_ok ?s" using b l by (simp add: inbox_ok_def mod_simps)
  moreover have "inbox_dequeue s = (FLUX_OK, Some p, ?s)" using c q p by (simp add: inbox_dequeue_def)
  ultimately show ?thesis using p by blast
qed

interpretation inbox: gap_queue inbox_ok inbox_refs 64 "\<lambda>s p. snd (inbox_enqueue p s)" "\<lambda>_ i. i = 0"
    "\<lambda>s _. snd (snd (inbox_dequeue s))"
proof unfold_locales
  fix s e assume "inbox_ok s" "length (inbox_refs s) < 64"
  then show "inbox_ok (snd (inbox_enqueue e s)) \<and> inbox_refs (snd (inbox_enqueue e s)) = inbox_refs s @ [e]"
    using enqueue_room [of s e] by auto
next
  fix s and i :: nat assume "inbox_ok s" "i < length (inbox_refs s)" "i = 0"
  then show "inbox_ok (snd (snd (inbox_dequeue s))) \<and> inbox_refs (snd (snd (inbox_dequeue s)))
      = take i (inbox_refs s) @ drop (Suc i) (inbox_refs s)"
    using dequeue_head [of s] by (cases "inbox_refs s") auto
qed (auto simp: inbox_ok_def)


subsection \<open>Posting a message\<close>

definition boxes_ok :: "rt \<Rightarrow> bool" where
  "boxes_ok r \<longleftrightarrow> (\<forall>i < 64. inbox_ok (r_agents r i))"

text \<open>Everything but the messages and the inboxes.\<close>

definition same_rest :: "rt \<Rightarrow> rt \<Rightarrow> bool" where
  "same_rest r r' \<longleftrightarrow> r_initialized r' = r_initialized r \<and> r_config r' = r_config r
     \<and> r_agent_bitmap r' = r_agent_bitmap r \<and> r_topics r' = r_topics r \<and> r_num_topics r' = r_num_topics r
     \<and> r_pub_caps r' = r_pub_caps r \<and> r_num_pub_caps r' = r_num_pub_caps r \<and> r_tick_counter r' = r_tick_counter r
     \<and> (\<forall>i. \<exists>a h t c n. r_agents r' i = (r_agents r i)\<lparr>ag_inbox := a, ag_inbox_head := h, ag_inbox_tail := t,
           ag_inbox_count := c, ag_inbox_total := n\<rparr>)
     \<and> (\<forall>i. \<not> ag_active (r_agents r i) \<longrightarrow> r_agents r' i = r_agents r i)"

lemma same_rest_refl [simp]: "same_rest r r"
proof -
  have "s = s\<lparr>ag_inbox := ag_inbox s, ag_inbox_head := ag_inbox_head s, ag_inbox_tail := ag_inbox_tail s,
      ag_inbox_count := ag_inbox_count s, ag_inbox_total := ag_inbox_total s\<rparr>" for s :: agent_slot
    by simp
  then show ?thesis unfolding same_rest_def by blast
qed

lemma same_rest_agents:
  assumes "same_rest r r'"
  shows "ag_desc (r_agents r' i) = ag_desc (r_agents r i)" "ag_active (r_agents r' i) = ag_active (r_agents r i)"
    "ag_vm (r_agents r' i) = ag_vm (r_agents r i)" "ag_paused (r_agents r' i) = ag_paused (r_agents r i)"
    "ag_vm_initialized (r_agents r' i) = ag_vm_initialized (r_agents r i)"
    "ag_num_delegations (r_agents r' i) = ag_num_delegations (r_agents r i)"
    "ag_delegations (r_agents r' i) = ag_delegations (r_agents r i)"
proof -
  obtain a h t c n where "r_agents r' i = (r_agents r i)\<lparr>ag_inbox := a, ag_inbox_head := h, ag_inbox_tail := t,
           ag_inbox_count := c, ag_inbox_total := n\<rparr>"
    using assms unfolding same_rest_def by blast
  then show "ag_desc (r_agents r' i) = ag_desc (r_agents r i)" "ag_active (r_agents r' i) = ag_active (r_agents r i)"
    "ag_vm (r_agents r' i) = ag_vm (r_agents r i)" "ag_paused (r_agents r' i) = ag_paused (r_agents r i)"
    "ag_vm_initialized (r_agents r' i) = ag_vm_initialized (r_agents r i)"
    "ag_num_delegations (r_agents r' i) = ag_num_delegations (r_agents r i)"
    "ag_delegations (r_agents r' i) = ag_delegations (r_agents r i)"
    by simp_all
qed

lemma same_restI:
  assumes "\<And>i. \<exists>a h t c n. r_agents r' i = (r_agents r i)\<lparr>ag_inbox := a, ag_inbox_head := h, ag_inbox_tail := t,
           ag_inbox_count := c, ag_inbox_total := n\<rparr>"
    and "r_initialized r' = r_initialized r \<and> r_config r' = r_config r
     \<and> r_agent_bitmap r' = r_agent_bitmap r \<and> r_topics r' = r_topics r \<and> r_num_topics r' = r_num_topics r
     \<and> r_pub_caps r' = r_pub_caps r \<and> r_num_pub_caps r' = r_num_pub_caps r \<and> r_tick_counter r' = r_tick_counter r"
    and "\<And>i. \<not> ag_active (r_agents r i) \<Longrightarrow> r_agents r' i = r_agents r i"
  shows "same_rest r r'"
  using assms unfolding same_rest_def by blast

lemma same_rest_eq_agents:
  assumes "r_agents r' = r_agents r" "r_initialized r' = r_initialized r \<and> r_config r' = r_config r
     \<and> r_agent_bitmap r' = r_agent_bitmap r \<and> r_topics r' = r_topics r \<and> r_num_topics r' = r_num_topics r
     \<and> r_pub_caps r' = r_pub_caps r \<and> r_num_pub_caps r' = r_num_pub_caps r \<and> r_tick_counter r' = r_tick_counter r"
  shows "same_rest r r'"
proof -
  have "s = s\<lparr>ag_inbox := ag_inbox s, ag_inbox_head := ag_inbox_head s, ag_inbox_tail := ag_inbox_tail s,
      ag_inbox_count := ag_inbox_count s, ag_inbox_total := ag_inbox_total s\<rparr>" for s :: agent_slot
    by simp
  then show ?thesis using assms unfolding same_rest_def by metis
qed

lemma owes_not_held:
  assumes "owes r (add_mset p M)" "i < 64" shows "p \<notin> set (inbox_refs (r_agents r i))"
proof
  assume "p \<in> set (inbox_refs (r_agents r i))"
  then have "1 \<le> count (mset (inbox_refs (r_agents r i))) p" by (simp add: Suc_le_eq)
  also have "\<dots> \<le> (\<Sum>k < 64. count (mset (inbox_refs (r_agents r k))) p)"
    using assms(2) by (intro member_le_sum) auto
  also have "\<dots> = count (held r) p" by (simp add: held_def count_sum)
  finally have "1 \<le> count (held r) p" .
  moreover have "count (held r + add_mset p M) p = count (held r) p + (count M p + 1)" by simp
  ultimately have "2 \<le> count (held r + add_mset p M) p" by linarith
  moreover have "held r + add_mset p M = mset_set (live_refs r)" using assms(1) by (simp add: owes_def)
  ultimately have "2 \<le> count (mset_set (live_refs r)) p" by (simp only:)
  then show False by (simp add: count_mset_set' split: if_splits)
qed

lemma boxes_okD: "boxes_ok r \<Longrightarrow> i < 64 \<Longrightarrow> inbox_ok (r_agents r i)"
  by (simp add: boxes_ok_def)

lemma post_cases:
  assumes "owes r (add_mset p M)" "boxes_ok r" "j < 64" "post j p r = (st, r')" "ag_active (r_agents r j)"
  shows "owes r' M \<and> boxes_ok r' \<and> same_rest r r'
    \<and> (if ag_inbox_count (r_agents r j) < 64
       then st = FLUX_OK \<and> (\<forall>k < 64. mail r' k = mail r k @ (if k = j then [msg_at r p] else []))
       else st = FLUX_ERR_OVERFLOW \<and> (\<forall>k < 64. mail r' k = mail r k))"
proof (cases "ag_inbox_count (r_agents r j) < 64")
  case True
  obtain s where e: "inbox_enqueue p (r_agents r j) = (FLUX_OK, s)" "inbox_ok s" "inbox_refs s = inbox_refs (r_agents r j) @ [p]"
    and f: "\<exists>a t c n. s = (r_agents r j)\<lparr>ag_inbox := a, ag_inbox_tail := t, ag_inbox_count := c, ag_inbox_total := n\<rparr>"
    using enqueue_room [OF boxes_okD [OF assms(2,3)] True] by blast
  have r': "st = FLUX_OK" "r' = upd_slot j (\<lambda>_. s) r" using assms(4) e(1) by (simp_all add: post_def)
  have "held r' + mset (inbox_refs (r_agents r j)) = held r + (mset (inbox_refs (r_agents r j)) + {#p#})"
    using held_upd_slot [OF assms(3), of "\<lambda>_. s" r] unfolding r'(2) e(3) by simp
  then have "held r' = held r + {#p#}" by simp
  moreover have "live_refs r' = live_refs r" by (simp add: r' live_refs_def)
  ultimately have "owes r' M" using assms(1) by (simp add: owes_def r')
  moreover have "boxes_ok r'" using assms(2) e(2) by (simp add: boxes_ok_def r')
  moreover have "same_rest r r'"
  proof (rule same_restI)
    fix i
    obtain a t c n where s: "s = (r_agents r j)\<lparr>ag_inbox := a, ag_inbox_tail := t, ag_inbox_count := c, ag_inbox_total := n\<rparr>"
      using f by blast
    have s': "s = (r_agents r j)\<lparr>ag_inbox := a, ag_inbox_head := ag_inbox_head (r_agents r j), ag_inbox_tail := t,
        ag_inbox_count := c, ag_inbox_total := n\<rparr>"
      unfolding s by simp
    show "\<exists>a h t c n. r_agents r' i = (r_agents r i)\<lparr>ag_inbox := a, ag_inbox_head := h, ag_inbox_tail := t,
        ag_inbox_count := c, ag_inbox_total := n\<rparr>"
    proof (cases "i = j")
      case True
      then have "r_agents r' i = s" by (simp add: r')
      then show ?thesis using s' True by blast
    next
      case False
      then have "r_agents r' i = r_agents r i" by (simp add: r')
      then show ?thesis using same_rest_refl [of r] unfolding same_rest_def by metis
    qed
  qed (use assms(5) in \<open>auto simp: r'\<close>)
  moreover have "mail r' k = mail r k @ (if k = j then [msg_at r p] else [])" for k
  proof -
    have "msg_at r' = msg_at r" by (rule ext) (simp add: r' msg_at_def split: msg_ref.split)
    then show ?thesis using e(3) by (simp add: mail_def r')
  qed
  ultimately show ?thesis using True r'(1) by simp
next
  case False
  have r': "st = FLUX_ERR_OVERFLOW" "r' = msg_pool_free (Some p) r"
    using assms(4) enqueue_full [OF False, of p] by (simp_all add: post_def)
  note fr = pool_free_owes [OF assms(1)]
  have "same_rest r r'"
    unfolding r'(2) by (rule same_rest_eq_agents [OF fr(4)]) (cases p; simp add: pool_free_simps)
  moreover have "boxes_ok r'" using assms(2) by (simp add: boxes_ok_def r' fr(4))
  moreover have "mail r' k = mail r k" if "k < 64" for k
  proof -
    have "msg_at r' q = msg_at r q" if "q \<in> set (inbox_refs (r_agents r k))" for q
      unfolding r'(2) using that owes_not_held [OF assms(1) \<open>k < 64\<close>] by (intro fr(3)) auto
    then show ?thesis by (simp add: mail_def r' fr(4))
  qed
  ultimately show ?thesis using False r'(1) fr(1) by (simp add: r'(2))
qed

end
