(* ===== verification/FluxMailOps.thy ===== *)
theory FluxMailOps
  imports FluxMail
begin

section \<open>The messaging operations on mailboxes\<close>

text \<open>
  Each operation of agent/a2a.c on the lists of messages that \<open>mail\<close> abstracts from the pointers: a
  sender appends to one list, a receiver takes the head. \<open>mail_ok\<close> is the ownership invariant with
  the well-formed inboxes.
\<close>

definition mail_ok :: "rt \<Rightarrow> bool" where
  "mail_ok r \<longleftrightarrow> owes r {#} \<and> boxes_ok r"

lemma same_mail_ok: "same_mail r r' \<Longrightarrow> mail_ok r' = mail_ok r"
  by (simp add: mail_ok_def same_mailD boxes_ok_def)

text \<open>Allocate, number, fill in, post.\<close>

lemma generate_id_frame:
  assumes "msg_generate_id r = (mid, r')"
  shows "same_mail r r'" "same_rest r r'" "r_agents r' = r_agents r" "msg_at r' = msg_at r"
    "mid = (if r_next_msg_id r = 0 then 1 else r_next_msg_id r)"
    "live_refs r' = live_refs r"
proof -
  have "r' = r\<lparr>r_next_msg_id := r_next_msg_id r'\<rparr>" "mid = (if r_next_msg_id r = 0 then 1 else r_next_msg_id r)"
    using assms by (auto simp: msg_generate_id_def Let_def split: if_splits)
  note e = this
  show "mid = (if r_next_msg_id r = 0 then 1 else r_next_msg_id r)" by (rule e(2))
  show "same_mail r r'" by (subst e(1)) (simp add: same_mail_def)
  show "same_rest r r'" by (subst e(1)) (rule same_rest_eq_agents; simp)
  show "r_agents r' = r_agents r" by (subst e(1)) simp
  show "msg_at r' = msg_at r" by (subst e(1)) (auto simp: msg_at_def fun_eq_iff split: msg_ref.split)
  show "live_refs r' = live_refs r" by (subst e(1)) (simp add: live_refs_def)
qed

lemma same_rest_trans:
  assumes "same_rest r r'" "same_rest r' r''" shows "same_rest r r''"
proof (rule same_restI)
  fix i
  obtain a h t c n where "r_agents r' i = (r_agents r i)\<lparr>ag_inbox := a, ag_inbox_head := h, ag_inbox_tail := t,
      ag_inbox_count := c, ag_inbox_total := n\<rparr>"
    using assms(1) unfolding same_rest_def by blast
  moreover obtain a' h' t' c' n' where "r_agents r'' i = (r_agents r' i)\<lparr>ag_inbox := a', ag_inbox_head := h',
      ag_inbox_tail := t', ag_inbox_count := c', ag_inbox_total := n'\<rparr>"
    using assms(2) unfolding same_rest_def by blast
  ultimately have "r_agents r'' i = (r_agents r i)\<lparr>ag_inbox := a', ag_inbox_head := h', ag_inbox_tail := t',
      ag_inbox_count := c', ag_inbox_total := n'\<rparr>" by simp
  then show "\<exists>a h t c n. r_agents r'' i = (r_agents r i)\<lparr>ag_inbox := a, ag_inbox_head := h, ag_inbox_tail := t,
      ag_inbox_count := c, ag_inbox_total := n\<rparr>" by blast
next
  fix i assume i: "\<not> ag_active (r_agents r i)"
  then have "r_agents r' i = r_agents r i" using assms(1) unfolding same_rest_def by blast
  then show "r_agents r'' i = r_agents r i" using i assms(2) unfolding same_rest_def by metis
qed (use assms in \<open>simp add: same_rest_def\<close>)

lemma slot_by_id_Some:
  "agent_slot_by_id r i = Some j \<longleftrightarrow> 4 \<le> i \<and> i < 68 \<and> j = unat i - 4 \<and> ag_active (r_agents r j)"
proof (cases "4 \<le> i \<and> i < 68")
  case True
  then have n: "unat (i - 4) = unat i - 4" by (simp add: unat_sub)
  have "\<not> i < 4" "\<not> 68 \<le> i" using True by auto
  then have x: "agent_index_from_id i = uint (i - 4)" by (simp add: agent_index_from_id_def)
  show ?thesis using True by (auto simp: agent_slot_by_id_def Let_def x n)
next
  case False
  then show ?thesis by (auto simp: agent_slot_by_id_def agent_index_from_id_def Let_def not_less not_le)
qed

lemma slot_by_id_less: "agent_slot_by_id r i = Some j \<Longrightarrow> j < 64"
  by (auto simp: slot_by_id_Some word_less_nat_alt word_le_nat_alt)

lemma slot_by_id_active: "agent_slot_by_id r i = Some j \<Longrightarrow> ag_active (r_agents r j)"
  by (auto simp: slot_by_id_Some)

lemma compose_cases:
  assumes "msg_pool_alloc ca r = (Some p, r1)" "msg_generate_id r1 = (mid, r2)" "post j p (set_msg p m r2) = (st, r3)"
    and "mail_ok r" "fresh_calloc ca" "agent_slot_by_id r i = Some j"
  shows "mail_ok r3" "same_rest r r3" "msg_at r2 p = zero_msg" "r_tick_counter r2 = r_tick_counter r"
    "mid = (if r_next_msg_id r = 0 then 1 else r_next_msg_id r)"
    "if ag_inbox_count (r_agents r j) < 64
     then st = FLUX_OK \<and> (\<forall>k < 64. mail r3 k = mail r k @ (if k = j then [m] else []))
     else st = FLUX_ERR_OVERFLOW \<and> (\<forall>k < 64. mail r3 k = mail r k)"
proof -
  have "case Some p of None \<Rightarrow> r1 = r
    | Some p \<Rightarrow> p \<notin> live_refs r \<and> live_refs r1 = insert p (live_refs r) \<and> owes r1 (add_mset p {#})
        \<and> msg_at r1 = (msg_at r)(p := zero_msg)
        \<and> (\<exists>pm pa hm. r1 = r\<lparr>r_pool_messages := pm, r_pool_allocated := pa, r_heap_messages := hm\<rparr>)"
    by (rule pool_alloc_cases [OF assms(1) _ assms(5)]) (use assms(4) in \<open>simp add: mail_ok_def\<close>)
  then have a: "live_refs r1 = insert p (live_refs r)" "owes r1 (add_mset p {#})" "msg_at r1 = (msg_at r)(p := zero_msg)"
    "\<exists>pm pa hm. r1 = r\<lparr>r_pool_messages := pm, r_pool_allocated := pa, r_heap_messages := hm\<rparr>"
    by simp_all
  then have ra: "r_agents r1 = r_agents r" "r_next_msg_id r1 = r_next_msg_id r" "r_tick_counter r1 = r_tick_counter r"
    and rest1: "same_rest r r1"
    by (auto intro!: same_rest_eq_agents)
  note g = generate_id_frame [OF assms(2)]
  show "msg_at r2 p = zero_msg" by (simp add: g(4) a(3))
  show "r_tick_counter r2 = r_tick_counter r" using g(2) ra by (simp add: same_rest_def)
  show "mid = (if r_next_msg_id r = 0 then 1 else r_next_msg_id r)" using g(5) ra by simp
  have o2: "owes r2 (add_mset p {#})" using a(2) same_mailD(3) [OF g(1)] by simp
  have o3: "owes (set_msg p m r2) (add_mset p {#})" by (rule owes_set_msg [OF o2]) (simp add: g(6) a(1))
  have j: "j < 64" "ag_active (r_agents (set_msg p m r2) j)"
    using slot_by_id_less [OF assms(6)] slot_by_id_active [OF assms(6)] by (simp_all add: g(3) ra)
  have b: "boxes_ok (set_msg p m r2)" using assms(4) by (simp add: boxes_ok_def mail_ok_def g(3) ra)
  note c = post_cases [OF o3 b j(1) assms(3) j(2)]
  show "mail_ok r3" using c by (simp add: mail_ok_def)
  have "same_rest r2 (set_msg p m r2)" by (rule same_rest_eq_agents) simp_all
  then show "same_rest r r3" using c g(2) rest1 same_rest_trans by blast
  have mail: "mail (set_msg p m r2) k = mail r k" if "k < 64" for k
  proof -
    have "p \<notin> set (inbox_refs (r_agents r k))" using owes_not_held [OF a(2) that] by (simp add: ra)
    then show ?thesis by (auto simp: mail_def g(3,4) ra a(3))
  qed
  show "if ag_inbox_count (r_agents r j) < 64
     then st = FLUX_OK \<and> (\<forall>k < 64. mail r3 k = mail r k @ (if k = j then [m] else []))
     else st = FLUX_ERR_OVERFLOW \<and> (\<forall>k < 64. mail r3 k = mail r k)"
    using c mail by (simp add: g(3) ra)
qed

lemma alloc_None: "msg_pool_alloc ca r = (None, r') \<Longrightarrow> r' = r"
  by (auto simp: msg_pool_alloc_def split: option.splits)

lemma count_delivery_mail [simp]: "same_mail r (count_delivery i j w r)"
  by (simp add: count_delivery_def Let_def same_mail_def)

lemmas delivered = same_mailD(4) [OF count_delivery_mail] same_mail_ok [OF count_delivery_mail]

lemma mail_length [simp]: "length (mail r i) = ag_inbox_count (r_agents r i)"
  by (simp add: mail_def)

subsection \<open>Send\<close>

text \<open>The refusals, in the order of the code.\<close>

definition send_refusal :: "rt \<Rightarrow> u32 \<Rightarrow> u32 \<Rightarrow> u32 \<Rightarrow> flux_status option" where
  "send_refusal r sender target len =
     (if \<not> r_initialized r then Some FLUX_ERR_INVALID
      else if 4096 < len then Some FLUX_ERR_OVERFLOW
      else case (agent_slot_by_id r sender, agent_slot_by_id r target) of
        (Some i, Some j) \<Rightarrow>
          if d_capabilities (desc_at r i) AND CAP_COMMUNICATE = 0 then Some FLUX_ERR_DENIED
          else if sender = target then Some FLUX_ERR_INVALID else None
      | _ \<Rightarrow> Some FLUX_ERR_NOTFOUND)"

definition sent_msg :: "rt \<Rightarrow> u32 \<Rightarrow> u32 \<Rightarrow> a2a_type \<Rightarrow> u8 list option \<Rightarrow> u32 \<Rightarrow> a2a_msg" where
  "sent_msg r sender target ty payload len =
     \<lparr>m_id = (if r_next_msg_id r = 0 then 1 else r_next_msg_id r), m_reply_to = 0, m_type = ty, m_sender = sender,
      m_target = target, m_required_cap = 0, m_timestamp = r_tick_counter r, m_deadline = 0, m_priority = 0,
      m_topic = '''', m_payload = payload_of payload len, m_payload_len = len\<rparr>"

lemma send_cases:
  assumes "agent_a2a_send ca sender target ty payload len r = (st, mid, r')" "mail_ok r" "fresh_calloc ca"
  shows "case send_refusal r sender target len of
      Some e \<Rightarrow> st = e \<and> mid = None \<and> r' = r
    | None \<Rightarrow> mail_ok r' \<and> (\<exists>j. agent_slot_by_id r target = Some j \<and>
        (if st = FLUX_OK
         then mid = Some (m_id (sent_msg r sender target ty payload len)) \<and> length (mail r j) < 64
            \<and> (\<forall>k < 64. mail r' k = mail r k @ (if k = j then [sent_msg r sender target ty payload len] else []))
         else mid = None \<and> (st = FLUX_ERR_NOMEM \<and> fst (msg_pool_alloc ca r) = None \<or> st = FLUX_ERR_OVERFLOW \<and> 64 \<le> length (mail r j))
            \<and> (\<forall>k < 64. mail r' k = mail r k) \<and> same_rest r r'))"
proof (cases "send_refusal r sender target len")
  case (Some e)
  then show ?thesis using assms(1)
    by (auto simp: send_refusal_def agent_a2a_send_def split: if_splits option.splits)
next
  case None
  then obtain i j where ij: "agent_slot_by_id r sender = Some i" "agent_slot_by_id r target = Some j"
    and g: "r_initialized r" "\<not> 4096 < len" "d_capabilities (desc_at r i) AND 2 \<noteq> 0" "sender \<noteq> target"
    by (auto simp: send_refusal_def split: if_splits option.splits)
  obtain q r1 where al: "msg_pool_alloc ca r = (q, r1)" by (cases "msg_pool_alloc ca r")
  show ?thesis
  proof (cases q)
    case q: None
    then have "r1 = r" using al alloc_None by blast
    then have "(st, mid, r') = (FLUX_ERR_NOMEM, None, r)"
      using assms(1) ij g q al by (simp add: agent_a2a_send_def)
    then show ?thesis using None ij assms(2) al q by simp
  next
    case (Some p)
    obtain mid1 r2 where gi: "msg_generate_id r1 = (mid1, r2)" by (cases "msg_generate_id r1")
    define m where "m = (msg_at r2 p)\<lparr>m_id := mid1, m_reply_to := 0, m_type := ty, m_sender := sender,
                        m_target := target, m_required_cap := 0, m_timestamp := agent_now r2, m_deadline := 0,
                        m_priority := 0, m_topic := '''', m_payload_len := len,
                        m_payload := payload_of payload len\<rparr>"
    obtain st1 r3 where po: "post j p (set_msg p m r2) = (st1, r3)" by (cases "post j p (set_msg p m r2)")
    note c = compose_cases [OF al [unfolded Some] gi po assms(2,3) ij(2)]
    have m: "m = sent_msg r sender target ty payload len"
      using c(3-5) by (simp add: m_def sent_msg_def zero_msg_def agent_now_def)
    have res: "(st, mid, r') = (if st1 \<noteq> FLUX_OK then (st1, None, r3) else (FLUX_OK, Some mid1, count_delivery i j {AGENT_WAITING} r3))"
      using assms(1) ij g al Some gi po
      by (simp add: agent_a2a_send_def m_def split: prod.splits)
    have mid: "mid1 = m_id (sent_msg r sender target ty payload len)" using c(5) by (simp add: sent_msg_def)
    show ?thesis
    proof (cases "ag_inbox_count (r_agents r j) < 64")
      case True
      then have "st1 = FLUX_OK" and ml: "\<forall>k < 64. mail r3 k = mail r k @ (if k = j then [m] else [])"
        using c(6) by simp_all
      then have "st = FLUX_OK" "mid = Some mid1" "r' = count_delivery i j {AGENT_WAITING} r3" using res by simp_all
      then show ?thesis
        using None ij ml c(1) True mid by (simp add: delivered m)
    next
      case False
      then have "st1 = FLUX_ERR_OVERFLOW" "\<forall>k < 64. mail r3 k = mail r k" using c(6) by simp_all
      moreover have "st = st1" "mid = None" "r' = r3" using res \<open>st1 = FLUX_ERR_OVERFLOW\<close> by simp_all
      ultimately show ?thesis using None ij c(1,2) False by simp
    qed
  qed
qed


subsection \<open>Receive\<close>

lemma take_cases:
  assumes "mail_ok r" "agent_slot_by_id r i = Some j" "take_message j r = (res, r')"
  shows "mail_ok r' \<and> (case mail r j of
      [] \<Rightarrow> res = None \<and> r' = r
    | m # ms \<Rightarrow> res = Some m \<and> (\<forall>k < 64. mail r' k = (if k = j then ms else mail r k))
        \<and> same_rest (upd_desc j (\<lambda>d. d\<lparr>d_last_active := agent_now r\<rparr>) r) r')"
proof -
  have j: "j < 64" "ag_active (r_agents r j)" by (rule slot_by_id_less [OF assms(2)], rule slot_by_id_active [OF assms(2)])
  show ?thesis
proof (cases "inbox_refs (r_agents r j)")
  case Nil
  then have "ag_inbox_count (r_agents r j) = 0" using inbox_refs_length [of "r_agents r j"] by simp
  then have "take_message j r = (None, upd_slot j (\<lambda>_. r_agents r j) r)"
    by (simp add: take_message_def dequeue_empty)
  then have "res = None" "r' = r" using assms(3) by (simp_all add: upd_slot_def)
  then show ?thesis using assms(1) Nil by (simp add: mail_def)
next
  case (Cons p ps)
  have ok: "inbox_ok (r_agents r j)" using assms(1) j by (simp add: mail_ok_def boxes_ok_def)
  obtain s where s: "inbox_dequeue (r_agents r j) = (FLUX_OK, Some p, s)" "inbox_ok s" "inbox_refs s = ps"
    and f: "\<exists>a h c. s = (r_agents r j)\<lparr>ag_inbox := a, ag_inbox_head := h, ag_inbox_count := c\<rparr>"
    using dequeue_head [OF ok Cons] by blast
  define r1 where "r1 = upd_slot j (\<lambda>_. s) r"
  define r2 where "r2 = msg_pool_free (Some p) r1"
  have t: "res = Some (msg_at r p)" "r' = upd_desc j (\<lambda>d. d\<lparr>d_last_active := agent_now r\<rparr>) r2"
    using assms(3) s(1) by (simp_all add: take_message_def r1_def r2_def)
  have "held r1 + add_mset p (mset ps) = held r + mset ps"
    using held_upd_slot [OF j(1), of "\<lambda>_. s" r] unfolding Cons s(3) r1_def by simp
  then have "held r1 + {#p#} = held r" by simp
  moreover have "live_refs r1 = live_refs r" by (simp add: r1_def live_refs_def)
  ultimately have o1: "owes r1 (add_mset p {#})" using assms(1) by (simp add: owes_def mail_ok_def r1_def)
  note fr = pool_free_owes [OF o1, folded r2_def]
  have ag: "r_agents r2 = (r_agents r)(j := s)" by (simp add: fr(4) r1_def)
  have "boxes_ok r2" using assms(1) s(2) by (simp add: boxes_ok_def mail_ok_def ag)
  then have "mail_ok r2" using fr(1) by (simp add: mail_ok_def)
  then have "mail_ok r'" unfolding t(2) by (simp add: same_mail_ok [OF same_mail_desc])
  moreover have "mail r' k = (if k = j then map (msg_at r) ps else mail r k)" if "k < 64" for k
  proof -
    have "msg_at r2 q = msg_at r q" if "q \<in> set (inbox_refs (r_agents r1 k))" for q
    proof -
      have "q \<noteq> p" using that owes_not_held [OF o1 \<open>k < 64\<close>] by blast
      then have "msg_at r2 q = msg_at r1 q" by (rule fr(3))
      then show ?thesis by (simp add: r1_def msg_at_def split: msg_ref.split)
    qed
    then have "map (msg_at r2) (inbox_refs (r_agents r1 k)) = map (msg_at r) (inbox_refs (r_agents r1 k))" by simp
    then have "mail r2 k = map (msg_at r) (inbox_refs (r_agents r1 k))" by (simp add: mail_def fr(4))
    then show ?thesis unfolding t(2) same_mailD(4) [OF same_mail_desc] by (simp add: r1_def s(3) mail_def)
  qed
  moreover have "same_rest (upd_desc j (\<lambda>d. d\<lparr>d_last_active := agent_now r\<rparr>) r) r'"
  proof (rule same_restI)
    fix i
    obtain a h c where s': "s = (r_agents r j)\<lparr>ag_inbox := a, ag_inbox_head := h, ag_inbox_count := c\<rparr>" using f by blast
    show "\<exists>a h t c n. r_agents r' i = (r_agents (upd_desc j (\<lambda>d. d\<lparr>d_last_active := agent_now r\<rparr>) r) i)
        \<lparr>ag_inbox := a, ag_inbox_head := h, ag_inbox_tail := t, ag_inbox_count := c, ag_inbox_total := n\<rparr>"
    proof (cases "i = j")
      case True
      have "r_agents r' i = (r_agents (upd_desc j (\<lambda>d. d\<lparr>d_last_active := agent_now r\<rparr>) r) i)
        \<lparr>ag_inbox := a, ag_inbox_head := h, ag_inbox_tail := ag_inbox_tail (r_agents r j), ag_inbox_count := c,
         ag_inbox_total := ag_inbox_total (r_agents r j)\<rparr>"
        using True by (simp add: t(2) ag s')
      then show ?thesis by blast
    next
      case False
      then have "r_agents r' i = r_agents (upd_desc j (\<lambda>d. d\<lparr>d_last_active := agent_now r\<rparr>) r) i" by (simp add: t(2) ag)
      then show ?thesis using same_rest_refl unfolding same_rest_def by metis
    qed
  next
    have "r_initialized r2 = r_initialized r \<and> r_config r2 = r_config r
     \<and> r_agent_bitmap r2 = r_agent_bitmap r \<and> r_topics r2 = r_topics r \<and> r_num_topics r2 = r_num_topics r
     \<and> r_pub_caps r2 = r_pub_caps r \<and> r_num_pub_caps r2 = r_num_pub_caps r \<and> r_tick_counter r2 = r_tick_counter r"
      by (cases p) (simp_all add: r2_def r1_def pool_free_simps)
    then show "r_initialized r' = r_initialized (upd_desc j (\<lambda>d. d\<lparr>d_last_active := agent_now r\<rparr>) r)
     \<and> r_config r' = r_config (upd_desc j (\<lambda>d. d\<lparr>d_last_active := agent_now r\<rparr>) r)
     \<and> r_agent_bitmap r' = r_agent_bitmap (upd_desc j (\<lambda>d. d\<lparr>d_last_active := agent_now r\<rparr>) r)
     \<and> r_topics r' = r_topics (upd_desc j (\<lambda>d. d\<lparr>d_last_active := agent_now r\<rparr>) r)
     \<and> r_num_topics r' = r_num_topics (upd_desc j (\<lambda>d. d\<lparr>d_last_active := agent_now r\<rparr>) r)
     \<and> r_pub_caps r' = r_pub_caps (upd_desc j (\<lambda>d. d\<lparr>d_last_active := agent_now r\<rparr>) r)
     \<and> r_num_pub_caps r' = r_num_pub_caps (upd_desc j (\<lambda>d. d\<lparr>d_last_active := agent_now r\<rparr>) r)
     \<and> r_tick_counter r' = r_tick_counter (upd_desc j (\<lambda>d. d\<lparr>d_last_active := agent_now r\<rparr>) r)"
      by (simp add: t(2))
  next
    fix i assume "\<not> ag_active (r_agents (upd_desc j (\<lambda>d. d\<lparr>d_last_active := agent_now r\<rparr>) r) i)"
    then have "i \<noteq> j" using j(2) by auto
    then show "r_agents r' i = r_agents (upd_desc j (\<lambda>d. d\<lparr>d_last_active := agent_now r\<rparr>) r) i" by (simp add: t(2) ag)
  qed
  ultimately show ?thesis using t(1) Cons by (simp add: mail_def [of r j])
qed
qed


subsection \<open>Operations that change neither identities nor authority\<close>

definition quiet :: "agent_slot \<Rightarrow> agent_slot \<Rightarrow> bool" where
  "quiet s s' \<longleftrightarrow> ag_active s' = ag_active s \<and> ag_vm_initialized s' = ag_vm_initialized s
     \<and> d_agent_id (ag_desc s') = d_agent_id (ag_desc s) \<and> d_capabilities (ag_desc s') = d_capabilities (ag_desc s)
     \<and> d_num_caps (ag_desc s') = d_num_caps (ag_desc s) \<and> (vm_inv (ag_vm s) \<longrightarrow> vm_inv (ag_vm s'))
     \<and> (ag_num_delegations s \<le> 16 \<longrightarrow> ag_num_delegations s' \<le> 16)
     \<and> (\<not> ag_active s \<longrightarrow> ag_inbox_count s' = ag_inbox_count s)"

definition calm_rt :: "rt \<Rightarrow> rt \<Rightarrow> bool" where
  "calm_rt r r' \<longleftrightarrow> r_initialized r' = r_initialized r \<and> r_config r' = r_config r \<and> r_agent_bitmap r' = r_agent_bitmap r
     \<and> r_topics r' = r_topics r \<and> r_num_topics r' = r_num_topics r \<and> r_pub_caps r' = r_pub_caps r
     \<and> r_num_pub_caps r' = r_num_pub_caps r \<and> (\<forall>i. quiet (r_agents r i) (r_agents r' i))"

lemma quiet_refl [simp]: "quiet s s"
  by (simp add: quiet_def)

lemma quiet_trans: "quiet s s' \<Longrightarrow> quiet s' s'' \<Longrightarrow> quiet s s''"
  by (auto simp: quiet_def)

lemma calm_refl [simp]: "calm_rt r r"
  by (simp add: calm_rt_def)

lemma calm_trans [trans]: "calm_rt r r' \<Longrightarrow> calm_rt r' r'' \<Longrightarrow> calm_rt r r''"
proof -
  assume *: "calm_rt r r'" "calm_rt r' r''"
  then have "\<forall>i. quiet (r_agents r i) (r_agents r'' i)" unfolding calm_rt_def using quiet_trans by blast
  then show ?thesis using * by (simp add: calm_rt_def)
qed

lemma calm_rest: "same_rest r r' \<Longrightarrow> calm_rt r r'"
  by (simp add: calm_rt_def quiet_def same_rest_agents) (simp add: same_rest_def)

lemma calm_slot: "quiet (r_agents r i) (f (r_agents r i)) \<Longrightarrow> calm_rt r (upd_slot i f r)"
  by (simp add: calm_rt_def)

lemma calm_desc:
  "d_agent_id (f (desc_at r i)) = d_agent_id (desc_at r i) \<Longrightarrow> d_capabilities (f (desc_at r i)) = d_capabilities (desc_at r i)
   \<Longrightarrow> d_num_caps (f (desc_at r i)) = d_num_caps (desc_at r i) \<Longrightarrow> calm_rt r (upd_desc i f r)"
  by (simp add: calm_rt_def quiet_def desc_at_def)

lemma calm_totals [simp]:
  "calm_rt r (r\<lparr>r_total_messages_sent := a\<rparr>)" "calm_rt r (r\<lparr>r_total_messages_recv := a\<rparr>)"
  "calm_rt r (r\<lparr>r_total_delegations := a\<rparr>)" "calm_rt r (r\<lparr>r_total_broadcasts := a\<rparr>)"
  "calm_rt r (r\<lparr>r_tick_counter := a\<rparr>)" "calm_rt r (r\<lparr>r_schedule_cursor := n\<rparr>)"
  by (simp_all add: calm_rt_def)

lemma wake_from_fields [simp]:
  "d_agent_id (wake_from w d) = d_agent_id d" "d_capabilities (wake_from w d) = d_capabilities d"
  "d_num_caps (wake_from w d) = d_num_caps d"
  by (simp_all add: wake_from_def)

lemma calm_count_delivery [simp]: "calm_rt r (count_delivery i j w r)"
  unfolding count_delivery_def Let_def
  by (simp add: calm_rt_def quiet_def)

text \<open>A message composed and posted: the ownership holds again, nothing else has changed.\<close>

lemma posted:
  assumes "msg_pool_alloc ca r = (Some p, r1)" "msg_generate_id r1 = (mid, r2)" "post j p (set_msg p m r2) = (st, r3)"
    and "agent_slot_by_id r i = Some j" "mail_ok r" "fresh_calloc ca"
  shows "mail_ok r3 \<and> calm_rt r r3"
  using compose_cases(1,2) [OF assms(1-3,5,6,4)] calm_rest by blast

definition mail_step :: "rt \<Rightarrow> rt \<Rightarrow> bool" where
  "mail_step r r' \<longleftrightarrow> (mail_ok r \<longrightarrow> mail_ok r') \<and> calm_rt r r'"

lemma mail_step_refl [simp]: "mail_step r r"
  by (simp add: mail_step_def)

lemma mail_step_trans: "mail_step r r' \<Longrightarrow> mail_step r' r'' \<Longrightarrow> mail_step r r''"
  using calm_trans by (auto simp: mail_step_def)

lemma mail_stepI: "same_mail r r' \<Longrightarrow> calm_rt r r' \<Longrightarrow> mail_step r r'"
  by (simp add: mail_step_def same_mail_ok)

lemma mail_step_delivery [simp]: "mail_step r (count_delivery i j w r)"
  by (intro mail_stepI) simp_all

lemma send_step:
  assumes "fresh_calloc ca" "mail_ok r" "agent_a2a_send ca sender target ty payload len r = (st, mid, r')"
  shows "mail_step r r'"
  using assms posted [OF _ _ _ _ assms(2,1)]
  by (auto simp: agent_a2a_send_def Let_def delivered mail_step_def dest: alloc_None
      intro: calm_trans [OF _ calm_count_delivery] split: if_splits option.splits prod.splits)


lemma reply_step:
  assumes "fresh_calloc ca" "mail_ok r" "agent_a2a_reply ca original payload len r = (st, r')"
  shows "mail_step r r'"
  using assms posted [OF _ _ _ _ assms(2,1)]
  by (auto simp: agent_a2a_reply_def Let_def delivered mail_step_def dest: alloc_None
      intro: calm_trans [OF _ calm_count_delivery] split: if_splits option.splits prod.splits)

text \<open>A delegation recorded, or marked as complete.\<close>

lemma record_step:
  assumes "ag_num_delegations (r_agents r i) < 16"
  shows "mail_step r (upd_slot i (\<lambda>s. s\<lparr>ag_delegations := f s, ag_num_delegations := ag_num_delegations s + 1\<rparr>) r)"
  by (intro mail_stepI same_mail_slot calm_slot) (use assms in \<open>simp_all add: quiet_def\<close>)

lemma mark_step: "mail_step r (upd_slot i (\<lambda>s. s\<lparr>ag_delegations := f s\<rparr>) r)"
  by (intro mail_stepI same_mail_slot calm_slot) (simp_all add: quiet_def)

lemma delegate_step:
  assumes "fresh_calloc ca" "mail_ok r" "agent_a2a_delegate ca src dst task len r = (st, mid, r')"
  shows "mail_step r r'"
proof (cases "\<exists>i j p r1. agent_slot_by_id r src = Some i \<and> agent_slot_by_id r dst = Some j
    \<and> ag_num_delegations (r_agents r i) < 16 \<and> r_initialized r \<and> \<not> 4096 < len \<and> src \<noteq> dst
    \<and> d_capabilities (desc_at r i) AND 2 \<noteq> 0 \<and> msg_pool_alloc ca r = (Some p, r1)")
  case False
  then have "r' = r"
    using assms(3) by (auto simp: agent_a2a_delegate_def dest: alloc_None split: if_splits option.splits prod.splits)
  then show ?thesis by simp
next
  case True
  then obtain i j p r1 where ij: "agent_slot_by_id r src = Some i" "agent_slot_by_id r dst = Some j"
    and n: "ag_num_delegations (r_agents r i) < 16" and al: "msg_pool_alloc ca r = (Some p, r1)"
    and g: "r_initialized r" "\<not> 4096 < len" "src \<noteq> dst" "d_capabilities (desc_at r i) AND 2 \<noteq> 0"
    by blast
  obtain mid1 r2 where gi: "msg_generate_id r1 = (mid1, r2)" by (cases "msg_generate_id r1")
  define m where "m = (msg_at r2 p)\<lparr>m_id := mid1, m_reply_to := 0, m_type := A2A_DELEGATE, m_sender := src,
                            m_target := dst, m_required_cap := 0, m_timestamp := agent_now r2, m_deadline := 0,
                            m_priority := 2, m_payload_len := len, m_payload := payload_of task len\<rparr>"
  obtain st1 r3 where po: "post j p (set_msg p m r2) = (st1, r3)" by (cases "post j p (set_msg p m r2)")
  define r4 where "r4 = upd_slot i (\<lambda>s. s\<lparr>ag_delegations := (ag_delegations s)
                                  (ag_num_delegations s := \<lparr>dg_msg_id = mid1, dg_target = dst, dg_active = True\<rparr>),
                                ag_num_delegations := ag_num_delegations s + 1\<rparr>) r3"
  define r5 where "r5 = upd_desc i (\<lambda>d. d\<lparr>d_delegate_count := d_delegate_count d + 1,
                                  d_state := AGENT_DELEGATING\<rparr>) (count_delivery i j {AGENT_WAITING} r4)"
  have r': "r' = (if st1 \<noteq> FLUX_OK then r3 else r5\<lparr>r_total_delegations := r_total_delegations r5 + 1\<rparr>)"
    using assms(3) ij n al g gi po
    by (auto simp: agent_a2a_delegate_def r5_def r4_def m_def Let_def split: prod.splits if_splits)
  have s3: "mail_ok r3" "same_rest r r3"
    using compose_cases(1,2) [OF al gi po assms(2,1) ij(2)] by blast+
  then have r3: "mail_step r r3" by (simp add: mail_step_def calm_rest)
  have "ag_num_delegations (r_agents r3 i) < 16" using n s3(2) by (simp add: same_rest_agents)
  from record_step [OF this] have a: "mail_step r3 r4" by (simp add: r4_def)
  have c: "mail_step (count_delivery i j {AGENT_WAITING} r4) (r5\<lparr>r_total_delegations := r_total_delegations r5 + 1\<rparr>)"
    unfolding r5_def by (intro mail_stepI) (simp_all add: same_mail_def calm_rt_def quiet_def)
  note all = mail_step_trans [OF r3 mail_step_trans [OF a mail_step_trans [OF mail_step_delivery c]]]
  show ?thesis unfolding r' by (split if_split) (intro conjI impI r3 all)
qed

lemma find_delegator_step: "find_delegator mid is r = (d, r') \<Longrightarrow> mail_step r r'"
proof (induction mid "is" r rule: find_delegator.induct)
  case (2 mid i "is" r)
  show ?case
  proof (cases "ag_active (r_agents r i)")
    case False
    then show ?thesis using 2 by simp
  next
    case act: True
    show ?thesis
    proof (cases "first_index (\<lambda>n. dg_msg_id (ag_delegations (r_agents r i) n) = mid) 0 (ag_num_delegations (r_agents r i))")
      case None
      then show ?thesis using 2 act by simp
    next
      case (Some n)
      let ?r = "upd_slot i (\<lambda>s. s\<lparr>ag_delegations := (ag_delegations s) (n := (ag_delegations s n)\<lparr>dg_active := False\<rparr>)\<rparr>) r"
      have m: "mail_step r ?r" by (rule mark_step)
      show ?thesis
      proof (cases "d_agent_id (desc_at r i) = 0")
        case True
        then have "find_delegator mid is ?r = (d, r')" using 2(4) act Some by simp
        then have "mail_step ?r r'" using 2(3) [of n ?r] act Some True by simp
        then show ?thesis using m mail_step_trans by blast
      next
        case False
        then have "r' = ?r" using 2(4) act Some by simp
        then show ?thesis using m by simp
      qed
    qed
  qed
qed simp

lemma result_step:
  assumes "fresh_calloc ca" "mail_ok r" "agent_a2a_delegate_result ca worker mid res len r = (st, r')"
  shows "mail_step r r'"
proof -
  obtain d r0 where f: "find_delegator mid [0..<64] r = (d, r0)" by (cases "find_delegator mid [0..<64] r")
  have s0: "mail_step r r0" by (rule find_delegator_step [OF f])
  then have ok: "mail_ok r0" using assms(2) by (simp add: mail_step_def)
  have "r' = r \<or> mail_step r0 r'"
    using assms(3) posted [OF _ _ _ _ ok assms(1)] f
    by (auto simp: agent_a2a_delegate_result_def Let_def delivered mail_step_def dest: alloc_None
        intro: calm_trans [OF _ calm_count_delivery] split: if_splits option.splits prod.splits)
  then show ?thesis using s0 mail_step_trans by auto
qed

lemma take_step:
  assumes "mail_ok r" "agent_slot_by_id r i = Some j" "take_message j r = (res, r')"
  shows "mail_step r r'"
proof -
  have "calm_rt r r'"
  proof (cases "mail r j")
    case Nil
    then show ?thesis using take_cases [OF assms] by simp
  next
    case (Cons m ms)
    then have "same_rest (upd_desc j (\<lambda>d. d\<lparr>d_last_active := agent_now r\<rparr>) r) r'"
      using take_cases [OF assms] by simp
    then have "calm_rt (upd_desc j (\<lambda>d. d\<lparr>d_last_active := agent_now r\<rparr>) r) r'" by (rule calm_rest)
    then show ?thesis by (rule calm_trans [rotated]) (simp add: calm_desc)
  qed
  then show ?thesis using take_cases [OF assms] by (simp add: mail_step_def)
qed

lemma waiting_step: "mail_step r (mark_waiting i r)"
proof -
  have "mail_step r (upd_desc j (\<lambda>d. d\<lparr>d_state := AGENT_WAITING\<rparr>) r)" for j
    by (intro mail_stepI) (simp_all add: calm_desc)
  then show ?thesis by (auto simp: mark_waiting_def split: option.split)
qed

text \<open>The rest of the system keeps the invariant between two rounds of a receive.\<close>

lemma recv_rounds_step:
  assumes "\<And>n r. mail_ok r \<Longrightarrow> mail_step r (others n r)" "mail_ok r" "recv_rounds others i start dl fuel n r = (res, r')"
  shows "mail_step r r'"
  using assms(2,3)
proof (induction fuel arbitrary: n r)
  case (Suc fuel)
  let ?r = "others n r"
  have s: "mail_step r ?r" using assms(1) Suc.prems(1) by blast
  then have ok: "mail_ok ?r" using Suc.prems(1) by (simp add: mail_step_def)
  show ?case
  proof (cases "agent_slot_by_id ?r i")
    case None
    then show ?thesis using Suc.prems(2) s by simp
  next
    case (Some j)
    obtain x r1 where t: "take_message j ?r = (x, r1)" by (cases "take_message j ?r")
    have s1: "mail_step ?r r1" by (rule take_step [OF ok Some t])
    then have ok1: "mail_ok (mark_waiting i r1)" using ok waiting_step [of r1 i] by (simp add: mail_step_def)
    have "r' = r1 \<or> recv_rounds others i start dl fuel (Suc n) (mark_waiting i r1) = (res, r')"
      using Suc.prems(2) Some t by (auto simp: Let_def split: option.splits if_splits)
    then show ?thesis
    proof
      assume "recv_rounds others i start dl fuel (Suc n) (mark_waiting i r1) = (res, r')"
      from Suc.IH [OF ok1 this] show ?thesis
        by (rule mail_step_trans [OF mail_step_trans [OF s s1] mail_step_trans [OF waiting_step]])
    qed (simp add: mail_step_trans [OF s s1])
  qed
qed simp

lemma recv_step:
  assumes "\<And>n r. mail_ok r \<Longrightarrow> mail_step r (others n r)" "mail_ok r" "agent_a2a_recv others fuel i buf timeout r = (res, r')"
  shows "mail_step r r'"
proof (cases "agent_slot_by_id r i")
  case None
  then show ?thesis using assms(3) by (auto simp: agent_a2a_recv_def split: if_splits)
next
  case (Some j)
  obtain x r1 where t: "take_message j r = (x, r1)" by (cases "take_message j r")
  have s1: "mail_step r r1" by (rule take_step [OF assms(2) Some t])
  then have ok1: "mail_ok r1" using assms(2) by (simp add: mail_step_def)
  have "r' = r \<or> r' = r1 \<or> recv_rounds others i (agent_now r1) (ucast timeout) fuel 0 r1 = (res, r')"
    using assms(3) Some t by (auto simp: agent_a2a_recv_def split: if_splits option.splits)
  then show ?thesis
  proof (elim disjE)
    assume "recv_rounds others i (agent_now r1) (ucast timeout) fuel 0 r1 = (res, r')"
    from recv_rounds_step [OF assms(1) ok1 this] show ?thesis by (rule mail_step_trans [OF s1])
  qed (simp_all add: s1)
qed

lemma broadcast_to_step:
  assumes "fresh_calloc ca" "mail_ok r"
  shows "mail_step r (snd (broadcast_to ca sender topic payload len k (n, r)))"
proof -
  have *: "mail_step r3 (upd_desc j (wake_from w) ((upd_desc j (\<lambda>d. d\<lparr>d_msg_count_recv := d_msg_count_recv d + 1,
      d_last_active := x\<rparr>) r3)\<lparr>r_total_messages_recv := y\<rparr>))" for r3 j w x y
    by (intro mail_stepI) (simp_all add: same_mail_def calm_rt_def quiet_def)
  show ?thesis
  proof (cases "k = sender \<or> agent_slot_by_id r k = None \<or> fst (msg_pool_alloc ca r) = None")
    case True
    then show ?thesis
      by (cases "msg_pool_alloc ca r") (auto simp: broadcast_to_def dest: alloc_None split: option.split)
  next
    case False
    then obtain j p r1 where j: "agent_slot_by_id r k = Some j" and al: "msg_pool_alloc ca r = (Some p, r1)"
      by (cases "msg_pool_alloc ca r") auto
    obtain mid r2 where gi: "msg_generate_id r1 = (mid, r2)" by (cases "msg_generate_id r1")
    define m where "m = (msg_at r2 p)\<lparr>m_id := mid, m_reply_to := 0, m_type := A2A_EVENT, m_sender := sender,
                           m_target := k, m_required_cap := 0, m_timestamp := agent_now r2, m_deadline := 0,
                           m_priority := 1, m_payload_len := len, m_topic := take 63 topic,
                           m_payload := payload_of payload len\<rparr>"
    obtain st r3 where po: "post j p (set_msg p m r2) = (st, r3)" by (cases "post j p (set_msg p m r2)")
    have s3: "mail_step r r3" using posted [OF al gi po j assms(2,1)] by (simp add: mail_step_def)
    have e: "snd (broadcast_to ca sender topic payload len k (n, r)) =
        (if st \<noteq> FLUX_OK then r3 else upd_desc j (wake_from {AGENT_WAITING})
           ((upd_desc j (\<lambda>d. d\<lparr>d_msg_count_recv := d_msg_count_recv d + 1, d_last_active := agent_now r3\<rparr>) r3)
              \<lparr>r_total_messages_recv := r_total_messages_recv (upd_desc j (\<lambda>d. d\<lparr>d_msg_count_recv := d_msg_count_recv d + 1,
                 d_last_active := agent_now r3\<rparr>) r3) + 1\<rparr>))"
      using False j al gi po by (simp add: broadcast_to_def m_def Let_def)
    show ?thesis unfolding e by (split if_split) (intro conjI impI s3 mail_step_trans [OF s3 *])
  qed
qed

lemma broadcast_all_step:
  assumes "fresh_calloc ca" "mail_ok r"
  shows "mail_step r (snd (fold (broadcast_to ca sender topic payload len) ks (n, r)))"
  using assms(2)
proof (induction ks arbitrary: n r)
  case (Cons k ks)
  obtain n1 r1 where b: "broadcast_to ca sender topic payload len k (n, r) = (n1, r1)"
    by (cases "broadcast_to ca sender topic payload len k (n, r)")
  then have s: "mail_step r r1" using broadcast_to_step [OF assms(1) Cons.prems, of sender topic payload len k n] by simp
  then have "mail_ok r1" using Cons.prems by (simp add: mail_step_def)
  then show ?case using Cons.IH [of r1 n1] b s mail_step_trans by simp
qed simp

lemma broadcast_step:
  assumes "fresh_calloc ca" "mail_ok r" "agent_a2a_broadcast ca sender topic payload len r = (st, r')"
  shows "mail_step r r'"
proof -
  have *: "mail_step r1 ((upd_desc i (\<lambda>d. d\<lparr>d_msg_count_sent := d_msg_count_sent d + x, d_last_active := y\<rparr>) r1)
      \<lparr>r_total_messages_sent := a, r_total_broadcasts := b\<rparr>)" for r1 i x y a b
    by (intro mail_stepI) (simp_all add: same_mail_def calm_rt_def quiet_def)
  have all: "mail_step r r1" if "fold (broadcast_to ca sender tn payload len) ks (0, r) = (n, r1)" for tn ks n r1
    using broadcast_all_step [OF assms(1,2), of sender tn payload len ks 0] that by simp
  show ?thesis
    using assms(3)
    by (auto simp: agent_a2a_broadcast_def Let_def split: option.splits prod.splits if_splits dest!: all
        intro: mail_step_trans [OF _ *])
qed

end
