(* ===== verification/FluxCapability.thy ===== *)
theory FluxCapability
  imports FluxAgent
begin

section \<open>Capabilities and the audit log (agent/capability.c)\<close>

text \<open>
  Grants, revocations, checks and transfers of capability bits, each recorded in the ring of 512
  audit entries of the agent concerned. The texts that \<open>flux_agent_caps_describe\<close> and
  \<open>flux_agent_audit_dump\<close> print are built as \<open>snprintf\<close> builds them in a buffer of \<open>buflen\<close> bytes: it
  returns the length of the whole text and stores what fits.
\<close>

abbreviation (input) AUDIT_ACTION_GRANT :: u8 where "AUDIT_ACTION_GRANT \<equiv> 0"
abbreviation (input) AUDIT_ACTION_REVOKE :: u8 where "AUDIT_ACTION_REVOKE \<equiv> 1"
abbreviation (input) AUDIT_ACTION_TRANSFER :: u8 where "AUDIT_ACTION_TRANSFER \<equiv> 2"
abbreviation (input) AUDIT_ACTION_CHECK :: u8 where "AUDIT_ACTION_CHECK \<equiv> 3"
abbreviation (input) CAP_SUPERVISOR :: u64 where "CAP_SUPERVISOR \<equiv> 0x400"
abbreviation (input) CAP_ALL :: u64 where "CAP_ALL \<equiv> 0xFFFFFFFFFFFFFFFF"

definition audit_log_record :: "u32 \<Rightarrow> u32 \<Rightarrow> u64 \<Rightarrow> u8 \<Rightarrow> rt \<Rightarrow> rt" where
  "audit_log_record agent target cap action r =
     (let idx = agent_index_from_id agent in
      if idx < 0 \<or> \<not> ag_active (r_agents r (nat idx)) then r
      else
        let s = r_agents r (nat idx); last_entry = (ag_audit_count s - 1) mod FLUX_AUDIT_LOG_SIZE in
        if 0 < ag_audit_count s \<and> au_cap (ag_audit_log s last_entry) = cap
           \<and> au_action (ag_audit_log s last_entry) = action \<and> au_target_id (ag_audit_log s last_entry) = target
        then upd_slot (nat idx) (\<lambda>s. s\<lparr>ag_audit_log := (ag_audit_log s)
               (last_entry := (ag_audit_log s last_entry)\<lparr>au_timestamp := agent_now r\<rparr>)\<rparr>) r
        else upd_slot (nat idx) (\<lambda>s. s\<lparr>ag_audit_log := (ag_audit_log s)
               (ag_audit_count s mod FLUX_AUDIT_LOG_SIZE :=
                  \<lparr>au_timestamp = agent_now r, au_agent_id = agent, au_target_id = target, au_cap = cap,
                   au_action = action\<rparr>),
               ag_audit_count := ag_audit_count s + 1\<rparr>) r)"

definition flux_agent_grant_cap :: "u32 \<Rightarrow> u64 \<Rightarrow> rt \<Rightarrow> flux_status \<times> rt" where
  "flux_agent_grant_cap i cap r =
     (if \<not> r_initialized r then (FLUX_ERR_INVALID, r)
      else if cap = 0 then (FLUX_OK, r)
      else case agent_slot_by_id r i of None \<Rightarrow> (FLUX_ERR_NOTFOUND, r)
      | Some j \<Rightarrow> (FLUX_OK, audit_log_record i 0 cap AUDIT_ACTION_GRANT
                   (upd_desc j (\<lambda>d. d\<lparr>d_capabilities := d_capabilities d OR cap\<rparr>) r)))"

definition flux_agent_revoke_cap :: "u32 \<Rightarrow> u64 \<Rightarrow> rt \<Rightarrow> flux_status \<times> rt" where
  "flux_agent_revoke_cap i cap r =
     (if \<not> r_initialized r then (FLUX_ERR_INVALID, r)
      else if cap = 0 then (FLUX_OK, r)
      else case agent_slot_by_id r i of None \<Rightarrow> (FLUX_ERR_NOTFOUND, r)
      | Some j \<Rightarrow>
          if i \<le> FLUX_AGENT_ID_COMPILER then (FLUX_ERR_DENIED, r)
          else (FLUX_OK, audit_log_record i 0 cap AUDIT_ACTION_REVOKE
                 (upd_desc j (\<lambda>d. d\<lparr>d_capabilities := d_capabilities d AND NOT cap\<rparr>) r)))"

definition flux_agent_has_cap :: "u32 \<Rightarrow> u64 \<Rightarrow> rt \<Rightarrow> bool \<times> rt" where
  "flux_agent_has_cap i cap r =
     (if \<not> r_initialized r then (False, r)
      else if cap = 0 then (True, r)
      else case agent_slot_by_id r i of None \<Rightarrow> (False, r)
      | Some j \<Rightarrow> (d_capabilities (desc_at r j) AND cap = cap,
                   if cap \<noteq> 0 then audit_log_record i 0 cap AUDIT_ACTION_CHECK r else r))"

definition flux_agent_transfer_cap :: "u32 \<Rightarrow> u32 \<Rightarrow> u64 \<Rightarrow> rt \<Rightarrow> flux_status \<times> rt" where
  "flux_agent_transfer_cap src dst cap r =
     (if \<not> r_initialized r then (FLUX_ERR_INVALID, r)
      else if cap = 0 then (FLUX_OK, r)
      else if cap AND CAP_SUPERVISOR \<noteq> 0 then (FLUX_ERR_DENIED, r)
      else case agent_slot_by_id r src of None \<Rightarrow> (FLUX_ERR_NOTFOUND, r)
      | Some i \<Rightarrow> (case agent_slot_by_id r dst of None \<Rightarrow> (FLUX_ERR_NOTFOUND, r)
      | Some j \<Rightarrow>
          if src = dst then (FLUX_ERR_INVALID, r)
          else if d_capabilities (desc_at r i) AND cap \<noteq> cap then (FLUX_ERR_DENIED, r)
          else if src \<le> FLUX_AGENT_ID_COMPILER then (FLUX_ERR_DENIED, r)
          else
            let r1 = upd_desc i (\<lambda>d. d\<lparr>d_capabilities := d_capabilities d AND NOT cap\<rparr>) r;
                r2 = upd_desc j (\<lambda>d. d\<lparr>d_capabilities := d_capabilities d OR cap\<rparr>) r1;
                r3 = audit_log_record src dst cap AUDIT_ACTION_TRANSFER r2
            in (FLUX_OK, audit_log_record dst src cap AUDIT_ACTION_TRANSFER r3)))"

definition flux_agent_inherit_caps :: "u32 \<Rightarrow> u32 \<Rightarrow> rt \<Rightarrow> flux_status \<times> rt" where
  "flux_agent_inherit_caps parent child r =
     (if \<not> r_initialized r then (FLUX_ERR_INVALID, r)
      else case agent_slot_by_id r parent of None \<Rightarrow> (FLUX_ERR_NOTFOUND, r)
      | Some i \<Rightarrow> (case agent_slot_by_id r child of None \<Rightarrow> (FLUX_ERR_NOTFOUND, r)
      | Some j \<Rightarrow>
          let r1 = upd_desc j (\<lambda>d. d\<lparr>d_capabilities := d_capabilities (desc_at r i)\<rparr>) r;
              r2 = audit_log_record parent child (d_capabilities (desc_at r1 i)) AUDIT_ACTION_GRANT r1
          in (FLUX_OK, audit_log_record child parent (d_capabilities (desc_at r2 j)) AUDIT_ACTION_CHECK r2)))"

subsection \<open>Inspection\<close>

definition cap_list :: "(u64 \<times> string) list" where
  "cap_list =
     [(0x1, ''SPAWN''), (0x2, ''COMMUNICATE''), (0x4, ''COMPILE''), (0x8, ''IO_READ''), (0x10, ''IO_WRITE''),
      (0x20, ''MEMORY''), (0x40, ''HARDWARE''), (0x80, ''NETWORK''), (0x100, ''FILESYSTEM''),
      (0x200, ''DEBUG''), (0x400, ''SUPERVISOR'')]"

definition cap_name :: "u64 \<Rightarrow> string" where
  "cap_name cap =
     (case find (\<lambda>(flag, _). cap AND flag \<noteq> 0) cap_list of None \<Rightarrow> ''UNKNOWN'' | Some (_, n) \<Rightarrow> n)"

text \<open>\<open>snprintf(buf + pos, buflen - pos, "%s", text)\<close> on the text so far.\<close>

definition put_text :: "int \<Rightarrow> string \<Rightarrow> int \<times> string \<Rightarrow> int \<times> string" where
  "put_text buflen text out =
     (case out of (pos, s) \<Rightarrow>
        (pos + int (length text), take (nat pos) s @ take (nat (buflen - pos - 1)) text))"

text \<open>
  One turn of the listing loop: position, text and \<open>first\<close>. The bar is written when there is room
  for it, and again every time a name has not been written.
\<close>

definition describe_entry :: "int \<Rightarrow> u64 \<Rightarrow> u64 \<times> string \<Rightarrow> (int \<times> string) \<times> bool \<Rightarrow> (int \<times> string) \<times> bool" where
  "describe_entry buflen caps e st =
     (case (e, st) of ((flag, n), (out, first)) \<Rightarrow>
        if caps AND flag = 0 then (out, first)
        else
          let out1 = (if \<not> first \<and> fst out < buflen - 2 then put_text buflen ''|'' out else out)
          in if fst out1 < buflen - 1 then (put_text buflen n out1, False) else (out1, first))"

definition flux_agent_caps_describe :: "u32 \<Rightarrow> int \<Rightarrow> rt \<Rightarrow> int \<times> string" where
  "flux_agent_caps_describe i buflen r =
     (if \<not> r_initialized r \<or> buflen \<le> 0 then (0, [])
      else case agent_slot_by_id r i of None \<Rightarrow> (0, [])
      | Some j \<Rightarrow>
          let caps = d_capabilities (desc_at r j) in
          if caps = 0 then put_text buflen ''NONE'' (0, [])
          else if caps = CAP_ALL then put_text buflen ''ALL'' (0, [])
          else fst (fold (describe_entry buflen caps) cap_list ((0, []), True)))"

fun hex_number :: "nat \<Rightarrow> string" where
  "hex_number n = (if n < 16 then [''0123456789abcdef'' ! n] else hex_number (n div 16) @ [''0123456789abcdef'' ! (n mod 16)])"

declare hex_number.simps [simp del]

definition audit_line :: "audit_entry \<Rightarrow> string" where
  "audit_line e =
     ''['' @ decimal (unat (au_timestamp e)) @ ''] ''
     @ (if au_action e < 4 then [''GRANT'', ''REVOKE'', ''TRANSFER'', ''CHECK''] ! unat (au_action e) else ''UNKNOWN'')
     @ '' cap=0x'' @ hex_number (unat (au_cap e)) @ '' target='' @ decimal (unat (au_target_id e)) @ [CHR 0x0A]"

text \<open>The entries kept, oldest first.\<close>

definition audit_entries :: "agent_slot \<Rightarrow> audit_entry list" where
  "audit_entries s =
     (let count = ag_audit_count s;
          start = (if FLUX_AUDIT_LOG_SIZE < count then count - FLUX_AUDIT_LOG_SIZE else 0)
      in map (\<lambda>n. ag_audit_log s ((start + n) mod FLUX_AUDIT_LOG_SIZE)) [0..<count - start])"

definition flux_agent_audit_dump :: "u32 \<Rightarrow> int \<Rightarrow> rt \<Rightarrow> int \<times> string" where
  "flux_agent_audit_dump i buflen r =
     (if \<not> r_initialized r \<or> buflen \<le> 0 then (0, [])
      else case agent_slot_by_id r i of None \<Rightarrow> (0, [])
      | Some j \<Rightarrow> fold (\<lambda>e out. if fst out < buflen - 1 then put_text buflen (audit_line e) out else out)
                    (audit_entries (r_agents r j)) (0, []))"

end
