(* ===== verification/FluxSandbox.thy ===== *)
theory FluxSandbox
  imports FluxAgent
begin

section \<open>Sandboxed execution (agent/sandbox.c)\<close>

text \<open>
  One monitored step of an agent's VM, the run of an agent for a number of ticks, and the round-robin
  scheduler. \<open>sandbox_step\<close> works on the slot, the public operations on the runtime. \<open>fp\<close> and \<open>env\<close>
  are the floating-point unit and the allocator of the VM, \<open>env n\<close> at the n-th step of a run. The
  run loop takes fuel; \<open>None\<close> is a run that the fuel did not finish. The violation message is not
  modelled.
\<close>

abbreviation (input) VIOLATION_CPU_LIMIT :: u8 where "VIOLATION_CPU_LIMIT \<equiv> 1"
abbreviation (input) VIOLATION_MEMORY_LIMIT :: u8 where "VIOLATION_MEMORY_LIMIT \<equiv> 2"
abbreviation (input) VIOLATION_IO_LIMIT :: u8 where "VIOLATION_IO_LIMIT \<equiv> 3"
abbreviation (input) VIOLATION_CAPABILITY :: u8 where "VIOLATION_CAPABILITY \<equiv> 5"
abbreviation (input) CAP_IO_READ :: u64 where "CAP_IO_READ \<equiv> 8"
abbreviation (input) CAP_IO_WRITE :: u64 where "CAP_IO_WRITE \<equiv> 0x10"

definition is_a2a_opcode :: "u8 \<Rightarrow> bool" where
  "is_a2a_opcode op \<longleftrightarrow> op \<in> {OP_TELL, OP_ASK, OP_REPLY, OP_DELEGATE, OP_BARRIER, OP_YIELD_AGENT}"

definition is_io_opcode :: "u8 \<Rightarrow> bool" where
  "is_io_opcode op \<longleftrightarrow> op \<in> {OP_IO_READ, OP_IO_WRITE, OP_IO_READ8, OP_IO_WRITE8, OP_IO_READ16, OP_IO_WRITE16,
     OP_IO_READ32, OP_IO_WRITE32}"

definition set_agent_state :: "agent_state \<Rightarrow> agent_slot \<Rightarrow> agent_slot" where
  "set_agent_state st s = s\<lparr>ag_desc := (ag_desc s)\<lparr>d_state := st\<rparr>\<rparr>"

subsection \<open>Resource accounting\<close>

definition sandbox_check_cpu :: "agent_slot \<Rightarrow> bool \<times> agent_slot" where
  "sandbox_check_cpu s =
     (if d_max_cpu_ticks (ag_desc s) = 0 then (False, s)
      else if d_max_cpu_ticks (ag_desc s) \<le> d_used_cpu_ticks (ag_desc s) then (True, set_agent_state AGENT_FAILED s)
      else (False, s))"

definition region_total :: "flux_vm \<Rightarrow> u64" where
  "region_total vm =
     fold (\<lambda>i total. if rg_active (vm_regions vm i) then total + rg_size (vm_regions vm i) else total)
       [0..<FLUX_REGION_MAX] 0"

definition sandbox_check_memory :: "agent_slot \<Rightarrow> bool \<times> agent_slot" where
  "sandbox_check_memory s =
     (if d_max_memory (ag_desc s) = 0 then (False, s)
      else if \<not> ag_vm_initialized s then (False, s)
      else
        let total = region_total (ag_vm s);
            s1 = s\<lparr>ag_desc := (ag_desc s)\<lparr>d_used_memory := total\<rparr>\<rparr>
        in if d_max_memory (ag_desc s) < total then (True, set_agent_state AGENT_FAILED s1) else (False, s1))"

definition sandbox_check_io :: "agent_slot \<Rightarrow> bool" where
  "sandbox_check_io s =
     (if d_max_io_per_sec (ag_desc s) = 0 then False
      else if d_max_io_per_sec (ag_desc s) \<le> d_used_io_per_sec (ag_desc s) then True else False)"

definition sandbox_account_io :: "agent_slot \<Rightarrow> agent_slot" where
  "sandbox_account_io s = s\<lparr>ag_desc := (ag_desc s)\<lparr>d_used_io_per_sec := d_used_io_per_sec (ag_desc s) + 1\<rparr>\<rparr>"

definition sandbox_handle_violation :: "agent_slot \<Rightarrow> u8 \<Rightarrow> agent_slot" where
  "sandbox_handle_violation s violation =
     (let s1 = set_agent_state AGENT_FAILED s
      in if ag_vm_initialized s1
         then s1\<lparr>ag_vm := (ag_vm s1)\<lparr>vm_state := VM_ERROR, vm_error_code := violation\<rparr>\<rparr> else s1)"

subsection \<open>One step\<close>

definition add_ticks :: "u64 \<Rightarrow> agent_slot \<Rightarrow> agent_slot" where
  "add_ticks n s = s\<lparr>ag_desc := (ag_desc s)\<lparr>d_used_cpu_ticks := d_used_cpu_ticks (ag_desc s) + n\<rparr>\<rparr>"

text \<open>The I/O checks on the next opcode: \<open>Inl\<close> with the slot of a violation, else the slot to go on with.\<close>

definition admit_opcode :: "u8 \<Rightarrow> agent_slot \<Rightarrow> agent_slot + agent_slot" where
  "admit_opcode op s =
     (if \<not> is_io_opcode op then Inr s
      else if d_capabilities (ag_desc s) AND CAP_IO_READ = 0 \<and> d_capabilities (ag_desc s) AND CAP_IO_WRITE = 0
      then Inl (sandbox_handle_violation s VIOLATION_CAPABILITY)
      else if sandbox_check_io s then Inl (sandbox_handle_violation s VIOLATION_IO_LIMIT)
      else Inr (sandbox_account_io s))"

text \<open>An agent-to-agent opcode: one step, then the agent waits.\<close>

definition a2a_step :: "fpu \<Rightarrow> calloc \<Rightarrow> agent_slot \<Rightarrow> (flux_status \<times> agent_slot) cres" where
  "a2a_step fp ca s =
     cmap (\<lambda>(st, vm).
         let s1 = add_ticks (vm_last_op_cycles vm) (s\<lparr>ag_vm := vm\<rparr>)
         in if st = FLUX_OK then (FLUX_ERR_BUSY, set_agent_state AGENT_WAITING s1) else (st, s1))
       (flux_vm_step fp ca (ag_vm s))"

text \<open>Any other opcode. \<open>now\<close> is the tick counter.\<close>

definition plain_step :: "fpu \<Rightarrow> calloc \<Rightarrow> u64 \<Rightarrow> agent_slot \<Rightarrow> (flux_status \<times> agent_slot) cres" where
  "plain_step fp ca now s =
     cmap (\<lambda>(st, vm).
         let s1 = add_ticks (vm_last_op_cycles vm) (s\<lparr>ag_vm := vm\<rparr>);
             s2 = (if vm_last_op_cycles vm = 0 then add_ticks 1 s1 else s1);
             s3 = s2\<lparr>ag_last_tick_update := now\<rparr>
         in case st of
              FLUX_OK \<Rightarrow> (FLUX_OK, set_agent_state AGENT_THINKING s3)
            | FLUX_ERR_GENERAL \<Rightarrow> (FLUX_ERR_GENERAL, set_agent_state AGENT_TERMINATED s3)
            | _ \<Rightarrow> (FLUX_ERR_GENERAL,
                (set_agent_state AGENT_FAILED s3)\<lparr>ag_vm := (ag_vm s3)\<lparr>vm_state := VM_ERROR\<rparr>\<rparr>))
       (flux_vm_step fp ca (ag_vm s))"

definition sandbox_step :: "fpu \<Rightarrow> calloc \<Rightarrow> u64 \<Rightarrow> agent_slot \<Rightarrow> (flux_status \<times> agent_slot) cres" where
  "sandbox_step fp ca now s =
     (if \<not> ag_vm_initialized s then Val (FLUX_ERR_INVALID, s)
      else
        let (cpu, s1) = sandbox_check_cpu s in
        if cpu then Val (FLUX_ERR_INVALID, sandbox_handle_violation s1 VIOLATION_CPU_LIMIT)
        else
          let (memory, s2) = sandbox_check_memory s1 in
          if memory then Val (FLUX_ERR_INVALID, sandbox_handle_violation s2 VIOLATION_MEMORY_LIMIT)
          else if vm_state (ag_vm s2) \<noteq> VM_IDLE \<and> vm_state (ag_vm s2) \<noteq> VM_RUNNING then
            (if vm_state (ag_vm s2) = VM_HALTED then Val (FLUX_ERR_GENERAL, set_agent_state AGENT_TERMINATED s2)
             else Val (FLUX_ERR_INVALID, s2))
          else if vm_pc (ag_vm s2) < vm_bytecode_len (ag_vm s2) then
            cbind (code_byte (ag_vm s2) (vm_pc (ag_vm s2))) (\<lambda>next_op.
              case admit_opcode next_op s2 of
                Inl s3 \<Rightarrow> Val (FLUX_ERR_DENIED, s3)
              | Inr s3 \<Rightarrow> if is_a2a_opcode next_op then a2a_step fp ca s3 else plain_step fp ca now s3)
          else plain_step fp ca now s2)"

subsection \<open>Running an agent\<close>

fun run_slice ::
  "fpu \<Rightarrow> (nat \<Rightarrow> calloc) \<Rightarrow> u64 \<Rightarrow> u64 \<Rightarrow> u32 \<Rightarrow> u64 \<Rightarrow> nat \<Rightarrow> nat \<Rightarrow> agent_slot \<Rightarrow> (flux_status \<times> agent_slot) cres option" where
  "run_slice fp env now tick_limit max_ticks start_ticks 0 n s = None"
| "run_slice fp env now tick_limit max_ticks start_ticks (Suc fuel) n s =
     (if 0 < tick_limit \<and> tick_limit \<le> d_used_cpu_ticks (ag_desc s) - start_ticks
      then Some (Val (FLUX_ERR_BUSY, set_agent_state AGENT_IDLE s))
      else
        let (cpu, s1) = sandbox_check_cpu s in
        if cpu then Some (Val (FLUX_ERR_INVALID, sandbox_handle_violation s1 VIOLATION_CPU_LIMIT))
        else
          let (memory, s2) = sandbox_check_memory s1 in
          if memory then Some (Val (FLUX_ERR_INVALID, sandbox_handle_violation s2 VIOLATION_MEMORY_LIMIT))
          else case sandbox_step fp (env n) now s2 of
            UB u \<Rightarrow> Some (UB u)
          | Val (result, s3) \<Rightarrow>
              if result \<noteq> FLUX_OK then Some (Val (result, s3))
              else if 10000000 \<le> Suc n \<and> max_ticks = 0
              then Some (Val (FLUX_ERR_BUSY, set_agent_state AGENT_IDLE s3))
              else run_slice fp env now tick_limit max_ticks start_ticks fuel (Suc n) s3)"

text \<open>What \<open>flux_agent_run\<close> sets before and after the loop.\<close>

definition enter_run :: "u64 \<Rightarrow> agent_slot \<Rightarrow> agent_slot" where
  "enter_run now s =
     (let s0 = (if d_state (ag_desc s) = AGENT_CREATED \<or> d_state (ag_desc s) = AGENT_IDLE
                then set_agent_state AGENT_INITIALIZING s else s);
          s1 = set_agent_state AGENT_THINKING s0;
          s2 = s1\<lparr>ag_desc := (ag_desc s1)\<lparr>d_last_active := now\<rparr>\<rparr>
      in if ag_vm_initialized s2 \<and> vm_state (ag_vm s2) = VM_IDLE
         then s2\<lparr>ag_vm := (ag_vm s2)\<lparr>vm_state := VM_RUNNING\<rparr>\<rparr> else s2)"

definition leave_run :: "flux_status \<Rightarrow> agent_slot \<Rightarrow> agent_slot" where
  "leave_run result s =
     (if (result = FLUX_OK \<or> d_state (ag_desc s) = AGENT_TERMINATED) \<and> ag_vm_initialized s
      then s\<lparr>ag_vm := (ag_vm s)\<lparr>vm_state := VM_HALTED\<rparr>\<rparr> else s)"

definition flux_agent_run ::
  "fpu \<Rightarrow> (nat \<Rightarrow> calloc) \<Rightarrow> nat \<Rightarrow> u32 \<Rightarrow> u32 \<Rightarrow> rt \<Rightarrow> (flux_status \<times> rt) cres option" where
  "flux_agent_run fp env fuel i max_ticks r =
     (if \<not> r_initialized r then Some (Val (FLUX_ERR_INVALID, r))
      else case agent_slot_by_id r i of None \<Rightarrow> Some (Val (FLUX_ERR_NOTFOUND, r))
      | Some j \<Rightarrow>
          let s = r_agents r j in
          if d_state (ag_desc s) = AGENT_TERMINATED \<or> d_state (ag_desc s) = AGENT_FAILED
          then Some (Val (FLUX_ERR_INVALID, r))
          else if ag_paused s then Some (Val (FLUX_ERR_INVALID, r))
          else
            let tick_limit = (if 0 < max_ticks then ucast max_ticks else d_max_cpu_ticks (ag_desc s))
            in map_option (cmap (\<lambda>(result, s1). (result, upd_slot j (\<lambda>_. leave_run result s1) r)))
                 (run_slice fp env (agent_now r) tick_limit max_ticks (d_used_cpu_ticks (ag_desc s)) fuel 0
                    (enter_run (agent_now r) s)))"

definition flux_agent_step :: "fpu \<Rightarrow> calloc \<Rightarrow> u32 \<Rightarrow> rt \<Rightarrow> (flux_status \<times> rt) cres" where
  "flux_agent_step fp ca i r =
     (if \<not> r_initialized r then Val (FLUX_ERR_INVALID, r)
      else case agent_slot_by_id r i of None \<Rightarrow> Val (FLUX_ERR_NOTFOUND, r)
      | Some j \<Rightarrow>
          let s = r_agents r j in
          if d_state (ag_desc s) = AGENT_TERMINATED \<or> d_state (ag_desc s) = AGENT_FAILED
          then Val (FLUX_ERR_INVALID, r)
          else if ag_paused s then Val (FLUX_ERR_INVALID, r)
          else if \<not> ag_vm_initialized s \<or> vm_bytecode (ag_vm s) = [] then Val (FLUX_ERR_INVALID, r)
          else
            let s1 = (if vm_state (ag_vm s) = VM_IDLE then s\<lparr>ag_vm := (ag_vm s)\<lparr>vm_state := VM_RUNNING\<rparr>\<rparr> else s);
                s2 = s1\<lparr>ag_desc := (ag_desc s1)\<lparr>d_last_active := agent_now r\<rparr>\<rparr>
            in cmap (\<lambda>(result, s3). (result, upd_slot j (\<lambda>_. s3) r)) (sandbox_step fp ca (agent_now r) s2))"

subsection \<open>Scheduling\<close>

text \<open>Sequencing of runs that may not finish.\<close>

definition rbind :: "'a cres option \<Rightarrow> ('a \<Rightarrow> 'b cres option) \<Rightarrow> 'b cres option" where
  "rbind m f = (case m of None \<Rightarrow> None | Some (UB u) \<Rightarrow> Some (UB u) | Some (Val x) \<Rightarrow> f x)"

definition agent_ready :: "agent_slot \<Rightarrow> bool" where
  "agent_ready s \<longleftrightarrow> ag_active s \<and> \<not> (d_state (ag_desc s) = AGENT_TERMINATED \<or> d_state (ag_desc s) = AGENT_FAILED
     \<or> d_state (ag_desc s) = AGENT_WAITING \<or> d_state (ag_desc s) = AGENT_DELEGATING \<or> ag_paused s)"

definition time_slice :: "rt \<Rightarrow> u32" where
  "time_slice r =
     (let slice = c_default_cpu_ticks (r_config r) div 10;
          slice1 = (if slice < 100 then 100 else slice)
      in if 100000 < slice1 then 100000 else slice1)"

text \<open>One round over the table from the cursor: whether an agent was ready, and the state.\<close>

fun schedule_round ::
  "fpu \<Rightarrow> (nat \<Rightarrow> nat \<Rightarrow> calloc) \<Rightarrow> nat \<Rightarrow> nat list \<Rightarrow> bool \<Rightarrow> rt \<Rightarrow> (bool \<times> rt) cres option" where
  "schedule_round fp env fuel [] found r = Some (Val (found, r))"
| "schedule_round fp env fuel (i # is) found r =
     (let idx = (r_schedule_cursor r + i) mod FLUX_AGENT_MAX; s = r_agents r idx in
      if \<not> agent_ready s then schedule_round fp env fuel is found r
      else rbind (flux_agent_run fp (env i) fuel (d_agent_id (ag_desc s)) (time_slice r) r)
             (\<lambda>(st, r1). schedule_round fp env fuel is True r1))"

fun schedule_rounds ::
  "fpu \<Rightarrow> (nat \<Rightarrow> nat \<Rightarrow> nat \<Rightarrow> calloc) \<Rightarrow> nat \<Rightarrow> nat \<Rightarrow> rt \<Rightarrow> rt cres option" where
  "schedule_rounds fp env fuel 0 r = Some (Val r)"
| "schedule_rounds fp env fuel (Suc rounds) r =
     rbind (schedule_round fp (env rounds) fuel [0..<FLUX_AGENT_MAX] False r) (\<lambda>(found, r1).
       let r2 = r1\<lparr>r_schedule_cursor := (r_schedule_cursor r1 + 1) mod FLUX_AGENT_MAX\<rparr>
       in if \<not> found then Some (Val r2) else schedule_rounds fp env fuel rounds r2)"

definition flux_agent_schedule ::
  "fpu \<Rightarrow> (nat \<Rightarrow> nat \<Rightarrow> nat \<Rightarrow> calloc) \<Rightarrow> nat \<Rightarrow> rt \<Rightarrow> (flux_status \<times> rt) cres option" where
  "flux_agent_schedule fp env fuel r =
     (if \<not> r_initialized r then Some (Val (FLUX_ERR_INVALID, r))
      else rbind (schedule_rounds fp env fuel (FLUX_AGENT_MAX * 2) r)
             (\<lambda>r1. Some (Val (FLUX_OK, r1\<lparr>r_tick_counter := r_tick_counter r1 + 1\<rparr>))))"

definition steppable :: "agent_slot \<Rightarrow> bool" where
  "steppable s \<longleftrightarrow> ag_active s
     \<and> d_state (ag_desc s) \<in> {AGENT_IDLE, AGENT_THINKING, AGENT_CREATED, AGENT_INITIALIZING} \<and> \<not> ag_paused s"

fun step_all :: "fpu \<Rightarrow> (nat \<Rightarrow> calloc) \<Rightarrow> nat list \<Rightarrow> nat \<Rightarrow> rt \<Rightarrow> (nat \<times> rt) cres" where
  "step_all fp env [] stepped r = Val (stepped, r)"
| "step_all fp env (i # is) stepped r =
     (if \<not> steppable (r_agents r i) then step_all fp env is stepped r
      else cbind (flux_agent_step fp (env i) (d_agent_id (desc_at r i)) r)
             (\<lambda>(st, r1). step_all fp env is (stepped + 1) r1))"

definition flux_agent_schedule_step :: "fpu \<Rightarrow> (nat \<Rightarrow> calloc) \<Rightarrow> rt \<Rightarrow> (nat \<times> rt) cres" where
  "flux_agent_schedule_step fp env r =
     (if \<not> r_initialized r then Val (0, r)
      else cmap (\<lambda>(stepped, r1). (stepped, r1\<lparr>r_tick_counter := r_tick_counter r1 + 1\<rparr>))
             (step_all fp env [0..<FLUX_AGENT_MAX] 0 r))"

subsection \<open>Inspection\<close>

definition flux_agent_get_vm :: "rt \<Rightarrow> u32 \<Rightarrow> flux_vm option" where
  "flux_agent_get_vm r i =
     (if \<not> r_initialized r then None
      else case agent_slot_by_id r i of None \<Rightarrow> None
      | Some j \<Rightarrow> if \<not> ag_vm_initialized (r_agents r j) then None else Some (ag_vm (r_agents r j)))"

text \<open>\<open>(int)((used * 100) / max)\<close>, at most 100, for 64-bit and 32-bit counters; 0 without a limit.\<close>

definition percent64 :: "u64 \<Rightarrow> u64 \<Rightarrow> int" where
  "percent64 used limit =
     (if 0 < limit then let p = sint (ucast (used * 100 div limit) :: u32) in if 100 < p then 100 else p else 0)"

definition percent32 :: "u32 \<Rightarrow> u32 \<Rightarrow> int" where
  "percent32 used limit =
     (if 0 < limit then let p = sint (used * 100 div limit) in if 100 < p then 100 else p else 0)"

definition flux_agent_resource_report :: "rt \<Rightarrow> u32 \<Rightarrow> flux_status \<times> (int \<times> int \<times> int) option" where
  "flux_agent_resource_report r i =
     (if \<not> r_initialized r then (FLUX_ERR_INVALID, None)
      else case agent_slot_by_id r i of None \<Rightarrow> (FLUX_ERR_NOTFOUND, None)
      | Some j \<Rightarrow>
          let d = desc_at r j in
          (FLUX_OK, Some (percent64 (d_used_cpu_ticks d) (d_max_cpu_ticks d),
             percent64 (d_used_memory d) (d_max_memory d),
             percent32 (d_used_io_per_sec d) (d_max_io_per_sec d))))"

end
