(* ===== verification/FluxDiscovery.thy ===== *)
theory FluxDiscovery
  imports FluxAgent
begin

section \<open>Publishing, discovery and topics (agent/discovery.c)\<close>

text \<open>
  The registry of published capabilities and the table of topics. Names are bounded by copying at
  most 31 characters, descriptions at most 127. \<open>find_pub_caps_by_agent\<close>, \<open>invalidate_pub_caps\<close> and
  \<open>unsubscribe_all\<close> are static functions that nothing calls; they are modelled as they are written.
  A NULL string is \<open>None\<close>.
\<close>

subsection \<open>Topics\<close>

definition find_topic_by_name :: "string option \<Rightarrow> rt \<Rightarrow> nat option" where
  "find_topic_by_name name r =
     (case name of None \<Rightarrow> None | Some n \<Rightarrow> if n = [] then None
      else first_index (\<lambda>i. tp_name (r_topics r i) = n) 0 (r_num_topics r))"

definition find_or_create_topic :: "string option \<Rightarrow> rt \<Rightarrow> nat option \<times> rt" where
  "find_or_create_topic name r =
     (case name of None \<Rightarrow> (None, r)
      | Some n \<Rightarrow>
          if n = [] then (None, r)
          else case find_topic_by_name name r of Some t \<Rightarrow> (Some t, r)
          | None \<Rightarrow>
              if FLUX_TOPIC_MAX \<le> r_num_topics r then (None, r)
              else
                let t = r_num_topics r;
                    tp = zero_topic\<lparr>tp_name := take 31 n, tp_num_subscribers := 0\<rparr>
                in (Some t, r\<lparr>r_topics := (r_topics r)(t := tp), r_num_topics := t + 1\<rparr>))"

text \<open>\<open>for (k = j; k < n - 1; k++) a[k] = a[k + 1];\<close>\<close>

definition shift_down :: "nat \<Rightarrow> nat \<Rightarrow> (nat \<Rightarrow> 'a) \<Rightarrow> (nat \<Rightarrow> 'a)" where
  "shift_down j n a = fold (\<lambda>k a. a(k := a (k + 1))) [j..<n - 1] a"

definition drop_subscriber :: "nat \<Rightarrow> topic \<Rightarrow> topic" where
  "drop_subscriber j tp =
     tp\<lparr>tp_subscribers := shift_down j (tp_num_subscribers tp) (tp_subscribers tp),
        tp_num_subscribers := tp_num_subscribers tp - 1\<rparr>"

definition unsubscribe_all :: "u32 \<Rightarrow> rt \<Rightarrow> rt" where
  "unsubscribe_all i r =
     r\<lparr>r_topics := (\<lambda>t. if t < r_num_topics r
         then fold (\<lambda>j tp. if tp_subscribers tp j = i then drop_subscriber j tp else tp)
                (rev [0..<tp_num_subscribers (r_topics r t)]) (r_topics r t)
         else r_topics r t)\<rparr>"

subsection \<open>The registry\<close>

definition find_pub_cap :: "string option \<Rightarrow> rt \<Rightarrow> nat option" where
  "find_pub_cap name r =
     (case name of None \<Rightarrow> None | Some n \<Rightarrow> if n = [] then None
      else first_index (\<lambda>i. pc_active (r_pub_caps r i) \<and> pc_name (r_pub_caps r i) = n) 0 (r_num_pub_caps r))"

definition find_pub_caps_by_agent :: "u32 \<Rightarrow> int \<Rightarrow> rt \<Rightarrow> string list" where
  "find_pub_caps_by_agent i n r =
     fold (\<lambda>k out. if int (length out) < n \<and> pc_active (r_pub_caps r k) \<and> pc_agent_id (r_pub_caps r k) = i
                   then out @ [pc_name (r_pub_caps r k)] else out) [0..<r_num_pub_caps r] []"

definition invalidate_pub_caps :: "u32 \<Rightarrow> rt \<Rightarrow> rt" where
  "invalidate_pub_caps i r =
     r\<lparr>r_pub_caps := (\<lambda>k. if k < r_num_pub_caps r \<and> pc_agent_id (r_pub_caps r k) = i
         then (r_pub_caps r k)\<lparr>pc_active := False\<rparr> else r_pub_caps r k)\<rparr>"

definition upd_pub_cap :: "nat \<Rightarrow> (published_cap \<Rightarrow> published_cap) \<Rightarrow> rt \<Rightarrow> rt" where
  "upd_pub_cap k f r = r\<lparr>r_pub_caps := (r_pub_caps r)(k := f (r_pub_caps r k))\<rparr>"

definition flux_agent_publish_cap :: "u32 \<Rightarrow> string option \<Rightarrow> string option \<Rightarrow> rt \<Rightarrow> flux_status \<times> rt" where
  "flux_agent_publish_cap i name description r =
     (if \<not> r_initialized r then (FLUX_ERR_INVALID, r)
      else case name of None \<Rightarrow> (FLUX_ERR_INVALID, r)
      | Some n \<Rightarrow>
          if n = [] then (FLUX_ERR_INVALID, r)
          else case agent_slot_by_id r i of None \<Rightarrow> (FLUX_ERR_NOTFOUND, r)
          | Some j \<Rightarrow>
              (case find_pub_cap name r of
                 Some k \<Rightarrow>
                   if pc_agent_id (r_pub_caps r k) = i then
                     (FLUX_OK, case description of None \<Rightarrow> r
                        | Some d \<Rightarrow> upd_pub_cap k (\<lambda>e. e\<lparr>pc_description := take 127 d\<rparr>) r)
                   else (FLUX_ERR_EXISTS, r)
               | None \<Rightarrow>
                   if FLUX_AGENT_MAX_CAPS \<le> d_num_caps (desc_at r j) then (FLUX_ERR_OVERFLOW, r)
                   else case first_index (\<lambda>k. \<not> pc_active (r_pub_caps r k)) 0 FLUX_PUB_CAPS_MAX of
                     None \<Rightarrow> (FLUX_ERR_OVERFLOW, r)
                   | Some k \<Rightarrow>
                       let dsc = (case description of None \<Rightarrow> '''' | Some d \<Rightarrow> take 127 d);
                           e = zero_pub_cap\<lparr>pc_name := take 31 n, pc_description := dsc, pc_agent_id := i,
                                 pc_active := True\<rparr>;
                           r1 = upd_pub_cap k (\<lambda>_. e) r;
                           r2 = (if r_num_pub_caps r1 \<le> k then r1\<lparr>r_num_pub_caps := k + 1\<rparr> else r1);
                           c = d_num_caps (desc_at r2 j);
                           old = snd (d_caps (desc_at r2 j) c)
                       in (FLUX_OK, upd_desc j (\<lambda>d. d\<lparr>d_caps := (d_caps d)
                              (c := (take 31 n, case description of None \<Rightarrow> old | Some x \<Rightarrow> take 127 x)),
                              d_num_caps := c + 1\<rparr>) r2)))"

definition drop_cap :: "nat \<Rightarrow> agent_desc \<Rightarrow> agent_desc" where
  "drop_cap n d =
     (let caps = shift_down n (d_num_caps d) (d_caps d); m = d_num_caps d - 1
      in d\<lparr>d_caps := caps(m := ('''', '''')), d_num_caps := m\<rparr>)"

definition flux_agent_unpublish_cap :: "u32 \<Rightarrow> string option \<Rightarrow> rt \<Rightarrow> flux_status \<times> rt" where
  "flux_agent_unpublish_cap i name r =
     (if \<not> r_initialized r then (FLUX_ERR_INVALID, r)
      else case name of None \<Rightarrow> (FLUX_ERR_INVALID, r)
      | Some n \<Rightarrow>
          if n = [] then (FLUX_ERR_INVALID, r)
          else case find_pub_cap name r of None \<Rightarrow> (FLUX_ERR_NOTFOUND, r)
          | Some k \<Rightarrow>
              if pc_agent_id (r_pub_caps r k) \<noteq> i then (FLUX_ERR_NOTFOUND, r)
              else
                let r1 = upd_pub_cap k (\<lambda>e. e\<lparr>pc_active := False, pc_name := '''', pc_description := '''',
                           pc_agent_id := FLUX_AGENT_ID_INVALID\<rparr>) r
                in (FLUX_OK, case agent_slot_by_id r1 i of None \<Rightarrow> r1
                   | Some j \<Rightarrow> (case first_index (\<lambda>c. fst (d_caps (desc_at r1 j) c) = n) 0 (d_num_caps (desc_at r1 j)) of
                        None \<Rightarrow> r1 | Some c \<Rightarrow> upd_desc j (drop_cap c) r1)))"

subsection \<open>Discovery\<close>

text \<open>\<open>strncmp\<close> on the part before the star, or \<open>strcmp\<close>.\<close>

definition cap_matches :: "string \<Rightarrow> string \<Rightarrow> bool" where
  "cap_matches query n =
     (if query \<noteq> [] \<and> last query = CHR ''*'' then take (length query - 1) n = butlast query else n = query)"

definition flux_agent_discover :: "string option \<Rightarrow> int \<Rightarrow> rt \<Rightarrow> flux_status \<times> agent_desc list" where
  "flux_agent_discover query n r =
     (if \<not> r_initialized r then (FLUX_ERR_INVALID, [])
      else case query of None \<Rightarrow> (FLUX_ERR_INVALID, [])
      | Some q \<Rightarrow>
          if q = [] then (FLUX_ERR_INVALID, [])
          else
            let found = fold (\<lambda>k out.
                  if \<not> int (length out) < n \<or> \<not> pc_active (r_pub_caps r k) \<or> \<not> cap_matches q (pc_name (r_pub_caps r k))
                  then out
                  else case agent_slot_by_id r (pc_agent_id (r_pub_caps r k)) of None \<Rightarrow> out
                    | Some j \<Rightarrow> out @ [desc_at r j]) [0..<r_num_pub_caps r] []
            in (if 0 < length found then FLUX_OK else FLUX_ERR_NOTFOUND, found))"

definition flux_agent_discover_all :: "int \<Rightarrow> rt \<Rightarrow> (string \<times> u32 \<times> string) list" where
  "flux_agent_discover_all n r =
     (if \<not> r_initialized r \<or> n \<le> 0 then []
      else fold (\<lambda>k out. if \<not> int (length out) < n \<or> \<not> pc_active (r_pub_caps r k) then out
             else let e = r_pub_caps r k in out @ [(pc_name e, pc_agent_id e, pc_description e)])
           [0..<r_num_pub_caps r] [])"

subsection \<open>Subscriptions\<close>

definition upd_topic :: "nat \<Rightarrow> (topic \<Rightarrow> topic) \<Rightarrow> rt \<Rightarrow> rt" where
  "upd_topic t f r = r\<lparr>r_topics := (r_topics r)(t := f (r_topics r t))\<rparr>"

definition flux_agent_subscribe :: "u32 \<Rightarrow> string option \<Rightarrow> rt \<Rightarrow> flux_status \<times> rt" where
  "flux_agent_subscribe i topic r =
     (if \<not> r_initialized r then (FLUX_ERR_INVALID, r)
      else if topic = None \<or> topic = Some [] then (FLUX_ERR_INVALID, r)
      else case agent_slot_by_id r i of None \<Rightarrow> (FLUX_ERR_NOTFOUND, r)
      | Some j \<Rightarrow>
          (case find_or_create_topic topic r of
             (None, r1) \<Rightarrow> (FLUX_ERR_OVERFLOW, r1)
           | (Some t, r1) \<Rightarrow>
               let tp = r_topics r1 t in
               if list_ex (\<lambda>k. tp_subscribers tp k = i) [0..<tp_num_subscribers tp] then (FLUX_OK, r1)
               else if FLUX_TOPIC_SUBS_MAX \<le> tp_num_subscribers tp then (FLUX_ERR_OVERFLOW, r1)
               else (FLUX_OK, upd_topic t (\<lambda>tp. tp\<lparr>tp_subscribers := (tp_subscribers tp)(tp_num_subscribers tp := i),
                      tp_num_subscribers := tp_num_subscribers tp + 1\<rparr>) r1)))"

definition flux_agent_unsubscribe :: "u32 \<Rightarrow> string option \<Rightarrow> rt \<Rightarrow> flux_status \<times> rt" where
  "flux_agent_unsubscribe i topic r =
     (if \<not> r_initialized r then (FLUX_ERR_INVALID, r)
      else if topic = None \<or> topic = Some [] then (FLUX_ERR_INVALID, r)
      else case find_topic_by_name topic r of None \<Rightarrow> (FLUX_ERR_NOTFOUND, r)
      | Some t \<Rightarrow>
          (case first_index (\<lambda>k. tp_subscribers (r_topics r t) k = i) 0 (tp_num_subscribers (r_topics r t)) of
             None \<Rightarrow> (FLUX_ERR_NOTFOUND, r)
           | Some k \<Rightarrow> (FLUX_OK, upd_topic t (drop_subscriber k) r)))"

definition flux_agent_get_subscribers :: "string option \<Rightarrow> int \<Rightarrow> rt \<Rightarrow> int \<times> u32 list" where
  "flux_agent_get_subscribers topic n r =
     (if \<not> r_initialized r \<or> topic = None then (0, [])
      else case find_topic_by_name topic r of None \<Rightarrow> (0, [])
      | Some t \<Rightarrow>
          let tp = r_topics r t;
              count = (if n < int (tp_num_subscribers tp) then n else int (tp_num_subscribers tp))
          in (count, map (tp_subscribers tp) [0..<nat count]))"

definition flux_agent_get_topics :: "int \<Rightarrow> rt \<Rightarrow> (string \<times> nat) list" where
  "flux_agent_get_topics n r =
     (if \<not> r_initialized r \<or> n \<le> 0 then []
      else fold (\<lambda>t out. if \<not> int (length out) < n \<or> tp_num_subscribers (r_topics r t) = 0 then out
             else out @ [(tp_name (r_topics r t), tp_num_subscribers (r_topics r t))]) [0..<r_num_topics r] [])"

end
