(* ===== verification/FluxAgentInv.thy ===== *)
theory FluxAgentInv
  imports FluxMailOps FluxCapability FluxSandbox FluxDiscovery
begin

section \<open>The agent runtime in every reachable state\<close>

text \<open>
  \<open>rt_ok\<close> joins the ownership of the messages (\<open>mail_ok\<close>) with the invariants of the table of agents,
  of the bitmap of identifiers, of the topics and of the registry. \<open>rt_step\<close> is one call of a public
  operation with any arguments, \<open>rt_reach\<close> the states after any number of them from \<open>boot_rt\<close>, and
  \<open>rt_reach_ok\<close> the invariant in all of them. What the C library promises is in the premises of
  \<open>rt_step\<close>: \<open>calloc\<close> returns fresh blocks, the stack of a VM is delivered, bytecode points to at
  least as many bytes as its length says.
\<close>

subsection \<open>Cleaning a slot up\<close>

lemma owes_cong:
  assumes "r_pool_allocated r' = r_pool_allocated r" "r_heap_messages r' = r_heap_messages r"
    and "\<And>i. i < 64 \<Longrightarrow> inbox_refs (r_agents r' i) = inbox_refs (r_agents r i)"
  shows "owes r' M = owes r M"
  using assms by (simp add: owes_def live_refs_def held_def)

abbreviation (input) emptied :: "nat \<Rightarrow> rt \<Rightarrow> rt" where
  "emptied i r \<equiv> upd_slot i clear_slot r"

lemma clear_slot_refs [simp]: "inbox_refs (clear_slot s) = []"
  by (simp add: clear_slot_def inbox_refs_def inbox_list_def)

lemma pool_free_upd_slot: "msg_pool_free q (upd_slot i f r) = upd_slot i f (msg_pool_free q r)"
  by (cases q; cases "the q"; simp add: msg_pool_free_def upd_slot_def set_msg_def split: msg_ref.split)

text \<open>Everything but the slots, the pool and the heap.\<close>

definition same_tables :: "rt \<Rightarrow> rt \<Rightarrow> bool" where
  "same_tables r r' \<longleftrightarrow> r_initialized r' = r_initialized r \<and> r_config r' = r_config r \<and> r_topics r' = r_topics r
     \<and> r_num_topics r' = r_num_topics r \<and> r_pub_caps r' = r_pub_caps r \<and> r_num_pub_caps r' = r_num_pub_caps r
     \<and> r_tick_counter r' = r_tick_counter r"

text \<open>After \<open>n\<close> turns of the loop the first \<open>n\<close> messages have gone back.\<close>

lemma drain_prefix:
  assumes "owes r {#}" "inbox_ok (r_agents r i)" "i < 64" "n \<le> ag_inbox_count (r_agents r i)"
  defines "rn \<equiv> fold (drain_entry i) [0..<n] r"
  shows "owes (emptied i rn) (mset (drop n (inbox_refs (r_agents r i))))
    \<and> (\<exists>a. r_agents rn = (r_agents r)(i := (r_agents r i)\<lparr>ag_inbox := a\<rparr>)
         \<and> (\<forall>m. n \<le> m \<and> m < ag_inbox_count (r_agents r i) \<longrightarrow>
              a ((ag_inbox_head (r_agents r i) + m) mod 64) = Some (inbox_refs (r_agents r i) ! m)))
    \<and> same_tables r rn \<and> r_agent_bitmap rn = r_agent_bitmap r"
  unfolding rn_def using assms(4)
proof (induction n)
  case 0
  have "held (emptied i r) + mset (inbox_refs (r_agents r i)) = held r"
    using held_upd_slot [OF assms(3), of clear_slot r] by simp
  then have "owes (emptied i r) (mset (inbox_refs (r_agents r i)))"
    using assms(1) by (simp add: owes_def live_refs_def)
  moreover have "ag_inbox (r_agents r i) ((ag_inbox_head (r_agents r i) + m) mod 64) = Some (inbox_refs (r_agents r i) ! m)"
    if "m < ag_inbox_count (r_agents r i)" for m
  proof -
    have "inbox_list (r_agents r i) ! m \<in> set (inbox_list (r_agents r i))"
      using that by (intro nth_mem) (simp add: inbox_list_def)
    then have "inbox_list (r_agents r i) ! m \<noteq> None" using assms(2) unfolding inbox_ok_def by metis
    then show ?thesis using that by (auto simp: inbox_refs_def inbox_list_def)
  qed
  moreover have "r_agents r = (r_agents r)(i := (r_agents r i)\<lparr>ag_inbox := ag_inbox (r_agents r i)\<rparr>)" by simp
  moreover have "same_tables r r" by (simp add: same_tables_def)
  ultimately show ?case unfolding upt_0 fold.simps(1) id_apply drop_0 by blast
next
  case (Suc n)
  let ?s = "r_agents r i" and ?rn = "fold (drain_entry i) [0..<n] r"
  let ?refs = "inbox_refs ?s" and ?h = "ag_inbox_head ?s"
  have n: "n < ag_inbox_count ?s" "n \<le> ag_inbox_count ?s" using Suc.prems by simp_all
  obtain a where o: "owes (emptied i ?rn) (mset (drop n ?refs))"
    and ag: "r_agents ?rn = (r_agents r)(i := ?s\<lparr>ag_inbox := a\<rparr>)"
    and a: "\<And>m. n \<le> m \<Longrightarrow> m < ag_inbox_count ?s \<Longrightarrow> a ((?h + m) mod 64) = Some (?refs ! m)"
    and rn: "same_tables r ?rn" "r_agent_bitmap ?rn = r_agent_bitmap r"
    using Suc.IH [OF n(2)] by blast
  define p where "p = ?refs ! n"
  define a' where "a' = a((?h + n) mod 64 := None)"
  define r' where "r' = upd_slot i (\<lambda>s. s\<lparr>ag_inbox := (ag_inbox s)((?h + n) mod 64 := None)\<rparr>) (msg_pool_free (Some p) ?rn)"
  have "a ((?h + n) mod 64) = Some p" using a [of n] n(1) by (simp add: p_def)
  then have dr: "fold (drain_entry i) [0..<Suc n] r = r'"
    by (simp add: drain_entry_def Let_def ag r'_def)
  have d: "drop n ?refs = p # drop (Suc n) ?refs" using n(1) by (simp add: Cons_nth_drop_Suc p_def)
  then have "owes (emptied i ?rn) (add_mset p (mset (drop (Suc n) ?refs)))" using o by simp
  note fr = pool_free_owes [OF this]
  have agf: "r_agents (msg_pool_free (Some p) ?rn) = r_agents ?rn"
    by (cases p) (simp_all add: pool_free_simps)
  have "owes (emptied i r') (mset (drop (Suc n) ?refs)) =
      owes (msg_pool_free (Some p) (emptied i ?rn)) (mset (drop (Suc n) ?refs))"
    unfolding pool_free_upd_slot by (rule owes_cong) (simp_all add: r'_def agf)
  then have "owes (emptied i r') (mset (drop (Suc n) ?refs))" using fr(1) by simp
  moreover have "r_agents r' = (r_agents r)(i := ?s\<lparr>ag_inbox := a'\<rparr>)"
    by (simp add: r'_def agf ag a'_def)
  moreover have "a' ((?h + m) mod 64) = Some (?refs ! m)" if "Suc n \<le> m" "m < ag_inbox_count ?s" for m
  proof -
    have "ag_inbox_count ?s \<le> 64" using assms(2) by (simp add: inbox_ok_def)
    then have "(?h + m) mod 64 \<noteq> (?h + n) mod 64" using mod_window_eq [of m 64 n ?h] that by simp
    then show ?thesis using a [of m] that by (simp add: a'_def)
  qed
  moreover have "same_tables r r'" "r_agent_bitmap r' = r_agent_bitmap r"
    using rn by (cases p; simp add: r'_def same_tables_def pool_free_simps)+
  ultimately show ?case unfolding dr by blast
qed


lemma release_vm_fields [simp]:
  "ag_inbox (release_vm s) = ag_inbox s" "ag_inbox_head (release_vm s) = ag_inbox_head s"
  "ag_inbox_count (release_vm s) = ag_inbox_count s" "ag_inbox_tail (release_vm s) = ag_inbox_tail s"
  by (simp_all add: release_vm_def Let_def)

lemma clear_slot_fields [simp]:
  "\<not> ag_active (clear_slot s)" "ag_inbox_count (clear_slot s) = 0" "inbox_ok (clear_slot s)"
  "ag_desc (clear_slot s) = zero_desc" "ag_vm_initialized (clear_slot s) = ag_vm_initialized s"
  "ag_num_delegations (clear_slot s) = 0" "ag_audit_count (clear_slot s) = 0"
  "\<not> ag_vm_initialized (release_vm s)"
  by (simp_all add: clear_slot_def inbox_ok_def inbox_list_def zero_desc_def release_vm_def Let_def)

lemma cleanup_cases:
  assumes "owes r {#}" "inbox_ok (r_agents r i)" "i < 64"
  defines "r' \<equiv> agent_slot_cleanup i r"
  shows "owes r' {#} \<and> same_tables r r' \<and> r_agent_bitmap r' = r_agent_bitmap r
    \<and> (\<forall>k. k \<noteq> i \<longrightarrow> r_agents r' k = r_agents r k)
    \<and> \<not> ag_active (r_agents r' i) \<and> inbox_ok (r_agents r' i) \<and> ag_inbox_count (r_agents r' i) = 0
    \<and> \<not> ag_vm_initialized (r_agents r' i) \<and> ag_desc (r_agents r' i) = zero_desc \<and> ag_num_delegations (r_agents r' i) = 0
    \<and> ag_audit_count (r_agents r' i) = 0"
proof -
  define r1 where "r1 = upd_slot i release_vm r"
  have sm: "same_mail r r1" unfolding r1_def by (rule same_mail_slot) simp
  have o1: "owes r1 {#}" "inbox_ok (r_agents r1 i)" using assms(1,2) same_mailD(3,5) [OF sm] by simp_all
  let ?n = "ag_inbox_count (r_agents r1 i)"
  define r2 where "r2 = fold (drain_entry i) [0..<?n] r1"
  from drain_prefix [OF o1 assms(3) order_refl, folded r2_def]
  obtain a where o: "owes (emptied i r2) {#}"
    and ag: "r_agents r2 = (r_agents r1)(i := (r_agents r1 i)\<lparr>ag_inbox := a\<rparr>)"
    and fr: "same_tables r1 r2" "r_agent_bitmap r2 = r_agent_bitmap r1"
    by auto
  have r': "r' = emptied i r2" by (simp add: r'_def agent_slot_cleanup_def r2_def r1_def Let_def)
  have "same_tables r r'" "r_agent_bitmap r' = r_agent_bitmap r"
    using fr by (simp_all add: r' same_tables_def r1_def)
  moreover have k: "r_agents r' k = (if k = i then clear_slot ((release_vm (r_agents r i))\<lparr>ag_inbox := a\<rparr>) else r_agents r k)" for k
    by (simp add: r' ag) (simp add: r1_def)
  moreover have "owes r' {#}" using o by (simp only: r')
  ultimately show ?thesis using clear_slot_fields(5) [of "(release_vm (r_agents r i))\<lparr>ag_inbox := a\<rparr>"] by simp
qed


subsection \<open>The invariant\<close>

definition slot_ok :: "nat \<Rightarrow> agent_slot \<Rightarrow> bool" where
  "slot_ok i s \<longleftrightarrow> ag_num_delegations s \<le> 16 \<and> d_num_caps (ag_desc s) \<le> 16
     \<and> (if ag_active s then d_agent_id (ag_desc s) = of_nat (i + 4) \<and> ag_vm_initialized s \<and> vm_inv (ag_vm s)
        else ag_inbox_count s = 0)"

definition ids_ok :: "rt \<Rightarrow> bool" where
  "ids_ok r \<longleftrightarrow> (\<forall>i < 64. slot_ok i (r_agents r i))
     \<and> (if r_initialized r
        then \<not> ag_active (r_agents r 0) \<and> (\<forall>i < 64. bitmap_test (r_agent_bitmap r) i \<longleftrightarrow> i = 0 \<or> ag_active (r_agents r i))
        else \<forall>i < 64. \<not> ag_active (r_agents r i))"

definition topic_ok :: "topic \<Rightarrow> bool" where
  "topic_ok tp \<longleftrightarrow> tp_num_subscribers tp \<le> 64 \<and> distinct (map (tp_subscribers tp) [0..<tp_num_subscribers tp])"

definition tables_ok :: "rt \<Rightarrow> bool" where
  "tables_ok r \<longleftrightarrow> r_num_topics r \<le> 32 \<and> (\<forall>t < r_num_topics r. topic_ok (r_topics r t))
     \<and> (r_initialized r \<longrightarrow> r_num_pub_caps r \<le> 256 \<and> (\<forall>k. r_num_pub_caps r \<le> k \<and> k < 256 \<longrightarrow> \<not> pc_active (r_pub_caps r k)))"

definition rt_ok :: "rt \<Rightarrow> bool" where
  "rt_ok r \<longleftrightarrow> mail_ok r \<and> ids_ok r \<and> tables_ok r"

lemma slot_ok_quiet: "slot_ok i s \<Longrightarrow> quiet s s' \<Longrightarrow> slot_ok i s'"
  by (auto simp: slot_ok_def quiet_def)

lemma calm_ids: "calm_rt r r' \<Longrightarrow> ids_ok r \<Longrightarrow> ids_ok r'"
proof -
  assume *: "calm_rt r r'" "ids_ok r"
  have q: "quiet (r_agents r i) (r_agents r' i)" for i using *(1) by (simp add: calm_rt_def)
  then have "ag_active (r_agents r' i) = ag_active (r_agents r i)" for i using quiet_def by blast
  then show ?thesis using * slot_ok_quiet [OF _ q] by (auto simp: ids_ok_def calm_rt_def)
qed

lemma mail_step_ok:
  assumes "mail_step r r'" "rt_ok r" shows "rt_ok r'"
  using assms calm_ids [of r r'] by (auto simp: mail_step_def rt_ok_def tables_ok_def) (auto simp: calm_rt_def)

lemma rt_ok_slot: "rt_ok r \<Longrightarrow> i < 64 \<Longrightarrow> slot_ok i (r_agents r i)"
  by (simp add: rt_ok_def ids_ok_def)

lemma rt_ok_inactive: "rt_ok r \<Longrightarrow> i < 64 \<Longrightarrow> \<not> ag_active (r_agents r i) \<Longrightarrow> inbox_refs (r_agents r i) = []"
  using rt_ok_slot [of r i] by (simp add: slot_ok_def flip: length_0_conv)

lemma boot_rt_ok: "rt_ok boot_rt"
proof -
  have "inbox_ok zero_slot" "inbox_refs zero_slot = []"
    by (simp_all add: zero_slot_def inbox_ok_def inbox_refs_def inbox_list_def)
  moreover have "live_refs boot_rt = {}" by (simp add: live_refs_def boot_rt_def)
  ultimately have "mail_ok boot_rt" by (simp add: mail_ok_def owes_def held_def boxes_ok_def boot_rt_def)
  then show ?thesis
    by (simp add: rt_ok_def ids_ok_def tables_ok_def slot_ok_def) (simp add: boot_rt_def zero_slot_def zero_desc_def)
qed

subsection \<open>Shutdown and initialisation\<close>

lemma shutdown_loop:
  assumes "mail_ok r" "n \<le> 64"
  defines "r' \<equiv> fold (\<lambda>i r. if ag_active (r_agents r i) then agent_slot_cleanup i r else r) [0..<n] r"
  shows "mail_ok r' \<and> same_tables r r'
    \<and> (\<forall>k. r_agents r' k = r_agents r k \<and> (k < n \<longrightarrow> \<not> ag_active (r_agents r k))
        \<or> k < n \<and> ag_active (r_agents r k) \<and> \<not> ag_active (r_agents r' k) \<and> ag_inbox_count (r_agents r' k) = 0
           \<and> ag_desc (r_agents r' k) = zero_desc \<and> ag_num_delegations (r_agents r' k) = 0)"
  unfolding r'_def using assms(2)
proof (induction n)
  case 0
  then show ?case using assms(1) by (simp add: same_tables_def)
next
  case (Suc n)
  let ?r = "fold (\<lambda>i r. if ag_active (r_agents r i) then agent_slot_cleanup i r else r) [0..<n] r"
  have IH: "mail_ok ?r" "same_tables r ?r"
    "\<And>k. r_agents ?r k = r_agents r k \<and> (k < n \<longrightarrow> \<not> ag_active (r_agents r k))
        \<or> k < n \<and> ag_active (r_agents r k) \<and> \<not> ag_active (r_agents ?r k) \<and> ag_inbox_count (r_agents ?r k) = 0
           \<and> ag_desc (r_agents ?r k) = zero_desc \<and> ag_num_delegations (r_agents ?r k) = 0"
    using Suc by auto
  have n: "r_agents ?r n = r_agents r n" using IH(3) [of n] by simp
  show ?case
  proof (cases "ag_active (r_agents r n)")
    case False
    then have e: "fold (\<lambda>i r. if ag_active (r_agents r i) then agent_slot_cleanup i r else r) [0..<Suc n] r = ?r"
      using n by simp
    have "r_agents ?r k = r_agents r k \<and> (k < Suc n \<longrightarrow> \<not> ag_active (r_agents r k))
        \<or> k < Suc n \<and> ag_active (r_agents r k) \<and> \<not> ag_active (r_agents ?r k) \<and> ag_inbox_count (r_agents ?r k) = 0
           \<and> ag_desc (r_agents ?r k) = zero_desc \<and> ag_num_delegations (r_agents ?r k) = 0" for k
      using IH(3) [of k] False by (auto simp: less_Suc_eq)
    then show ?thesis unfolding e using IH(1,2) by blast
  next
    case True
    then have e: "fold (\<lambda>i r. if ag_active (r_agents r i) then agent_slot_cleanup i r else r) [0..<Suc n] r = agent_slot_cleanup n ?r"
      using n by simp
    have "owes ?r {#}" "inbox_ok (r_agents ?r n)" "n < 64"
      using IH(1) Suc.prems by (simp_all add: mail_ok_def boxes_ok_def)
    note c = cleanup_cases [OF this]
    have "inbox_ok (r_agents (agent_slot_cleanup n ?r) k)" if "k < 64" for k
    proof (cases "k = n")
      case False
      then have "r_agents (agent_slot_cleanup n ?r) k = r_agents ?r k" using c by blast
      then show ?thesis using IH(1) that by (simp add: mail_ok_def boxes_ok_def)
    qed (use c in blast)
    then have "mail_ok (agent_slot_cleanup n ?r)" using c by (simp add: mail_ok_def boxes_ok_def)
    moreover have "same_tables r (agent_slot_cleanup n ?r)" using c IH(2) by (simp add: same_tables_def)
    moreover have "r_agents (agent_slot_cleanup n ?r) k = r_agents r k \<and> (k < Suc n \<longrightarrow> \<not> ag_active (r_agents r k))
        \<or> k < Suc n \<and> ag_active (r_agents r k) \<and> \<not> ag_active (r_agents (agent_slot_cleanup n ?r) k)
          \<and> ag_inbox_count (r_agents (agent_slot_cleanup n ?r) k) = 0
          \<and> ag_desc (r_agents (agent_slot_cleanup n ?r) k) = zero_desc \<and> ag_num_delegations (r_agents (agent_slot_cleanup n ?r) k) = 0" for k
    proof (cases "k = n")
      case kn: True
      then show ?thesis using c True by simp
    next
      case kn: False
      then have "r_agents (agent_slot_cleanup n ?r) k = r_agents ?r k" using c by blast
      then show ?thesis using IH(3) [of k] kn by (simp add: less_Suc_eq)
    qed
    ultimately show ?thesis unfolding e by blast
  qed
qed


lemma zero_desc_caps [simp]: "d_num_caps zero_desc = 0"
  by (simp add: zero_desc_def)

lemma shutdown_ok:
  assumes "rt_ok r"
  shows "rt_ok (flux_agent_shutdown r) \<and> \<not> r_initialized (flux_agent_shutdown r)"
proof (cases "r_initialized r")
  case False
  then show ?thesis using assms by (simp add: flux_agent_shutdown_def)
next
  case True
  let ?r1 = "fold (\<lambda>i r. if ag_active (r_agents r i) then agent_slot_cleanup i r else r) [0..<64] r"
  let ?r = "flux_agent_shutdown r"
  have m: "mail_ok r" using assms by (simp add: rt_ok_def)
  note l = shutdown_loop [OF m order_refl]
  have ag: "r_agents ?r = r_agents ?r1" "r_pool_allocated ?r = r_pool_allocated ?r1" "r_pool_messages ?r = r_pool_messages ?r1"
    "r_heap_messages ?r = r_heap_messages ?r1" "r_num_topics ?r = 0" "\<not> r_initialized ?r"
    using True by (simp_all add: flux_agent_shutdown_def Let_def)
  then have "same_mail ?r1 ?r" by (simp add: same_mail_def)
  then have "mail_ok ?r" using l same_mail_ok by blast
  moreover have "slot_ok i (r_agents ?r i) \<and> \<not> ag_active (r_agents ?r i)" if "i < 64" for i
  proof -
    have "slot_ok i (r_agents r i)" by (rule rt_ok_slot [OF assms that])
    moreover have "r_agents ?r1 i = r_agents r i \<and> \<not> ag_active (r_agents r i)
        \<or> \<not> ag_active (r_agents ?r1 i) \<and> ag_inbox_count (r_agents ?r1 i) = 0
           \<and> ag_desc (r_agents ?r1 i) = zero_desc \<and> ag_num_delegations (r_agents ?r1 i) = 0"
      using l that by blast
    ultimately show ?thesis unfolding ag(1) by (auto simp: slot_ok_def)
  qed
  ultimately show ?thesis using ag by (simp add: rt_ok_def ids_ok_def tables_ok_def)
qed

lemma no_agents_no_messages:
  assumes "rt_ok r" "\<And>i. i < 64 \<Longrightarrow> \<not> ag_active (r_agents r i)"
  shows "dom (r_heap_messages r) = {}"
proof -
  have "mset (inbox_refs (r_agents r i)) = {#}" if "i < 64" for i
    using rt_ok_inactive [OF assms(1) that assms(2) [OF that]] by simp
  then have "held r = {#}" by (simp add: held_def)
  moreover have "owes r {#}" using assms(1) by (simp add: rt_ok_def mail_ok_def)
  ultimately have f: "finite (dom (r_heap_messages r))" and e: "mset_set (live_refs r) = {#}" by (simp_all add: owes_def)
  then have "live_refs r = {}" using mset_set_empty_iff [of "live_refs r"] by simp
  then show ?thesis by (simp add: live_refs_def)
qed

lemma init_ok:
  assumes "rt_ok r" shows "rt_ok (snd (flux_agent_init config r))"
proof -
  define r0 where "r0 = (if r_initialized r then flux_agent_shutdown r else r)"
  have r0: "rt_ok r0" "\<not> r_initialized r0" using assms shutdown_ok by (simp_all add: r0_def)
  then have "\<not> ag_active (r_agents r0 i)" if "i < 64" for i using that by (simp add: rt_ok_def ids_ok_def)
  then have h: "dom (r_heap_messages r0) = {}" by (rule no_agents_no_messages [OF r0(1)])
  let ?r = "snd (flux_agent_init config r)"
  have z: "inbox_ok zero_slot" "inbox_refs zero_slot = []" "\<not> ag_active zero_slot" "ag_inbox_count zero_slot = 0"
    "ag_num_delegations zero_slot = 0" "d_num_caps (ag_desc zero_slot) = 0" "zero_slot\<lparr>ag_active := False\<rparr> = zero_slot"
    by (simp_all add: zero_slot_def inbox_ok_def inbox_refs_def inbox_list_def)
  have f: "r_agents ?r = (\<lambda>_. zero_slot)" "r_pool_allocated ?r = (\<lambda>_. 0)" "r_heap_messages ?r = r_heap_messages r0"
    "r_initialized ?r" "r_agent_bitmap ?r = bitmap_set (\<lambda>_. 0) 0" "r_num_topics ?r = 0" "r_num_pub_caps ?r = 0"
    "r_pub_caps ?r = (\<lambda>_. zero_pub_cap)"
    by (simp_all add: flux_agent_init_def Let_def r0_def z)
  have "live_refs ?r = {}" using h by (simp add: live_refs_def f)
  then have "mail_ok ?r" using h by (simp add: mail_ok_def owes_def held_def boxes_ok_def f z)
  then show ?thesis by (simp add: rt_ok_def ids_ok_def tables_ok_def slot_ok_def f z) (simp add: zero_pub_cap_def)
qed

subsection \<open>Spawn and terminate\<close>

lemma fresh_vm_inv:
  assumes "\<And>bs. bytecode = Some bs \<Longrightarrow> unat len \<le> length bs"
  shows "vm_inv (fresh_vm True ca i bytecode len ws)"
proof -
  have i: "vm_inv (snd (flux_vm_init True))"
    using flux_vm_init_inv [of "snd (flux_vm_init True)"] by (simp add: flux_vm_init_def Let_def)
  have fields: "vm_inv (vm\<lparr>vm_sandboxed := b, vm_owner_pid := o'\<rparr>) = vm_inv vm" for vm b o'
    by (simp add: vm_inv_def regions_ok_def active_ok_def validate_region_id_def)
  have l: "vm_inv (snd (flux_vm_load vm (Some bs) len))" if "vm_inv vm" "bytecode = Some bs" for vm bs
    using flux_vm_load_inv [OF that(1), of bs len "fst (flux_vm_load vm (Some bs) len)" "snd (flux_vm_load vm (Some bs) len)"]
      assms [OF that(2)] by simp
  show ?thesis unfolding fresh_vm_def Let_def
    by (rule region_create_inv) (cases bytecode; simp add: fields i l)
qed

lemma index_of_new [simp]:
  "b < 64 \<Longrightarrow> agent_index_from_id (of_nat (b + 4)) = int b"
proof -
  assume "b < 64"
  then have u: "unat (of_nat (b + 4) :: u32) = b + 4" by (simp only: unat_of_nat) (simp add: take_bit_nat_eq_self)
  then have "\<not> (of_nat (b + 4) :: u32) < 4" "\<not> 68 \<le> (of_nat (b + 4) :: u32)"
    using \<open>b < 64\<close> by (simp_all only: word_less_nat_alt word_le_nat_alt) simp_all
  moreover have "unat (of_nat b :: u32) = b"
    using \<open>b < 64\<close> by (simp only: unat_of_nat) (simp add: take_bit_nat_eq_self)
  then have "uint (of_nat b :: u32) = int b" by (simp only: uint_nat)
  ultimately show ?thesis by (simp add: agent_index_from_id_def)
qed

lemma held_new_slot:
  assumes "i < 64" "inbox_refs (r_agents r i) = []" "inbox_refs (f (r_agents r i)) = []"
  shows "held (upd_slot i f r) = held r"
  using held_upd_slot [OF assms(1), of f r] assms(2,3) by simp


lemma held_cong:
  "(\<And>k. k < 64 \<Longrightarrow> inbox_refs (r_agents r' k) = inbox_refs (r_agents r k)) \<Longrightarrow> held r' = held r"
  by (simp add: held_def)

lemma alloc_id_cases:
  assumes "rt_ok r" "r_initialized r" "agent_alloc_id r = (i, r1)"
  shows "i = 0 \<and> r1 = r \<and> (\<forall>b < 64. b = 0 \<or> ag_active (r_agents r b))
    \<or> (\<exists>b. 0 < b \<and> b < 64 \<and> i = of_nat (b + 4) \<and> i \<noteq> 0 \<and> \<not> ag_active (r_agents r b)
         \<and> r1 = r\<lparr>r_agent_bitmap := bitmap_set (r_agent_bitmap r) b\<rparr>)"
proof (cases "bitmap_find_zero (r_agent_bitmap r) 64")
  case None
  then have "i = 0" "r1 = r" using assms(3) by (simp_all add: agent_alloc_id_def)
  moreover have "\<forall>b < 64. bitmap_test (r_agent_bitmap r) b"
    using None by (simp add: bitmap_find_zero_def first_index_None)
  ultimately show ?thesis using assms(1,2) by (auto simp: rt_ok_def ids_ok_def)
next
  case (Some b)
  then have b: "b < 64" "\<not> bitmap_test (r_agent_bitmap r) b" by (simp_all add: bitmap_find_zero_def first_index_Some)
  then have "b \<noteq> 0" "\<not> ag_active (r_agents r b)" using assms(1,2) by (auto simp: rt_ok_def ids_ok_def)
  moreover have "agent_index_from_id (of_nat (b + 4)) = int b" using b(1) by (rule index_of_new)
  then have "(of_nat (b + 4) :: u32) \<noteq> 0" by (auto simp: agent_index_from_id_def)
  ultimately show ?thesis using b(1) Some assms(3) by (auto simp: agent_alloc_id_def)
qed

text \<open>A slot that was free is filled.\<close>

lemma new_slot_ok:
  assumes "rt_ok r" "r_initialized r" "0 < b" "b < 64" "\<not> ag_active (r_agents r b)"
    and "inbox_ok s" "ag_inbox_count s = 0" "slot_ok b s"
  shows "rt_ok (upd_slot b (\<lambda>_. s) (r\<lparr>r_agent_bitmap := (if ag_active s then bitmap_set (r_agent_bitmap r) b else r_agent_bitmap r)\<rparr>))"
    (is "rt_ok ?r")
proof -
  have e: "inbox_refs s = []" "inbox_refs (r_agents r b) = []"
    using assms(7) rt_ok_inactive [OF assms(1,4,5)] by (simp_all flip: length_0_conv)
  have "held ?r = held r" by (rule held_cong) (use e in simp)
  moreover have "live_refs ?r = live_refs r" by (simp add: live_refs_def)
  ultimately have "mail_ok ?r" using assms(1,6) by (simp add: mail_ok_def rt_ok_def boxes_ok_def owes_def)
  moreover have "ids_ok ?r" using assms(1-5,8) by (auto simp: rt_ok_def ids_ok_def)
  moreover have "tables_ok ?r" using assms(1) by (simp add: rt_ok_def tables_ok_def)
  ultimately show ?thesis by (simp add: rt_ok_def)
qed

lemma peak_ok: "rt_ok (agent_update_peak r) = rt_ok r"
  by (simp add: agent_update_peak_def Let_def rt_ok_def mail_ok_def owes_def live_refs_def held_def boxes_ok_def
      ids_ok_def tables_ok_def)

lemma agent_spawn_ok:
  assumes "rt_ok r" "\<And>bs. bytecode = Some bs \<Longrightarrow> unat len \<le> length bs"
    and "flux_agent_spawn mem True ca name model caps bytecode len r = (i, r')"
  shows "rt_ok r'"
proof (cases "r_initialized r \<and> sint (c_max_agents (r_config r)) > int (agent_count_active r)")
  case False
  then have "r' = r" using assms(3) by (simp add: flux_agent_spawn_def not_less split: if_splits)
  then show ?thesis using assms(1) by simp
next
  case True
  obtain j r1 where al: "agent_alloc_id r = (j, r1)" by (cases "agent_alloc_id r")
  from alloc_id_cases [OF assms(1) conjunct1 [OF True] al] show ?thesis
  proof (elim disjE exE conjE)
    fix b assume b: "0 < b" "b < 64" "j = of_nat (b + 4)" "j \<noteq> 0" "\<not> ag_active (r_agents r b)"
      and r1: "r1 = r\<lparr>r_agent_bitmap := bitmap_set (r_agent_bitmap r) b\<rparr>"
    have idx: "agent_index_from_id j = int b" unfolding b(3) by (rule index_of_new [OF b(2)])
    have z: "inbox_ok zero_slot" "ag_inbox_count zero_slot = 0" "slot_ok b zero_slot" "\<not> ag_active zero_slot"
      by (simp_all add: zero_slot_def inbox_ok_def inbox_list_def slot_ok_def)
    note new = new_slot_ok [OF assms(1) _ b(1,2,5)]
    show ?thesis
    proof (cases "(bytecode \<noteq> None \<and> 0 < len) \<and> \<not> mem")
      case fail: True
      then have "r' = agent_free_id j (upd_slot b (\<lambda>_. zero_slot) r1)"
        using assms(3) True al b(4) idx by (auto simp: flux_agent_spawn_def Let_def)
      then have r': "r' = upd_slot b (\<lambda>_. zero_slot) (r\<lparr>r_agent_bitmap := bitmap_clear (bitmap_set (r_agent_bitmap r) b) b\<rparr>)"
        using idx by (simp add: agent_free_id_def r1 upd_slot_def Let_def)
      have "rt_ok (upd_slot b (\<lambda>_. zero_slot) r)" using new [OF _ z(1-3)] z(4) True by simp
      then show ?thesis
        using assms(1) b by (simp add: r' rt_ok_def mail_ok_def owes_def live_refs_def held_def boxes_ok_def ids_ok_def tables_ok_def)
          (auto simp: True)
    next
      case good: False
      define copy where "copy = (if bytecode \<noteq> None \<and> 0 < len then map_option (take (unat len)) bytecode else None)"
      define copy_len where "copy_len = (if bytecode \<noteq> None \<and> 0 < len then len else 0)"
      have vm: "vm_inv (fresh_vm True ca j copy copy_len ws)" for ws
        by (rule fresh_vm_inv) (use assms(2) in \<open>auto simp: copy_def copy_len_def split: if_splits\<close>)
      obtain desc where desc: "r' = agent_update_peak (upd_slot b (\<lambda>s. s\<lparr>ag_bytecode := copy, ag_bytecode_len := copy_len,
                     ag_vm := fresh_vm True ca j copy copy_len (c_default_memory (r_config r)),
                     ag_vm_initialized := True, ag_desc := desc, ag_active := True, ag_paused := False\<rparr>)
                   (upd_slot b (\<lambda>_. zero_slot) r1))" "d_agent_id desc = j" "d_num_caps desc = 0"
        using assms(3) True al b(4) idx good
        by (auto simp: flux_agent_spawn_def Let_def copy_def copy_len_def not_le intro!: that)
      define s where "s = zero_slot\<lparr>ag_bytecode := copy, ag_bytecode_len := copy_len,
                     ag_vm := fresh_vm True ca j copy copy_len (c_default_memory (r_config r)),
                     ag_vm_initialized := True, ag_desc := desc, ag_active := True, ag_paused := False\<rparr>"
      have "r' = agent_update_peak (upd_slot b (\<lambda>_. s) (r\<lparr>r_agent_bitmap := (if ag_active s then bitmap_set (r_agent_bitmap r) b else r_agent_bitmap r)\<rparr>))"
        unfolding desc(1) r1 by (simp add: s_def upd_slot_def)
      moreover have "inbox_ok s" "ag_inbox_count s = 0" "slot_ok b s"
        using desc(2,3) b(3) vm by (simp_all add: s_def zero_slot_def inbox_ok_def inbox_list_def slot_ok_def)
      ultimately show ?thesis using new True by (simp add: peak_ok)
    qed
  next
    assume "j = 0" "r1 = r"
    then have "r' = r" using assms(3) True al by (simp add: flux_agent_spawn_def)
    then show ?thesis using assms(1) by simp
  qed
qed

end
