(* ===== verification/FluxAgentReach.thy ===== *)
theory FluxAgentReach
  imports FluxAgentInv
begin

section \<open>Every operation of the agent runtime keeps the invariant\<close>

text \<open>
  One lemma per operation, then the step relation \<open>rt_step\<close> of single calls with any arguments and
  the states \<open>rt_reach\<close> that any number of calls lead to from \<open>boot_rt\<close>: all of them satisfy \<open>rt_ok\<close>.
\<close>

subsection \<open>Terminate, pause, resume\<close>

lemma slot_by_id_index: "agent_slot_by_id r i = Some j \<Longrightarrow> agent_index_from_id i = int j"
  by (auto simp: agent_slot_by_id_def Let_def split: if_splits)

lemma slot_update_ok:
  assumes "rt_ok r" "same_mail r r'" "r_initialized r' = r_initialized r" "r_agent_bitmap r' = r_agent_bitmap r"
    and "r_topics r' = r_topics r" "r_num_topics r' = r_num_topics r" "r_pub_caps r' = r_pub_caps r"
    and "r_num_pub_caps r' = r_num_pub_caps r"
    and "\<And>i. i < 64 \<Longrightarrow> slot_ok i (r_agents r i) \<Longrightarrow>
      slot_ok i (r_agents r' i) \<and> ag_active (r_agents r' i) = ag_active (r_agents r i)"
  shows "rt_ok r'"
  using assms same_mail_ok [OF assms(2)] unfolding rt_ok_def ids_ok_def tables_ok_def by auto

lemma terminate_cases:
  assumes "rt_ok r" "flux_agent_terminate i r = (FLUX_OK, r')"
  obtains j where "agent_slot_by_id r i = Some j" "j < 64" "r_initialized r" "rt_ok r'" "\<not> ag_active (r_agents r' j)"
    "\<And>k. k \<noteq> j \<Longrightarrow> r_agents r' k = r_agents r k" "same_tables r r'"
    "r_agent_bitmap r' = bitmap_clear (r_agent_bitmap r) j"
proof -
  obtain j where j: "agent_slot_by_id r i = Some j" and init: "r_initialized r"
    and r': "r' = agent_free_id i (agent_slot_cleanup j (upd_desc j (\<lambda>d. d\<lparr>d_state := AGENT_TERMINATED\<rparr>) r))"
    using assms(2) by (auto simp: flux_agent_terminate_def split: if_splits option.splits)
  note jl = slot_by_id_less [OF j]
  define r1 where "r1 = upd_desc j (\<lambda>d. d\<lparr>d_state := AGENT_TERMINATED\<rparr>) r"
  have "mail_step r r1" unfolding r1_def by (intro mail_stepI) (simp_all add: calm_desc)
  then have ok1: "rt_ok r1" using assms(1) mail_step_ok by blast
  then have "owes r1 {#}" "inbox_ok (r_agents r1 j)" using jl by (simp_all add: rt_ok_def mail_ok_def boxes_ok_def)
  note c = cleanup_cases [OF this jl]
  let ?r2 = "agent_slot_cleanup j r1"
  have r'2: "r' = ?r2\<lparr>r_agent_bitmap := bitmap_clear (r_agent_bitmap ?r2) j\<rparr>"
    unfolding r' r1_def [symmetric] by (simp add: agent_free_id_def slot_by_id_index [OF j])
  have k: "r_agents r' k = r_agents r k" if "k \<noteq> j" for k
  proof -
    have "r_agents ?r2 k = r_agents r1 k" using c that by blast
    then show ?thesis using that by (simp add: r'2 r1_def)
  qed
  have box: "inbox_ok (r_agents r' n)" if "n < 64" for n
  proof (cases "n = j")
    case True
    then show ?thesis using c by (simp add: r'2)
  next
    case False
    then show ?thesis using assms(1) that by (simp add: k rt_ok_def mail_ok_def boxes_ok_def)
  qed
  have "owes r' {#} = owes ?r2 {#}" by (rule owes_cong) (simp_all add: r'2)
  then have mail: "mail_ok r'" using c box by (simp add: mail_ok_def boxes_ok_def)
  have f: "same_tables r r'" "r_agent_bitmap r' = bitmap_clear (r_agent_bitmap r) j" "\<not> ag_active (r_agents r' j)"
    using c by (simp_all add: r'2 same_tables_def r1_def)
  have "slot_ok n (r_agents r' n)" if "n < 64" for n
  proof (cases "n = j")
    case True
    then show ?thesis using c by (simp add: r'2 slot_ok_def)
  next
    case False
    then show ?thesis using rt_ok_slot [OF assms(1) that] by (simp add: k)
  qed
  moreover have "\<not> ag_active (r_agents r' 0)" using assms(1) init f(3) k [of 0] by (cases "j = 0") (auto simp: rt_ok_def ids_ok_def)
  moreover have "bitmap_test (r_agent_bitmap r') n \<longleftrightarrow> n = 0 \<or> ag_active (r_agents r' n)" if "n < 64" for n
  proof -
    have "bitmap_test (r_agent_bitmap r) n \<longleftrightarrow> n = 0 \<or> ag_active (r_agents r n)" "\<not> ag_active (r_agents r 0)"
      using assms(1) init that by (simp_all add: rt_ok_def ids_ok_def)
    then show ?thesis using k [of n] f(2,3) slot_by_id_active [OF j] by (cases "n = j"; cases "j = 0") auto
  qed
  ultimately have "ids_ok r'" using f(1) init by (simp add: ids_ok_def same_tables_def)
  moreover have "tables_ok r'" using assms(1) f(1) by (simp add: tables_ok_def rt_ok_def same_tables_def)
  ultimately have "rt_ok r'" using mail by (simp add: rt_ok_def)
  then show ?thesis using that [OF j jl init _ f(3) k f(1,2)] by blast
qed

lemma terminate_fail: "flux_agent_terminate i r = (st, r') \<Longrightarrow> st \<noteq> FLUX_OK \<Longrightarrow> r' = r"
  by (auto simp: flux_agent_terminate_def split: if_splits option.splits)

lemma terminate_ok: "rt_ok r \<Longrightarrow> flux_agent_terminate i r = (st, r') \<Longrightarrow> rt_ok r'"
  using terminate_cases terminate_fail by metis

lemma pause_step: "flux_agent_pause i r = (st, r') \<Longrightarrow> mail_step r r'"
proof -
  assume a: "flux_agent_pause i r = (st, r')"
  have "mail_step r (upd_slot j (\<lambda>s. s\<lparr>ag_paused := True, ag_vm := vm, ag_desc := (ag_desc s)\<lparr>d_last_active := t\<rparr>\<rparr>) r)"
    if "vm_inv (ag_vm (r_agents r j)) \<Longrightarrow> vm_inv vm" for j vm t
    by (intro mail_stepI same_mail_slot calm_slot) (use that in \<open>simp_all add: quiet_def\<close>)
  then show ?thesis using a
    by (auto simp: flux_agent_pause_def Let_def flux_vm_halt_def split: if_splits option.splits)
qed

lemma resume_step: "flux_agent_resume i r = (st, r') \<Longrightarrow> mail_step r r'"
proof -
  assume a: "flux_agent_resume i r = (st, r')"
  have "mail_step r (upd_slot j (\<lambda>s. s\<lparr>ag_paused := False, ag_vm := vm, ag_desc := (ag_desc s)\<lparr>d_last_active := t\<rparr>\<rparr>) r)"
    if "vm_inv (ag_vm (r_agents r j)) \<Longrightarrow> vm_inv vm" for j vm t
    by (intro mail_stepI same_mail_slot calm_slot) (use that in \<open>simp_all add: quiet_def\<close>)
  then show ?thesis using a
    by (auto simp: flux_agent_resume_def Let_def split: if_splits option.splits)
qed


subsection \<open>Capabilities\<close>

lemma audit_step: "mail_step r (audit_log_record i t c a r)"
  unfolding audit_log_record_def Let_def
  by (auto intro!: mail_stepI same_mail_slot calm_slot simp: quiet_def)

lemma caps_ok:
  assumes "rt_ok r" shows "rt_ok (upd_desc j (\<lambda>d. d\<lparr>d_capabilities := c d\<rparr>) r)"
  by (rule slot_update_ok [OF assms]) (auto simp: slot_ok_def)

lemma audit_ok: "rt_ok r \<Longrightarrow> rt_ok (audit_log_record i t c a r)"
  using audit_step mail_step_ok by blast

lemma capability_ops_ok:
  assumes "rt_ok r"
  shows "rt_ok (snd (flux_agent_grant_cap i cap r))" "rt_ok (snd (flux_agent_revoke_cap i cap r))"
    "rt_ok (snd (flux_agent_has_cap i cap r))" "rt_ok (snd (flux_agent_transfer_cap i k cap r))"
    "rt_ok (snd (flux_agent_inherit_caps i k r))"
  using assms
  by (auto simp: flux_agent_grant_cap_def flux_agent_revoke_cap_def flux_agent_has_cap_def flux_agent_transfer_cap_def
      flux_agent_inherit_caps_def Let_def intro!: audit_ok caps_ok split: option.split)

subsection \<open>Registry and topics\<close>

lemma table_update_ok:
  assumes "rt_ok r" "tables_ok (g r)" "same_mail r (g r)" "r_initialized (g r) = r_initialized r"
    and "r_agent_bitmap (g r) = r_agent_bitmap r"
    and "\<And>i. i < 64 \<Longrightarrow> slot_ok i (r_agents r i) \<Longrightarrow>
      slot_ok i (r_agents (g r) i) \<and> ag_active (r_agents (g r) i) = ag_active (r_agents r i)"
  shows "rt_ok (g r)"
  using assms same_mail_ok [OF assms(3)] unfolding rt_ok_def ids_ok_def by auto

lemma upd_pub_cap_simps [simp]:
  "r_agents (upd_pub_cap k f r) = r_agents r" "r_initialized (upd_pub_cap k f r) = r_initialized r"
  "r_agent_bitmap (upd_pub_cap k f r) = r_agent_bitmap r" "r_topics (upd_pub_cap k f r) = r_topics r"
  "r_num_topics (upd_pub_cap k f r) = r_num_topics r" "r_num_pub_caps (upd_pub_cap k f r) = r_num_pub_caps r"
  "r_pub_caps (upd_pub_cap k f r) = (r_pub_caps r)(k := f (r_pub_caps r k))"
  "same_mail r (upd_pub_cap k f r)"
  by (simp_all add: upd_pub_cap_def same_mail_def)

lemma num_caps_ok:
  assumes "rt_ok r" "d_num_caps (f (desc_at r j)) \<le> 16" "d_agent_id (f (desc_at r j)) = d_agent_id (desc_at r j)"
  shows "rt_ok (upd_desc j f r)"
  by (rule slot_update_ok [OF assms(1)]) (use assms(2,3) in \<open>auto simp: slot_ok_def desc_at_def\<close>)

lemma publish_ok:
  assumes "rt_ok r" "flux_agent_publish_cap i name description r = (st, r')"
  shows "rt_ok r'"
proof (cases "r' = r")
  case False
  then obtain n j where n: "name = Some n" "n \<noteq> []" and init: "r_initialized r" and j: "agent_slot_by_id r i = Some j"
    using assms(2) by (auto simp: flux_agent_publish_cap_def split: if_splits option.splits)
  have tb: "tables_ok r" using assms(1) by (simp add: rt_ok_def)
  show ?thesis
  proof (cases "find_pub_cap name r")
    case (Some k)
    then obtain d where r': "r' = upd_pub_cap k (\<lambda>e. e\<lparr>pc_description := take 127 d\<rparr>) r"
      using False assms(2) n init j by (auto simp: flux_agent_publish_cap_def split: if_splits option.splits)
    show ?thesis unfolding r'
      by (rule table_update_ok [OF assms(1)]) (use tb in \<open>simp_all add: tables_ok_def\<close>)
  next
    case None
    obtain k where k: "first_index (\<lambda>k. \<not> pc_active (r_pub_caps r k)) 0 256 = Some k"
      and lim: "d_num_caps (desc_at r j) < 16"
      using False None assms(2) n init j by (auto simp: flux_agent_publish_cap_def split: if_splits option.splits)
    define e where "e = zero_pub_cap\<lparr>pc_name := take 31 n,
        pc_description := (case description of None \<Rightarrow> '''' | Some d \<Rightarrow> take 127 d), pc_agent_id := i, pc_active := True\<rparr>"
    define r2 where "r2 = (if r_num_pub_caps r \<le> k then (upd_pub_cap k (\<lambda>_. e) r)\<lparr>r_num_pub_caps := k + 1\<rparr> else upd_pub_cap k (\<lambda>_. e) r)"
    have a: "r_agents r2 = r_agents r" by (simp add: r2_def)
    have kb: "k < 256" "\<not> pc_active (r_pub_caps r k)" using k by (simp_all add: first_index_Some)
    have "rt_ok r2"
    proof (rule table_update_ok [OF assms(1), of "\<lambda>_. r2"])
      show "tables_ok r2" using tb kb by (auto simp: tables_ok_def r2_def)
      show "same_mail r r2" by (simp add: r2_def same_mail_def upd_pub_cap_def)
    qed (simp_all add: r2_def)
    moreover define f :: "agent_desc \<Rightarrow> agent_desc" where "f = (\<lambda>d. d\<lparr>d_caps := (d_caps d)(d_num_caps (desc_at r2 j) := (take 31 n,
        case description of None \<Rightarrow> snd (d_caps (desc_at r2 j) (d_num_caps (desc_at r2 j))) | Some x \<Rightarrow> take 127 x)),
        d_num_caps := d_num_caps (desc_at r2 j) + 1\<rparr>)"
    have "r' = upd_desc j f r2"
      using assms(2) n init j None k lim
      by (cases description; cases "r_num_pub_caps r \<le> k"; simp add: flux_agent_publish_cap_def Let_def not_le e_def r2_def f_def)
    moreover have "d_num_caps (f (desc_at r2 j)) = d_num_caps (desc_at r2 j) + 1"
      "d_agent_id (f (desc_at r2 j)) = d_agent_id (desc_at r2 j)"
      by (simp_all add: f_def)
    moreover have "desc_at r2 j = desc_at r j" by (simp add: desc_at_def a)
    ultimately show ?thesis using lim by (auto intro!: num_caps_ok)
  qed
qed (use assms in simp)

lemma unpublish_ok:
  assumes "rt_ok r" "flux_agent_unpublish_cap i name r = (st, r')"
  shows "rt_ok r'"
proof (cases "find_pub_cap name r")
  case None
  then have "r' = r" using assms(2) by (auto simp: flux_agent_unpublish_cap_def split: if_splits option.splits)
  then show ?thesis using assms(1) by simp
next
  case (Some k)
  define r1 where "r1 = upd_pub_cap k (\<lambda>e. e\<lparr>pc_active := False, pc_name := '''', pc_description := '''',
                           pc_agent_id := FLUX_AGENT_ID_INVALID\<rparr>) r"
  have "tables_ok r1" using assms(1) by (auto simp: rt_ok_def tables_ok_def r1_def)
  then have ok: "rt_ok r1" by (intro table_update_ok [OF assms(1), of "\<lambda>_. r1"]) (simp_all add: r1_def)
  have dc: "rt_ok (upd_desc j (drop_cap c) r1)" if "j < 64" for j c
    by (rule num_caps_ok [OF ok]) (use rt_ok_slot [OF ok that] in \<open>auto simp: drop_cap_def Let_def slot_ok_def desc_at_def\<close>)
  have "r' = r \<or> r' = r1 \<or> (\<exists>j c. j < 64 \<and> r' = upd_desc j (drop_cap c) r1)"
    using assms(2) Some by (auto simp: flux_agent_unpublish_cap_def Let_def r1_def dest: slot_by_id_less split: if_splits option.splits)
  then show ?thesis using assms(1) ok dc by blast
qed


lemma shift_down_apply: "shift_down j n a k = (if j \<le> k \<and> k < n - 1 then a (k + 1) else a k)"
proof -
  have "fold (\<lambda>k a. a(k := a (k + 1))) [j..<m] a k = (if j \<le> k \<and> k < m then a (k + 1) else a k)" for m
    by (induction m arbitrary: k) auto
  then show ?thesis by (simp add: shift_down_def)
qed

lemma drop_subscriber_ok: "topic_ok tp \<Longrightarrow> j < tp_num_subscribers tp \<Longrightarrow> topic_ok (drop_subscriber j tp)"
proof -
  assume *: "topic_ok tp" "j < tp_num_subscribers tp"
  let ?n = "tp_num_subscribers tp" and ?f = "\<lambda>k. if j \<le> k then Suc k else k"
  have "inj_on (tp_subscribers tp) {0..<?n}" using *(1) by (simp add: topic_ok_def distinct_map)
  moreover have "?f ` {0..<?n - 1} \<subseteq> {0..<?n}" by auto
  ultimately have "inj_on (tp_subscribers tp) (?f ` {0..<?n - 1})" by (rule inj_on_subset)
  moreover have "inj_on ?f {0..<?n - 1}" by (auto simp: inj_on_def split: if_splits)
  ultimately have "inj_on (tp_subscribers tp \<circ> ?f) {0..<?n - 1}" using comp_inj_on by blast
  then have "distinct (map (tp_subscribers tp \<circ> ?f) [0..<?n - 1])"
    by (simp only: distinct_map distinct_upt set_upt simp_thms)
  moreover have "map (tp_subscribers tp \<circ> ?f) [0..<?n - 1] = map (shift_down j ?n (tp_subscribers tp)) [0..<?n - 1]"
    by (simp add: shift_down_apply)
  ultimately have "distinct (map (shift_down j ?n (tp_subscribers tp)) [0..<?n - 1])" by (simp only:)
  then show ?thesis using *(1) by (auto simp: topic_ok_def drop_subscriber_def)
qed

lemma upd_topic_simps [simp]:
  "r_agents (upd_topic k f r) = r_agents r" "r_initialized (upd_topic k f r) = r_initialized r"
  "r_agent_bitmap (upd_topic k f r) = r_agent_bitmap r" "r_pub_caps (upd_topic k f r) = r_pub_caps r"
  "r_num_topics (upd_topic k f r) = r_num_topics r" "r_num_pub_caps (upd_topic k f r) = r_num_pub_caps r"
  "r_topics (upd_topic k f r) = (r_topics r)(k := f (r_topics r k))"
  "same_mail r (upd_topic k f r)"
  by (simp_all add: upd_topic_def same_mail_def)

lemma upd_topic_ok:
  assumes "rt_ok r" "t < r_num_topics r" "topic_ok (r_topics r t) \<Longrightarrow> topic_ok (f (r_topics r t))"
  shows "rt_ok (upd_topic t f r)"
  by (rule table_update_ok [OF assms(1)]) (use assms in \<open>auto simp: rt_ok_def tables_ok_def\<close>)

lemma create_topic_ok:
  assumes "rt_ok r" "find_or_create_topic name r = (t, r1)"
  shows "rt_ok r1 \<and> r_agents r1 = r_agents r \<and> (\<forall>k. t = Some k \<longrightarrow> k < r_num_topics r1)"
proof (cases "r_num_topics r1 = r_num_topics r")
  case True
  then show ?thesis using assms
    by (auto simp: find_or_create_topic_def find_topic_by_name_def first_index_Some Let_def split: option.splits if_splits)
next
  case False
  then obtain n where r1: "r1 = r\<lparr>r_topics := (r_topics r)(r_num_topics r := zero_topic\<lparr>tp_name := take 31 n, tp_num_subscribers := 0\<rparr>),
      r_num_topics := r_num_topics r + 1\<rparr>" and t: "t = Some (r_num_topics r)" and l: "r_num_topics r < 32"
    using assms(2) by (auto simp: find_or_create_topic_def Let_def split: option.splits if_splits)
  have "rt_ok r1"
    by (rule table_update_ok [OF assms(1), of "\<lambda>_. r1"])
      (use assms(1) l in \<open>auto simp: r1 rt_ok_def tables_ok_def topic_ok_def same_mail_def less_Suc_eq\<close>)
  then show ?thesis by (simp add: r1 t)
qed

lemma add_subscriber_ok:
  assumes "topic_ok tp" "tp_num_subscribers tp < 64" "i \<notin> tp_subscribers tp ` {..<tp_num_subscribers tp}"
  shows "topic_ok (tp\<lparr>tp_subscribers := (tp_subscribers tp)(tp_num_subscribers tp := i), tp_num_subscribers := tp_num_subscribers tp + 1\<rparr>)"
  using assms by (auto simp: topic_ok_def distinct_map inj_on_def)

lemma subscribe_ok:
  assumes "rt_ok r" "flux_agent_subscribe i topic r = (st, r')"
  shows "rt_ok r'"
proof -
  obtain t r1 where c: "find_or_create_topic topic r = (t, r1)" by (cases "find_or_create_topic topic r")
  note ok1 = create_topic_ok [OF assms(1) c]
  have add: "rt_ok (upd_topic k (\<lambda>tp. tp\<lparr>tp_subscribers := (tp_subscribers tp)(tp_num_subscribers tp := i),
                      tp_num_subscribers := tp_num_subscribers tp + 1\<rparr>) r1)"
    if "t = Some k" "\<not> list_ex (\<lambda>n. tp_subscribers (r_topics r1 k) n = i) [0..<tp_num_subscribers (r_topics r1 k)]"
       "tp_num_subscribers (r_topics r1 k) < 64" for k
    using that ok1 by (intro upd_topic_ok add_subscriber_ok) (auto simp: list_ex_iff)
  show ?thesis using assms(1,2) c ok1 add
    by (auto simp: flux_agent_subscribe_def Let_def not_le split: if_splits option.splits prod.splits)
qed

lemma unsubscribe_ok:
  assumes "rt_ok r" "flux_agent_unsubscribe i topic r = (st, r')"
  shows "rt_ok r'"
  using assms
  by (auto simp: flux_agent_unsubscribe_def first_index_Some find_topic_by_name_def split: if_splits option.splits
      intro!: upd_topic_ok drop_subscriber_ok)

subsection \<open>Running agents\<close>

lemma quiet_state [simp]: "quiet s (set_agent_state st s)"
  by (simp add: quiet_def set_agent_state_def)

text \<open>What running an agent may change of its slot: the VM, the state and the counters.\<close>

definition own_step :: "agent_slot \<Rightarrow> agent_slot \<Rightarrow> bool" where
  "own_step s s' \<longleftrightarrow> (vm_inv (ag_vm s) \<longrightarrow> vm_inv (ag_vm s')) \<and>
     s'\<lparr>ag_vm := ag_vm s, ag_last_tick_update := ag_last_tick_update s,
        ag_desc := (ag_desc s')\<lparr>d_state := d_state (ag_desc s), d_used_cpu_ticks := d_used_cpu_ticks (ag_desc s),
          d_used_memory := d_used_memory (ag_desc s), d_used_io_per_sec := d_used_io_per_sec (ag_desc s),
          d_last_active := d_last_active (ag_desc s)\<rparr>\<rparr> = s"

lemma own_stepD:
  assumes "own_step s s'"
  shows "quiet s s'" "ag_inbox s' = ag_inbox s \<and> ag_inbox_head s' = ag_inbox_head s
     \<and> ag_inbox_tail s' = ag_inbox_tail s \<and> ag_inbox_count s' = ag_inbox_count s"
proof -
  let ?s = "s'\<lparr>ag_vm := ag_vm s, ag_last_tick_update := ag_last_tick_update s,
        ag_desc := (ag_desc s')\<lparr>d_state := d_state (ag_desc s), d_used_cpu_ticks := d_used_cpu_ticks (ag_desc s),
          d_used_memory := d_used_memory (ag_desc s), d_used_io_per_sec := d_used_io_per_sec (ag_desc s),
          d_last_active := d_last_active (ag_desc s)\<rparr>\<rparr>"
  have e: "?s = s" "vm_inv (ag_vm s) \<longrightarrow> vm_inv (ag_vm s')" using assms unfolding own_step_def by blast+
  have "f ?s = f s" for f :: "agent_slot \<Rightarrow> 'a" by (rule arg_cong [OF e(1)])
  note f = this [of ag_active] this [of ag_inbox_count] this [of ag_inbox_head] this [of ag_inbox_tail] this [of ag_inbox]
    this [of ag_vm_initialized] this [of ag_num_delegations] this [of "d_agent_id \<circ> ag_desc"]
    this [of "d_capabilities \<circ> ag_desc"] this [of "d_num_caps \<circ> ag_desc"]
  show "quiet s s'" "ag_inbox s' = ag_inbox s \<and> ag_inbox_head s' = ag_inbox_head s
     \<and> ag_inbox_tail s' = ag_inbox_tail s \<and> ag_inbox_count s' = ag_inbox_count s"
    using f e(2) by (simp_all add: quiet_def)
qed

lemma own_refl [simp]: "own_step s s"
  by (simp add: own_step_def)

lemma own_trans: "own_step s t \<Longrightarrow> own_step t u \<Longrightarrow> own_step s u"
proof -
  assume *: "own_step s t" "own_step t u"
  have t: "t = u\<lparr>ag_vm := ag_vm t, ag_last_tick_update := ag_last_tick_update t,
        ag_desc := (ag_desc u)\<lparr>d_state := d_state (ag_desc t), d_used_cpu_ticks := d_used_cpu_ticks (ag_desc t),
          d_used_memory := d_used_memory (ag_desc t), d_used_io_per_sec := d_used_io_per_sec (ag_desc t),
          d_last_active := d_last_active (ag_desc t)\<rparr>\<rparr>"
    using *(2) unfolding own_step_def by simp
  have "t\<lparr>ag_vm := ag_vm s, ag_last_tick_update := ag_last_tick_update s,
        ag_desc := (ag_desc t)\<lparr>d_state := d_state (ag_desc s), d_used_cpu_ticks := d_used_cpu_ticks (ag_desc s),
          d_used_memory := d_used_memory (ag_desc s), d_used_io_per_sec := d_used_io_per_sec (ag_desc s),
          d_last_active := d_last_active (ag_desc s)\<rparr>\<rparr> = s"
    using *(1) unfolding own_step_def by simp
  then show ?thesis using * by (subst (asm) t, subst (asm) t) (simp add: own_step_def)
qed

lemma own_mail_step: "own_step (r_agents r j) s \<Longrightarrow> mail_step r (upd_slot j (\<lambda>_. s) r)"
  using own_stepD [of "r_agents r j" s] by (intro mail_stepI) (auto simp: same_mail_def calm_rt_def)

lemma own_pieces [simp]:
  "own_step s (set_agent_state st s)" "own_step s (snd (sandbox_check_cpu s))" "own_step s (snd (sandbox_check_memory s))"
  "own_step s (sandbox_handle_violation s v)" "own_step s (sandbox_account_io s)" "own_step s (add_ticks n s)"
  "own_step s (enter_run now s)" "own_step s (leave_run result s)"
  by (simp_all add: own_step_def set_agent_state_def sandbox_check_cpu_def sandbox_check_memory_def
      sandbox_handle_violation_def sandbox_account_io_def add_ticks_def enter_run_def leave_run_def Let_def)

lemma own_vm: "(vm_inv (ag_vm s) \<Longrightarrow> vm_inv vm) \<Longrightarrow> own_step s (s\<lparr>ag_vm := vm\<rparr>)"
  by (simp add: own_step_def)


lemma own_step_vm: "flux_vm_step fp ca (ag_vm s) = Val (st, vm) \<Longrightarrow> own_step s (s\<lparr>ag_vm := vm\<rparr>)"
  by (rule own_vm) (rule vm_step_inv)

lemma a2a_step_own:
  assumes "a2a_step fp ca s = Val (st, s')" shows "own_step s s'"
proof -
  obtain st0 vm where v: "flux_vm_step fp ca (ag_vm s) = Val (st0, vm)"
    and s': "s' = (if st0 = FLUX_OK then set_agent_state AGENT_WAITING (add_ticks (vm_last_op_cycles vm) (s\<lparr>ag_vm := vm\<rparr>))
      else add_ticks (vm_last_op_cycles vm) (s\<lparr>ag_vm := vm\<rparr>))"
    using assms by (auto simp: a2a_step_def cmap_Val_iff Let_def split: if_splits)
  note o = own_trans [OF own_step_vm [OF v] own_pieces(6)]
  show ?thesis unfolding s' by (split if_split) (intro conjI impI o own_trans [OF o own_pieces(1)])
qed

lemma plain_step_own:
  assumes "plain_step fp ca now s = Val (st, s')" shows "own_step s s'"
proof -
  obtain st0 vm where v: "flux_vm_step fp ca (ag_vm s) = Val (st0, vm)"
    using assms by (auto simp: plain_step_def cmap_Val_iff)
  let ?s1 = "add_ticks (vm_last_op_cycles vm) (s\<lparr>ag_vm := vm\<rparr>)"
  let ?s3 = "(if vm_last_op_cycles vm = 0 then add_ticks 1 ?s1 else ?s1)\<lparr>ag_last_tick_update := now\<rparr>"
  have "own_step s ?s1" by (rule own_trans [OF own_step_vm [OF v] own_pieces(6)])
  then have "own_step s (if vm_last_op_cycles vm = 0 then add_ticks 1 ?s1 else ?s1)" using own_trans own_pieces(6) by auto
  then have o: "own_step s ?s3" by (rule own_trans) (simp add: own_step_def)
  have "s' \<in> {set_agent_state AGENT_THINKING ?s3, set_agent_state AGENT_TERMINATED ?s3,
      (set_agent_state AGENT_FAILED ?s3)\<lparr>ag_vm := (ag_vm ?s3)\<lparr>vm_state := VM_ERROR\<rparr>\<rparr>}"
    using assms v by (cases st0) (simp_all add: plain_step_def Let_def)
  moreover have "own_step s ((set_agent_state x ?s3)\<lparr>ag_vm := (ag_vm ?s3)\<lparr>vm_state := VM_ERROR\<rparr>\<rparr>)" for x
    by (rule own_trans [OF own_trans [OF o own_pieces(1)] own_vm]) (simp add: set_agent_state_def)
  ultimately show ?thesis using own_trans [OF o own_pieces(1)] by blast
qed

lemma admit_own: "(case admit_opcode op s of Inl s' \<Rightarrow> own_step s s' | Inr s' \<Rightarrow> own_step s s')"
  by (simp add: admit_opcode_def)

lemma sandbox_own:
  assumes "sandbox_step fp ca now s = Val (st, s')" shows "own_step s s'"
proof (cases "ag_vm_initialized s")
  case True
  obtain c s1 where c: "sandbox_check_cpu s = (c, s1)" by (cases "sandbox_check_cpu s")
  obtain m s2 where m: "sandbox_check_memory s1 = (m, s2)" by (cases "sandbox_check_memory s1")
  have o1: "own_step s s1" "own_step s1 s2" using own_pieces(2) [of s] own_pieces(3) [of s1] by (simp_all add: c m)
  note o = o1(1) own_trans [OF o1]
  note t = own_trans [OF o(1) own_pieces(4)] own_trans [OF o(2) own_pieces(4)] own_trans [OF o(2) own_pieces(1)]
  have plain: "plain_step fp ca now s2 = Val (st, s') \<Longrightarrow> ?thesis" using own_trans [OF o(2) plain_step_own] .
  show ?thesis
  proof (cases "\<not> c \<and> \<not> m \<and> (vm_state (ag_vm s2) = VM_IDLE \<or> vm_state (ag_vm s2) = VM_RUNNING)
      \<and> vm_pc (ag_vm s2) < vm_bytecode_len (ag_vm s2)")
    case False
    then show ?thesis using assms True c m t o plain
      by (auto simp: sandbox_step_def split: if_splits)
  next
    case run: True
    then obtain op where op: "code_byte (ag_vm s2) (vm_pc (ag_vm s2)) = Val op"
      and body: "(case admit_opcode op s2 of Inl s3 \<Rightarrow> Val (FLUX_ERR_DENIED, s3)
        | Inr s3 \<Rightarrow> if is_a2a_opcode op then a2a_step fp ca s3 else plain_step fp ca now s3) = Val (st, s')"
      using assms True c m by (auto simp: sandbox_step_def cbind_Val_iff)
    show ?thesis
    proof (cases "admit_opcode op s2")
      case (Inl s3)
      then show ?thesis using body own_trans [OF o(2)] admit_own [of s2 op] by simp
    next
      case (Inr s3)
      then have "own_step s s3" using own_trans [OF o(2)] admit_own [of s2 op] by simp
      then show ?thesis using body Inr own_trans a2a_step_own plain_step_own by (simp split: if_splits)
    qed
  qed
qed (use assms in \<open>simp add: sandbox_step_def\<close>)

lemma run_slice_own:
  "run_slice fp env now lim mt start fuel n s = Some (Val (st, s')) \<Longrightarrow> own_step s s'"
proof (induction fuel arbitrary: n s)
  case (Suc fuel)
  obtain c s1 where c: "sandbox_check_cpu s = (c, s1)" by (cases "sandbox_check_cpu s")
  obtain m s2 where m: "sandbox_check_memory s1 = (m, s2)" by (cases "sandbox_check_memory s1")
  have o1: "own_step s s1" "own_step s1 s2" using own_pieces(2) [of s] own_pieces(3) [of s1] by (simp_all add: c m)
  note o = o1(1) own_trans [OF o1]
  note t = own_trans [OF o(1) own_pieces(4)] own_trans [OF o(2) own_pieces(4)]
  show ?case
  proof (cases "\<not> c \<and> \<not> m \<and> \<not> (0 < lim \<and> lim \<le> d_used_cpu_ticks (ag_desc s) - start)")
    case False
    then show ?thesis using Suc.prems c m t by (auto split: if_splits)
  next
    case True
    then obtain st3 s3 where s3: "sandbox_step fp (env n) now s2 = Val (st3, s3)"
      using Suc.prems c m by (auto split: cres.splits)
    note o3 = own_trans [OF o(2) sandbox_own [OF s3]]
    have "s' = s3 \<or> s' = set_agent_state AGENT_IDLE s3 \<or> run_slice fp env now lim mt start fuel (Suc n) s3 = Some (Val (st, s'))"
      using Suc.prems True c m s3 by (auto split: if_splits)
    then show ?thesis using Suc.IH own_trans [OF o3] o3 own_pieces(1) by blast
  qed
qed simp

lemma run_cases:
  assumes "flux_agent_run fp env fuel i mt r = Some (Val (st, r'))"
  shows "r' = r \<or> (\<exists>j s. agent_slot_by_id r i = Some j \<and> own_step (r_agents r j) s \<and> r' = upd_slot j (\<lambda>_. s) r)"
proof (rule disjCI)
  assume ne: "\<not> (\<exists>j s. agent_slot_by_id r i = Some j \<and> own_step (r_agents r j) s \<and> r' = upd_slot j (\<lambda>_. s) r)"
  show "r' = r"
  proof (rule ccontr)
    assume d: "r' \<noteq> r"
    obtain j where j: "agent_slot_by_id r i = Some j"
      using assms d by (auto simp: flux_agent_run_def split: if_splits option.splits)
    let ?tl = "if 0 < mt then ucast mt else d_max_cpu_ticks (ag_desc (r_agents r j))"
    let ?s0 = "enter_run (agent_now r) (r_agents r j)"
    obtain s1 where s1: "run_slice fp env (agent_now r) ?tl mt (d_used_cpu_ticks (ag_desc (r_agents r j))) fuel 0 ?s0
        = Some (Val (st, s1))" "r' = upd_slot j (\<lambda>_. leave_run st s1) r"
      using assms d j by (auto simp: flux_agent_run_def Let_def cmap_Val_iff split: if_splits)
    have "own_step (r_agents r j) (leave_run st s1)"
      using run_slice_own [OF s1(1)] own_trans own_pieces(7,8) by blast
    then show False using ne j s1(2) by blast
  qed
qed

lemma step_cases:
  assumes "flux_agent_step fp ca i r = Val (st, r')"
  shows "r' = r \<or> (\<exists>j s. agent_slot_by_id r i = Some j \<and> own_step (r_agents r j) s \<and> r' = upd_slot j (\<lambda>_. s) r)"
proof (rule disjCI)
  assume ne: "\<not> (\<exists>j s. agent_slot_by_id r i = Some j \<and> own_step (r_agents r j) s \<and> r' = upd_slot j (\<lambda>_. s) r)"
  show "r' = r"
  proof (rule ccontr)
    assume d: "r' \<noteq> r"
    obtain j where j: "agent_slot_by_id r i = Some j"
      using assms d by (auto simp: flux_agent_step_def split: if_splits option.splits)
    define s1 where "s1 = (if vm_state (ag_vm (r_agents r j)) = VM_IDLE
      then (r_agents r j)\<lparr>ag_vm := (ag_vm (r_agents r j))\<lparr>vm_state := VM_RUNNING\<rparr>\<rparr> else r_agents r j)"
    define s2 where "s2 = s1\<lparr>ag_desc := (ag_desc s1)\<lparr>d_last_active := agent_now r\<rparr>\<rparr>"
    obtain s3 where s3: "sandbox_step fp ca (agent_now r) s2 = Val (st, s3)" "r' = upd_slot j (\<lambda>_. s3) r"
      using assms d j by (auto simp: flux_agent_step_def Let_def cmap_Val_iff s1_def s2_def split: if_splits)
    have "own_step (r_agents r j) s2" by (simp add: s1_def s2_def own_step_def)
    then have "own_step (r_agents r j) s3" using sandbox_own [OF s3(1)] own_trans by blast
    then show False using ne j s3(2) by blast
  qed
qed

lemma run_step: "flux_agent_run fp env fuel i mt r = Some (Val (st, r')) \<Longrightarrow> mail_step r r'"
  using run_cases own_mail_step mail_step_refl by metis

lemma agent_step_step: "flux_agent_step fp ca i r = Val (st, r') \<Longrightarrow> mail_step r r'"
  using step_cases own_mail_step mail_step_refl by metis


lemma schedule_round_step:
  "schedule_round fp env fuel is found r = Some (Val (b, r')) \<Longrightarrow> mail_step r r'"
proof (induction "is" arbitrary: found r)
  case (Cons i "is")
  let ?s = "r_agents r ((r_schedule_cursor r + i) mod 64)"
  show ?case
  proof (cases "agent_ready ?s")
    case False
    then show ?thesis using Cons by (simp add: Let_def)
  next
    case True
    then obtain st r1 where run: "flux_agent_run fp (env i) fuel (d_agent_id (ag_desc ?s)) (time_slice r) r = Some (Val (st, r1))"
      and rest: "schedule_round fp env fuel is True r1 = Some (Val (b, r'))"
      using Cons.prems by (auto simp: Let_def rbind_def split: option.splits cres.splits)
    show ?thesis by (rule mail_step_trans [OF run_step [OF run] Cons.IH [OF rest]])
  qed
qed simp

lemma cursor_step: "mail_step r (r\<lparr>r_schedule_cursor := n\<rparr>)" "mail_step r (r\<lparr>r_tick_counter := t\<rparr>)"
  by (intro mail_stepI; simp add: same_mail_def)+

lemma schedule_rounds_step:
  "schedule_rounds fp env fuel n r = Some (Val r') \<Longrightarrow> mail_step r r'"
proof (induction n arbitrary: r)
  case (Suc n)
  obtain b r1 where a: "schedule_round fp (env n) fuel [0..<64] False r = Some (Val (b, r1))"
    using Suc.prems by (auto simp: rbind_def split: option.splits cres.splits)
  define r2 where "r2 = r1\<lparr>r_schedule_cursor := (r_schedule_cursor r1 + 1) mod 64\<rparr>"
  have s: "mail_step r r2" unfolding r2_def by (rule mail_step_trans [OF schedule_round_step [OF a] cursor_step(1)])
  have "r' = r2 \<or> schedule_rounds fp env fuel n r2 = Some (Val r')"
    using Suc.prems a by (auto simp: rbind_def Let_def r2_def split: if_splits)
  then show ?case using s Suc.IH mail_step_trans by blast
qed simp

lemma schedule_step:
  "flux_agent_schedule fp env fuel r = Some (Val (st, r')) \<Longrightarrow> mail_step r r'"
proof -
  assume a: "flux_agent_schedule fp env fuel r = Some (Val (st, r'))"
  then have "r' = r \<or> (\<exists>r1. schedule_rounds fp env fuel 128 r = Some (Val r1) \<and> r' = r1\<lparr>r_tick_counter := r_tick_counter r1 + 1\<rparr>)"
    by (auto simp: flux_agent_schedule_def rbind_def split: if_splits option.splits cres.splits)
  then show ?thesis using schedule_rounds_step mail_step_trans cursor_step(2) mail_step_refl by metis
qed

lemma step_all_step: "step_all fp env is n r = Val (m, r') \<Longrightarrow> mail_step r r'"
proof (induction "is" arbitrary: n r)
  case (Cons i "is")
  show ?case
  proof (cases "steppable (r_agents r i)")
    case False
    then show ?thesis using Cons by simp
  next
    case True
    then obtain st r1 where a: "flux_agent_step fp (env i) (d_agent_id (desc_at r i)) r = Val (st, r1)"
      and rest: "step_all fp env is (n + 1) r1 = Val (m, r')"
      using Cons.prems by (auto simp: cbind_Val_iff)
    show ?thesis by (rule mail_step_trans [OF agent_step_step [OF a] Cons.IH [OF rest]])
  qed
qed simp

lemma schedule_step_step:
  "flux_agent_schedule_step fp env r = Val (n, r') \<Longrightarrow> mail_step r r'"
proof -
  assume a: "flux_agent_schedule_step fp env r = Val (n, r')"
  then have "r' = r \<or> (\<exists>m r1. step_all fp env [0..<64] 0 r = Val (m, r1) \<and> r' = r1\<lparr>r_tick_counter := r_tick_counter r1 + 1\<rparr>)"
    by (auto simp: flux_agent_schedule_step_def cmap_Val_iff split: if_splits)
  then show ?thesis using step_all_step mail_step_trans cursor_step(2) mail_step_refl by metis
qed


subsection \<open>Calls and reachable states\<close>

text \<open>
  \<open>allow\<close> restricts the bits that the caller of \<open>flux_agent_spawn\<close> and \<open>flux_agent_grant_cap\<close> hands out;
  \<open>\<lambda>_. True\<close> is no restriction. While one caller waits in \<open>flux_a2a_recv\<close> the others make any number of
  calls between its rounds.
\<close>

inductive rt_step :: "(u64 \<Rightarrow> bool) \<Rightarrow> rt \<Rightarrow> rt \<Rightarrow> bool" for allow where
  step_init: "flux_agent_init config r = (st, r') \<Longrightarrow> rt_step allow r r'"
| step_shutdown: "rt_step allow r (flux_agent_shutdown r)"
| step_spawn: "flux_agent_spawn mem True ca name model caps bytecode len r = (i, r') \<Longrightarrow>
    (\<And>bs. bytecode = Some bs \<Longrightarrow> unat len \<le> length bs) \<Longrightarrow> allow caps \<Longrightarrow> rt_step allow r r'"
| step_terminate: "flux_agent_terminate i r = (st, r') \<Longrightarrow> rt_step allow r r'"
| step_pause: "flux_agent_pause i r = (st, r') \<Longrightarrow> rt_step allow r r'"
| step_resume: "flux_agent_resume i r = (st, r') \<Longrightarrow> rt_step allow r r'"
| step_grant: "flux_agent_grant_cap i cap r = (st, r') \<Longrightarrow> allow cap \<Longrightarrow> rt_step allow r r'"
| step_revoke: "flux_agent_revoke_cap i cap r = (st, r') \<Longrightarrow> rt_step allow r r'"
| step_has: "flux_agent_has_cap i cap r = (b, r') \<Longrightarrow> rt_step allow r r'"
| step_transfer: "flux_agent_transfer_cap i k cap r = (st, r') \<Longrightarrow> rt_step allow r r'"
| step_inherit: "flux_agent_inherit_caps i k r = (st, r') \<Longrightarrow> rt_step allow r r'"
| step_publish: "flux_agent_publish_cap i nm dsc r = (st, r') \<Longrightarrow> rt_step allow r r'"
| step_unpublish: "flux_agent_unpublish_cap i nm r = (st, r') \<Longrightarrow> rt_step allow r r'"
| step_subscribe: "flux_agent_subscribe i tp r = (st, r') \<Longrightarrow> rt_step allow r r'"
| step_unsubscribe: "flux_agent_unsubscribe i tp r = (st, r') \<Longrightarrow> rt_step allow r r'"
| step_send: "agent_a2a_send ca sender target ty payload len r = (st, mid, r') \<Longrightarrow> fresh_calloc ca \<Longrightarrow> rt_step allow r r'"
| step_recv: "agent_a2a_recv others fuel i buf timeout r = (Some res, r') \<Longrightarrow>
    (\<And>n x. (rt_step allow)\<^sup>*\<^sup>* x (others n x)) \<Longrightarrow> rt_step allow r r'"
| step_broadcast: "agent_a2a_broadcast ca sender tp payload len r = (st, r') \<Longrightarrow> fresh_calloc ca \<Longrightarrow> rt_step allow r r'"
| step_reply: "agent_a2a_reply ca original payload len r = (st, r') \<Longrightarrow> fresh_calloc ca \<Longrightarrow> rt_step allow r r'"
| step_delegate: "agent_a2a_delegate ca src dst task len r = (st, mid, r') \<Longrightarrow> fresh_calloc ca \<Longrightarrow> rt_step allow r r'"
| step_result: "agent_a2a_delegate_result ca worker mid res len r = (st, r') \<Longrightarrow> fresh_calloc ca \<Longrightarrow> rt_step allow r r'"
| step_run: "flux_agent_run fp env fuel i mt r = Some (Val (st, r')) \<Longrightarrow> rt_step allow r r'"
| step_step: "flux_agent_step fp vca i r = Val (st, r') \<Longrightarrow> rt_step allow r r'"
| step_schedule: "flux_agent_schedule fp envs fuel r = Some (Val (st, r')) \<Longrightarrow> rt_step allow r r'"
| step_schedule_step: "flux_agent_schedule_step fp env r = Val (n, r') \<Longrightarrow> rt_step allow r r'"

inductive rt_reach :: "(u64 \<Rightarrow> bool) \<Rightarrow> rt \<Rightarrow> bool" for allow where
  reach_boot: "rt_reach allow boot_rt"
| reach_step: "rt_reach allow r \<Longrightarrow> rt_step allow r r' \<Longrightarrow> rt_reach allow r'"

text \<open>A receive with other callers in between, for any invariant that the message operations keep.\<close>

lemma recv_rounds_inv:
  assumes others: "\<And>n r. I r \<Longrightarrow> I (others n r)" and calm: "\<And>r r'. I r \<Longrightarrow> mail_step r r' \<Longrightarrow> I r'"
    and mail: "\<And>r. I r \<Longrightarrow> mail_ok r"
    and "I r" "recv_rounds others i start dl fuel n r = (res, r')"
  shows "I r'"
  using assms(4,5)
proof (induction fuel arbitrary: n r)
  case (Suc fuel)
  let ?r = "others n r"
  have ok: "I ?r" by (rule others [OF Suc.prems(1)])
  show ?case
  proof (cases "agent_slot_by_id ?r i")
    case None
    then show ?thesis using Suc.prems(2) ok by simp
  next
    case (Some j)
    obtain x r1 where t: "take_message j ?r = (x, r1)" by (cases "take_message j ?r")
    have s1: "I r1" by (rule calm [OF ok take_step [OF mail [OF ok] Some t]])
    have "r' = r1 \<or> recv_rounds others i start dl fuel (Suc n) (mark_waiting i r1) = (res, r')"
      using Suc.prems(2) Some t by (auto simp: Let_def split: option.splits if_splits)
    then show ?thesis using s1 Suc.IH [OF calm [OF s1 waiting_step]] by blast
  qed
qed simp

lemma recv_inv:
  assumes "\<And>n r. I r \<Longrightarrow> I (others n r)" "\<And>r r'. I r \<Longrightarrow> mail_step r r' \<Longrightarrow> I r'" "\<And>r. I r \<Longrightarrow> mail_ok r"
    and "I r" "agent_a2a_recv others fuel i buf timeout r = (res, r')"
  shows "I r'"
proof (cases "agent_slot_by_id r i")
  case None
  then show ?thesis using assms(4,5) by (auto simp: agent_a2a_recv_def split: if_splits)
next
  case (Some j)
  obtain x r1 where t: "take_message j r = (x, r1)" by (cases "take_message j r")
  have s1: "I r1" by (rule assms(2) [OF assms(4) take_step [OF assms(3) [OF assms(4)] Some t]])
  have "r' = r \<or> r' = r1 \<or> recv_rounds others i (agent_now r1) (ucast timeout) fuel 0 r1 = (res, r')"
    using assms(5) Some t by (auto simp: agent_a2a_recv_def split: if_splits option.splits)
  then show ?thesis
  proof (elim disjE)
    assume "recv_rounds others i (agent_now r1) (ucast timeout) fuel 0 r1 = (res, r')"
    then show ?thesis by (rule recv_rounds_inv [where I = I, rotated -1]) (use assms(1-3) s1 in blast)+
  qed (use assms(4) s1 in simp_all)
qed

lemma rt_ok_mail: "rt_ok r \<Longrightarrow> mail_ok r"
  by (simp add: rt_ok_def)

lemma init_step_ok: "rt_ok r \<Longrightarrow> flux_agent_init config r = (st, r') \<Longrightarrow> rt_ok r'"
  using init_ok [of r config] by simp

lemma capability_steps_ok:
  "rt_ok r \<Longrightarrow> flux_agent_grant_cap i cap r = (st, r') \<Longrightarrow> rt_ok r'"
  "rt_ok r \<Longrightarrow> flux_agent_revoke_cap i cap r = (st, r') \<Longrightarrow> rt_ok r'"
  "rt_ok r \<Longrightarrow> flux_agent_has_cap i cap r = (b, r') \<Longrightarrow> rt_ok r'"
  "rt_ok r \<Longrightarrow> flux_agent_transfer_cap i k cap r = (st, r') \<Longrightarrow> rt_ok r'"
  "rt_ok r \<Longrightarrow> flux_agent_inherit_caps i k r = (st, r') \<Longrightarrow> rt_ok r'"
  using capability_ops_ok [of r] by (metis snd_conv)+

lemma mail_steps_ok:
  assumes "rt_ok r"
  shows "fresh_calloc ca \<Longrightarrow> agent_a2a_send ca sender target ty payload len r = (st, mid, r') \<Longrightarrow> rt_ok r'"
    "fresh_calloc ca \<Longrightarrow> agent_a2a_broadcast ca sender tp payload len r = (st, r') \<Longrightarrow> rt_ok r'"
    "fresh_calloc ca \<Longrightarrow> agent_a2a_reply ca original payload len r = (st, r') \<Longrightarrow> rt_ok r'"
    "fresh_calloc ca \<Longrightarrow> agent_a2a_delegate ca src dst task len r = (st, mid, r') \<Longrightarrow> rt_ok r'"
    "fresh_calloc ca \<Longrightarrow> agent_a2a_delegate_result ca worker id2 res len r = (st, r') \<Longrightarrow> rt_ok r'"
  by (rule mail_step_ok [OF send_step [OF _ rt_ok_mail [OF assms]] assms]
      mail_step_ok [OF broadcast_step [OF _ rt_ok_mail [OF assms]] assms]
      mail_step_ok [OF reply_step [OF _ rt_ok_mail [OF assms]] assms]
      mail_step_ok [OF delegate_step [OF _ rt_ok_mail [OF assms]] assms]
      mail_step_ok [OF result_step [OF _ rt_ok_mail [OF assms]] assms]; assumption)+

lemmas op_ok = init_step_ok agent_spawn_ok terminate_ok capability_steps_ok publish_ok unpublish_ok subscribe_ok
  unsubscribe_ok mail_steps_ok pause_step [THEN mail_step_ok] resume_step [THEN mail_step_ok]
  run_step [THEN mail_step_ok] agent_step_step [THEN mail_step_ok] schedule_step [THEN mail_step_ok]
  schedule_step_step [THEN mail_step_ok]

lemma rt_step_ok: "rt_step allow r r' \<Longrightarrow> rt_ok r \<Longrightarrow> rt_ok r'"
proof (induction rule: rt_step.induct)
  case (step_recv others fuel i buf timeout r res r')
  have o: "rt_ok (others n x)" if "rt_ok x" for n x
    using step_recv.IH [of x n] that by (induction rule: rtranclp_induct) auto
  show ?case
    by (rule recv_inv [where I = rt_ok, OF o mail_step_ok rt_ok_mail step_recv.prems step_recv.hyps(1)])
qed (blast intro: op_ok shutdown_ok [THEN conjunct1])+


lemma rt_reach_inv: "rt_reach allow r \<Longrightarrow> rt_ok r"
  by (induction rule: rt_reach.induct) (auto intro: boot_rt_ok rt_step_ok)

end
