(* ===== verification/FluxAuthority.thy ===== *)
theory FluxAuthority
  imports FluxAgentReach
begin

section \<open>Where capabilities come from\<close>

text \<open>
  \<open>holds r b\<close> says that some live agent has the capability bit \<open>b\<close>. Except for the bits handed out by
  the callers of \<open>flux_agent_spawn\<close> and \<open>flux_agent_grant_cap\<close>, no operation makes a bit appear that
  nobody had: transfers and inheritance only move or copy what an agent holds.
\<close>

definition holds :: "rt \<Rightarrow> nat \<Rightarrow> bool" where
  "holds r b \<longleftrightarrow> (\<exists>i < 64. ag_active (r_agents r i) \<and> bit (d_capabilities (desc_at r i)) b)"

lemma holds_mono:
  assumes "\<And>i. i < 64 \<Longrightarrow> ag_active (r_agents r' i) \<Longrightarrow>
      ag_active (r_agents r i) \<and> (bit (d_capabilities (desc_at r' i)) b \<longrightarrow> bit (d_capabilities (desc_at r i)) b)"
  shows "holds r' b \<Longrightarrow> holds r b"
  using assms by (auto simp: holds_def)

lemma calm_holds: "calm_rt r r' \<Longrightarrow> holds r' b = holds r b"
  by (simp add: holds_def calm_rt_def quiet_def desc_at_def)

lemma mail_step_holds: "mail_step r r' \<Longrightarrow> holds r' b = holds r b"
  by (simp add: mail_step_def calm_holds)

lemma same_authority:
  assumes "\<And>i. ag_active (r_agents r' i) = ag_active (r_agents r i)
      \<and> d_capabilities (desc_at r' i) = d_capabilities (desc_at r i)"
  shows "holds r' b = holds r b"
  using assms by (simp add: holds_def)

lemma audit_holds [simp]: "holds (audit_log_record i t c a r) b = holds r b"
  by (rule mail_step_holds) (rule audit_step)

lemma slot_id: "agent_slot_by_id r k = Some s \<longleftrightarrow> s < 64 \<and> k = of_nat (s + 4) \<and> ag_active (r_agents r s)"
proof
  assume a: "agent_slot_by_id r k = Some s"
  then have "4 \<le> k" "s = unat k - 4" by (simp_all add: slot_by_id_Some)
  then have "unat k = s + 4" by (simp add: word_le_nat_alt)
  then have "k = of_nat (s + 4)"
    using slot_by_id_less [OF a] by (simp only: word_unat_eq_iff unat_of_nat) (simp add: take_bit_nat_eq_self)
  then show "s < 64 \<and> k = of_nat (s + 4) \<and> ag_active (r_agents r s)"
    using slot_by_id_less [OF a] slot_by_id_active [OF a] by simp
next
  assume "s < 64 \<and> k = of_nat (s + 4) \<and> ag_active (r_agents r s)"
  then show "agent_slot_by_id r k = Some s" by (simp add: agent_slot_by_id_def Let_def del: of_nat_add)
qed

subsection \<open>Life and death\<close>

lemma agents_frame [simp]:
  "r_agents (agent_update_peak r) = r_agents r" "r_agents (snd (agent_alloc_id r)) = r_agents r"
  "r_agents (agent_free_id i r) = r_agents r"
  by (simp_all add: agent_update_peak_def agent_alloc_id_def agent_free_id_def Let_def split: option.split)

lemma spawn_agents:
  assumes "flux_agent_spawn mem stk ca name model caps bytecode len r = (i, r')"
  shows "\<exists>j. (\<forall>k. k \<noteq> j \<longrightarrow> r_agents r' k = r_agents r k)
    \<and> (r_agents r' j = r_agents r j \<or> \<not> ag_active (r_agents r' j) \<or> d_capabilities (desc_at r' j) = caps)"
proof -
  obtain n r1 where a: "agent_alloc_id r = (n, r1)" by (cases "agent_alloc_id r")
  then have r1: "r_agents r1 = r_agents r" using agents_frame(2) [of r] by simp
  show ?thesis
    by (rule exI [of _ "nat (agent_index_from_id n)"])
      (use assms a r1 in \<open>auto simp: flux_agent_spawn_def Let_def desc_at_def zero_slot_def split: if_splits\<close>)
qed

lemma spawn_holds:
  assumes "flux_agent_spawn mem stk ca name model caps bytecode len r = (i, r')" "holds r' b"
  shows "holds r b \<or> bit caps b"
proof -
  obtain j where j: "\<And>k. k \<noteq> j \<Longrightarrow> r_agents r' k = r_agents r k"
    "r_agents r' j = r_agents r j \<or> \<not> ag_active (r_agents r' j) \<or> d_capabilities (desc_at r' j) = caps"
    using spawn_agents [OF assms(1)] by blast
  obtain k where k: "k < 64" "ag_active (r_agents r' k)" "bit (d_capabilities (desc_at r' k)) b"
    using assms(2) by (auto simp: holds_def)
  show ?thesis
  proof (cases "k = j")
    case True
    then show ?thesis using j(2) k by (auto simp: holds_def desc_at_def)
  next
    case False
    then have "r_agents r k = r_agents r' k" using j(1) by simp
    then show ?thesis using k by (auto simp: holds_def desc_at_def)
  qed
qed

lemma terminate_holds:
  assumes "rt_ok r" "flux_agent_terminate i r = (st, r')" "holds r' b" shows "holds r b"
proof (cases "st = FLUX_OK")
  case True
  with assms(2) have t: "flux_agent_terminate i r = (FLUX_OK, r')" by simp
  from terminate_cases [OF assms(1) t] obtain j where "\<not> ag_active (r_agents r' j)"
    "\<And>k. k \<noteq> j \<Longrightarrow> r_agents r' k = r_agents r k" by metis
  then show ?thesis using assms(3) by (intro holds_mono [of r' r b]) (unfold desc_at_def, metis+)
next
  case False
  then show ?thesis using terminate_fail [OF assms(2)] assms(3) by simp
qed

lemma shutdown_inactive:
  assumes "rt_ok r" "i < 64" shows "\<not> ag_active (r_agents (flux_agent_shutdown r) i)"
  using shutdown_ok [OF assms(1)] assms(2) by (simp add: rt_ok_def ids_ok_def)

lemma shutdown_holds: "rt_ok r \<Longrightarrow> \<not> holds (flux_agent_shutdown r) b"
  using shutdown_inactive by (auto simp: holds_def)

lemma init_holds: "\<not> holds (snd (flux_agent_init config r)) b"
  by (simp add: flux_agent_init_def Let_def holds_def)

subsection \<open>Grants, transfers, inheritance\<close>

lemma caps_holds:
  assumes "holds (upd_desc j (\<lambda>d. d\<lparr>d_capabilities := c d\<rparr>) r) b"
  shows "holds r b \<or> bit (c (desc_at r j)) b"
  using assms by (auto simp: holds_def desc_at_def split: if_splits)

lemma active_holds: "agent_slot_by_id r i = Some j \<Longrightarrow> bit (d_capabilities (desc_at r j)) b \<Longrightarrow> holds r b"
  unfolding holds_def by (intro exI conjI slot_by_id_less slot_by_id_active)

lemma grant_holds: "flux_agent_grant_cap i cap r = (st, r') \<Longrightarrow> holds r' b \<Longrightarrow> holds r b \<or> bit cap b"
  using active_holds [of r i]
  by (auto simp: flux_agent_grant_cap_def bit_or_iff dest!: caps_holds split: if_splits option.splits)

lemma revoke_holds: "flux_agent_revoke_cap i cap r = (st, r') \<Longrightarrow> holds r' b \<Longrightarrow> holds r b"
  using active_holds [of r i]
  by (auto simp: flux_agent_revoke_cap_def bit_and_iff dest!: caps_holds split: if_splits option.splits)

lemma has_holds: "flux_agent_has_cap i cap r = (v, r') \<Longrightarrow> holds r' b \<Longrightarrow> holds r b"
  by (auto simp: flux_agent_has_cap_def split: if_splits option.splits)

lemma inherit_holds: "flux_agent_inherit_caps i k r = (st, r') \<Longrightarrow> holds r' b \<Longrightarrow> holds r b"
  by (auto simp: flux_agent_inherit_caps_def Let_def dest!: caps_holds dest: active_holds split: if_splits option.splits)

lemma transfer_holds:
  assumes "flux_agent_transfer_cap i k cap r = (st, r')" "holds r' b" shows "holds r b"
proof (cases "r' = r")
  case False
  then obtain x y where x: "agent_slot_by_id r i = Some x" and y: "agent_slot_by_id r k = Some y"
    and c: "d_capabilities (desc_at r x) AND cap = cap"
    and r': "r' = audit_log_record k i cap 2 (audit_log_record i k cap 2
        (upd_desc y (\<lambda>d. d\<lparr>d_capabilities := d_capabilities d OR cap\<rparr>)
          (upd_desc x (\<lambda>d. d\<lparr>d_capabilities := d_capabilities d AND NOT cap\<rparr>) r)))"
    using assms(1) by (auto simp: flux_agent_transfer_cap_def Let_def split: if_splits option.splits)
  let ?r1 = "upd_desc x (\<lambda>d. d\<lparr>d_capabilities := d_capabilities d AND NOT cap\<rparr>) r"
  have "holds ?r1 b \<or> bit (d_capabilities (desc_at ?r1 y)) b \<or> bit cap b"
    using assms(2) r' by (auto simp: bit_or_iff dest!: caps_holds)
  moreover have "bit (d_capabilities (desc_at r x)) b" if "bit cap b"
    using c that by (metis bit_and_iff)
  moreover have "bit (d_capabilities (desc_at ?r1 y)) b \<Longrightarrow> bit (d_capabilities (desc_at r y)) b"
    by (auto simp: desc_at_def bit_and_iff split: if_splits)
  moreover have "holds ?r1 b \<Longrightarrow> holds r b"
    by (drule caps_holds) (auto simp: bit_and_iff intro: active_holds [OF x])
  ultimately show ?thesis using active_holds [OF x] active_holds [OF y] by blast
qed (use assms in simp)


subsection \<open>Nothing else creates authority\<close>

lemma publish_caps: "flux_agent_publish_cap i nm dsc r = (st, r') \<Longrightarrow> holds r' b = holds r b"
  by (rule same_authority)
    (auto simp: flux_agent_publish_cap_def Let_def desc_at_def split: if_splits option.splits)

lemma unpublish_caps: "flux_agent_unpublish_cap i nm r = (st, r') \<Longrightarrow> holds r' b = holds r b"
  by (rule same_authority)
    (auto simp: flux_agent_unpublish_cap_def drop_cap_def Let_def desc_at_def split: if_splits option.splits)

lemma subscribe_caps: "flux_agent_subscribe i tp r = (st, r') \<Longrightarrow> holds r' b = holds r b"
  by (rule same_authority)
    (auto simp: flux_agent_subscribe_def find_or_create_topic_def Let_def desc_at_def split: if_splits option.splits prod.splits)

lemma unsubscribe_caps: "flux_agent_unsubscribe i tp r = (st, r') \<Longrightarrow> holds r' b = holds r b"
  by (rule same_authority)
    (auto simp: flux_agent_unsubscribe_def desc_at_def split: if_splits option.splits)

lemma mail_ops_hold:
  assumes "rt_ok r"
  shows "fresh_calloc ca \<Longrightarrow> agent_a2a_send ca sender target ty payload len r = (st, mid, r') \<Longrightarrow> holds r' b = holds r b"
    "fresh_calloc ca \<Longrightarrow> agent_a2a_broadcast ca sender tp payload len r = (st, r') \<Longrightarrow> holds r' b = holds r b"
    "fresh_calloc ca \<Longrightarrow> agent_a2a_reply ca original payload len r = (st, r') \<Longrightarrow> holds r' b = holds r b"
    "fresh_calloc ca \<Longrightarrow> agent_a2a_delegate ca src dst task len r = (st, mid, r') \<Longrightarrow> holds r' b = holds r b"
    "fresh_calloc ca \<Longrightarrow> agent_a2a_delegate_result ca worker id2 res len r = (st, r') \<Longrightarrow> holds r' b = holds r b"
  by (rule mail_step_holds [OF send_step [OF _ rt_ok_mail [OF assms]]]
      mail_step_holds [OF broadcast_step [OF _ rt_ok_mail [OF assms]]]
      mail_step_holds [OF reply_step [OF _ rt_ok_mail [OF assms]]]
      mail_step_holds [OF delegate_step [OF _ rt_ok_mail [OF assms]]]
      mail_step_holds [OF result_step [OF _ rt_ok_mail [OF assms]]]; assumption)+

lemmas calm_ops_hold = pause_step [THEN mail_step_holds] resume_step [THEN mail_step_holds] run_step [THEN mail_step_holds]
  agent_step_step [THEN mail_step_holds] schedule_step [THEN mail_step_holds] schedule_step_step [THEN mail_step_holds]
  publish_caps unpublish_caps subscribe_caps unsubscribe_caps

lemmas less_authority = revoke_holds has_holds inherit_holds transfer_holds calm_ops_hold [THEN iffD1]

text \<open>No call makes a bit appear unless the caller hands it out.\<close>

lemma step_holds:
  assumes "\<And>c. allow c \<Longrightarrow> \<not> bit c b"
  shows "rt_step allow r r' \<Longrightarrow> rt_ok r \<Longrightarrow> \<not> holds r b \<Longrightarrow> \<not> holds r' b"
proof (induction rule: rt_step.induct)
  case (step_recv others fuel i buf timeout r res r')
  let ?I = "\<lambda>r. rt_ok r \<and> \<not> holds r b"
  have "?I (others n x)" if "?I x" for n x
    using step_recv.IH [of x n] that
    by (induction rule: rtranclp_induct) (auto intro: rt_step_ok)
  moreover have "?I r'" if "?I r" "mail_step r r'" for r r'
    using that mail_step_ok mail_step_holds by blast
  ultimately have "?I r'"
    by (rule recv_inv [where I = ?I, OF _ _ _ _ step_recv.hyps(1)]) (use step_recv.prems in \<open>auto simp: rt_ok_mail\<close>)
  then show ?case by simp
next
  case (step_spawn mem ca name model caps bytecode len r i r')
  then show ?case using spawn_holds assms by blast
next
  case (step_grant i cap r st r')
  then show ?case using grant_holds assms by blast
next
  case (step_init config r st r')
  then show ?case using init_holds [of config r b] by simp
next
  case (step_shutdown r)
  then show ?case using shutdown_holds by blast
qed (erule contrapos_nn, (erule (1) less_authority | erule (2) terminate_holds | erule (3) mail_ops_hold [THEN iffD1]))+

end
