(* ===== verification/FluxAgentRun.thy ===== *)
theory FluxAgentRun
  imports FluxAgentReach FluxRun
begin

section \<open>Runs of an agent end and are charged for\<close>

text \<open>
  Every instruction that completes costs one tick, PROF_START included: the profiling instruction
  resets the cycle counter of the VM, not the cost of the last instruction from which the sandbox
  charges. So the loop of \<open>flux_agent_run\<close> ends, after at most as many turns as the limit allows.
\<close>

subsection \<open>One tick per instruction\<close>

lemma put_bytes_ticks [simp]: "vm_last_op_cycles (put_bytes vm rid bs) = vm_last_op_cycles vm"
  by (simp add: put_bytes_def Let_def set_region_def)

interpretation ticks: vm_frame_all "\<lambda>v. vm_last_op_cycles v = 1"
proof unfold_locales
  fix v :: flux_vm and ca nm sz ro rid
  assume q: "vm_last_op_cycles v = 1"
  then show "vm_last_op_cycles (snd (flux_vm_region_create ca v nm sz ro)) = 1"
    by (simp add: flux_vm_region_create_def Let_def set_region_def split: option.split)
  show "vm_last_op_cycles (snd (flux_vm_region_destroy v rid)) = 1"
    using q by (simp add: flux_vm_region_destroy_def Let_def set_region_def)
qed simp_all

lemma dispatch_ticks:
  assumes "vm_last_op_cycles vm = 1" "vm_dispatch fp ca i a b vm = Val f"
  shows "vm_last_op_cycles (flow_vm f) = 1"
proof (cases "in_opcode i = OP_PROF_START")
  case True
  then show ?thesis using assms by (auto simp: vm_dispatch_def exec_flux_def Let_def)
next
  case False
  then show ?thesis using ticks.dispatch_keeps_all [OF assms(1), of i fp ca a b] assms(2) by simp
qed

lemma step_ticks:
  assumes "flux_vm_step fp ca vm = Val (FLUX_OK, vm')" shows "vm_last_op_cycles vm' = 1"
proof -
  obtain w where "execute_insn fp ca (vm\<lparr>vm_state := VM_RUNNING\<rparr>) w = Val (FLUX_OK, vm')"
    using assms by (auto simp: flux_vm_step_def Let_def cbind_Val_iff split: if_splits)
  then obtain a b vm0 vm1 f where t: "trace_snapshot (count_insn vm0 (in_opcode (decode_insn w))) (in_opcode (decode_insn w)) = Val vm1"
    and f: "vm_dispatch fp ca (decode_insn w) a b (vm1\<lparr>vm_pc := vm_pc vm1 + 4\<rparr>) = Val f"
    and fin: "(FLUX_OK, vm') = finish_step f"
    by (auto simp: execute_insn_def Let_def cbind_Val_iff cmap_Val_iff)
  have "vm_last_op_cycles vm1 = 1"
    using t by (auto simp: trace_snapshot_def Let_def count_insn_def split: if_splits)
  then have "vm_last_op_cycles (flow_vm f) = 1" by (intro dispatch_ticks [OF _ f]) simp
  then show ?thesis using ticks.finish [of f] fin by (metis snd_conv)
qed

lemma checks_ticks [simp]:
  "d_used_cpu_ticks (ag_desc (snd (sandbox_check_cpu s))) = d_used_cpu_ticks (ag_desc s)"
  "d_used_cpu_ticks (ag_desc (snd (sandbox_check_memory s))) = d_used_cpu_ticks (ag_desc s)"
  "d_used_cpu_ticks (ag_desc (set_agent_state st s)) = d_used_cpu_ticks (ag_desc s)"
  "d_used_cpu_ticks (ag_desc (sandbox_account_io s)) = d_used_cpu_ticks (ag_desc s)"
  "d_used_cpu_ticks (ag_desc (add_ticks n s)) = d_used_cpu_ticks (ag_desc s) + n"
  "d_used_cpu_ticks (ag_desc (enter_run now s)) = d_used_cpu_ticks (ag_desc s)"
  "d_used_cpu_ticks (ag_desc (leave_run result s)) = d_used_cpu_ticks (ag_desc s)"
  "d_used_cpu_ticks (ag_desc (sandbox_handle_violation s v)) = d_used_cpu_ticks (ag_desc s)"
  by (simp_all add: sandbox_check_cpu_def sandbox_check_memory_def set_agent_state_def sandbox_account_io_def
      add_ticks_def enter_run_def leave_run_def sandbox_handle_violation_def Let_def)

lemma plain_step_ticks:
  "plain_step fp ca now s = Val (FLUX_OK, s') \<Longrightarrow> d_used_cpu_ticks (ag_desc s') = d_used_cpu_ticks (ag_desc s) + 1"
proof -
  assume a: "plain_step fp ca now s = Val (FLUX_OK, s')"
  then obtain st vm where v: "flux_vm_step fp ca (ag_vm s) = Val (st, vm)" by (auto simp: plain_step_def cmap_Val_iff)
  with a have "st = FLUX_OK" by (cases st) (simp_all add: plain_step_def Let_def)
  then have "vm_last_op_cycles vm = 1" using v step_ticks by blast
  then show ?thesis using a v \<open>st = FLUX_OK\<close> by (auto simp: plain_step_def Let_def)
qed

lemma sandbox_step_ticks:
  assumes "sandbox_step fp ca now s = Val (FLUX_OK, s')"
  shows "d_used_cpu_ticks (ag_desc s') = d_used_cpu_ticks (ag_desc s) + 1"
proof -
  obtain c s0 where c: "sandbox_check_cpu s = (c, s0)" by (cases "sandbox_check_cpu s")
  obtain m s1 where m: "sandbox_check_memory s0 = (m, s1)" by (cases "sandbox_check_memory s0")
  have u: "d_used_cpu_ticks (ag_desc s1) = d_used_cpu_ticks (ag_desc s)"
    using checks_ticks(1) [of s] checks_ticks(2) [of s0] c m by simp
  have g: "ag_vm_initialized s" "\<not> c" "\<not> m"
    "vm_state (ag_vm s1) = VM_IDLE \<or> vm_state (ag_vm s1) = VM_RUNNING"
    using assms c m by (auto simp: sandbox_step_def split: if_splits)
  have "\<exists>s2. d_used_cpu_ticks (ag_desc s2) = d_used_cpu_ticks (ag_desc s1) \<and> plain_step fp ca now s2 = Val (FLUX_OK, s')"
  proof (cases "vm_pc (ag_vm s1) < vm_bytecode_len (ag_vm s1)")
    case False
    then show ?thesis using assms c m g by (auto simp: sandbox_step_def split: if_splits)
  next
    case True
    then obtain op where b: "(case admit_opcode op s1 of Inl s3 \<Rightarrow> Val (FLUX_ERR_DENIED, s3)
        | Inr s3 \<Rightarrow> if is_a2a_opcode op then a2a_step fp ca s3 else plain_step fp ca now s3) = Val (FLUX_OK, s')"
      using assms c m g by (auto simp: sandbox_step_def cbind_Val_iff split: if_splits)
    then obtain s2 where s2: "admit_opcode op s1 = Inr s2" by (cases "admit_opcode op s1") simp_all
    have "a2a_step fp ca s2 \<noteq> Val (FLUX_OK, s')"
      by (auto simp: a2a_step_def cmap_Val_iff Let_def split: if_splits)
    then have "plain_step fp ca now s2 = Val (FLUX_OK, s')" using b s2 by (simp split: if_splits)
    moreover have "d_used_cpu_ticks (ag_desc s2) = d_used_cpu_ticks (ag_desc s1)"
      using s2 by (auto simp: admit_opcode_def split: if_splits)
    ultimately show ?thesis by blast
  qed
  then show ?thesis using plain_step_ticks u by fastforce
qed

subsection \<open>The loop\<close>

text \<open>After \<open>n\<close> turns \<open>n\<close> ticks have been charged; with a limit of ticks the turns left are bounded.\<close>

lemma run_slice_total:
  assumes "d_used_cpu_ticks (ag_desc s) - start = of_nat n"
    and "lim = (if 0 < mt then ucast mt else dflt)"
    and "if mt = 0 then n < 10000000 \<and> 10000000 - n \<le> fuel else n \<le> unat mt \<and> unat mt - n < fuel"
  shows "run_slice fp env now lim mt start fuel n s \<noteq> None"
  using assms
proof (induction fuel arbitrary: n s)
  case 0
  then show ?case by (auto split: if_splits)
next
  case (Suc fuel)
  obtain c s1 where c: "sandbox_check_cpu s = (c, s1)" by (cases "sandbox_check_cpu s")
  obtain m s2 where m: "sandbox_check_memory s1 = (m, s2)" by (cases "sandbox_check_memory s1")
  have u: "d_used_cpu_ticks (ag_desc s2) = d_used_cpu_ticks (ag_desc s)"
    using checks_ticks(1) [of s] checks_ticks(2) [of s1] c m by simp
  show ?case
  proof (cases "(0 < lim \<and> lim \<le> d_used_cpu_ticks (ag_desc s) - start) \<or> c \<or> m")
    case True
    then show ?thesis using c m by auto
  next
    case False
    show ?thesis
    proof (cases "sandbox_step fp (env n) now s2")
      case (UB x)
      then show ?thesis using False c m by simp
    next
      case (Val v)
      obtain st s3 where v: "sandbox_step fp (env n) now s2 = Val (st, s3)" using Val by (cases v) simp
      show ?thesis
      proof (cases "st = FLUX_OK \<and> \<not> (10000000 \<le> Suc n \<and> mt = 0)")
        case False': False
        then show ?thesis using False c m v by (auto simp: Let_def)
      next
        case go: True
        have t: "d_used_cpu_ticks (ag_desc s3) - start = of_nat (Suc n)"
          using sandbox_step_ticks [of fp "env n" now s2 s3] v go u Suc.prems(1) by (simp add: algebra_simps)
        have "if mt = 0 then Suc n < 10000000 \<and> 10000000 - Suc n \<le> fuel else Suc n \<le> unat mt \<and> unat mt - Suc n < fuel"
        proof (cases "mt = 0")
          case True
          then show ?thesis using Suc.prems(3) go by auto
        next
          case mt: False
          have b: "unat mt < 2 ^ 32" using unsigned_less [of mt, where ?'a = nat] by simp
          have uc: "unat (ucast mt :: u64) = unat mt" by (rule unat_ucast_32_64)
          then have "(ucast mt :: u64) \<noteq> 0" using mt by (metis unat_0 unat_eq_zero)
          then have "lim = ucast mt" "0 < lim" using mt Suc.prems(2) by (simp_all add: word_greater_zero_iff)
          then have "\<not> ucast mt \<le> (of_nat n :: u64)" using False Suc.prems(1) by simp
          moreover have "unat (of_nat n :: u64) = n"
            using Suc.prems(3) mt b by (simp only: unat_of_nat) (simp add: take_bit_nat_eq_self)
          ultimately have "n < unat mt" using uc by (simp add: word_le_nat_alt)
          then show ?thesis using Suc.prems(3) mt by auto
        qed
        from Suc.IH [OF t Suc.prems(2) this] show ?thesis using False c m v go by (simp add: Let_def)
      qed
    qed
  qed
qed

lemma agent_run_total:
  assumes "unat (if max_ticks = 0 then 9999999 else max_ticks) < fuel"
  shows "flux_agent_run fp env fuel i max_ticks r \<noteq> None"
proof -
  have "run_slice fp env (agent_now r) (if 0 < max_ticks then ucast max_ticks else d_max_cpu_ticks (ag_desc s)) max_ticks
      (d_used_cpu_ticks (ag_desc s)) fuel 0 (enter_run (agent_now r) s) \<noteq> None" for s
    by (rule run_slice_total [where dflt = "d_max_cpu_ticks (ag_desc s)"]) (use assms in \<open>auto split: if_splits\<close>)
  then show ?thesis by (auto simp: flux_agent_run_def Let_def split: option.split)
qed

end
