(* ===== verification/FluxAgentProps.thy ===== *)
theory FluxAgentProps
  imports FluxAuthority FluxAgentRun
begin

section \<open>Properties of the agent runtime\<close>

text \<open>
  The claims about agents: their table and identifiers, the ownership of messages, mailboxes,
  authority, sandboxed runs. The examples start from a runtime with two agents and from it run the
  operations themselves.
\<close>

subsection \<open>An example\<close>

definition started :: rt where
  "started = snd (flux_agent_init (Some (s_default_config\<lparr>c_default_memory := 16\<rparr>)) boot_rt)"

text \<open>Agent 5, with the bits COMMUNICATE and SUPERVISOR, and agent 6 with COMMUNICATE.\<close>

definition one_agent :: rt where
  "one_agent = snd (flux_agent_spawn True True (\<lambda>n. Some 0x1000) (Some ''a'') None 0x402 None 0 started)"

definition two_agents :: rt where
  "two_agents = snd (flux_agent_spawn True True (\<lambda>n. Some 0x1000) (Some ''b'') None 2 None 0 one_agent)"

definition no_calloc :: msg_calloc where
  "no_calloc = (\<lambda>_. None)"

definition one_message :: rt where
  "one_message = snd (snd (agent_a2a_send no_calloc 5 6 A2A_TELL (Some [104, 105]) 2 two_agents))"

lemma fresh_no_calloc [simp]: "fresh_calloc no_calloc"
  by (simp add: fresh_calloc_def no_calloc_def)

lemma started_reach: "allow 0x402 \<Longrightarrow> allow 2 \<Longrightarrow> rt_reach allow two_agents"
proof -
  assume a: "allow 0x402" "allow 2"
  obtain st where i: "flux_agent_init (Some (s_default_config\<lparr>c_default_memory := 16\<rparr>)) boot_rt = (st, started)"
    by (cases "flux_agent_init (Some (s_default_config\<lparr>c_default_memory := 16\<rparr>)) boot_rt") (simp add: started_def)
  obtain n where s: "flux_agent_spawn True True (\<lambda>n. Some 0x1000) (Some ''a'') None 0x402 None 0 started = (n, one_agent)"
    by (cases "flux_agent_spawn True True (\<lambda>n. Some 0x1000) (Some ''a'') None 0x402 None 0 started") (simp add: one_agent_def)
  obtain m where t: "flux_agent_spawn True True (\<lambda>n. Some 0x1000) (Some ''b'') None 2 None 0 one_agent = (m, two_agents)"
    by (cases "flux_agent_spawn True True (\<lambda>n. Some 0x1000) (Some ''b'') None 2 None 0 one_agent") (simp add: two_agents_def)
  have "rt_reach allow started" by (rule reach_step [OF reach_boot step_init [OF i]])
  moreover have "rt_step allow started one_agent" by (rule step_spawn [OF s]) (use a in simp_all)
  moreover have "rt_step allow one_agent two_agents" by (rule step_spawn [OF t]) (use a in simp_all)
  ultimately show ?thesis using reach_step by blast
qed

lemma two_ids: "agent_slot_by_id two_agents 5 = Some 1 \<and> agent_slot_by_id two_agents 6 = Some 2"
  by code_simp

lemma two_facts:
  "send_refusal two_agents 5 6 2 = None" "fst (msg_pool_alloc no_calloc two_agents) = Some (Pooled 0)"
  "ag_inbox_count (r_agents two_agents 2) = 0" "r_next_msg_id two_agents = 1" "r_tick_counter two_agents = 0"
  by code_simp+

lemma two_ok: "rt_ok two_agents"
  by (rule rt_reach_inv [OF started_reach [of "\<lambda>_. True"]]) simp_all

lemma one_message_step:
  "agent_a2a_send no_calloc 5 6 A2A_TELL (Some [104, 105]) 2 two_agents = (FLUX_OK, Some 1, one_message)"
proof -
  obtain st mid where s: "agent_a2a_send no_calloc 5 6 A2A_TELL (Some [104, 105]) 2 two_agents = (st, mid, one_message)"
    by (cases "agent_a2a_send no_calloc 5 6 A2A_TELL (Some [104, 105]) 2 two_agents") (simp add: one_message_def)
  have "st = FLUX_OK \<and> mid = Some 1"
    using send_cases [OF s rt_ok_mail [OF two_ok] fresh_no_calloc] two_facts two_ids
    by (auto simp: sent_msg_def split: if_splits)
  then show ?thesis using s by simp
qed

lemma one_message_reach: "allow 0x402 \<Longrightarrow> allow 2 \<Longrightarrow> rt_reach allow one_message"
  by (rule reach_step [OF started_reach step_send [OF one_message_step]]) simp_all


subsection \<open>The invariant\<close>

text \<open>C8. Who owns the messages: in every state that any sequence of calls of the agent interface
  reaches, however many agents come and go, the messages allocated from the pool and from the heap are,
  each exactly once, those that the inboxes point to. No message is lost, none is in two inboxes, and no
  inbox points to a message that has been freed; the inboxes are well-formed rings without holes.\<close>

theorem message_ownership:
  assumes "rt_reach (\<lambda>_. True) r"
  shows "(\<Sum>i < 64. mset (inbox_refs (r_agents r i)))
      = mset_set (Pooled ` {i. i < 512 \<and> bitmap_test (r_pool_allocated r) i} \<union> Heaped ` dom (r_heap_messages r))
    \<and> (\<forall>i < 64. inbox_ok (r_agents r i))"
  using rt_reach_inv [OF assms] by (simp add: rt_ok_def mail_ok_def owes_def live_refs_def held_def boxes_ok_def)

theorem message_ownership_witness:
  "(\<Sum>i < 64. mset (inbox_refs (r_agents one_message i)))
      = mset_set (Pooled ` {i. i < 512 \<and> bitmap_test (r_pool_allocated one_message) i} \<union> Heaped ` dom (r_heap_messages one_message))"
  using message_ownership [OF one_message_reach] by simp



subsection \<open>Authority\<close>

text \<open>C9. Confinement of authority: start from any reachable state in which no live agent has the
  capability bit \<open>b\<close>, and let callers do whatever they like, except handing out \<open>b\<close> themselves through
  \<open>flux_agent_spawn\<close> or \<open>flux_agent_grant_cap\<close>. Then no live agent ever has \<open>b\<close>: transferring, inheriting,
  messaging, running code and restarting the runtime create no authority.\<close>

theorem authority_confined:
  assumes "rt_reach (\<lambda>_. True) r0" "\<not> holds r0 b" "\<And>c. allow c \<Longrightarrow> \<not> bit c b" "(rt_step allow)\<^sup>*\<^sup>* r0 r"
  shows "\<forall>i < 64. ag_active (r_agents r i) \<longrightarrow> \<not> bit (d_capabilities (desc_at r i)) b"
proof -
  from assms(4) have "rt_ok r \<and> \<not> holds r b"
  proof (induction rule: rtranclp_induct)
    case base
    then show ?case using assms(2) rt_reach_inv [OF assms(1)] by simp
  next
    case (step x y)
    then show ?case using rt_step_ok step_holds [where allow = allow and b = b, OF assms(3)] by blast
  qed
  then show ?thesis by (auto simp: holds_def)
qed

theorem authority_confined_witness:
  "\<not> holds boot_rt 3 \<and> (rt_step (\<lambda>c. \<not> bit c 3))\<^sup>*\<^sup>* boot_rt two_agents
   \<and> ag_active (r_agents two_agents 1) \<and> \<not> bit (d_capabilities (desc_at two_agents 1)) 3"
proof -
  have "ag_active (r_agents two_agents 1)" by code_simp
  moreover have "\<not> holds boot_rt 3" by (simp add: holds_def boot_rt_def zero_slot_def)
  moreover have "(rt_step (\<lambda>c. \<not> bit c 3))\<^sup>*\<^sup>* boot_rt r" if "rt_reach (\<lambda>c. \<not> bit c 3) r" for r
    using that by (induction rule: rt_reach.induct) auto
  moreover have "\<not> bit (0x402 :: u64) 3" "\<not> bit (2 :: u64) 3" by code_simp+
  ultimately show ?thesis
    using authority_confined [of boot_rt 3 "\<lambda>c. \<not> bit c 3" two_agents, rule_format, of 1] started_reach [of "\<lambda>c. \<not> bit c 3"] reach_boot
    by fastforce
qed

subsection \<open>Sandboxed runs\<close>

text \<open>C11. A run of an agent always ends, whatever its program does: with a limit of \<open>max_ticks\<close>, one turn
  of the loop more than the limit is enough, without one the watchdog stops it after ten million turns.
  Unlike the limit of \<open>flux_vm_run\<close>, PROF_START does not defeat this one.\<close>

theorem agent_run_terminates:
  assumes "unat (if max_ticks = 0 then 9999999 else max_ticks) < fuel"
  shows "\<exists>res. flux_agent_run fp env fuel i max_ticks r = Some res"
  using agent_run_total [OF assms] by auto

theorem agent_run_terminates_witness:
  "\<exists>res. flux_agent_run word_fpu (\<lambda>_ _. None) 4 5 3 two_agents = Some res"
  by (rule agent_run_terminates) simp


text \<open>The newest entry of the audit log of a slot.\<close>

definition audited :: "agent_slot \<Rightarrow> u64 \<Rightarrow> u32 \<Rightarrow> u64 \<Rightarrow> u8 \<Rightarrow> bool" where
  "audited s now target cap action \<longleftrightarrow> 0 < ag_audit_count s \<and>
     (let e = ag_audit_log s ((ag_audit_count s - 1) mod 512)
      in au_timestamp e = now \<and> au_target_id e = target \<and> au_cap e = cap \<and> au_action e = action)"

lemma audit_cases:
  assumes "agent_slot_by_id r i = Some j"
  shows "audited (r_agents (audit_log_record i t c a r) j) (r_tick_counter r) t c a
    \<and> (\<forall>k. k \<noteq> j \<longrightarrow> r_agents (audit_log_record i t c a r) k = r_agents r k)
    \<and> (\<forall>k. ag_desc (r_agents (audit_log_record i t c a r) k) = ag_desc (r_agents r k))
    \<and> r_tick_counter (audit_log_record i t c a r) = r_tick_counter r"
  using slot_by_id_active [OF assms]
  by (simp add: audit_log_record_def slot_by_id_index [OF assms] Let_def audited_def agent_now_def)

lemma audit_lookup [simp]: "agent_slot_by_id (audit_log_record i t c a r) k = agent_slot_by_id r k"
proof -
  have "ag_active (r_agents (audit_log_record i t c a r) n) = ag_active (r_agents r n)" for n
    by (simp add: audit_log_record_def Let_def)
  then show ?thesis by (simp add: agent_slot_by_id_def Let_def)
qed

lemma desc_lookup [simp]: "agent_slot_by_id (upd_desc j f r) k = agent_slot_by_id r k"
  by (simp add: agent_slot_by_id_def Let_def)

text \<open>C15. Transferring a capability: it is refused when the bits include SUPERVISOR, even to a supervisor,
  when either agent does not live, when they are the same, and when the source does not hold all the
  bits; a refusal changes nothing. Otherwise the source loses the bits, the destination gains them, no
  other agent is touched, together the two hold what they held before, and the newest entry of both
  audit logs records the transfer.\<close>

theorem transfer_cap_spec:
  assumes "flux_agent_transfer_cap src dst cap r = (st, r')" "r_initialized r" "cap \<noteq> 0"
  shows "if cap AND 0x400 \<noteq> 0 then st = FLUX_ERR_DENIED \<and> r' = r
    else case (agent_slot_by_id r src, agent_slot_by_id r dst) of
      (Some i, Some j) \<Rightarrow>
        if src = dst then st = FLUX_ERR_INVALID \<and> r' = r
        else if d_capabilities (desc_at r i) AND cap \<noteq> cap then st = FLUX_ERR_DENIED \<and> r' = r
        else st = FLUX_OK \<and> i \<noteq> j
          \<and> d_capabilities (desc_at r' i) = d_capabilities (desc_at r i) AND NOT cap
          \<and> d_capabilities (desc_at r' j) = d_capabilities (desc_at r j) OR cap
          \<and> d_capabilities (desc_at r' i) OR d_capabilities (desc_at r' j)
            = d_capabilities (desc_at r i) OR d_capabilities (desc_at r j)
          \<and> (\<forall>k. k \<noteq> i \<and> k \<noteq> j \<longrightarrow> r_agents r' k = r_agents r k)
          \<and> audited (r_agents r' i) (r_tick_counter r) dst cap 2 \<and> audited (r_agents r' j) (r_tick_counter r) src cap 2
    | _ \<Rightarrow> st = FLUX_ERR_NOTFOUND \<and> r' = r"
proof (cases "cap AND 0x400 = 0 \<and> (\<exists>i j. agent_slot_by_id r src = Some i \<and> agent_slot_by_id r dst = Some j \<and> src \<noteq> dst
    \<and> d_capabilities (desc_at r i) AND cap = cap)")
  case False
  then show ?thesis using assms by (auto simp: flux_agent_transfer_cap_def split: option.splits)
next
  case True
  then obtain i j where i: "agent_slot_by_id r src = Some i" and j: "agent_slot_by_id r dst = Some j"
    and g: "cap AND 0x400 = 0" "src \<noteq> dst" and c: "d_capabilities (desc_at r i) AND cap = cap" by blast
  have ids: "4 \<le> src" "4 \<le> dst" "i = unat src - 4" "j = unat dst - 4" using i j by (simp_all add: slot_by_id_Some)
  then have ij: "i \<noteq> j" using g(2) by (auto simp: word_le_nat_alt word_unat_eq_iff)
  have low: "\<not> src \<le> 3" using ids(1) by (auto simp: word_le_nat_alt)
  define r2 where "r2 = upd_desc j (\<lambda>d. d\<lparr>d_capabilities := d_capabilities d OR cap\<rparr>)
      (upd_desc i (\<lambda>d. d\<lparr>d_capabilities := d_capabilities d AND NOT cap\<rparr>) r)"
  define r3 where "r3 = audit_log_record src dst cap 2 r2"
  have res: "st = FLUX_OK" "r' = audit_log_record dst src cap 2 r3"
    using assms i j g c low by (simp_all add: flux_agent_transfer_cap_def Let_def r2_def r3_def)
  have lk: "agent_slot_by_id r2 src = Some i" "agent_slot_by_id r3 dst = Some j" using i j by (simp_all add: r2_def r3_def)
  note a = audit_cases [OF lk(1), of dst cap 2, folded r3_def] audit_cases [OF lk(2), of src cap 2, folded res(2)]
  have d: "ag_desc (r_agents r' k) = ag_desc (r_agents r2 k)" for k using a by simp
  have caps: "d_capabilities (desc_at r' i) = d_capabilities (desc_at r i) AND NOT cap"
    "d_capabilities (desc_at r' j) = d_capabilities (desc_at r j) OR cap"
    using ij by (simp_all add: desc_at_def d r2_def)
  have "(x AND NOT cap) OR (y OR cap) = x OR y" if "x AND cap = cap" for x y :: u64
  proof (rule bit_word_eqI)
    fix n assume "n < LENGTH(64)"
    have "bit (x AND cap) n = bit cap n" using that by simp
    then show "bit ((x AND NOT cap) OR (y OR cap)) n = bit (x OR y) n"
      using \<open>n < LENGTH(64)\<close> by (auto simp: bit_simps)
  qed
  then have union: "d_capabilities (desc_at r' i) OR d_capabilities (desc_at r' j)
      = d_capabilities (desc_at r i) OR d_capabilities (desc_at r j)"
    unfolding caps using c by blast
  have "r_agents r' i = r_agents r3 i" using a ij by blast
  then have "audited (r_agents r' i) (r_tick_counter r) dst cap 2" using a by (simp add: r2_def)
  moreover have "audited (r_agents r' j) (r_tick_counter r) src cap 2" using a by (simp add: r2_def)
  moreover have "r_agents r' k = r_agents r k" if "k \<noteq> i" "k \<noteq> j" for k
  proof -
    have "r_agents r' k = r_agents r3 k" "r_agents r3 k = r_agents r2 k" using a that by blast+
    then show ?thesis using that by (simp add: r2_def)
  qed
  ultimately show ?thesis using i j g c ij res(1) caps union by simp
qed

theorem transfer_cap_spec_witness:
  "fst (flux_agent_transfer_cap 5 6 0x400 two_agents) = FLUX_ERR_DENIED
   \<and> fst (flux_agent_transfer_cap 5 6 2 two_agents) = FLUX_OK
   \<and> d_capabilities (desc_at (snd (flux_agent_transfer_cap 5 6 2 two_agents)) 1) = 0x400"
proof -
  have i: "r_initialized two_agents" by code_simp
  have c: "d_capabilities (desc_at two_agents 1) = 0x402" by code_simp
  obtain s1 r1 where t1: "flux_agent_transfer_cap 5 6 0x400 two_agents = (s1, r1)"
    by (cases "flux_agent_transfer_cap 5 6 0x400 two_agents")
  obtain s2 r2 where t2: "flux_agent_transfer_cap 5 6 2 two_agents = (s2, r2)"
    by (cases "flux_agent_transfer_cap 5 6 2 two_agents")
  have "s1 = FLUX_ERR_DENIED" using transfer_cap_spec [OF t1 i] by simp
  moreover have "s2 = FLUX_OK \<and> d_capabilities (desc_at r2 1) = 0x400"
    using transfer_cap_spec [OF t2 i] two_ids c by simp
  ultimately show ?thesis using t1 t2 by simp
qed

end
