(* ===== verification/FluxMailProps.thy ===== *)
theory FluxMailProps
  imports FluxAgentProps
begin

section \<open>Properties of the agent-to-agent messages\<close>

text \<open>
  What a send, a receive and a broadcast do to the mailboxes, that is to the lists of messages that
  the inboxes stand for (\<open>mail\<close>).
\<close>

subsection \<open>Send\<close>

text \<open>C10. Sending refines appending to a mailbox: in every reachable state \<open>flux_a2a_send\<close> is refused for the
  first of the reasons of \<open>send_refusal\<close> (runtime not initialised, payload above 4096 bytes, an agent that
  does not live, no COMMUNICATE bit, a message to oneself) without effect; otherwise it succeeds and
  appends one message, with the sender, the payload and a fresh number, to the mailbox of the target,
  or fails because the mailbox has 64 messages or memory is exhausted. Every other mailbox keeps its
  messages in their order.\<close>

theorem agent_send_spec:
  assumes "rt_reach (\<lambda>_. True) r" "fresh_calloc ca"
    and "agent_a2a_send ca sender target ty payload len r = (st, mid, r')"
  shows "case send_refusal r sender target len of
      Some e \<Rightarrow> st = e \<and> mid = None \<and> r' = r
    | None \<Rightarrow> \<exists>j. agent_slot_by_id r target = Some j \<and>
        (if st = FLUX_OK
         then mid = Some (m_id (sent_msg r sender target ty payload len)) \<and> length (mail r j) < 64
            \<and> (\<forall>k < 64. mail r' k = mail r k @ (if k = j then [sent_msg r sender target ty payload len] else []))
         else mid = None \<and> (st = FLUX_ERR_NOMEM \<and> fst (msg_pool_alloc ca r) = None \<or> st = FLUX_ERR_OVERFLOW \<and> length (mail r j) = 64)
            \<and> (\<forall>k < 64. mail r' k = mail r k))"
proof -
  have ok: "rt_ok r" by (rule rt_reach_inv [OF assms(1)])
  have full: "length (mail r j) = 64" if "agent_slot_by_id r target = Some j" "64 \<le> length (mail r j)" for j
  proof -
    have "inbox_ok (r_agents r j)" using ok slot_by_id_less [OF that(1)] by (simp add: rt_ok_def mail_ok_def boxes_ok_def)
    then show ?thesis using that(2) by (simp add: inbox_ok_def)
  qed
  then show ?thesis using send_cases [OF assms(3) rt_ok_mail [OF ok] assms(2)]
    by (auto split: option.splits if_splits)
qed

theorem agent_send_spec_witness:
  "mail one_message 2 = [sent_msg two_agents 5 6 A2A_TELL (Some [104, 105]) 2]"
proof -
  have "mail two_agents 2 = []" using two_facts(3) by (simp flip: length_0_conv)
  then show ?thesis
    using agent_send_spec [OF started_reach fresh_no_calloc one_message_step] two_facts(1) two_ids by simp
qed

subsection \<open>Receive\<close>

text \<open>C14. What is sent is received: when the mailbox of the target is empty, a successful send followed by
  a receive of the target, whatever its timeout, hands over exactly the message that was sent and
  leaves all mailboxes as they were before the send. In general a receive takes the oldest message.\<close>

theorem agent_send_recv_roundtrip:
  assumes "rt_reach (\<lambda>_. True) r" "fresh_calloc ca"
    and "agent_a2a_send ca sender target ty payload len r = (FLUX_OK, mid, r1)"
    and "agent_slot_by_id r target = Some j" "mail r j = []"
    and "agent_a2a_recv others fuel target True timeout r1 = (res, r2)"
  shows "res = Some (Got (sent_msg r sender target ty payload len)) \<and> (\<forall>k < 64. mail r2 k = mail r k)"
proof -
  have ok: "rt_ok r" by (rule rt_reach_inv [OF assms(1)])
  have ok1: "rt_ok r1"
    using rt_step_ok [OF step_send [OF assms(3,2), where allow = "\<lambda>_. True"] ok] .
  have none: "send_refusal r sender target len = None"
    using send_cases [OF assms(3) rt_ok_mail [OF ok] assms(2)]
    by (cases "send_refusal r sender target len") (auto simp: send_refusal_def split: if_splits option.splits)
  let ?m = "sent_msg r sender target ty payload len"
  have mail1: "mail r1 k = mail r k @ (if k = j then [?m] else [])" if "k < 64" for k
    using send_cases [OF assms(3) rt_ok_mail [OF ok] assms(2)] none assms(4) that by simp
  have calm: "calm_rt r r1"
    using send_step [OF assms(2) rt_ok_mail [OF ok] assms(3)] by (simp add: mail_step_def)
  have j1: "agent_slot_by_id r1 target = Some j"
    using assms(4) calm by (auto simp: slot_by_id_Some calm_rt_def quiet_def)
  have init: "r_initialized r1" using calm none by (auto simp: calm_rt_def send_refusal_def split: if_splits)
  obtain x r3 where t: "take_message j r1 = (x, r3)" by (cases "take_message j r1")
  have "mail r1 j = [?m]" using mail1 slot_by_id_less [OF assms(4)] assms(5) by simp
  then have x: "x = Some ?m" and mail3: "\<forall>k < 64. mail r3 k = (if k = j then [] else mail r1 k)"
    using take_cases [OF rt_ok_mail [OF ok1] j1 t] by simp_all
  have "(res, r2) = (Some (Got ?m), r3)" using assms(6) j1 init t x by (simp add: agent_a2a_recv_def)
  then show ?thesis using mail3 mail1 assms(5) by auto
qed

theorem agent_send_recv_roundtrip_witness:
  "fst (agent_a2a_recv (\<lambda>_ r. r) 0 6 True 0 one_message) = Some (Got (sent_msg two_agents 5 6 A2A_TELL (Some [104, 105]) 2))"
proof -
  have "mail two_agents 2 = []" using two_facts(3) by (simp flip: length_0_conv)
  then show ?thesis
    using agent_send_recv_roundtrip [OF started_reach fresh_no_calloc one_message_step conjunct2 [OF two_ids]]
    by (metis (no_types, lifting) prod.collapse)
qed





subsection \<open>Broadcast\<close>

definition event_msg :: "u32 \<Rightarrow> u32 \<Rightarrow> string \<Rightarrow> u8 list option \<Rightarrow> u32 \<Rightarrow> u64 \<Rightarrow> u32 \<Rightarrow> a2a_msg" where
  "event_msg sender target topic payload len now mid =
     \<lparr>m_id = mid, m_reply_to = 0, m_type = A2A_EVENT, m_sender = sender, m_target = target, m_required_cap = 0,
      m_timestamp = now, m_deadline = 0, m_priority = 1, m_topic = take 63 topic,
      m_payload = payload_of payload len, m_payload_len = len\<rparr>"

text \<open>The C heap never runs out.\<close>

definition plenty :: "msg_calloc \<Rightarrow> bool" where
  "plenty ca \<longleftrightarrow> (\<forall>used. finite {x. used x} \<longrightarrow> ca used \<noteq> None)"

text \<open>Slot \<open>s\<close> is a live subscriber among \<open>ks\<close>, other than the sender, with room in its mailbox.\<close>

definition listens :: "rt \<Rightarrow> u32 \<Rightarrow> u32 list \<Rightarrow> nat \<Rightarrow> bool" where
  "listens r sender ks s \<longleftrightarrow> s < 64 \<and> of_nat (s + 4) \<in> set ks \<and> of_nat (s + 4) \<noteq> sender \<and> ag_active (r_agents r s)
     \<and> length (mail r s) < 64"

lemma plenty_alloc:
  assumes "plenty ca" "mail_ok r" obtains p r1 where "msg_pool_alloc ca r = (Some p, r1)"
proof -
  have "finite {x. r_heap_messages r x \<noteq> None}" using assms(2) by (simp add: mail_ok_def owes_def dom_def)
  then have "ca (\<lambda>a. r_heap_messages r a \<noteq> None) \<noteq> None" using assms(1) by (simp add: plenty_def)
  then have "fst (msg_pool_alloc ca r) \<noteq> None" by (auto simp: msg_pool_alloc_def split: option.split)
  then show ?thesis using that by (cases "msg_pool_alloc ca r") auto
qed

lemma broadcast_to_cases:
  assumes "fresh_calloc ca" "plenty ca" "mail_ok r"
    and "broadcast_to ca sender topic payload len k (n, r) = (n', r')"
  shows "mail_step r r' \<and> r_tick_counter r' = r_tick_counter r
    \<and> (\<forall>x. d_msg_count_sent (desc_at r' x) = d_msg_count_sent (desc_at r x)) \<and>
    (if \<exists>j. listens r sender [k] j
     then n' = n + 1 \<and> (\<exists>mid. \<forall>s < 64. mail r' s = mail r s @
            (if listens r sender [k] s then [event_msg sender k topic payload len (r_tick_counter r) mid] else []))
     else n' = n \<and> (\<forall>s < 64. mail r' s = mail r s))"
proof -
  have step: "mail_step r r'" using broadcast_to_step [OF assms(1,3), of sender topic payload len k n] assms(4) by simp
  have hs: "listens r sender [k] s \<longleftrightarrow> k \<noteq> sender \<and> agent_slot_by_id r k = Some s \<and> length (mail r s) < 64" for s
    by (auto simp: listens_def slot_id)
  show ?thesis
  proof (cases "k = sender \<or> agent_slot_by_id r k = None")
    case True
    then have "(n', r') = (n, r)"
      using assms(4) by (cases "k = sender") (simp_all add: broadcast_to_def)
    then have "n' = n" "r' = r" by simp_all
    then show ?thesis using True by (auto simp: hs)
  next
    case False
    then obtain j where j: "agent_slot_by_id r k = Some j" by auto
    obtain p r1 where al: "msg_pool_alloc ca r = (Some p, r1)" by (rule plenty_alloc [OF assms(2,3)])
    obtain mid r2 where gi: "msg_generate_id r1 = (mid, r2)" by (cases "msg_generate_id r1")
    define m where "m = (msg_at r2 p)\<lparr>m_id := mid, m_reply_to := 0, m_type := A2A_EVENT, m_sender := sender,
                           m_target := k, m_required_cap := 0, m_timestamp := agent_now r2, m_deadline := 0,
                           m_priority := 1, m_payload_len := len, m_topic := take 63 topic,
                           m_payload := payload_of payload len\<rparr>"
    obtain st r3 where po: "post j p (set_msg p m r2) = (st, r3)" by (cases "post j p (set_msg p m r2)")
    define r5 where "r5 = upd_desc j (wake_from {AGENT_WAITING})
           ((upd_desc j (\<lambda>d. d\<lparr>d_msg_count_recv := d_msg_count_recv d + 1, d_last_active := agent_now r3\<rparr>) r3)
              \<lparr>r_total_messages_recv := r_total_messages_recv (upd_desc j (\<lambda>d. d\<lparr>d_msg_count_recv := d_msg_count_recv d + 1,
                 d_last_active := agent_now r3\<rparr>) r3) + 1\<rparr>)"
    have e: "(n', r') = (if st \<noteq> FLUX_OK then (n, r3) else (n + 1, r5))"
      using assms(4) False j al gi po
      by (cases "st = FLUX_OK") (simp_all add: broadcast_to_def m_def Let_def r5_def)
    note c = compose_cases [OF al gi po assms(3,1) j]
    have m: "m = event_msg sender k topic payload len (r_tick_counter r) mid"
      using c(3,4) by (simp add: m_def event_msg_def zero_msg_def agent_now_def)
    have t3: "r_tick_counter r3 = r_tick_counter r" using c(2) by (simp add: same_rest_def)
    have "d_msg_count_sent (desc_at r3 x) = d_msg_count_sent (desc_at r x)" for x
      using same_rest_agents [OF c(2), of x] by (simp add: desc_at_def)
    moreover have "d_msg_count_sent (desc_at r5 x) = d_msg_count_sent (desc_at r3 x)" for x
      by (simp add: r5_def desc_at_def wake_from_def)
    ultimately have sent: "d_msg_count_sent (desc_at r3 x) = d_msg_count_sent (desc_at r x)"
      "d_msg_count_sent (desc_at r5 x) = d_msg_count_sent (desc_at r x)" for x by simp_all
    have "same_mail r3 r5" by (simp add: r5_def same_mail_def)
    note mail5 = same_mailD(4) [OF this]
    show ?thesis
    proof (cases "ag_inbox_count (r_agents r j) < 64")
      case True
      then have "st = FLUX_OK" "\<forall>s < 64. mail r3 s = mail r s @ (if s = j then [m] else [])" using c(6) by simp_all
      moreover have "r_tick_counter r5 = r_tick_counter r3" by (simp add: r5_def)
      ultimately show ?thesis using e step True j False t3 sent by (auto simp: hs m mail5)
    next
      case no: False
      then have "st \<noteq> FLUX_OK" "\<forall>s < 64. mail r3 s = mail r s" using c(6) by simp_all
      then show ?thesis using e step no j t3 sent by (auto simp: hs)
    qed
  qed
qed

lemma listens_after:
  assumes "mail_step r r'" "\<And>s. s < 64 \<Longrightarrow> of_nat (s + 4) \<in> set ks \<Longrightarrow> mail r' s = mail r s"
  shows "listens r' sender ks s \<longleftrightarrow> listens r sender ks s"
proof -
  have "ag_active (r_agents r' s) = ag_active (r_agents r s)"
    using assms(1) by (simp add: mail_step_def calm_rt_def quiet_def)
  then show ?thesis using assms(2) [of s] by (auto simp: listens_def simp del: mail_length of_nat_add)
qed

lemma broadcast_all_cases:
  assumes "fresh_calloc ca" "plenty ca" "mail_ok r" "distinct ks"
    and "fold (broadcast_to ca sender topic payload len) ks (n, r) = (n', r')"
  shows "n' = n + card {s. listens r sender ks s} \<and> (\<forall>x. d_msg_count_sent (desc_at r' x) = d_msg_count_sent (desc_at r x))
    \<and> (\<forall>s < 64. if listens r sender ks s
     then \<exists>mid. mail r' s = mail r s @ [event_msg sender (of_nat (s + 4)) topic payload len (r_tick_counter r) mid]
     else mail r' s = mail r s)"
  using assms(3-5)
proof (induction ks arbitrary: n r)
  case Nil
  then show ?case by (simp add: listens_def)
next
  case (Cons k ks)
  obtain n1 r1 where b: "broadcast_to ca sender topic payload len k (n, r) = (n1, r1)"
    by (cases "broadcast_to ca sender topic payload len k (n, r)")
  note c = broadcast_to_cases [OF assms(1,2) Cons.prems(1) b]
  have step: "mail_step r r1" and t: "r_tick_counter r1 = r_tick_counter r"
    and sent1: "\<forall>x. d_msg_count_sent (desc_at r1 x) = d_msg_count_sent (desc_at r x)" using c by auto
  have single: "listens r sender [k] s \<Longrightarrow> k = of_nat (s + 4)" for s by (simp add: listens_def)
  have other: "mail r1 s = mail r s" if "s < 64" "of_nat (s + 4) \<in> set ks" for s
  proof -
    have "k \<noteq> of_nat (s + 4)" using that(2) Cons.prems(2) by auto
    then have "\<not> listens r sender [k] s" using single by blast
    then show ?thesis using c that(1) by (auto split: if_splits)
  qed
  have h: "listens r1 sender ks s \<longleftrightarrow> listens r sender ks s" for s by (rule listens_after [OF step other])
  have ok1: "mail_ok r1" using step Cons.prems(1) by (simp add: mail_step_def)
  have "fold (broadcast_to ca sender topic payload len) ks (n1, r1) = (n', r')" using Cons.prems(3) b by simp
  from Cons.IH [OF ok1 _ this] have IH: "n' = n1 + card {s. listens r sender ks s}" "\<forall>x. d_msg_count_sent (desc_at r' x) = d_msg_count_sent (desc_at r1 x)"
    "\<forall>s < 64. if listens r sender ks s
     then \<exists>mid. mail r' s = mail r1 s @ [event_msg sender (of_nat (s + 4)) topic payload len (r_tick_counter r) mid]
     else mail r' s = mail r1 s"
    using Cons.prems(2) unfolding h t by auto
  have split: "listens r sender (k # ks) s \<longleftrightarrow> listens r sender [k] s \<or> listens r sender ks s" for s
    by (auto simp: listens_def)
  have disj: "\<not> (listens r sender [k] s \<and> listens r sender ks s)" for s
    using Cons.prems(2) by (auto simp: listens_def)
  have uniq: "a = b" if "listens r sender [k] a" "listens r sender [k] b" for a b
  proof -
    have "of_nat (a + 4) = (of_nat (b + 4) :: u32)" "a < 64" "b < 64" using that by (auto simp: listens_def)
    moreover have "unat (of_nat (a + 4) :: u32) = a + 4" "unat (of_nat (b + 4) :: u32) = b + 4"
      using calculation(2,3) by (simp_all only: unat_of_nat) (simp_all add: take_bit_nat_eq_self)
    ultimately show ?thesis by simp
  qed
  have fin: "finite {s. listens r sender l s}" for l by (rule finite_subset [of _ "{..<64}"]) (auto simp: listens_def)
  have "card {s. listens r sender [k] s} = (if \<exists>j. listens r sender [k] j then 1 else 0)"
  proof (cases "\<exists>j. listens r sender [k] j")
    case True
    then obtain j where "{s. listens r sender [k] s} = {j}" using uniq by blast
    then show ?thesis using True by simp
  qed simp
  then have "n1 = n + card {s. listens r sender [k] s}" using c by (auto split: if_splits)
  moreover have "{s. listens r sender (k # ks) s} = {s. listens r sender [k] s} \<union> {s. listens r sender ks s}"
    using split by blast
  then have "card {s. listens r sender (k # ks) s} = card {s. listens r sender [k] s} + card {s. listens r sender ks s}"
    using card_Un_disjoint [OF fin fin] disj by auto
  ultimately have "n' = n + card {s. listens r sender (k # ks) s}" using IH(1) by simp
  moreover have "if listens r sender (k # ks) s
     then \<exists>mid. mail r' s = mail r s @ [event_msg sender (of_nat (s + 4)) topic payload len (r_tick_counter r) mid]
     else mail r' s = mail r s" if "s < 64" for s
  proof (cases "listens r sender [k] s")
    case True
    then have "mail r' s = mail r1 s" using IH(3) disj that by auto
    moreover have "\<exists>mid. mail r1 s = mail r s @ [event_msg sender k topic payload len (r_tick_counter r) mid]"
    proof -
      have "\<exists>j. listens r sender [k] j" using True by blast
      then have "\<exists>mid. \<forall>s < 64. mail r1 s = mail r s @
          (if listens r sender [k] s then [event_msg sender k topic payload len (r_tick_counter r) mid] else [])"
        using c by simp
      then show ?thesis using True that by metis
    qed
    ultimately show ?thesis using True split single [OF True] by auto
  next
    case False
    then have "mail r1 s = mail r s" using c that by (auto split: if_splits)
    moreover have "if listens r sender ks s
       then \<exists>mid. mail r' s = mail r1 s @ [event_msg sender (of_nat (s + 4)) topic payload len (r_tick_counter r) mid]
       else mail r' s = mail r1 s"
      using IH(3) that by blast
    ultimately show ?thesis unfolding split using False by (auto split: if_splits)
  qed
  moreover have "\<forall>x. d_msg_count_sent (desc_at r' x) = d_msg_count_sent (desc_at r x)" using IH(2) sent1 by simp
  ultimately show ?case by blast
qed


text \<open>A broadcast on an existing topic, by a live agent with the COMMUNICATE bit and while memory lasts,
  always reports success and puts exactly one event in the mailbox of every live subscriber other than
  the sender that has fewer than 64 messages waiting; it leaves every other mailbox alone, full ones
  included, whose subscribers miss the event unnoticed. The sender's counter of sent messages grows by
  the number of deliveries.\<close>

theorem agent_broadcast_spec:
  assumes "rt_reach (\<lambda>_. True) r" "fresh_calloc ca" "plenty ca"
    and "agent_a2a_broadcast ca sender (Some topic) payload len r = (st, r')"
    and "r_initialized r" "topic \<noteq> []" "len \<le> 4096" "find_topic topic r = Some t"
    and "agent_slot_by_id r sender = Some i" "d_capabilities (desc_at r i) AND 2 \<noteq> 0"
  defines "subs \<equiv> map (tp_subscribers (r_topics r t)) [0..<tp_num_subscribers (r_topics r t)]"
  shows "st = FLUX_OK \<and> (\<forall>s < 64. if listens r sender subs s
      then \<exists>mid. mail r' s = mail r s @ [event_msg sender (of_nat (s + 4)) topic payload len (r_tick_counter r) mid]
      else mail r' s = mail r s)
    \<and> d_msg_count_sent (desc_at r' i) = d_msg_count_sent (desc_at r i) + of_nat (card {s. listens r sender subs s})"
proof (cases "tp_num_subscribers (r_topics r t) = 0")
  case True
  then have "st = FLUX_OK" "r' = r" "subs = []"
    using assms(4-10) by (simp_all add: agent_a2a_broadcast_def not_less subs_def split: if_splits)
  then show ?thesis by (simp add: listens_def)
next
  case False
  have ok: "rt_ok r" by (rule rt_reach_inv [OF assms(1)])
  have "t < r_num_topics r" using assms(8) by (simp add: find_topic_def first_index_Some)
  then have dist: "distinct subs" using ok by (simp add: rt_ok_def tables_ok_def topic_ok_def subs_def)
  obtain n r1 where f: "fold (broadcast_to ca sender topic payload len) subs (0, r) = (n, r1)"
    by (cases "fold (broadcast_to ca sender topic payload len) subs (0, r)")
  note c = broadcast_all_cases [OF assms(2,3) rt_ok_mail [OF ok] dist f]
  define r2 where "r2 = upd_desc i (\<lambda>d. d\<lparr>d_msg_count_sent := d_msg_count_sent d + of_nat n, d_last_active := agent_now r1\<rparr>) r1"
  have "\<not> 4096 < len" using assms(7) by (simp add: not_less)
  then have e: "st = FLUX_OK" "r' = r2\<lparr>r_total_messages_sent := r_total_messages_sent r2 + of_nat n,
      r_total_broadcasts := r_total_broadcasts r2 + 1\<rparr>"
    using assms(4-10) False f by (simp_all add: agent_a2a_broadcast_def r2_def Let_def flip: subs_def)
  have "same_mail r1 r'" by (simp add: e(2) r2_def same_mail_def)
  note m = same_mailD(4) [OF this]
  have "d_msg_count_sent (desc_at r1 i) = d_msg_count_sent (desc_at r i)"
    using c by blast
  then have "d_msg_count_sent (desc_at r' i) = d_msg_count_sent (desc_at r i) + of_nat (card {s. listens r sender subs s})"
    using c by (simp add: e(2) r2_def desc_at_def)
  then show ?thesis using c e(1) unfolding m by blast
qed

definition lowest_free :: msg_calloc where
  "lowest_free used = Some (LEAST a. \<not> used a)"

lemma lowest_free_ok: "fresh_calloc lowest_free" "plenty lowest_free"
proof -
  have "\<not> used (LEAST a. \<not> used a)" if "finite {x :: nat. used x}" for used
  proof -
    have "\<exists>a. \<not> used a" using that infinite_UNIV_nat by (metis (mono_tags, lifting) Collect_cong UNIV_def)
    then show ?thesis by (rule LeastI_ex)
  qed
  then show "fresh_calloc lowest_free" "plenty lowest_free" by (auto simp: fresh_calloc_def plenty_def lowest_free_def)
qed

definition subscribed :: rt where
  "subscribed = snd (flux_agent_subscribe 6 (Some ''news'') two_agents)"

lemma subscribed_eq:
  "subscribed = upd_topic 0 (\<lambda>_. \<lparr>tp_name = ''news'', tp_subscribers = (\<lambda>_. 0)(0 := 6), tp_num_subscribers = 1\<rparr>)
     (two_agents\<lparr>r_num_topics := 1\<rparr>)"
proof -
  have "r_initialized two_agents" "r_num_topics two_agents = 0" by code_simp+
  then have "find_or_create_topic (Some ''news'') two_agents =
      (Some 0, two_agents\<lparr>r_topics := (r_topics two_agents)(0 := zero_topic\<lparr>tp_name := ''news''\<rparr>), r_num_topics := 1\<rparr>)"
    by (simp add: find_or_create_topic_def find_topic_by_name_def first_index.simps Let_def zero_topic_def)
  then show ?thesis
    using \<open>r_initialized two_agents\<close> two_ids
    by (simp add: subscribed_def flux_agent_subscribe_def upd_topic_def zero_topic_def fun_eq_iff)
qed

lemma subscribed_facts:
  "r_initialized subscribed" "find_topic ''news'' subscribed = Some 0" "agent_slot_by_id subscribed 5 = Some 1"
  "d_capabilities (desc_at subscribed 1) AND 2 \<noteq> 0" "ag_inbox_count (r_agents subscribed 2) = 0"
  "ag_active (r_agents subscribed 2)"
  "map (tp_subscribers (r_topics subscribed 0)) [0..<tp_num_subscribers (r_topics subscribed 0)] = [6]"
proof -
  have t: "r_initialized two_agents" "d_capabilities (desc_at two_agents 1) AND 2 \<noteq> 0"
    "ag_inbox_count (r_agents two_agents 2) = 0" "ag_active (r_agents two_agents 2)" by code_simp+
  have a: "r_agents subscribed = r_agents two_agents" by (simp add: subscribed_eq)
  show "r_initialized subscribed" "find_topic ''news'' subscribed = Some 0"
    "map (tp_subscribers (r_topics subscribed 0)) [0..<tp_num_subscribers (r_topics subscribed 0)] = [6]"
    using t(1) by (simp_all add: subscribed_eq find_topic_def first_index.simps upd_topic_def)
  show "agent_slot_by_id subscribed 5 = Some 1"
    using conjunct1 [OF two_ids] by (simp add: agent_slot_by_id_def Let_def a split: if_splits)
  show "d_capabilities (desc_at subscribed 1) AND 2 \<noteq> 0" "ag_inbox_count (r_agents subscribed 2) = 0"
    "ag_active (r_agents subscribed 2)"
    using t by (simp_all add: desc_at_def a)
qed

lemma subscribed_reach: "rt_reach (\<lambda>_. True) subscribed"
proof -
  obtain st where "flux_agent_subscribe 6 (Some ''news'') two_agents = (st, subscribed)"
    by (cases "flux_agent_subscribe 6 (Some ''news'') two_agents") (simp add: subscribed_def)
  from reach_step [OF started_reach step_subscribe [OF this]] show ?thesis by simp
qed

theorem agent_broadcast_spec_witness:
  "\<exists>mid. mail (snd (agent_a2a_broadcast lowest_free 5 (Some ''news'') (Some [1]) 1 subscribed)) 2 =
     [event_msg 5 6 ''news'' (Some [1]) 1 (r_tick_counter subscribed) mid]"
proof -
  obtain st r' where b: "agent_a2a_broadcast lowest_free 5 (Some ''news'') (Some [1]) 1 subscribed = (st, r')"
    by (cases "agent_a2a_broadcast lowest_free 5 (Some ''news'') (Some [1]) 1 subscribed")
  have "listens subscribed 5 [6] 2" using subscribed_facts(5,6) by (simp add: listens_def)
  moreover have "mail subscribed 2 = []" using subscribed_facts(5) by (simp flip: length_0_conv)
  ultimately show ?thesis
    using agent_broadcast_spec [OF subscribed_reach lowest_free_ok b subscribed_facts(1) _ _ subscribed_facts(2-4)]
      subscribed_facts(7) b by (auto dest!: spec [of _ 2])
qed

end
