(* ===== verification/FluxSandboxProps.thy ===== *)
theory FluxSandboxProps
  imports FluxAgentProps
begin

section \<open>Properties of the life of an agent and of its sandbox\<close>

subsection \<open>Isolation\<close>

text \<open>C13. Running an agent affects nobody else: whatever its program does, \<open>flux_agent_run\<close> leaves every
  other agent, the messages, the topics and the registry exactly as they were, and of the agent itself
  it changes only the VM, the state, the counters of ticks, memory and I/O and the times of last
  activity: not its identity, its capabilities, its limits, its inbox, its audit log.\<close>

theorem agent_run_isolated:
  assumes "flux_agent_run fp env fuel i max_ticks r = Some (Val (st, r'))"
  shows "r'\<lparr>r_agents := r_agents r\<rparr> = r \<and> (\<forall>k. agent_slot_by_id r i \<noteq> Some k \<longrightarrow> r_agents r' k = r_agents r k)
    \<and> (\<forall>k. \<exists>vm t s. (vm_inv (ag_vm (r_agents r k)) \<longrightarrow> vm_inv vm)
        \<and> r_agents r' k = (r_agents r k)\<lparr>ag_vm := vm, ag_last_tick_update := t, ag_desc := s\<rparr>
        \<and> s\<lparr>d_state := d_state (desc_at r k), d_used_cpu_ticks := d_used_cpu_ticks (desc_at r k),
            d_used_memory := d_used_memory (desc_at r k), d_used_io_per_sec := d_used_io_per_sec (desc_at r k),
            d_last_active := d_last_active (desc_at r k)\<rparr> = desc_at r k)"
proof -
  have own: "\<exists>vm t d. (vm_inv (ag_vm s) \<longrightarrow> vm_inv vm) \<and> s' = s\<lparr>ag_vm := vm, ag_last_tick_update := t, ag_desc := d\<rparr>
        \<and> d\<lparr>d_state := d_state (ag_desc s), d_used_cpu_ticks := d_used_cpu_ticks (ag_desc s),
            d_used_memory := d_used_memory (ag_desc s), d_used_io_per_sec := d_used_io_per_sec (ag_desc s),
            d_last_active := d_last_active (ag_desc s)\<rparr> = ag_desc s"
    if "own_step s s'" for s s'
  proof (intro exI conjI)
    show "vm_inv (ag_vm s) \<longrightarrow> vm_inv (ag_vm s')" using that by (simp add: own_step_def)
    have e: "s'\<lparr>ag_vm := ag_vm s, ag_last_tick_update := ag_last_tick_update s,
        ag_desc := (ag_desc s')\<lparr>d_state := d_state (ag_desc s), d_used_cpu_ticks := d_used_cpu_ticks (ag_desc s),
          d_used_memory := d_used_memory (ag_desc s), d_used_io_per_sec := d_used_io_per_sec (ag_desc s),
          d_last_active := d_last_active (ag_desc s)\<rparr>\<rparr> = s" (is "?s = s") using that by (simp add: own_step_def)
    have "s' = ?s\<lparr>ag_vm := ag_vm s', ag_last_tick_update := ag_last_tick_update s', ag_desc := ag_desc s'\<rparr>" by simp
    then show "s' = s\<lparr>ag_vm := ag_vm s', ag_last_tick_update := ag_last_tick_update s', ag_desc := ag_desc s'\<rparr>"
      unfolding e .
    have "ag_desc ?s = ag_desc s" by (rule arg_cong [OF e])
    then show "(ag_desc s')\<lparr>d_state := d_state (ag_desc s), d_used_cpu_ticks := d_used_cpu_ticks (ag_desc s),
          d_used_memory := d_used_memory (ag_desc s), d_used_io_per_sec := d_used_io_per_sec (ag_desc s),
          d_last_active := d_last_active (ag_desc s)\<rparr> = ag_desc s" by simp
  qed
  have fr: "r'\<lparr>r_agents := r_agents r\<rparr> = r" "\<And>k. agent_slot_by_id r i \<noteq> Some k \<Longrightarrow> r_agents r' k = r_agents r k"
    "\<And>k. own_step (r_agents r k) (r_agents r' k)"
    using run_cases [OF assms] by (auto simp: upd_slot_def)
  show ?thesis using fr(1,2) own [OF fr(3)] by (simp add: desc_at_def)
qed

theorem agent_run_isolated_witness:
  "\<exists>st r'. flux_agent_run word_fpu (\<lambda>_ _. None) 4 5 3 two_agents = Some (Val (st, r'))
     \<and> r_agents r' 2 = r_agents two_agents 2"
proof -
  have "(case flux_agent_run word_fpu (\<lambda>_ _. None) 4 5 3 two_agents of Some (Val _) \<Rightarrow> True | _ \<Rightarrow> False)" by code_simp
  then obtain st r' where run: "flux_agent_run word_fpu (\<lambda>_ _. None) 4 5 3 two_agents = Some (Val (st, r'))"
    by (auto split: option.splits cres.splits)
  then show ?thesis using agent_run_isolated [OF run] two_ids by auto
qed

subsection \<open>Input and output\<close>





subsection \<open>Pausing\<close>

text \<open>Within its limits of ticks and memory.\<close>

definition within_limits :: "agent_slot \<Rightarrow> bool" where
  "within_limits s \<longleftrightarrow>
     (d_max_cpu_ticks (ag_desc s) = 0 \<or> d_used_cpu_ticks (ag_desc s) < d_max_cpu_ticks (ag_desc s))
     \<and> (d_max_memory (ag_desc s) = 0 \<or> region_total (ag_vm s) \<le> d_max_memory (ag_desc s))"

lemma within_checks:
  assumes "within_limits s" "ag_vm_initialized s"
  shows "sandbox_check_cpu s = (False, s)" "fst (sandbox_check_memory s) = False"
    "within_limits (snd (sandbox_check_memory s))" "ag_vm (snd (sandbox_check_memory s)) = ag_vm s"
    "ag_vm_initialized (snd (sandbox_check_memory s))" "ag_active (snd (sandbox_check_memory s)) = ag_active s"
  using assms by (auto simp: within_limits_def sandbox_check_cpu_def sandbox_check_memory_def Let_def not_less)

text \<open>A run of an agent whose VM is halted executes nothing and ends the agent.\<close>

lemma halted_slice:
  assumes "vm_state (ag_vm s) = VM_HALTED" "ag_vm_initialized s" "within_limits s"
  shows "\<exists>s'. run_slice fp env now lim mt (d_used_cpu_ticks (ag_desc s)) (Suc fuel) 0 s
      = Some (Val (FLUX_ERR_GENERAL, set_agent_state AGENT_TERMINATED s')) \<and> ag_vm s' = ag_vm s \<and> ag_active s' = ag_active s"
proof -
  obtain s1 where s1: "sandbox_check_memory s = (False, s1)"
    using within_checks(2) [OF assms(3,2)] by (cases "sandbox_check_memory s") simp
  note w1 = within_checks(3-6) [OF assms(3,2), unfolded s1 snd_conv]
  obtain s2 where s2: "sandbox_check_memory s1 = (False, s2)"
    using within_checks(2) [OF w1(1,3)] by (cases "sandbox_check_memory s1") simp
  note w2 = within_checks(4,6) [OF w1(1,3), unfolded s2 snd_conv]
  have "sandbox_step fp (env 0) now s1 = Val (FLUX_ERR_GENERAL, set_agent_state AGENT_TERMINATED s2)"
    using within_checks(1) [OF w1(1,3)] s2 w1(2,3) w2 assms(1) by (simp add: sandbox_step_def)
  then show ?thesis
    using within_checks(1) [OF assms(3,2)] s1 w1 w2 by (auto simp: word_le_0_iff word_greater_zero_iff)
qed

lemma lookup_after_update:
  "agent_slot_by_id r i = Some j \<Longrightarrow> ag_active s \<Longrightarrow> agent_slot_by_id (upd_slot j (\<lambda>_. s) r) i = Some j"
  by (auto simp: slot_id)

lemma halted_run:
  assumes "r_initialized r" "agent_slot_by_id r i = Some j" "\<not> ag_paused (r_agents r j)"
    and "d_state (desc_at r j) = AGENT_IDLE" "vm_state (ag_vm (r_agents r j)) = VM_HALTED"
    and "ag_vm_initialized (r_agents r j)" "within_limits (r_agents r j)"
  shows "\<exists>r'. flux_agent_run fp env (Suc fuel) i max_ticks r = Some (Val (FLUX_ERR_GENERAL, r'))
      \<and> d_state (desc_at r' j) = AGENT_TERMINATED \<and> vm_pc (ag_vm (r_agents r' j)) = vm_pc (ag_vm (r_agents r j))
      \<and> (\<forall>n t. flux_agent_run fp env n i t r' = Some (Val (FLUX_ERR_INVALID, r')))"
proof -
  let ?s = "r_agents r j" and ?entered = "enter_run (agent_now r) (r_agents r j)"
  have s0: "ag_vm ?entered = ag_vm ?s" "ag_vm_initialized ?entered" "within_limits ?entered" "ag_active ?entered"
    "d_used_cpu_ticks (ag_desc ?entered) = d_used_cpu_ticks (ag_desc ?s)"
    using assms(5-7) slot_by_id_active [OF assms(2)]
    by (simp_all add: enter_run_def set_agent_state_def Let_def within_limits_def)
  have "vm_state (ag_vm ?entered) = VM_HALTED" using assms(5) s0(1) by simp
  from halted_slice [OF this s0(2,3), unfolded s0(5)] obtain s1
    where run: "run_slice fp env (agent_now r) (if 0 < max_ticks then ucast max_ticks else d_max_cpu_ticks (ag_desc ?s))
        max_ticks (d_used_cpu_ticks (ag_desc ?s)) (Suc fuel) 0 ?entered
      = Some (Val (FLUX_ERR_GENERAL, set_agent_state AGENT_TERMINATED s1))" "ag_vm s1 = ag_vm ?entered" "ag_active s1 = ag_active ?entered"
    by blast
  define s2 where "s2 = leave_run FLUX_ERR_GENERAL (set_agent_state AGENT_TERMINATED s1)"
  have s2: "d_state (ag_desc s2) = AGENT_TERMINATED" "vm_pc (ag_vm s2) = vm_pc (ag_vm ?s)" "ag_active s2"
    using run(2,3) s0 by (simp_all add: s2_def leave_run_def set_agent_state_def)
  have "flux_agent_run fp env (Suc fuel) i max_ticks r = Some (Val (FLUX_ERR_GENERAL, upd_slot j (\<lambda>_. s2) r))"
    using assms(1-4) run(1) by (simp add: flux_agent_run_def desc_at_def s2_def Let_def)
  moreover have "flux_agent_run fp env n i t (upd_slot j (\<lambda>_. s2) r) = Some (Val (FLUX_ERR_INVALID, upd_slot j (\<lambda>_. s2) r))" for n t
    using assms(1) s2(1) lookup_after_update [OF assms(2) s2(3)] by (simp add: flux_agent_run_def)
  ultimately show ?thesis using s2 by (simp add: desc_at_def)
qed

text \<open>Pausing is not neutral: an agent that a run left IDLE at the end of its time slice, its VM in the
  middle of the program, does not survive a pause. Both \<open>flux_agent_pause\<close> and \<open>flux_agent_resume\<close>
  report success, but the first halts the VM and the second revives it only for an agent in the state
  THINKING; the next run then executes no instruction, reports an error and marks the agent
  TERMINATED, after which nothing runs it again.\<close>

theorem pause_resume_ends_idle_agent:
  assumes "r_initialized r" "agent_slot_by_id r i = Some j" "\<not> ag_paused (r_agents r j)"
    and "d_state (desc_at r j) = AGENT_IDLE" "ag_vm_initialized (r_agents r j)" "vm_state (ag_vm (r_agents r j)) = VM_RUNNING"
    and "within_limits (r_agents r j)"
    and "flux_agent_pause i r = (st1, r1)" "flux_agent_resume i r1 = (st2, r2)"
  shows "st1 = FLUX_OK \<and> st2 = FLUX_OK \<and> d_state (desc_at r2 j) = AGENT_IDLE
    \<and> (\<exists>r3. flux_agent_run fp env (Suc fuel) i max_ticks r2 = Some (Val (FLUX_ERR_GENERAL, r3))
        \<and> d_state (desc_at r3 j) = AGENT_TERMINATED \<and> vm_pc (ag_vm (r_agents r3 j)) = vm_pc (ag_vm (r_agents r j))
        \<and> (\<forall>n t. flux_agent_run fp env n i t r3 = Some (Val (FLUX_ERR_INVALID, r3))))"
proof -
  let ?s = "r_agents r j"
  define s1 where "s1 = ?s\<lparr>ag_paused := True, ag_vm := (ag_vm ?s)\<lparr>vm_state := VM_HALTED\<rparr>,
      ag_desc := (ag_desc ?s)\<lparr>d_last_active := r_tick_counter r\<rparr>\<rparr>"
  define s2 where "s2 = s1\<lparr>ag_paused := False, ag_vm := ag_vm s1, ag_desc := (ag_desc s1)\<lparr>d_last_active := r_tick_counter r\<rparr>\<rparr>"
  have act: "ag_active ?s" by (rule slot_by_id_active [OF assms(2)])
  have r1: "st1 = FLUX_OK" "r1 = upd_slot j (\<lambda>_. s1) r"
    using assms(1-6,8) by (simp_all add: flux_agent_pause_def Let_def desc_at_def flux_vm_halt_def s1_def agent_now_def upd_slot_def)
  have "agent_slot_by_id r1 i = Some j"
    unfolding r1(2) by (rule lookup_after_update [OF assms(2)]) (use act in \<open>simp add: s1_def\<close>)
  then have r2: "st2 = FLUX_OK" "r2 = upd_slot j (\<lambda>_. s2) r"
    using assms(1,3,4,9) by (simp_all add: flux_agent_resume_def Let_def r1(2) desc_at_def s1_def s2_def agent_now_def upd_slot_def)
  have "region_total ((ag_vm ?s)\<lparr>vm_state := VM_HALTED\<rparr>) = region_total (ag_vm ?s)"
    by (simp add: region_total_def cong: if_cong)
  then have s2: "within_limits s2" "ag_active s2" "\<not> ag_paused s2" "vm_state (ag_vm s2) = VM_HALTED" "ag_vm_initialized s2"
    "d_state (ag_desc s2) = AGENT_IDLE" "vm_pc (ag_vm s2) = vm_pc (ag_vm ?s)"
    using assms(4,5,7) act by (simp_all add: s1_def s2_def within_limits_def desc_at_def)
  have "agent_slot_by_id r2 i = Some j" unfolding r2(2) by (rule lookup_after_update [OF assms(2) s2(2)])
  from halted_run [OF _ this, of fp env fuel max_ticks] show ?thesis
    using assms(1) s2 r1(1) r2 by (simp add: desc_at_def)
qed

text \<open>Agent 5 as a run leaves it at the end of its time slice.\<close>

definition rested :: rt where
  "rested = upd_slot 1 (\<lambda>s. s\<lparr>ag_desc := (ag_desc s)\<lparr>d_state := AGENT_IDLE\<rparr>, ag_vm := (ag_vm s)\<lparr>vm_state := VM_RUNNING\<rparr>\<rparr>) two_agents"

theorem pause_resume_ends_idle_agent_witness:
  "\<exists>r3. flux_agent_run word_fpu (\<lambda>_ _. None) 10 5 0 (snd (flux_agent_resume 5 (snd (flux_agent_pause 5 rested))))
      = Some (Val (FLUX_ERR_GENERAL, r3)) \<and> d_state (desc_at r3 1) = AGENT_TERMINATED"
proof -
  obtain st1 r1 where p: "flux_agent_pause 5 rested = (st1, r1)" by (cases "flux_agent_pause 5 rested")
  obtain st2 r2 where q: "flux_agent_resume 5 r1 = (st2, r2)" by (cases "flux_agent_resume 5 r1")
  have t: "r_initialized two_agents" "ag_active (r_agents two_agents 1)" "\<not> ag_paused (r_agents two_agents 1)"
    "ag_vm_initialized (r_agents two_agents 1)" "within_limits (r_agents two_agents 1)" by code_simp+
  have "region_total (vm\<lparr>vm_state := x\<rparr>) = region_total vm" for vm :: flux_vm and x
    by (simp add: region_total_def cong: if_cong)
  then have "r_initialized rested" "\<not> ag_paused (r_agents rested 1)" "d_state (desc_at rested 1) = AGENT_IDLE"
    "ag_vm_initialized (r_agents rested 1)" "vm_state (ag_vm (r_agents rested 1)) = VM_RUNNING"
    "within_limits (r_agents rested 1)" "agent_slot_by_id rested 5 = Some 1"
    using t conjunct1 [OF two_ids] by (simp_all add: rested_def desc_at_def within_limits_def slot_id)
  note h = this
  from pause_resume_ends_idle_agent [OF h(1,7,2-6) p q, of word_fpu "\<lambda>_ _. None" 9 0]
  show ?thesis using p q by auto
qed

end
