(* ===== verification/FluxFir.thy ===== *)
theory FluxFir
  imports FluxPrelude
begin

section \<open>The intermediate representation of the compiler (fluxc/fir.c)\<close>

text \<open>
  The module, its functions, basic blocks and values, the builder, the validator and the two
  optimisation passes of fluxc/fir.c, over the types of include/flux/compiler.h.

  An array with a counter (\<open>funcs\<close>/\<open>num_funcs\<close>, \<open>blocks\<close>/\<open>num_blocks\<close>, \<open>values\<close>/\<open>num_values\<close>,
  the parameters, the sources of a PHI) is the list of its first \<open>num_*\<close> entries: no code reads
  beyond the counter. The operands stay a fixed array beside their counter, because the folder reads
  them after it has set the counter to 0. A pointer to a block or value is its position. The union
  of a value is its 64 bits: \<open>ival\<close> is its signed value, \<open>block_id\<close> its low half. The member
  \<open>name\<close> of a value is always NULL and is left out. The C source spells one enumerator
  \<open>FIR_OP Aggregate\<close> and \<open>FIR_OP_Aggregate\<close>; here it is the latter.
\<close>

subsection \<open>Types\<close>

datatype fir_type =
    FIR_TYPE_VOID | FIR_TYPE_I8 | FIR_TYPE_I16 | FIR_TYPE_I32 | FIR_TYPE_I64 | FIR_TYPE_F32 | FIR_TYPE_F64
  | FIR_TYPE_PTR | FIR_TYPE_FUNC | FIR_TYPE_STRUCT | FIR_TYPE_ARRAY | FIR_TYPE_BOOL | FIR_TYPE_AGENT
  | FIR_TYPE_CAPABILITY | FIR_TYPE_BYTECODE | FIR_TYPE_REGION | FIR_TYPE_ANY

datatype fir_op =
    FIR_OP_CONST | FIR_OP_CONST_F
  | FIR_OP_ADD | FIR_OP_SUB | FIR_OP_MUL | FIR_OP_DIV | FIR_OP_MOD | FIR_OP_NEG | FIR_OP_ABS
  | FIR_OP_AND | FIR_OP_OR | FIR_OP_XOR | FIR_OP_NOT | FIR_OP_SHL | FIR_OP_SHR
  | FIR_OP_EQ | FIR_OP_NE | FIR_OP_LT | FIR_OP_GT | FIR_OP_LE | FIR_OP_GE
  | FIR_OP_JUMP | FIR_OP_BRANCH | FIR_OP_RETURN | FIR_OP_CALL | FIR_OP_PHI
  | FIR_OP_ALLOC | FIR_OP_LOAD | FIR_OP_STORE | FIR_OP_GEP
  | FIR_OP_EXTRACT | FIR_OP_INSERT | FIR_OP_Aggregate
  | FIR_OP_DELEGATE | FIR_OP_TELL | FIR_OP_ASK | FIR_OP_BARRIER | FIR_OP_SPAWN
  | FIR_OP_TILE | FIR_OP_REGION | FIR_OP_COMPOSE | FIR_OP_ADAPT
  | FIR_OP_SYSCALL | FIR_OP_INTRINSIC | FIR_OP_TRAP

text \<open>The values of the enumerators, which the range tests compare.\<close>

fun fir_op_code :: "fir_op \<Rightarrow> nat" where
  "fir_op_code FIR_OP_CONST = 0" | "fir_op_code FIR_OP_CONST_F = 1"
| "fir_op_code FIR_OP_ADD = 10" | "fir_op_code FIR_OP_SUB = 11" | "fir_op_code FIR_OP_MUL = 12"
| "fir_op_code FIR_OP_DIV = 13" | "fir_op_code FIR_OP_MOD = 14" | "fir_op_code FIR_OP_NEG = 15"
| "fir_op_code FIR_OP_ABS = 16"
| "fir_op_code FIR_OP_AND = 20" | "fir_op_code FIR_OP_OR = 21" | "fir_op_code FIR_OP_XOR = 22"
| "fir_op_code FIR_OP_NOT = 23" | "fir_op_code FIR_OP_SHL = 24" | "fir_op_code FIR_OP_SHR = 25"
| "fir_op_code FIR_OP_EQ = 30" | "fir_op_code FIR_OP_NE = 31" | "fir_op_code FIR_OP_LT = 32"
| "fir_op_code FIR_OP_GT = 33" | "fir_op_code FIR_OP_LE = 34" | "fir_op_code FIR_OP_GE = 35"
| "fir_op_code FIR_OP_JUMP = 40" | "fir_op_code FIR_OP_BRANCH = 41" | "fir_op_code FIR_OP_RETURN = 42"
| "fir_op_code FIR_OP_CALL = 43" | "fir_op_code FIR_OP_PHI = 44"
| "fir_op_code FIR_OP_ALLOC = 50" | "fir_op_code FIR_OP_LOAD = 51" | "fir_op_code FIR_OP_STORE = 52"
| "fir_op_code FIR_OP_GEP = 53"
| "fir_op_code FIR_OP_EXTRACT = 60" | "fir_op_code FIR_OP_INSERT = 61" | "fir_op_code FIR_OP_Aggregate = 62"
| "fir_op_code FIR_OP_DELEGATE = 70" | "fir_op_code FIR_OP_TELL = 71" | "fir_op_code FIR_OP_ASK = 72"
| "fir_op_code FIR_OP_BARRIER = 73" | "fir_op_code FIR_OP_SPAWN = 74"
| "fir_op_code FIR_OP_TILE = 80" | "fir_op_code FIR_OP_REGION = 81" | "fir_op_code FIR_OP_COMPOSE = 82"
| "fir_op_code FIR_OP_ADAPT = 83"
| "fir_op_code FIR_OP_SYSCALL = 90" | "fir_op_code FIR_OP_INTRINSIC = 91" | "fir_op_code FIR_OP_TRAP = 92"

text \<open>The names the printer uses.\<close>

fun fir_type_name :: "fir_type \<Rightarrow> string" where
  "fir_type_name FIR_TYPE_VOID = ''void''"
| "fir_type_name FIR_TYPE_I8 = ''i8''"
| "fir_type_name FIR_TYPE_I16 = ''i16''"
| "fir_type_name FIR_TYPE_I32 = ''i32''"
| "fir_type_name FIR_TYPE_I64 = ''i64''"
| "fir_type_name FIR_TYPE_F32 = ''f32''"
| "fir_type_name FIR_TYPE_F64 = ''f64''"
| "fir_type_name FIR_TYPE_PTR = ''ptr''"
| "fir_type_name FIR_TYPE_FUNC = ''func''"
| "fir_type_name FIR_TYPE_STRUCT = ''struct''"
| "fir_type_name FIR_TYPE_ARRAY = ''array''"
| "fir_type_name FIR_TYPE_BOOL = ''bool''"
| "fir_type_name FIR_TYPE_AGENT = ''agent''"
| "fir_type_name FIR_TYPE_CAPABILITY = ''capability''"
| "fir_type_name FIR_TYPE_BYTECODE = ''bytecode''"
| "fir_type_name FIR_TYPE_REGION = ''region''"
| "fir_type_name FIR_TYPE_ANY = ''any''"

fun fir_op_name :: "fir_op \<Rightarrow> string" where
  "fir_op_name FIR_OP_CONST = ''const''"
| "fir_op_name FIR_OP_CONST_F = ''const_f''"
| "fir_op_name FIR_OP_ADD = ''add''"
| "fir_op_name FIR_OP_SUB = ''sub''"
| "fir_op_name FIR_OP_MUL = ''mul''"
| "fir_op_name FIR_OP_DIV = ''div''"
| "fir_op_name FIR_OP_MOD = ''mod''"
| "fir_op_name FIR_OP_NEG = ''neg''"
| "fir_op_name FIR_OP_ABS = ''abs''"
| "fir_op_name FIR_OP_AND = ''and''"
| "fir_op_name FIR_OP_OR = ''or''"
| "fir_op_name FIR_OP_XOR = ''xor''"
| "fir_op_name FIR_OP_NOT = ''not''"
| "fir_op_name FIR_OP_SHL = ''shl''"
| "fir_op_name FIR_OP_SHR = ''shr''"
| "fir_op_name FIR_OP_EQ = ''eq''"
| "fir_op_name FIR_OP_NE = ''ne''"
| "fir_op_name FIR_OP_LT = ''lt''"
| "fir_op_name FIR_OP_GT = ''gt''"
| "fir_op_name FIR_OP_LE = ''le''"
| "fir_op_name FIR_OP_GE = ''ge''"
| "fir_op_name FIR_OP_JUMP = ''jump''"
| "fir_op_name FIR_OP_BRANCH = ''branch''"
| "fir_op_name FIR_OP_RETURN = ''return''"
| "fir_op_name FIR_OP_CALL = ''call''"
| "fir_op_name FIR_OP_PHI = ''phi''"
| "fir_op_name FIR_OP_ALLOC = ''alloc''"
| "fir_op_name FIR_OP_LOAD = ''load''"
| "fir_op_name FIR_OP_STORE = ''store''"
| "fir_op_name FIR_OP_GEP = ''gep''"
| "fir_op_name FIR_OP_EXTRACT = ''extract''"
| "fir_op_name FIR_OP_INSERT = ''insert''"
| "fir_op_name FIR_OP_Aggregate = ''aggregate''"
| "fir_op_name FIR_OP_DELEGATE = ''delegate''"
| "fir_op_name FIR_OP_TELL = ''tell''"
| "fir_op_name FIR_OP_ASK = ''ask''"
| "fir_op_name FIR_OP_BARRIER = ''barrier''"
| "fir_op_name FIR_OP_SPAWN = ''spawn''"
| "fir_op_name FIR_OP_TILE = ''tile''"
| "fir_op_name FIR_OP_REGION = ''region''"
| "fir_op_name FIR_OP_COMPOSE = ''compose''"
| "fir_op_name FIR_OP_ADAPT = ''adapt''"
| "fir_op_name FIR_OP_SYSCALL = ''syscall''"
| "fir_op_name FIR_OP_INTRINSIC = ''intrinsic''"
| "fir_op_name FIR_OP_TRAP = ''trap''"

definition fir_is_constant :: "fir_op \<Rightarrow> bool" where
  "fir_is_constant op \<longleftrightarrow> op = FIR_OP_CONST \<or> op = FIR_OP_CONST_F"

record fir_value =
  fv_id :: u32
  fv_type :: fir_type
  fv_op :: fir_op
  fv_operands :: "nat \<Rightarrow> u32"
  fv_num_operands :: nat
  fv_data :: u64
  fv_phi :: "(u32 \<times> u32) list"

record fir_block =
  fb_id :: u32
  fb_label :: string
  fb_values :: "fir_value list"
  fb_terminator :: u32
  fb_sealed :: bool

record fir_func =
  ff_name :: string
  ff_return_type :: fir_type
  ff_params :: "(fir_type \<times> string) list"
  ff_entry_block :: u32
  ff_blocks :: "fir_block list"
  ff_is_agent :: bool
  ff_is_compiled :: bool
  ff_next_value_id :: u32

record fir_module =
  fm_name :: string
  fm_funcs :: "fir_func list"
  fm_next_func_id :: u32
  fm_next_block_id :: u32

text \<open>The member \<open>block_id\<close> of the union.\<close>

abbreviation fv_block_id :: "fir_value \<Rightarrow> u32" where
  "fv_block_id v \<equiv> ucast (fv_data v)"

text \<open>The operands in use.\<close>

definition operands :: "fir_value \<Rightarrow> u32 list" where
  "operands v = map (fv_operands v) [0..<fv_num_operands v]"

text \<open>Changes of the values of a block, and of the blocks of a function, compose.\<close>

lemma values_frame_trans:
  "x = (b :: fir_block)\<lparr>fb_values := xs\<rparr> \<Longrightarrow> y = x\<lparr>fb_values := ys\<rparr> \<Longrightarrow> y = b\<lparr>fb_values := ys\<rparr>"
  by simp

lemma blocks_frame_trans:
  "g = (f :: fir_func)\<lparr>ff_blocks := xs\<rparr> \<Longrightarrow> h = g\<lparr>ff_blocks := ys\<rparr> \<Longrightarrow> h = f\<lparr>ff_blocks := ys\<rparr>"
  by simp

subsection \<open>The builder\<close>

text \<open>\<open>safe_strcpy\<close> keeps at most \<open>max_len - 1\<close> characters.\<close>

definition safe_strcpy :: "string \<Rightarrow> nat \<Rightarrow> string" where
  "safe_strcpy src max_len = (if max_len \<le> length src then take (max_len - 1) src else src)"

text \<open>\<open>memory\<close> says whether \<open>calloc\<close> has room for the module.\<close>

definition fir_module_create :: "bool \<Rightarrow> string option \<Rightarrow> fir_module option" where
  "fir_module_create memory name =
     (if memory
      then Some \<lparr>fm_name = (case name of Some s \<Rightarrow> safe_strcpy s 128 | None \<Rightarrow> safe_strcpy ''unnamed'' 128),
                 fm_funcs = [], fm_next_func_id = 0, fm_next_block_id = 0\<rparr>
      else None)"

text \<open>The result of \<open>fir_func_create\<close> is the position of the new function, \<open>None\<close> for NULL. The
  variable arguments are the list of parameter types.\<close>

definition fir_func_create ::
  "string option \<Rightarrow> fir_type \<Rightarrow> fir_type list \<Rightarrow> fir_module \<Rightarrow> nat option \<times> fir_module" where
  "fir_func_create name ret_type param_types m =
     (if 64 \<le> length (fm_funcs m) then (None, m)
      else let types = take 16 param_types;
               func = \<lparr>ff_name = (case name of Some s \<Rightarrow> safe_strcpy s 128
                                   | None \<Rightarrow> ''func_'' @ decimal (length (fm_funcs m))),
                       ff_return_type = ret_type,
                       ff_params = map (\<lambda>i. (types ! i, ''arg'' @ decimal i)) [0..<length types],
                       ff_entry_block = 0, ff_blocks = [], ff_is_agent = False, ff_is_compiled = False,
                       ff_next_value_id = of_nat (length types)\<rparr>
           in (Some (length (fm_funcs m)), m\<lparr>fm_funcs := fm_funcs m @ [func]\<rparr>))"

definition fir_block_create :: "string option \<Rightarrow> fir_func \<Rightarrow> nat option \<times> fir_func" where
  "fir_block_create label f =
     (let n = length (ff_blocks f) in
      if 256 \<le> n then (None, f)
      else let block = \<lparr>fb_id = of_nat n,
                        fb_label = (case label of Some s \<Rightarrow> safe_strcpy s 128 | None \<Rightarrow> ''bb'' @ decimal n),
                        fb_values = [], fb_terminator = 0, fb_sealed = False\<rparr>;
               f1 = (if n = 0 then f\<lparr>ff_entry_block := fb_id block\<rparr> else f)
           in (Some n, f1\<lparr>ff_blocks := ff_blocks f1 @ [block]\<rparr>))"

definition fir_is_terminator :: "fir_op \<Rightarrow> bool" where
  "fir_is_terminator op \<longleftrightarrow> op = FIR_OP_JUMP \<or> op = FIR_OP_BRANCH \<or> op = FIR_OP_RETURN"

definition fir_value_create :: "fir_op \<Rightarrow> fir_type \<Rightarrow> u32 list \<Rightarrow> fir_block \<Rightarrow> u32 \<times> fir_block" where
  "fir_value_create op ty ops block =
     (if 1024 \<le> length (fb_values block) then (0xFFFFFFFF, block)
      else let num_ops = min (length ops) 4;
               val = \<lparr>fv_id = fb_id block * 1024 + of_nat (length (fb_values block)), fv_type = ty, fv_op = op,
                      fv_operands = (\<lambda>i. if i < num_ops then ops ! i else 0), fv_num_operands = num_ops,
                      fv_data = 0, fv_phi = []\<rparr>;
               b1 = block\<lparr>fb_values := fb_values block @ [val]\<rparr>
           in (fv_id val,
               if op = FIR_OP_JUMP \<or> op = FIR_OP_BRANCH \<or> op = FIR_OP_RETURN
               then b1\<lparr>fb_terminator := fv_id val, fb_sealed := True\<rparr> else b1))"

text \<open>The first PHI value with the identifier gets the source, if it has room for it.\<close>

fun phi_add :: "u32 \<Rightarrow> u32 \<Rightarrow> u32 \<Rightarrow> fir_value list \<Rightarrow> (fir_value list) option" where
  "phi_add phi src blk [] = None"
| "phi_add phi src blk (v # vs) =
     (if fv_id v = phi \<and> fv_op v = FIR_OP_PHI
      then (if 8 \<le> length (fv_phi v) then None else Some (v\<lparr>fv_phi := fv_phi v @ [(src, blk)]\<rparr> # vs))
      else map_option (\<lambda>ws. v # ws) (phi_add phi src blk vs))"

definition fir_phi_add_source :: "u32 \<Rightarrow> u32 \<Rightarrow> u32 \<Rightarrow> fir_block \<Rightarrow> bool \<times> fir_block" where
  "fir_phi_add_source phi_val_id src_val_id src_block_id block =
     (case phi_add phi_val_id src_val_id src_block_id (fb_values block) of
        None \<Rightarrow> (False, block)
      | Some vs \<Rightarrow> (True, block\<lparr>fb_values := vs\<rparr>))"

subsection \<open>Validation\<close>

text \<open>The first loop over a block: every terminator after another and every terminator that is not
  last counts as an error, and so does a block without one.\<close>

fun terminator_errors :: "bool \<Rightarrow> fir_value list \<Rightarrow> nat" where
  "terminator_errors has_terminator [] = (if has_terminator then 0 else 1)"
| "terminator_errors has_terminator (v # vs) =
     (if fir_is_terminator (fv_op v)
      then (if has_terminator then 1 else 0) + (if vs = [] then 0 else 1) + terminator_errors True vs
      else terminator_errors has_terminator vs)"

definition block_exists :: "fir_func \<Rightarrow> u32 \<Rightarrow> bool" where
  "block_exists f target = list_ex (\<lambda>b. fb_id b = target) (ff_blocks f)"

definition target_errors :: "fir_func \<Rightarrow> fir_value \<Rightarrow> nat" where
  "target_errors f v =
     (if fv_op v = FIR_OP_JUMP \<and> \<not> block_exists f (fv_block_id v) then 1 else 0)
     + (if fv_op v = FIR_OP_BRANCH \<and> 2 \<le> fv_num_operands v
           \<and> \<not> (block_exists f (fv_operands v 1)
               \<and> 3 \<le> fv_num_operands v \<and> block_exists f (fv_operands v 2)) then 1 else 0)"

definition phi_errors :: "fir_func \<Rightarrow> fir_value \<Rightarrow> nat" where
  "phi_errors f v =
     (if fv_op v = FIR_OP_PHI then length (filter (\<lambda>(src, blk). \<not> block_exists f blk) (fv_phi v)) else 0)"

definition block_errors :: "fir_func \<Rightarrow> fir_block \<Rightarrow> nat" where
  "block_errors f b = terminator_errors False (fb_values b)
     + sum_list (map (target_errors f) (fb_values b)) + sum_list (map (phi_errors f) (fb_values b))"

text \<open>A NULL function is \<open>None\<close>. The count stays far below the range of \<open>int\<close>.\<close>

definition fir_validate_func :: "fir_func option \<Rightarrow> int" where
  "fir_validate_func func =
     (case func of
        None \<Rightarrow> -1
      | Some f \<Rightarrow>
          if ff_blocks f = [] then 1
          else int (sum_list (map (block_errors f) (ff_blocks f)))
               + (if of_nat (length (ff_blocks f)) \<le> ff_entry_block f then 1 else 0))"

definition fir_validate :: "fir_module option \<Rightarrow> bool" where
  "fir_validate m =
     (case m of
        None \<Rightarrow> False
      | Some m \<Rightarrow> \<not> list_ex (\<lambda>f. 0 < fir_validate_func (Some f)) (fm_funcs m))"

subsection \<open>Uses of a value\<close>

definition uses_value :: "u32 \<Rightarrow> fir_value \<Rightarrow> bool" where
  "uses_value val_id v \<longleftrightarrow>
     val_id \<in> set (operands v)
     \<or> val_id \<in> set (map fst (fv_phi v))
     \<or> fv_op v = FIR_OP_BRANCH \<and> 2 \<le> fv_num_operands v \<and> fv_operands v 1 = val_id
     \<or> fv_op v = FIR_OP_BRANCH \<and> 3 \<le> fv_num_operands v \<and> fv_operands v 2 = val_id"

definition value_is_used :: "fir_func \<Rightarrow> u32 \<Rightarrow> bool" where
  "value_is_used f val_id = list_ex (\<lambda>b. list_ex (uses_value val_id) (fb_values b)) (ff_blocks f)"

text \<open>All values of a function, in the order of the nested loops.\<close>

definition all_values :: "fir_func \<Rightarrow> fir_value list" where
  "all_values f = concat (map fb_values (ff_blocks f))"

definition find_value_in_func :: "fir_func \<Rightarrow> u32 \<Rightarrow> fir_value option" where
  "find_value_in_func f val_id = find (\<lambda>v. fv_id v = val_id) (all_values f)"

definition get_const_int :: "fir_func \<Rightarrow> u32 \<Rightarrow> u64 option" where
  "get_const_int f val_id =
     map_option fv_data (find (\<lambda>v. fv_id v = val_id \<and> fv_op v = FIR_OP_CONST) (all_values f))"

definition get_const_float :: "fir_func \<Rightarrow> u32 \<Rightarrow> u64 option" where
  "get_const_float f val_id =
     map_option fv_data (find (\<lambda>v. fv_id v = val_id \<and> fv_op v = FIR_OP_CONST_F) (all_values f))"

definition map_values :: "(fir_value \<Rightarrow> fir_value) \<Rightarrow> fir_func \<Rightarrow> fir_func" where
  "map_values g f = f\<lparr>ff_blocks := map (\<lambda>b. b\<lparr>fb_values := map g (fb_values b)\<rparr>) (ff_blocks f)\<rparr>"

definition replace_in_value :: "u32 \<Rightarrow> u32 \<Rightarrow> fir_value \<Rightarrow> fir_value" where
  "replace_in_value old_id new_id v =
     v\<lparr>fv_operands := (\<lambda>i. if i < fv_num_operands v \<and> fv_operands v i = old_id then new_id else fv_operands v i),
       fv_phi := map (\<lambda>(src, blk). (if src = old_id then new_id else src, blk)) (fv_phi v)\<rparr>"

definition replace_uses :: "u32 \<Rightarrow> u32 \<Rightarrow> fir_func \<Rightarrow> fir_func" where
  "replace_uses old_id new_id = map_values (replace_in_value old_id new_id)"

end
