(* ===== verification/FluxFirOpt.thy ===== *)
theory FluxFirOpt
  imports FluxFir
begin

section \<open>The optimisation passes (fluxc/fir.c)\<close>

text \<open>
  Dead code elimination and constant folding as fluxc/fir.c performs them: passes over all values
  that are repeated until one reports no change. The first removes a value per repetition and is a
  total function. The second may go on for ever, so that it is a \<open>partial_function\<close> whose value
  \<open>None\<close> means that it does not return. Signed overflow in the folder is \<open>UB\<close>.
\<close>

subsection \<open>Dead code elimination\<close>

text \<open>Calls, stores and the other operations with side effects stay.\<close>

definition has_side_effect :: "fir_op \<Rightarrow> bool" where
  "has_side_effect op \<longleftrightarrow>
     op = FIR_OP_CALL \<or> op = FIR_OP_STORE \<or> op = FIR_OP_SYSCALL \<or> op = FIR_OP_INTRINSIC \<or>
     op = FIR_OP_TRAP \<or> op = FIR_OP_DELEGATE \<or> op = FIR_OP_TELL \<or> op = FIR_OP_ASK \<or>
     op = FIR_OP_SPAWN \<or> op = FIR_OP_BARRIER"

definition remove_value :: "nat \<Rightarrow> nat \<Rightarrow> fir_func \<Rightarrow> fir_func" where
  "remove_value b v f =
     (let block = ff_blocks f ! b in
      f\<lparr>ff_blocks := (ff_blocks f)
          [b := block\<lparr>fb_values := take v (fb_values block) @ drop (Suc v) (fb_values block)\<rparr>]\<rparr>)"

abbreviation value_at :: "fir_func \<Rightarrow> nat \<Rightarrow> nat \<Rightarrow> fir_value" where
  "value_at f b v \<equiv> fb_values (ff_blocks f ! b) ! v"

text \<open>A position of a value.\<close>

definition in_func :: "fir_func \<Rightarrow> nat \<Rightarrow> nat \<Rightarrow> bool" where
  "in_func f b v \<longleftrightarrow> b < length (ff_blocks f) \<and> v < length (fb_values (ff_blocks f ! b))"

definition dead_at :: "fir_func \<Rightarrow> nat \<Rightarrow> nat \<Rightarrow> bool" where
  "dead_at f b v =
     (let val = value_at f b v in
      \<not> fir_is_terminator (fv_op val) \<and> \<not> has_side_effect (fv_op val) \<and> \<not> value_is_used f (fv_id val))"

text \<open>One block, from its last value down to its first.\<close>

fun dce_values :: "nat \<Rightarrow> nat \<Rightarrow> bool \<times> fir_func \<Rightarrow> bool \<times> fir_func" where
  "dce_values b 0 (changed, f) = (changed, f)"
| "dce_values b (Suc v) (changed, f) =
     (if dead_at f b v then dce_values b v (True, remove_value b v f) else dce_values b v (changed, f))"

definition dce_block :: "nat \<Rightarrow> bool \<times> fir_func \<Rightarrow> bool \<times> fir_func" where
  "dce_block b st = dce_values b (length (fb_values (ff_blocks (snd st) ! b))) st"

definition dce_pass :: "fir_func \<Rightarrow> bool \<times> fir_func" where
  "dce_pass f = fold dce_block [0..<length (ff_blocks f)] (False, f)"

definition total_values :: "fir_func \<Rightarrow> nat" where
  "total_values f = sum_list (map (\<lambda>b. length (fb_values b)) (ff_blocks f))"

lemma remove_value_blocks [simp]: "length (ff_blocks (remove_value b v f)) = length (ff_blocks f)"
  by (simp add: remove_value_def Let_def)

lemma total_remove:
  assumes "b < length (ff_blocks f)" "v < length (fb_values (ff_blocks f ! b))"
  shows "Suc (total_values (remove_value b v f)) = total_values f"
proof -
  let ?b = "ff_blocks f ! b" and ?len = "\<lambda>b :: fir_block. length (fb_values b)"
  let ?b' = "?b\<lparr>fb_values := take v (fb_values ?b) @ drop (Suc v) (fb_values ?b)\<rparr>"
  have "sum_list (map ?len (ff_blocks f))
      = sum_list (map ?len (take b (ff_blocks f))) + ?len ?b + sum_list (map ?len (drop (Suc b) (ff_blocks f)))"
    by (subst id_take_nth_drop [OF assms(1)]) simp
  moreover have "sum_list (map ?len ((ff_blocks f)[b := ?b']))
      = sum_list (map ?len (take b (ff_blocks f))) + ?len ?b' + sum_list (map ?len (drop (Suc b) (ff_blocks f)))"
    by (simp add: upd_conv_take_nth_drop [OF assms(1)])
  moreover have "Suc (?len ?b') = ?len ?b" using assms(2) by simp
  ultimately show ?thesis by (simp add: total_values_def remove_value_def Let_def)
qed

text \<open>What a sequence of removals does to the counters: \<open>shrinks\<close> relates the states before and
  after, and a reported change means that a value went.\<close>

definition shrinks :: "bool \<times> fir_func \<Rightarrow> bool \<times> fir_func \<Rightarrow> bool" where
  "shrinks st st' \<longleftrightarrow> length (ff_blocks (snd st')) = length (ff_blocks (snd st))
     \<and> total_values (snd st') \<le> total_values (snd st)
     \<and> (fst st' \<and> \<not> fst st \<longrightarrow> total_values (snd st') < total_values (snd st))"

lemma shrinks_refl: "shrinks st st"
  by (simp add: shrinks_def)

lemma shrinks_trans: "shrinks st st' \<Longrightarrow> shrinks st' st'' \<Longrightarrow> shrinks st st''"
  by (auto simp: shrinks_def)

lemma remaining_values:
  "b < length (ff_blocks f) \<Longrightarrow> v < length (fb_values (ff_blocks f ! b)) \<Longrightarrow>
   fb_values (ff_blocks (remove_value b v f) ! b) = take v (fb_values (ff_blocks f ! b)) @ drop (Suc v) (fb_values (ff_blocks f ! b))"
  by (simp add: remove_value_def Let_def)

lemma dce_values_shrinks:
  "b < length (ff_blocks (snd st)) \<Longrightarrow> n \<le> length (fb_values (ff_blocks (snd st) ! b)) \<Longrightarrow>
   shrinks st (dce_values b n st)"
proof (induction b n st rule: dce_values.induct)
  case (2 b v changed f)
  show ?case
  proof (cases "dead_at f b v")
    case True
    have "shrinks (changed, f) (True, remove_value b v f)"
      using total_remove [of b f v] 2(3,4) by (simp add: shrinks_def)
    moreover have "shrinks (True, remove_value b v f) (dce_values b v (True, remove_value b v f))"
      by (rule 2(1) [OF True]) (use 2(3,4) in \<open>simp_all add: remaining_values\<close>)
    ultimately show ?thesis using True shrinks_trans by simp
  next
    case False
    then show ?thesis using 2 by simp
  qed
qed (simp add: shrinks_refl)

lemma dce_fold_shrinks:
  "\<forall>b \<in> set bs. b < length (ff_blocks (snd st)) \<Longrightarrow> shrinks st (fold dce_block bs st)"
proof (induction bs arbitrary: st)
  case (Cons b bs)
  have s: "shrinks st (dce_block b st)" unfolding dce_block_def by (rule dce_values_shrinks) (use Cons.prems in simp_all)
  moreover have "shrinks (dce_block b st) (fold dce_block bs (dce_block b st))"
    by (rule Cons.IH) (use Cons.prems s in \<open>auto simp: shrinks_def\<close>)
  ultimately show ?case using shrinks_trans by simp
qed (simp add: shrinks_refl)

lemma dce_pass_shrinks: "shrinks (False, f) (dce_pass f)"
  unfolding dce_pass_def by (rule dce_fold_shrinks) simp

lemma dce_pass_change: "(True, f') = dce_pass f \<Longrightarrow> total_values f' < total_values f"
  using dce_pass_shrinks [of f] by (cases "dce_pass f") (simp add: shrinks_def)

function fir_dead_code_elim :: "fir_func \<Rightarrow> fir_func" where
  "fir_dead_code_elim f = (case dce_pass f of (changed, f') \<Rightarrow> if changed then fir_dead_code_elim f' else f')"
  by auto
termination by (relation "measure total_values") (auto dest: dce_pass_change)

declare fir_dead_code_elim.simps [simp del]

subsection \<open>Constant folding\<close>

text \<open>Running a loop body over a list of positions, stopping at undefined behaviour.\<close>

fun cfold :: "('a \<Rightarrow> 's \<Rightarrow> 's cres) \<Rightarrow> 'a list \<Rightarrow> 's \<Rightarrow> 's cres" where
  "cfold g [] s = Val s"
| "cfold g (x # xs) s = cbind (g x s) (cfold g xs)"

definition fir_is_binary_arith :: "fir_op \<Rightarrow> bool" where
  "fir_is_binary_arith op \<longleftrightarrow> fir_op_code FIR_OP_ADD \<le> fir_op_code op \<and> fir_op_code op \<le> fir_op_code FIR_OP_ABS"

definition fir_is_binary_bitwise :: "fir_op \<Rightarrow> bool" where
  "fir_is_binary_bitwise op \<longleftrightarrow> fir_op_code FIR_OP_AND \<le> fir_op_code op \<and> fir_op_code op \<le> fir_op_code FIR_OP_SHR"

definition fir_is_comparison :: "fir_op \<Rightarrow> bool" where
  "fir_is_comparison op \<longleftrightarrow> fir_op_code FIR_OP_EQ \<le> fir_op_code op \<and> fir_op_code op \<le> fir_op_code FIR_OP_GE"

text \<open>The switches over the operation: \<open>None\<close> is \<open>valid = false\<close>. The left operand of a shift to the
  left has to be nonnegative and the result has to fit.\<close>

definition arith_result :: "fir_op \<Rightarrow> u64 \<Rightarrow> u64 \<Rightarrow> u64 option cres" where
  "arith_result op a b =
     (if op = FIR_OP_ADD then cmap Some (s64 (sint a + sint b))
      else if op = FIR_OP_SUB then cmap Some (s64 (sint a - sint b))
      else if op = FIR_OP_MUL then cmap Some (s64 (sint a * sint b))
      else if op = FIR_OP_DIV then (if b = 0 then Val None else cmap Some (s64 (sint a sdiv sint b)))
      else if op = FIR_OP_MOD then (if b = 0 then Val None
        else cbind (s64 (sint a sdiv sint b)) (\<lambda>_. cmap Some (s64 (sint a smod sint b))))
      else if op = FIR_OP_NEG then cmap Some (s64 (- sint a))
      else if op = FIR_OP_ABS then cmap Some (if sint a < 0 then s64 (- sint a) else Val a)
      else Val None)"

definition bitwise_result :: "fir_op \<Rightarrow> u64 \<Rightarrow> u64 \<Rightarrow> u64 option cres" where
  "bitwise_result op a b =
     (if op = FIR_OP_AND then Val (Some (a AND b))
      else if op = FIR_OP_OR then Val (Some (a OR b))
      else if op = FIR_OP_XOR then Val (Some (a XOR b))
      else if op = FIR_OP_SHL then
        (if sint a < 0 then UB BadShift else cmap Some (s64 (sint a * 2 ^ unat (b AND 63))))
      else if op = FIR_OP_SHR then Val (Some (signed_drop_bit (unat (b AND 63)) a))
      else if op = FIR_OP_NOT then Val (Some (NOT a))
      else Val None)"

definition compare_result :: "fir_op \<Rightarrow> u64 \<Rightarrow> u64 \<Rightarrow> u64 option cres" where
  "compare_result op a b = Val (Some (of_bool
     (if op = FIR_OP_EQ then a = b
      else if op = FIR_OP_NE then a \<noteq> b
      else if op = FIR_OP_LT then sint a < sint b
      else if op = FIR_OP_GT then sint b < sint a
      else if op = FIR_OP_LE then sint a \<le> sint b
      else if op = FIR_OP_GE then sint b \<le> sint a
      else False)))"

definition upd_value :: "nat \<Rightarrow> nat \<Rightarrow> (fir_value \<Rightarrow> fir_value) \<Rightarrow> fir_func \<Rightarrow> fir_func" where
  "upd_value b v g f =
     (let block = ff_blocks f ! b in
      f\<lparr>ff_blocks := (ff_blocks f)
          [b := block\<lparr>fb_values := (fb_values block)[v := g (fb_values block ! v)]\<rparr>]\<rparr>)"

text \<open>The value becomes the constant \<open>r\<close>.\<close>

definition set_const :: "nat \<Rightarrow> nat \<Rightarrow> u64 \<Rightarrow> fir_func \<Rightarrow> fir_func" where
  "set_const b v r = upd_value b v (\<lambda>x. x\<lparr>fv_op := FIR_OP_CONST, fv_data := r, fv_num_operands := 0\<rparr>)"

text \<open>The first three tests share one shape: an operation of the class with two constant operands.\<close>

definition fold_binary ::
  "(fir_op \<Rightarrow> bool) \<Rightarrow> (fir_op \<Rightarrow> u64 \<Rightarrow> u64 \<Rightarrow> u64 option cres) \<Rightarrow> nat \<Rightarrow> nat \<Rightarrow> bool \<times> fir_func \<Rightarrow> (bool \<times> fir_func) cres" where
  "fold_binary test result b v st =
     (let f = snd st; val = value_at f b v in
      if test (fv_op val) \<and> 2 \<le> fv_num_operands val
      then (case get_const_int f (fv_operands val 0) of
              None \<Rightarrow> Val st
            | Some x \<Rightarrow> (case get_const_int f (fv_operands val 1) of
                None \<Rightarrow> Val st
              | Some y \<Rightarrow> cmap (\<lambda>r. case r of None \<Rightarrow> st | Some c \<Rightarrow> (True, set_const b v c f))
                               (result (fv_op val) x y)))
      else Val st)"

definition fold_negation :: "nat \<Rightarrow> nat \<Rightarrow> bool \<times> fir_func \<Rightarrow> (bool \<times> fir_func) cres" where
  "fold_negation b v st =
     (let f = snd st; val = value_at f b v in
      if fv_op val = FIR_OP_NEG \<and> 1 \<le> fv_num_operands val
      then (case get_const_int f (fv_operands val 0) of
              None \<Rightarrow> Val st
            | Some x \<Rightarrow> cmap (\<lambda>c. (True, set_const b v c f)) (s64 (- sint x)))
      else Val st)"

text \<open>The algebraic simplifications. The two halves look at the right and at the left operand;
  \<open>others\<close> lists the operations for which 0 on this side is neutral.\<close>

definition forward :: "nat \<Rightarrow> nat \<Rightarrow> nat \<Rightarrow> fir_func \<Rightarrow> fir_func" where
  "forward b v k f = replace_uses (fv_id (value_at f b v)) (fv_operands (value_at f b v) k) f"

definition simplify_side ::
  "nat \<Rightarrow> nat \<Rightarrow> fir_op list \<Rightarrow> nat \<Rightarrow> nat \<Rightarrow> bool \<times> fir_func \<Rightarrow> bool \<times> fir_func" where
  "simplify_side const_side keep_side others b v st =
     (case get_const_int (snd st) (fv_operands (value_at (snd st) b v) const_side) of
        None \<Rightarrow> st
      | Some c \<Rightarrow>
          let st1 = (if fv_op (value_at (snd st) b v) \<in> set others \<and> c = 0
                     then (True, forward b v keep_side (snd st)) else st);
              st2 = (if fv_op (value_at (snd st1) b v) = FIR_OP_MUL \<and> c = 1
                     then (True, forward b v keep_side (snd st1)) else st1)
          in (if fv_op (value_at (snd st2) b v) = FIR_OP_MUL \<and> c = 0
              then (True, set_const b v 0 (snd st2)) else st2))"

definition fold_algebra :: "nat \<Rightarrow> nat \<Rightarrow> bool \<times> fir_func \<Rightarrow> (bool \<times> fir_func) cres" where
  "fold_algebra b v st =
     (if 2 \<le> fv_num_operands (value_at (snd st) b v)
      then Val (simplify_side 0 1 [FIR_OP_ADD] b v
             (simplify_side 1 0 [FIR_OP_ADD, FIR_OP_SUB] b v st))
      else Val st)"

definition fold_value :: "nat \<Rightarrow> nat \<Rightarrow> bool \<times> fir_func \<Rightarrow> (bool \<times> fir_func) cres" where
  "fold_value b v st =
     cbind (fold_binary fir_is_binary_arith arith_result b v st) (\<lambda>st.
     cbind (fold_binary fir_is_binary_bitwise bitwise_result b v st) (\<lambda>st.
     cbind (fold_binary fir_is_comparison compare_result b v st) (\<lambda>st.
     cbind (fold_negation b v st) (fold_algebra b v))))"

definition fold_block :: "nat \<Rightarrow> bool \<times> fir_func \<Rightarrow> (bool \<times> fir_func) cres" where
  "fold_block b st = cfold (fold_value b) [0..<length (fb_values (ff_blocks (snd st) ! b))] st"

definition fold_pass :: "fir_func \<Rightarrow> (bool \<times> fir_func) cres" where
  "fold_pass f = cfold fold_block [0..<length (ff_blocks f)] (False, f)"

partial_function (option) fir_constant_fold :: "fir_func \<Rightarrow> fir_func cres option" where
  "fir_constant_fold f =
     (case fold_pass f of
        UB u \<Rightarrow> Some (UB u)
      | Val st \<Rightarrow> if fst st then fir_constant_fold (snd st) else Some (Val (snd st)))"

subsection \<open>The driver\<close>

text \<open>\<open>fir_optimize\<close> for one function and for the module. Level 3 differs from level 2 in a call of
  \<open>fir_inline_small\<close>, which only sets a member \<open>is_compiled\<close> of CALL values; \<open>fir_value_t\<close> has no such
  member, so the call is left out.\<close>

definition fold_then_dce :: "fir_func \<Rightarrow> fir_func cres option" where
  "fold_then_dce f = map_option (cmap fir_dead_code_elim) (fir_constant_fold f)"

fun again :: "nat \<Rightarrow> fir_func cres \<Rightarrow> fir_func cres option" where
  "again 0 r = Some r"
| "again (Suc n) (UB u) = Some (UB u)"
| "again (Suc n) (Val f) = Option.bind (fold_then_dce f) (again n)"

definition optimize_func :: "int \<Rightarrow> fir_func \<Rightarrow> (int \<times> fir_func) cres option" where
  "optimize_func level f =
     Option.bind (fold_then_dce f) (\<lambda>r. case r of
        UB u \<Rightarrow> Some (UB u)
      | Val f1 \<Rightarrow> map_option (cmap (\<lambda>f2. (int (total_values f) - int (total_values f1), f2)))
                            (if 2 \<le> level then again 3 (Val f1) else Some (Val f1)))"

fun optimize_funcs :: "int \<Rightarrow> fir_func list \<Rightarrow> (int \<times> fir_func list) cres option" where
  "optimize_funcs level [] = Some (Val (0, []))"
| "optimize_funcs level (f # fs) =
     Option.bind (optimize_func level f) (\<lambda>r. case r of
        UB u \<Rightarrow> Some (UB u)
      | Val (n, f') \<Rightarrow> map_option (cmap (\<lambda>(m, fs'). (n + m, f' # fs'))) (optimize_funcs level fs))"

definition fir_optimize :: "fir_module option \<Rightarrow> int \<Rightarrow> (int \<times> fir_module option) cres option" where
  "fir_optimize m level =
     (case m of
        None \<Rightarrow> Some (Val (-1, None))
      | Some m \<Rightarrow>
          if level = 0 then Some (Val (0, Some m))
          else map_option (cmap (\<lambda>(n, fs). (n, Some (m\<lparr>fm_funcs := fs\<rparr>)))) (optimize_funcs level (fm_funcs m)))"

end
