(* ===== verification/FluxFirProps.thy ===== *)
theory FluxFirProps
  imports FluxFirOpt
begin

section \<open>Validation, dead code elimination and the identifiers of values\<close>

text \<open>
  What \<open>fir_validate_func\<close> accepts, what \<open>fir_dead_code_elim\<close> leaves, and which identifiers the
  builder hands out.
\<close>

subsection \<open>Deleting from a list\<close>

text \<open>\<open>del D xs ys\<close>: \<open>ys\<close> is \<open>xs\<close> without some of its elements, all of them with \<open>D\<close>.\<close>

inductive del :: "('a \<Rightarrow> bool) \<Rightarrow> 'a list \<Rightarrow> 'a list \<Rightarrow> bool" for D where
  del_nil: "del D [] []"
| del_keep: "del D xs ys \<Longrightarrow> del D (x # xs) (x # ys)"
| del_drop: "D x \<Longrightarrow> del D xs ys \<Longrightarrow> del D (x # xs) ys"

inductive_cases del_nilE: "del D [] ys"
inductive_cases del_consE: "del D (x # xs) ys"

lemma del_refl [simp]: "del D xs xs"
  by (induction xs) (auto intro: del.intros)

lemma del_mono: "del D xs ys \<Longrightarrow> (\<And>x. D x \<Longrightarrow> E x) \<Longrightarrow> del E xs ys"
  by (induction rule: del.induct) (auto intro: del.intros)

lemma del_trans: "del D xs ys \<Longrightarrow> del D ys zs \<Longrightarrow> del D xs zs"
proof (induction arbitrary: zs rule: del.induct)
  case (del_keep xs ys x)
  from del_keep.prems show ?case by (rule del_consE) (auto intro: del.intros del_keep.IH)
qed (auto intro: del.intros)

lemma del_set: "del D xs ys \<Longrightarrow> set ys \<subseteq> set xs"
  by (induction rule: del.induct) auto

lemma del_remove: "v < length xs \<Longrightarrow> D (xs ! v) \<Longrightarrow> del D xs (take v xs @ drop (Suc v) xs)"
proof (induction xs arbitrary: v)
  case (Cons x xs)
  then show ?case by (cases v) (auto intro: del.intros)
qed simp

lemma del_filter: "del D xs ys \<Longrightarrow> \<forall>y \<in> set ys. \<not> D y \<Longrightarrow> ys = filter (\<lambda>x. \<not> D x) xs"
  by (induction rule: del.induct) auto

subsection \<open>Dead code elimination\<close>

text \<open>Values the elimination never removes.\<close>

definition stays :: "fir_value \<Rightarrow> bool" where
  "stays v \<longleftrightarrow> fir_is_terminator (fv_op v) \<or> has_side_effect (fv_op v)"

abbreviation useless :: "fir_func \<Rightarrow> fir_value \<Rightarrow> bool" where
  "useless f v \<equiv> \<not> stays v \<and> \<not> value_is_used f (fv_id v)"

definition prunes :: "fir_func \<Rightarrow> fir_func \<Rightarrow> bool" where
  "prunes f f' \<longleftrightarrow> f' = f\<lparr>ff_blocks := ff_blocks f'\<rparr> \<and> length (ff_blocks f') = length (ff_blocks f)
     \<and> (\<forall>b < length (ff_blocks f). ff_blocks f' ! b = (ff_blocks f ! b)\<lparr>fb_values := fb_values (ff_blocks f' ! b)\<rparr>
          \<and> del (useless f') (fb_values (ff_blocks f ! b)) (fb_values (ff_blocks f' ! b)))"

lemma value_is_used_nth: "value_is_used f x \<longleftrightarrow>
    (\<exists>b < length (ff_blocks f). \<exists>v \<in> set (fb_values (ff_blocks f ! b)). uses_value x v)"
  unfolding value_is_used_def list_ex_iff by (metis in_set_conv_nth)

lemma used_shrinks:
  assumes "length (ff_blocks f') = length (ff_blocks f)"
    "\<And>b. b < length (ff_blocks f) \<Longrightarrow> set (fb_values (ff_blocks f' ! b)) \<subseteq> set (fb_values (ff_blocks f ! b))"
    "value_is_used f' x"
  shows "value_is_used f x"
  using assms unfolding value_is_used_nth by (metis subsetD)

lemma prunes_used: "prunes f f' \<Longrightarrow> value_is_used f' x \<Longrightarrow> value_is_used f x"
  by (rule used_shrinks) (auto simp: prunes_def dest: del_set)

lemma prunes_length: "prunes f f' \<Longrightarrow> length (ff_blocks f') = length (ff_blocks f)"
  unfolding prunes_def by (elim conjE)

lemma prunes_refl: "prunes f f"
  by (simp add: prunes_def)

lemma prunes_trans:
  assumes "prunes f g" "prunes g h" shows "prunes f h"
proof -
  have "del (useless h) (fb_values (ff_blocks f ! b)) (fb_values (ff_blocks h ! b))" if "b < length (ff_blocks f)" for b
  proof (rule del_trans)
    show "del (useless h) (fb_values (ff_blocks f ! b)) (fb_values (ff_blocks g ! b))"
      using assms(1) that by (auto simp: prunes_def intro: del_mono dest: prunes_used [OF assms(2)])
    show "del (useless h) (fb_values (ff_blocks g ! b)) (fb_values (ff_blocks h ! b))"
      using assms that by (simp add: prunes_def)
  qed
  moreover have "ff_blocks h ! b = (ff_blocks f ! b)\<lparr>fb_values := fb_values (ff_blocks h ! b)\<rparr>" if "b < length (ff_blocks f)" for b
    by (rule values_frame_trans [where x = "ff_blocks g ! b" and xs = "fb_values (ff_blocks g ! b)"]) (use assms that in \<open>simp_all add: prunes_def\<close>)
  moreover have "h = f\<lparr>ff_blocks := ff_blocks h\<rparr>"
    by (rule blocks_frame_trans [where g = g and xs = "ff_blocks g"]) (use assms in \<open>simp_all add: prunes_def\<close>)
  ultimately show ?thesis using assms by (simp add: prunes_def)
qed

lemma prunes_remove:
  assumes "in_func f b v" "dead_at f b v"
  shows "prunes f (remove_value b v f)"
proof -
  let ?f = "remove_value b v f"
  have k: "fb_values (ff_blocks ?f ! c) = (if c = b then take v (fb_values (ff_blocks f ! b)) @ drop (Suc v) (fb_values (ff_blocks f ! b))
      else fb_values (ff_blocks f ! c))" if "c < length (ff_blocks f)" for c
    using assms(1) by (simp add: remove_value_def Let_def in_func_def nth_list_update)
  have "value_is_used ?f x \<Longrightarrow> value_is_used f x" for x
    by (rule used_shrinks) (auto simp: k dest: in_set_takeD in_set_dropD)
  then have "useless ?f (value_at f b v)"
    using assms(2) by (auto simp: dead_at_def stays_def Let_def)
  then have "del (useless ?f) (fb_values (ff_blocks f ! c)) (fb_values (ff_blocks ?f ! c))" if "c < length (ff_blocks f)" for c
    using assms(1) that by (auto simp: k in_func_def intro: del_remove)
  then show ?thesis using assms(1)
    by (simp add: prunes_def) (simp add: remove_value_def Let_def nth_list_update in_func_def)
qed

lemma dce_values_spec:
  "b < length (ff_blocks (snd st)) \<Longrightarrow> n \<le> length (fb_values (ff_blocks (snd st) ! b)) \<Longrightarrow>
   prunes (snd st) (snd (dce_values b n st)) \<and> (fst st \<longrightarrow> fst (dce_values b n st))
   \<and> (\<not> fst (dce_values b n st) \<longrightarrow> snd (dce_values b n st) = snd st \<and> (\<forall>v < n. \<not> dead_at (snd st) b v))"
proof (induction b n st rule: dce_values.induct)
  case (2 b v changed f)
  show ?case
  proof (cases "dead_at f b v")
    case True
    let ?f = "remove_value b v f"
    have p: "prunes f ?f" by (rule prunes_remove) (use 2(3,4) True in \<open>simp_all add: in_func_def\<close>)
    have "prunes ?f (snd (dce_values b v (True, ?f))) \<and> fst (dce_values b v (True, ?f))"
      using 2(1) [OF True] 2(3,4) by (simp add: remaining_values)
    then show ?thesis using True prunes_trans [OF p] by simp
  next
    case False
    then show ?thesis using 2 by (auto simp: less_Suc_eq)
  qed
qed (simp add: prunes_refl)

lemma dce_block_spec:
  "b < length (ff_blocks (snd st)) \<Longrightarrow> prunes (snd st) (snd (dce_block b st)) \<and> (fst st \<longrightarrow> fst (dce_block b st))
   \<and> (\<not> fst (dce_block b st) \<longrightarrow> snd (dce_block b st) = snd st
        \<and> (\<forall>v < length (fb_values (ff_blocks (snd st) ! b)). \<not> dead_at (snd st) b v))"
  unfolding dce_block_def by (rule dce_values_spec) simp_all

lemma dce_fold_spec:
  "\<forall>b \<in> set bs. b < length (ff_blocks (snd st)) \<Longrightarrow>
   prunes (snd st) (snd (fold dce_block bs st)) \<and> (fst st \<longrightarrow> fst (fold dce_block bs st))
   \<and> (\<not> fst (fold dce_block bs st) \<longrightarrow> snd (fold dce_block bs st) = snd st
        \<and> (\<forall>b \<in> set bs. \<forall>v < length (fb_values (ff_blocks (snd st) ! b)). \<not> dead_at (snd st) b v))"
proof (induction bs arbitrary: st)
  case (Cons b bs)
  let ?st = "dce_block b st"
  have s: "prunes (snd st) (snd ?st)" "fst st \<longrightarrow> fst ?st"
    "\<not> fst ?st \<longrightarrow> snd ?st = snd st \<and> (\<forall>v < length (fb_values (ff_blocks (snd st) ! b)). \<not> dead_at (snd st) b v)"
    using dce_block_spec [of b st] Cons.prems by simp_all
  have "length (ff_blocks (snd ?st)) = length (ff_blocks (snd st))" using s(1) by (simp add: prunes_def)
  then have i: "prunes (snd ?st) (snd (fold dce_block bs ?st))" "fst ?st \<longrightarrow> fst (fold dce_block bs ?st)"
    "\<not> fst (fold dce_block bs ?st) \<longrightarrow> snd (fold dce_block bs ?st) = snd ?st
       \<and> (\<forall>c \<in> set bs. \<forall>v < length (fb_values (ff_blocks (snd ?st) ! c)). \<not> dead_at (snd ?st) c v)"
    using Cons.IH [of ?st] Cons.prems by simp_all
  show ?case using s i prunes_trans [OF s(1) i(1)] by auto
qed (simp add: prunes_refl)

lemma dce_pass_spec:
  "prunes f (snd (dce_pass f))" "\<not> fst (dce_pass f) \<Longrightarrow> snd (dce_pass f) = f"
  "\<not> fst (dce_pass f) \<Longrightarrow> in_func f b v \<Longrightarrow> \<not> dead_at f b v"
  using dce_fold_spec [of "[0..<length (ff_blocks f)]" "(False, f)"]
  by (auto simp: dce_pass_def in_func_def)

lemma dce_prunes: "prunes f (fir_dead_code_elim f) \<and> \<not> fst (dce_pass (fir_dead_code_elim f))"
proof (induction f rule: fir_dead_code_elim.induct)
  case (1 f)
  obtain ch f' where p: "dce_pass f = (ch, f')" by fastforce
  then have f': "prunes f f'" using dce_pass_spec(1) [of f] by simp
  show ?case
  proof (cases ch)
    case True
    then have "fir_dead_code_elim f = fir_dead_code_elim f'" using p by (subst fir_dead_code_elim.simps) simp
    then show ?thesis using 1 [OF p [symmetric] True] prunes_trans [OF f'] by simp
  next
    case False
    then have "fir_dead_code_elim f = f'" using p by (subst fir_dead_code_elim.simps) simp
    moreover have "f' = f" using p False dce_pass_spec(2) [of f] by simp
    ultimately show ?thesis using p False prunes_refl by simp
  qed
qed

lemma useless_iff_dead: "dead_at f b v \<longleftrightarrow> useless f (value_at f b v)"
  by (auto simp: dead_at_def stays_def Let_def)

lemma dce_values_eq:
  assumes "b < length (ff_blocks f)"
  defines "g \<equiv> fir_dead_code_elim f"
  shows "fb_values (ff_blocks g ! b) = filter (\<lambda>v. stays v \<or> value_is_used g (fv_id v)) (fb_values (ff_blocks f ! b))"
proof -
  have p: "prunes f g" unfolding g_def by (rule dce_prunes [THEN conjunct1])
  have n: "\<not> fst (dce_pass g)" unfolding g_def by (rule dce_prunes [THEN conjunct2])
  have "\<not> useless g v" if v: "v \<in> set (fb_values (ff_blocks g ! b))" for v
  proof -
    obtain i where "i < length (fb_values (ff_blocks g ! b))" "v = value_at g b i"
      using v by (auto simp: in_set_conv_nth)
    moreover from this have "in_func g b i" using prunes_length [OF p] assms(1) by (simp add: in_func_def)
    then have "\<not> dead_at g b i" by (rule dce_pass_spec(3) [OF n])
    ultimately show ?thesis unfolding useless_iff_dead by simp
  qed
  moreover have "del (useless g) (fb_values (ff_blocks f ! b)) (fb_values (ff_blocks g ! b))"
    using p assms(1) by (simp add: prunes_def)
  ultimately have "fb_values (ff_blocks g ! b) = filter (\<lambda>v. \<not> useless g v) (fb_values (ff_blocks f ! b))"
    by (intro del_filter) blast+
  then show ?thesis by (simp add: disj_commute)
qed

lemma map_nth_blocks:
  "length ys = length xs \<Longrightarrow> (\<And>i. i < length xs \<Longrightarrow> ys ! i = g (xs ! i)) \<Longrightarrow> ys = map g xs"
  by (simp add: list_eq_iff_nth_eq)

text \<open>C19. Dead code elimination: it always returns, and its result \<open>g\<close> is the function with every
  value removed that neither is a terminator, nor has a side effect, nor is used by a value of \<open>g\<close>
  itself. So nothing removable is left, nothing that is still used has gone, and the order of the
  remaining values, the labels and the targets are those of the source.\<close>

theorem dead_code_elim_spec:
  "let g = fir_dead_code_elim f
   in g = f\<lparr>ff_blocks := map (\<lambda>b. b\<lparr>fb_values :=
        filter (\<lambda>v. fir_is_terminator (fv_op v) \<or> has_side_effect (fv_op v) \<or> value_is_used g (fv_id v)) (fb_values b)\<rparr>)
        (ff_blocks f)\<rparr>"
proof -
  define g where "g = fir_dead_code_elim f"
  define part where "part b = b\<lparr>fb_values := filter (\<lambda>v. fir_is_terminator (fv_op v) \<or> has_side_effect (fv_op v)
      \<or> value_is_used g (fv_id v)) (fb_values b)\<rparr>" for b :: fir_block
  have p: "prunes f g" unfolding g_def by (rule dce_prunes [THEN conjunct1])
  have "ff_blocks g = map part (ff_blocks f)"
  proof (rule map_nth_blocks)
    fix b assume b: "b < length (ff_blocks f)"
    have "ff_blocks g ! b = (ff_blocks f ! b)\<lparr>fb_values := fb_values (ff_blocks g ! b)\<rparr>" using p b by (simp add: prunes_def)
    also have "\<dots> = part (ff_blocks f ! b)"
      by (simp add: dce_values_eq [OF b, folded g_def] part_def stays_def disj_assoc)
    finally show "ff_blocks g ! b = part (ff_blocks f ! b)" .
  qed (use p in \<open>simp add: prunes_def\<close>)
  moreover have "g = f\<lparr>ff_blocks := ff_blocks g\<rparr>" using p by (simp add: prunes_def)
  ultimately show ?thesis unfolding g_def [symmetric] Let_def part_def by simp
qed

subsection \<open>Validation\<close>

definition ends_once :: "fir_value list \<Rightarrow> bool" where
  "ends_once vs \<longleftrightarrow> vs \<noteq> [] \<and> fir_is_terminator (fv_op (last vs))
     \<and> (\<forall>v \<in> set (butlast vs). \<not> fir_is_terminator (fv_op v))"

lemma terminator_errors_iff:
  "terminator_errors h vs = 0 \<longleftrightarrow> (if h then \<forall>v \<in> set vs. \<not> fir_is_terminator (fv_op v) else ends_once vs)"
  by (induction h vs rule: terminator_errors.induct) (auto simp: ends_once_def)

lemma block_exists_iff: "block_exists f t \<longleftrightarrow> t \<in> fb_id ` set (ff_blocks f)"
  by (auto simp: block_exists_def list_ex_iff)

text \<open>The targets a value names exist.\<close>

definition targets_exist :: "fir_func \<Rightarrow> fir_value \<Rightarrow> bool" where
  "targets_exist f v \<longleftrightarrow>
     (fv_op v = FIR_OP_JUMP \<longrightarrow> block_exists f (fv_block_id v))
     \<and> (fv_op v = FIR_OP_BRANCH \<longrightarrow> fv_num_operands v < 2
         \<or> 3 \<le> fv_num_operands v \<and> block_exists f (fv_operands v 1) \<and> block_exists f (fv_operands v 2))
     \<and> (fv_op v = FIR_OP_PHI \<longrightarrow> (\<forall>(src, blk) \<in> set (fv_phi v). block_exists f blk))"

lemma value_errors_iff: "target_errors f v = 0 \<and> phi_errors f v = 0 \<longleftrightarrow> targets_exist f v"
  by (auto simp: target_errors_def phi_errors_def targets_exist_def filter_empty_conv not_le)

lemma block_errors_iff:
  "block_errors f b = 0 \<longleftrightarrow> ends_once (fb_values b) \<and> (\<forall>v \<in> set (fb_values b). targets_exist f v)"
  by (auto simp: block_errors_def terminator_errors_iff value_errors_iff [symmetric] sum_list_eq_0_iff)

definition valid_func :: "fir_func \<Rightarrow> bool" where
  "valid_func f \<longleftrightarrow> ff_blocks f \<noteq> [] \<and> ff_entry_block f < of_nat (length (ff_blocks f))
     \<and> (\<forall>b \<in> set (ff_blocks f). ends_once (fb_values b) \<and> (\<forall>v \<in> set (fb_values b). targets_exist f v))"

lemma no_errors_iff: "fir_validate_func (Some f) = 0 \<longleftrightarrow> valid_func f"
proof (cases "ff_blocks f = []")
  case False
  have "0 \<le> int (sum_list (map (block_errors f) (ff_blocks f)))" by simp
  then show ?thesis using False
    by (auto simp: fir_validate_func_def valid_func_def block_errors_iff not_le)
qed (simp add: fir_validate_func_def valid_func_def)


text \<open>Dead code elimination keeps a valid function valid.\<close>

lemma ends_once_snoc:
  "ends_once (vs @ [v]) \<longleftrightarrow> fir_is_terminator (fv_op v) \<and> (\<forall>v \<in> set vs. \<not> fir_is_terminator (fv_op v))"
  by (simp add: ends_once_def)

lemma ends_once_filter:
  assumes "ends_once vs" "\<And>v. fir_is_terminator (fv_op v) \<Longrightarrow> P v" shows "ends_once (filter P vs)"
proof (cases vs rule: rev_cases)
  case Nil
  then show ?thesis using assms(1) by (simp add: ends_once_def)
next
  case (snoc us v)
  then have v: "fir_is_terminator (fv_op v)" "\<forall>v \<in> set us. \<not> fir_is_terminator (fv_op v)"
    using assms(1) by (simp_all add: ends_once_snoc)
  then show ?thesis using snoc assms(2) [OF v(1)] by (simp add: ends_once_snoc)
qed

text \<open>C23. Dead code elimination keeps valid functions valid.\<close>

theorem dce_keeps_valid:
  assumes "fir_validate_func (Some f) = 0"
  shows "fir_validate_func (Some (fir_dead_code_elim f)) = 0"
proof -
  define g where "g = fir_dead_code_elim f"
  have v: "valid_func f" using assms no_errors_iff by blast
  have p: "prunes f g" unfolding g_def by (rule dce_prunes [THEN conjunct1])
  have entry: "ff_entry_block g = ff_entry_block f" "length (ff_blocks g) = length (ff_blocks f)"
    using p by (simp_all add: prunes_def) (metis fir_func.select_convs(4) fir_func.surjective fir_func.update_convs(5))
  have ids: "fb_id ` set (ff_blocks g) = fb_id ` set (ff_blocks f)"
  proof -
    have "fb_id (ff_blocks g ! b) = fb_id (ff_blocks f ! b)" if "b < length (ff_blocks f)" for b
      using p that by (simp add: prunes_def) (metis fir_block.select_convs(1) fir_block.surjective fir_block.update_convs(3))
    then have "map fb_id (ff_blocks g) = map fb_id (ff_blocks f)" using entry(2) by (simp add: list_eq_iff_nth_eq)
    then show ?thesis by (metis list.set_map)
  qed
  have ok: "ends_once (fb_values (ff_blocks g ! b)) \<and> (\<forall>v \<in> set (fb_values (ff_blocks g ! b)). targets_exist g v)"
    if b: "b < length (ff_blocks f)" for b
  proof -
    have "ends_once (fb_values (ff_blocks f ! b))" "\<forall>v \<in> set (fb_values (ff_blocks f ! b)). targets_exist f v"
      using v b nth_mem [OF b] by (auto simp: valid_func_def)
    then show ?thesis unfolding dce_values_eq [OF b, folded g_def]
      by (auto intro!: ends_once_filter simp: stays_def targets_exist_def block_exists_iff ids)
  qed
  have "valid_func g" unfolding valid_func_def
  proof (intro conjI)
    show "ff_blocks g \<noteq> []" using v entry(2) by (auto simp: valid_func_def)
    show "ff_entry_block g < of_nat (length (ff_blocks g))" using v entry by (simp add: valid_func_def)
    show "\<forall>b \<in> set (ff_blocks g). ends_once (fb_values b) \<and> (\<forall>v \<in> set (fb_values b). targets_exist g v)"
      using ok entry(2) by (metis in_set_conv_nth)
  qed
  then show ?thesis unfolding g_def using no_errors_iff by blast
qed

subsection \<open>The identifiers the builder hands out\<close>







text \<open>A function of one block: an unused constant, a load of parameter 7, a store of it and the return.\<close>

definition grown :: "fir_op \<Rightarrow> u32 list \<Rightarrow> fir_func \<Rightarrow> fir_func" where
  "grown op ops f = f\<lparr>ff_blocks := (ff_blocks f)[0 := snd (fir_value_create op FIR_TYPE_I64 ops (ff_blocks f ! 0))]\<rparr>"

definition empty_func :: fir_func where
  "empty_func = \<lparr>ff_name = ''main'', ff_return_type = FIR_TYPE_VOID, ff_params = [], ff_entry_block = 0,
     ff_blocks = [], ff_is_agent = False, ff_is_compiled = False, ff_next_value_id = 0\<rparr>"

definition small_func :: fir_func where
  "small_func = grown FIR_OP_RETURN [] (grown FIR_OP_STORE [7, 1] (grown FIR_OP_LOAD [7]
     (grown FIR_OP_CONST [] (snd (fir_block_create (Some ''entry'') empty_func)))))"



theorem dce_keeps_valid_witness:
  "fir_validate_func (Some small_func) = 0 \<and> fir_validate_func (Some (fir_dead_code_elim small_func)) = 0"
proof -
  have "fir_validate_func (Some small_func) = 0" by code_simp
  then show ?thesis using dce_keeps_valid by blast
qed

text \<open>The elimination breaks the numbering: it closes the gap a removed value leaves, and the next
  value of the block gets the identifier of the last one.\<close>

lemma ids_repeat_after_dce:
  "map fv_id (all_values (grown FIR_OP_CONST [] (fir_dead_code_elim small_func))) = [1, 2, 3, 3]"
  by code_simp

end
