(* ===== verification/FluxFirFold.thy ===== *)
theory FluxFirFold
  imports FluxFirOpt
begin

section \<open>What constant folding preserves, and when it does not return\<close>

text \<open>
  The meaning of the arithmetic values as equations over an assignment of 64-bit results to
  identifiers, the proof that folding respects every assignment that satisfies them, and the
  functions on which the folder runs for ever.
\<close>

subsection \<open>The meaning of values\<close>

text \<open>What an operation computes, wrapping around at 64 bits; \<open>None\<close> where no result is prescribed.\<close>

definition meaning :: "fir_op \<Rightarrow> u64 \<Rightarrow> u64 \<Rightarrow> u64 option" where
  "meaning op a b = (case op of
     FIR_OP_ADD \<Rightarrow> Some (a + b) | FIR_OP_SUB \<Rightarrow> Some (a - b) | FIR_OP_MUL \<Rightarrow> Some (a * b)
   | FIR_OP_DIV \<Rightarrow> (if b = 0 then None else Some (word_of_int (sint a sdiv sint b)))
   | FIR_OP_MOD \<Rightarrow> (if b = 0 then None else Some (word_of_int (sint a smod sint b)))
   | FIR_OP_NEG \<Rightarrow> Some (- a) | FIR_OP_ABS \<Rightarrow> Some (if sint a < 0 then - a else a)
   | FIR_OP_AND \<Rightarrow> Some (a AND b) | FIR_OP_OR \<Rightarrow> Some (a OR b) | FIR_OP_XOR \<Rightarrow> Some (a XOR b)
   | FIR_OP_NOT \<Rightarrow> Some (NOT a)
   | FIR_OP_SHL \<Rightarrow> Some (push_bit (unat (b AND 63)) a)
   | FIR_OP_SHR \<Rightarrow> Some (signed_drop_bit (unat (b AND 63)) a)
   | FIR_OP_EQ \<Rightarrow> Some (of_bool (a = b)) | FIR_OP_NE \<Rightarrow> Some (of_bool (a \<noteq> b))
   | FIR_OP_LT \<Rightarrow> Some (of_bool (sint a < sint b)) | FIR_OP_GT \<Rightarrow> Some (of_bool (sint b < sint a))
   | FIR_OP_LE \<Rightarrow> Some (of_bool (sint a \<le> sint b)) | FIR_OP_GE \<Rightarrow> Some (of_bool (sint b \<le> sint a))
   | _ \<Rightarrow> None)"

definition arity :: "fir_op \<Rightarrow> nat" where
  "arity op = (if op = FIR_OP_NEG \<or> op = FIR_OP_ABS \<or> op = FIR_OP_NOT then 1 else 2)"

definition satisfies :: "(u32 \<Rightarrow> u64) \<Rightarrow> fir_value \<Rightarrow> bool" where
  "satisfies \<rho> v \<longleftrightarrow>
     (if fv_op v = FIR_OP_CONST then \<rho> (fv_id v) = fv_data v
      else arity (fv_op v) \<le> fv_num_operands v \<longrightarrow>
        (case meaning (fv_op v) (\<rho> (fv_operands v 0)) (\<rho> (fv_operands v 1)) of
           None \<Rightarrow> True | Some r \<Rightarrow> \<rho> (fv_id v) = r))"

definition consistent :: "(u32 \<Rightarrow> u64) \<Rightarrow> fir_func \<Rightarrow> bool" where
  "consistent \<rho> f \<longleftrightarrow> (\<forall>v \<in> set (all_values f). satisfies \<rho> v)"

text \<open>Two values agree under an assignment: the second is the constant the first computes, or the same
  operation on operands and PHI sources with the same results.\<close>

definition agree :: "(u32 \<Rightarrow> u64) \<Rightarrow> fir_value \<Rightarrow> fir_value \<Rightarrow> bool" where
  "agree \<rho> v w \<longleftrightarrow> fv_id w = fv_id v \<and> fv_type w = fv_type v \<and>
     map (\<lambda>(s, b). (\<rho> s, b)) (fv_phi w) = map (\<lambda>(s, b). (\<rho> s, b)) (fv_phi v) \<and>
     (fv_op w = fv_op v \<and> fv_num_operands w = fv_num_operands v \<and> fv_data w = fv_data v
        \<and> map \<rho> (operands w) = map \<rho> (operands v)
      \<or> fv_op w = FIR_OP_CONST \<and> fv_data w = \<rho> (fv_id v))"

definition agree_blocks :: "(u32 \<Rightarrow> u64) \<Rightarrow> fir_block \<Rightarrow> fir_block \<Rightarrow> bool" where
  "agree_blocks \<rho> b c \<longleftrightarrow> c = b\<lparr>fb_values := fb_values c\<rparr> \<and> list_all2 (agree \<rho>) (fb_values b) (fb_values c)"

definition agree_funcs :: "(u32 \<Rightarrow> u64) \<Rightarrow> fir_func \<Rightarrow> fir_func \<Rightarrow> bool" where
  "agree_funcs \<rho> f g \<longleftrightarrow> g = f\<lparr>ff_blocks := ff_blocks g\<rparr> \<and> list_all2 (agree_blocks \<rho>) (ff_blocks f) (ff_blocks g)"

lemma operands_nth: "map \<rho> (operands w) = map \<rho> (operands v) \<Longrightarrow> fv_num_operands w = fv_num_operands v \<Longrightarrow>
    i < fv_num_operands v \<Longrightarrow> \<rho> (fv_operands w i) = \<rho> (fv_operands v i)"
  by (simp add: operands_def comp_def)

lemma agree_refl [simp]: "agree \<rho> v v"
  by (simp add: agree_def)

lemma agree_trans: "agree \<rho> u v \<Longrightarrow> agree \<rho> v w \<Longrightarrow> agree \<rho> u w"
  by (auto simp: agree_def)

lemma meaning_unary: "arity op = 1 \<Longrightarrow> meaning op a b = meaning op a c"
  by (cases op) (simp_all add: arity_def meaning_def)

lemma agree_satisfies:
  assumes "agree \<rho> v w" "satisfies \<rho> v" shows "satisfies \<rho> w"
proof (cases "fv_op w = FIR_OP_CONST")
  case True
  then show ?thesis using assms by (auto simp: agree_def satisfies_def)
next
  case False
  then have e: "fv_op w = fv_op v" "fv_num_operands w = fv_num_operands v" "fv_id w = fv_id v"
    "map \<rho> (operands w) = map \<rho> (operands v)" using assms(1) by (auto simp: agree_def)
  have "meaning (fv_op v) (\<rho> (fv_operands w 0)) (\<rho> (fv_operands w 1))
      = meaning (fv_op v) (\<rho> (fv_operands v 0)) (\<rho> (fv_operands v 1))" if n: "arity (fv_op v) \<le> fv_num_operands v"
  proof -
    have o0: "\<rho> (fv_operands w 0) = \<rho> (fv_operands v 0)"
      using operands_nth [OF e(4,2), of 0] n by (simp add: arity_def split: if_splits)
    show ?thesis
    proof (cases "arity (fv_op v) = 1")
      case True
      then show ?thesis unfolding o0 by (rule meaning_unary)
    next
      case False
      then have "\<rho> (fv_operands w 1) = \<rho> (fv_operands v 1)"
        using operands_nth [OF e(4,2), of 1] n by (simp add: arity_def split: if_splits)
      then show ?thesis using o0 by simp
    qed
  qed
  then show ?thesis using assms(2) e False by (auto simp: satisfies_def split: option.splits)
qed

lemma agree_blocks_refl [simp]: "agree_blocks \<rho> b b"
  by (simp add: agree_blocks_def list_all2_same)

lemma all2_trans:
  "(\<And>x y z. P x y \<Longrightarrow> P y z \<Longrightarrow> P x z) \<Longrightarrow> list_all2 P xs ys \<Longrightarrow> list_all2 P ys zs \<Longrightarrow> list_all2 P xs zs"
  by (rule list_all2_trans)

lemma agree_blocks_trans:
  assumes "agree_blocks \<rho> a b" "agree_blocks \<rho> b c" shows "agree_blocks \<rho> a c"
proof -
  have "c = a\<lparr>fb_values := fb_values c\<rparr>"
    by (rule values_frame_trans [where x = b and xs = "fb_values b"]) (use assms in \<open>simp_all add: agree_blocks_def\<close>)
  moreover have "list_all2 (agree \<rho>) (fb_values a) (fb_values c)"
    by (rule all2_trans [OF agree_trans, where ys = "fb_values b"]) (use assms in \<open>simp_all add: agree_blocks_def\<close>)
  ultimately show ?thesis by (simp add: agree_blocks_def)
qed

lemma agree_funcs_refl [simp]: "agree_funcs \<rho> f f"
  by (simp add: agree_funcs_def list_all2_same)

lemma agree_funcs_trans:
  assumes "agree_funcs \<rho> f g" "agree_funcs \<rho> g h" shows "agree_funcs \<rho> f h"
proof -
  have "h = f\<lparr>ff_blocks := ff_blocks h\<rparr>"
    by (rule blocks_frame_trans [where g = g and xs = "ff_blocks g"]) (use assms in \<open>simp_all add: agree_funcs_def\<close>)
  moreover have "list_all2 (agree_blocks \<rho>) (ff_blocks f) (ff_blocks h)"
    by (rule all2_trans [OF agree_blocks_trans, where ys = "ff_blocks g"]) (use assms in \<open>simp_all add: agree_funcs_def\<close>)
  ultimately show ?thesis by (simp add: agree_funcs_def)
qed

lemma agree_consistent:
  assumes "agree_funcs \<rho> f g" "consistent \<rho> f" shows "consistent \<rho> g"
proof -
  have "list_all2 (agree \<rho>) (fb_values b) (fb_values c)" if "agree_blocks \<rho> b c" for b c
    using that by (simp add: agree_blocks_def)
  then have "list_all2 (list_all2 (agree \<rho>)) (map fb_values (ff_blocks f)) (map fb_values (ff_blocks g))"
    using assms(1) by (auto simp: agree_funcs_def list_all2_map1 list_all2_map2 elim: list_all2_mono)
  then have "list_all2 (agree \<rho>) (all_values f) (all_values g)"
    unfolding all_values_def by (rule concat_transfer [unfolded rel_fun_def, rule_format])
  then show ?thesis using assms(2) agree_satisfies
    unfolding consistent_def by (metis (no_types, lifting) list_all2_conv_all_nth in_set_conv_nth)
qed

subsection \<open>Folding respects every consistent assignment\<close>

lemma value_in_func: "in_func f b v \<Longrightarrow> value_at f b v \<in> set (all_values f)"
  unfolding in_func_def all_values_def by (auto intro!: bexI [OF _ nth_mem])

lemma agree_funcsI:
  assumes "g = f\<lparr>ff_blocks := ff_blocks g\<rparr>" "length (ff_blocks g) = length (ff_blocks f)"
    "\<And>b. b < length (ff_blocks f) \<Longrightarrow> agree_blocks \<rho> (ff_blocks f ! b) (ff_blocks g ! b)"
  shows "agree_funcs \<rho> f g"
  unfolding agree_funcs_def list_all2_conv_all_nth using assms by (intro conjI allI impI) simp_all

lemma agree_upd_value:
  assumes "in_func f b v" "agree \<rho> (value_at f b v) (h (value_at f b v))"
  shows "agree_funcs \<rho> f (upd_value b v h f)"
proof (rule agree_funcsI)
  fix c assume "c < length (ff_blocks f)"
  then show "agree_blocks \<rho> (ff_blocks f ! c) (ff_blocks (upd_value b v h f) ! c)"
    using assms by (auto simp: upd_value_def Let_def nth_list_update in_func_def agree_blocks_def list_all2_conv_all_nth)
qed (simp_all add: upd_value_def Let_def)

lemma agree_set_const:
  assumes "in_func f b v" "\<rho> (fv_id (value_at f b v)) = r"
  shows "agree_funcs \<rho> f (set_const b v r f)"
  unfolding set_const_def by (rule agree_upd_value) (use assms in \<open>simp_all add: agree_def\<close>)

lemma agree_replace_uses:
  assumes "\<rho> x = \<rho> y"
  shows "agree_funcs \<rho> f (replace_uses x y f)"
proof (rule agree_funcsI)
  have v: "agree \<rho> v (replace_in_value x y v)" for v
    using assms by (auto simp: agree_def replace_in_value_def operands_def)
  fix c assume "c < length (ff_blocks f)"
  then show "agree_blocks \<rho> (ff_blocks f ! c) (ff_blocks (replace_uses x y f) ! c)"
    using v by (simp add: replace_uses_def map_values_def agree_blocks_def list_all2_map2 list_all2_same)
qed (simp_all add: replace_uses_def map_values_def)

lemma agree_in_func: "agree_funcs \<rho> f g \<Longrightarrow> in_func g b v = in_func f b v"
  by (auto simp: agree_funcs_def agree_blocks_def in_func_def list_all2_conv_all_nth)

lemma const_value:
  assumes "consistent \<rho> f" "get_const_int f x = Some c" shows "\<rho> x = c"
proof -
  obtain v where "find (\<lambda>v. fv_id v = x \<and> fv_op v = FIR_OP_CONST) (all_values f) = Some v" "c = fv_data v"
    using assms(2) by (auto simp: get_const_int_def)
  then have "v \<in> set (all_values f)" "fv_id v = x" "fv_op v = FIR_OP_CONST" "c = fv_data v"
    by (auto simp: find_Some_iff)
  then show ?thesis using assms(1) by (auto simp: consistent_def satisfies_def)
qed

lemma meaning_satisfied:
  assumes "consistent \<rho> f" "in_func f b v" "fv_op (value_at f b v) \<noteq> FIR_OP_CONST"
    "arity (fv_op (value_at f b v)) \<le> fv_num_operands (value_at f b v)"
    "meaning (fv_op (value_at f b v)) (\<rho> (fv_operands (value_at f b v) 0)) (\<rho> (fv_operands (value_at f b v) 1)) = Some r"
  shows "\<rho> (fv_id (value_at f b v)) = r"
  using assms value_in_func [OF assms(2)] by (auto simp: consistent_def satisfies_def)

text \<open>The folded results are the prescribed ones.\<close>

lemma s64_word: "s64 i = Val c \<Longrightarrow> c = word_of_int i"
  by (auto simp: s64_def split: if_splits)

lemma arith_meaning: "arith_result op a b = Val (Some c) \<Longrightarrow> meaning op a b = Some c"
  by (cases op) (auto simp: arith_result_def meaning_def cmap_Val_iff cbind_Val_iff dest!: s64_word split: if_splits)

lemma bitwise_meaning: "bitwise_result op a b = Val (Some c) \<Longrightarrow> meaning op a b = Some c"
  by (cases op) (auto simp: bitwise_result_def meaning_def cmap_Val_iff push_bit_eq_mult dest!: s64_word split: if_splits)

lemma compare_meaning: "fir_is_comparison op \<Longrightarrow> compare_result op a b = Val (Some c) \<Longrightarrow> meaning op a b = Some c"
  by (cases op) (auto simp: compare_result_def meaning_def fir_is_comparison_def)

lemma class_ops:
  "fir_is_binary_arith op \<or> fir_is_binary_bitwise op \<or> fir_is_comparison op \<Longrightarrow> op \<noteq> FIR_OP_CONST"
  "arity op \<le> 2"
  by (auto simp: fir_is_binary_arith_def fir_is_binary_bitwise_def fir_is_comparison_def arity_def)

lemma fold_binary_cases:
  assumes "fold_binary test result b v st = Val st'"
  obtains "st' = st" | x y c where "test (fv_op (value_at (snd st) b v))" "2 \<le> fv_num_operands (value_at (snd st) b v)"
    "get_const_int (snd st) (fv_operands (value_at (snd st) b v) 0) = Some x"
    "get_const_int (snd st) (fv_operands (value_at (snd st) b v) 1) = Some y"
    "result (fv_op (value_at (snd st) b v)) x y = Val (Some c)" "st' = (True, set_const b v c (snd st))"
proof -
  note d = assms [unfolded fold_binary_def Let_def]
  show ?thesis
  proof (cases "test (fv_op (value_at (snd st) b v)) \<and> 2 \<le> fv_num_operands (value_at (snd st) b v)")
    case True
    show ?thesis
    proof (cases "get_const_int (snd st) (fv_operands (value_at (snd st) b v) 0)")
      case None
      then show ?thesis using that(1) d True by simp
    next
      case x: (Some x)
      show ?thesis
      proof (cases "get_const_int (snd st) (fv_operands (value_at (snd st) b v) 1)")
        case None
        then show ?thesis using that(1) d True x by simp
      next
        case y: (Some y)
        obtain r where r: "result (fv_op (value_at (snd st) b v)) x y = Val r"
          and e: "st' = (case r of None \<Rightarrow> st | Some c \<Rightarrow> (True, set_const b v c (snd st)))"
          using d True x y by (auto simp: cmap_Val_iff)
        show ?thesis
        proof (cases r)
          case None
          then show ?thesis using that(1) e by simp
        next
          case (Some c)
          show ?thesis by (rule that(2) [OF conjunct1 [OF True] conjunct2 [OF True] x y]) (use r e Some in simp_all)
        qed
      qed
    qed
  next
    case False
    then show ?thesis using that(1) d by (simp only: if_False cres.inject)
  qed
qed

lemma fold_negation_cases:
  assumes "fold_negation b v st = Val st'"
  obtains "st' = st" | x c where "fv_op (value_at (snd st) b v) = FIR_OP_NEG" "1 \<le> fv_num_operands (value_at (snd st) b v)"
    "get_const_int (snd st) (fv_operands (value_at (snd st) b v) 0) = Some x"
    "s64 (- sint x) = Val c" "st' = (True, set_const b v c (snd st))"
proof -
  note d = assms [unfolded fold_negation_def Let_def]
  show ?thesis
  proof (cases "fv_op (value_at (snd st) b v) = FIR_OP_NEG \<and> 1 \<le> fv_num_operands (value_at (snd st) b v)")
    case True
    show ?thesis
    proof (cases "get_const_int (snd st) (fv_operands (value_at (snd st) b v) 0)")
      case None
      then show ?thesis using that(1) d True by simp
    next
      case x: (Some x)
      obtain c where "s64 (- sint x) = Val c" "st' = (True, set_const b v c (snd st))"
        using d True x by (auto simp: cmap_Val_iff)
      then show ?thesis using that(2) True x by blast
    qed
  next
    case False
    then show ?thesis using that(1) d by (simp only: if_False cres.inject)
  qed
qed

lemma fold_binary_agree:
  assumes "fold_binary test result b v st = Val st'" "consistent \<rho> (snd st)" "in_func (snd st) b v"
    "\<And>op. test op \<Longrightarrow> op \<noteq> FIR_OP_CONST"
    "\<And>op x y c. test op \<Longrightarrow> result op x y = Val (Some c) \<Longrightarrow> meaning op x y = Some c"
  shows "agree_funcs \<rho> (snd st) (snd st')"
proof -
  let ?v = "value_at (snd st) b v"
  from assms(1) show ?thesis
  proof (cases rule: fold_binary_cases)
    case (2 x y c)
    have "meaning (fv_op ?v) (\<rho> (fv_operands ?v 0)) (\<rho> (fv_operands ?v 1)) = Some c"
      using const_value [OF assms(2) 2(3)] const_value [OF assms(2) 2(4)] assms(5) [OF 2(1,5)] by simp
    then have "\<rho> (fv_id ?v) = c"
      by (rule meaning_satisfied [OF assms(2,3) assms(4) [OF 2(1)] order_trans [OF class_ops(2) 2(2)]])
    from agree_set_const [where \<rho> = \<rho>, OF assms(3) this] show ?thesis using 2(6) by simp
  qed simp
qed

lemma fold_negation_agree:
  assumes "fold_negation b v st = Val st'" "consistent \<rho> (snd st)" "in_func (snd st) b v"
  shows "agree_funcs \<rho> (snd st) (snd st')"
proof -
  let ?v = "value_at (snd st) b v"
  from assms(1) show ?thesis
  proof (cases rule: fold_negation_cases)
    case (2 x c)
    have "c = - x" using s64_word [OF 2(4)] by simp
    then have "\<rho> (fv_id ?v) = c"
      using meaning_satisfied [OF assms(2,3)] const_value [OF assms(2) 2(3)] 2(1,2) by (simp add: arity_def meaning_def)
    from agree_set_const [where \<rho> = \<rho>, OF assms(3) this] show ?thesis using 2(5) by simp
  qed simp
qed

lemma value_replaced:
  "in_func f b v \<Longrightarrow> value_at (replace_uses x y f) b v = replace_in_value x y (value_at f b v)"
  by (simp add: replace_uses_def map_values_def in_func_def)

lemma op_forward [simp]: "in_func f b v \<Longrightarrow> fv_op (value_at (forward b v k f) b v) = fv_op (value_at f b v)"
  by (simp add: forward_def value_replaced replace_in_value_def)

lemma num_operands_forward [simp]:
  "in_func f b v \<Longrightarrow> fv_num_operands (value_at (forward b v k f) b v) = fv_num_operands (value_at f b v)"
  by (simp add: forward_def value_replaced replace_in_value_def)

lemma value_set_const: "in_func f b v \<Longrightarrow> in_func f c w \<Longrightarrow> value_at (set_const b v r f) c w =
   (if c = b \<and> w = v then (value_at f b v)\<lparr>fv_op := FIR_OP_CONST, fv_data := r, fv_num_operands := 0\<rparr> else value_at f c w)"
  by (auto simp: set_const_def upd_value_def Let_def nth_list_update in_func_def)

lemma simplify_side_cases:
  assumes "in_func (snd st) b v" "FIR_OP_MUL \<notin> set others"
  obtains "simplify_side const_side keep_side others b v st = st"
  | c where "get_const_int (snd st) (fv_operands (value_at (snd st) b v) const_side) = Some c"
      "fv_op (value_at (snd st) b v) \<in> set others \<and> c = 0 \<or> fv_op (value_at (snd st) b v) = FIR_OP_MUL \<and> c = 1"
      "simplify_side const_side keep_side others b v st = (True, forward b v keep_side (snd st))"
  | "get_const_int (snd st) (fv_operands (value_at (snd st) b v) const_side) = Some 0"
      "fv_op (value_at (snd st) b v) = FIR_OP_MUL"
      "simplify_side const_side keep_side others b v st = (True, set_const b v 0 (snd st))"
proof (cases "get_const_int (snd st) (fv_operands (value_at (snd st) b v) const_side)")
  case None
  then show ?thesis using that(1) by (simp add: simplify_side_def)
next
  case c: (Some c)
  consider "fv_op (value_at (snd st) b v) \<in> set others \<and> c = 0" | "fv_op (value_at (snd st) b v) = FIR_OP_MUL" "c = 1"
    | "fv_op (value_at (snd st) b v) = FIR_OP_MUL" "c = 0"
    | "\<not> (fv_op (value_at (snd st) b v) \<in> set others \<and> c = 0)" "\<not> (fv_op (value_at (snd st) b v) = FIR_OP_MUL \<and> c = 1)"
      "\<not> (fv_op (value_at (snd st) b v) = FIR_OP_MUL \<and> c = 0)" by blast
  then show ?thesis
  proof cases
    case 1
    moreover have "fv_op (value_at (snd st) b v) \<noteq> FIR_OP_MUL" using 1 assms(2) by metis
    ultimately show ?thesis using that(2) [OF c] c assms by (simp add: simplify_side_def Let_def)
  next
    case 2
    then show ?thesis using that(2) [OF c] c assms by (simp add: simplify_side_def Let_def)
  next
    case 3
    then show ?thesis using that(3) c assms by (simp add: simplify_side_def Let_def)
  next
    case 4
    then have "simplify_side const_side keep_side others b v st = st"
      using c by (simp only: simplify_side_def option.case Let_def if_False)
    then show ?thesis by (rule that(1))
  qed
qed

lemma simplify_side_agree:
  assumes "consistent \<rho> (snd st)" "in_func (snd st) b v" "2 \<le> fv_num_operands (value_at (snd st) b v)"
    "const_side = 0 \<and> keep_side = 1 \<and> others = [FIR_OP_ADD] \<or> const_side = 1 \<and> keep_side = 0 \<and> others = [FIR_OP_ADD, FIR_OP_SUB]"
  shows "agree_funcs \<rho> (snd st) (snd (simplify_side const_side keep_side others b v st))"
proof -
  let ?v = "value_at (snd st) b v"
  have m: "FIR_OP_MUL \<notin> set others" using assms(4) by auto
  have eq: "\<rho> (fv_id ?v) = r" if "fv_op ?v \<noteq> FIR_OP_CONST"
    "meaning (fv_op ?v) (\<rho> (fv_operands ?v 0)) (\<rho> (fv_operands ?v 1)) = Some r" for r
    by (rule meaning_satisfied [OF assms(1,2) that(1) order_trans [OF class_ops(2) assms(3)] that(2)])
  from assms(2) m show ?thesis
  proof (cases rule: simplify_side_cases [where const_side = const_side and keep_side = keep_side])
    case (2 c)
    have c: "\<rho> (fv_operands ?v const_side) = c" by (rule const_value [OF assms(1) 2(1)])
    have "\<rho> (fv_id ?v) = \<rho> (fv_operands ?v keep_side)"
      by (rule eq) (use 2(2) c assms(4) in \<open>auto simp: meaning_def\<close>)
    from agree_replace_uses [where \<rho> = \<rho>, OF this] show ?thesis using 2(3) by (simp add: forward_def)
  next
    case 3
    have c: "\<rho> (fv_operands ?v const_side) = 0" by (rule const_value [OF assms(1) 3(1)])
    have "\<rho> (fv_id ?v) = 0" by (rule eq) (use 3(2) c assms(4) in \<open>auto simp: meaning_def\<close>)
    from agree_set_const [where \<rho> = \<rho>, OF assms(2) this] show ?thesis using 3(3) by simp
  qed simp
qed

lemma fold_value_agree:
  assumes "fold_value b v st = Val st'" "consistent \<rho> (snd st)" "in_func (snd st) b v"
  shows "agree_funcs \<rho> (snd st) (snd st')"
proof -
  obtain s1 s2 s3 s4 where s: "fold_binary fir_is_binary_arith arith_result b v st = Val s1"
    "fold_binary fir_is_binary_bitwise bitwise_result b v s1 = Val s2"
    "fold_binary fir_is_comparison compare_result b v s2 = Val s3"
    "fold_negation b v s3 = Val s4" "fold_algebra b v s4 = Val st'"
    using assms(1) by (auto simp: fold_value_def cbind_Val_iff)
  have a1: "agree_funcs \<rho> (snd st) (snd s1)"
    by (rule fold_binary_agree [OF s(1) assms(2,3)]) (use class_ops arith_meaning in blast)+
  note c1 = agree_consistent [OF a1 assms(2)] agree_in_func [OF a1, of b v]
  have a2: "agree_funcs \<rho> (snd s1) (snd s2)"
    by (rule fold_binary_agree [OF s(2) c1(1)]) (use c1(2) assms(3) class_ops bitwise_meaning in blast)+
  note c2 = agree_consistent [OF a2 c1(1)] agree_in_func [OF a2, of b v]
  have a3: "agree_funcs \<rho> (snd s2) (snd s3)"
    by (rule fold_binary_agree [OF s(3) c2(1)]) (use c1(2) c2(2) assms(3) class_ops compare_meaning in blast)+
  note c3 = agree_consistent [OF a3 c2(1)] agree_in_func [OF a3, of b v]
  have p3: "in_func (snd s3) b v" using assms(3) c1(2) c2(2) c3(2) by simp
  have a4: "agree_funcs \<rho> (snd s3) (snd s4)" by (rule fold_negation_agree [OF s(4) c3(1) p3])
  note c4 = agree_consistent [OF a4 c3(1)]
  have p4: "in_func (snd s4) b v" using p3 agree_in_func [OF a4] by simp
  have a5: "agree_funcs \<rho> (snd s4) (snd st')"
  proof (cases "2 \<le> fv_num_operands (value_at (snd s4) b v)")
    case True
    define s5 where "s5 = simplify_side 1 0 [FIR_OP_ADD, FIR_OP_SUB] b v s4"
    have e: "st' = simplify_side 0 1 [FIR_OP_ADD] b v s5" using s(5) True by (simp add: fold_algebra_def s5_def)
    have b5: "agree_funcs \<rho> (snd s4) (snd s5)" unfolding s5_def by (rule simplify_side_agree [OF c4 p4 True]) simp
    note c5 = agree_consistent [OF b5 c4]
    have p5: "in_func (snd s5) b v" using p4 agree_in_func [OF b5] by simp
    show ?thesis
    proof (cases "2 \<le> fv_num_operands (value_at (snd s5) b v)")
      case True
      have "agree_funcs \<rho> (snd s5) (snd st')" unfolding e by (rule simplify_side_agree [OF c5 p5 True]) simp
      then show ?thesis by (rule agree_funcs_trans [OF b5])
    next
      case False
      have m: "FIR_OP_MUL \<notin> set [FIR_OP_ADD, FIR_OP_SUB]" by simp
      from p4 m have "fv_op (value_at (snd s5) b v) = FIR_OP_CONST"
      proof (cases rule: simplify_side_cases [where const_side = 1 and keep_side = 0])
        case 1
        then show ?thesis using False True by (simp add: s5_def)
      next
        case (2 c)
        then show ?thesis using False True p4 by (simp add: s5_def)
      next
        case 3
        then show ?thesis using p4 by (simp add: s5_def value_set_const)
      qed
      then have "st' = s5" unfolding e by (simp add: simplify_side_def Let_def split: option.split)
      then show ?thesis using b5 by simp
    qed
  next
    case False
    then show ?thesis using s(5) by (simp add: fold_algebra_def)
  qed
  show ?thesis by (intro agree_funcs_trans [OF a1] agree_funcs_trans [OF a2] agree_funcs_trans [OF a3] agree_funcs_trans [OF a4] a5)
qed

text \<open>A loop of the folder keeps what each of its rounds keeps.\<close>

lemma cfold_keeps:
  assumes "cfold g xs s = Val s'" "P s" "\<And>x s s'. x \<in> set xs \<Longrightarrow> P s \<Longrightarrow> g x s = Val s' \<Longrightarrow> P s'"
  shows "P s'"
  using assms by (induction xs arbitrary: s) (auto simp: cbind_Val_iff)

definition shape :: "fir_func \<Rightarrow> nat list" where
  "shape f = map (\<lambda>b. length (fb_values b)) (ff_blocks f)"

lemma fold_pass_keeps:
  assumes "fold_pass f = Val st" "P (False, f)"
    "\<And>s. P s \<Longrightarrow> shape (snd s) = shape f"
    "\<And>s s' b v. P s \<Longrightarrow> in_func (snd s) b v \<Longrightarrow> fold_value b v s = Val s' \<Longrightarrow> P s'"
  shows "P st"
  using assms(1,2) unfolding fold_pass_def
proof (rule cfold_keeps)
  fix b s s' assume b: "b \<in> set [0..<length (ff_blocks f)]" and s: "P s" and e: "fold_block b s = Val s'"
  from e show "P s'" unfolding fold_block_def
  proof (rule cfold_keeps)
    fix v t t' assume v: "v \<in> set [0..<length (fb_values (ff_blocks (snd s) ! b))]" and t: "P t" "fold_value b v t = Val t'"
    have len: "length (ff_blocks (snd u)) = length (ff_blocks f)" if "P u" for u
      using assms(3) [OF that] by (metis length_map shape_def)
    have sh: "shape (snd t) = shape (snd s)" using assms(3) s t(1) by simp
    have "b < length (ff_blocks f)" using b by simp
    then have "length (fb_values (ff_blocks (snd t) ! b)) = length (fb_values (ff_blocks (snd s) ! b))"
      using arg_cong [OF sh, of "\<lambda>l. l ! b"] len [OF s] len [OF t(1)] by (simp add: shape_def)
    then have "in_func (snd t) b v" using b v len [OF t(1)] by (simp add: in_func_def)
    from assms(4) [OF t(1) this t(2)] show "P t'" .
  qed (rule s)
qed

lemma agree_shape: "agree_funcs \<rho> f g \<Longrightarrow> shape g = shape f"
  by (auto simp: shape_def agree_funcs_def agree_blocks_def list_all2_conv_all_nth intro!: nth_equalityI)

lemma fold_pass_agree:
  assumes "fold_pass f = Val st" "consistent \<rho> f"
  shows "agree_funcs \<rho> f (snd st)"
proof (rule fold_pass_keeps [where P = "\<lambda>st. agree_funcs \<rho> f (snd st)", OF assms(1)])
  fix s s' b v assume s: "agree_funcs \<rho> f (snd s)" and i: "in_func (snd s) b v" and e: "fold_value b v s = Val s'"
  show "agree_funcs \<rho> f (snd s')"
    by (rule agree_funcs_trans [OF s fold_value_agree [OF e agree_consistent [OF s assms(2)] i]])
qed (simp_all add: agree_shape)

lemma constant_fold_agree:
  "fir_constant_fold f = Some r \<Longrightarrow> \<forall>g. r = Val g \<longrightarrow> consistent \<rho> f \<longrightarrow> agree_funcs \<rho> f g"
proof (induction rule: fir_constant_fold.raw_induct [rotated, consumes 1])
  case (1 self f r)
  show ?case
  proof (cases "fold_pass f")
    case (UB u)
    then show ?thesis using 1(2) by auto
  next
    case (Val st)
    show ?thesis
    proof (intro allI impI)
      fix g assume g: "r = Val g" and c: "consistent \<rho> f"
      note a = fold_pass_agree [OF Val c]
      show "agree_funcs \<rho> f g"
      proof (cases "fst st")
        case True
        then have "self (snd st) = Some r" using 1(2) Val by simp
        from 1(1) [OF this] have "agree_funcs \<rho> (snd st) g" using g agree_consistent [OF a c] by simp
        then show ?thesis by (rule agree_funcs_trans [OF a])
      next
        case False
        then show ?thesis using 1(2) Val a g by simp
      qed
    qed
  qed
qed

text \<open>C18. Constant folding is correct: let an assignment of results to identifiers satisfy the equations of all
  constants and arithmetic, bitwise and comparison values of a function. If the folder returns, every
  value of the new function either is the constant its assignment says, or is the old operation on
  operands and PHI sources with the same assigned results; and the new equations hold as well.\<close>

theorem constant_fold_sound:
  assumes "fir_constant_fold f = Some (Val g)" "consistent \<rho> f"
  shows "agree_funcs \<rho> f g \<and> consistent \<rho> g"
  using constant_fold_agree [OF assms(1)] assms(2) agree_consistent by blast

subsection \<open>Functions on which folding runs for ever\<close>

text \<open>The result of the folder satisfies what every finished pass without a change does; the rule for
  showing that it does not return.\<close>

lemma constant_fold_diverges:
  assumes "\<And>f st. P f \<Longrightarrow> fold_pass f = Val st \<Longrightarrow> fst st \<and> P (snd st)"
  shows "fir_constant_fold f = Some r \<Longrightarrow> P f \<longrightarrow> (\<exists>u. r = UB u)"
proof (induction rule: fir_constant_fold.raw_induct [rotated, consumes 1])
  case (1 self f r)
  show ?case
  proof (cases "fold_pass f")
    case (UB u)
    then show ?thesis using 1(2) by auto
  next
    case (Val st)
    then show ?thesis using 1 assms [OF _ Val] by auto
  qed
qed

text \<open>Values that are never folded: neither constants nor of one of the three classes.\<close>

definition opaque :: "fir_op \<Rightarrow> bool" where
  "opaque op \<longleftrightarrow> op \<noteq> FIR_OP_CONST \<and> \<not> fir_is_binary_arith op \<and> \<not> fir_is_binary_bitwise op \<and> \<not> fir_is_comparison op"

text \<open>A value \<open>x + 0\<close>, \<open>x - 0\<close> or \<open>x * 1\<close>: its left operand names only opaque values (or none, as a
  parameter), its right operand names constants that are neutral for it.\<close>

definition neutral :: "fir_op \<Rightarrow> u64 \<Rightarrow> bool" where
  "neutral op c \<longleftrightarrow> (op = FIR_OP_ADD \<or> op = FIR_OP_SUB) \<and> c = 0 \<or> op = FIR_OP_MUL \<and> c = 1"

definition endless :: "fir_func \<Rightarrow> nat \<Rightarrow> nat \<Rightarrow> u32 \<Rightarrow> u32 \<Rightarrow> u64 \<Rightarrow> bool" where
  "endless f b v x z c \<longleftrightarrow> in_func f b v \<and> 2 \<le> fv_num_operands (value_at f b v)
     \<and> fv_operands (value_at f b v) 0 = x \<and> fv_operands (value_at f b v) 1 = z \<and> neutral (fv_op (value_at f b v)) c
     \<and> (\<exists>w \<in> set (all_values f). fv_id w = z)
     \<and> (\<forall>w \<in> set (all_values f). (fv_id w = x \<longrightarrow> opaque (fv_op w)) \<and> (fv_id w = z \<longrightarrow> fv_op w = FIR_OP_CONST \<and> fv_data w = c))"

lemma all_values_in_func: "w \<in> set (all_values f) \<longleftrightarrow> (\<exists>b v. in_func f b v \<and> w = value_at f b v)"
proof
  assume "w \<in> set (all_values f)"
  then obtain bl where "bl \<in> set (ff_blocks f)" "w \<in> set (fb_values bl)" by (auto simp: all_values_def)
  then obtain b v where "b < length (ff_blocks f)" "ff_blocks f ! b = bl" "v < length (fb_values bl)" "fb_values bl ! v = w"
    unfolding in_set_conv_nth by blast
  then show "\<exists>b v. in_func f b v \<and> w = value_at f b v" unfolding in_func_def by blast
qed (use value_in_func in blast)

lemma in_func_shape: "shape g = shape f \<Longrightarrow> in_func g b v = in_func f b v"
  unfolding shape_def in_func_def by (metis (mono_tags, lifting) length_map nth_map)

lemma shape_steps [simp]: "shape (set_const b v r f) = shape f" "shape (forward b v k f) = shape f"
proof -
  show "shape (set_const b v r f) = shape f"
  proof (cases "b < length (ff_blocks f)")
    case True
    then show ?thesis by (simp add: shape_def set_const_def upd_value_def Let_def map_update list_update_same_conv)
  next
    case False
    then show ?thesis by (simp add: shape_def set_const_def upd_value_def Let_def list_update_beyond)
  qed
  show "shape (forward b v k f) = shape f"
    by (simp add: shape_def forward_def replace_uses_def map_values_def comp_def)
qed

lemma in_func_steps [simp]: "in_func (set_const b v r f) c w = in_func f c w" "in_func (forward b v k f) c w = in_func f c w"
  by (rule in_func_shape, simp)+

lemma endless_values:
  assumes "endless f b v x z c" "in_func f b' v'"
  shows "fv_id (value_at f b' v') = x \<Longrightarrow> opaque (fv_op (value_at f b' v'))"
    "fv_id (value_at f b' v') = z \<Longrightarrow> fv_op (value_at f b' v') = FIR_OP_CONST \<and> fv_data (value_at f b' v') = c"
  using assms value_in_func by (auto simp: endless_def)

text \<open>A change of the function keeps it endless if it keeps all constants, all identifiers and all operations
  it does not fold, and the value at the position in question.\<close>

lemma endless_change:
  assumes e: "endless f b v x z c" and shape: "shape g = shape f"
    and ids: "\<And>b' v'. in_func f b' v' \<Longrightarrow> fv_id (value_at g b' v') = fv_id (value_at f b' v')"
    and kept: "\<And>b' v'. in_func f b' v' \<Longrightarrow> fv_id (value_at f b' v') \<in> {x, z} \<Longrightarrow>
      fv_op (value_at g b' v') = fv_op (value_at f b' v') \<and> fv_data (value_at g b' v') = fv_data (value_at f b' v')"
    and here: "fv_op (value_at g b v) = fv_op (value_at f b v)" "fv_num_operands (value_at g b v) = fv_num_operands (value_at f b v)"
      "fv_operands (value_at g b v) 0 = fv_operands (value_at f b v) 0" "fv_operands (value_at g b v) 1 = fv_operands (value_at f b v) 1"
  shows "endless g b v x z c"
proof -
  note pos = in_func_shape [OF shape]
  obtain b0 v0 where z: "in_func f b0 v0" "fv_id (value_at f b0 v0) = z"
  proof -
    obtain w where "w \<in> set (all_values f)" "fv_id w = z" using e by (auto simp: endless_def)
    then show ?thesis using that unfolding all_values_in_func by blast
  qed
  have "in_func g b0 v0" "fv_id (value_at g b0 v0) = z" using z ids pos by simp_all
  then have "\<exists>w \<in> set (all_values g). fv_id w = z" using value_in_func by blast
  moreover have "(fv_id w = x \<longrightarrow> opaque (fv_op w)) \<and> (fv_id w = z \<longrightarrow> fv_op w = FIR_OP_CONST \<and> fv_data w = c)"
    if w: "w \<in> set (all_values g)" for w
  proof -
    obtain b' v' where p: "in_func f b' v'" "w = value_at g b' v'" using w pos unfolding all_values_in_func by blast
    then show ?thesis using ids [OF p(1)] kept [OF p(1)] endless_values [OF e p(1)] by auto
  qed
  ultimately show ?thesis using e here pos by (auto simp: endless_def)
qed

lemma endless_set_const:
  assumes e: "endless f b v x z c" and i: "in_func f b' v'" and f: "\<not> opaque (fv_op (value_at f b' v'))"
    "fv_op (value_at f b' v') \<noteq> FIR_OP_CONST" and n: "\<not> (b' = b \<and> v' = v)"
  shows "endless (set_const b' v' r f) b v x z c"
proof (rule endless_change [OF e])
  have no: "fv_id (value_at f b' v') \<notin> {x, z}" using endless_values [OF e i] f by auto
  have v: "in_func f b v" using e by (simp add: endless_def)
  fix k l assume k: "in_func f k l"
  show "fv_id (value_at (set_const b' v' r f) k l) = fv_id (value_at f k l)"
    using value_set_const [OF i k] by simp
  show "fv_op (value_at (set_const b' v' r f) k l) = fv_op (value_at f k l)
      \<and> fv_data (value_at (set_const b' v' r f) k l) = fv_data (value_at f k l)" if "fv_id (value_at f k l) \<in> {x, z}"
    using value_set_const [OF i k] no that by auto
next
  have v: "in_func f b v" using e by (simp add: endless_def)
  note s = value_set_const [OF i v, of r]
  show "fv_op (value_at (set_const b' v' r f) b v) = fv_op (value_at f b v)"
    "fv_num_operands (value_at (set_const b' v' r f) b v) = fv_num_operands (value_at f b v)"
    "fv_operands (value_at (set_const b' v' r f) b v) 0 = fv_operands (value_at f b v) 0"
    "fv_operands (value_at (set_const b' v' r f) b v) 1 = fv_operands (value_at f b v) 1"
    using s n by auto
qed simp

lemma endless_forward:
  assumes e: "endless f b v x z c" and i: "in_func f b' v'" and f: "\<not> opaque (fv_op (value_at f b' v'))"
    "fv_op (value_at f b' v') \<noteq> FIR_OP_CONST"
  shows "endless (forward b' v' k f) b v x z c"
proof (rule endless_change [OF e])
  have no: "fv_id (value_at f b' v') \<notin> {x, z}" using endless_values [OF e i] f by auto
  have v: "in_func f b v" using e by (simp add: endless_def)
  show "fv_op (value_at (forward b' v' k f) b v) = fv_op (value_at f b v)"
    "fv_num_operands (value_at (forward b' v' k f) b v) = fv_num_operands (value_at f b v)"
    "fv_operands (value_at (forward b' v' k f) b v) 0 = fv_operands (value_at f b v) 0"
    "fv_operands (value_at (forward b' v' k f) b v) 1 = fv_operands (value_at f b v) 1"
    using v no e by (auto simp: forward_def value_replaced replace_in_value_def endless_def)
  show "shape (forward b' v' k f) = shape f" by simp
qed (simp_all add: forward_def value_replaced replace_in_value_def)

lemma endless_consts:
  assumes "endless f b v x z c"
  shows "get_const_int f x = None" "get_const_int f z = Some c"
proof -
  show "get_const_int f x = None"
    using assms by (auto simp: get_const_int_def find_None_iff endless_def opaque_def)
  obtain w where "w \<in> set (all_values f)" "fv_id w = z" using assms by (auto simp: endless_def)
  then have "find (\<lambda>v. fv_id v = z \<and> fv_op v = FIR_OP_CONST) (all_values f) \<noteq> None"
    using assms by (auto simp: find_None_iff endless_def)
  then obtain u where u: "find (\<lambda>v. fv_id v = z \<and> fv_op v = FIR_OP_CONST) (all_values f) = Some u" by blast
  then have "u \<in> set (all_values f)" "fv_id u = z" by (auto simp: find_Some_iff)
  then have "fv_data u = c" using assms by (auto simp: endless_def)
  then show "get_const_int f z = Some c" using u by (simp add: get_const_int_def)
qed

lemma endless_binary:
  assumes "fold_binary test result b' v' st = Val st'" "endless (snd st) b v x z c" "in_func (snd st) b' v'"
    "\<And>op. test op \<Longrightarrow> \<not> opaque op \<and> op \<noteq> FIR_OP_CONST"
  shows "endless (snd st') b v x z c \<and> shape (snd st') = shape (snd st) \<and> (fst st \<longrightarrow> fst st')"
  using assms(1)
proof (cases rule: fold_binary_cases)
  case (2 p q r)
  have "\<not> (b' = b \<and> v' = v)" using 2(3) endless_consts(1) [OF assms(2)] assms(2) by (auto simp: endless_def)
  then show ?thesis using 2(6) endless_set_const [OF assms(2,3)] assms(4) [OF 2(1)] by simp
qed (use assms in simp)

lemma endless_negation:
  assumes "fold_negation b' v' st = Val st'" "endless (snd st) b v x z c" "in_func (snd st) b' v'"
  shows "endless (snd st') b v x z c \<and> shape (snd st') = shape (snd st) \<and> (fst st \<longrightarrow> fst st')"
  using assms(1)
proof (cases rule: fold_negation_cases)
  case (2 p r)
  have "\<not> (b' = b \<and> v' = v)" using 2(1) assms(2) by (auto simp: endless_def neutral_def)
  moreover have "\<not> opaque FIR_OP_NEG" by (simp add: opaque_def fir_is_binary_arith_def)
  ultimately show ?thesis using 2(1,5) endless_set_const [OF assms(2,3)] by simp
qed (use assms in simp)

lemma arith_not_opaque: "op = FIR_OP_ADD \<or> op = FIR_OP_SUB \<or> op = FIR_OP_MUL \<Longrightarrow> \<not> opaque op \<and> op \<noteq> FIR_OP_CONST"
  by (auto simp: opaque_def fir_is_binary_arith_def)

lemma endless_side:
  fixes keep_side :: nat
  assumes "endless (snd st) b v x z c" "in_func (snd st) b' v'" "set others \<subseteq> {FIR_OP_ADD, FIR_OP_SUB}"
    "b' = b \<and> v' = v \<Longrightarrow> const_side = 0 \<or> const_side = 1"
  defines "st' \<equiv> simplify_side const_side keep_side others b' v' st"
  shows "endless (snd st') b v x z c \<and> shape (snd st') = shape (snd st) \<and> (fst st \<longrightarrow> fst st')"
proof -
  have m: "FIR_OP_MUL \<notin> set others" using assms(3) by auto
  from assms(2) m show ?thesis
  proof (cases rule: simplify_side_cases [where const_side = const_side and keep_side = keep_side])
    case (2 d)
    have "\<not> opaque (fv_op (value_at (snd st) b' v')) \<and> fv_op (value_at (snd st) b' v') \<noteq> FIR_OP_CONST"
      by (rule arith_not_opaque) (use 2(2) assms(3) in blast)
    then show ?thesis using 2(3) endless_forward [OF assms(1,2)] unfolding st'_def by simp
  next
    case 3
    have "\<not> opaque (fv_op (value_at (snd st) b' v')) \<and> fv_op (value_at (snd st) b' v') \<noteq> FIR_OP_CONST"
      by (rule arith_not_opaque) (simp add: 3(2))
    moreover have "\<not> (b' = b \<and> v' = v)"
    proof
      assume here: "b' = b \<and> v' = v"
      from assms(4) [OF here] show False
        using here 3(1,2) endless_consts [OF assms(1)] assms(1) by (auto simp: endless_def neutral_def)
    qed
    ultimately show ?thesis using 3(3) endless_set_const [OF assms(1,2)] unfolding st'_def by simp
  qed (use assms(1) in \<open>simp add: st'_def\<close>)
qed

lemma endless_fold_value:
  assumes "fold_value b' v' st = Val st'" "endless (snd st) b v x z c" "in_func (snd st) b' v'"
  shows "endless (snd st') b v x z c \<and> shape (snd st') = shape (snd st) \<and> (fst st \<longrightarrow> fst st')
    \<and> (b' = b \<and> v' = v \<longrightarrow> fst st')"
proof -
  obtain s1 s2 s3 s4 where s: "fold_binary fir_is_binary_arith arith_result b' v' st = Val s1"
    "fold_binary fir_is_binary_bitwise bitwise_result b' v' s1 = Val s2"
    "fold_binary fir_is_comparison compare_result b' v' s2 = Val s3"
    "fold_negation b' v' s3 = Val s4" "fold_algebra b' v' s4 = Val st'"
    using assms(1) by (auto simp: fold_value_def cbind_Val_iff)
  have folded: "\<not> opaque op \<and> op \<noteq> FIR_OP_CONST"
    if "fir_is_binary_arith op \<or> fir_is_binary_bitwise op \<or> fir_is_comparison op" for op
    using that class_ops(1) by (auto simp: opaque_def)
  have e1: "endless (snd s1) b v x z c \<and> shape (snd s1) = shape (snd st) \<and> (fst st \<longrightarrow> fst s1)"
    by (rule endless_binary [OF s(1) assms(2,3)]) (use folded in blast)
  then have i1: "in_func (snd s1) b' v'" using assms(3) in_func_shape by blast
  have e2: "endless (snd s2) b v x z c \<and> shape (snd s2) = shape (snd s1) \<and> (fst s1 \<longrightarrow> fst s2)"
    by (rule endless_binary [OF s(2) conjunct1 [OF e1] i1]) (use folded in blast)
  then have i2: "in_func (snd s2) b' v'" using i1 in_func_shape by blast
  have e3: "endless (snd s3) b v x z c \<and> shape (snd s3) = shape (snd s2) \<and> (fst s2 \<longrightarrow> fst s3)"
    by (rule endless_binary [OF s(3) conjunct1 [OF e2] i2]) (use folded in blast)
  then have i3: "in_func (snd s3) b' v'" using i2 in_func_shape by blast
  have e4: "endless (snd s4) b v x z c \<and> shape (snd s4) = shape (snd s3) \<and> (fst s3 \<longrightarrow> fst s4)"
    by (rule endless_negation [OF s(4) conjunct1 [OF e3] i3])
  then have i4: "in_func (snd s4) b' v'" using i3 in_func_shape by blast
  define s5 where "s5 = simplify_side 1 0 [FIR_OP_ADD, FIR_OP_SUB] b' v' s4"
  have e5: "endless (snd s5) b v x z c \<and> shape (snd s5) = shape (snd s4) \<and> (fst s4 \<longrightarrow> fst s5)"
    unfolding s5_def by (rule endless_side [OF conjunct1 [OF e4] i4]) simp_all
  then have i5: "in_func (snd s5) b' v'" using i4 in_func_shape by blast
  have e6: "endless (snd (simplify_side 0 1 [FIR_OP_ADD] b' v' s5)) b v x z c \<and> shape (snd (simplify_side 0 1 [FIR_OP_ADD] b' v' s5)) = shape (snd s5)
      \<and> (fst s5 \<longrightarrow> fst (simplify_side 0 1 [FIR_OP_ADD] b' v' s5))"
    by (rule endless_side [OF conjunct1 [OF e5] i5]) simp_all
  have here: "fst s5" if "b' = b \<and> v' = v"
  proof -
    note c = endless_consts(2) [OF conjunct1 [OF e4]]
    have v: "fv_operands (value_at (snd s4) b v) 1 = z" "neutral (fv_op (value_at (snd s4) b v)) c"
      using e4 by (simp_all add: endless_def)
    then show ?thesis using that c i4 unfolding s5_def
      by (auto simp: simplify_side_def Let_def neutral_def)
  qed
  have "st' = (if 2 \<le> fv_num_operands (value_at (snd s4) b' v') then simplify_side 0 1 [FIR_OP_ADD] b' v' s5 else s4)"
    using s(5) by (simp add: fold_algebra_def s5_def split: if_splits)
  moreover have "b' = b \<and> v' = v \<Longrightarrow> 2 \<le> fv_num_operands (value_at (snd s4) b' v')"
    using e4 by (simp add: endless_def)
  ultimately show ?thesis using e1 e2 e3 e4 e5 e6 here by auto
qed

lemma cfold_reaches:
  assumes "cfold g xs s = Val s'" "P s"
    "\<And>y s s'. y \<in> set xs \<Longrightarrow> P s \<Longrightarrow> g y s = Val s' \<Longrightarrow> P s' \<and> (Q s \<longrightarrow> Q s') \<and> (y = x \<longrightarrow> Q s')"
  shows "P s' \<and> (Q s \<or> x \<in> set xs \<longrightarrow> Q s')"
  using assms
proof (induction xs arbitrary: s)
  case (Cons y xs)
  from Cons.prems(1) obtain s1 where s1: "g y s = Val s1" "cfold g xs s1 = Val s'" by (auto simp: cbind_Val_iff)
  have "P s1 \<and> (Q s \<longrightarrow> Q s1) \<and> (y = x \<longrightarrow> Q s1)" by (rule Cons.prems(3) [OF _ Cons.prems(2) s1(1)]) simp
  moreover from this have "P s' \<and> (Q s1 \<or> x \<in> set xs \<longrightarrow> Q s')" by (intro Cons.IH [OF s1(2)] Cons.prems(3)) auto
  ultimately show ?case by auto
qed simp

lemma endless_fold_block:
  assumes "fold_block b' st = Val st'" "endless (snd st) b v x z c" "b' < length (shape (snd st))"
  shows "(endless (snd st') b v x z c \<and> shape (snd st') = shape (snd st)) \<and> (fst st \<longrightarrow> fst st') \<and> (b' = b \<longrightarrow> fst st')"
proof -
  let ?vs = "[0..<length (fb_values (ff_blocks (snd st) ! b'))]"
  have r: "(endless (snd st') b v x z c \<and> shape (snd st') = shape (snd st)) \<and> (fst st \<or> (if b' = b then v else length ?vs) \<in> set ?vs \<longrightarrow> fst st')"
  proof (rule cfold_reaches [OF assms(1) [unfolded fold_block_def]])
    fix y s s'
    assume y: "y \<in> set ?vs" and s: "endless (snd s) b v x z c \<and> shape (snd s) = shape (snd st)" and e: "fold_value b' y s = Val s'"
    have "in_func (snd st) b' y" using y assms(3) by (simp add: in_func_def shape_def)
    then have "in_func (snd s) b' y" using s in_func_shape by blast
    from endless_fold_value [OF e conjunct1 [OF s] this]
    show "(endless (snd s') b v x z c \<and> shape (snd s') = shape (snd st)) \<and> (fst s \<longrightarrow> fst s')
      \<and> (y = (if b' = b then v else length ?vs) \<longrightarrow> fst s')"
      using s y by auto
  qed (use assms(2) in simp)
  moreover have "b' = b \<Longrightarrow> v \<in> set ?vs" using assms(2) by (simp add: endless_def in_func_def)
  ultimately show ?thesis by auto
qed

lemma endless_fold_pass:
  assumes "fold_pass f = Val st" "endless f b v x z c"
  shows "endless (snd st) b v x z c \<and> fst st"
proof -
  have "(endless (snd st) b v x z c \<and> shape (snd st) = shape f) \<and> (fst (False, f) \<or> b \<in> set [0..<length (ff_blocks f)] \<longrightarrow> fst st)"
  proof (rule cfold_reaches [OF assms(1) [unfolded fold_pass_def]])
    fix y s s'
    assume y: "y \<in> set [0..<length (ff_blocks f)]" and s: "endless (snd s) b v x z c \<and> shape (snd s) = shape f"
      and e: "fold_block y s = Val s'"
    have "y < length (shape f)" using y by (simp add: shape_def)
    then have "y < length (shape (snd s))" using s by simp
    from endless_fold_block [OF e conjunct1 [OF s] this] s
    show "(endless (snd s') b v x z c \<and> shape (snd s') = shape f) \<and> (fst s \<longrightarrow> fst s') \<and> (y = b \<longrightarrow> fst s')"
      by simp
  qed (use assms(2) in simp)
  then show ?thesis using assms(2) by (simp add: endless_def in_func_def)
qed

text \<open>C21. Constant folding does not return from \<open>x + 0\<close>, \<open>x - 0\<close> and \<open>x * 1\<close>: each pass replaces the uses of
  such a value, reports a change and leaves the value in place, so that the next pass does the same. It is
  enough that the function holds one such value with an operand \<open>x\<close> that is a parameter or the result of
  a load, a call or another operation that is never folded.\<close>

theorem constant_fold_endless:
  assumes "endless f b v x z c"
  shows "fir_constant_fold f \<noteq> Some (Val g)"
  using constant_fold_diverges [of "\<lambda>f. endless f b v x z c" f "Val g"] endless_fold_pass assms by blast

subsection \<open>Examples\<close>

text \<open>A function of one block from a list of operations with their operands and constants.\<close>

definition code_block :: "nat \<Rightarrow> (fir_op \<times> u32 list \<times> u64) list \<Rightarrow> fir_block" where
  "code_block b code =
     (let block = snd (fold (\<lambda>(op, ops, d) (i, bl). (Suc i, let bl' = snd (fir_value_create op FIR_TYPE_I64 ops bl)
            in bl'\<lparr>fb_values := (fb_values bl')[i := (fb_values bl' ! i)\<lparr>fv_data := d\<rparr>]\<rparr>)) code
        (0, \<lparr>fb_id = of_nat b, fb_label = ''bb'', fb_values = [], fb_terminator = 0, fb_sealed = False\<rparr>))
      in block)"

definition code_func :: "(fir_op \<times> u32 list \<times> u64) list list \<Rightarrow> fir_func" where
  "code_func blocks = \<lparr>ff_name = ''main'', ff_return_type = FIR_TYPE_I64, ff_params = [], ff_entry_block = 0,
     ff_blocks = map (\<lambda>b. code_block b (blocks ! b)) [0..<length blocks],
     ff_is_agent = False, ff_is_compiled = False, ff_next_value_id = 0\<rparr>"

text \<open>Load from address 9, add zero, return.\<close>

definition add_zero :: fir_func where
  "add_zero = code_func [[(FIR_OP_LOAD, [9], 0), (FIR_OP_CONST, [], 0), (FIR_OP_ADD, [0, 1], 0), (FIR_OP_RETURN, [2], 0)]]"

text \<open>\<open>(6 * 7) - 2\<close>.\<close>

definition forty :: fir_func where
  "forty = code_func [[(FIR_OP_CONST, [], 6), (FIR_OP_CONST, [], 7), (FIR_OP_MUL, [0, 1], 0), (FIR_OP_CONST, [], 2),
     (FIR_OP_SUB, [2, 3], 0), (FIR_OP_RETURN, [4], 0)]]"

text \<open>Block 0 holds three values, the last of them \<open>x * 1\<close> with an unknown \<open>x\<close>, and branches to block 2 or 1.\<close>

definition branching :: fir_func where
  "branching = code_func [[(FIR_OP_LOAD, [9], 0), (FIR_OP_CONST, [], 1), (FIR_OP_MUL, [0, 1], 0), (FIR_OP_BRANCH, [2, 2, 1], 0)],
     [(FIR_OP_RETURN, [], 0)], [(FIR_OP_RETURN, [], 0)]]"

theorem constant_fold_endless_witness:
  "endless add_zero 0 2 0 1 0 \<and> (\<forall>g. fir_constant_fold add_zero \<noteq> Some (Val g))"
proof -
  have "endless add_zero 0 2 0 1 0" by code_simp
  then show ?thesis using constant_fold_endless by blast
qed

definition results :: "u32 \<Rightarrow> u64" where
  "results i = (if i = 0 then 6 else if i = 1 then 7 else if i = 2 then 42 else if i = 3 then 2 else 40)"

declare fir_constant_fold.simps [code]

lemma forty_folds: "map_option (cmap (\<lambda>g. map (\<lambda>v. (fv_op v, sint (fv_data v))) (all_values g))) (fir_constant_fold forty)
   = Some (Val [(FIR_OP_CONST, 6), (FIR_OP_CONST, 7), (FIR_OP_CONST, 42), (FIR_OP_CONST, 2), (FIR_OP_CONST, 40), (FIR_OP_RETURN, 0)])"
  by code_simp

theorem constant_fold_sound_witness:
  "\<exists>g. fir_constant_fold forty = Some (Val g) \<and> consistent results forty
     \<and> agree_funcs results forty g \<and> consistent results g"
proof -
  obtain g where g: "fir_constant_fold forty = Some (Val g)"
    using forty_folds by (auto simp: cmap_Val_iff)
  have "consistent results forty" by code_simp
  then show ?thesis using g constant_fold_sound [OF g] by blast
qed

text \<open>A pass also rewrites the targets of a branch, which are block numbers among the operands: here the
  uses of value 2 become uses of value 0, and with them the branch to block 2 becomes one to block 0.\<close>

lemma pass_retargets_branch:
  "cmap (\<lambda>st. operands (value_at (snd st) 0 3)) (fold_pass branching) = Val [0, 0, 1]
   \<and> operands (value_at branching 0 3) = [2, 2, 1]"
  by code_simp

end
