(* ===== verification/FluxLexer.thy ===== *)
theory FluxLexer
  imports FluxPrelude
begin

section \<open>The lexer of FLUX.MD (fluxc/lexer.c)\<close>

text \<open>
  The lexer state, the tokens, and one definition per scanning function of fluxc/lexer.c. A scanning
  function takes the lexer and the token it fills and returns both.

  Text is a list of characters. \<open>pos\<close> is a \<open>nat\<close>, \<open>line\<close> and \<open>col\<close> are \<open>int\<close>: they stay below the number
  of characters of a source, and the model is about sources of less than \<open>2 ^ 31\<close> characters, so that the
  casts of a length to \<open>int\<close> change nothing. The text of a token is the first \<open>length\<close> characters of
  its buffer. A double is its bit pattern; reading one (\<open>strtod\<close>) and converting between \<open>double\<close> and \<open>int\<close>
  belong to the C library and the floating-point unit and are the record \<open>numlib\<close>; \<open>strtol\<close> is defined here. The loops that
  move over characters of one kind are \<open>skip_while\<close>, the ones that also count lines \<open>skip_lines\<close>.
\<close>

subsection \<open>Characters\<close>

abbreviation newline :: char where "newline \<equiv> CHR 0x0A"
abbreviation carriage :: char where "carriage \<equiv> CHR 0x0D"
abbreviation tab :: char where "tab \<equiv> CHR 0x09"
abbreviation space :: char where "space \<equiv> CHR 0x20"
abbreviation backtick :: char where "backtick \<equiv> CHR 0x60"
abbreviation backslash :: char where "backslash \<equiv> CHR 0x5C"
abbreviation apostrophe :: char where "apostrophe \<equiv> CHR 0x27"
abbreviation quotation :: char where "quotation \<equiv> CHR 0x22"

definition char_in :: "nat \<Rightarrow> char \<Rightarrow> nat \<Rightarrow> bool" where
  "char_in lo c hi \<longleftrightarrow> lo \<le> of_char c \<and> of_char c \<le> hi"

definition isdigit :: "char \<Rightarrow> bool" where
  "isdigit c \<longleftrightarrow> char_in 48 c 57"

definition isalpha :: "char \<Rightarrow> bool" where
  "isalpha c \<longleftrightarrow> char_in 65 c 90 \<or> char_in 97 c 122"

definition isalnum :: "char \<Rightarrow> bool" where
  "isalnum c \<longleftrightarrow> isalpha c \<or> isdigit c"

definition isxdigit :: "char \<Rightarrow> bool" where
  "isxdigit c \<longleftrightarrow> isdigit c \<or> char_in 65 c 70 \<or> char_in 97 c 102"

definition isoctal :: "char \<Rightarrow> bool" where
  "isoctal c \<longleftrightarrow> char_in 48 c 55"

text \<open>Letters, digits, \<open>_\<close> and \<open>-\<close>: what identifiers, keys and directive names are made of.\<close>

definition is_word :: "char \<Rightarrow> bool" where
  "is_word c \<longleftrightarrow> isalnum c \<or> c = CHR ''_'' \<or> c = CHR ''-''"

subsection \<open>Tokens and the state\<close>

datatype token_type =
    TOK_HEADING | TOK_TEXT | TOK_CODE_BLOCK | TOK_INLINE_CODE | TOK_LIST_ITEM | TOK_META_KEY | TOK_META_VALUE
  | TOK_NEWLINE | TOK_EOF | TOK_IDENTIFIER | TOK_NUMBER | TOK_STRING | TOK_OPERATOR | TOK_PUNCTUATION
  | TOK_KEYWORD | TOK_TYPE | TOK_COMMENT | TOK_DIRECTIVE

record flux_token =
  tk_type :: token_type
  tk_line :: int
  tk_col :: int
  tk_length :: nat
  tk_text :: string
  tk_heading_level :: nat
  tk_lang :: string
  tk_int_val :: u32
  tk_float_val :: u64

record flux_lexer =
  lx_source :: string
  lx_source_len :: nat
  lx_pos :: nat
  lx_line :: int
  lx_col :: int
  lx_paren_depth :: int
  lx_in_code_fence :: bool
  lx_fence_lang :: string
  lx_in_frontmatter :: bool

record numlib =
  nl_strtod :: "string \<Rightarrow> u64"
  nl_to_int :: "u64 \<Rightarrow> u32"
  nl_of_int :: "u32 \<Rightarrow> u64"

definition flux_keywords :: "string list" where
  "flux_keywords = [''fn'', ''let'', ''var'', ''const'', ''if'', ''else'', ''elif'',
     ''while'', ''for'', ''loop'', ''break'', ''continue'', ''return'',
     ''import'', ''export'', ''module'', ''struct'', ''enum'', ''union'',
     ''type'', ''trait'', ''impl'', ''agent'', ''tile'', ''region'',
     ''spawn'', ''tell'', ''ask'', ''delegate'', ''barrier'',
     ''true'', ''false'', ''nil'', ''null'', ''void'',
     ''i8'', ''i16'', ''i32'', ''i64'', ''f32'', ''f64'',
     ''bool'', ''ptr'', ''str'', ''u8'', ''u16'', ''u32'', ''u64'',
     ''capability'', ''bytecode'']"

definition flux_type_keywords :: "string list" where
  "flux_type_keywords = [''i8'', ''i16'', ''i32'', ''i64'', ''u8'', ''u16'', ''u32'', ''u64'', ''f32'', ''f64'',
     ''bool'', ''ptr'', ''str'', ''void'', ''capability'', ''bytecode'', ''region'',
     ''agent'', ''struct'', ''enum'', ''union'', ''func'', ''array'']"

definition flux_lexer_is_keyword :: "string \<Rightarrow> bool" where
  "flux_lexer_is_keyword w = list_ex (\<lambda>k. w = k) flux_keywords"

definition flux_lexer_is_type_keyword :: "string \<Rightarrow> bool" where
  "flux_lexer_is_type_keyword w = list_ex (\<lambda>k. w = k) flux_type_keywords"

subsection \<open>Moving over the source\<close>

text \<open>The character at the position, and the test that it lies in the source.\<close>

abbreviation cur :: "flux_lexer \<Rightarrow> char" where
  "cur lx \<equiv> lx_source lx ! lx_pos lx"

abbreviation inside :: "flux_lexer \<Rightarrow> bool" where
  "inside lx \<equiv> lx_pos lx < lx_source_len lx"

text \<open>\<open>ahead lx k c\<close>: the character \<open>k\<close> places on exists and is \<open>c\<close>.\<close>

definition ahead :: "flux_lexer \<Rightarrow> nat \<Rightarrow> char \<Rightarrow> bool" where
  "ahead lx k c \<longleftrightarrow> lx_pos lx + k < lx_source_len lx \<and> lx_source lx ! (lx_pos lx + k) = c"

definition advance :: "nat \<Rightarrow> flux_lexer \<Rightarrow> flux_lexer" where
  "advance n lx = lx\<lparr>lx_pos := lx_pos lx + n, lx_col := lx_col lx + int n\<rparr>"

text \<open>One character on, counting lines.\<close>

definition advance_line :: "flux_lexer \<Rightarrow> flux_lexer" where
  "advance_line lx =
     (if cur lx = newline
      then lx\<lparr>lx_line := lx_line lx + 1, lx_col := 1, lx_pos := lx_pos lx + 1\<rparr>
      else lx\<lparr>lx_col := lx_col lx + 1, lx_pos := lx_pos lx + 1\<rparr>)"

definition flux_lexer_peek_char :: "flux_lexer \<Rightarrow> char" where
  "flux_lexer_peek_char lx = (if lx_source_len lx \<le> lx_pos lx then CHR 0x00 else cur lx)"

definition flux_lexer_next_char :: "flux_lexer \<Rightarrow> char \<times> flux_lexer" where
  "flux_lexer_next_char lx = (if inside lx then (cur lx, advance_line lx) else (CHR 0x00, lx))"

fun match_from :: "flux_lexer \<Rightarrow> nat \<Rightarrow> string \<Rightarrow> bool" where
  "match_from lx i [] = True"
| "match_from lx i (c # s) = (ahead lx i c \<and> match_from lx (Suc i) s)"

definition flux_lexer_match_str :: "flux_lexer \<Rightarrow> string \<Rightarrow> bool" where
  "flux_lexer_match_str lx s = match_from lx 0 s"

lemma advance_simps [simp]:
  "lx_pos (advance n lx) = lx_pos lx + n" "lx_source_len (advance n lx) = lx_source_len lx"
  "lx_source (advance n lx) = lx_source lx" "lx_line (advance n lx) = lx_line lx"
  "lx_col (advance n lx) = lx_col lx + int n" "lx_paren_depth (advance n lx) = lx_paren_depth lx"
  by (simp_all add: advance_def)

lemma advance_line_simps [simp]:
  "lx_pos (advance_line lx) = Suc (lx_pos lx)" "lx_source_len (advance_line lx) = lx_source_len lx"
  "lx_source (advance_line lx) = lx_source lx" "lx_paren_depth (advance_line lx) = lx_paren_depth lx"
  by (simp_all add: advance_line_def)

function skip_while :: "(char \<Rightarrow> bool) \<Rightarrow> flux_lexer \<Rightarrow> flux_lexer" where
  "skip_while P lx = (if inside lx \<and> P (cur lx) then skip_while P (advance 1 lx) else lx)"
  by auto
termination by (relation "measure (\<lambda>(P, lx). lx_source_len lx - lx_pos lx)") auto

function skip_lines :: "(flux_lexer \<Rightarrow> bool) \<Rightarrow> flux_lexer \<Rightarrow> flux_lexer" where
  "skip_lines stop lx = (if inside lx \<and> \<not> stop lx then skip_lines stop (advance_line lx) else lx)"
  by auto
termination by (relation "measure (\<lambda>(stop, lx). lx_source_len lx - lx_pos lx)") auto

declare skip_while.simps [simp del] skip_lines.simps [simp del]

text \<open>What a motion leaves alone, and that it never goes back.\<close>

definition onward :: "flux_lexer \<Rightarrow> flux_lexer \<Rightarrow> bool" where
  "onward lx lx' \<longleftrightarrow> lx_source lx' = lx_source lx \<and> lx_source_len lx' = lx_source_len lx
     \<and> lx_pos lx \<le> lx_pos lx' \<and> (lx_pos lx \<le> lx_source_len lx \<longrightarrow> lx_pos lx' \<le> lx_source_len lx)
     \<and> lx_in_code_fence lx' = lx_in_code_fence lx \<and> lx_fence_lang lx' = lx_fence_lang lx
     \<and> lx_in_frontmatter lx' = lx_in_frontmatter lx"

lemma onward_refl [simp]: "onward lx lx"
  by (simp add: onward_def)

lemma onward_trans [trans]: "onward a b \<Longrightarrow> onward b c \<Longrightarrow> onward a c"
  by (auto simp: onward_def)

lemma onward_advance: "lx_pos lx + n \<le> lx_source_len lx \<Longrightarrow> onward lx (advance n lx)"
  by (simp add: onward_def advance_def)

lemma onward_advance_line: "inside lx \<Longrightarrow> onward lx (advance_line lx)"
  by (simp add: onward_def advance_line_def)

lemma onward_skip_while: "onward lx (skip_while P lx)"
proof (induction P lx rule: skip_while.induct)
  case (1 P lx)
  show ?case
  proof (cases "inside lx \<and> P (cur lx)")
    case True
    then have "onward lx (advance 1 lx)" by (simp add: onward_advance)
    then show ?thesis using 1 True onward_trans by (subst skip_while.simps) auto
  qed (subst skip_while.simps, auto)
qed

lemma onward_skip_lines: "onward lx (skip_lines stop lx)"
proof (induction stop lx rule: skip_lines.induct)
  case (1 stop lx)
  show ?case
  proof (cases "inside lx \<and> \<not> stop lx")
    case True
    then have "onward lx (advance_line lx)" by (simp add: onward_advance_line)
    then show ?thesis using 1 True onward_trans by (subst skip_lines.simps) auto
  qed (subst skip_lines.simps, auto)
qed

lemma skip_while_moves: "inside lx \<Longrightarrow> P (cur lx) \<Longrightarrow> lx_pos lx < lx_pos (skip_while P lx)"
  using onward_skip_while [of "advance 1 lx" P] by (subst skip_while.simps) (simp add: onward_def)

lemma skip_lines_stops: "inside (skip_lines stop lx) \<Longrightarrow> stop (skip_lines stop lx)"
proof (induction stop lx rule: skip_lines.induct)
  case (1 stop lx)
  then show ?case by (cases "inside lx \<and> \<not> stop lx") (auto simp: skip_lines.simps [of stop lx])
qed

lemma skip_while_stops: "inside (skip_while P lx) \<Longrightarrow> \<not> P (cur (skip_while P lx))"
proof (induction P lx rule: skip_while.induct)
  case (1 P lx)
  then show ?case by (cases "inside lx \<and> P (cur lx)") (auto simp: skip_while.simps [of P lx])
qed

subsection \<open>Blanks and comments\<close>

definition flux_lexer_skip_line_comment :: "flux_lexer \<Rightarrow> flux_lexer" where
  "flux_lexer_skip_line_comment lx = skip_while (\<lambda>c. c \<noteq> newline) lx"

text \<open>The loop of \<open>flux_lexer_skip_block_comment\<close>: it stops before the last character of the source.\<close>

function block_comment :: "nat \<Rightarrow> flux_lexer \<Rightarrow> flux_lexer" where
  "block_comment depth lx =
     (if lx_pos lx < lx_source_len lx - 1 \<and> 0 < depth
      then if cur lx = CHR ''/'' \<and> lx_source lx ! (lx_pos lx + 1) = CHR ''*'' then block_comment (depth + 1) (advance 2 lx)
           else if cur lx = CHR ''*'' \<and> lx_source lx ! (lx_pos lx + 1) = CHR ''/'' then block_comment (depth - 1) (advance 2 lx)
           else block_comment depth (advance_line lx)
      else lx)"
  by auto
termination by (relation "measure (\<lambda>(depth, lx). lx_source_len lx - lx_pos lx)") auto

declare block_comment.simps [simp del]

definition flux_lexer_skip_block_comment :: "flux_lexer \<Rightarrow> flux_lexer" where
  "flux_lexer_skip_block_comment lx = block_comment 1 (advance 2 lx)"

lemma onward_block_comment: "onward lx (block_comment depth lx)"
proof (induction depth lx rule: block_comment.induct)
  case (1 depth lx)
  show ?case
  proof (cases "lx_pos lx < lx_source_len lx - 1 \<and> 0 < depth")
    case True
    then have "onward lx (advance 2 lx)" "onward lx (advance_line lx)"
      by (auto intro!: onward_advance onward_advance_line)
    then show ?thesis using 1 True onward_trans by (subst block_comment.simps) auto
  qed (subst block_comment.simps, auto)
qed

function flux_lexer_skip_whitespace_and_comments :: "flux_lexer \<Rightarrow> flux_lexer" where
  "flux_lexer_skip_whitespace_and_comments lx =
     (if inside lx
      then if cur lx = space \<or> cur lx = tab then flux_lexer_skip_whitespace_and_comments (advance 1 lx)
           else if cur lx = CHR ''/'' \<and> ahead lx 1 (CHR ''/'')
           then flux_lexer_skip_whitespace_and_comments (flux_lexer_skip_line_comment lx)
           else if cur lx = CHR ''/'' \<and> ahead lx 1 (CHR ''*'')
           then flux_lexer_skip_whitespace_and_comments (flux_lexer_skip_block_comment lx)
           else lx
      else lx)"
  by auto
termination
proof (relation "measure (\<lambda>lx. lx_source_len lx - lx_pos lx)")
  fix lx assume "inside lx" "cur lx = CHR ''/'' \<and> ahead lx 1 (CHR ''/'')"
  then have "lx_pos lx < lx_pos (flux_lexer_skip_line_comment lx)"
    unfolding flux_lexer_skip_line_comment_def by (intro skip_while_moves) auto
  then show "(flux_lexer_skip_line_comment lx, lx) \<in> measure (\<lambda>lx. lx_source_len lx - lx_pos lx)"
    using \<open>inside lx\<close> onward_skip_while [of lx] by (simp add: flux_lexer_skip_line_comment_def onward_def)
next
  fix lx assume "inside lx" "cur lx = CHR ''/'' \<and> ahead lx 1 (CHR ''*'')"
  then show "(flux_lexer_skip_block_comment lx, lx) \<in> measure (\<lambda>lx. lx_source_len lx - lx_pos lx)"
    using onward_block_comment [of "advance 2 lx" 1] by (auto simp: flux_lexer_skip_block_comment_def onward_def)
qed auto

declare flux_lexer_skip_whitespace_and_comments.simps [simp del]

end
