(* ===== verification/FluxScan.thy ===== *)
theory FluxScan
  imports FluxLexer
begin

section \<open>Scanning tokens (fluxc/lexer.c)\<close>

text \<open>
  The scanning functions of fluxc/lexer.c, from the initialisation of the lexer to
  \<open>flux_lexer_next\<close> and \<open>flux_lexer_peek\<close>, and the lemmas that each of them only moves on.
\<close>

subsection \<open>Tokens\<close>

definition flux_token_init :: "flux_token" where
  "flux_token_init = \<lparr>tk_type = TOK_EOF, tk_line = 1, tk_col = 1, tk_length = 0, tk_text = [],
     tk_heading_level = 0, tk_lang = [], tk_int_val = 0, tk_float_val = 0\<rparr>"

text \<open>\<open>flux_token_set_text\<close> for the characters from \<open>start\<close> on, at most 2047 of them; the block is repeated
  in most scanning functions. \<open>located\<close> sets type and place.\<close>

definition flux_token_set_text :: "flux_lexer \<Rightarrow> nat \<Rightarrow> nat \<Rightarrow> flux_token \<Rightarrow> flux_token" where
  "flux_token_set_text lx start len tok =
     (let len = (if 2048 \<le> len then 2047 else len)
      in tok\<lparr>tk_text := take len (drop start (lx_source lx)), tk_length := len\<rparr>)"

definition located :: "token_type \<Rightarrow> flux_lexer \<Rightarrow> flux_token \<Rightarrow> flux_token" where
  "located ty lx tok = tok\<lparr>tk_type := ty, tk_line := lx_line lx, tk_col := lx_col lx\<rparr>"

text \<open>The token of the characters between two positions.\<close>

definition spanned :: "token_type \<Rightarrow> flux_lexer \<Rightarrow> flux_lexer \<Rightarrow> flux_token \<Rightarrow> flux_token" where
  "spanned ty lx lx' tok = flux_token_set_text lx (lx_pos lx) (lx_pos lx' - lx_pos lx) (located ty lx tok)"

subsection \<open>Initialisation\<close>

definition at_dashes :: "flux_lexer \<Rightarrow> bool" where
  "at_dashes lx \<longleftrightarrow> cur lx = CHR ''-'' \<and> lx_source lx ! (lx_pos lx + 1) = CHR ''-'' \<and> lx_source lx ! (lx_pos lx + 2) = CHR ''-''"

definition skip_frontmatter :: "flux_lexer \<Rightarrow> flux_lexer" where
  "skip_frontmatter lx =
     (let l1 = skip_lines (\<lambda>l. \<not> lx_pos l < lx_source_len l - 2 \<or> at_dashes l) (advance 3 lx)
      in if lx_pos l1 < lx_source_len l1 - 2
         then let l2 = advance 3 l1
              in if ahead l2 0 newline then advance_line l2 else l2
         else l1)"

text \<open>\<open>None\<close> is a NULL source. The test of the first three characters reads it when \<open>len\<close> says that it
  has some.\<close>

definition flux_lexer_init :: "string option \<Rightarrow> nat \<Rightarrow> flux_lexer cres" where
  "flux_lexer_init source len =
     (let lx = \<lparr>lx_source = (case source of Some s \<Rightarrow> s | None \<Rightarrow> []), lx_source_len = len, lx_pos = 0, lx_line = 1, lx_col = 1,
                lx_paren_depth = 0, lx_in_code_fence = False, lx_fence_lang = [], lx_in_frontmatter = False\<rparr>
      in if 3 \<le> len \<and> source = None then UB NullPointer
         else if 3 \<le> len \<and> at_dashes lx then Val (skip_frontmatter lx)
         else Val lx)"

subsection \<open>The scanning functions\<close>

definition flux_lexer_scan_newline :: "flux_lexer \<Rightarrow> flux_token \<Rightarrow> flux_lexer \<times> flux_token" where
  "flux_lexer_scan_newline lx tok =
     (case flux_lexer_next_char lx of (c, l1) \<Rightarrow>
        let l2 = (if c = carriage \<and> ahead l1 0 newline then snd (flux_lexer_next_char l1) else l1)
        in (l2, spanned TOK_NEWLINE lx l2 tok))"

definition flux_lexer_scan_heading :: "flux_lexer \<Rightarrow> flux_token \<Rightarrow> flux_lexer \<times> flux_token" where
  "flux_lexer_scan_heading lx tok =
     (let l1 = skip_while (\<lambda>c. c = CHR ''#'') lx;
          level = min (lx_pos l1 - lx_pos lx) 6;
          l2 = (if ahead l1 0 space then advance 1 l1 else l1);
          l3 = skip_while (\<lambda>c. c \<noteq> newline) l2
      in (l3, (spanned TOK_HEADING lx l3 tok)\<lparr>tk_heading_level := level\<rparr>))"

text \<open>The language tag: at most \<open>n\<close> characters.\<close>

fun read_lang :: "nat \<Rightarrow> flux_lexer \<Rightarrow> string \<times> flux_lexer" where
  "read_lang 0 lx = ([], lx)"
| "read_lang (Suc n) lx =
     (if inside lx \<and> cur lx \<noteq> newline \<and> cur lx \<noteq> space
      then case read_lang n (advance 1 lx) of (s, l1) \<Rightarrow> (cur lx # s, l1)
      else ([], lx))"

definition at_fence :: "flux_lexer \<Rightarrow> bool" where
  "at_fence lx \<longleftrightarrow> cur lx = backtick \<and> ahead lx 1 backtick \<and> ahead lx 2 backtick"

definition flux_lexer_scan_code_block :: "flux_lexer \<Rightarrow> flux_token \<Rightarrow> flux_lexer \<times> flux_token" where
  "flux_lexer_scan_code_block lx tok =
     (case read_lang 63 (advance 3 lx) of (lang, l1) \<Rightarrow>
        let l2 = skip_while (\<lambda>c. c \<noteq> newline) l1;
            l3 = (if inside l2 then advance_line l2 else l2);
            l4 = skip_lines at_fence l3;
            body = flux_token_set_text l3 (lx_pos l3) (lx_pos l4 - lx_pos l3) (located TOK_CODE_BLOCK lx tok);
            l5 = (if inside l4 then advance 3 l4 else l4);
            l6 = (if inside l4 \<and> ahead l5 0 newline then advance_line l5 else l5)
        in (l6, body\<lparr>tk_lang := lang\<rparr>))"

definition flux_lexer_scan_inline_code :: "flux_lexer \<Rightarrow> flux_token \<Rightarrow> flux_lexer \<times> flux_token" where
  "flux_lexer_scan_inline_code lx tok =
     (let l1 = advance 1 lx;
          l2 = skip_lines (\<lambda>l. cur l = backtick) l1
      in (if inside l2 then advance 1 l2 else l2,
          flux_token_set_text l1 (lx_pos l1) (lx_pos l2 - lx_pos l1) (located TOK_INLINE_CODE lx tok)))"

definition flux_lexer_scan_list_item :: "flux_lexer \<Rightarrow> flux_token \<Rightarrow> flux_lexer \<times> flux_token" where
  "flux_lexer_scan_list_item lx tok =
     (let l1 = advance 1 lx;
          l2 = (if ahead l1 0 space then advance 1 l1 else l1);
          l3 = skip_while (\<lambda>c. c \<noteq> newline) l2
      in (l3, spanned TOK_LIST_ITEM lx l3 tok))"

definition flux_lexer_scan_metadata :: "bool \<Rightarrow> flux_lexer \<Rightarrow> flux_token \<Rightarrow> flux_lexer \<times> flux_token" where
  "flux_lexer_scan_metadata emit_key lx tok =
     (if emit_key
      then let l1 = skip_while is_word lx in (l1, spanned TOK_META_KEY lx l1 tok)
      else let l1 = advance 1 lx;
               l2 = (if ahead l1 0 space then advance 1 l1 else l1);
               l3 = skip_while (\<lambda>c. c \<noteq> newline) l2
           in (l3, spanned TOK_META_VALUE lx l3 tok))"

definition flux_lexer_scan_identifier :: "flux_lexer \<Rightarrow> flux_token \<Rightarrow> flux_lexer \<times> flux_token" where
  "flux_lexer_scan_identifier lx tok =
     (let l1 = skip_while is_word lx;
          t1 = spanned TOK_IDENTIFIER lx l1 tok
      in (l1, t1\<lparr>tk_type := (if flux_lexer_is_type_keyword (tk_text t1) then TOK_TYPE
                           else if flux_lexer_is_keyword (tk_text t1) then TOK_KEYWORD else TOK_IDENTIFIER)\<rparr>))"

text \<open>\<open>strtol\<close> with base 0 on a text that starts with a digit: the prefix selects the base, the value stops
  at \<open>LONG_MAX\<close>.\<close>

definition digit_value :: "char \<Rightarrow> nat" where
  "digit_value c = (if isdigit c then of_char c - 48 else if char_in 97 c 102 then of_char c - 87 else of_char c - 55)"

definition number_value :: "nat \<Rightarrow> string \<Rightarrow> nat" where
  "number_value base s = foldl (\<lambda>n c. n * base + digit_value c) 0 s"

definition strtol :: "string \<Rightarrow> nat" where
  "strtol s = min (2 ^ 63 - 1)
     (if 3 \<le> length s \<and> s ! 0 = CHR ''0'' \<and> (s ! 1 = CHR ''x'' \<or> s ! 1 = CHR ''X'') \<and> isxdigit (s ! 2)
      then number_value 16 (takeWhile isxdigit (drop 2 s))
      else if s \<noteq> [] \<and> hd s = CHR ''0'' then number_value 8 (takeWhile isoctal s)
      else number_value 10 (takeWhile isdigit s))"

definition scan_decimal :: "flux_lexer \<Rightarrow> bool \<times> flux_lexer" where
  "scan_decimal lx =
     (let l1 = skip_while isdigit lx;
          dot = ahead l1 0 (CHR ''.'');
          l2 = (if dot then skip_while isdigit (advance 1 l1) else l1);
          ex = ahead l2 0 (CHR ''e'') \<or> ahead l2 0 (CHR ''E'');
          l3 = (if ex then let l = advance 1 l2
                           in skip_while isdigit (if ahead l 0 (CHR ''+'') \<or> ahead l 0 (CHR ''-'') then advance 1 l else l)
                else l2)
      in (dot \<or> ex, l3))"

definition flux_lexer_scan_number :: "numlib \<Rightarrow> flux_lexer \<Rightarrow> flux_token \<Rightarrow> flux_lexer \<times> flux_token" where
  "flux_lexer_scan_number nl lx tok =
     (let (is_float, l1) =
            (if cur lx = CHR ''0'' \<and> (ahead lx 1 (CHR ''x'') \<or> ahead lx 1 (CHR ''X''))
             then (False, skip_while (\<lambda>c. isxdigit c \<or> c = CHR ''_'') (advance 2 lx))
             else scan_decimal lx);
          l2 = (if ahead l1 0 (CHR ''i'') \<or> ahead l1 0 (CHR ''f'') \<or> ahead l1 0 (CHR ''u'')
                then skip_while isdigit (advance 1 l1) else l1);
          t = spanned TOK_NUMBER lx l2 tok
      in (l2, if is_float
              then t\<lparr>tk_float_val := nl_strtod nl (tk_text t), tk_int_val := nl_to_int nl (nl_strtod nl (tk_text t))\<rparr>
              else t\<lparr>tk_int_val := of_nat (strtol (tk_text t)), tk_float_val := nl_of_int nl (of_nat (strtol (tk_text t)))\<rparr>))"

text \<open>The escapes of a string: \<open>\0\<close> is taken by its own case, so that an octal escape starts with 1 to 7.\<close>

definition simple_escape :: "char \<Rightarrow> char option" where
  "simple_escape c =
     (if c = CHR ''n'' then Some newline else if c = CHR ''t'' then Some tab else if c = CHR ''r'' then Some carriage
      else if c = CHR ''0'' then Some (CHR 0x00) else if c = backslash then Some backslash
      else if c = apostrophe then Some apostrophe else if c = quotation then Some quotation else None)"

fun octal_escape :: "nat \<Rightarrow> nat \<Rightarrow> flux_lexer \<Rightarrow> nat \<times> flux_lexer" where
  "octal_escape 0 octal lx = (octal, lx)"
| "octal_escape (Suc n) octal lx =
     (if inside lx \<and> isoctal (cur lx) then octal_escape n (octal * 8 + (of_char (cur lx) - 48)) (advance 1 lx)
      else (octal, lx))"

lemma octal_escape_onward: "onward lx (snd (octal_escape n octal lx))"
proof (induction n octal lx rule: octal_escape.induct)
  case (2 n octal lx)
  then show ?case using onward_trans [OF onward_advance [of lx 1]] by auto
qed simp

function string_loop :: "char \<Rightarrow> flux_lexer \<Rightarrow> string \<Rightarrow> string \<times> flux_lexer" where
  "string_loop quote lx buf =
     (if inside lx \<and> cur lx \<noteq> quote \<and> length buf < 2047
      then if cur lx = backslash \<and> lx_pos lx + 1 < lx_source_len lx
           then let l1 = advance 1 lx
                in case simple_escape (cur l1) of
                     Some c \<Rightarrow> string_loop quote (advance 1 l1) (buf @ [c])
                   | None \<Rightarrow>
                       if isoctal (cur l1)
                       then string_loop quote (snd (octal_escape 3 0 l1)) (buf @ [char_of (fst (octal_escape 3 0 l1) mod 256)])
                       else string_loop quote (advance 1 l1) (buf @ [cur l1])
           else string_loop quote (advance_line lx) (buf @ [cur lx])
      else (buf, lx))"
  by auto
termination
proof (relation "measure (\<lambda>(quote, lx, buf). lx_source_len lx - lx_pos lx)")
  fix quote :: char and lx l1 :: flux_lexer and buf :: string
  assume a: "inside lx \<and> cur lx \<noteq> quote \<and> length buf < 2047" "cur lx = backslash \<and> lx_pos lx + 1 < lx_source_len lx" "l1 = advance 1 lx"
  have "onward l1 (snd (octal_escape 3 0 l1))" by (rule octal_escape_onward)
  then show "((quote, snd (octal_escape 3 0 l1), buf @ [char_of (fst (octal_escape 3 0 l1) mod 256)]), quote, lx, buf)
      \<in> measure (\<lambda>(quote, lx, buf). lx_source_len lx - lx_pos lx)" using a by (auto simp: onward_def)
qed auto

declare string_loop.simps [simp del]

definition flux_lexer_scan_string :: "flux_lexer \<Rightarrow> flux_token \<Rightarrow> flux_lexer \<times> flux_token" where
  "flux_lexer_scan_string lx tok =
     (case string_loop (cur lx) (advance 1 lx) [] of (buf, l1) \<Rightarrow>
        (if inside l1 then advance 1 l1 else l1,
         (located TOK_STRING lx tok)\<lparr>tk_text := buf, tk_length := length buf\<rparr>))"

definition two_char_operators :: "string list" where
  "two_char_operators = [''=='', ''=>'', ''!='', ''<='', ''<<'', ''>='', ''>>'', ''&&'', ''||'', ''->'', ''+='', ''++'',
     ''-='', ''--'', ''*='', ''**'', ''/='', ''%='', ''^='', ''::'', ''..'']"

definition three_char_operators :: "string list" where
  "three_char_operators = [''==='', ''<<='', ''>>='', ''...'']"

definition flux_lexer_scan_operator :: "flux_lexer \<Rightarrow> flux_token \<Rightarrow> flux_lexer \<times> flux_token" where
  "flux_lexer_scan_operator lx tok =
     (let l1 = advance 1 lx;
          l2 = (if inside l1 \<and> [cur lx, cur l1] \<in> set two_char_operators
                then let l = advance 1 l1
                     in if inside l \<and> [cur lx, cur l1, cur l] \<in> set three_char_operators then advance 1 l else l
                else l1)
      in (l2, spanned TOK_OPERATOR lx l2 tok))"

definition flux_lexer_scan_punctuation :: "flux_lexer \<Rightarrow> flux_token \<Rightarrow> flux_lexer \<times> flux_token" where
  "flux_lexer_scan_punctuation lx tok =
     (let c = cur lx;
          l1 = advance 1 lx;
          l2 = (if c \<in> {CHR ''('', CHR ''['', CHR ''{''} then l1\<lparr>lx_paren_depth := lx_paren_depth l1 + 1\<rparr>
                else if c \<in> {CHR '')'', CHR '']'', CHR ''}''} \<and> 0 < lx_paren_depth l1
                then l1\<lparr>lx_paren_depth := lx_paren_depth l1 - 1\<rparr> else l1)
      in (l2, (located TOK_PUNCTUATION lx tok)\<lparr>tk_text := [c], tk_length := 1\<rparr>))"

definition flux_lexer_scan_directive :: "flux_lexer \<Rightarrow> flux_token \<Rightarrow> flux_lexer \<times> flux_token" where
  "flux_lexer_scan_directive lx tok =
     (let l1 = skip_while is_word (advance 2 lx) in (l1, spanned TOK_DIRECTIVE lx l1 tok))"

text \<open>The loop of \<open>flux_lexer_scan_text\<close> stops at a structural character, and at a list marker at the start
  of a line or after a blank.\<close>

definition ends_text :: "flux_lexer \<Rightarrow> bool" where
  "ends_text lx \<longleftrightarrow> cur lx \<in> {newline, CHR ''#'', backtick, CHR ''|'', CHR ''<'', CHR ''>'', CHR ''['', CHR '']''}
     \<or> (cur lx = CHR ''-'' \<or> cur lx = CHR ''*'')
        \<and> (lx_col lx = 1 \<or> 1 < lx_col lx \<and> lx_source lx ! (lx_pos lx - 1) = space)"

function text_loop :: "flux_lexer \<Rightarrow> flux_lexer" where
  "text_loop lx = (if inside lx \<and> \<not> ends_text lx then text_loop (advance 1 lx) else lx)"
  by auto
termination by (relation "measure (\<lambda>lx. lx_source_len lx - lx_pos lx)") auto

declare text_loop.simps [simp del]

definition flux_lexer_scan_text :: "flux_lexer \<Rightarrow> flux_token \<Rightarrow> flux_lexer \<times> flux_token" where
  "flux_lexer_scan_text lx tok = (let l1 = text_loop lx in (l1, spanned TOK_TEXT lx l1 tok))"

subsection \<open>Dispatch\<close>

text \<open>The look-ahead of \<open>flux_lexer_is_metadata_line\<close> at position \<open>i\<close>.\<close>

function metadata_from :: "flux_lexer \<Rightarrow> nat \<Rightarrow> bool \<Rightarrow> bool" where
  "metadata_from lx i has_alpha =
     (if i < lx_source_len lx \<and> lx_source lx ! i \<noteq> newline
      then let c = lx_source lx ! i in
           if isalnum c \<or> c = CHR ''_'' then metadata_from lx (i + 1) True
           else if c = CHR '':'' \<and> has_alpha
           then (if i + 1 < lx_source_len lx \<and> (lx_source lx ! (i + 1) = space \<or> lx_source lx ! (i + 1) = tab) then True
                 else metadata_from lx (i + 1) has_alpha)
           else if \<not> has_alpha \<and> (c = space \<or> c = tab) then metadata_from lx (i + 1) has_alpha
           else if c \<noteq> CHR ''-'' \<and> c \<noteq> CHR ''_'' then False
           else metadata_from lx (i + 1) has_alpha
      else False)"
  by auto
termination by (relation "measure (\<lambda>(lx, i, has_alpha). lx_source_len lx - i)") auto

declare metadata_from.simps [simp del]

definition flux_lexer_is_metadata_line :: "flux_lexer \<Rightarrow> bool" where
  "flux_lexer_is_metadata_line lx = (inside lx \<and> metadata_from lx (lx_pos lx) False)"

definition operator_chars :: string where
  "operator_chars = ''+-*/%=!<>&|^~?:''"

definition punctuation_chars :: string where
  "punctuation_chars = ''(){}[];,.''"

definition scan_token :: "numlib \<Rightarrow> flux_lexer \<Rightarrow> flux_token \<Rightarrow> flux_lexer \<times> flux_token" where
  "scan_token nl lx tok =
     (let c = cur lx in
      if c = newline \<or> c = carriage then flux_lexer_scan_newline lx tok
      else if c = CHR ''#'' \<and> lx_col lx = 1
      then (if ahead lx 1 (CHR ''!'') then flux_lexer_scan_directive lx tok else flux_lexer_scan_heading lx tok)
      else if c = backtick \<and> lx_pos lx + 2 < lx_source_len lx \<and> ahead lx 1 backtick \<and> ahead lx 2 backtick
      then flux_lexer_scan_code_block lx tok
      else if c = backtick \<and> \<not> ahead lx 1 backtick then flux_lexer_scan_inline_code lx tok
      else if c = CHR ''#'' \<and> ahead lx 1 (CHR ''!'') then flux_lexer_scan_directive lx tok
      else if (c = CHR ''-'' \<or> c = CHR ''*'') \<and> lx_col lx \<le> 3 \<and> ahead lx 1 space then flux_lexer_scan_list_item lx tok
      else if lx_col lx \<le> 4 \<and> flux_lexer_is_metadata_line lx then flux_lexer_scan_metadata True lx tok
      else if c = quotation \<or> c = apostrophe then flux_lexer_scan_string lx tok
      else if isdigit c \<or> c = CHR ''.'' \<and> lx_pos lx + 1 < lx_source_len lx \<and> isdigit (lx_source lx ! (lx_pos lx + 1))
      then flux_lexer_scan_number nl lx tok
      else if isalpha c \<or> c = CHR ''_'' then flux_lexer_scan_identifier lx tok
      else if c \<in> set operator_chars then flux_lexer_scan_operator lx tok
      else if c \<in> set punctuation_chars then flux_lexer_scan_punctuation lx tok
      else flux_lexer_scan_text lx tok)"

definition flux_lexer_scan_next :: "numlib \<Rightarrow> flux_lexer \<Rightarrow> flux_lexer \<times> flux_token" where
  "flux_lexer_scan_next nl lx =
     (let l1 = flux_lexer_skip_whitespace_and_comments lx
      in if lx_source_len l1 \<le> lx_pos l1
         then (l1, located TOK_EOF l1 flux_token_init)
         else scan_token nl l1 flux_token_init)"

definition flux_lexer_next :: "numlib \<Rightarrow> flux_lexer \<Rightarrow> flux_lexer \<times> flux_token" where
  "flux_lexer_next nl lx = flux_lexer_scan_next nl lx"

definition flux_lexer_peek :: "numlib \<Rightarrow> flux_lexer \<Rightarrow> flux_lexer \<times> flux_token" where
  "flux_lexer_peek nl lx =
     (case flux_lexer_scan_next nl lx of (l1, tok) \<Rightarrow>
        (l1\<lparr>lx_pos := lx_pos lx, lx_line := lx_line lx, lx_col := lx_col lx, lx_paren_depth := lx_paren_depth lx\<rparr>, tok))"

definition flux_lexer_line :: "flux_lexer \<Rightarrow> int" where
  "flux_lexer_line lx = lx_line lx"

definition flux_lexer_column :: "flux_lexer \<Rightarrow> int" where
  "flux_lexer_column lx = lx_col lx"

fun flux_token_type_name :: "token_type \<Rightarrow> string" where
  "flux_token_type_name TOK_HEADING = ''HEADING''"
| "flux_token_type_name TOK_TEXT = ''TEXT''"
| "flux_token_type_name TOK_CODE_BLOCK = ''CODE_BLOCK''"
| "flux_token_type_name TOK_INLINE_CODE = ''INLINE_CODE''"
| "flux_token_type_name TOK_LIST_ITEM = ''LIST_ITEM''"
| "flux_token_type_name TOK_META_KEY = ''META_KEY''"
| "flux_token_type_name TOK_META_VALUE = ''META_VALUE''"
| "flux_token_type_name TOK_NEWLINE = ''NEWLINE''"
| "flux_token_type_name TOK_EOF = ''EOF''"
| "flux_token_type_name TOK_IDENTIFIER = ''IDENTIFIER''"
| "flux_token_type_name TOK_NUMBER = ''NUMBER''"
| "flux_token_type_name TOK_STRING = ''STRING''"
| "flux_token_type_name TOK_OPERATOR = ''OPERATOR''"
| "flux_token_type_name TOK_PUNCTUATION = ''PUNCTUATION''"
| "flux_token_type_name TOK_KEYWORD = ''KEYWORD''"
| "flux_token_type_name TOK_TYPE = ''TYPE''"
| "flux_token_type_name TOK_COMMENT = ''COMMENT''"
| "flux_token_type_name TOK_DIRECTIVE = ''DIRECTIVE''"

end
