(* ===== verification/FluxLexProps.thy ===== *)
theory FluxLexProps
  imports FluxScan
begin

section \<open>Progress of the lexer\<close>

text \<open>
  Every call of the lexer moves on in the source or reports its end, with two exceptions, which make it
  hand out the same empty token for ever.
\<close>

subsection \<open>Every scanning function moves on\<close>

definition passes :: "flux_lexer \<Rightarrow> flux_lexer \<Rightarrow> bool" where
  "passes lx lx' \<longleftrightarrow> onward lx lx' \<and> lx_pos lx < lx_pos lx'"

lemma passes_onward: "passes a b \<Longrightarrow> onward b c \<Longrightarrow> passes a c"
  using onward_trans [of a b c] by (auto simp: passes_def onward_def)

lemma onward_passes: "onward a b \<Longrightarrow> passes b c \<Longrightarrow> passes a c"
  using onward_trans [of a b c] by (auto simp: passes_def onward_def)

lemma passes_advance: "0 < n \<Longrightarrow> lx_pos lx + n \<le> lx_source_len lx \<Longrightarrow> passes lx (advance n lx)"
  by (simp add: passes_def onward_advance)

lemma passes_advance_line: "inside lx \<Longrightarrow> passes lx (advance_line lx)"
  by (simp add: passes_def onward_advance_line)

lemma passes_skip_while: "inside lx \<Longrightarrow> P (cur lx) \<Longrightarrow> passes lx (skip_while P lx)"
  by (simp add: passes_def onward_skip_while skip_while_moves)

text \<open>An optional character.\<close>

lemma onward_optional: "onward lx (if ahead lx 0 c then advance 1 lx else lx)"
  by (auto simp: ahead_def intro!: onward_advance)

lemma onward_optional_line: "onward lx (if ahead lx 0 c then advance_line lx else lx)"
  by (auto simp: ahead_def intro!: onward_advance_line)

lemma onward_closing: "onward lx (if inside lx then advance 1 lx else lx)"
  by (auto intro!: onward_advance)

lemma read_lang_onward: "onward lx (snd (read_lang n lx))"
proof (induction n lx rule: read_lang.induct)
  case (2 n lx)
  then show ?case using onward_trans [OF onward_advance [of lx 1]] by (auto split: prod.split)
qed simp

lemma string_loop_onward: "onward lx (snd (string_loop q lx buf))"
proof (induction q lx buf rule: string_loop.induct)
  case (1 q lx buf)
  let ?l = "advance 1 lx"
  show ?case
  proof (cases "inside lx \<and> cur lx \<noteq> q \<and> length buf < 2047")
    case a: True
    show ?thesis
    proof (cases "cur lx = backslash \<and> lx_pos lx + 1 < lx_source_len lx")
      case b: True
      have l: "onward lx ?l" using b by (intro onward_advance) simp
      have l2: "onward lx (advance 1 ?l)" using l b by (intro onward_trans [OF l onward_advance]) simp
      have l3: "onward lx (snd (octal_escape 3 0 ?l))" by (rule onward_trans [OF l octal_escape_onward])
      note IH = 1(1-3) [OF a b refl]
      show ?thesis
      proof (cases "simple_escape (cur ?l)")
        case None
        then show ?thesis using a b onward_trans [OF l3 IH(1)] onward_trans [OF l2 IH(2)]
          by (subst string_loop.simps) (simp add: Let_def)
      next
        case (Some c)
        then show ?thesis using a b onward_trans [OF l2 IH(3)] by (subst string_loop.simps) (simp add: Let_def)
      qed
    next
      case False
      then show ?thesis using a onward_trans [OF onward_advance_line 1(4)] by (subst string_loop.simps) auto
    qed
  next
    case False
    then show ?thesis by (subst string_loop.simps) auto
  qed
qed

lemma text_loop_onward: "onward lx (text_loop lx)"
proof (induction lx rule: text_loop.induct)
  case (1 lx)
  show ?case
  proof (cases "inside lx \<and> \<not> ends_text lx")
    case True
    then show ?thesis using onward_trans [OF onward_advance [of lx 1] 1] by (subst text_loop.simps) simp
  next
    case False
    then show ?thesis by (subst text_loop.simps) auto
  qed
qed

lemma text_loop_passes: "inside lx \<Longrightarrow> \<not> ends_text lx \<Longrightarrow> passes lx (text_loop lx)"
  using passes_onward [OF passes_advance [of 1 lx] text_loop_onward] by (subst text_loop.simps) simp

lemma skip_blanks_onward: "onward lx (flux_lexer_skip_whitespace_and_comments lx)"
proof (induction lx rule: flux_lexer_skip_whitespace_and_comments.induct)
  case (1 lx)
  have a: "inside lx \<Longrightarrow> onward lx (advance 1 lx)" by (intro onward_advance) simp
  have b: "onward lx (flux_lexer_skip_line_comment lx)"
    by (simp add: flux_lexer_skip_line_comment_def onward_skip_while)
  have c: "ahead lx 1 d \<Longrightarrow> onward lx (flux_lexer_skip_block_comment lx)" for d
    unfolding flux_lexer_skip_block_comment_def ahead_def by (rule onward_trans [OF onward_advance onward_block_comment]) simp
  show ?case
    using onward_trans [OF a 1(1)] onward_trans [OF b 1(2)] onward_trans [OF c 1(3)]
    by (subst flux_lexer_skip_whitespace_and_comments.simps) auto
qed

lemma skip_blanks_stops:
  "inside (flux_lexer_skip_whitespace_and_comments lx) \<Longrightarrow>
   cur (flux_lexer_skip_whitespace_and_comments lx) \<noteq> space \<and> cur (flux_lexer_skip_whitespace_and_comments lx) \<noteq> tab"
proof (induction lx rule: flux_lexer_skip_whitespace_and_comments.induct)
  case (1 lx)
  show ?case
  proof (cases "inside lx \<and> (cur lx = space \<or> cur lx = tab \<or> cur lx = CHR ''/'' \<and> (ahead lx 1 (CHR ''/'') \<or> ahead lx 1 (CHR ''*'')))")
    case True
    then show ?thesis using 1 by (auto simp: flux_lexer_skip_whitespace_and_comments.simps [of lx] ahead_def)
  next
    case False
    then have "flux_lexer_skip_whitespace_and_comments lx = lx"
      by (auto simp: flux_lexer_skip_whitespace_and_comments.simps [of lx])
    then show ?thesis using False 1(4) by auto
  qed
qed

lemma newline_passes: "inside lx \<Longrightarrow> passes lx (fst (flux_lexer_scan_newline lx tok))"
  by (auto simp: flux_lexer_scan_newline_def flux_lexer_next_char_def Let_def ahead_def
      intro!: passes_advance_line passes_onward [OF passes_advance_line onward_advance_line])

lemma heading_passes: "inside lx \<Longrightarrow> cur lx = CHR ''#'' \<Longrightarrow> passes lx (fst (flux_lexer_scan_heading lx tok))"
  unfolding flux_lexer_scan_heading_def Let_def fst_conv
  by (intro passes_onward [OF passes_onward [OF passes_skip_while onward_optional] onward_skip_while])

lemma code_block_passes:
  assumes "lx_pos lx + 3 \<le> lx_source_len lx" shows "passes lx (fst (flux_lexer_scan_code_block lx tok))"
proof -
  obtain lang l1 where r: "read_lang 63 (advance 3 lx) = (lang, l1)" by fastforce
  let ?l2 = "skip_while (\<lambda>c. c \<noteq> newline) l1"
  let ?l3 = "if inside ?l2 then advance_line ?l2 else ?l2"
  let ?l4 = "skip_lines at_fence ?l3"
  let ?l5 = "if inside ?l4 then advance 3 ?l4 else ?l4"
  have "passes lx l1" using passes_onward [OF passes_advance [of 3 lx] read_lang_onward [of "advance 3 lx" 63]] r assms by simp
  moreover have "onward l1 ?l2" by (rule onward_skip_while)
  moreover have "onward ?l2 ?l3" by (auto intro: onward_advance_line)
  moreover have "onward ?l3 ?l4" by (rule onward_skip_lines)
  moreover have "onward ?l4 ?l5"
  proof (cases "inside ?l4")
    case True
    then have "at_fence ?l4" using skip_lines_stops by blast
    then show ?thesis using True by (auto simp: at_fence_def ahead_def intro!: onward_advance)
  qed simp
  moreover have "onward ?l5 (if inside ?l4 \<and> ahead ?l5 0 newline then advance_line ?l5 else ?l5)"
    by (auto simp: ahead_def intro!: onward_advance_line)
  ultimately show ?thesis
    unfolding flux_lexer_scan_code_block_def r Let_def prod.case fst_conv by (meson passes_onward)
qed

lemma inline_passes: "inside lx \<Longrightarrow> passes lx (fst (flux_lexer_scan_inline_code lx tok))"
  unfolding flux_lexer_scan_inline_code_def Let_def fst_conv
  by (rule passes_onward [OF passes_onward [OF passes_advance onward_skip_lines] onward_closing]) simp_all

lemma list_item_passes: "inside lx \<Longrightarrow> passes lx (fst (flux_lexer_scan_list_item lx tok))"
  unfolding flux_lexer_scan_list_item_def Let_def fst_conv
  by (rule passes_onward [OF passes_onward [OF passes_advance onward_optional] onward_skip_while]) simp_all

lemma key_passes: "inside lx \<Longrightarrow> is_word (cur lx) \<Longrightarrow> passes lx (fst (flux_lexer_scan_metadata True lx tok))"
  by (simp add: flux_lexer_scan_metadata_def Let_def passes_skip_while)

lemma identifier_passes: "inside lx \<Longrightarrow> is_word (cur lx) \<Longrightarrow> passes lx (fst (flux_lexer_scan_identifier lx tok))"
  by (simp add: flux_lexer_scan_identifier_def Let_def passes_skip_while)

lemma string_passes: "inside lx \<Longrightarrow> passes lx (fst (flux_lexer_scan_string lx tok))"
proof -
  assume i: "inside lx"
  obtain s l where s: "string_loop (cur lx) (advance 1 lx) [] = (s, l)" by fastforce
  have "passes lx l" using passes_onward [OF passes_advance [of 1 lx] string_loop_onward [of "advance 1 lx" "cur lx" "[]"]] i s by simp
  then show ?thesis unfolding flux_lexer_scan_string_def s prod.case fst_conv by (rule passes_onward [OF _ onward_closing])
qed

lemma decimal_onward: "onward lx (snd (scan_decimal lx))"
proof -
  define l1 where "l1 = skip_while isdigit lx"
  define l2 where "l2 = (if ahead l1 0 (CHR ''.'') then skip_while isdigit (advance 1 l1) else l1)"
  have one: "ahead l 0 c \<Longrightarrow> onward l (advance 1 l)" for l c by (auto simp: ahead_def intro: onward_advance)
  have a: "onward lx l1" unfolding l1_def by (rule onward_skip_while)
  have b: "onward l1 l2" unfolding l2_def using onward_trans [OF one onward_skip_while] by simp
  have c: "onward (advance 1 l2) (if ahead (advance 1 l2) 0 (CHR ''+'') \<or> ahead (advance 1 l2) 0 (CHR ''-'')
      then advance 1 (advance 1 l2) else advance 1 l2)" using one by auto
  have d: "onward l2 (snd (scan_decimal lx))"
    unfolding scan_decimal_def Let_def snd_conv l1_def [symmetric] l2_def [symmetric]
    using onward_trans [OF one onward_trans [OF c onward_skip_while]] by simp
  show ?thesis by (rule onward_trans [OF onward_trans [OF a b] d])
qed

lemma decimal_passes:
  assumes "inside lx" "isdigit (cur lx) \<or> cur lx = CHR ''.''" shows "passes lx (snd (scan_decimal lx))"
proof (cases "isdigit (cur lx)")
  case True
  define l1 where "l1 = skip_while isdigit lx"
  have "passes lx l1" unfolding l1_def by (rule passes_skip_while [where P = isdigit, OF assms(1) True])
  moreover have "skip_while isdigit l1 = l1"
    using skip_while_stops [of isdigit lx] unfolding l1_def [symmetric] by (subst skip_while.simps) auto
  then have "scan_decimal lx = scan_decimal l1" unfolding scan_decimal_def Let_def l1_def [symmetric] by simp
  ultimately show ?thesis using passes_onward [OF _ decimal_onward [of l1]] by simp
next
  case False
  then have dot: "cur lx = CHR ''.''" "skip_while isdigit lx = lx" using assms(2) by (auto simp: skip_while.simps [of isdigit lx])
  define l2 where "l2 = skip_while isdigit (advance 1 lx)"
  have "passes lx l2" unfolding l2_def by (rule passes_onward [OF passes_advance onward_skip_while]) (use assms(1) in simp_all)
  moreover have "onward l2 (snd (scan_decimal lx))"
  proof -
    have one: "ahead l 0 c \<Longrightarrow> onward l (advance 1 l)" for l c by (auto simp: ahead_def intro: onward_advance)
    have c: "onward (advance 1 l2) (if ahead (advance 1 l2) 0 (CHR ''+'') \<or> ahead (advance 1 l2) 0 (CHR ''-'')
        then advance 1 (advance 1 l2) else advance 1 l2)" using one by auto
    have "ahead lx 0 (CHR ''.'')" using dot assms(1) by (simp add: ahead_def)
    then show ?thesis unfolding scan_decimal_def Let_def snd_conv dot(2) if_P [OF \<open>ahead lx 0 (CHR ''.'')\<close>] l2_def [symmetric]
      using onward_trans [OF one onward_trans [OF c onward_skip_while]] by simp
  qed
  ultimately show ?thesis by (rule passes_onward)
qed

lemma number_passes:
  assumes "inside lx" "isdigit (cur lx) \<or> cur lx = CHR ''.''"
  shows "passes lx (fst (flux_lexer_scan_number nl lx tok))"
proof -
  define r where "r = (if cur lx = CHR ''0'' \<and> (ahead lx 1 (CHR ''x'') \<or> ahead lx 1 (CHR ''X''))
             then (False, skip_while (\<lambda>c. isxdigit c \<or> c = CHR ''_'') (advance 2 lx)) else scan_decimal lx)"
  have "passes lx (snd r)"
  proof (cases "cur lx = CHR ''0'' \<and> (ahead lx 1 (CHR ''x'') \<or> ahead lx 1 (CHR ''X''))")
    case True
    then have "passes lx (advance 2 lx)" by (intro passes_advance) (auto simp: ahead_def)
    then show ?thesis using True passes_onward [OF _ onward_skip_while] by (auto simp: r_def)
  next
    case False
    then show ?thesis using decimal_passes [OF assms] by (auto simp: r_def)
  qed
  moreover have "onward l (if ahead l 0 (CHR ''i'') \<or> ahead l 0 (CHR ''f'') \<or> ahead l 0 (CHR ''u'')
      then skip_while isdigit (advance 1 l) else l)" for l
    using onward_trans [OF onward_advance [of l 1] onward_skip_while] by (auto simp: ahead_def)
  ultimately show ?thesis
    unfolding flux_lexer_scan_number_def r_def [symmetric] Let_def by (cases r) (simp add: passes_onward)
qed

lemma operator_passes: "inside lx \<Longrightarrow> passes lx (fst (flux_lexer_scan_operator lx tok))"
  by (auto simp: flux_lexer_scan_operator_def Let_def
      intro!: passes_advance passes_onward [OF passes_advance onward_advance]
        passes_onward [OF passes_onward [OF passes_advance onward_advance] onward_advance])

lemma punctuation_passes: "inside lx \<Longrightarrow> passes lx (fst (flux_lexer_scan_punctuation lx tok))"
  using passes_advance [of 1 lx] by (auto simp: flux_lexer_scan_punctuation_def Let_def passes_def onward_def)

lemma directive_passes: "ahead lx 1 c \<Longrightarrow> passes lx (fst (flux_lexer_scan_directive lx tok))"
  unfolding flux_lexer_scan_directive_def Let_def fst_conv ahead_def
  by (rule passes_onward [OF passes_advance onward_skip_while]) simp_all

lemma skip_frontmatter_onward:
  assumes "lx_pos lx + 3 \<le> lx_source_len lx" shows "onward lx (skip_frontmatter lx)"
proof -
  let ?l1 = "skip_lines (\<lambda>l. \<not> lx_pos l < lx_source_len l - 2 \<or> at_dashes l) (advance 3 lx)"
  have a: "onward lx ?l1" by (rule onward_trans [OF onward_advance onward_skip_lines]) (use assms in simp)
  show ?thesis
  proof (cases "lx_pos ?l1 < lx_source_len ?l1 - 2")
    case True
    then have "onward ?l1 (advance 3 ?l1)" by (intro onward_advance) simp
    then show ?thesis using True onward_trans [OF a onward_trans [OF _ onward_optional_line]]
      by (simp only: skip_frontmatter_def Let_def if_True)
  next
    case False
    then show ?thesis using a by (simp only: skip_frontmatter_def Let_def if_False)
  qed
qed

subsection \<open>Progress and its exceptions\<close>

text \<open>A hash sign that neither starts a line nor a directive, and two backticks that do not start a fence.\<close>

definition blocked :: "flux_lexer \<Rightarrow> bool" where
  "blocked lx \<longleftrightarrow> inside lx \<and>
     (cur lx = CHR ''#'' \<and> lx_col lx \<noteq> 1 \<and> \<not> ahead lx 1 (CHR ''!'')
      \<or> cur lx = backtick \<and> ahead lx 1 backtick \<and> \<not> ahead lx 2 backtick)"

lemma metadata_starts: "metadata_from lx i False \<Longrightarrow>
    is_word (lx_source lx ! i) \<or> lx_source lx ! i = space \<or> lx_source lx ! i = tab"
  by (subst (asm) metadata_from.simps) (auto simp: is_word_def Let_def split: if_splits)

lemma metadata_key: "flux_lexer_is_metadata_line lx \<Longrightarrow> cur lx \<noteq> space \<Longrightarrow> cur lx \<noteq> tab \<Longrightarrow> is_word (cur lx)"
  using metadata_starts by (auto simp: flux_lexer_is_metadata_line_def)

lemma special_not_word: "\<not> is_word (CHR ''#'')" "\<not> is_word backtick" "\<not> isdigit (CHR ''#'')" "\<not> isdigit backtick"
  "\<not> isalpha (CHR ''#'')" "\<not> isalpha backtick"
  by code_simp+

lemma is_wordI: "isalpha c \<or> c = CHR ''_'' \<Longrightarrow> is_word c"
  by (auto simp: is_word_def isalnum_def)

text \<open>The structural characters that the dispatch has not taken before it comes to plain text.\<close>

lemma ends_text_taken:
  "ends_text lx \<Longrightarrow> cur lx \<notin> set operator_chars \<Longrightarrow> cur lx \<notin> set punctuation_chars \<Longrightarrow>
   cur lx = newline \<or> cur lx = CHR ''#'' \<or> cur lx = backtick"
  by (auto simp: ends_text_def operator_chars_def punctuation_chars_def)

lemma if_passes: "(b \<Longrightarrow> passes lx (fst p)) \<Longrightarrow> (\<not> b \<Longrightarrow> passes lx (fst q)) \<Longrightarrow> passes lx (fst (if b then p else q))"
  by simp

lemma scan_token_passes:
  assumes "inside lx" "cur lx \<noteq> space" "cur lx \<noteq> tab" "\<not> blocked lx"
  shows "passes lx (fst (scan_token nl lx tok))"
proof -
  note d = scan_token_def Let_def
  consider (nl) "cur lx = newline \<or> cur lx = carriage"
    | (hash) "cur lx = CHR ''#''" | (tick) "cur lx = backtick"
    | (other) "cur lx \<noteq> newline" "cur lx \<noteq> carriage" "cur lx \<noteq> CHR ''#''" "cur lx \<noteq> backtick" by blast
  then show ?thesis
  proof cases
    case nl
    then show ?thesis using newline_passes [OF assms(1)] by (simp add: d)
  next
    case hash
    then show ?thesis using assms(1,4) heading_passes [OF assms(1) hash] directive_passes
      by (auto simp: d blocked_def)
  next
    case tick
    then show ?thesis using assms(1,4) inline_passes code_block_passes by (auto simp: d blocked_def ahead_def)
  next
    case other
    have key: "flux_lexer_is_metadata_line lx \<Longrightarrow> is_word (cur lx)" using metadata_key assms(2,3) by blast
    have rest: "passes lx (fst (flux_lexer_scan_text lx tok))"
      if "cur lx \<notin> set operator_chars" "cur lx \<notin> set punctuation_chars"
    proof -
      have "\<not> ends_text lx" using ends_text_taken [OF _ that] other by blast
      then show ?thesis using text_loop_passes [OF assms(1)] by (simp add: flux_lexer_scan_text_def Let_def)
    qed
    note parts = list_item_passes [OF assms(1)] key_passes [OF assms(1) key] string_passes [OF assms(1)] operator_passes [OF assms(1)]
      identifier_passes [OF assms(1) is_wordI] punctuation_passes [OF assms(1)] number_passes [OF assms(1)] rest
    have e: "scan_token nl lx tok =
     (if (cur lx = CHR ''-'' \<or> cur lx = CHR ''*'') \<and> lx_col lx \<le> 3 \<and> ahead lx 1 space then flux_lexer_scan_list_item lx tok
      else if lx_col lx \<le> 4 \<and> flux_lexer_is_metadata_line lx then flux_lexer_scan_metadata True lx tok
      else if cur lx = quotation \<or> cur lx = apostrophe then flux_lexer_scan_string lx tok
      else if isdigit (cur lx) \<or> cur lx = CHR ''.'' \<and> lx_pos lx + 1 < lx_source_len lx \<and> isdigit (lx_source lx ! (lx_pos lx + 1))
      then flux_lexer_scan_number nl lx tok
      else if isalpha (cur lx) \<or> cur lx = CHR ''_'' then flux_lexer_scan_identifier lx tok
      else if cur lx \<in> set operator_chars then flux_lexer_scan_operator lx tok
      else if cur lx \<in> set punctuation_chars then flux_lexer_scan_punctuation lx tok
      else flux_lexer_scan_text lx tok)"
      unfolding scan_token_def Let_def using other by (simp only: if_False simp_thms)
    show ?thesis unfolding e by (intro if_passes) (use parts in blast)+
  qed
qed

lemma blocked_token:
  assumes "blocked lx"
  shows "scan_token nl lx tok = (lx, spanned TOK_TEXT lx lx tok)"
proof -
  have i: "inside lx" and c: "cur lx = CHR ''#'' \<or> cur lx = backtick" using assms by (auto simp: blocked_def)
  have m: "\<not> flux_lexer_is_metadata_line lx"
    using c metadata_starts [of lx "lx_pos lx"] special_not_word by (auto simp: flux_lexer_is_metadata_line_def)
  have s: "text_loop lx = lx" using c by (subst text_loop.simps) (auto simp: ends_text_def)
  have "scan_token nl lx tok = flux_lexer_scan_text lx tok" using c
  proof
    assume h: "cur lx = CHR ''#''"
    then have "lx_col lx \<noteq> 1" "\<not> ahead lx 1 (CHR ''!'')" using assms by (auto simp: blocked_def)
    then show ?thesis unfolding scan_token_def Let_def h
      by (simp add: m special_not_word operator_chars_def punctuation_chars_def)
  next
    assume h: "cur lx = backtick"
    then have "ahead lx 1 backtick" "\<not> ahead lx 2 backtick" using assms by (auto simp: blocked_def)
    then show ?thesis unfolding scan_token_def Let_def h
      by (simp add: m special_not_word operator_chars_def punctuation_chars_def)
  qed
  then show ?thesis by (simp add: flux_lexer_scan_text_def Let_def s)
qed

lemma spanned_type [simp]: "tk_type (spanned ty a b tok) = ty" "tk_type (located ty a tok) = ty"
  "tk_type (flux_token_set_text a n m tok) = tk_type tok"
  by (simp_all add: spanned_def located_def flux_token_set_text_def Let_def)

lemma not_eof_if: "tk_type (snd p) \<noteq> ty \<Longrightarrow> tk_type (snd q) \<noteq> ty \<Longrightarrow> tk_type (snd (if b then p else q)) \<noteq> ty"
  by simp

lemma scan_types:
  "tk_type (snd (flux_lexer_scan_newline lx tok)) = TOK_NEWLINE" "tk_type (snd (flux_lexer_scan_heading lx tok)) = TOK_HEADING"
  "tk_type (snd (flux_lexer_scan_code_block lx tok)) = TOK_CODE_BLOCK" "tk_type (snd (flux_lexer_scan_inline_code lx tok)) = TOK_INLINE_CODE"
  "tk_type (snd (flux_lexer_scan_list_item lx tok)) = TOK_LIST_ITEM" "tk_type (snd (flux_lexer_scan_metadata True lx tok)) = TOK_META_KEY"
  "tk_type (snd (flux_lexer_scan_identifier lx tok)) \<in> {TOK_TYPE, TOK_KEYWORD, TOK_IDENTIFIER}"
  "tk_type (snd (flux_lexer_scan_string lx tok)) = TOK_STRING"
  "tk_type (snd (flux_lexer_scan_number nl lx tok)) = TOK_NUMBER" "tk_type (snd (flux_lexer_scan_operator lx tok)) = TOK_OPERATOR"
  "tk_type (snd (flux_lexer_scan_punctuation lx tok)) = TOK_PUNCTUATION"
  "tk_type (snd (flux_lexer_scan_directive lx tok)) = TOK_DIRECTIVE" "tk_type (snd (flux_lexer_scan_text lx tok)) = TOK_TEXT"
  by (simp_all add: flux_lexer_scan_newline_def flux_lexer_scan_heading_def flux_lexer_scan_code_block_def
      flux_lexer_scan_inline_code_def flux_lexer_scan_list_item_def flux_lexer_scan_metadata_def flux_lexer_scan_identifier_def
      flux_lexer_scan_string_def flux_lexer_scan_number_def flux_lexer_scan_operator_def flux_lexer_scan_punctuation_def
      flux_lexer_scan_directive_def flux_lexer_scan_text_def Let_def split: prod.split)

lemma scan_token_type: "tk_type (snd (scan_token nl lx tok)) \<noteq> TOK_EOF"
  unfolding scan_token_def Let_def using scan_types(7) [of lx tok] by (intro not_eof_if) (auto simp: scan_types)

text \<open>One call: blanks are skipped, then the source has ended, or the lexer is blocked, or a token is read.\<close>

lemma next_progress:
  assumes "lx_pos lx \<le> lx_source_len lx"
  shows "let s = flux_lexer_skip_whitespace_and_comments lx; (lx', tok) = flux_lexer_next nl lx
    in onward lx lx' \<and>
      (if lx_pos s = lx_source_len lx then lx' = s \<and> tk_type tok = TOK_EOF
       else if blocked s then lx' = s \<and> tk_type tok = TOK_TEXT \<and> tk_text tok = []
       else lx_pos s < lx_pos lx' \<and> tk_type tok \<noteq> TOK_EOF)"
proof -
  let ?s = "flux_lexer_skip_whitespace_and_comments lx"
  obtain lx' tok where n: "flux_lexer_next nl lx = (lx', tok)" by fastforce
  have o: "onward lx ?s" by (rule skip_blanks_onward)
  then have len: "lx_source_len ?s = lx_source_len lx" "lx_pos ?s \<le> lx_source_len lx" using assms by (simp_all add: onward_def)
  consider (eof) "lx_pos ?s = lx_source_len lx" | (block) "inside ?s" "blocked ?s" | (go) "inside ?s" "\<not> blocked ?s"
    using len by fastforce
  then show ?thesis
  proof cases
    case eof
    then have "lx' = ?s \<and> tk_type tok = TOK_EOF"
      using n len by (auto simp: flux_lexer_next_def flux_lexer_scan_next_def Let_def located_def)
    then show ?thesis unfolding n Let_def using eof o by simp
  next
    case block
    then have "lx' = ?s \<and> tk_type tok = TOK_TEXT \<and> tk_text tok = []"
      using n blocked_token [OF block(2)]
      by (auto simp: flux_lexer_next_def flux_lexer_scan_next_def Let_def spanned_def located_def flux_token_set_text_def)
    then show ?thesis unfolding n Let_def using block o len by simp
  next
    case go
    then have e: "flux_lexer_next nl lx = scan_token nl ?s flux_token_init"
      by (simp add: flux_lexer_next_def flux_lexer_scan_next_def Let_def)
    have "cur ?s \<noteq> space \<and> cur ?s \<noteq> tab" by (rule skip_blanks_stops [OF go(1)])
    then have "passes ?s (fst (scan_token nl ?s flux_token_init))" using scan_token_passes go by blast
    have "tk_type tok \<noteq> TOK_EOF" using scan_token_type [of nl ?s flux_token_init] n e by simp
    have "onward lx lx' \<and> lx_pos ?s < lx_pos lx' \<and> tk_type tok \<noteq> TOK_EOF"
    proof -
      have "lx' = fst (scan_token nl ?s flux_token_init)" using e n by simp (metis fst_conv)
      then show ?thesis using \<open>passes ?s _\<close> \<open>tk_type tok \<noteq> TOK_EOF\<close> onward_trans [OF o] by (simp add: passes_def)
    qed
    then show ?thesis unfolding n Let_def using go len by simp
  qed
qed

text \<open>C28. Progress of the lexer: whatever the source, a call first skips blanks and comments. At the end of
  the source it reports EOF. If it then stands at a hash sign inside a line that starts no directive, or at exactly two backticks
  in a row, it returns an empty TEXT token and stays there. In all other cases it consumes at least one character
  and returns a token that is not EOF. It never moves back or beyond the end and never changes the source.\<close>

theorem lexer_progress:
  assumes "lx_pos lx \<le> lx_source_len lx"
  shows "let s = flux_lexer_skip_whitespace_and_comments lx; (lx', tok) = flux_lexer_next nl lx
    in onward lx lx' \<and>
      (if lx_pos s = lx_source_len lx then lx' = s \<and> tk_type tok = TOK_EOF
       else if blocked s then lx' = s \<and> tk_type tok = TOK_TEXT \<and> tk_text tok = []
       else lx_pos s < lx_pos lx' \<and> tk_type tok \<noteq> TOK_EOF)"
  using assms by (rule next_progress)

subsection \<open>Reading a whole source\<close>

text \<open>The lexer after \<open>n\<close> calls, and the token the next call returns.\<close>

definition lexer_after :: "numlib \<Rightarrow> nat \<Rightarrow> flux_lexer \<Rightarrow> flux_lexer" where
  "lexer_after nl n lx = ((\<lambda>l. fst (flux_lexer_next nl l)) ^^ n) lx"

definition token_after :: "numlib \<Rightarrow> nat \<Rightarrow> flux_lexer \<Rightarrow> flux_token" where
  "token_after nl n lx = snd (flux_lexer_next nl (lexer_after nl n lx))"

lemma lexer_after_Suc: "lexer_after nl (Suc n) lx = fst (flux_lexer_next nl (lexer_after nl n lx))"
  by (simp add: lexer_after_def)

lemma lexer_after_shift: "lexer_after nl (Suc n) lx = lexer_after nl n (fst (flux_lexer_next nl lx))"
  unfolding lexer_after_def funpow_Suc_right comp_def by simp

lemma blocked_next:
  assumes "blocked (flux_lexer_skip_whitespace_and_comments lx)"
  shows "flux_lexer_next nl lx = (flux_lexer_skip_whitespace_and_comments lx,
      spanned TOK_TEXT (flux_lexer_skip_whitespace_and_comments lx) (flux_lexer_skip_whitespace_and_comments lx) flux_token_init)"
  using blocked_token [OF assms] assms
  by (simp add: flux_lexer_next_def flux_lexer_scan_next_def Let_def blocked_def not_le)

lemma blocked_no_blanks: "blocked lx \<Longrightarrow> flux_lexer_skip_whitespace_and_comments lx = lx"
  by (subst flux_lexer_skip_whitespace_and_comments.simps) (auto simp: blocked_def)

text \<open>C27. The lexer hangs: from a hash sign inside a line that starts no directive, or from exactly two backticks in a row,
  every further call returns the same empty TEXT token at the same place, so that EOF never comes.\<close>

theorem blocked_lexer_hangs:
  assumes "blocked lx"
  shows "lexer_after nl n lx = lx \<and> tk_type (token_after nl n lx) = TOK_TEXT \<and> tk_length (token_after nl n lx) = 0"
proof -
  note b = blocked_no_blanks [OF assms]
  have "flux_lexer_next nl lx = (lx, spanned TOK_TEXT lx lx flux_token_init)"
    using blocked_next [of lx] assms b by simp
  moreover from this have "lexer_after nl n lx = lx" by (induction n) (simp_all add: lexer_after_def)
  ultimately show ?thesis
    by (simp add: token_after_def spanned_def flux_token_set_text_def located_def Let_def)
qed

lemma next_onward: "lx_pos lx \<le> lx_source_len lx \<Longrightarrow> onward lx (fst (flux_lexer_next nl lx))"
  using next_progress [of lx nl] by (auto simp: Let_def split: prod.splits)

lemma reaches_eof:
  assumes "lx_pos lx \<le> lx_source_len lx" "lx_source_len lx \<le> length (lx_source lx)"
    "CHR ''#'' \<notin> set (lx_source lx)" "backtick \<notin> set (lx_source lx)"
  shows "\<exists>n \<le> lx_source_len lx - lx_pos lx. tk_type (token_after nl n lx) = TOK_EOF"
  using assms
proof (induction "lx_source_len lx - lx_pos lx" arbitrary: lx rule: less_induct)
  case less
  let ?s = "flux_lexer_skip_whitespace_and_comments lx"
  obtain l tok where n: "flux_lexer_next nl lx = (l, tok)" by fastforce
  have o: "onward lx ?s" by (rule skip_blanks_onward)
  have "\<not> blocked ?s"
  proof
    assume b: "blocked ?s"
    then have "cur ?s \<in> set (lx_source lx)" using o less.prems(2) by (auto simp: blocked_def onward_def)
    then show False using b less.prems(3,4) by (auto simp: blocked_def)
  qed
  then have p: "onward lx l" "if lx_pos ?s = lx_source_len lx then tk_type tok = TOK_EOF else lx_pos ?s < lx_pos l"
    using next_progress [OF less.prems(1), of nl] n by (auto simp: Let_def split: if_splits)
  show ?case
  proof (cases "lx_pos ?s = lx_source_len lx")
    case True
    then have "tk_type (token_after nl 0 lx) = TOK_EOF" using p n by (simp add: token_after_def lexer_after_def)
    then show ?thesis by blast
  next
    case False
    have m: "lx_pos lx < lx_pos l" "lx_pos l \<le> lx_source_len lx" "lx_source_len l = lx_source_len lx" "lx_source l = lx_source lx"
      using p o False less.prems(1) by (auto simp: onward_def)
    then obtain k where k: "k \<le> lx_source_len l - lx_pos l" "tk_type (token_after nl k l) = TOK_EOF"
    proof -
      have "lx_source_len l - lx_pos l < lx_source_len lx - lx_pos lx" using m by simp
      from less.hyps [OF this] show ?thesis using m less.prems that by auto
    qed
    have "tk_type (token_after nl (Suc k) lx) = TOK_EOF" using k n by (simp add: token_after_def lexer_after_shift)
    moreover have "Suc k \<le> lx_source_len lx - lx_pos lx" using k m by simp
    ultimately show ?thesis by blast
  qed
qed

text \<open>C26. Tokenizing ends: a source without hash signs and backticks is read to its EOF token within one call
  more than it has characters.\<close>

theorem lexer_reaches_eof:
  assumes "flux_lexer_init (Some src) (length src) = Val lx" "CHR ''#'' \<notin> set src" "backtick \<notin> set src"
  shows "\<exists>n. n \<le> length src \<and> tk_type (token_after nl n lx) = TOK_EOF"
proof -
  define l0 where "l0 = \<lparr>lx_source = src, lx_source_len = length src, lx_pos = 0, lx_line = 1, lx_col = 1,
                lx_paren_depth = 0, lx_in_code_fence = False, lx_fence_lang = [], lx_in_frontmatter = False\<rparr>"
  have "onward l0 lx"
  proof (cases "3 \<le> length src \<and> at_dashes l0")
    case True
    then have "lx = skip_frontmatter l0" using assms(1) by (simp add: flux_lexer_init_def l0_def Let_def)
    then show ?thesis using skip_frontmatter_onward [of l0] True by (simp add: l0_def)
  next
    case False
    then have "lx = l0" using assms(1) by (auto simp: flux_lexer_init_def l0_def Let_def split: if_splits)
    then show ?thesis by simp
  qed
  then have lx: "lx_pos lx \<le> lx_source_len lx" "lx_source_len lx = length src" "lx_source lx = src"
    by (auto simp: onward_def l0_def)
  then obtain n where "n \<le> length src - lx_pos lx" "tk_type (token_after nl n lx) = TOK_EOF"
    using reaches_eof [of lx nl] assms(2,3) by auto
  then show ?thesis using le_trans by fastforce
qed

subsection \<open>Peeking\<close>

text \<open>Peeking: it returns the token the next call of \<open>flux_lexer_next\<close> returns and leaves the lexer exactly as it was.\<close>

theorem peek_is_next:
  assumes "lx_pos lx \<le> lx_source_len lx"
  shows "flux_lexer_peek nl lx = (lx, snd (flux_lexer_next nl lx))"
proof -
  obtain l tok where n: "flux_lexer_scan_next nl lx = (l, tok)" by fastforce
  then have "onward lx l" using next_onward [OF assms, of nl] by (simp add: flux_lexer_next_def)
  then show ?thesis using n by (simp add: flux_lexer_peek_def flux_lexer_next_def onward_def)
qed

subsection \<open>Examples\<close>

text \<open>\<open>any_lib\<close> stands for a C library in the witnesses, \<open>lexer_on\<close> for a fresh lexer.\<close>

definition any_lib :: numlib where
  "any_lib = \<lparr>nl_strtod = (\<lambda>s. of_nat (length s)), nl_to_int = ucast, nl_of_int = ucast\<rparr>"

definition lexer_on :: "string \<Rightarrow> flux_lexer" where
  "lexer_on src = \<lparr>lx_source = src, lx_source_len = length src, lx_pos = 0, lx_line = 1, lx_col = 1,
     lx_paren_depth = 0, lx_in_code_fence = False, lx_fence_lang = [], lx_in_frontmatter = False\<rparr>"

text \<open>\<open>fn f\<close>, a line break, \<open>  x = 1\<close>.\<close>

definition demo_source :: string where
  "demo_source = ''fn f'' @ [newline] @ ''  x = 1''"

text \<open>\<open>a # b\<close>: behind \<open>a\<close> the lexer stands at the hash sign.\<close>

definition stuck_lexer :: flux_lexer where
  "stuck_lexer = (lexer_on ''a # b'')\<lparr>lx_pos := 2, lx_col := 3\<rparr>"

theorem lexer_progress_witness:
  "let s = flux_lexer_skip_whitespace_and_comments (lexer_on demo_source); (lx', tok) = flux_lexer_next any_lib (lexer_on demo_source)
    in onward (lexer_on demo_source) lx' \<and>
      (if lx_pos s = lx_source_len (lexer_on demo_source) then lx' = s \<and> tk_type tok = TOK_EOF
       else if blocked s then lx' = s \<and> tk_type tok = TOK_TEXT \<and> tk_text tok = []
       else lx_pos s < lx_pos lx' \<and> tk_type tok \<noteq> TOK_EOF)"
  by (rule lexer_progress) (simp add: lexer_on_def)

theorem blocked_lexer_hangs_witness:
  "fst (flux_lexer_next any_lib (fst (flux_lexer_next any_lib (lexer_on ''a # b'')))) = stuck_lexer \<and> blocked stuck_lexer
   \<and> (\<forall>n. lexer_after any_lib n stuck_lexer = stuck_lexer
        \<and> tk_type (token_after any_lib n stuck_lexer) = TOK_TEXT \<and> tk_length (token_after any_lib n stuck_lexer) = 0)"
proof -
  have "fst (flux_lexer_next any_lib (fst (flux_lexer_next any_lib (lexer_on ''a # b'')))) = stuck_lexer" by code_simp
  moreover have b: "blocked stuck_lexer" by code_simp
  ultimately show ?thesis using blocked_lexer_hangs [OF b] by simp
qed

theorem lexer_reaches_eof_witness:
  "\<exists>n. n \<le> length demo_source \<and> tk_type (token_after any_lib n (lexer_on demo_source)) = TOK_EOF"
proof (rule lexer_reaches_eof)
  show "flux_lexer_init (Some demo_source) (length demo_source) = Val (lexer_on demo_source)" by code_simp
  show "CHR ''#'' \<notin> set demo_source" "backtick \<notin> set demo_source" by code_simp+
qed

end
