(* ===== verification/FluxLexPlaces.thy ===== *)
theory FluxLexPlaces
  imports FluxLexProps
begin

section \<open>Places of tokens, and string literals\<close>

text \<open>
  The line and column of a token against a reference definition over the text before it, and the round
  trip between strings and string literals.
\<close>

subsection \<open>The reference definition\<close>

definition place :: "string \<Rightarrow> int \<times> int" where
  "place before = (1 + int (length (filter (\<lambda>c. c = newline) before)),
                   1 + int (length (takeWhile (\<lambda>c. c \<noteq> newline) (rev before))))"

lemma place_snoc: "place (s @ [c]) = (if c = newline then (fst (place s) + 1, 1) else (fst (place s), snd (place s) + 1))"
  by (simp add: place_def)

text \<open>The counters of the lexer are those of the text before its position.\<close>

definition exact :: "flux_lexer \<Rightarrow> bool" where
  "exact lx \<longleftrightarrow> lx_source_len lx \<le> length (lx_source lx) \<and> lx_pos lx \<le> lx_source_len lx
     \<and> (lx_line lx, lx_col lx) = place (take (lx_pos lx) (lx_source lx))"

text \<open>No line break is escaped in a string.\<close>

definition plain_source :: "string \<Rightarrow> bool" where
  "plain_source s \<longleftrightarrow> \<not> (\<exists>i. Suc i < length s \<and> s ! i = backslash \<and> s ! Suc i = newline)"

lemma plain_sourceI: "backslash \<notin> set s \<Longrightarrow> plain_source s"
  unfolding plain_source_def
proof
  assume n: "backslash \<notin> set s" and "\<exists>i. Suc i < length s \<and> s ! i = backslash \<and> s ! Suc i = newline"
  then obtain i where "Suc i < length s" "s ! i = backslash" by blast
  then show False using n nth_mem [of i s] by simp
qed

subsection \<open>Every scanning function keeps the counters exact\<close>

lemma exact_advance_line: "exact lx \<Longrightarrow> inside lx \<Longrightarrow> exact (advance_line lx)"
  by (auto simp: exact_def advance_line_def take_Suc_conv_app_nth place_snoc) (metis fst_conv snd_conv)+

lemma exact_advance: "exact lx \<Longrightarrow> lx_pos lx + n \<le> lx_source_len lx \<Longrightarrow>
   (\<And>k. k < n \<Longrightarrow> lx_source lx ! (lx_pos lx + k) \<noteq> newline) \<Longrightarrow> exact (advance n lx)"
proof (induction n)
  case (Suc n)
  then have "exact (advance n lx)" "lx_source lx ! (lx_pos lx + n) \<noteq> newline" by simp_all
  then show ?case using Suc.prems(2)
    by (auto simp: exact_def take_Suc_conv_app_nth place_snoc) (metis fst_conv snd_conv)+
qed (simp add: advance_def)

lemma exact_advance1: "exact lx \<Longrightarrow> inside lx \<Longrightarrow> cur lx \<noteq> newline \<Longrightarrow> exact (advance 1 lx)"
  by (rule exact_advance) simp_all

lemma exact_skip_while: "exact lx \<Longrightarrow> \<not> P newline \<Longrightarrow> exact (skip_while P lx)"
proof (induction P lx rule: skip_while.induct)
  case (1 P lx)
  show ?case
  proof (cases "inside lx \<and> P (cur lx)")
    case True
    then have "exact (advance 1 lx)" using 1 by (intro exact_advance1) auto
    then show ?thesis using 1 True by (subst skip_while.simps) auto
  next
    case False
    then show ?thesis using 1 by (subst skip_while.simps) auto
  qed
qed

lemma exact_skip_lines: "exact lx \<Longrightarrow> exact (skip_lines stop lx)"
proof (induction stop lx rule: skip_lines.induct)
  case (1 stop lx)
  show ?case
  proof (cases "inside lx \<and> \<not> stop lx")
    case True
    then have "exact (advance_line lx)" using 1 by (intro exact_advance_line) auto
    then show ?thesis using 1 True by (subst skip_lines.simps) auto
  next
    case False
    then show ?thesis using 1 by (subst skip_lines.simps) auto
  qed
qed

lemma exact_text_loop: "exact lx \<Longrightarrow> exact (text_loop lx)"
proof (induction lx rule: text_loop.induct)
  case (1 lx)
  show ?case
  proof (cases "inside lx \<and> \<not> ends_text lx")
    case True
    then have "exact (advance 1 lx)" using 1 by (intro exact_advance1) (auto simp: ends_text_def)
    then show ?thesis using 1 True by (subst text_loop.simps) auto
  next
    case False
    then show ?thesis using 1 by (subst text_loop.simps) auto
  qed
qed

lemma exact_block_comment: "exact lx \<Longrightarrow> exact (block_comment depth lx)"
proof (induction depth lx rule: block_comment.induct)
  case (1 depth lx)
  show ?case
  proof (cases "lx_pos lx < lx_source_len lx - 1 \<and> 0 < depth")
    case True
    have two: "exact (advance 2 lx)" if "cur lx \<noteq> newline" "lx_source lx ! (lx_pos lx + 1) \<noteq> newline"
      using True that by (intro exact_advance [OF 1(4)]) (auto simp: less_2_cases_iff)
    have "exact (advance_line lx)" using True by (intro exact_advance_line [OF 1(4)]) auto
    then show ?thesis using 1 True two by (subst block_comment.simps) auto
  next
    case False
    then show ?thesis using 1 by (subst block_comment.simps) auto
  qed
qed

lemma exact_skip_blanks: "exact lx \<Longrightarrow> exact (flux_lexer_skip_whitespace_and_comments lx)"
proof (induction lx rule: flux_lexer_skip_whitespace_and_comments.induct)
  case (1 lx)
  have a: "inside lx \<Longrightarrow> cur lx = space \<or> cur lx = tab \<Longrightarrow> exact (advance 1 lx)"
    by (rule exact_advance1 [OF 1(4)]) auto
  have b: "exact (flux_lexer_skip_line_comment lx)"
    unfolding flux_lexer_skip_line_comment_def by (rule exact_skip_while [OF 1(4)]) simp
  have c: "exact (flux_lexer_skip_block_comment lx)" if "inside lx" "cur lx = CHR ''/''" "ahead lx 1 (CHR ''*'')"
    unfolding flux_lexer_skip_block_comment_def using that
    by (intro exact_block_comment exact_advance [OF 1(4)]) (auto simp: ahead_def less_2_cases_iff)
  show ?case using 1 a b c by (subst flux_lexer_skip_whitespace_and_comments.simps) auto
qed

lemma exact_optional: "exact lx \<Longrightarrow> c \<noteq> newline \<Longrightarrow> exact (if ahead lx 0 c then advance 1 lx else lx)"
  using exact_advance1 by (auto simp: ahead_def)

lemma exact_optional_line: "exact lx \<Longrightarrow> exact (if ahead lx 0 c then advance_line lx else lx)"
  using exact_advance_line by (auto simp: ahead_def)

lemma exact_next_char: "exact lx \<Longrightarrow> exact (snd (flux_lexer_next_char lx))"
  by (simp add: flux_lexer_next_char_def exact_advance_line)

lemma exact_newline: "exact lx \<Longrightarrow> exact (fst (flux_lexer_scan_newline lx tok))"
  using exact_next_char [of lx] exact_next_char [of "snd (flux_lexer_next_char lx)"]
  by (auto simp: flux_lexer_scan_newline_def Let_def split: prod.split)

lemma exact_heading: "exact lx \<Longrightarrow> exact (fst (flux_lexer_scan_heading lx tok))"
  unfolding flux_lexer_scan_heading_def Let_def fst_conv
  by (intro exact_skip_while exact_optional) simp_all

lemma exact_read_lang: "exact lx \<Longrightarrow> exact (snd (read_lang n lx))"
proof (induction n lx rule: read_lang.induct)
  case (2 n lx)
  then show ?case using exact_advance1 [of lx] by (auto split: prod.split)
qed simp

lemma exact_fence: "exact lx \<Longrightarrow> inside lx \<Longrightarrow> at_fence lx \<Longrightarrow> exact (advance 3 lx)"
  by (rule exact_advance) (auto simp: at_fence_def ahead_def numeral_3_eq_3 less_Suc_eq)

lemma exact_fence_close:
  assumes "exact l" "inside l \<Longrightarrow> at_fence l"
  shows "exact (if inside l \<and> ahead (if inside l then advance 3 l else l) 0 newline
    then advance_line (if inside l then advance 3 l else l) else (if inside l then advance 3 l else l))"
proof (cases "inside l")
  case True
  then have "exact (advance 3 l)" using assms exact_fence by blast
  then show ?thesis using True exact_optional_line [of "advance 3 l" newline] by (auto split: if_splits)
qed (simp add: assms(1))

lemma exact_code_block:
  assumes "exact lx" "inside lx" "at_fence lx" shows "exact (fst (flux_lexer_scan_code_block lx tok))"
proof -
  obtain lang l1 where r: "read_lang 63 (advance 3 lx) = (lang, l1)" by fastforce
  let ?l2 = "skip_while (\<lambda>c. c \<noteq> newline) l1"
  let ?l3 = "if inside ?l2 then advance_line ?l2 else ?l2"
  let ?l4 = "skip_lines at_fence ?l3"
  have "exact l1" using exact_read_lang [OF exact_fence [OF assms], of 63] r by simp
  then have "exact ?l2" by (rule exact_skip_while) simp
  then have "exact ?l3" using exact_advance_line by simp
  then have l4: "exact ?l4" by (rule exact_skip_lines)
  from exact_fence_close [where l = ?l4, OF l4 skip_lines_stops [where stop = at_fence]] show ?thesis
    unfolding flux_lexer_scan_code_block_def r Let_def prod.case fst_conv .
qed

lemma exact_inline: "exact lx \<Longrightarrow> inside lx \<Longrightarrow> cur lx = backtick \<Longrightarrow> exact (fst (flux_lexer_scan_inline_code lx tok))"
proof -
  assume a: "exact lx" "inside lx" "cur lx = backtick"
  let ?l = "skip_lines (\<lambda>l. cur l = backtick) (advance 1 lx)"
  have l: "exact ?l" by (intro exact_skip_lines exact_advance1) (use a in simp_all)
  moreover have "exact (advance 1 ?l)" if "inside ?l"
    by (rule exact_advance1 [OF l that]) (use skip_lines_stops [OF that] in simp)
  ultimately show ?thesis by (simp add: flux_lexer_scan_inline_code_def Let_def)
qed

lemma exact_list_item: "exact lx \<Longrightarrow> inside lx \<Longrightarrow> cur lx \<noteq> newline \<Longrightarrow> exact (fst (flux_lexer_scan_list_item lx tok))"
  unfolding flux_lexer_scan_list_item_def Let_def fst_conv
  by (intro exact_skip_while exact_optional exact_advance1) simp_all

lemma word_not_newline: "\<not> is_word newline" "\<not> isdigit newline" "\<not> isxdigit newline" "\<not> isoctal newline"
  by code_simp+

lemma exact_words: "exact lx \<Longrightarrow> exact (fst (flux_lexer_scan_metadata True lx tok))"
  "exact lx \<Longrightarrow> exact (fst (flux_lexer_scan_identifier lx tok))"
  by (simp_all add: flux_lexer_scan_metadata_def flux_lexer_scan_identifier_def Let_def exact_skip_while word_not_newline)

lemma exact_directive: "exact lx \<Longrightarrow> cur lx \<noteq> newline \<Longrightarrow> ahead lx 1 (CHR ''!'') \<Longrightarrow> exact (fst (flux_lexer_scan_directive lx tok))"
  unfolding flux_lexer_scan_directive_def Let_def fst_conv
  by (intro exact_skip_while exact_advance) (auto simp: ahead_def less_2_cases_iff word_not_newline)

lemma exact_decimal: "exact lx \<Longrightarrow> exact (snd (scan_decimal lx))"
proof -
  assume a: "exact lx"
  have one: "exact l \<Longrightarrow> ahead l 0 c \<Longrightarrow> c \<noteq> newline \<Longrightarrow> exact (advance 1 l)" for l c
    using exact_advance1 [of l] by (auto simp: ahead_def)
  have skip: "exact l \<Longrightarrow> exact (skip_while isdigit l)" for l by (rule exact_skip_while) (simp_all add: word_not_newline)
  define l1 where "l1 = skip_while isdigit lx"
  define l2 where "l2 = (if ahead l1 0 (CHR ''.'') then skip_while isdigit (advance 1 l1) else l1)"
  have 1: "exact l1" unfolding l1_def by (rule skip [OF a])
  have 2: "exact l2" unfolding l2_def using 1 skip [OF one [OF 1]] by simp
  have sign: "exact (if ahead l 0 (CHR ''+'') \<or> ahead l 0 (CHR ''-'') then advance 1 l else l)" if "exact l" for l
    using one [OF that] that by auto
  show ?thesis
  proof (cases "ahead l2 0 (CHR ''e'') \<or> ahead l2 0 (CHR ''E'')")
    case True
    then have "exact (advance 1 l2)" using one [OF 2] by auto
    from skip [OF sign [OF this]] show ?thesis
      unfolding scan_decimal_def Let_def snd_conv l1_def [symmetric] l2_def [symmetric] if_P [OF True] .
  next
    case False
    show ?thesis using 2
      unfolding scan_decimal_def Let_def snd_conv l1_def [symmetric] l2_def [symmetric] if_not_P [OF False] .
  qed
qed

lemma exact_number: "exact lx \<Longrightarrow> inside lx \<Longrightarrow> exact (fst (flux_lexer_scan_number nl lx tok))"
proof -
  assume a: "exact lx" "inside lx"
  define r where "r = (if cur lx = CHR ''0'' \<and> (ahead lx 1 (CHR ''x'') \<or> ahead lx 1 (CHR ''X''))
             then (False, skip_while (\<lambda>c. isxdigit c \<or> c = CHR ''_'') (advance 2 lx)) else scan_decimal lx)"
  have "exact (snd r)"
  proof (cases "cur lx = CHR ''0'' \<and> (ahead lx 1 (CHR ''x'') \<or> ahead lx 1 (CHR ''X''))")
    case True
    then have "exact (advance 2 lx)" by (intro exact_advance [OF a(1)]) (auto simp: ahead_def less_2_cases_iff)
    then have "exact (skip_while (\<lambda>c. isxdigit c \<or> c = CHR ''_'') (advance 2 lx))"
      by (rule exact_skip_while) (simp add: word_not_newline)
    then show ?thesis using True by (auto simp: r_def)
  next
    case False
    then show ?thesis using exact_decimal [OF a(1)] by (auto simp: r_def)
  qed
  moreover have "exact (if ahead l 0 (CHR ''i'') \<or> ahead l 0 (CHR ''f'') \<or> ahead l 0 (CHR ''u'')
      then skip_while isdigit (advance 1 l) else l)" if "exact l" for l
    using that exact_skip_while [OF exact_advance1 [OF that], of isdigit] by (auto simp: ahead_def word_not_newline)
  ultimately show ?thesis
    unfolding flux_lexer_scan_number_def r_def [symmetric] Let_def by (cases r) simp
qed

lemma newline_no_operator: "[a, newline] \<notin> set two_char_operators" "[a, b, newline] \<notin> set three_char_operators"
  by (simp_all add: two_char_operators_def three_char_operators_def)

lemma exact_operator: "exact lx \<Longrightarrow> inside lx \<Longrightarrow> cur lx \<noteq> newline \<Longrightarrow> exact (fst (flux_lexer_scan_operator lx tok))"
proof -
  assume a: "exact lx" "inside lx" "cur lx \<noteq> newline"
  define l1 where "l1 = advance 1 lx"
  define l where "l = advance 1 l1"
  have 1: "exact l1" unfolding l1_def by (rule exact_advance1 [OF a])
  have 2: "exact l" if "inside l1" "[cur lx, cur l1] \<in> set two_char_operators"
    unfolding l_def by (rule exact_advance1 [OF 1 that(1)]) (use that(2) newline_no_operator(1) in metis)
  have 3: "exact (advance 1 l)" if "exact l" "inside l" "[cur lx, cur l1, cur l] \<in> set three_char_operators"
    by (rule exact_advance1 [OF that(1,2)]) (use that(3) newline_no_operator(2) in metis)
  show ?thesis unfolding flux_lexer_scan_operator_def Let_def fst_conv l1_def [symmetric] l_def [symmetric]
    using 1 2 3 by simp
qed

lemma exact_punctuation: "exact lx \<Longrightarrow> inside lx \<Longrightarrow> cur lx \<noteq> newline \<Longrightarrow> exact (fst (flux_lexer_scan_punctuation lx tok))"
  using exact_advance1 [of lx] by (auto simp: flux_lexer_scan_punctuation_def Let_def exact_def)

lemma exact_octal: "exact lx \<Longrightarrow> exact (snd (octal_escape n octal lx))"
proof (induction n octal lx rule: octal_escape.induct)
  case (2 n octal lx)
  show ?case
  proof (cases "inside lx \<and> isoctal (cur lx)")
    case True
    moreover from this have "exact (advance 1 lx)"
      by (intro exact_advance1 [OF 2(2)]) (auto simp: word_not_newline)
    ultimately show ?thesis using 2(1) by auto
  next
    case False
    then show ?thesis using 2(2) by auto
  qed
qed simp

text \<open>The characters of a string. The loop stops at the quote, at the end of the source or when the buffer is full.\<close>

lemma exact_string_loop:
  "exact lx \<Longrightarrow> plain_source (lx_source lx) \<Longrightarrow> exact (snd (string_loop q lx buf))
     \<and> (inside (snd (string_loop q lx buf)) \<longrightarrow> cur (snd (string_loop q lx buf)) = q
         \<or> 2047 \<le> length (fst (string_loop q lx buf)))"
proof (induction q lx buf rule: string_loop.induct)
  case (1 q lx buf)
  let ?l = "advance 1 lx"
  note pre = 1(5,6)
  show ?case
  proof (cases "inside lx \<and> cur lx \<noteq> q \<and> length buf < 2047")
    case a: True
    show ?thesis
    proof (cases "cur lx = backslash \<and> lx_pos lx + 1 < lx_source_len lx")
      case b: True
      have l: "exact ?l" by (rule exact_advance1 [OF pre(1)]) (use a b in auto)
      have "cur ?l \<noteq> newline" using pre b by (auto simp: plain_source_def exact_def)
      then have l2: "exact (advance 1 ?l)" by (intro exact_advance1 [OF l]) (use b in simp_all)
      have l3: "exact (snd (octal_escape 3 0 ?l))" by (rule exact_octal [OF l])
      have src: "lx_source (snd (octal_escape 3 0 ?l)) = lx_source lx" using octal_escape_onward [of ?l 3 0] by (simp add: onward_def)
      note IH = 1(1-3) [OF a b refl]
      show ?thesis
      proof (cases "simple_escape (cur ?l)")
        case None
        have "lx_source (advance 1 (advance 1 lx)) = lx_source lx" by simp
        note IH1 = IH(1) [OF None _ l3] and IH2 = IH(2) [OF None _ l2]
        show ?thesis using a b None IH1 IH2 pre(2) src
          by (simp add: string_loop.simps [of q lx buf] Let_def)
      next
        case (Some c)
        then show ?thesis using a b IH(3) [OF Some l2] pre(2) by (simp add: string_loop.simps [of q lx buf] Let_def)
      qed
    next
      case False
      have "exact (advance_line lx)" by (rule exact_advance_line [OF pre(1)]) (use a in simp)
      with 1(4) [OF a False] pre(2) show ?thesis using a False by (auto simp: string_loop.simps [of q lx buf])
    qed
  next
    case False
    then show ?thesis using pre by (auto simp: string_loop.simps [of q lx buf])
  qed
qed

lemma exact_string:
  assumes "exact lx" "inside lx" "cur lx \<noteq> newline" "plain_source (lx_source lx)"
    "tk_length (snd (flux_lexer_scan_string lx tok)) < 2047"
  shows "exact (fst (flux_lexer_scan_string lx tok))"
proof -
  obtain s l where s: "string_loop (cur lx) (advance 1 lx) [] = (s, l)" by fastforce
  have a: "exact (advance 1 lx)" by (rule exact_advance1 [OF assms(1-3)])
  have "exact l \<and> (inside l \<longrightarrow> cur l = cur lx \<or> 2047 \<le> length s)"
    using exact_string_loop [OF a, of "cur lx" "[]"] assms(4) s by simp
  moreover have "length s < 2047" using assms(5) s by (simp add: flux_lexer_scan_string_def)
  ultimately show ?thesis using assms(3) exact_advance1 [of l] s by (auto simp: flux_lexer_scan_string_def)
qed

text \<open>A result that is exact unless it is a string literal that fills the buffer.\<close>

definition placed :: "flux_lexer \<times> flux_token \<Rightarrow> bool" where
  "placed p \<longleftrightarrow> (tk_type (snd p) = TOK_STRING \<longrightarrow> tk_length (snd p) < 2047) \<longrightarrow> exact (fst p)"

lemma placedI: "exact (fst p) \<Longrightarrow> placed p"
  by (simp add: placed_def)

lemma placed_if: "(b \<Longrightarrow> placed p) \<Longrightarrow> (\<not> b \<Longrightarrow> placed q) \<Longrightarrow> placed (if b then p else q)"
  by simp

lemma exact_scan_token:
  assumes "exact lx" "inside lx" "plain_source (lx_source lx)"
    "tk_type (snd (scan_token nl lx tok)) = TOK_STRING \<longrightarrow> tk_length (snd (scan_token nl lx tok)) < 2047"
  shows "exact (fst (scan_token nl lx tok))"
proof -
  have fence: "exact (fst (flux_lexer_scan_code_block lx tok))"
    if "cur lx = backtick \<and> lx_pos lx + 2 < lx_source_len lx \<and> ahead lx 1 backtick \<and> ahead lx 2 backtick"
    by (rule exact_code_block [OF assms(1,2)]) (use that in \<open>simp add: at_fence_def\<close>)
  have str: "placed (flux_lexer_scan_string lx tok)" if "cur lx \<noteq> newline"
    using exact_string [OF assms(1,2) that assms(3), of tok] scan_types(8) [of lx tok] by (simp add: placed_def)
  have "placed (scan_token nl lx tok)"
    unfolding scan_token_def Let_def
  proof (intro placed_if, goal_cases)
    case 1 show ?case by (rule placedI [OF exact_newline [OF assms(1)]])
  next
    case 2 then show ?case by (intro placedI exact_directive [OF assms(1)]) auto
  next
    case 3 show ?case by (rule placedI [OF exact_heading [OF assms(1)]])
  next
    case 4 then show ?case by (intro placedI fence)
  next
    case 5 then show ?case by (intro placedI exact_inline [OF assms(1,2)]) auto
  next
    case 6 then show ?case by (intro placedI exact_directive [OF assms(1)]) auto
  next
    case 7 then show ?case by (intro placedI exact_list_item [OF assms(1,2)]) auto
  next
    case 8 show ?case by (rule placedI [OF exact_words(1) [OF assms(1)]])
  next
    case 9 then show ?case by (intro str) auto
  next
    case 10 show ?case by (rule placedI [OF exact_number [OF assms(1,2)]])
  next
    case 11 show ?case by (rule placedI [OF exact_words(2) [OF assms(1)]])
  next
    case 12 then show ?case by (intro placedI exact_operator [OF assms(1,2)]) auto
  next
    case 13 then show ?case by (intro placedI exact_punctuation [OF assms(1,2)]) auto
  next
    case 14 show ?case by (rule placedI) (simp add: flux_lexer_scan_text_def Let_def exact_text_loop assms(1))
  qed
  then show ?thesis using assms(4) by (simp add: placed_def)
qed

subsection \<open>The places of tokens\<close>

text \<open>Every scanning function takes the place of its token from the lexer at its start.\<close>

lemma scan_token_place: "tk_line (snd (scan_token nl lx tok)) = lx_line lx \<and> tk_col (snd (scan_token nl lx tok)) = lx_col lx"
proof -
  have if_place: "P (snd p) \<Longrightarrow> P (snd q) \<Longrightarrow> P (snd (if b then p else q))"
    for P :: "flux_token \<Rightarrow> bool" and p q :: "flux_lexer \<times> flux_token" and b by simp
  show ?thesis unfolding scan_token_def Let_def
    by (intro if_place [where P = "\<lambda>t. tk_line t = lx_line lx \<and> tk_col t = lx_col lx"])
      (simp_all add: flux_lexer_scan_newline_def flux_lexer_scan_heading_def flux_lexer_scan_code_block_def
      flux_lexer_scan_inline_code_def flux_lexer_scan_list_item_def flux_lexer_scan_metadata_def flux_lexer_scan_identifier_def
      flux_lexer_scan_string_def flux_lexer_scan_number_def flux_lexer_scan_operator_def flux_lexer_scan_punctuation_def
      flux_lexer_scan_directive_def flux_lexer_scan_text_def Let_def spanned_def located_def flux_token_set_text_def split: prod.split)
qed

text \<open>Tokens other than string literals that fill the buffer.\<close>

definition short_token :: "flux_token \<Rightarrow> bool" where
  "short_token tok \<longleftrightarrow> (tk_type tok = TOK_STRING \<longrightarrow> tk_length tok < 2047)"

lemma exact_next:
  assumes "exact lx" "plain_source (lx_source lx)" "short_token (snd (flux_lexer_next nl lx))"
  shows "exact (fst (flux_lexer_next nl lx))"
proof -
  let ?s = "flux_lexer_skip_whitespace_and_comments lx"
  have s: "exact ?s" "lx_source ?s = lx_source lx"
    using exact_skip_blanks [OF assms(1)] skip_blanks_onward [of lx] by (simp_all add: onward_def)
  show ?thesis
  proof (cases "inside ?s")
    case True
    then have e: "flux_lexer_next nl lx = scan_token nl ?s flux_token_init"
      by (simp add: flux_lexer_next_def flux_lexer_scan_next_def Let_def)
    show ?thesis unfolding e by (rule exact_scan_token [OF s(1) True]) (use assms s e in \<open>simp_all add: short_token_def\<close>)
  next
    case False
    then show ?thesis using s by (simp add: flux_lexer_next_def flux_lexer_scan_next_def Let_def)
  qed
qed

lemma next_place:
  assumes "exact lx"
  shows "(tk_line (snd (flux_lexer_next nl lx)), tk_col (snd (flux_lexer_next nl lx)))
    = place (take (lx_pos (flux_lexer_skip_whitespace_and_comments lx)) (lx_source lx))"
proof -
  let ?s = "flux_lexer_skip_whitespace_and_comments lx"
  have s: "exact ?s" "lx_source ?s = lx_source lx"
    using exact_skip_blanks [OF assms(1)] skip_blanks_onward [of lx] by (simp_all add: onward_def)
  then show ?thesis using scan_token_place [of nl ?s flux_token_init]
    by (simp add: flux_lexer_next_def flux_lexer_scan_next_def Let_def exact_def located_def)
qed

lemma exact_init:
  assumes "flux_lexer_init (Some src) (length src) = Val lx"
  shows "exact lx \<and> lx_source lx = src"
proof -
  define l0 where "l0 = \<lparr>lx_source = src, lx_source_len = length src, lx_pos = 0, lx_line = 1, lx_col = 1,
                lx_paren_depth = 0, lx_in_code_fence = False, lx_fence_lang = [], lx_in_frontmatter = False\<rparr>"
  have e: "exact l0" by (simp add: exact_def place_def l0_def)
  show ?thesis
  proof (cases "3 \<le> length src \<and> at_dashes l0")
    case True
    define l1 where "l1 = skip_lines (\<lambda>l. \<not> lx_pos l < lx_source_len l - 2 \<or> at_dashes l) (advance 3 l0)"
    have dashes: "exact (advance 3 l)" if "exact l" "at_dashes l" "lx_pos l + 3 \<le> lx_source_len l" for l
      by (rule exact_advance [OF that(1,3)]) (use that(2) in \<open>auto simp: at_dashes_def numeral_3_eq_3 less_Suc_eq\<close>)
    have lx: "lx = skip_frontmatter l0" using assms True by (simp add: flux_lexer_init_def l0_def Let_def)
    have "exact (advance 3 l0)" by (rule dashes [OF e]) (use True in \<open>simp_all add: l0_def\<close>)
    then have l1: "exact l1" unfolding l1_def by (rule exact_skip_lines)
    have "exact lx"
    proof (cases "lx_pos l1 < lx_source_len l1 - 2")
      case c: True
      have "inside l1" using c by simp
      then have "at_dashes l1" using skip_lines_stops [of "\<lambda>l. \<not> lx_pos l < lx_source_len l - 2 \<or> at_dashes l" "advance 3 l0", folded l1_def] c by simp
      then have "exact (advance 3 l1)" by (intro dashes [OF l1]) (use c in simp_all)
      then have "exact (if ahead (advance 3 l1) 0 newline then advance_line (advance 3 l1) else advance 3 l1)"
        by (rule exact_optional_line)
      then show ?thesis unfolding lx skip_frontmatter_def Let_def l1_def [symmetric] if_P [OF c] .
    next
      case False
      show ?thesis using l1 unfolding lx skip_frontmatter_def Let_def l1_def [symmetric] if_not_P [OF False] .
    qed
    moreover have "lx_source lx = src" using skip_frontmatter_onward [of l0] lx True by (simp add: onward_def l0_def)
    ultimately show ?thesis by simp
  next
    case False
    then have "lx = l0" using assms by (auto simp: flux_lexer_init_def l0_def Let_def split: if_splits)
    then show ?thesis using e by (simp add: l0_def)
  qed
qed

text \<open>C24. Tokens carry the right places: if no line break of the source is escaped and no string literal so far fills the
  buffer, the line and column of every token are those the text before it has, and the counters of the lexer
  are exact after every call.\<close>

theorem token_places:
  assumes "flux_lexer_init (Some src) (length src) = Val lx" "plain_source src"
    "\<And>k. k < n \<Longrightarrow> short_token (token_after nl k lx)"
  defines "l \<equiv> lexer_after nl n lx" and "tok \<equiv> token_after nl n lx"
  shows "(lx_line l, lx_col l) = place (take (lx_pos l) src) \<and>
    (tk_line tok, tk_col tok) = place (take (lx_pos (flux_lexer_skip_whitespace_and_comments l)) src)"
proof -
  have e: "exact (lexer_after nl n lx) \<and> lx_source (lexer_after nl n lx) = src" using assms(3)
  proof (induction n)
    case 0
    then show ?case using exact_init [OF assms(1)] by (simp add: lexer_after_def)
  next
    case (Suc n)
    let ?l = "lexer_after nl n lx"
    have l: "exact ?l" "lx_source ?l = src" using Suc by simp_all
    have "exact (fst (flux_lexer_next nl ?l))"
      by (rule exact_next [OF l(1)]) (use l(2) assms(2) Suc.prems [of n] in \<open>simp_all add: token_after_def\<close>)
    moreover have "onward ?l (fst (flux_lexer_next nl ?l))" by (rule next_onward) (use l(1) in \<open>simp add: exact_def\<close>)
    ultimately show ?case using l(2) by (simp add: lexer_after_Suc onward_def)
  qed
  have "(lx_line l, lx_col l) = place (take (lx_pos l) src)" using e by (simp add: l_def exact_def)
  moreover have "(tk_line tok, tk_col tok) = place (take (lx_pos (flux_lexer_skip_whitespace_and_comments l)) src)"
    using next_place [OF conjunct1 [OF e], of nl] e by (simp add: l_def tok_def token_after_def)
  ultimately show ?thesis by simp
qed

subsection \<open>String literals\<close>

text \<open>The literal of a string: quotation marks and backslashes escaped, everything else as it is.\<close>

definition literal :: "string \<Rightarrow> string" where
  "literal s = quotation # concat (map (\<lambda>c. if c = quotation \<or> c = backslash then [backslash, c] else [c]) s) @ [quotation]"

lemma drop_Cons_nth: "drop p xs = y # ys \<Longrightarrow> p < length xs \<and> xs ! p = y \<and> drop (Suc p) xs = ys"
  by (metis Cons_nth_drop_Suc drop_all linorder_not_less list.distinct(1) list.inject)

lemma string_loop_literal:
  "drop (lx_pos lx) (lx_source lx) = concat (map (\<lambda>c. if c = quotation \<or> c = backslash then [backslash, c] else [c]) s) @ quotation # rest
   \<Longrightarrow> lx_source_len lx = length (lx_source lx) \<Longrightarrow> length buf + length s \<le> 2047
   \<Longrightarrow> fst (string_loop quotation lx buf) = buf @ s
     \<and> drop (lx_pos (snd (string_loop quotation lx buf))) (lx_source lx) = quotation # rest"
proof (induction s arbitrary: lx buf)
  case Nil
  then have "drop (lx_pos lx) (lx_source lx) = quotation # rest" by simp
  from drop_Cons_nth [OF this] have "cur lx = quotation" by simp
  then show ?case using Nil by (simp add: string_loop.simps [of quotation lx buf])
next
  case (Cons c s)
  show ?case
  proof (cases "c = quotation \<or> c = backslash")
    case True
    then have a: "drop (lx_pos lx) (lx_source lx) = backslash # c # concat (map (\<lambda>c. if c = quotation \<or> c = backslash then [backslash, c] else [c]) s) @ quotation # rest"
      using Cons.prems(1) by simp
    note 1 = drop_Cons_nth [OF a]
    note 2 = drop_Cons_nth [OF conjunct2 [OF conjunct2 [OF 1]]]
    let ?l = "advance 1 (advance 1 lx)"
    have e: "string_loop quotation lx buf = string_loop quotation ?l (buf @ [c])"
      using 1 2 True Cons.prems(2,3) by (auto simp: string_loop.simps [of quotation lx buf] simple_escape_def)
    have "drop (lx_pos ?l) (lx_source ?l) = concat (map (\<lambda>c. if c = quotation \<or> c = backslash then [backslash, c] else [c]) s) @ quotation # rest"
      using 2 by simp
    from Cons.IH [OF this, of "buf @ [c]"] show ?thesis unfolding e using Cons.prems(2,3) by simp
  next
    case False
    then have a: "drop (lx_pos lx) (lx_source lx) = c # concat (map (\<lambda>c. if c = quotation \<or> c = backslash then [backslash, c] else [c]) s) @ quotation # rest"
      using Cons.prems(1) by simp
    note 1 = drop_Cons_nth [OF a]
    let ?l = "advance_line lx"
    have e: "string_loop quotation lx buf = string_loop quotation ?l (buf @ [c])"
      using 1 False Cons.prems(2,3) by (simp add: string_loop.simps [of quotation lx buf])
    have "drop (lx_pos ?l) (lx_source ?l) = concat (map (\<lambda>c. if c = quotation \<or> c = backslash then [backslash, c] else [c]) s) @ quotation # rest"
      using 1 by simp
    from Cons.IH [OF this, of "buf @ [c]"] show ?thesis unfolding e using Cons.prems(2,3) by simp
  qed
qed

text \<open>C25. Strings survive the lexer: where a source goes on with the literal of a string of at most 2047 characters, the next token
  is a STRING with exactly these characters, and the lexer stands behind the closing quotation mark.\<close>

theorem string_literal_roundtrip:
  assumes "drop (lx_pos lx) (lx_source lx) = literal s @ rest" "lx_source_len lx = length (lx_source lx)" "length s \<le> 2047"
  shows "case flux_lexer_next nl lx of (lx', tok) \<Rightarrow>
    tk_type tok = TOK_STRING \<and> tk_text tok = s \<and> tk_length tok = length s \<and> drop (lx_pos lx') (lx_source lx) = rest"
proof -
  let ?body = "concat (map (\<lambda>c. if c = quotation \<or> c = backslash then [backslash, c] else [c]) s) @ quotation # rest"
  have a: "drop (lx_pos lx) (lx_source lx) = quotation # ?body" using assms(1) by (simp add: literal_def)
  note 1 = drop_Cons_nth [OF a]
  have blanks: "flux_lexer_skip_whitespace_and_comments lx = lx"
    using 1 by (subst flux_lexer_skip_whitespace_and_comments.simps) simp
  have meta: "\<not> flux_lexer_is_metadata_line lx"
  proof -
    have "\<not> is_word quotation" by code_simp
    then show ?thesis using 1 metadata_starts [of lx "lx_pos lx"] by (auto simp: flux_lexer_is_metadata_line_def)
  qed
  have next': "flux_lexer_next nl lx = flux_lexer_scan_string lx flux_token_init"
    using 1 assms(2) meta by (simp add: flux_lexer_next_def flux_lexer_scan_next_def Let_def blanks scan_token_def)
  obtain t l where l: "string_loop quotation (advance 1 lx) [] = (t, l)" by fastforce
  have "drop (lx_pos (advance 1 lx)) (lx_source (advance 1 lx)) = ?body" using 1 by simp
  from string_loop_literal [OF this, of "[]"] have r: "t = s" "drop (lx_pos l) (lx_source lx) = quotation # rest"
    using l assms(2,3) by simp_all
  have "onward (advance 1 lx) l" using string_loop_onward [of "advance 1 lx" quotation "[]"] l by simp
  then have "lx_source_len l = length (lx_source lx)" using assms(2) by (simp add: onward_def)
  moreover note drop_Cons_nth [OF r(2)]
  ultimately show ?thesis unfolding next' using l r(1) 1 by (simp add: flux_lexer_scan_string_def located_def)
qed

theorem string_literal_roundtrip_witness:
  "case flux_lexer_next any_lib (lexer_on (literal [CHR ''a'', quotation, newline] @ '';'')) of (lx', tok) \<Rightarrow>
    tk_type tok = TOK_STRING \<and> tk_text tok = [CHR ''a'', quotation, newline] \<and> tk_length tok = length [CHR ''a'', quotation, newline]
    \<and> drop (lx_pos lx') (lx_source (lexer_on (literal [CHR ''a'', quotation, newline] @ '';''))) = '';''"
  by (rule string_literal_roundtrip) (simp_all add: lexer_on_def)

theorem token_places_witness:
  "let l = lexer_after any_lib 2 (lexer_on demo_source); tok = token_after any_lib 2 (lexer_on demo_source)
   in (lx_line l, lx_col l) = place (take (lx_pos l) demo_source)
     \<and> (tk_line tok, tk_col tok) = place (take (lx_pos (flux_lexer_skip_whitespace_and_comments l)) demo_source)"
proof -
  have i: "flux_lexer_init (Some demo_source) (length demo_source) = Val (lexer_on demo_source)" by code_simp
  have p: "plain_source demo_source" by (rule plain_sourceI) code_simp
  have t: "tk_type (snd (flux_lexer_next any_lib (lexer_on demo_source))) = TOK_KEYWORD"
    "tk_type (snd (flux_lexer_next any_lib (fst (flux_lexer_next any_lib (lexer_on demo_source))))) = TOK_IDENTIFIER"
    by code_simp+
  have s: "short_token (token_after any_lib k (lexer_on demo_source))" if "k < 2" for k
    using that t by (auto simp: less_2_cases_iff short_token_def token_after_def lexer_after_def)
  show ?thesis unfolding Let_def using token_places [OF i p s] by blast
qed

end
