(* ===== verification/Spec2Isabelle.thy ===== *)
theory Spec2Isabelle
  imports FluxMemory FluxCode FluxSchedProps FluxIpcProps FluxProcProps FluxHeapClaims FluxSystemProps
    FluxMailProps FluxSandboxProps FluxFirProps FluxFirFold FluxLexPlaces
begin

text \<open>The FLUX operating system.\<close>

end
